(* ===== verification/Prelude.thy ===== *)
theory Prelude
  imports Main "HOL-Library.Word"
begin

text \<open>
  Shared vocabulary of the development: bytes and data, the exceptions the
  Objective-C sources raise, the guard macros that raise them, and the list, word
  and result lemmas every component uses.

  The sources guard their operations with the macros \<open>ows_require\<close> (a bad
  argument), \<open>requireState\<close> (a call in the wrong state), \<open>checkOperation\<close> and
  \<open>checkSecurityOperation\<close> (a run-time failure). A guarded body is modelled as a
  value of \<open>'a result\<close>: \<open>Inl e\<close> when the exception \<open>e\<close> escapes, \<open>Inr x\<close> when
  the method returns \<open>x\<close>. Each macro is a function of the guard and of the rest of
  the body, so a definition lists its guards in the order of the source.
\<close>

unbundle bit_operations_syntax

subsection \<open>Types\<close>

type_synonym byte = "8 word"
type_synonym data = "byte list"
type_synonym u16 = "16 word"
type_synonym u32 = "32 word"
type_synonym u64 = "64 word"

datatype exn =
    BadArgument
  | BadState
  | OperationFailed
  | SecurityFailure
  | RangeException

type_synonym 'a result = "exn + 'a"

subsection \<open>Guards and sequencing\<close>

definition ows_require :: "bool \<Rightarrow> 'a result \<Rightarrow> 'a result" where
  "ows_require b k = (if b then k else Inl BadArgument)"

definition requireState :: "bool \<Rightarrow> 'a result \<Rightarrow> 'a result" where
  "requireState b k = (if b then k else Inl BadState)"

definition checkOperation :: "bool \<Rightarrow> 'a result \<Rightarrow> 'a result" where
  "checkOperation b k = (if b then k else Inl OperationFailed)"

definition checkSecurityOperation :: "bool \<Rightarrow> 'a result \<Rightarrow> 'a result" where
  "checkSecurityOperation b k = (if b then k else Inl SecurityFailure)"

fun bindR :: "'a result \<Rightarrow> ('a \<Rightarrow> 'b result) \<Rightarrow> 'b result" where
  "bindR (Inl e) k = Inl e"
| "bindR (Inr x) k = k x"

fun is_ok :: "'a result \<Rightarrow> bool" where
  "is_ok (Inl e) = False"
| "is_ok (Inr x) = True"

named_theorems guards "unfolding of the guard macros"

declare ows_require_def [guards] requireState_def [guards]
  checkOperation_def [guards] checkSecurityOperation_def [guards]

lemma ows_require_Inr [simp]:
  "(ows_require b k = Inr x) = (b \<and> k = Inr x)"
  by (simp add: ows_require_def)

lemma requireState_Inr [simp]:
  "(requireState b k = Inr x) = (b \<and> k = Inr x)"
  by (simp add: requireState_def)

lemma checkOperation_Inr [simp]:
  "(checkOperation b k = Inr x) = (b \<and> k = Inr x)"
  by (simp add: checkOperation_def)

lemma checkSecurityOperation_Inr [simp]:
  "(checkSecurityOperation b k = Inr x) = (b \<and> k = Inr x)"
  by (simp add: checkSecurityOperation_def)

lemma guard_true [simp]:
  "ows_require True k = k" "requireState True k = k"
  "checkOperation True k = k" "checkSecurityOperation True k = k"
  by (simp_all add: guards)

lemma guard_false [simp]:
  "ows_require False k = Inl BadArgument" "requireState False k = Inl BadState"
  "checkOperation False k = Inl OperationFailed"
  "checkSecurityOperation False k = Inl SecurityFailure"
  by (simp_all add: guards)

lemma bindR_Inr_iff [simp]: "(bindR m k = Inr y) = (\<exists>x. m = Inr x \<and> k x = Inr y)"
  by (cases m) auto

lemma bindR_Inl_iff: "(bindR m k = Inl e) = (m = Inl e \<or> (\<exists>x. m = Inr x \<and> k x = Inl e))"
  by (cases m) auto

lemma is_ok_iff: "is_ok m = (\<exists>x. m = Inr x)"
  by (cases m) auto

subsection \<open>Unsigned machine arithmetic\<close>

text \<open>
  \<open>NSUInteger\<close> is a 64-bit unsigned integer. Lengths and offsets are natural numbers
  here; a subtraction that can go below zero is written with its wrap-around.
\<close>

definition nsu_sub :: "nat \<Rightarrow> nat \<Rightarrow> nat" where
  "nsu_sub a b = (if b \<le> a then a - b else 2 ^ 64 - (b - a) mod 2 ^ 64)"

lemma nsu_sub_le [simp]: "b \<le> a \<Longrightarrow> nsu_sub a b = a - b"
  by (simp add: nsu_sub_def)

subsection \<open>Lists\<close>

lemma take_drop_append:
  "length xs = n \<Longrightarrow> take n (xs @ ys) = xs" "length xs = n \<Longrightarrow> drop n (xs @ ys) = ys"
  by simp_all

lemma nth_concat_fixed:
  assumes "\<forall>x \<in> set xss. length x = w" and "k < w * length xss"
  shows "concat xss ! k = (xss ! (k div w)) ! (k mod w)"
  using assms
proof (induction xss arbitrary: k)
  case Nil
  then show ?case by simp
next
  case (Cons xs xss)
  then have w: "length xs = w" by simp
  show ?case
  proof (cases "k < w")
    case True
    with w show ?thesis by (simp add: nth_append)
  next
    case False
    then obtain m where m: "k = w + m" using le_Suc_ex not_less by blast
    with Cons.prems w have "w > 0" and lt: "m < w * length xss" by (cases w; simp)+
    then have "k div w = Suc (m div w)" and "k mod w = m mod w"
      using m by (simp_all add: div_add_self1)
    with Cons.IH [of m] Cons.prems lt m w show ?thesis by (simp add: nth_append)
  qed
qed

lemma length_concat_fixed:
  "\<forall>x \<in> set xss. length x = w \<Longrightarrow> length (concat xss) = w * length xss"
  by (induction xss) auto

subsection \<open>Words\<close>

lemma word_eq_bitI:
  fixes x y :: "'a::len word"
  shows "(\<And>n. n < LENGTH('a) \<Longrightarrow> bit x n = bit y n) \<Longrightarrow> x = y"
  by (rule bit_word_eqI) auto

lemma unat_byte_less [simp]: "unat (b :: byte) < 256"
  using unsigned_less [of b] by simp

lemma word_xor_cancel [simp]:
  fixes x y z :: "'a::len word"
  shows "(x XOR z = y XOR z) = (x = y)" "(z XOR x = z XOR y) = (x = y)"
proof -
  have "(x XOR z) XOR z = x" for x :: "'a word" by (simp add: xor.assoc)
  then show "(x XOR z = y XOR z) = (x = y)" by metis
  then show "(z XOR x = z XOR y) = (x = y)" by (simp add: xor.commute)
qed

lemma ucast_byte_eq [simp]:
  "((ucast (b :: byte) :: u16) = ucast c) = (b = c)"
  "((ucast (b :: byte) :: u32) = ucast c) = (b = c)"
  "((ucast (b :: byte) :: u64) = ucast c) = (b = c)"
proof -
  have "ucast (ucast b :: u16) = b" "ucast (ucast b :: u32) = b" "ucast (ucast b :: u64) = b"
    for b :: byte by (rule word_eq_bitI; simp add: bit_simps)+
  then show "((ucast b :: u16) = ucast c) = (b = c)" "((ucast b :: u32) = ucast c) = (b = c)"
    "((ucast b :: u64) = ucast c) = (b = c)" by metis+
qed

subsection \<open>Differences of 16-bit numbers\<close>

lemma u16_bounds: "0 \<le> uint (w :: u16)" "uint (w :: u16) < 65536"
  using uint_range_size [of w] by (simp_all add: word_size)

lemma sint16_cases: "sint (w :: u16) = (if uint w < 32768 then uint w else uint w - 65536)"
proof -
  have m: "signed_take_bit 15 (d - 65536) = signed_take_bit 15 d" for d :: int
    unfolding signed_take_bit_eq_iff_take_bit_eq by (simp add: take_bit_eq_mod)
  have "sint w = signed_take_bit 15 (uint w)" by (simp add: sint_uint)
  also have "\<dots> = (if uint w < 32768 then uint w else uint w - 65536)"
  proof (cases "uint w < 32768")
    case True
    have "- 32768 \<le> uint w" using u16_bounds(1) [of w] by linarith
    with True show ?thesis by (simp add: signed_take_bit_int_eq_self)
  next
    case False
    have "uint w - 65536 < 32768" using u16_bounds(2) [of w] by linarith
    with False show ?thesis
      using signed_take_bit_int_eq_self [of 15 "uint w - 65536"] m [of "uint w"] by simp
  qed
  finally show ?thesis .
qed

lemma u16_diff: "uint (x - y :: u16) = (if uint y \<le> uint x then uint x - uint y else uint x - uint y + 65536)"
proof (cases "uint y \<le> uint x")
  case True
  have "uint x - uint y < 65536" using u16_bounds(2) [of x] u16_bounds(1) [of y] by linarith
  with True show ?thesis by (simp add: uint_word_ariths)
next
  case False
  have "(uint x - uint y) mod 65536 = (uint x - uint y + 65536) mod 65536" by simp
  also have "\<dots> = uint x - uint y + 65536"
  proof (rule mod_pos_pos_trivial)
    show "0 \<le> uint x - uint y + 65536" using u16_bounds(1) [of x] u16_bounds(2) [of y] by linarith
    show "uint x - uint y + 65536 < 65536" using False by linarith
  qed
  finally show ?thesis using False by (simp add: uint_word_ariths)
qed

lemma u16_rebase:
  assumes "uint (b' - b :: u16) \<le> uint (s - b)"
  shows "uint (s - b') = uint (s - b) - uint (b' - b)"
proof -
  have "s - b' = (s - b) - (b' - b)" by simp
  then show ?thesis using assms u16_diff [of "s - b" "b' - b"] by simp
qed

lemma u16_sint_sub:
  assumes "uint (x - b :: u16) \<le> 0x4000" "uint (y - b) \<le> 0x4000"
  shows "sint (x - y) = uint (x - b) - uint (y - b)"
proof -
  have "x - y = (x - b) - (y - b)" by simp
  then have d: "uint (x - y) = (if uint (y - b) \<le> uint (x - b) then uint (x - b) - uint (y - b)
      else uint (x - b) - uint (y - b) + 65536)"
    using u16_diff [of "x - b" "y - b"] by simp
  show ?thesis
    unfolding sint16_cases d using assms u16_bounds(1) [of "x - b"] u16_bounds(1) [of "y - b"]
    by (split if_split)+ linarith
qed

lemma byte_take_bit: "(x :: 'a::len word) AND 0xFF = take_bit 8 x"
  by (simp add: take_bit_eq_mask mask_eq_exp_minus_1)

lemma bytes16_join:
  "(ucast (ucast (v AND 0xFF) :: byte) :: u16) OR push_bit 8 (ucast (ucast (drop_bit 8 v AND 0xFF) :: byte)) = v"
  unfolding byte_take_bit by (rule word_eq_bitI) (auto simp: bit_simps not_less cong: conj_cong)

lemma bytes32_join:
  "((((ucast (ucast (v AND 0xFF) :: byte) :: u32) OR push_bit 8 (ucast (ucast (drop_bit 8 v AND 0xFF) :: byte)))
      OR push_bit 16 (ucast (ucast (drop_bit 16 v AND 0xFF) :: byte)))
      OR push_bit 24 (ucast (ucast (drop_bit 24 v AND 0xFF) :: byte))) = v"
  unfolding byte_take_bit by (rule word_eq_bitI) (auto simp: bit_simps not_less cong: conj_cong)

end
