(* ===== verification/DataUtil.thy ===== *)
theory DataUtil
  imports Prelude
begin

text \<open>
  The byte-level utilities of \<open>Signal/src/util\<close>: checked access, sub-ranges and
  concatenation of data (\<open>DataUtil.m\<close>, \<open>ArrayUtil.m\<close>), big-endian integers
  (\<open>Conversions.m\<close>), nibbles and congruent differences (\<open>NumberUtil.m\<close>), ASCII,
  hexadecimal and base 64 text (\<open>DataUtil.m\<close>, \<open>StringUtil.m\<close>), the constant-time
  comparison of \<open>CryptoTools.m\<close> and the table-driven checksum of \<open>Crc32.m\<close>.
\<close>

subsection \<open>Checked access and sub-ranges\<close>

definition uint8At :: "data \<Rightarrow> nat \<Rightarrow> byte result" where
  "uint8At d offset = ows_require (offset < length d) (Inr (d ! offset))"

definition setUint8At :: "data \<Rightarrow> nat \<Rightarrow> byte \<Rightarrow> data result" where
  "setUint8At d offset v = ows_require (offset < length d) (Inr (d[offset := v]))"

definition highUint4AtByteOffset :: "data \<Rightarrow> nat \<Rightarrow> byte result" where
  "highUint4AtByteOffset d offset = bindR (uint8At d offset) (\<lambda>b. Inr (drop_bit 4 b))"

definition lowUint4AtByteOffset :: "data \<Rightarrow> nat \<Rightarrow> byte result" where
  "lowUint4AtByteOffset d offset = bindR (uint8At d offset) (\<lambda>b. Inr (b AND 0xF))"

text \<open>Foundation raises a range exception for a range that leaves the data.\<close>

definition subdataWithRange :: "data \<Rightarrow> nat \<Rightarrow> nat \<Rightarrow> data result" where
  "subdataWithRange d location len =
     (if location + len \<le> length d then Inr (take len (drop location d)) else Inl RangeException)"

definition subdataVolatileWithRange :: "data \<Rightarrow> nat \<Rightarrow> nat \<Rightarrow> data result" where
  "subdataVolatileWithRange d location len =
     ows_require (location \<le> length d) (ows_require (len \<le> length d)
       (ows_require (location + len \<le> length d) (Inr (take len (drop location d)))))"

definition skip_data :: "data \<Rightarrow> nat \<Rightarrow> data result" where
  "skip_data d offset =
     ows_require (offset \<le> length d) (subdataWithRange d offset (length d - offset))"

definition take_data :: "data \<Rightarrow> nat \<Rightarrow> data result" where
  "take_data d takeCount = ows_require (takeCount \<le> length d) (subdataWithRange d 0 takeCount)"

definition skipLast :: "data \<Rightarrow> nat \<Rightarrow> data result" where
  "skipLast d skipLastCount =
     ows_require (skipLastCount \<le> length d) (subdataWithRange d 0 (length d - skipLastCount))"

definition takeLast :: "data \<Rightarrow> nat \<Rightarrow> data result" where
  "takeLast d takeLastCount =
     ows_require (takeLastCount \<le> length d)
       (subdataWithRange d (length d - takeLastCount) takeLastCount)"

definition replaceBytesStartingAt :: "data \<Rightarrow> nat \<Rightarrow> data \<Rightarrow> data result" where
  "replaceBytesStartingAt d offset src =
     ows_require (offset + length src \<le> length d)
       (Inr (take offset d @ src @ drop (offset + length src) d))"

definition tryFindIndexOf :: "data \<Rightarrow> data \<Rightarrow> nat option" where
  "tryFindIndexOf d sub =
     (if length sub > length d then None
      else List.find (\<lambda>i. take (length sub) (drop i d) = sub) [0..<length d - length sub + 1])"

definition dataWithLength :: "nat \<Rightarrow> data" where
  "dataWithLength n = replicate n 0"

definition ows_concatDatas :: "data list \<Rightarrow> data" where
  "ows_concatDatas ds = foldl (\<lambda>dst d. dst @ d) [] ds"

lemma ows_concatDatas_eq [simp]: "ows_concatDatas ds = concat ds"
proof -
  have "foldl (\<lambda>dst d. dst @ d) acc ds = acc @ concat ds" for acc :: data
    by (induction ds arbitrary: acc) auto
  then show ?thesis by (simp add: ows_concatDatas_def)
qed

lemma skip_data_eq: "skip_data d n = (if n \<le> length d then Inr (drop n d) else Inl BadArgument)"
  by (simp add: skip_data_def subdataWithRange_def guards)

lemma take_data_eq: "take_data d n = (if n \<le> length d then Inr (take n d) else Inl BadArgument)"
  by (simp add: take_data_def subdataWithRange_def guards)

lemma skipLast_eq:
  "skipLast d n = (if n \<le> length d then Inr (take (length d - n) d) else Inl BadArgument)"
  by (simp add: skipLast_def subdataWithRange_def guards)

lemma takeLast_eq:
  "takeLast d n = (if n \<le> length d then Inr (drop (length d - n) d) else Inl BadArgument)"
  by (simp add: takeLast_def subdataWithRange_def guards)

lemmas subdata_simps = skip_data_eq take_data_eq skipLast_eq takeLast_eq
  subdataWithRange_def subdataVolatileWithRange_def

lemma subdataWithRange_append [simp]:
  "subdataWithRange (xs @ ys @ zs) (length xs) (length ys) = Inr ys"
  by (simp add: subdataWithRange_def)

text \<open>\<open>tryFindIndexOf\<close> returns the first occurrence, or nothing when there is none.\<close>

lemma tryFindIndexOf_Some:
  "tryFindIndexOf d sub = Some i \<Longrightarrow>
     take (length sub) (drop i d) = sub \<and> i + length sub \<le> length d \<and>
     (\<forall>j < i. take (length sub) (drop j d) \<noteq> sub)"
  by (auto simp: tryFindIndexOf_def find_Some_iff nth_append split: if_splits
      simp del: upt_Suc)

lemma tryFindIndexOf_None:
  "tryFindIndexOf d sub = None \<Longrightarrow> take (length sub) (drop i d) \<noteq> sub \<or> length d < i"
proof (rule ccontr)
  assume N: "tryFindIndexOf d sub = None"
    and "\<not> (take (length sub) (drop i d) \<noteq> sub \<or> length d < i)"
  then have t: "take (length sub) (drop i d) = sub" and "i \<le> length d" by auto
  from t have "length sub \<le> length d - i"
    by (metis length_drop length_take min.cobounded1)
  with \<open>i \<le> length d\<close> have "i < length d - length sub + 1" and "length sub \<le> length d" by auto
  with N t show False
    by (auto simp: tryFindIndexOf_def find_None_iff simp del: upt_Suc)
qed

subsection \<open>Constant-time comparison\<close>

definition isEqualToData_TimingSafe :: "data \<Rightarrow> data \<Rightarrow> bool" where
  "isEqualToData_TimingSafe d other =
     (if length other \<noteq> length d then False
      else fold (\<lambda>i equal. equal \<and> d ! i = other ! i) [0..<length d] True)"

lemma fold_conj: "fold (\<lambda>i acc. acc \<and> P i) xs b = (b \<and> (\<forall>i \<in> set xs. P i))"
  by (induction xs arbitrary: b) auto

lemma isEqualToData_TimingSafe_eq [simp]: "isEqualToData_TimingSafe d other = (d = other)"
  by (auto simp: isEqualToData_TimingSafe_def fold_conj intro: nth_equalityI)

subsection \<open>Nibbles and congruent differences\<close>

definition uint8FromLowUInt4 :: "byte \<Rightarrow> byte \<Rightarrow> byte result" where
  "uint8FromLowUInt4 low4 high4 =
     ows_require (low4 < 0x10) (ows_require (high4 < 0x10) (Inr (low4 OR push_bit 4 high4)))"

definition lowUInt4OfUint8 :: "byte \<Rightarrow> byte" where
  "lowUInt4OfUint8 v = v AND 0xF"

definition highUInt4OfUint8 :: "byte \<Rightarrow> byte" where
  "highUInt4OfUint8 v = drop_bit 4 v"

text \<open>
  The difference of two 16-bit sequence numbers as a signed 16-bit number: the subtraction
  is in 32-bit integers, and the final conversion to 16 bits wraps.
\<close>

definition congruentDifferenceMod2ToThe16 :: "u16 \<Rightarrow> u16 \<Rightarrow> int" where
  "congruentDifferenceMod2ToThe16 s1 s2 =
     (let d = uint s2 - uint s1; d' = (if d > 32767 then d - 2 ^ 16 else d)
      in signed_take_bit 15 d')"

definition signOfInt32 :: "int \<Rightarrow> int" where
  "signOfInt32 v = (if v < 0 then -1 else if v > 0 then 1 else 0)"

definition largestIntegerThatIsAtMost :: "nat \<Rightarrow> nat \<Rightarrow> nat result" where
  "largestIntegerThatIsAtMost v multiple =
     ows_require (multiple \<noteq> 0)
       (let d = v div multiple * multiple in Inr (if d > v then d - multiple else d))"

definition smallestIntegerThatIsAtLeast :: "nat \<Rightarrow> nat \<Rightarrow> nat result" where
  "smallestIntegerThatIsAtLeast v multiple =
     ows_require (multiple \<noteq> 0)
       (let d = v div multiple * multiple in Inr (if d < v then d + multiple else d))"

definition subtractWithSaturationAtZero :: "nat \<Rightarrow> nat \<Rightarrow> nat" where
  "subtractWithSaturationAtZero v minusDelta = v - min v minusDelta"

lemma congruentDifference_sint: "congruentDifferenceMod2ToThe16 s1 s2 = sint (s2 - s1)"
proof -
  have *: "signed_take_bit 15 (d - 65536) = signed_take_bit 15 d" for d :: int
    unfolding signed_take_bit_eq_iff_take_bit_eq by (simp add: take_bit_eq_mod)
  have m: "signed_take_bit 15 (d mod 65536) = signed_take_bit 15 d" for d :: int
    unfolding signed_take_bit_eq_iff_take_bit_eq by (simp add: take_bit_eq_mod)
  have "sint (s2 - s1) = signed_take_bit 15 (uint s2 - uint s1)"
    unfolding sint_uint by (simp add: uint_word_ariths m)
  with * show ?thesis by (simp add: congruentDifferenceMod2ToThe16_def Let_def)
qed

text \<open>Splitting a byte into nibbles and joining them is the identity.\<close>

lemma nibble_take_bit: "(b :: byte) AND 0xF = take_bit 4 b"
  by (simp add: take_bit_eq_mask mask_eq_exp_minus_1)

lemma nibble_less: "(b :: byte) AND 0xF < 0x10" "drop_bit 4 (b :: byte) < 0x10"
proof -
  show "b AND 0xF < 0x10"
    unfolding nibble_take_bit word_less_nat_alt unsigned_take_bit_eq
    by (simp add: take_bit_eq_mod)
  have "unat b < 256" by simp
  then show "drop_bit 4 b < 0x10"
    unfolding word_less_nat_alt unsigned_drop_bit_eq
    by (simp add: drop_bit_nat_def take_bit_eq_mod del: unat_byte_less)
qed

lemma nibble_less_bit: "(b :: byte) < 0x10 \<Longrightarrow> take_bit 4 b = b"
  unfolding word_unat_eq_iff unsigned_take_bit_eq
  by (simp add: take_bit_eq_mod word_less_nat_alt)

lemma nibbles_join [simp]: "uint8FromLowUInt4 (b AND 0xF) (drop_bit 4 b) = Inr b"
proof -
  have "b AND 0xF OR push_bit 4 (drop_bit 4 b) = b"
    unfolding nibble_take_bit by (rule word_eq_bitI) (auto simp: bit_simps not_less cong: conj_cong)
  then show ?thesis by (simp add: uint8FromLowUInt4_def nibble_less)
qed

lemma nibbles_split:
  assumes "uint8FromLowUInt4 low high = Inr b"
  shows "b AND 0xF = low \<and> drop_bit 4 b = high"
proof -
  from assms have l: "take_bit 4 low = low" and h: "take_bit 4 high = high"
    and b: "b = take_bit 4 low OR push_bit 4 (take_bit 4 high)"
    by (auto simp: uint8FromLowUInt4_def nibble_less_bit)
  have "b AND 0xF = take_bit 4 low"
    unfolding b nibble_take_bit by (rule word_eq_bitI) (auto simp: bit_simps not_less cong: conj_cong)
  moreover have "drop_bit 4 b = take_bit 4 high"
    unfolding b by (rule word_eq_bitI) (auto simp: bit_simps not_less cong: conj_cong)
  ultimately show ?thesis by (simp add: l h)
qed

subsection \<open>Big-endian integers\<close>

definition bigEndianUInt16At :: "data \<Rightarrow> nat \<Rightarrow> u16 result" where
  "bigEndianUInt16At d offset =
     ows_require (offset \<le> nsu_sub (length d) 2)
       (bindR (uint8At d (1 + offset)) (\<lambda>b1. bindR (uint8At d (0 + offset)) (\<lambda>b0.
          Inr (ucast b1 OR push_bit 8 (ucast b0)))))"

definition bigEndianUInt32At :: "data \<Rightarrow> nat \<Rightarrow> u32 result" where
  "bigEndianUInt32At d offset =
     ows_require (offset \<le> nsu_sub (length d) 4)
       (bindR (uint8At d (3 + offset)) (\<lambda>b3. bindR (uint8At d (2 + offset)) (\<lambda>b2.
        bindR (uint8At d (1 + offset)) (\<lambda>b1. bindR (uint8At d (0 + offset)) (\<lambda>b0.
          Inr (((push_bit 0 (ucast b3) OR push_bit 8 (ucast b2)) OR push_bit 16 (ucast b1))
               OR push_bit 24 (ucast b0)))))))"

definition dataWithBigEndianBytesOfUInt16 :: "u16 \<Rightarrow> data" where
  "dataWithBigEndianBytesOfUInt16 v =
     [ucast (drop_bit 8 v AND 0xFF), ucast (drop_bit 0 v AND 0xFF)]"

definition dataWithBigEndianBytesOfUInt32 :: "u32 \<Rightarrow> data" where
  "dataWithBigEndianBytesOfUInt32 v =
     [ucast (drop_bit 24 v AND 0xFF), ucast (drop_bit 16 v AND 0xFF),
      ucast (drop_bit 8 v AND 0xFF), ucast (drop_bit 0 v AND 0xFF)]"

definition switchEndiannessOfData :: "data \<Rightarrow> data" where
  "switchEndiannessOfData d =
     foldl (\<lambda>r i. r @ [d ! (i - 1)]) [] (rev [1..<length d + 1])"

lemma length_bigEndian [simp]:
  "length (dataWithBigEndianBytesOfUInt16 v) = 2"
  "length (dataWithBigEndianBytesOfUInt32 w) = 4"
  by (simp_all add: dataWithBigEndianBytesOfUInt16_def dataWithBigEndianBytesOfUInt32_def)

lemma bigEndianUInt16At_append [simp]:
  "n = length xs \<Longrightarrow> bigEndianUInt16At (xs @ dataWithBigEndianBytesOfUInt16 v @ ys) n = Inr v"
  using bytes16_join [of v]
  by (simp add: bigEndianUInt16At_def uint8At_def dataWithBigEndianBytesOfUInt16_def nth_append)

lemma bigEndianUInt32At_append [simp]:
  "n = length xs \<Longrightarrow> bigEndianUInt32At (xs @ dataWithBigEndianBytesOfUInt32 v @ ys) n = Inr v"
  using bytes32_join [of v]
  by (simp add: bigEndianUInt32At_def uint8At_def dataWithBigEndianBytesOfUInt32_def nth_append)

lemma bigEndianUInt16At_ok:
  "is_ok (bigEndianUInt16At d n) = (n + 2 \<le> length d)"
  by (auto simp: bigEndianUInt16At_def uint8At_def is_ok_iff nsu_sub_def guards split: if_splits)

lemma bigEndianUInt32At_ok:
  "is_ok (bigEndianUInt32At d n) = (n + 4 \<le> length d)"
  by (auto simp: bigEndianUInt32At_def uint8At_def is_ok_iff nsu_sub_def guards split: if_splits)

lemma switchEndiannessOfData_eq [simp]: "switchEndiannessOfData d = rev d"
proof -
  have f: "foldl (\<lambda>r i. r @ [d ! (i - 1)]) acc js = acc @ map (\<lambda>i. d ! (i - 1)) js" for acc js
    by (induction js arbitrary: acc) auto
  have "map (\<lambda>i. d ! (i - 1)) [1..<length d + 1] = d"
    by (rule nth_equalityI) (auto simp del: upt_Suc)
  then show ?thesis unfolding switchEndiannessOfData_def f by (simp add: rev_map [symmetric])
qed

subsection \<open>Volatile sub-ranges\<close>

text \<open>
  The volatile variants return a view of the same storage; the bytes they show at the call
  are those of the copying variants.
\<close>

definition skipVolatile :: "data \<Rightarrow> nat \<Rightarrow> data result" where
  "skipVolatile d offset =
     ows_require (offset \<le> length d) (subdataVolatileWithRange d offset (length d - offset))"

definition takeVolatile :: "data \<Rightarrow> nat \<Rightarrow> data result" where
  "takeVolatile d takeCount =
     ows_require (takeCount \<le> length d) (subdataVolatileWithRange d 0 takeCount)"

definition skipLastVolatile :: "data \<Rightarrow> nat \<Rightarrow> data result" where
  "skipLastVolatile d n =
     ows_require (n \<le> length d) (subdataVolatileWithRange d 0 (length d - n))"

definition takeLastVolatile :: "data \<Rightarrow> nat \<Rightarrow> data result" where
  "takeLastVolatile d n =
     ows_require (n \<le> length d) (subdataVolatileWithRange d (length d - n) n)"

lemma volatile_eq:
  "skipVolatile d n = skip_data d n" "takeVolatile d n = take_data d n"
  "skipLastVolatile d n = skipLast d n" "takeLastVolatile d n = takeLast d n"
  by (simp_all add: skipVolatile_def takeVolatile_def skipLastVolatile_def takeLastVolatile_def
      subdata_simps guards)

subsection \<open>ASCII and hexadecimal text\<close>

definition encodedAsAscii :: "string \<Rightarrow> data result" where
  "encodedAsAscii s = checkOperation (list_all (\<lambda>c. (of_char c :: nat) < 128) s) (Inr (map of_char s))"

definition decodedAsAscii :: "data \<Rightarrow> string result" where
  "decodedAsAscii d =
     (if length d = 0 then Inr []
      else checkOperation (list_all (\<lambda>b. b AND 0x80 = 0) d) (Inr (map (\<lambda>b. char_of (unat b)) d)))"

definition decodedAsAsciiReplacingErrorsWithDots :: "data \<Rightarrow> string result" where
  "decodedAsAsciiReplacingErrorsWithDots d =
     decodedAsAscii (map (\<lambda>v. if v < 0x20 \<or> v > 0x7E then 0x2E else v) d)"

definition hexDigits :: string where
  "hexDigits = ''0123456789abcdef''"

definition encodedAsHexString :: "data \<Rightarrow> string" where
  "encodedAsHexString d =
     foldl (\<lambda>r b. r @ [hexDigits ! (unat b div 16), hexDigits ! (unat b mod 16)]) [] d"

text \<open>
  Foundation's \<open>NSScanner scanHexInt\<close> is the parameter \<open>scanHexInt\<close>: the number at the
  front of a text, when there is one.
\<close>

fun decodeHexPairs :: "(string \<Rightarrow> nat option) \<Rightarrow> string \<Rightarrow> nat \<Rightarrow> nat \<Rightarrow> data result" where
  "decodeHexPairs scanHexInt s i 0 = Inr []"
| "decodeHexPairs scanHexInt s i (Suc n) =
     (case scanHexInt (take 2 (drop (i * 2) s)) of
        None \<Rightarrow> Inl OperationFailed
      | Some r \<Rightarrow> checkOperation (r < 256)
          (bindR (decodeHexPairs scanHexInt s (i + 1) n) (\<lambda>rest. Inr (of_nat r # rest))))"

definition decodedAsHexString :: "(string \<Rightarrow> nat option) \<Rightarrow> string \<Rightarrow> data result" where
  "decodedAsHexString scanHexInt s =
     ows_require (length s mod 2 = 0) (decodeHexPairs scanHexInt s 0 (length s div 2))"

definition ows_toUint8Data :: "nat list \<Rightarrow> data" where
  "ows_toUint8Data xs = map of_nat xs"

definition withPrefixRemovedElseNull :: "string \<Rightarrow> string \<Rightarrow> string option" where
  "withPrefixRemovedElseNull s p =
     (if length p > 0 \<and> take (length p) s \<noteq> p then None else Some (drop (length p) s))"

lemma ascii_bit7: "(b AND 0x80 = (0 :: byte)) = (unat b < 128)"
proof -
  have "(b AND 0x80 = 0) = (\<not> bit b 7)"
    using and_exp_eq_0_iff_not_bit [of b 7] by simp
  also have "\<dots> = (\<not> bit (unat b) 7)" by (simp add: bit_unsigned_iff)
  also have "\<dots> = (unat b < 128)"
  proof -
    have "unat b div 128 = (if unat b < 128 then 0 else 1)"
      using unat_byte_less [of b] by (auto intro: div_nat_eqI simp del: unat_byte_less)
    then show ?thesis by (simp add: bit_iff_odd split: if_splits)
  qed
  finally show ?thesis .
qed

lemma unat_of_char [simp]: "unat (of_char c :: byte) = of_char c"
proof -
  have "(of_char c :: byte) = of_nat (of_char c)" by (simp only: of_nat_of_char)
  moreover have "(of_char c :: nat) < 256"
    by (metis nat_of_char_less_256)
  ultimately show ?thesis by (simp add: unat_of_nat)
qed

lemma ascii_roundtrip:
  "encodedAsAscii s = Inr d \<Longrightarrow> decodedAsAscii d = Inr s"
  by (auto simp: encodedAsAscii_def decodedAsAscii_def list_all_iff ascii_bit7 unat_of_nat
      guards comp_def split: if_splits)

lemma dots_ascii: "\<exists>s. decodedAsAsciiReplacingErrorsWithDots d = Inr s \<and> length s = length d"
  by (auto simp: decodedAsAsciiReplacingErrorsWithDots_def decodedAsAscii_def list_all_iff
      ascii_bit7 word_less_nat_alt guards)

lemma encodedAsHexString_concat:
  "encodedAsHexString d = concat (map (\<lambda>b. [hexDigits ! (unat b div 16), hexDigits ! (unat b mod 16)]) d)"
proof -
  have "foldl (\<lambda>r b. r @ f b) acc d = acc @ concat (map f d)" for f :: "byte \<Rightarrow> string" and acc
    by (induction d arbitrary: acc) auto
  then show ?thesis by (simp add: encodedAsHexString_def)
qed

lemma decodeHexPairs_shift:
  "decodeHexPairs f (x # y # s) (Suc i) n = decodeHexPairs f s i n"
  by (induction n arbitrary: i) (auto split: option.splits simp: guards)

lemma hex_roundtrip:
  assumes scan: "\<And>h l. h < 16 \<Longrightarrow> l < 16 \<Longrightarrow>
    scanHexInt [hexDigits ! h, hexDigits ! l] = Some (16 * h + l)"
  shows "decodedAsHexString scanHexInt (encodedAsHexString d) = Inr d"
proof -
  have "length (encodedAsHexString d) = 2 * length d"
    unfolding encodedAsHexString_concat by (induction d) auto
  moreover have "decodeHexPairs scanHexInt (encodedAsHexString d) 0 (length d) = Inr d"
  proof (induction d)
    case Nil
    then show ?case by simp
  next
    case (Cons b d)
    have "unat b div 16 < 16" using unat_byte_less [of b] by (simp del: unat_byte_less)
    then have "scanHexInt [hexDigits ! (unat b div 16), hexDigits ! (unat b mod 16)] = Some (unat b)"
      using scan [of "unat b div 16" "unat b mod 16"] by simp
    with Cons show ?case
      by (simp add: encodedAsHexString_concat decodeHexPairs_shift)
  qed
  ultimately show ?thesis by (simp add: decodedAsHexString_def)
qed


text \<open>Hexadecimal text decodes to the data it encodes, provided the system's scanner reads two
  lower-case digits as the number they denote.\<close>

theorem hex_text_roundtrip:
  assumes "\<forall>h < 16. \<forall>l < 16. scanHexInt [hexDigits ! h, hexDigits ! l] = Some (16 * h + l)"
  shows "decodedAsHexString scanHexInt (encodedAsHexString d) = Inr d"
  using assms by (intro hex_roundtrip) simp


definition hexDigitValue :: "char \<Rightarrow> nat" where
  "hexDigitValue c = length (takeWhile (\<lambda>x. x \<noteq> c) hexDigits)"

lemma hexDigitValue_all: "list_all (\<lambda>h. hexDigitValue (hexDigits ! h) = h) [0..<16]"
  by code_simp

lemma hexDigitValue_nth: "h < 16 \<Longrightarrow> hexDigitValue (hexDigits ! h) = h"
  using hexDigitValue_all unfolding list_all_iff by simp

theorem hex_text_roundtrip_witness:
  "decodedAsHexString (\<lambda>s. Some (16 * hexDigitValue (s ! 0) + hexDigitValue (s ! 1)))
     (encodedAsHexString [0, 171]) = Inr [0, 171]"
  by (rule hex_text_roundtrip) (simp add: hexDigitValue_nth)

end
