(* ===== verification/Base64.thy ===== *)
theory Base64
  imports DataUtil
begin

text \<open>
  Base 64 text of \<open>DataUtil.m\<close> (\<open>encodedAsBase64\<close>) and \<open>StringUtil.m\<close>
  (\<open>decodedAsBase64Data\<close>). Both methods go through an array of bits: bytes to bits,
  bits to six-bit words, words to characters, and back. The arrays are lists of the
  same lengths here, written by the same index arithmetic. The theorem of the theory is
  the round trip for data that is not empty; decoding the empty text raises.
\<close>

subsection \<open>Encoding\<close>

definition base64Chars :: string where
  "base64Chars = ''ABCDEFGHIJKLMNOPQRSTUVWXYZabcdefghijklmnopqrstuvwxyz0123456789+/''"

definition bitsOfBytes :: "data \<Rightarrow> bool list" where
  "bitsOfBytes d = map (\<lambda>k. bit (d ! (k div 8)) (7 - k mod 8)) [0..<length d * 8]"

definition base64WordAt :: "bool list \<Rightarrow> nat \<Rightarrow> byte" where
  "base64WordAt bits i =
     fold (\<lambda>j w. let offset = i * 6 + 6 - 1 - j in
             if offset \<ge> length bits then w
             else if bits ! offset then w OR push_bit j 1 else w) [0..<6] 0"

definition base64WordCount :: "nat \<Rightarrow> nat" where
  "base64WordCount bitCount =
     (let n = bitCount div 6 in if n * 6 < bitCount then n + 1 else n)"

definition encodedAsBase64 :: "data \<Rightarrow> string result" where
  "encodedAsBase64 d =
     (let bits = bitsOfBytes d;
          words = map (base64WordAt bits) [0..<base64WordCount (length bits)];
          ascii = map (\<lambda>w. of_char (base64Chars ! unat w)) words
                  @ replicate (length bits mod 3) (of_char (CHR ''=''))
      in decodedAsAscii ascii)"

subsection \<open>Decoding\<close>

definition charToValueMap :: "byte list" where
  "charToValueMap =
     fold (\<lambda>i m. m[of_char (base64Chars ! i) := of_nat i]) [0..<64] (replicate 256 255)"

function base64Padding :: "string \<Rightarrow> nat \<Rightarrow> nat result" where
  "base64Padding s paddingCount =
     (if paddingCount < 2 \<and> paddingCount < nsu_sub (length s) 1 then
        (if length s < paddingCount + 1 then Inl RangeException
         else if s ! (length s - paddingCount - 1) = CHR ''=''
         then base64Padding s (paddingCount + 1) else Inr paddingCount)
      else Inr paddingCount)"
  by pat_completeness auto
termination by (relation "measure (\<lambda>(s, p). 2 - p)") auto

declare base64Padding.simps [simp del]

fun base64Values :: "data \<Rightarrow> byte list result" where
  "base64Values [] = Inr []"
| "base64Values (c # cs) =
     (let w = charToValueMap ! unat c in
      ows_require (w < 64) (bindR (base64Values cs) (\<lambda>ws. Inr (w # ws))))"

definition byteOfBits :: "bool list \<Rightarrow> nat \<Rightarrow> byte" where
  "byteOfBits bits i =
     fold (\<lambda>j b. if bits ! ((i + 1) * 8 - 1 - j) then b OR push_bit j 1 else b) [0..<8] 0"

definition decodedAsBase64Data :: "string \<Rightarrow> data result" where
  "decodedAsBase64Data s =
     bindR (base64Padding s 0) (\<lambda>paddingCount.
       let wordCount = length s - paddingCount;
           bitCount = nsu_sub (length s * 6) (paddingCount * 8);
           byteCount = bitCount div 8
       in checkOperation (bitCount mod 8 = 0)
            (bindR (encodedAsAscii s) (\<lambda>ascii.
             bindR (base64Values (take wordCount ascii)) (\<lambda>words.
               let bits = map (\<lambda>k. bit (words ! (k div 6)) (5 - k mod 6)) [0..<bitCount]
               in Inr (map (byteOfBits bits) [0..<byteCount])))))"

subsection \<open>The round trip\<close>

lemma bit_fold_or:
  "bit (fold (\<lambda>j w. if c j then w OR push_bit j 1 else w) js w0 :: byte) n =
     (bit w0 n \<or> (n < 8 \<and> n \<in> set js \<and> c n))"
  by (induction js arbitrary: w0) (auto simp: bit_simps)

lemma bit_base64WordAt:
  "bit (base64WordAt bits i) n = (n < 6 \<and> i * 6 + 5 - n < length bits \<and> bits ! (i * 6 + 5 - n))"
proof -
  have "base64WordAt bits i =
    fold (\<lambda>j w. if i * 6 + 5 - j < length bits \<and> bits ! (i * 6 + 5 - j)
                 then w OR push_bit j 1 else w) [0..<6] 0"
    unfolding base64WordAt_def
    by (intro fold_cong) (auto simp: Let_def fun_eq_iff not_le add.commute)
  then show ?thesis by (auto simp: bit_fold_or simp del: upt_Suc)
qed

lemma base64WordAt_less: "unat (base64WordAt bits i) < 64"
proof -
  have "take_bit 6 (base64WordAt bits i) = base64WordAt bits i"
    by (rule word_eq_bitI) (auto simp: bit_simps bit_base64WordAt)
  then have "take_bit 6 (unat (base64WordAt bits i)) = unat (base64WordAt bits i)"
    by (metis unsigned_take_bit_eq)
  then show ?thesis using take_bit_nat_less_exp [of 6 "unat (base64WordAt bits i)"] by simp
qed

lemma byteOfBits_bit:
  "bit (byteOfBits bits i) n = (n < 8 \<and> bits ! (i * 8 + 7 - n))"
proof -
  have e: "(i + 1) * 8 - 1 - j = i * 8 + 7 - j" for j by simp
  show ?thesis unfolding byteOfBits_def e bit_fold_or by auto
qed

lemma base64Chars_table:
  "list_all (\<lambda>k. charToValueMap ! unat (of_char (base64Chars ! k) :: byte) = of_nat k \<and>
      (of_char (base64Chars ! k) :: nat) < 128 \<and> base64Chars ! k \<noteq> CHR ''='') [0..<64]"
  by code_simp

lemma base64Chars_props:
  assumes "k < 64"
  shows "charToValueMap ! of_char (base64Chars ! k) = of_nat k"
    and "(of_char (base64Chars ! k) :: nat) < 128" and "base64Chars ! k \<noteq> CHR ''=''"
proof -
  from assms have "k \<in> set [0..<64]" by simp
  with base64Chars_table show "charToValueMap ! of_char (base64Chars ! k) = of_nat k"
    and "(of_char (base64Chars ! k) :: nat) < 128" and "base64Chars ! k \<noteq> CHR ''=''"
    unfolding list_all_iff unat_of_char by blast+
qed

lemma base64Values_map:
  "\<forall>w \<in> set ws. unat w < 64 \<Longrightarrow>
     base64Values (map (\<lambda>w. of_char (base64Chars ! unat w)) ws) = Inr ws"
  by (induction ws) (simp_all add: base64Chars_props Let_def word_less_nat_alt)

lemma base64_lengths:
  assumes "0 < n"
  shows "n * 8 mod 3 = 0 \<and> base64WordCount (n * 8) * 6 = n * 8 \<or>
         n * 8 mod 3 = 1 \<and> base64WordCount (n * 8) * 6 = n * 8 + 2 \<or>
         n * 8 mod 3 = 2 \<and> base64WordCount (n * 8) * 6 = n * 8 + 4"
proof -
  have "n = 3 * (n div 3) + n mod 3" by simp
  then obtain q r where n: "n = 3 * q + r" and "r < 3" by (metis mod_less_divisor zero_less_numeral)
  then consider "r = 0" | "r = 1" | "r = 2" by linarith
  then show ?thesis
  proof cases
    case 1
    then have "n * 8 div 6 = 4 * q" "n * 8 mod 3 = 0" by (simp_all add: n)
    then show ?thesis using 1 by (simp add: n base64WordCount_def)
  next
    case 2
    have "n * 8 div 6 = 4 * q + 1" by (rule div_nat_eqI) (simp_all add: n 2)
    moreover have "n * 8 mod 3 = 2" unfolding n 2 by presburger
    ultimately show ?thesis using 2 by (simp add: n base64WordCount_def)
  next
    case 3
    have "n * 8 div 6 = 4 * q + 2" by (rule div_nat_eqI) (simp_all add: n 3)
    moreover have "n * 8 mod 3 = 1" unfolding n 3 by presburger
    ultimately show ?thesis using 3 by (simp add: n base64WordCount_def)
  qed
qed

lemma base64_two_words:
  assumes "0 < n"
  shows "2 \<le> base64WordCount (n * 8)"
  using base64_lengths [OF assms] assms by (elim disjE conjE) linarith+

lemma base64Padding_text:
  assumes ws: "\<forall>w \<in> set ws. unat w < 64" and p: "p \<le> 2" and l: "2 \<le> length ws"
  shows "base64Padding (map (\<lambda>w. base64Chars ! unat w) ws @ replicate p (CHR ''='')) 0 = Inr p"
    (is "base64Padding ?s 0 = _")
proof -
  have last: "?s ! (length ws - 1) \<noteq> CHR ''=''"
    using ws l base64Chars_props(3) [of "unat (ws ! (length ws - 1))"] by (simp add: nth_append)
  have eq: "length ws \<le> k \<Longrightarrow> k < length ?s \<Longrightarrow> ?s ! k = CHR ''=''" for k
    by (simp add: nth_append)
  from p consider "p = 0" | "p = 1" | "p = 2" by linarith
  then show ?thesis
  proof cases
    case 1 then show ?thesis using l last
      by (subst base64Padding.simps) auto
  next
    case 2 then show ?thesis using l last eq [of "length ws"]
      by (subst base64Padding.simps, simp, subst base64Padding.simps, auto)
  next
    case 3 then show ?thesis using l eq [of "length ws"] eq [of "Suc (length ws)"]
      by (subst base64Padding.simps, simp, subst base64Padding.simps, simp,
          subst base64Padding.simps, auto)
  qed
qed

lemma bytes_of_bits:
  "map (byteOfBits (bitsOfBytes d)) [0..<length d] = d"
proof (rule nth_equalityI)
  fix i assume "i < length (map (byteOfBits (bitsOfBytes d)) [0..<length d])"
  then have i: "i < length d" by simp
  have "byteOfBits (bitsOfBytes d) i = d ! i"
  proof (rule word_eq_bitI)
    fix n assume "n < LENGTH(8)"
    then have n: "n < 8" by simp
    then have k: "i * 8 + 7 - n < length d * 8" using i by linarith
    have e: "i * 8 + 7 - n = 8 * i + (7 - n)" using n by simp
    have "(8 * i + (7 - n)) mod 8 = 7 - n" by (simp only: mod_mult_self4) simp
    with n have "(i * 8 + 7 - n) div 8 = i" "7 - (i * 8 + 7 - n) mod 8 = n" unfolding e
      by simp_all
    with k n show "bit (byteOfBits (bitsOfBytes d) i) n = bit (d ! i) n"
      by (simp add: byteOfBits_bit bitsOfBytes_def)
  qed
  with i show "map (byteOfBits (bitsOfBytes d)) [0..<length d] ! i = d ! i" by simp
qed simp

lemma bits_of_words:
  assumes "length bits \<le> base64WordCount (length bits) * 6"
  shows "map (\<lambda>k. bit (map (base64WordAt bits) [0..<base64WordCount (length bits)] ! (k div 6))
     (5 - k mod 6)) [0..<length bits] = bits"
proof (rule nth_equalityI)
  fix k assume "k < length (map (\<lambda>k. bit (map (base64WordAt bits) [0..<base64WordCount (length bits)] ! (k div 6))
     (5 - k mod 6)) [0..<length bits])"
  then have k: "k < length bits" by simp
  with assms have "k div 6 < base64WordCount (length bits)" by auto
  moreover have "k div 6 * 6 + 5 - (5 - k mod 6) = k"
    using mod_less_divisor [of 6 k] div_mult_mod_eq [of k 6] by linarith
  ultimately show "map (\<lambda>k. bit (map (base64WordAt bits) [0..<base64WordCount (length bits)] ! (k div 6))
     (5 - k mod 6)) [0..<length bits] ! k = bits ! k"
    using k by (auto simp: bit_base64WordAt less_Suc_eq_le)
qed simp


lemma decodedAsAscii_string:
  "list_all (\<lambda>c. (of_char c :: nat) < 128) s \<Longrightarrow> decodedAsAscii (map of_char s) = Inr s"
  using ascii_roundtrip [of s "map of_char s"] by (simp add: encodedAsAscii_def)

text \<open>Encoding any non-empty data as Base64 succeeds, and decoding the text gives the data back,
  for every length and so for every amount of padding.\<close>

theorem base64_roundtrip:
  assumes "d \<noteq> []"
  shows "\<exists>s. encodedAsBase64 d = Inr s \<and> decodedAsBase64Data s = Inr d"
proof -
  define bits where "bits = bitsOfBytes d"
  define ws where "ws = map (base64WordAt bits) [0..<base64WordCount (length bits)]"
  define p where "p = length bits mod 3"
  define s where "s = map (\<lambda>w. base64Chars ! unat w) ws @ replicate p (CHR ''='')"
  have lb: "length bits = length d * 8" by (simp add: bits_def bitsOfBytes_def)
  have ws: "\<forall>w \<in> set ws. unat w < 64" by (auto simp: ws_def base64WordAt_less)
  have lens: "length ws * 6 = length bits + 2 * p" "p \<le> 2" "2 \<le> length ws"
  proof -
    have "0 < length d" using assms by simp
    with base64_lengths [OF this] base64_two_words [OF this] show "length ws * 6 = length bits + 2 * p" "p \<le> 2" "2 \<le> length ws"
      by (auto simp: ws_def p_def lb)
  qed
  have asc: "list_all (\<lambda>c. (of_char c :: nat) < 128) s"
    using ws by (auto simp: s_def list_all_iff base64Chars_props)
  have "encodedAsBase64 d = decodedAsAscii (map of_char s)"
    by (simp add: encodedAsBase64_def Let_def bits_def [symmetric] ws_def s_def p_def comp_def)
  then have enc: "encodedAsBase64 d = Inr s" using asc by (simp add: decodedAsAscii_string)
  have "length s = length ws + p" by (simp add: s_def)
  then have n: "nsu_sub (length s * 6) (p * 8) = length bits" "length s - p = length ws"
    using lens by simp_all
  have "base64Padding s 0 = Inr p"
    unfolding s_def using ws lens(2,3) by (rule base64Padding_text)
  moreover have "encodedAsAscii s = Inr (map of_char s)" using asc by (simp add: encodedAsAscii_def)
  moreover have "base64Values (take (length ws) (map of_char s)) = Inr ws"
    using base64Values_map [OF ws] by (simp add: s_def comp_def)
  moreover have "map (\<lambda>k. bit (ws ! (k div 6)) (5 - k mod 6)) [0..<length bits] = bits"
    unfolding ws_def by (rule bits_of_words) (use lens in \<open>simp add: ws_def\<close>)
  ultimately have "decodedAsBase64Data s = Inr (map (byteOfBits bits) [0..<length bits div 8])"
    using lb by (simp add: decodedAsBase64Data_def Let_def n)
  then have "decodedAsBase64Data s = Inr d" using lb
    by (simp add: bits_def bytes_of_bits)
  with enc show ?thesis by blast
qed

theorem base64_roundtrip_witness:
  "\<exists>s. encodedAsBase64 [1, 2] = Inr s \<and> decodedAsBase64Data s = Inr [1, 2]"
  by (rule base64_roundtrip) simp

text \<open>The empty data encodes to the empty text, and decoding the empty text raises a range
  exception: the search for padding starts before the first character.\<close>

theorem base64_empty:
  "encodedAsBase64 [] = Inr [] \<and> decodedAsBase64Data [] = Inl RangeException"
  by (simp add: encodedAsBase64_def bitsOfBytes_def base64WordCount_def decodedAsAscii_def
      decodedAsBase64Data_def base64Padding.simps nsu_sub_def)

end
