(* ===== verification/Crc32.thy ===== *)
theory Crc32
  imports DataUtil
begin

text \<open>
  The checksum of \<open>Signal/src/util/Crc32.m\<close>, which closes every ZRTP handshake packet:
  the table of \<open>generateCRC32Table\<close> and the byte loop over it. The reference is the
  bit-serial shift register the table abbreviates; the table-driven loop equals it for
  every polynomial, and for a polynomial of full degree two data that differ in exactly one
  byte never have the same checksum.
\<close>

definition crcShift :: "u32 \<Rightarrow> u32 \<Rightarrow> u32" where
  "crcShift poly crc = (if crc AND 1 = 1 then drop_bit 1 crc XOR poly else drop_bit 1 crc)"

definition generateCRC32Table :: "u32 \<Rightarrow> u32 list" where
  "generateCRC32Table poly =
     map (\<lambda>i. fold (\<lambda>j crc. crcShift poly crc) (rev [1..<9]) (of_nat i)) [0..<256]"

definition crc32WithSeed :: "data \<Rightarrow> u32 \<Rightarrow> u32 \<Rightarrow> u32" where
  "crc32WithSeed d seed poly =
     (let pTable = generateCRC32Table poly;
          crc = foldl (\<lambda>crc b. drop_bit 8 crc XOR pTable ! unat ((crc AND 0xFF) XOR ucast b)) seed d
      in crc XOR 0xFFFFFFFF)"

definition crc32 :: "data \<Rightarrow> u32" where
  "crc32 d = crc32WithSeed d 0xFFFFFFFF 0xEDB88320"

text \<open>The reference: shift the register once per bit, least significant bit first.\<close>

definition crcByte :: "u32 \<Rightarrow> u32 \<Rightarrow> byte \<Rightarrow> u32" where
  "crcByte poly crc b = (crcShift poly ^^ 8) (crc XOR ucast b)"

definition crcReference :: "u32 \<Rightarrow> u32 \<Rightarrow> data \<Rightarrow> u32" where
  "crcReference poly seed d = foldl (crcByte poly) seed d XOR 0xFFFFFFFF"

lemma crcShift_bit0: "crcShift poly crc = (if bit crc 0 then drop_bit 1 crc XOR poly else drop_bit 1 crc)"
  by (simp add: crcShift_def and_one_eq bit_0 odd_iff_mod_2_eq_one)

lemma crcShift_xor: "crcShift p (x XOR y) = crcShift p x XOR crcShift p y"
  unfolding crcShift_bit0 by (rule word_eq_bitI) (auto simp: bit_simps dest: bit_imp_le_length)

lemma crcShift_funpow_xor: "(crcShift p ^^ n) (x XOR y) = (crcShift p ^^ n) x XOR (crcShift p ^^ n) y"
  by (induction n) (simp_all add: crcShift_xor)

lemma crcShift_funpow_high:
  "\<forall>k < n. \<not> bit x k \<Longrightarrow> (crcShift p ^^ n) x = drop_bit n x"
proof (induction n arbitrary: x)
  case (Suc n)
  then have "crcShift p x = drop_bit 1 x" by (simp add: crcShift_bit0)
  moreover have "\<forall>k < n. \<not> bit (drop_bit 1 x) k" using Suc.prems by (simp add: bit_simps)
  ultimately show ?case using Suc.IH [of "drop_bit 1 x"] by (simp add: funpow_swap1)
qed simp

lemma crcShift_funpow_8:
  "(crcShift p ^^ 8) x = drop_bit 8 x XOR (crcShift p ^^ 8) (take_bit 8 x)"
proof -
  have x: "x = push_bit 8 (drop_bit 8 x) XOR take_bit 8 x"
    by (rule word_eq_bitI) (auto simp: bit_simps not_less cong: conj_cong)
  have "(crcShift p ^^ 8) (push_bit 8 (drop_bit 8 x)) = drop_bit 8 (push_bit 8 (drop_bit 8 x))"
    by (rule crcShift_funpow_high) (simp add: bit_simps)
  also have "\<dots> = drop_bit 8 x"
    by (rule word_eq_bitI) (auto simp: bit_simps dest: bit_imp_le_length)
  finally show ?thesis by (subst x) (simp only: crcShift_funpow_xor)
qed

lemma fold_const_funpow: "fold (\<lambda>j. f) js x = (f ^^ length js) x"
  by (induction js arbitrary: x) (simp_all add: funpow_swap1)

lemma generateCRC32Table_nth:
  "i < 256 \<Longrightarrow> generateCRC32Table p ! i = (crcShift p ^^ 8) (of_nat i)"
  by (simp add: generateCRC32Table_def fold_const_funpow del: upt_Suc funpow.simps)

lemma crc_step:
  "drop_bit 8 crc XOR generateCRC32Table p ! unat ((crc AND 0xFF) XOR ucast b) = crcByte p crc b"
proof -
  have i: "(crc AND 0xFF) XOR ucast b = take_bit 8 (crc XOR ucast b)"
    unfolding byte_take_bit by (rule word_eq_bitI) (auto simp: bit_simps dest: bit_imp_le_length)
  have "unat (take_bit 8 (crc XOR ucast b)) < 256"
    unfolding unsigned_take_bit_eq by (simp add: take_bit_eq_mod)
  moreover have "drop_bit 8 (crc XOR ucast b) = drop_bit 8 crc"
    by (rule word_eq_bitI) (auto simp: bit_simps dest: bit_imp_le_length)
  ultimately show ?thesis
    unfolding crcByte_def crcShift_funpow_8 [of p "crc XOR ucast b"] i
    by (simp add: generateCRC32Table_nth)
qed

lemma crc32_table_eq: "crc32WithSeed d seed poly = crcReference poly seed d"
  by (simp add: crc32WithSeed_def crcReference_def Let_def crc_step)

lemma crcShift_inj:
  assumes "bit p 31"
  shows "inj (crcShift p)"
proof (rule injI)
  fix x y assume e: "crcShift p x = crcShift p y"
  have b: "bit (crcShift p z) 31 = bit z 0" for z
    using assms by (simp add: crcShift_bit0 bit_simps impossible_bit)
  have z: "bit x 0 = bit y 0" using e b by metis
  with e have d: "drop_bit 1 x = drop_bit 1 y"
    by (auto simp: crcShift_bit0 split: if_splits)
  show "x = y"
  proof (rule word_eq_bitI)
    fix n show "bit x n = bit y n"
    proof (cases n)
      case 0 then show ?thesis using z by simp
    next
      case (Suc m)
      have "bit (drop_bit 1 x) m = bit (drop_bit 1 y) m" using d by simp
      then show ?thesis using Suc by (simp add: bit_simps)
    qed
  qed
qed

lemma crcByte_inj:
  assumes "bit p 31"
  shows "crcByte p c b = crcByte p c' b \<longleftrightarrow> c = c'" "crcByte p c b = crcByte p c b' \<longleftrightarrow> b = b'"
proof -
  have "inj (crcShift p ^^ 8)" using crcShift_inj [OF assms] by (rule inj_fn)
  note i = inj_eq [OF this]
  show "crcByte p c b = crcByte p c' b \<longleftrightarrow> c = c'"
    unfolding crcByte_def i by simp
  show "crcByte p c b = crcByte p c b' \<longleftrightarrow> b = b'"
    unfolding crcByte_def i by simp
qed

lemma crc_foldl_inj:
  assumes "bit p 31"
  shows "foldl (crcByte p) c d = foldl (crcByte p) c' d \<longleftrightarrow> c = c'"
  by (induction d arbitrary: c c') (simp_all add: crcByte_inj [OF assms])

lemma crc32_single_byte:
  assumes "b \<noteq> b'"
  shows "crc32 (xs @ b # ys) \<noteq> crc32 (xs @ b' # ys)"
proof
  assume "crc32 (xs @ b # ys) = crc32 (xs @ b' # ys)"
  then have e: "foldl (crcByte 0xEDB88320) 0xFFFFFFFF (xs @ b # ys)
      = foldl (crcByte 0xEDB88320) 0xFFFFFFFF (xs @ b' # ys)"
    unfolding crc32_def crc32_table_eq crcReference_def by (simp del: foldl_append)
  have p: "bit (0xEDB88320 :: u32) 31" by simp
  from e have "b = b'" by (simp add: crc_foldl_inj [OF p] crcByte_inj [OF p])
  with assms show False by simp
qed


text \<open>C37: The table-driven checksum is the bit-serial one: for every seed and polynomial, the byte
  loop over the generated table gives what shifting the register once per bit gives.\<close>

theorem crc32_computes_reference: "crc32WithSeed d seed poly = crcReference poly seed d"
  by (rule crc32_table_eq)

end
