(* ===== verification/CyclicalBuffer.thy ===== *)
theory CyclicalBuffer
  imports DataUtil
begin

text \<open>
  The growing ring buffer of \<open>Signal/src/util/collections/CyclicalBuffer.m\<close>, in which the
  audio pipeline keeps its samples, and the plain queue of \<open>Queue.m\<close>.

  The state is the record of the class's instance variables: the storage, and the read
  offset and byte count as 32-bit words. Every operation is written with the source's
  offsets and slacks. The abstract state is the list of the enqueued bytes. The interface
  is the locale \<open>byte_fifo\<close>, whose laws say what an enqueue, a peek and a discard do to
  that list; inside it a run of any operations is proved to deliver the bytes that were put
  in, in order. The interpretation on the ring buffer discharges the laws.
\<close>

subsection \<open>State and operations\<close>

record cyclicalBuffer =
  cb_buffer :: data
  cb_readOffset :: u32
  cb_count :: u32

definition cb_init :: cyclicalBuffer where
  "cb_init = \<lparr>cb_buffer = replicate 100 0, cb_readOffset = 0, cb_count = 0\<rparr>"

text \<open>
  Foundation's \<open>replaceBytesInRange:withBytes:\<close>: the location must lie in the data, and a
  range past its end extends it.
\<close>

definition replaceBytesInRange :: "data \<Rightarrow> nat \<Rightarrow> data \<Rightarrow> data result" where
  "replaceBytesInRange d loc src =
     (if loc \<le> length d then Inr (take loc d @ src @ drop (loc + length src) d)
      else Inl RangeException)"

definition enqueueData_resize :: "data \<Rightarrow> u32 \<Rightarrow> u32 \<Rightarrow> nat \<Rightarrow> data result" where
  "enqueueData_resize buf readOffset count incoming =
     (let capacity = length buf;
          readSlack = capacity - unat readOffset;
          newCapacity = capacity * 2 + incoming;
          newBuffer = replicate newCapacity 0
      in bindR (replaceBytesInRange newBuffer 0
                  (take (min readSlack (unat count)) (drop (unat readOffset) buf))) (\<lambda>newBuffer.
         if readSlack < unat count
         then replaceBytesInRange newBuffer readSlack (take (unat count - readSlack) buf)
         else Inr newBuffer))"

definition enqueueData_write :: "data \<Rightarrow> nat \<Rightarrow> data \<Rightarrow> data result" where
  "enqueueData_write buf writeOffset d =
     (let writeSlack = length buf - writeOffset
      in bindR (replaceBytesInRange buf writeOffset (take (min writeSlack (length d)) d)) (\<lambda>buf.
         if length d > writeSlack then replaceBytesInRange buf 0 (drop writeSlack d)
         else Inr buf))"

definition enqueueData :: "cyclicalBuffer \<Rightarrow> data \<Rightarrow> cyclicalBuffer result" where
  "enqueueData cb d =
     (if length d = 0 then Inr cb
      else
        (let capacity = length (cb_buffer cb);
             writeOffset = unat (cb_readOffset cb + cb_count cb) mod capacity;
             spaceAvailable = capacity - unat (cb_count cb);
             count' = cb_count cb + of_nat (length d)
         in if spaceAvailable < length d then
              bindR (enqueueData_resize (cb_buffer cb) (cb_readOffset cb) (cb_count cb) (length d))
                (\<lambda>newBuffer. bindR (enqueueData_write newBuffer (unat (cb_count cb)) d)
                (\<lambda>b. Inr \<lparr>cb_buffer = b, cb_readOffset = 0, cb_count = count'\<rparr>))
            else
              bindR (enqueueData_write (cb_buffer cb) writeOffset d)
                (\<lambda>b. Inr (cb\<lparr>cb_buffer := b, cb_count := count'\<rparr>))))"

definition enqueuedLength :: "cyclicalBuffer \<Rightarrow> nat" where
  "enqueuedLength cb = unat (cb_count cb)"

definition discard :: "cyclicalBuffer \<Rightarrow> nat \<Rightarrow> cyclicalBuffer result" where
  "discard cb len =
     ows_require (len \<le> unat (cb_count cb))
       (Inr (cb\<lparr>cb_count := cb_count cb - of_nat len,
               cb_readOffset := of_nat ((unat (cb_readOffset cb) + len)
                                  mod unat (of_nat (length (cb_buffer cb)) :: u32))\<rparr>))"

definition peekDataWithLength :: "cyclicalBuffer \<Rightarrow> nat \<Rightarrow> data result" where
  "peekDataWithLength cb len =
     ows_require (len \<le> unat (cb_count cb))
       (if len = 0 then Inr []
        else
          (let readSlack = length (cb_buffer cb) - unat (cb_readOffset cb);
               r = replicate len 0
           in bindR (replaceBytesInRange r 0
                       (take (min readSlack len) (drop (unat (cb_readOffset cb)) (cb_buffer cb))))
                (\<lambda>r. if readSlack < len
                     then replaceBytesInRange r readSlack (take (len - readSlack) (cb_buffer cb))
                     else Inr r)))"

definition dequeueDataWithLength :: "cyclicalBuffer \<Rightarrow> nat \<Rightarrow> (data \<times> cyclicalBuffer) result" where
  "dequeueDataWithLength cb len =
     bindR (peekDataWithLength cb len) (\<lambda>r. bindR (discard cb len) (\<lambda>cb. Inr (r, cb)))"

definition dequeuePotentialyVolatileDataWithLength ::
  "cyclicalBuffer \<Rightarrow> nat \<Rightarrow> (data \<times> cyclicalBuffer) result" where
  "dequeuePotentialyVolatileDataWithLength cb len =
     (let readSlack = length (cb_buffer cb) - unat (cb_readOffset cb)
      in if readSlack < len then dequeueDataWithLength cb len
         else bindR (subdataVolatileWithRange (cb_buffer cb) (unat (cb_readOffset cb)) len)
                (\<lambda>r. bindR (discard cb len) (\<lambda>cb. Inr (r, cb))))"

definition peekVolatileHeadOfData :: "cyclicalBuffer \<Rightarrow> data result" where
  "peekVolatileHeadOfData cb =
     (let slack = length (cb_buffer cb) - unat (cb_readOffset cb)
      in subdataVolatileWithRange (cb_buffer cb) (unat (cb_readOffset cb))
           (min (unat (cb_count cb)) slack))"

subsection \<open>The abstract byte queue\<close>

text \<open>
  The readable bytes of a ring of storage \<open>buf\<close>, from offset \<open>r\<close> on; its elements sit at
  the offsets modulo the capacity.
\<close>

definition ringBytes :: "data \<Rightarrow> nat \<Rightarrow> nat \<Rightarrow> data" where
  "ringBytes buf r n = take n (drop r buf @ take r buf)"

definition cb_bytes :: "cyclicalBuffer \<Rightarrow> data" where
  "cb_bytes cb =
     ringBytes (cb_buffer cb) (unat (cb_readOffset cb)) (unat (cb_count cb))"

definition cb_inv :: "cyclicalBuffer \<Rightarrow> bool" where
  "cb_inv cb \<longleftrightarrow>
     unat (cb_readOffset cb) < length (cb_buffer cb) \<and>
     unat (cb_count cb) \<le> length (cb_buffer cb) \<and> length (cb_buffer cb) < 2 ^ 31"

definition cb_limit :: nat where
  "cb_limit = 700000000"

lemma length_ring: "r < length buf \<Longrightarrow> n \<le> length buf \<Longrightarrow> length (ringBytes buf r n) = n"
  by (simp add: ringBytes_def)

lemma mod_lt: "r < (L :: nat) \<Longrightarrow> x mod L < L"
  by (cases L) simp_all

lemma wrap_mod: "a < L \<Longrightarrow> b \<le> L \<Longrightarrow> (a + b) mod L = (if a + b < L then a + b else a + b - (L :: nat))"
  by (simp add: mod_if)

lemma nth_ring:
  "r < length buf \<Longrightarrow> n \<le> length buf \<Longrightarrow> i < n \<Longrightarrow> ringBytes buf r n ! i = buf ! ((r + i) mod length buf)"
  by (auto simp: ringBytes_def nth_append wrap_mod add.commute)

lemma ring_peek:
  assumes "r < length buf" and "n \<le> length buf" and "k \<le> n"
  shows "k \<le> length buf - r \<Longrightarrow> take k (drop r buf) = take k (ringBytes buf r n)"
    and "length buf - r < k \<Longrightarrow>
         drop r buf @ take (k - (length buf - r)) buf = take k (ringBytes buf r n)"
  using assms by (simp_all add: ringBytes_def min_def)

lemma ring_discard:
  assumes "r < length buf" and "n \<le> length buf" and "k \<le> n"
  shows "ringBytes buf ((r + k) mod length buf) (n - k) = drop k (ringBytes buf r n)"
proof (rule nth_equalityI)
  have m: "(r + k) mod length buf < length buf" using assms(1) by (rule mod_lt)
  have len: "length (drop k (ringBytes buf r n)) = n - k" using assms by (simp add: length_ring)
  show "length (ringBytes buf ((r + k) mod length buf) (n - k)) = length (drop k (ringBytes buf r n))"
    unfolding len using m assms by (intro length_ring) auto
  fix i assume "i < length (ringBytes buf ((r + k) mod length buf) (n - k))"
  then have i: "i < n - k" using length_ring [OF m, of "n - k"] assms by simp
  then have "ringBytes buf ((r + k) mod length buf) (n - k) ! i = buf ! ((r + k + i) mod length buf)"
    using m assms by (subst nth_ring) (simp_all add: mod_add_left_eq)
  also have "\<dots> = ringBytes buf r n ! (k + i)"
    using i assms by (subst nth_ring) (simp_all add: add.assoc)
  also have "\<dots> = drop k (ringBytes buf r n) ! i"
    using length_ring [OF assms(1,2)] assms(3) by (intro nth_drop [symmetric]) simp
  finally show "ringBytes buf ((r + k) mod length buf) (n - k) ! i = drop k (ringBytes buf r n) ! i" .
qed

lemma replaceBytes_fits:
  "loc + length src \<le> length d \<Longrightarrow>
     replaceBytesInRange d loc src = Inr (take loc d @ src @ drop (loc + length src) d)"
  by (simp add: replaceBytesInRange_def)

lemma enqueueData_write_nth:
  assumes "w < length buf" and "length d \<le> length buf"
  shows "\<exists>b. enqueueData_write buf w d = Inr b \<and> length b = length buf \<and>
    (\<forall>j < length d. b ! ((w + j) mod length buf) = d ! j) \<and>
    (\<forall>j. length d \<le> j \<and> j < length buf \<longrightarrow> b ! ((w + j) mod length buf) = buf ! ((w + j) mod length buf))"
proof (cases "length d \<le> length buf - w")
  case True
  define b where "b = take w buf @ d @ drop (w + length d) buf"
  from True assms have "enqueueData_write buf w d = Inr b"
    by (simp add: enqueueData_write_def replaceBytes_fits b_def)
  moreover have "length b = length buf" using True assms by (simp add: b_def)
  moreover have "b ! ((w + j) mod length buf) =
      (if j < length d then d ! j else buf ! ((w + j) mod length buf))" if "j < length buf" for j
    using that True assms by (auto simp: b_def nth_append wrap_mod)
  ultimately show ?thesis using assms by fastforce
next
  case False
  define k where "k = length d - (length buf - w)"
  define b where "b = drop (length buf - w) d @ drop k (take w buf @ take (length buf - w) d)"
  from False assms have "enqueueData_write buf w d = Inr b"
    by (simp add: enqueueData_write_def replaceBytes_fits b_def k_def Let_def)
  moreover have "length b = length buf" using False assms by (simp add: b_def k_def)
  moreover have "b ! ((w + j) mod length buf) =
      (if j < length d then d ! j else buf ! ((w + j) mod length buf))" if "j < length buf" for j
    using that False assms by (auto simp: b_def k_def nth_append wrap_mod min_def)
  ultimately show ?thesis using assms by fastforce
qed

lemma enqueueData_write_ring:
  assumes "r < length buf" and "n + length d \<le> length buf"
  shows "\<exists>b. enqueueData_write buf ((r + n) mod length buf) d = Inr b \<and> length b = length buf \<and>
    ringBytes b r (n + length d) = ringBytes buf r n @ d"
proof -
  let ?w = "(r + n) mod length buf"
  have w: "?w < length buf" using assms(1) by (rule mod_lt)
  from enqueueData_write_nth [OF w, of d] assms obtain b where
    b: "enqueueData_write buf ?w d = Inr b" "length b = length buf"
    and new: "\<And>j. j < length d \<Longrightarrow> b ! ((?w + j) mod length buf) = d ! j"
    and old: "\<And>j. length d \<le> j \<Longrightarrow> j < length buf \<Longrightarrow>
        b ! ((?w + j) mod length buf) = buf ! ((?w + j) mod length buf)"
    by auto
  have wj: "(?w + j) mod length buf = (r + n + j) mod length buf" for j
    by (simp add: mod_add_left_eq)
  have "ringBytes b r (n + length d) = ringBytes buf r n @ d"
  proof (rule nth_equalityI)
    show "length (ringBytes b r (n + length d)) = length (ringBytes buf r n @ d)"
      using length_ring [of r b "n + length d"] length_ring [of r buf n] assms b(2) by simp
    fix i assume "i < length (ringBytes b r (n + length d))"
    then have i: "i < n + length d" using length_ring [of r b "n + length d"] assms b(2) by simp
    then have L: "ringBytes b r (n + length d) ! i = b ! ((r + i) mod length buf)"
      using assms b(2) by (subst nth_ring) simp_all
    show "ringBytes b r (n + length d) ! i = (ringBytes buf r n @ d) ! i"
    proof (cases "i < n")
      case True
      have "(r + i) mod length buf = (?w + (length buf - n + i)) mod length buf"
      proof -
        have "r + n + (length buf - n + i) = length buf + (r + i)" using assms True by simp
        then show ?thesis unfolding wj by (simp only: mod_add_self1)
      qed
      with old [of "length buf - n + i"] True assms
      have "b ! ((r + i) mod length buf) = buf ! ((r + i) mod length buf)" by simp
      moreover have "(ringBytes buf r n @ d) ! i = buf ! ((r + i) mod length buf)"
        using True assms by (simp add: nth_append length_ring nth_ring)
      ultimately show ?thesis unfolding L by simp
    next
      case False
      then have "(r + i) mod length buf = (?w + (i - n)) mod length buf" unfolding wj by simp
      with new [of "i - n"] False i have "b ! ((r + i) mod length buf) = d ! (i - n)" by simp
      moreover have "(ringBytes buf r n @ d) ! i = d ! (i - n)"
        using False assms by (simp add: nth_append length_ring)
      ultimately show ?thesis unfolding L by simp
    qed
  qed
  with b show ?thesis by blast
qed

subsection \<open>Every operation refines the byte queue\<close>

lemma cb_init_ok: "cb_inv cb_init" "cb_bytes cb_init = []"
  by (simp_all add: cb_inv_def cb_init_def cb_bytes_def ringBytes_def)

lemma length_cb_bytes: "cb_inv cb \<Longrightarrow> length (cb_bytes cb) = unat (cb_count cb)"
  by (simp add: cb_inv_def cb_bytes_def length_ring)

lemma peekDataWithLength_bytes:
  assumes inv: "cb_inv cb"
  shows "peekDataWithLength cb len =
    (if len \<le> length (cb_bytes cb) then Inr (take len (cb_bytes cb)) else Inl BadArgument)"
proof (cases "len \<le> length (cb_bytes cb) \<and> len \<noteq> 0")
  case True
  let ?b = "cb_buffer cb" let ?r = "unat (cb_readOffset cb)"
  from True inv have k: "?r < length ?b" "unat (cb_count cb) \<le> length ?b" "len \<le> unat (cb_count cb)"
    by (simp_all add: cb_inv_def length_cb_bytes)
  show ?thesis
  proof (cases "length ?b - ?r < len")
    case False
    with k True ring_peek(1) [OF k] show ?thesis
      by (simp add: peekDataWithLength_def cb_bytes_def Let_def replaceBytes_fits length_ring)
  next
    case wrapped: True
    with k True ring_peek(2) [OF k] show ?thesis
      by (simp add: peekDataWithLength_def cb_bytes_def Let_def replaceBytes_fits length_ring min_def)
  qed
qed (use inv in \<open>auto simp: peekDataWithLength_def length_cb_bytes\<close>)

lemma discard_bytes:
  assumes inv: "cb_inv cb"
  shows "len \<le> length (cb_bytes cb) \<Longrightarrow>
      \<exists>cb'. discard cb len = Inr cb' \<and> cb_inv cb' \<and> cb_bytes cb' = drop len (cb_bytes cb)"
    and "length (cb_bytes cb) < len \<Longrightarrow> discard cb len = Inl BadArgument"
proof -
  let ?b = "cb_buffer cb" let ?r = "unat (cb_readOffset cb)"
  assume "len \<le> length (cb_bytes cb)"
  with inv have k: "?r < length ?b" "unat (cb_count cb) \<le> length ?b" "len \<le> unat (cb_count cb)"
    and cap: "length ?b < 2 ^ 31"
    by (simp_all add: cb_inv_def length_cb_bytes)
  have u: "unat (of_nat n :: u32) = n" if "n < 2 ^ 31" for n
    using that by (simp add: unat_of_nat)
  define cb' where "cb' = cb\<lparr>cb_count := cb_count cb - of_nat len,
      cb_readOffset := of_nat ((?r + len) mod length ?b)\<rparr>"
  have m: "(?r + len) mod length ?b < length ?b" using k(1) by (rule mod_lt)
  have count: "unat (cb_count cb - of_nat len) = unat (cb_count cb) - len"
    using k cap by (simp add: unat_sub_if_size word_le_nat_alt u)
  from m cap have offset: "unat (of_nat ((?r + len) mod length ?b) :: u32) = (?r + len) mod length ?b"
    by (intro u) simp
  have "discard cb len = Inr cb'"
    using k cap by (simp add: discard_def cb'_def u)
  moreover have "cb_inv cb'"
    using k cap m by (simp add: cb_inv_def cb'_def count offset)
  moreover have "cb_bytes cb' = drop len (cb_bytes cb)"
    using ring_discard [OF k] by (simp add: cb_bytes_def cb'_def count offset)
  ultimately show "\<exists>cb'. discard cb len = Inr cb' \<and> cb_inv cb' \<and> cb_bytes cb' = drop len (cb_bytes cb)"
    by blast
next
  assume "length (cb_bytes cb) < len"
  with inv show "discard cb len = Inl BadArgument" by (simp add: discard_def length_cb_bytes)
qed

lemma enqueueData_resize_bytes:
  assumes "unat r < length buf" and "unat n \<le> length buf"
  shows "\<exists>z. enqueueData_resize buf r n k = Inr (ringBytes buf (unat r) (unat n) @ z) \<and>
    length (ringBytes buf (unat r) (unat n) @ z) = length buf * 2 + k"
proof (cases "length buf - unat r < unat n")
  case False
  with assms ring_peek(1) [OF assms order_refl] show ?thesis
    by (simp add: enqueueData_resize_def Let_def replaceBytes_fits length_ring)
next
  case True
  let ?tail = "take (unat n - (length buf - unat r)) buf"
  have "enqueueData_resize buf r n k =
      Inr ((drop (unat r) buf @ ?tail) @ replicate (length buf * 2 + k - unat n) 0)"
    using True assms by (simp add: enqueueData_resize_def Let_def replaceBytes_fits)
  also have "drop (unat r) buf @ ?tail = ringBytes buf (unat r) (unat n)"
    using ring_peek(2) [OF assms order_refl True] by (simp add: length_ring assms)
  finally show ?thesis using assms by (intro exI conjI) (auto simp: length_ring)
qed

lemma enqueueData_bytes:
  assumes inv: "cb_inv cb" and room: "length (cb_bytes cb) + length d \<le> cb_limit"
  shows "\<exists>cb'. enqueueData cb d = Inr cb' \<and> cb_inv cb' \<and> cb_bytes cb' = cb_bytes cb @ d"
proof (cases "d = []")
  case True
  then show ?thesis using inv by (simp add: enqueueData_def)
next
  case False
  let ?b = "cb_buffer cb" let ?r = "unat (cb_readOffset cb)" let ?n = "unat (cb_count cb)"
  from inv have k: "?r < length ?b" "?n \<le> length ?b" and cap: "length ?b < 2 ^ 31"
    by (simp_all add: cb_inv_def)
  from room inv have room': "?n + length d \<le> 700000000"
    by (simp add: length_cb_bytes cb_limit_def)
  then have len: "unat (of_nat (length d) :: u32) = length d" by (simp add: unat_of_nat)
  have count: "unat (cb_count cb + of_nat (length d)) = ?n + length d"
    using room' len by (subst unat_add_lem [THEN iffD1]) simp_all
  have sum: "unat (cb_readOffset cb + cb_count cb) = ?r + ?n"
    using k cap by (subst unat_add_lem [THEN iffD1]) simp_all
  show ?thesis
  proof (cases "length ?b - ?n < length d")
    case fits: False
    with enqueueData_write_ring [OF k(1), of ?n d] k False obtain b where
      "enqueueData_write ?b ((?r + ?n) mod length ?b) d = Inr b" "length b = length ?b"
      "ringBytes b ?r (?n + length d) = ringBytes ?b ?r ?n @ d" by fastforce
    with fits False k cap show ?thesis
      by (auto simp: enqueueData_def Let_def sum cb_inv_def cb_bytes_def count)
  next
    case grow: True
    from enqueueData_resize_bytes [OF k, of "length d"] obtain z where
      z: "enqueueData_resize ?b (cb_readOffset cb) (cb_count cb) (length d) = Inr (ringBytes ?b ?r ?n @ z)"
      and lz: "length (ringBytes ?b ?r ?n @ z) = length ?b * 2 + length d"
      by blast
    let ?new = "ringBytes ?b ?r ?n @ z"
    have nz: "0 < length ?new" and fit: "?n + length d \<le> length ?new"
      unfolding lz using k by linarith+
    from k have "(0 + ?n) mod length ?new = ?n" using lz by (simp add: mod_if)
    with enqueueData_write_ring [OF nz fit] obtain b where
      b: "enqueueData_write ?new ?n d = Inr b" "length b = length ?new"
        "ringBytes b 0 (?n + length d) = ringBytes ?new 0 ?n @ d" by auto
    have "ringBytes ?new 0 ?n = ringBytes ?b ?r ?n"
      using length_ring [OF k] by (simp add: ringBytes_def [of _ 0])
    with b False grow k cap room' lz show ?thesis
      by (auto simp: enqueueData_def Let_def z sum cb_inv_def cb_bytes_def count)
  qed
qed

lemma dequeueDataWithLength_bytes:
  assumes inv: "cb_inv cb"
  shows "len \<le> length (cb_bytes cb) \<Longrightarrow>
      \<exists>cb'. dequeueDataWithLength cb len = Inr (take len (cb_bytes cb), cb') \<and> cb_inv cb' \<and>
        cb_bytes cb' = drop len (cb_bytes cb)"
    and "length (cb_bytes cb) < len \<Longrightarrow> dequeueDataWithLength cb len = Inl BadArgument"
  using discard_bytes(1) [OF inv, of len]
  by (auto simp: dequeueDataWithLength_def peekDataWithLength_bytes [OF inv])

lemma dequeueVolatile_eq:
  assumes inv: "cb_inv cb"
  shows "dequeuePotentialyVolatileDataWithLength cb len = dequeueDataWithLength cb len"
proof (cases "length (cb_buffer cb) - unat (cb_readOffset cb) < len")
  case True
  then show ?thesis by (simp add: dequeuePotentialyVolatileDataWithLength_def)
next
  case False
  from inv have k: "unat (cb_readOffset cb) < length (cb_buffer cb)"
    "unat (cb_count cb) \<le> length (cb_buffer cb)" by (simp_all add: cb_inv_def)
  from False k have sub: "subdataVolatileWithRange (cb_buffer cb) (unat (cb_readOffset cb)) len =
      Inr (take len (drop (unat (cb_readOffset cb)) (cb_buffer cb)))"
    unfolding subdataVolatileWithRange_def ows_require_def by (auto simp: not_less)
  show ?thesis
  proof (cases "len \<le> unat (cb_count cb)")
    case True
    with False k ring_peek(1) [OF k True] inv sub show ?thesis
      by (simp add: dequeuePotentialyVolatileDataWithLength_def dequeueDataWithLength_def
          peekDataWithLength_bytes length_cb_bytes Let_def cb_bytes_def length_ring)
  next
    case long: False
    with False inv sub show ?thesis
      by (simp add: dequeuePotentialyVolatileDataWithLength_def dequeueDataWithLength_def
          peekDataWithLength_bytes length_cb_bytes Let_def discard_bytes(2))
  qed
qed

lemma peekVolatileHead_prefix:
  assumes inv: "cb_inv cb"
  shows "\<exists>h rest. peekVolatileHeadOfData cb = Inr h \<and> cb_bytes cb = h @ rest \<and>
    (h = [] \<longrightarrow> rest = [])"
proof -
  let ?b = "cb_buffer cb" let ?r = "unat (cb_readOffset cb)" let ?n = "unat (cb_count cb)"
  define k where "k = min ?n (length ?b - ?r)"
  from inv have a: "?r < length ?b" "?n \<le> length ?b" by (simp_all add: cb_inv_def)
  have "peekVolatileHeadOfData cb = Inr (take k (drop ?r ?b))"
    using a by (simp add: peekVolatileHeadOfData_def subdataVolatileWithRange_def k_def Let_def min_def) linarith
  moreover have "take k (drop ?r ?b) = take k (cb_bytes cb)"
    unfolding cb_bytes_def using a by (intro ring_peek(1)) (simp_all add: k_def)
  moreover have "take k (cb_bytes cb) = [] \<longrightarrow> drop k (cb_bytes cb) = []"
    using a length_cb_bytes [OF inv] by (auto simp: k_def)
  ultimately show ?thesis by (metis append_take_drop_id)
qed

subsection \<open>The interface of a byte queue\<close>

text \<open>
  A client's use of a byte queue: a sequence of enqueues and dequeues. \<open>fifo_run\<close> runs it and
  collects what the dequeues return; \<open>fifo_input\<close> is what the enqueues put in; a sequence is
  allowed when no dequeue asks for more than is there and no enqueue exceeds the limit.
\<close>

datatype fifo_op = Enq data | Deq nat

fun fifo_run :: "('s \<Rightarrow> data \<Rightarrow> 's result) \<Rightarrow> ('s \<Rightarrow> nat \<Rightarrow> (data \<times> 's) result) \<Rightarrow>
    's \<Rightarrow> fifo_op list \<Rightarrow> (data \<times> 's) result" where
  "fifo_run enq deq s [] = Inr ([], s)"
| "fifo_run enq deq s (Enq d # ops) = bindR (enq s d) (\<lambda>s. fifo_run enq deq s ops)"
| "fifo_run enq deq s (Deq n # ops) = bindR (deq s n) (\<lambda>(r, s).
     bindR (fifo_run enq deq s ops) (\<lambda>(out, s). Inr (r @ out, s)))"

fun fifo_input :: "fifo_op list \<Rightarrow> data" where
  "fifo_input [] = []"
| "fifo_input (Enq d # ops) = d @ fifo_input ops"
| "fifo_input (Deq n # ops) = fifo_input ops"

fun fifo_allowed :: "nat \<Rightarrow> nat \<Rightarrow> fifo_op list \<Rightarrow> bool" where
  "fifo_allowed limit k [] = True"
| "fifo_allowed limit k (Enq d # ops) =
     (k + length d \<le> limit \<and> fifo_allowed limit (k + length d) ops)"
| "fifo_allowed limit k (Deq n # ops) = (n \<le> k \<and> fifo_allowed limit (k - n) ops)"

locale byte_fifo =
  fixes enq :: "'s \<Rightarrow> data \<Rightarrow> 's result"
    and deq :: "'s \<Rightarrow> nat \<Rightarrow> (data \<times> 's) result"
    and contents :: "'s \<Rightarrow> data"
    and inv :: "'s \<Rightarrow> bool"
    and limit :: nat
  assumes enq_law: "inv s \<Longrightarrow> length (contents s) + length d \<le> limit \<Longrightarrow>
      \<exists>s'. enq s d = Inr s' \<and> inv s' \<and> contents s' = contents s @ d"
    and deq_law: "inv s \<Longrightarrow> n \<le> length (contents s) \<Longrightarrow>
      \<exists>s'. deq s n = Inr (take n (contents s), s') \<and> inv s' \<and> contents s' = drop n (contents s)"
    and deq_refused: "inv s \<Longrightarrow> length (contents s) < n \<Longrightarrow> deq s n = Inl BadArgument"
begin

lemma run_in_order:
  "inv s \<Longrightarrow> fifo_allowed limit (length (contents s)) ops \<Longrightarrow>
   \<exists>out s'. fifo_run enq deq s ops = Inr (out, s') \<and> inv s' \<and>
     out @ contents s' = contents s @ fifo_input ops"
proof (induction ops arbitrary: s)
  case Nil
  then show ?case by simp
next
  case (Cons op ops)
  show ?case
  proof (cases op)
    case (Enq d)
    with Cons.prems obtain s' where
      s': "enq s d = Inr s'" "inv s'" "contents s' = contents s @ d"
      using enq_law [of s d] by auto
    with Cons.prems Enq have "fifo_allowed limit (length (contents s')) ops" by simp
    from Cons.IH [OF s'(2) this] s' Enq show ?thesis by auto
  next
    case (Deq n)
    with Cons.prems obtain s' where s': "deq s n = Inr (take n (contents s), s')" "inv s'"
      "contents s' = drop n (contents s)"
      using deq_law [of s n] by auto
    with Cons.prems Deq have "fifo_allowed limit (length (contents s')) ops" by simp
    from Cons.IH [OF s'(2) this] obtain out t where
      "fifo_run enq deq s' ops = Inr (out, t)" "inv t"
      "out @ contents t = contents s' @ fifo_input ops"
      by blast
    moreover have "contents s @ rest = take n (contents s) @ drop n (contents s) @ rest" for rest
      by (metis append.assoc append_take_drop_id)
    ultimately show ?thesis using s' Deq by simp
  qed
qed

end

interpretation cb: byte_fifo enqueueData dequeueDataWithLength cb_bytes cb_inv cb_limit
  by unfold_locales
    (blast intro: enqueueData_bytes dequeueDataWithLength_bytes)+

interpretation cbv: byte_fifo enqueueData dequeuePotentialyVolatileDataWithLength cb_bytes cb_inv cb_limit
  by unfold_locales
    (auto simp: dequeueVolatile_eq intro: enqueueData_bytes dequeueDataWithLength_bytes)

subsection \<open>The plain queue\<close>

text \<open>\<open>Queue.m\<close> keeps its items in a mutable array, first in at index 0.\<close>

definition queue_enqueue :: "'a list \<Rightarrow> 'a \<Rightarrow> 'a list" where
  "queue_enqueue items item = items @ [item]"

definition queue_dequeue :: "'a list \<Rightarrow> ('a \<times> 'a list) result" where
  "queue_dequeue items = requireState (length items > 0) (Inr (items ! 0, drop 1 items))"

definition queue_tryDequeue :: "'a list \<Rightarrow> ('a option \<times> 'a list) result" where
  "queue_tryDequeue items =
     (if length items = 0 then Inr (None, items)
      else bindR (queue_dequeue items) (\<lambda>(x, items). Inr (Some x, items)))"

definition queue_peek :: "'a list \<Rightarrow> 'a result" where
  "queue_peek items = requireState (length items > 0) (Inr (items ! 0))"

definition queue_peekAt :: "'a list \<Rightarrow> nat \<Rightarrow> 'a result" where
  "queue_peekAt items offset = ows_require (offset < length items) (Inr (items ! offset))"

lemma queue_tryDequeue_total:
  "queue_tryDequeue items =
     (case items of [] \<Rightarrow> Inr (None, []) | x # rest \<Rightarrow> Inr (Some x, rest))"
  by (cases items) (simp_all add: queue_tryDequeue_def queue_dequeue_def)

lemma queue_enqueue_dequeue:
  "queue_dequeue (queue_enqueue items x) =
     (case items of [] \<Rightarrow> Inr (x, []) | y # rest \<Rightarrow> Inr (y, queue_enqueue rest x))"
  by (cases items) (simp_all add: queue_dequeue_def queue_enqueue_def)


subsection \<open>The properties\<close>

text \<open>C22: From a new cyclical buffer, every sequence of enqueues and dequeues that asks for no more
  bytes than are there and stays within the size limit succeeds; the bytes that come out,
  followed by those that remain, are the bytes that went in, in order, whatever wrap-arounds and
  resizes the ring went through.\<close>

theorem cyclical_buffer_in_order:
  assumes "fifo_allowed cb_limit 0 ops"
  shows "\<exists>out cb. fifo_run enqueueData dequeueDataWithLength cb_init ops = Inr (out, cb) \<and> cb_inv cb \<and>
    out @ cb_bytes cb = fifo_input ops"
  using cb.run_in_order [OF cb_init_ok(1)] assms by (simp add: cb_init_ok)

theorem cyclical_buffer_in_order_witness:
  "\<exists>out cb. fifo_run enqueueData dequeueDataWithLength cb_init [Enq [1, 2, 3], Deq 2, Enq [4], Deq 2] = Inr (out, cb) \<and>
    cb_inv cb \<and> out @ cb_bytes cb = fifo_input [Enq [1, 2, 3], Deq 2, Enq [4], Deq 2]"
  by (rule cyclical_buffer_in_order) (simp add: cb_limit_def)

end
