(* ===== verification/PriorityQueue.thy ===== *)
theory PriorityQueue
  imports Prelude "HOL-Library.Multiset"
begin

text \<open>
  The binary heap of \<open>Signal/src/util/collections/PriorityQueue.m\<close>. The items are the
  source's mutable array; \<open>enqueue\<close> sifts the new item up, \<open>dequeue\<close> pulls the smaller
  child up into the hole the minimum leaves until the last item fits. The comparator may
  raise, so the loops return a result. The locale \<open>heap_order\<close> states what a comparator
  must satisfy on the items it is given, in terms of an integer key, and proves the
  queue correct: no operation raises, the items form a multiset, and \<open>dequeue\<close> returns one
  with the least key.
\<close>

type_synonym 'a comparator = "'a \<Rightarrow> 'a \<Rightarrow> int result"

subsection \<open>Operations\<close>

function pq_siftUp :: "'a comparator \<Rightarrow> 'a list \<Rightarrow> 'a \<Rightarrow> nat \<Rightarrow> 'a list result" where
  "pq_siftUp cmp items item curIndex =
     (if curIndex > 0 then
        (let parentIndex = (curIndex - 1) div 2;
             parentItem = items ! parentIndex
         in bindR (cmp item parentItem) (\<lambda>c.
              if c \<ge> 0 then Inr items
              else pq_siftUp cmp (items[curIndex := parentItem, parentIndex := item]) item parentIndex))
      else Inr items)"
  by pat_completeness auto
termination by (relation "measure (\<lambda>(cmp, items, item, i). i)") auto

declare pq_siftUp.simps [simp del]

definition pq_enqueue :: "'a comparator \<Rightarrow> 'a list \<Rightarrow> 'a \<Rightarrow> 'a list result" where
  "pq_enqueue cmp items item = pq_siftUp cmp (items @ [item]) item (length items)"

definition pq_peek :: "'a list \<Rightarrow> 'a result" where
  "pq_peek items = requireState (length items > 0) (Inr (items ! 0))"

function pq_pullUp :: "'a comparator \<Rightarrow> 'a list \<Rightarrow> nat \<Rightarrow> 'a \<Rightarrow> nat \<Rightarrow> ('a list \<times> nat) result" where
  "pq_pullUp cmp items endangeredIndex endangeredItem i =
     (let childIndex1 = i * 2 + 1; childIndex2 = i * 2 + 2
      in if childIndex1 \<ge> endangeredIndex then Inr (items, i)
         else bindR (cmp (items ! childIndex1) (items ! childIndex2)) (\<lambda>c.
           let smallerChildIndex = (if c \<le> 0 then childIndex1 else childIndex2);
               smallerChild = items ! smallerChildIndex
           in bindR (cmp endangeredItem smallerChild) (\<lambda>c'.
             if c' \<le> 0 then Inr (items, i)
             else pq_pullUp cmp (items[i := smallerChild]) endangeredIndex endangeredItem
                    smallerChildIndex)))"
  by pat_completeness auto
termination
  by (relation "measure (\<lambda>(cmp, items, e, x, i). e - i)") (auto split: if_splits)

declare pq_pullUp.simps [simp del]

definition pq_dequeue :: "'a comparator \<Rightarrow> 'a list \<Rightarrow> ('a \<times> 'a list) result" where
  "pq_dequeue cmp items =
     requireState (length items > 0)
       (let result = items ! 0;
            endangeredIndex = length items - 1;
            endangeredItem = items ! endangeredIndex
        in bindR (pq_pullUp cmp items endangeredIndex endangeredItem 0) (\<lambda>(items, i).
             Inr (result, take endangeredIndex (items[i := endangeredItem]))))"

definition pq_count :: "'a list \<Rightarrow> nat" where
  "pq_count items = length items"

text \<open>Emptying the queue, and filling it from a list.\<close>

fun pq_drain :: "'a comparator \<Rightarrow> nat \<Rightarrow> 'a list \<Rightarrow> 'a list result" where
  "pq_drain cmp 0 items = Inr []"
| "pq_drain cmp (Suc n) items =
     bindR (pq_dequeue cmp items) (\<lambda>(x, items). bindR (pq_drain cmp n items) (\<lambda>xs. Inr (x # xs)))"

fun pq_enqueueAll :: "'a comparator \<Rightarrow> 'a list \<Rightarrow> 'a list \<Rightarrow> 'a list result" where
  "pq_enqueueAll cmp items [] = Inr items"
| "pq_enqueueAll cmp items (x # xs) =
     bindR (pq_enqueue cmp items x) (\<lambda>items. pq_enqueueAll cmp items xs)"

text \<open>The heap order: an item's key is at least that of its parent.\<close>

definition pq_heap :: "('a \<Rightarrow> int) \<Rightarrow> 'a list \<Rightarrow> bool" where
  "pq_heap key xs \<longleftrightarrow> (\<forall>c. 0 < c \<and> c < length xs \<longrightarrow> key (xs ! ((c - 1) div 2)) \<le> key (xs ! c))"

subsection \<open>Correctness for a comparator that orders the items\<close>

locale heap_order =
  fixes cmp :: "'a comparator"
    and A :: "'a set"
    and key :: "'a \<Rightarrow> int"
  assumes cmp_law: "x \<in> A \<Longrightarrow> y \<in> A \<Longrightarrow>
      \<exists>c. cmp x y = Inr c \<and> (c \<le> 0 \<longleftrightarrow> key x \<le> key y) \<and> (0 \<le> c \<longleftrightarrow> key y \<le> key x)"
begin

abbreviation heap :: "'a list \<Rightarrow> bool" where
  "heap \<equiv> pq_heap key"

lemmas heap_def = pq_heap_def [of key]

lemma heap_root: "heap xs \<Longrightarrow> c < length xs \<Longrightarrow> key (xs ! 0) \<le> key (xs ! c)"
proof (induction c rule: less_induct)
  case (less c)
  show ?case
  proof (cases "c = 0")
    case False
    then have "(c - 1) div 2 < c" by auto
    with less False show ?thesis unfolding heap_def by (meson dual_order.strict_trans not_gr0 order_trans)
  qed simp
qed

lemma siftUp_ok:
  assumes "i < length xs" and "xs ! i = x" and "set xs \<subseteq> A"
    and "\<And>c. 0 < c \<Longrightarrow> c < length xs \<Longrightarrow> c \<noteq> i \<Longrightarrow> key (xs ! ((c - 1) div 2)) \<le> key (xs ! c)"
    and "\<And>c. 0 < i \<Longrightarrow> 0 < c \<Longrightarrow> c < length xs \<Longrightarrow> (c - 1) div 2 = i \<Longrightarrow>
           key (xs ! ((i - 1) div 2)) \<le> key (xs ! c)"
  shows "\<exists>ys. pq_siftUp cmp xs x i = Inr ys \<and> heap ys \<and> mset ys = mset xs"
  using assms
proof (induction i arbitrary: xs rule: less_induct)
  case (less i)
  show ?case
  proof (cases "i = 0")
    case True
    with less.prems show ?thesis by (simp add: pq_siftUp.simps heap_def)
  next
    case False
    let ?p = "(i - 1) div 2"
    have p: "?p < i" "?p < length xs" using False less.prems(1) by auto
    have "x \<in> A" "xs ! ?p \<in> A" using less.prems p by (auto intro: nth_mem)
    from cmp_law [OF this] obtain c where c: "cmp x (xs ! ?p) = Inr c"
      and ge: "0 \<le> c \<longleftrightarrow> key (xs ! ?p) \<le> key x" by blast
    show ?thesis
    proof (cases "0 \<le> c")
      case True
      then have "heap xs" using less.prems ge unfolding heap_def by metis
      with True c False show ?thesis by (simp add: pq_siftUp.simps Let_def)
    next
      case swap: False
      define ys where "ys = xs[i := xs ! ?p, ?p := x]"
      have lt: "key x < key (xs ! ?p)" using swap ge by simp
      have nth: "ys ! k = (if k = ?p then x else if k = i then xs ! ?p else xs ! k)"
        if "k < length xs" for k
        using that p less.prems(1) by (auto simp: ys_def nth_list_update)
      have len: "length ys = length xs" by (simp add: ys_def)
      have ms: "mset ys = mset xs"
        using mset_swap [of ?p xs i] p less.prems by (simp add: ys_def)
      have "\<exists>zs. pq_siftUp cmp ys x ?p = Inr zs \<and> heap zs \<and> mset zs = mset ys"
      proof (rule less.IH)
        show "?p < i" by (rule p)
        show "?p < length ys" "ys ! ?p = x" using p len nth by simp_all
        show "set ys \<subseteq> A" using ms less.prems(3) by (metis set_mset_mset)
      next
        fix d assume d: "0 < d" "d < length ys" "d \<noteq> ?p"
        show "key (ys ! ((d - 1) div 2)) \<le> key (ys ! d)"
        proof (cases "d = i")
          case True
          then show ?thesis using d p len lt nth by simp
        next
          case di: False
          have up: "key (xs ! ((d - 1) div 2)) \<le> key (xs ! d)" using less.prems(4) d di len by simp
          have q: "(d - 1) div 2 < length xs" using d len by simp
          show ?thesis
          proof (cases "(d - 1) div 2 = i")
            case True
            then have "key (xs ! ?p) \<le> key (xs ! d)" using less.prems(5) d len False by simp
            then show ?thesis using nth [OF q] nth [of d] d di len True p by auto
          next
            case False
            then show ?thesis using nth [OF q] nth [of d] d di len up lt by auto
          qed
        qed
      next
        fix d assume d: "0 < ?p" "0 < d" "d < length ys" "(d - 1) div 2 = ?p"
        have pp: "(?p - 1) div 2 < length xs" "(?p - 1) div 2 \<noteq> ?p" "(?p - 1) div 2 \<noteq> i"
          using p d by linarith+
        have gp: "key (xs ! ((?p - 1) div 2)) \<le> key (xs ! ?p)" using less.prems(4) [of ?p] d p by simp
        have dp: "d \<noteq> ?p" using d by linarith
        show "key (ys ! ((?p - 1) div 2)) \<le> key (ys ! d)"
        proof -
          have a: "ys ! ((?p - 1) div 2) = xs ! ((?p - 1) div 2)"
            unfolding nth [OF pp(1)] using pp(2,3) by (simp only: if_False)
          have "key (xs ! ?p) \<le> key (ys ! d)"
          proof (cases "d = i")
            case True
            then have "ys ! d = xs ! ?p" using nth [of i] less.prems(1) p by simp
            then show ?thesis by simp
          next
            case False
            have "key (xs ! ?p) \<le> key (xs ! d)" using less.prems(4) [OF d(2)] d(3,4) len False by metis
            then show ?thesis using nth [of d] d(3) len dp False by (simp only: if_False)
          qed
          with gp show ?thesis unfolding a by (rule order_trans)
        qed
      qed
      moreover have "pq_siftUp cmp xs x i = pq_siftUp cmp ys x ?p"
        using False c swap by (subst pq_siftUp.simps) (simp add: Let_def ys_def)
      ultimately show ?thesis using ms by simp
    qed
  qed
qed

lemma enqueue_ok:
  assumes "heap xs" and "set xs \<subseteq> A" and "x \<in> A"
  shows "\<exists>ys. pq_enqueue cmp xs x = Inr ys \<and> heap ys \<and> mset ys = add_mset x (mset xs)"
proof -
  have "\<exists>ys. pq_siftUp cmp (xs @ [x]) x (length xs) = Inr ys \<and> heap ys \<and> mset ys = mset (xs @ [x])"
  proof (rule siftUp_ok)
    fix c assume "0 < c" "c < length (xs @ [x])" "c \<noteq> length xs"
    then have c: "c < length xs" "(c - 1) div 2 < length xs" by auto
    with \<open>0 < c\<close> \<open>heap xs\<close> show "key ((xs @ [x]) ! ((c - 1) div 2)) \<le> key ((xs @ [x]) ! c)"
      by (simp add: nth_append heap_def)
  next
    fix c assume "0 < length xs" "0 < c" "c < length (xs @ [x])" "(c - 1) div 2 = length xs"
    then show "key ((xs @ [x]) ! ((length xs - 1) div 2)) \<le> key ((xs @ [x]) ! c)" by auto
  qed (use assms in auto)
  then show ?thesis by (simp add: pq_enqueue_def)
qed

text \<open>
  The hole at \<open>i\<close> keeps a stale copy of an item that has moved up, so the heap order holds
  throughout; what remains is to put the last item \<open>w\<close> into the hole.
\<close>

lemma pullUp_ok:
  assumes "length xs = Suc e" and "i < e" and "xs ! e = w" and "set xs \<subseteq> A" and "heap xs"
    and "0 < i \<longrightarrow> key (xs ! ((i - 1) div 2)) \<le> key w"
  shows "\<exists>zs k. pq_pullUp cmp xs e w i = Inr (zs, k) \<and> heap (take e (zs[k := w])) \<and>
           mset (take e (zs[k := w])) = mset ((take e xs)[i := w])"
  using assms
proof (induction "e - i" arbitrary: xs i rule: less_induct)
  case less
  let ?l = "i * 2 + 1" and ?r = "i * 2 + 2"
  have stop: "heap (take e (xs[i := w])) \<and> mset (take e (xs[i := w])) = mset ((take e xs)[i := w])"
    if "\<And>c. c < e \<Longrightarrow> 0 < c \<Longrightarrow> (c - 1) div 2 = i \<Longrightarrow> key w \<le> key (xs ! c)"
  proof
    show "mset (take e (xs[i := w])) = mset ((take e xs)[i := w])" by (simp add: take_update_swap)
    show "heap (take e (xs[i := w]))" unfolding heap_def
    proof (intro allI impI)
      fix c assume "0 < c \<and> c < length (take e (xs[i := w]))"
      then have c: "0 < c" "c < e" using less.prems(1) by simp_all
      then have pc: "(c - 1) div 2 < e" by linarith
      have up: "key (xs ! ((c - 1) div 2)) \<le> key (xs ! c)"
        using less.prems(1,5) c unfolding heap_def by simp
      show "key (take e (xs[i := w]) ! ((c - 1) div 2)) \<le> key (take e (xs[i := w]) ! c)"
        using c pc up that [OF c(2) c(1)] less.prems(1,2,6) by (auto simp: nth_list_update)
    qed
  qed
  show ?case
  proof (cases "e \<le> ?l")
    case True
    then have "pq_pullUp cmp xs e w i = Inr (xs, i)" by (simp add: pq_pullUp.simps)
    moreover have "\<And>c. c < e \<Longrightarrow> 0 < c \<Longrightarrow> (c - 1) div 2 = i \<Longrightarrow> key w \<le> key (xs ! c)"
      using True by linarith
    ultimately show ?thesis using stop by blast
  next
    case False
    then have lr: "?l < e" "?r \<le> e" by simp_all
    then have mem: "xs ! ?l \<in> A" "xs ! ?r \<in> A" "w \<in> A"
      using less.prems by (auto intro: nth_mem)
    from cmp_law [OF mem(1,2)] obtain c where c: "cmp (xs ! ?l) (xs ! ?r) = Inr c"
      and cle: "c \<le> 0 \<longleftrightarrow> key (xs ! ?l) \<le> key (xs ! ?r)" by blast
    define j where "j = (if c \<le> 0 then ?l else ?r)"
    have j: "j \<le> e" "i < j" "0 < j" "(j - 1) div 2 = i" using lr by (simp_all add: j_def)
    have small: "key (xs ! j) \<le> key (xs ! ?l)" "key (xs ! j) \<le> key (xs ! ?r)"
      using cle by (simp_all add: j_def)
    have child: "d = ?l \<or> d = ?r" if "0 < d" "(d - 1) div 2 = i" for d using that by linarith
    have "xs ! j \<in> A" using mem by (simp add: j_def)
    from cmp_law [OF mem(3) this] obtain c' where c': "cmp w (xs ! j) = Inr c'"
      and c'le: "c' \<le> 0 \<longleftrightarrow> key w \<le> key (xs ! j)" by blast
    show ?thesis
    proof (cases "c' \<le> 0")
      case True
      then have "pq_pullUp cmp xs e w i = Inr (xs, i)" using c c' False
        by (subst pq_pullUp.simps) (auto simp: Let_def j_def split: if_splits)
      moreover have "\<And>d. d < e \<Longrightarrow> 0 < d \<Longrightarrow> (d - 1) div 2 = i \<Longrightarrow> key w \<le> key (xs ! d)"
        using True c'le small child by (metis order_trans)
      ultimately show ?thesis using stop by blast
    next
      case move: False
      define ys where "ys = xs[i := xs ! j]"
      have je: "j < e" using j move c'le less.prems(3) by (cases "j = e") auto
      have len: "length ys = Suc e" using less.prems(1) by (simp add: ys_def)
      have nth: "ys ! k = (if k = i then xs ! j else xs ! k)" for k
        using less.prems(1,2) by (auto simp: ys_def nth_list_update)
      have "\<exists>zs k. pq_pullUp cmp ys e w j = Inr (zs, k) \<and> heap (take e (zs[k := w])) \<and>
           mset (take e (zs[k := w])) = mset ((take e ys)[j := w])"
      proof (rule less.hyps)
        show "e - j < e - i" using je j by simp
        show "length ys = Suc e" "j < e" by (rule len, rule je)
        show "ys ! e = w" using less.prems(2,3) nth by simp
        show "set ys \<subseteq> A" using less.prems(4) \<open>xs ! j \<in> A\<close> set_update_subset_insert [of xs i "xs ! j"]
          by (auto simp: ys_def)
        show "0 < j \<longrightarrow> key (ys ! ((j - 1) div 2)) \<le> key w" using j move c'le by (simp add: nth)
        show "heap ys" unfolding heap_def
        proof (intro allI impI)
          fix d assume d: "0 < d \<and> d < length ys"
          then have up: "key (xs ! ((d - 1) div 2)) \<le> key (xs ! d)"
            using less.prems(1,5) len unfolding heap_def by simp
          have ij: "key (xs ! i) \<le> key (xs ! j)"
            using less.prems(1,5) j je unfolding heap_def by (metis less_SucI)
          show "key (ys ! ((d - 1) div 2)) \<le> key (ys ! d)"
          proof (cases "(d - 1) div 2 = i")
            case True
            then have "d \<noteq> i" using d by linarith
            then show ?thesis using True child [of d] d small by (auto simp: nth)
          next
            case False
            then show ?thesis using up ij by (auto simp: nth)
          qed
        qed
      qed
      moreover have "pq_pullUp cmp xs e w i = pq_pullUp cmp ys e w j"
        using c c' move \<open>\<not> e \<le> ?l\<close>
        by (subst pq_pullUp.simps) (auto simp: Let_def j_def ys_def split: if_splits)
      moreover have "mset ((take e ys)[j := w]) = mset ((take e xs)[i := w])"
      proof -
        let ?t = "(take e xs)[i := w]"
        have "(take e ys)[j := w] = ?t[i := ?t ! j, j := ?t ! i]"
          using less.prems(1,2) je j by (simp add: ys_def take_update_swap)
        then show ?thesis using mset_swap [of j ?t i] less.prems(1,2) je j by simp
      qed
      ultimately show ?thesis by simp
    qed
  qed
qed

lemma dequeue_ok:
  assumes h: "heap xs" and A: "set xs \<subseteq> A" and ne: "xs \<noteq> []"
  shows "\<exists>x ys. pq_dequeue cmp xs = Inr (x, ys) \<and> heap ys \<and> mset xs = add_mset x (mset ys) \<and>
           (\<forall>y \<in> set xs. key x \<le> key y)"
proof -
  from h ne have min: "\<forall>y \<in> set xs. key (xs ! 0) \<le> key y"
    using heap_root by (metis in_set_conv_nth)
  obtain e where e: "length xs = Suc e" using ne by (cases xs) auto
  show ?thesis
  proof (cases "e = 0")
    case True
    with e obtain x where "xs = [x]" by (cases xs) auto
    then show ?thesis by (simp add: pq_dequeue_def pq_pullUp.simps heap_def)
  next
    case False
    from pullUp_ok [OF e _ refl A h, of 0] False obtain zs k where
      z: "pq_pullUp cmp xs e (xs ! e) 0 = Inr (zs, k)" "heap (take e (zs[k := xs ! e]))"
      and m: "mset (take e (zs[k := xs ! e])) = mset ((take e xs)[0 := xs ! e])"
      by auto
    have "xs = take e xs @ [xs ! e]" using e by (metis lessI take_Suc_conv_app_nth take_all_iff order_refl)
    then have "mset xs = add_mset (xs ! e) (mset (take e xs))" by (metis mset_append mset_single_iff_right union_mset_add_mset_right mset.simps add_mset_add_single)
    also have "\<dots> = add_mset (xs ! 0) (mset ((take e xs)[0 := xs ! e]))"
      using e False by (cases xs; cases e) auto
    finally have "mset xs = add_mset (xs ! 0) (mset (take e (zs[k := xs ! e])))" using m by simp
    with z e min show ?thesis by (simp add: pq_dequeue_def Let_def)
  qed
qed

lemma drain_sorted:
  "heap xs \<Longrightarrow> set xs \<subseteq> A \<Longrightarrow> n = length xs \<Longrightarrow>
     \<exists>ys. pq_drain cmp n xs = Inr ys \<and> mset ys = mset xs \<and> sorted (map key ys)"
proof (induction n arbitrary: xs)
  case 0
  then show ?case by simp
next
  case (Suc n)
  then have "xs \<noteq> []" by auto
  from dequeue_ok [OF Suc.prems(1,2) this] obtain x ys where
    d: "pq_dequeue cmp xs = Inr (x, ys)" "heap ys" "mset xs = add_mset x (mset ys)"
      "\<forall>y \<in> set xs. key x \<le> key y" by blast
  have sub: "set ys \<subseteq> set xs" "n = length ys"
    using d(3) Suc.prems(3) by (metis set_mset_add_mset_insert set_mset_mset subset_insertI,
        metis size_add_mset size_mset diff_Suc_1)
  with Suc.IH [OF d(2)] Suc.prems(2) obtain zs where
    z: "pq_drain cmp n ys = Inr zs" "mset zs = mset ys" "sorted (map key zs)" by blast
  then have "\<forall>z \<in> set zs. key x \<le> key z" using d(4) sub by (metis set_mset_mset subsetD)
  with d z show ?case by simp
qed

lemma enqueueAll_ok:
  "heap xs \<Longrightarrow> set xs \<subseteq> A \<Longrightarrow> set ys \<subseteq> A \<Longrightarrow>
     \<exists>zs. pq_enqueueAll cmp xs ys = Inr zs \<and> heap zs \<and> mset zs = mset xs + mset ys"
proof (induction ys arbitrary: xs)
  case (Cons y ys)
  from enqueue_ok [of xs y] Cons.prems obtain zs where
    z: "pq_enqueue cmp xs y = Inr zs" "heap zs" "mset zs = add_mset y (mset xs)" by auto
  then have "set zs \<subseteq> A" using Cons.prems by (metis insert_subset list.simps(15) set_mset_add_mset_insert set_mset_mset)
  with Cons.IH [OF z(2)] Cons.prems z show ?case by auto
qed simp

lemma heapsort:
  assumes "set ys \<subseteq> A"
  shows "\<exists>hs zs. pq_enqueueAll cmp [] ys = Inr hs \<and> pq_drain cmp (length ys) hs = Inr zs \<and>
           mset zs = mset ys \<and> sorted (map key zs)"
proof -
  have "heap []" by (simp add: heap_def)
  with enqueueAll_ok [of "[]" ys] assms obtain hs where
    h: "pq_enqueueAll cmp [] ys = Inr hs" "heap hs" "mset hs = mset ys" by auto
  then have "set hs \<subseteq> A" "length ys = length hs"
    using assms by (metis set_mset_mset, metis size_mset)
  with drain_sorted [OF h(2)] h show ?thesis by metis
qed

end


subsection \<open>The properties\<close>

text \<open>C23: With a comparator that orders the items by some key and does not raise on them, filling a
  priority queue and emptying it never fails and returns exactly the items that went in, sorted
  by their keys.\<close>

theorem priority_queue_sorts:
  assumes "\<forall>x \<in> set ys. \<forall>y \<in> set ys.
    \<exists>c. cmp x y = Inr c \<and> (c \<le> 0 \<longleftrightarrow> key x \<le> key y) \<and> (0 \<le> c \<longleftrightarrow> key y \<le> (key x :: int))"
  shows "\<exists>hs zs. pq_enqueueAll cmp [] ys = Inr hs \<and> pq_drain cmp (length ys) hs = Inr zs \<and>
    mset zs = mset ys \<and> sorted (map key zs)"
proof -
  have "heap_order cmp (set ys) key" using assms by unfold_locales blast
  then show ?thesis by (rule heap_order.heapsort) simp
qed

theorem priority_queue_sorts_witness:
  "\<exists>hs zs. pq_enqueueAll (\<lambda>x y. Inr (x - y)) [] [3, 1, 2] = Inr hs \<and>
    pq_drain (\<lambda>x y. Inr (x - y)) (length [3, 1, 2 :: int]) hs = Inr zs \<and> mset zs = mset [3, 1, 2] \<and> sorted (map id zs)"
  by (rule priority_queue_sorts) simp

end
