(* ===== verification/AudioPacker.thy ===== *)
theory AudioPacker
  imports DataUtil CyclicalBuffer
begin

text \<open>
  Encoded audio on its way to and from the network
  (\<open>Signal/src/audio/incall_audio/EncodedAudioFrame.m\<close>, \<open>EncodedAudioPacket.m\<close>,
  \<open>AudioPacker.m\<close>): frames are packed two to a packet under consecutive 16-bit sequence
  numbers, and a received packet, or a missing one, is split into two frames again.
\<close>

subsection \<open>Frames and packets\<close>

text \<open>A frame without data stands for audio that did not arrive.\<close>

record encodedAudioFrame =
  eaf_audioData :: "data option"

record encodedAudioPacket =
  eap_audioData :: data
  eap_sequenceNumber :: u16

definition encodedAudioFrameWithData :: "data \<Rightarrow> encodedAudioFrame" where
  "encodedAudioFrameWithData d = \<lparr>eaf_audioData = Some d\<rparr>"

definition encodedAudioFrameWithoutData :: encodedAudioFrame where
  "encodedAudioFrameWithoutData = \<lparr>eaf_audioData = None\<rparr>"

definition isMissingAudioData :: "encodedAudioFrame \<Rightarrow> bool" where
  "isMissingAudioData f = (eaf_audioData f = None)"

definition tryGetAudioData :: "encodedAudioFrame \<Rightarrow> data option" where
  "tryGetAudioData f = eaf_audioData f"

definition encodedAudioPacketWithAudioData :: "data \<Rightarrow> u16 \<Rightarrow> encodedAudioPacket" where
  "encodedAudioPacketWithAudioData d s = \<lparr>eap_audioData = d, eap_sequenceNumber = s\<rparr>"

subsection \<open>The packer\<close>

record audioPacker =
  ap_framesToSend :: "data list"
  ap_nextSequenceNumber :: u16
  ap_audioFrameToReceiveQueue :: "encodedAudioFrame list"

text \<open>The initial number is random with its two high bits cleared.\<close>

definition audioPacker_new :: "u16 \<Rightarrow> audioPacker" where
  "audioPacker_new random16 =
     \<lparr>ap_framesToSend = [], ap_nextSequenceNumber = random16 AND 0x3FFF,
      ap_audioFrameToReceiveQueue = []\<rparr>"

definition packFrame :: "audioPacker \<Rightarrow> encodedAudioFrame \<Rightarrow> audioPacker result" where
  "packFrame ap frame =
     ows_require (\<not> isMissingAudioData frame)
       (case tryGetAudioData frame of
          None \<Rightarrow> Inl BadArgument
        | Some d \<Rightarrow> Inr (ap\<lparr>ap_framesToSend := ap_framesToSend ap @ [d]\<rparr>))"

definition tryGetFinishedAudioPacket ::
  "audioPacker \<Rightarrow> encodedAudioPacket option \<times> audioPacker" where
  "tryGetFinishedAudioPacket ap =
     (if length (ap_framesToSend ap) < 2 then (None, ap)
      else
        (let sequenceNumber = ap_nextSequenceNumber ap;
             payload = ows_concatDatas (ap_framesToSend ap)
         in (Some (encodedAudioPacketWithAudioData payload sequenceNumber),
             ap\<lparr>ap_nextSequenceNumber := ap_nextSequenceNumber ap + 1, ap_framesToSend := []\<rparr>)))"

fun enqueueFramesLoop :: "data \<Rightarrow> nat \<Rightarrow> nat list \<Rightarrow> encodedAudioFrame list \<Rightarrow>
    encodedAudioFrame list result" where
  "enqueueFramesLoop d frameSize [] q = Inr q"
| "enqueueFramesLoop d frameSize (i # is) q =
     bindR (subdataWithRange d (frameSize * i) frameSize) (\<lambda>f.
       enqueueFramesLoop d frameSize is (queue_enqueue q (encodedAudioFrameWithData f)))"

definition enqueueFramesForPacket :: "audioPacker \<Rightarrow> encodedAudioPacket \<Rightarrow> audioPacker result" where
  "enqueueFramesForPacket ap packet =
     (let d = eap_audioData packet
      in requireState (length d mod 2 = 0)
           (bindR (enqueueFramesLoop d (length d div 2) [0..<2] (ap_audioFrameToReceiveQueue ap))
             (\<lambda>q. Inr (ap\<lparr>ap_audioFrameToReceiveQueue := q\<rparr>))))"

definition enqueueFramesForMissingPacket :: "audioPacker \<Rightarrow> audioPacker" where
  "enqueueFramesForMissingPacket ap =
     ap\<lparr>ap_audioFrameToReceiveQueue :=
       fold (\<lambda>i q. queue_enqueue q encodedAudioFrameWithoutData) [0..<2]
         (ap_audioFrameToReceiveQueue ap)\<rparr>"

definition unpackPotentiallyMissingAudioPacket ::
  "audioPacker \<Rightarrow> encodedAudioPacket option \<Rightarrow> audioPacker result" where
  "unpackPotentiallyMissingAudioPacket ap p =
     (case p of Some packet \<Rightarrow> enqueueFramesForPacket ap packet
      | None \<Rightarrow> Inr (enqueueFramesForMissingPacket ap))"

definition tryGetReceivedFrame :: "audioPacker \<Rightarrow> (encodedAudioFrame option \<times> audioPacker) result" where
  "tryGetReceivedFrame ap =
     bindR (queue_tryDequeue (ap_audioFrameToReceiveQueue ap)) (\<lambda>(f, q).
       Inr (f, ap\<lparr>ap_audioFrameToReceiveQueue := q\<rparr>))"

subsection \<open>Packing and unpacking\<close>

lemma packFrame_data:
  "packFrame ap (encodedAudioFrameWithData d) = Inr (ap\<lparr>ap_framesToSend := ap_framesToSend ap @ [d]\<rparr>)"
  by (simp add: packFrame_def isMissingAudioData_def tryGetAudioData_def encodedAudioFrameWithData_def)

lemma packFrame_missing: "packFrame ap encodedAudioFrameWithoutData = Inl BadArgument"
  by (simp add: packFrame_def isMissingAudioData_def encodedAudioFrameWithoutData_def)

lemma pack_two_frames:
  assumes "ap_framesToSend ap = []"
  shows "\<exists>ap1 ap2. packFrame ap (encodedAudioFrameWithData f) = Inr ap1 \<and>
      fst (tryGetFinishedAudioPacket ap1) = None \<and>
      packFrame ap1 (encodedAudioFrameWithData g) = Inr ap2 \<and>
      tryGetFinishedAudioPacket ap2 =
        (Some \<lparr>eap_audioData = f @ g, eap_sequenceNumber = ap_nextSequenceNumber ap\<rparr>,
         ap\<lparr>ap_nextSequenceNumber := ap_nextSequenceNumber ap + 1\<rparr>)"
  using assms
  by (simp add: packFrame_data tryGetFinishedAudioPacket_def encodedAudioPacketWithAudioData_def)

lemma enqueueFramesForPacket_halves:
  assumes "eap_audioData p = f @ g" and "length f = length g"
  shows "enqueueFramesForPacket ap p =
    Inr (ap\<lparr>ap_audioFrameToReceiveQueue := ap_audioFrameToReceiveQueue ap @
            [encodedAudioFrameWithData f, encodedAudioFrameWithData g]\<rparr>)"
  using assms
  by (simp add: enqueueFramesForPacket_def Let_def upt_rec subdataWithRange_def queue_enqueue_def)

lemma enqueueFramesForPacket_odd:
  "odd (length (eap_audioData p)) \<Longrightarrow> enqueueFramesForPacket ap p = Inl BadState"
  by (simp add: enqueueFramesForPacket_def Let_def odd_iff_mod_2_eq_one)

lemma enqueueFramesForMissingPacket_eq:
  "enqueueFramesForMissingPacket ap =
    ap\<lparr>ap_audioFrameToReceiveQueue := ap_audioFrameToReceiveQueue ap @
        [encodedAudioFrameWithoutData, encodedAudioFrameWithoutData]\<rparr>"
  by (simp add: enqueueFramesForMissingPacket_def upt_rec queue_enqueue_def)

lemma initial_sequence_small: "ap_nextSequenceNumber (audioPacker_new r) < 0x4000"
proof -
  have "r AND 0x3FFF = take_bit 14 r" by (simp add: take_bit_eq_mask mask_eq_exp_minus_1)
  moreover have "unat (take_bit 14 r) < 2 ^ 14"
    unfolding unsigned_take_bit_eq by (rule take_bit_nat_less_exp)
  ultimately show ?thesis by (simp add: audioPacker_new_def word_less_nat_alt)
qed

text \<open>Sending a whole call: frames in pairs, sequence numbers counting up modulo 2^16.\<close>

fun packAll :: "audioPacker \<Rightarrow> encodedAudioFrame list \<Rightarrow> (encodedAudioPacket list \<times> audioPacker) result" where
  "packAll ap [] = Inr ([], ap)"
| "packAll ap (f # fs) =
     bindR (packFrame ap f) (\<lambda>ap. let (p, ap) = tryGetFinishedAudioPacket ap in
       bindR (packAll ap fs) (\<lambda>(ps, ap).
         Inr (case p of None \<Rightarrow> ps | Some p \<Rightarrow> p # ps, ap)))"

fun unpackAll :: "audioPacker \<Rightarrow> encodedAudioPacket option list \<Rightarrow> audioPacker result" where
  "unpackAll ap [] = Inr ap"
| "unpackAll ap (p # ps) =
     bindR (unpackPotentiallyMissingAudioPacket ap p) (\<lambda>ap. unpackAll ap ps)"

lemma packAll_sequence:
  "ap_framesToSend ap = [] \<Longrightarrow> n = length ds \<Longrightarrow> even n \<Longrightarrow>
   \<exists>ps ap'. packAll ap (map encodedAudioFrameWithData ds) = Inr (ps, ap') \<and>
     ap_framesToSend ap' = [] \<and> length ps = n div 2 \<and>
     (\<forall>i < length ps. ps ! i = \<lparr>eap_audioData = ds ! (2 * i) @ ds ! (2 * i + 1),
        eap_sequenceNumber = ap_nextSequenceNumber ap + of_nat i\<rparr>)"
proof (induction n arbitrary: ds ap rule: less_induct)
  case (less n)
  show ?case
  proof (cases "n = 0")
    case True
    with less.prems show ?thesis by simp
  next
    case False
    then obtain f ds1 where "ds = f # ds1" using less.prems by (cases ds) auto
    moreover from this less.prems obtain g ds2 where "ds1 = g # ds2" by (cases ds1) auto
    ultimately have ds: "ds = f # g # ds2" by simp
    let ?ap = "ap\<lparr>ap_nextSequenceNumber := ap_nextSequenceNumber ap + 1\<rparr>"
    from pack_two_frames [OF less.prems(1), of f g] obtain ap1 ap2 where
      p1: "packFrame ap (encodedAudioFrameWithData f) = Inr ap1"
      and none: "tryGetFinishedAudioPacket ap1 = (None, ap1)"
      and p2: "packFrame ap1 (encodedAudioFrameWithData g) = Inr ap2"
      and fin: "tryGetFinishedAudioPacket ap2 =
        (Some \<lparr>eap_audioData = f @ g, eap_sequenceNumber = ap_nextSequenceNumber ap\<rparr>, ?ap)"
      by (auto simp: tryGetFinishedAudioPacket_def Let_def split: if_splits)
    have "\<exists>ps ap'. packAll ?ap (map encodedAudioFrameWithData ds2) = Inr (ps, ap') \<and>
     ap_framesToSend ap' = [] \<and> length ps = (n - 2) div 2 \<and>
     (\<forall>i < length ps. ps ! i = \<lparr>eap_audioData = ds2 ! (2 * i) @ ds2 ! (2 * i + 1),
        eap_sequenceNumber = ap_nextSequenceNumber ?ap + of_nat i\<rparr>)"
      using less.prems ds by (intro less.IH) auto
    then obtain ps ap' where ps: "packAll ?ap (map encodedAudioFrameWithData ds2) = Inr (ps, ap')"
      "ap_framesToSend ap' = []" "length ps = (n - 2) div 2"
      and nth: "\<And>i. i < length ps \<Longrightarrow> ps ! i = \<lparr>eap_audioData = ds2 ! (2 * i) @ ds2 ! (2 * i + 1),
        eap_sequenceNumber = ap_nextSequenceNumber ap + 1 + of_nat i\<rparr>" by auto
    let ?p = "\<lparr>eap_audioData = f @ g, eap_sequenceNumber = ap_nextSequenceNumber ap\<rparr>"
    have "packAll ap (map encodedAudioFrameWithData ds) = Inr (?p # ps, ap')"
      by (simp add: ds p1 none p2 fin ps)
    moreover have "(?p # ps) ! i = \<lparr>eap_audioData = ds ! (2 * i) @ ds ! (2 * i + 1),
        eap_sequenceNumber = ap_nextSequenceNumber ap + of_nat i\<rparr>" if "i < length (?p # ps)" for i
      using that nth by (cases i) (auto simp: ds algebra_simps)
    moreover have "length (?p # ps) = n div 2" using ps(3) less.prems ds by simp
    ultimately show ?thesis using ps(2) by blast
  qed
qed

text \<open>What one side packs, the other side unpacks into the same frames.\<close>

definition uniform :: "nat \<Rightarrow> data list \<Rightarrow> bool" where
  "uniform k ds = list_all (\<lambda>d. length d = k) ds"

lemma unpackAll_frames:
  "even (length ds) \<Longrightarrow> uniform k ds \<Longrightarrow> length ps = length ds div 2 \<Longrightarrow>
   (\<And>i. i < length ps \<Longrightarrow> eap_audioData (ps ! i) = ds ! (2 * i) @ ds ! (2 * i + 1)) \<Longrightarrow>
   \<exists>ap'. unpackAll ap (map Some ps) = Inr ap' \<and>
     ap_audioFrameToReceiveQueue ap' =
       ap_audioFrameToReceiveQueue ap @ map encodedAudioFrameWithData ds"
proof (induction ps arbitrary: ds ap)
  case Nil
  then show ?case by (cases ds; cases "tl ds"; simp)
next
  case (Cons p ps)
  then obtain f g ds2 where ds: "ds = f # g # ds2"
    by (cases ds; cases "tl ds"; simp)
  from Cons.prems(4) [of 0] have p: "eap_audioData p = f @ g" by (simp add: ds)
  have fg: "length f = length g" using Cons.prems(2) by (simp add: ds uniform_def)
  define ap1 where "ap1 = ap\<lparr>ap_audioFrameToReceiveQueue := ap_audioFrameToReceiveQueue ap @
            [encodedAudioFrameWithData f, encodedAudioFrameWithData g]\<rparr>"
  have "\<exists>ap'. unpackAll ap1 (map Some ps) = Inr ap' \<and>
     ap_audioFrameToReceiveQueue ap' =
       ap_audioFrameToReceiveQueue ap1 @ map encodedAudioFrameWithData ds2"
  proof (rule Cons.IH)
    show "even (length ds2)" "uniform k ds2" "length ps = length ds2 div 2"
      using Cons.prems by (simp_all add: ds uniform_def)
    fix i assume "i < length ps"
    with Cons.prems(4) [of "Suc i"] show "eap_audioData (ps ! i) = ds2 ! (2 * i) @ ds2 ! (2 * i + 1)"
      by (simp add: ds)
  qed
  then show ?case
    using enqueueFramesForPacket_halves [OF p fg]
    by (auto simp: unpackPotentiallyMissingAudioPacket_def ap1_def ds)
qed

text \<open>An even number of frames of one length, packed by one side from any random start and
  unpacked by the other, comes out as the same frames in the same order; the packets carry
  consecutive 16-bit sequence numbers from the masked random start, wrapping at 2^16.\<close>

theorem audio_packer_roundtrip:
  assumes "even (length ds)" and "uniform k ds"
  shows "\<exists>ps s r. packAll (audioPacker_new rnd) (map encodedAudioFrameWithData ds) = Inr (ps, s) \<and>
    unpackAll (audioPacker_new rnd') (map Some ps) = Inr r \<and>
    ap_audioFrameToReceiveQueue r = map encodedAudioFrameWithData ds \<and>
    map eap_sequenceNumber ps = map (\<lambda>i. (rnd AND 0x3FFF) + of_nat i) [0..<length ds div 2]"
proof -
  from packAll_sequence [of "audioPacker_new rnd" "length ds" ds] assms(1) obtain ps s where
    ps: "packAll (audioPacker_new rnd) (map encodedAudioFrameWithData ds) = Inr (ps, s)"
    "length ps = length ds div 2"
    and nth: "\<And>i. i < length ps \<Longrightarrow> ps ! i = \<lparr>eap_audioData = ds ! (2 * i) @ ds ! (2 * i + 1),
        eap_sequenceNumber = (rnd AND 0x3FFF) + of_nat i\<rparr>"
    by (auto simp: audioPacker_new_def)
  from unpackAll_frames [OF assms ps(2), of "audioPacker_new rnd'"] nth obtain r where
    "unpackAll (audioPacker_new rnd') (map Some ps) = Inr r"
    "ap_audioFrameToReceiveQueue r = map encodedAudioFrameWithData ds"
    by (auto simp: audioPacker_new_def)
  moreover have "map eap_sequenceNumber ps = map (\<lambda>i. (rnd AND 0x3FFF) + of_nat i) [0..<length ds div 2]"
    using nth ps(2) by (intro nth_equalityI) auto
  ultimately show ?thesis using ps(1) by blast
qed

theorem audio_packer_roundtrip_witness:
  "\<exists>ps s r. packAll (audioPacker_new 0xFFFF) (map encodedAudioFrameWithData [[1, 2], [3, 4]]) = Inr (ps, s) \<and>
    unpackAll (audioPacker_new 0) (map Some ps) = Inr r \<and>
    ap_audioFrameToReceiveQueue r = map encodedAudioFrameWithData [[1, 2], [3, 4]] \<and>
    map eap_sequenceNumber ps = map (\<lambda>i. ((0xFFFF :: u16) AND 0x3FFF) + of_nat i) [0..<length [[1, 2], [3, 4 :: byte]] div 2]"
  by (rule audio_packer_roundtrip [where k = 2]) (simp_all add: uniform_def)

end
