(* ===== verification/JitterQueue.thy ===== *)
theory JitterQueue
  imports AudioPacker PriorityQueue
begin

text \<open>
  The jitter queue of \<open>Signal/src/audio/incall_audio/processing/JitterQueue.m\<close>: packets
  that arrive out of order, late, twice or not at all are put back in sequence around a
  read head, a window of 16-bit sequence numbers that starts at \<open>readHeadMin\<close> and widens
  by one with every read that finds nothing. The state is the record of the class's
  instance variables; notifications to the registered watchers are kept as a log.

  The packets wait in the heap of \<^theory_text>\<open>PriorityQueue\<close>, whose comparator raises when two numbers
  are too far apart. The invariant keeps every queued number within 0x1000 of the read
  head, so the comparator orders the queue (the interpretation of \<open>heap_order\<close>) and never
  raises, whatever arrives.
\<close>

subsection \<open>State\<close>

datatype jitterBadArrivalType =
    JitterBadArrivalType_Duplicate | JitterBadArrivalType_Stale | JitterBadArrivalType_TooSoon

datatype jitterBadDequeueType =
    JitterBadDequeueType_Desynced | JitterBadDequeueType_Empty | JitterBadDequeueType_NoDataUnderReadHead

datatype jitterQueueNotification =
    NotifyArrival u16
  | NotifyDequeue u16 nat
  | NotifyBadArrival u16 jitterBadArrivalType
  | NotifyBadDequeueOfType jitterBadDequeueType
  | NotifyResync u16 u16
  | NotifyDiscardOverflow u16 u16 u16

record jitterQueue =
  jq_resultPriorityQueue :: "encodedAudioPacket list option"
  jq_readHeadMin :: u16
  jq_readHeadSpan :: u16
  jq_idsInJitterQueue :: "u16 set"
  jq_watchers :: "nat list"
  jq_largestLatestEnqueued :: u16
  jq_log :: "(nat \<times> jitterQueueNotification) list"

definition TRANSITIVE_SAFETY_RANGE :: int where
  "TRANSITIVE_SAFETY_RANGE = 0x4000"

definition READ_HEAD_MAX_QUEUE_AHEAD :: int where
  "READ_HEAD_MAX_QUEUE_AHEAD = 0x1000"

definition READ_HEAD_BAD_SPAN_THRESHOLD :: u16 where
  "READ_HEAD_BAD_SPAN_THRESHOLD = 0x100"

definition MAXIMUM_JITTER_QUEUE_SIZE_BEFORE_DISCARDING :: nat where
  "MAXIMUM_JITTER_QUEUE_SIZE_BEFORE_DISCARDING = 25"

lemmas jq_consts = TRANSITIVE_SAFETY_RANGE_def READ_HEAD_MAX_QUEUE_AHEAD_def
  READ_HEAD_BAD_SPAN_THRESHOLD_def MAXIMUM_JITTER_QUEUE_SIZE_BEFORE_DISCARDING_def

definition jq_registerWatcher :: "jitterQueue \<Rightarrow> nat option \<Rightarrow> jitterQueue" where
  "jq_registerWatcher q watcher =
     (case watcher of None \<Rightarrow> q | Some w \<Rightarrow> q\<lparr>jq_watchers := jq_watchers q @ [w]\<rparr>)"

text \<open>The receiver that the logging environment supplies may be absent.\<close>

definition jq_new :: "nat option \<Rightarrow> jitterQueue" where
  "jq_new loggingReceiver =
     jq_registerWatcher
       \<lparr>jq_resultPriorityQueue = None, jq_readHeadMin = 0,
        jq_readHeadSpan = READ_HEAD_BAD_SPAN_THRESHOLD + 1, jq_idsInJitterQueue = {},
        jq_watchers = [], jq_largestLatestEnqueued = 0, jq_log = []\<rparr> loggingReceiver"

definition jq_notify :: "jitterQueue \<Rightarrow> jitterQueueNotification \<Rightarrow> jitterQueue" where
  "jq_notify q n = q\<lparr>jq_log := jq_log q @ map (\<lambda>w. (w, n)) (jq_watchers q)\<rparr>"

text \<open>A message to the queue that is still nil returns zero.\<close>

definition jq_items :: "jitterQueue \<Rightarrow> encodedAudioPacket list" where
  "jq_items q = (case jq_resultPriorityQueue q of None \<Rightarrow> [] | Some xs \<Rightarrow> xs)"

definition jq_count :: "jitterQueue \<Rightarrow> nat" where
  "jq_count q = pq_count (jq_items q)"

subsection \<open>Arrival\<close>

definition cyclingPacketComparator :: "encodedAudioPacket comparator" where
  "cyclingPacketComparator obj1 obj2 =
     (let d = congruentDifferenceMod2ToThe16 (eap_sequenceNumber obj2) (eap_sequenceNumber obj1)
      in requireState (\<bar>d\<bar> \<le> TRANSITIVE_SAFETY_RANGE) (Inr (signOfInt32 d)))"

definition tryForceSyncIfNecessary :: "jitterQueue \<Rightarrow> u16 \<Rightarrow> bool \<times> jitterQueue" where
  "tryForceSyncIfNecessary q s =
     (if jq_readHeadSpan q \<le> READ_HEAD_BAD_SPAN_THRESHOLD then (False, q)
      else
        (let q = (if jq_resultPriorityQueue q \<noteq> None
                  then jq_notify q (NotifyResync (jq_readHeadMin q) s) else q)
         in (True, q\<lparr>jq_readHeadMin := s, jq_largestLatestEnqueued := s, jq_readHeadSpan := 1,
                     jq_idsInJitterQueue := {}, jq_resultPriorityQueue := Some []\<rparr>)))"

definition tryFitIntoSequence :: "jitterQueue \<Rightarrow> u16 \<Rightarrow> bool \<times> jitterQueue" where
  "tryFitIntoSequence q s =
     (let relative = congruentDifferenceMod2ToThe16 (jq_readHeadMin q) s;
          (synced, q) = tryForceSyncIfNecessary q s
      in if synced then (True, q)
         else if relative < 0 then
           (False, jq_notify q (NotifyBadArrival s JitterBadArrivalType_Stale))
         else if relative > READ_HEAD_MAX_QUEUE_AHEAD then
           (False, jq_notify q (NotifyBadArrival s JitterBadArrivalType_TooSoon))
         else if s \<in> jq_idsInJitterQueue q then
           (False, jq_notify q (NotifyBadArrival s JitterBadArrivalType_Duplicate))
         else (True, q))"

definition discardExcess :: "jitterQueue \<Rightarrow> jitterQueue result" where
  "discardExcess q =
     (if jq_count q \<le> MAXIMUM_JITTER_QUEUE_SIZE_BEFORE_DISCARDING then Inr q
      else
        bindR (pq_dequeue cyclingPacketComparator (jq_items q)) (\<lambda>(discarded, rest).
        bindR (pq_peek rest) (\<lambda>next.
          let s = eap_sequenceNumber discarded;
              oldReadHeadMax = jq_readHeadMin q + jq_readHeadSpan q - 1
          in Inr (jq_notify
                (q\<lparr>jq_resultPriorityQueue := Some rest,
                   jq_idsInJitterQueue := jq_idsInJitterQueue q - {s},
                   jq_readHeadMin := eap_sequenceNumber next, jq_readHeadSpan := 1\<rparr>)
                (NotifyDiscardOverflow s oldReadHeadMax (eap_sequenceNumber next))))))"

definition tryEnqueue :: "jitterQueue \<Rightarrow> encodedAudioPacket \<Rightarrow> (bool \<times> jitterQueue) result" where
  "tryEnqueue q audioPacket =
     (let s = eap_sequenceNumber audioPacket;
          (fits, q) = tryFitIntoSequence q s
      in if \<not> fits then Inr (False, q)
         else
           bindR (pq_enqueue cyclingPacketComparator (jq_items q) audioPacket) (\<lambda>items.
             let q = q\<lparr>jq_idsInJitterQueue := insert s (jq_idsInJitterQueue q),
                       jq_resultPriorityQueue := Some items\<rparr>;
                 q = (if congruentDifferenceMod2ToThe16 (jq_largestLatestEnqueued q) s > 0
                      then q\<lparr>jq_largestLatestEnqueued := s\<rparr> else q);
                 q = jq_notify q (NotifyArrival s)
             in bindR (discardExcess q) (\<lambda>q. Inr (True, q))))"

subsection \<open>Reading\<close>

definition checkReactIfOutOfSyncForDequeue :: "jitterQueue \<Rightarrow> bool \<times> jitterQueue" where
  "checkReactIfOutOfSyncForDequeue q =
     (if jq_readHeadSpan q > READ_HEAD_BAD_SPAN_THRESHOLD
      then (True, jq_notify q (NotifyBadDequeueOfType JitterBadDequeueType_Desynced))
      else (False, q))"

definition checkReactIfEmptyForDequeue :: "jitterQueue \<Rightarrow> bool \<times> jitterQueue" where
  "checkReactIfEmptyForDequeue q =
     (if jq_count q = 0
      then (True, jq_notify (q\<lparr>jq_readHeadSpan := jq_readHeadSpan q + 1\<rparr>)
                    (NotifyBadDequeueOfType JitterBadDequeueType_Empty))
      else (False, q))"

definition checkReactIfNoDataUnderReadHeadForDequeue :: "jitterQueue \<Rightarrow> (bool \<times> jitterQueue) result" where
  "checkReactIfNoDataUnderReadHeadForDequeue q =
     bindR (pq_peek (jq_items q)) (\<lambda>r.
       let d = congruentDifferenceMod2ToThe16 (jq_readHeadMin q) (eap_sequenceNumber r)
       in Inr (if d < 0 \<or> d \<ge> uint (jq_readHeadSpan q)
               then (True, jq_notify (q\<lparr>jq_readHeadSpan := jq_readHeadSpan q + 1\<rparr>)
                             (NotifyBadDequeueOfType JitterBadDequeueType_NoDataUnderReadHead))
               else (False, q)))"

definition tryDequeue :: "jitterQueue \<Rightarrow> (encodedAudioPacket option \<times> jitterQueue) result" where
  "tryDequeue q =
     (let (outOfSync, q) = checkReactIfOutOfSyncForDequeue q
      in if outOfSync then Inr (None, q)
         else
           (let (empty, q) = checkReactIfEmptyForDequeue q
            in if empty then Inr (None, q)
               else
                 bindR (checkReactIfNoDataUnderReadHeadForDequeue q) (\<lambda>(noData, q).
                   if noData then Inr (None, q)
                   else
                     bindR (pq_dequeue cyclingPacketComparator (jq_items q)) (\<lambda>(r, rest).
                       let s = eap_sequenceNumber r;
                           q = q\<lparr>jq_resultPriorityQueue := Some rest, jq_readHeadMin := s + 1,
                                 jq_readHeadSpan := 1,
                                 jq_idsInJitterQueue := jq_idsInJitterQueue q - {s}\<rparr>
                       in Inr (Some r, jq_notify q
                                 (NotifyDequeue s (card (jq_idsInJitterQueue q))))))))"

definition currentBufferDepth :: "jitterQueue \<Rightarrow> int" where
  "currentBufferDepth q =
     (if jq_readHeadSpan q > READ_HEAD_BAD_SPAN_THRESHOLD then 0
      else congruentDifferenceMod2ToThe16 (jq_readHeadMin q + jq_readHeadSpan q - 1)
             (jq_largestLatestEnqueued q))"

subsection \<open>The invariant\<close>

definition jq_key :: "u16 \<Rightarrow> encodedAudioPacket \<Rightarrow> int" where
  "jq_key base p = uint (eap_sequenceNumber p - base)"

definition jq_window :: "u16 \<Rightarrow> encodedAudioPacket set" where
  "jq_window base = {p. jq_key base p \<le> READ_HEAD_MAX_QUEUE_AHEAD}"

text \<open>The queued packets around a read head: a heap in the window, without duplicates.\<close>

definition jq_queued :: "u16 \<Rightarrow> encodedAudioPacket list \<Rightarrow> bool" where
  "jq_queued base xs \<longleftrightarrow>
     pq_heap (jq_key base) xs \<and> set xs \<subseteq> jq_window base \<and> distinct (map eap_sequenceNumber xs)"

definition jq_latest :: "u16 \<Rightarrow> u16 \<Rightarrow> encodedAudioPacket list \<Rightarrow> bool" where
  "jq_latest base latest xs \<longleftrightarrow>
     -1 \<le> sint (latest - base) \<and> sint (latest - base) \<le> READ_HEAD_MAX_QUEUE_AHEAD \<and>
     (\<forall>p \<in> set xs. jq_key base p \<le> sint (latest - base))"

definition jq_inv :: "jitterQueue \<Rightarrow> bool" where
  "jq_inv q \<longleftrightarrow>
     1 \<le> jq_readHeadSpan q \<and> jq_readHeadSpan q \<le> 0x101 \<and>
     (case jq_resultPriorityQueue q of
        None \<Rightarrow> jq_readHeadSpan q = 0x101 \<and> jq_idsInJitterQueue q = {}
      | Some xs \<Rightarrow>
          jq_queued (jq_readHeadMin q) xs \<and>
          jq_latest (jq_readHeadMin q) (jq_largestLatestEnqueued q) xs \<and>
          jq_idsInJitterQueue q = eap_sequenceNumber ` set xs \<and>
          length xs \<le> MAXIMUM_JITTER_QUEUE_SIZE_BEFORE_DISCARDING)"

lemma jq_new_inv: "jq_inv (jq_new w)"
  by (cases w) (simp_all add: jq_inv_def jq_new_def jq_registerWatcher_def jq_consts)

lemma jq_notify_simps [simp]:
  "jq_resultPriorityQueue (jq_notify q n) = jq_resultPriorityQueue q"
  "jq_readHeadMin (jq_notify q n) = jq_readHeadMin q"
  "jq_readHeadSpan (jq_notify q n) = jq_readHeadSpan q"
  "jq_idsInJitterQueue (jq_notify q n) = jq_idsInJitterQueue q"
  "jq_watchers (jq_notify q n) = jq_watchers q"
  "jq_largestLatestEnqueued (jq_notify q n) = jq_largestLatestEnqueued q"
  "jq_items (jq_notify q n) = jq_items q"
  by (simp_all add: jq_notify_def jq_items_def)

lemma jq_inv_notify [simp]: "jq_inv (jq_notify q n) = jq_inv q"
  by (simp add: jq_inv_def split: option.split)

lemma jq_key_nonneg [simp]: "0 \<le> jq_key b p"
  by (simp add: jq_key_def)

lemma jq_key_inj: "jq_key b p = jq_key b p' \<longleftrightarrow> eap_sequenceNumber p = eap_sequenceNumber p'"
  unfolding jq_key_def by (metis diff_add_cancel word_uint_eq_iff)

text \<open>The comparator orders the packets of a window by their distance from its start.\<close>

lemma cyclingPacketComparator_window:
  assumes "x \<in> jq_window b" and "y \<in> jq_window b"
  shows "cyclingPacketComparator x y = Inr (signOfInt32 (jq_key b x - jq_key b y))"
proof -
  have le: "jq_key b x \<le> 0x1000" "jq_key b y \<le> 0x1000"
    using assms by (simp_all add: jq_window_def READ_HEAD_MAX_QUEUE_AHEAD_def)
  then have s: "sint (eap_sequenceNumber x - eap_sequenceNumber y) = jq_key b x - jq_key b y"
    unfolding jq_key_def by (intro u16_sint_sub) simp_all
  have "\<bar>jq_key b x - jq_key b y\<bar> \<le> 0x4000"
    using le jq_key_nonneg [of b x] jq_key_nonneg [of b y] by linarith
  with s show ?thesis
    by (simp add: cyclingPacketComparator_def Let_def congruentDifference_sint
        TRANSITIVE_SAFETY_RANGE_def)
qed

interpretation jq: heap_order cyclingPacketComparator "jq_window b" "jq_key b" for b
proof unfold_locales
  fix x y assume "x \<in> jq_window b" "y \<in> jq_window b"
  then show "\<exists>c. cyclingPacketComparator x y = Inr c \<and> (c \<le> 0) = (jq_key b x \<le> jq_key b y) \<and>
      (0 \<le> c) = (jq_key b y \<le> jq_key b x)"
    by (auto simp: cyclingPacketComparator_window signOfInt32_def)
qed

text \<open>Moving the read head forward, up to the least queued number, keeps the order.\<close>

lemma jq_queued_rebase:
  assumes q: "jq_queued b xs" and le: "\<And>p. p \<in> set xs \<Longrightarrow> uint (b' - b) \<le> jq_key b p"
  shows "jq_queued b' xs"
proof -
  have k: "jq_key b' p = jq_key b p - uint (b' - b)" if "p \<in> set xs" for p
    using le [OF that] unfolding jq_key_def by (rule u16_rebase)
  have "pq_heap (jq_key b') xs" unfolding pq_heap_def
  proof (intro allI impI)
    fix c assume c: "0 < c \<and> c < length xs"
    then have "xs ! ((c - 1) div 2) \<in> set xs" "xs ! c \<in> set xs" by (auto intro!: nth_mem)
    with c q show "jq_key b' (xs ! ((c - 1) div 2)) \<le> jq_key b' (xs ! c)"
      by (simp add: k jq_queued_def pq_heap_def)
  qed
  moreover have "set xs \<subseteq> jq_window b'"
  proof
    fix p assume p: "p \<in> set xs"
    have "jq_key b p \<le> READ_HEAD_MAX_QUEUE_AHEAD" using p q by (auto simp: jq_queued_def jq_window_def)
    then have "jq_key b' p \<le> READ_HEAD_MAX_QUEUE_AHEAD"
      using k [OF p] u16_bounds(1) [of "b' - b"] by linarith
    then show "p \<in> jq_window b'" by (simp add: jq_window_def)
  qed
  ultimately show ?thesis using q by (simp add: jq_queued_def)
qed

lemma jq_latest_rebase:
  assumes l: "jq_latest b latest xs" and le: "\<And>p. p \<in> set xs \<Longrightarrow> uint (b' - b) \<le> jq_key b p"
    and step: "uint (b' - b) \<le> sint (latest - b) + 1"
  shows "jq_latest b' latest xs"
proof -
  let ?d = "uint (b' - b)" and ?s = "sint (latest - b)"
  have s: "-1 \<le> ?s" "?s \<le> 0x1000" using l by (simp_all add: jq_latest_def READ_HEAD_MAX_QUEUE_AHEAD_def)
  have d: "0 \<le> ?d" "?d \<le> 0x1001" using step s by simp_all
  have "latest - b' = (latest - b) - (b' - b)" by simp
  then have u: "uint (latest - b') = (if ?d \<le> uint (latest - b) then uint (latest - b) - ?d
      else uint (latest - b) - ?d + 65536)"
    using u16_diff [of "latest - b" "b' - b"] by simp
  have eq: "sint (latest - b') = ?s - ?d"
  proof (cases "?s = -1")
    case True
    then have "uint (latest - b) = 65535"
      using u16_bounds(1) [of "latest - b"] unfolding sint16_cases
      by (split if_split_asm) linarith+
    moreover have "?d = 0" using True d step by linarith
    ultimately have "uint (latest - b) = 65535" "?d = 0" .
    then show ?thesis using u True by (simp add: sint16_cases)
  next
    case False
    then have "uint (latest - b) = ?s" using s u16_bounds(2) [of "latest - b"]
      by (auto simp: sint16_cases split: if_splits)
    show ?thesis
    proof (cases "?d \<le> ?s")
      case True
      with \<open>uint (latest - b) = ?s\<close> have "uint (latest - b') = ?s - ?d" using u by simp
      moreover have "?s - ?d < 32768" using s d by linarith
      ultimately show ?thesis by (simp add: sint16_cases [of "latest - b'"])
    next
      case False
      then have "?d = ?s + 1" using step by linarith
      with \<open>uint (latest - b) = ?s\<close> have "uint (latest - b') = 65535" using u by simp
      then show ?thesis using \<open>?d = ?s + 1\<close> by (simp add: sint16_cases [of "latest - b'"])
    qed
  qed
  have "jq_key b' p = jq_key b p - ?d" if "p \<in> set xs" for p
    using le [OF that] unfolding jq_key_def by (rule u16_rebase)
  moreover have "?s - ?d \<le> 0x1000" "-1 \<le> ?s - ?d" using s d step by linarith+
  ultimately show ?thesis using l eq by (auto simp: jq_latest_def READ_HEAD_MAX_QUEUE_AHEAD_def)
qed

subsection \<open>Every operation keeps the invariant and none raises\<close>

lemma jq_items_Some [simp]: "jq_resultPriorityQueue q = Some xs \<Longrightarrow> jq_items q = xs"
  by (simp add: jq_items_def)

lemma jq_queued_mset:
  assumes "jq_queued b xs" and "pq_heap (jq_key b) ys" and "mset xs = mset ys"
  shows "jq_queued b ys"
proof -
  have "set ys = set xs" using assms(3) by (metis set_mset_mset)
  moreover have "distinct (map eap_sequenceNumber ys) = distinct (map eap_sequenceNumber xs)"
    using assms(3) by (intro mset_eq_imp_distinct_iff) simp
  ultimately show ?thesis using assms by (simp add: jq_queued_def)
qed

lemma jq_queued_Nil [simp]: "jq_queued b []"
  by (simp add: jq_queued_def pq_heap_def)

lemma jq_queued_enqueue:
  assumes "jq_queued b xs" and "p \<in> jq_window b" and "eap_sequenceNumber p \<notin> eap_sequenceNumber ` set xs"
  shows "\<exists>ys. pq_enqueue cyclingPacketComparator xs p = Inr ys \<and> jq_queued b ys \<and>
    mset ys = add_mset p (mset xs)"
proof -
  from jq.enqueue_ok [of b xs p] assms obtain ys where
    y: "pq_enqueue cyclingPacketComparator xs p = Inr ys" "pq_heap (jq_key b) ys"
      "mset ys = add_mset p (mset xs)" by (auto simp: jq_queued_def)
  have "set ys = insert p (set xs)" using y(3) by (metis set_mset_add_mset_insert set_mset_mset)
  moreover have "distinct (map eap_sequenceNumber ys) = distinct (map eap_sequenceNumber (p # xs))"
    using y(3) by (intro mset_eq_imp_distinct_iff) simp
  ultimately show ?thesis using y assms by (auto simp: jq_queued_def)
qed

lemma jq_queued_dequeue:
  assumes q: "jq_queued b xs" and ne: "xs \<noteq> []"
  shows "\<exists>p ys. pq_dequeue cyclingPacketComparator xs = Inr (p, ys) \<and> pq_peek xs = Inr p \<and>
    jq_queued b ys \<and> mset xs = add_mset p (mset ys) \<and>
    (\<forall>r \<in> set ys. jq_key b p < jq_key b r) \<and>
    eap_sequenceNumber p \<notin> eap_sequenceNumber ` set ys"
proof -
  from q jq.dequeue_ok [of b xs, OF _ _ ne] obtain p ys where
    d: "pq_dequeue cyclingPacketComparator xs = Inr (p, ys)" "pq_heap (jq_key b) ys"
      "mset xs = add_mset p (mset ys)" "\<forall>y \<in> set xs. jq_key b p \<le> jq_key b y"
    by (auto simp: jq_queued_def)
  have pk: "pq_peek xs = Inr p"
    using d(1) ne by (auto simp: pq_peek_def pq_dequeue_def Let_def)
  have set: "set xs = insert p (set ys)" using d(3) by (metis set_mset_add_mset_insert set_mset_mset)
  have "distinct (map eap_sequenceNumber xs) = distinct (map eap_sequenceNumber (p # ys))"
    using d(3) by (intro mset_eq_imp_distinct_iff) simp
  with q have dist: "distinct (map eap_sequenceNumber (p # ys))" by (simp add: jq_queued_def)
  then have "jq_key b p < jq_key b r" if "r \<in> set ys" for r
    using d(4) set that jq_key_inj [of b p r] by (metis distinct.simps(2) imageI insertI2 le_less
        list.set_map list.simps(9))
  moreover have "jq_queued b ys" using q d(2) set dist by (auto simp: jq_queued_def)
  ultimately show ?thesis using d pk dist by auto
qed

lemma tryForceSync_inv:
  assumes "jq_inv q"
  shows "tryForceSyncIfNecessary q s = (False, q) \<and> jq_resultPriorityQueue q \<noteq> None \<and>
      jq_readHeadSpan q \<le> READ_HEAD_BAD_SPAN_THRESHOLD \<or>
    (\<exists>q'. tryForceSyncIfNecessary q s = (True, q') \<and> jq_resultPriorityQueue q' = Some [] \<and>
      jq_readHeadMin q' = s \<and> jq_largestLatestEnqueued q' = s \<and> jq_readHeadSpan q' = 1 \<and>
      jq_idsInJitterQueue q' = {} \<and> READ_HEAD_BAD_SPAN_THRESHOLD < jq_readHeadSpan q)"
  using assms
  by (cases "jq_readHeadSpan q \<le> READ_HEAD_BAD_SPAN_THRESHOLD")
    (auto simp: tryForceSyncIfNecessary_def jq_inv_def READ_HEAD_BAD_SPAN_THRESHOLD_def
      split: option.splits)

text \<open>What an arriving packet does once it fits: the state before the excess is discarded.\<close>

definition jq_inserted :: "jitterQueue \<Rightarrow> encodedAudioPacket \<Rightarrow> encodedAudioPacket list \<Rightarrow> jitterQueue \<Rightarrow> bool" where
  "jq_inserted q p xs q' \<longleftrightarrow>
     (\<exists>ys. jq_resultPriorityQueue q' = Some ys \<and> mset ys = add_mset p (mset xs) \<and>
        jq_queued (jq_readHeadMin q') ys \<and>
        jq_latest (jq_readHeadMin q') (jq_largestLatestEnqueued q') ys \<and>
        jq_idsInJitterQueue q' = eap_sequenceNumber ` set ys \<and> length ys = Suc (length xs) \<and>
        1 \<le> jq_readHeadSpan q' \<and> jq_readHeadSpan q' \<le> 0x101)"

lemma discardExcess_inv:
  assumes "jq_inserted q p xs q'" and "length xs \<le> 25"
  shows "\<exists>q''. discardExcess q' = Inr q'' \<and> jq_inv q'' \<and>
     (length xs < 25 \<longrightarrow> q'' = q') \<and>
     (length xs = 25 \<longrightarrow> (\<exists>d. mset (jq_items q') = add_mset d (mset (jq_items q'')) \<and>
        (\<forall>r \<in> set (jq_items q''). jq_key (jq_readHeadMin q') d < jq_key (jq_readHeadMin q') r)))"
proof -
  from assms(1) obtain ys where ys: "jq_resultPriorityQueue q' = Some ys"
    "jq_queued (jq_readHeadMin q') ys"
    "jq_latest (jq_readHeadMin q') (jq_largestLatestEnqueued q') ys"
    "jq_idsInJitterQueue q' = eap_sequenceNumber ` set ys" "length ys = Suc (length xs)"
    "1 \<le> jq_readHeadSpan q'" "jq_readHeadSpan q' \<le> 0x101"
    unfolding jq_inserted_def by blast
  show ?thesis
  proof (cases "length xs < 25")
    case True
    then have "discardExcess q' = Inr q'"
      using ys by (simp add: discardExcess_def jq_count_def pq_count_def jq_consts)
    moreover have "jq_inv q'" using True ys by (simp add: jq_inv_def jq_consts)
    ultimately show ?thesis using True by simp
  next
    case False
    let ?b = "jq_readHeadMin q'"
    have len: "length ys = 26" using ys(5) assms(2) False by simp
    then have "ys \<noteq> []" by auto
    from jq_queued_dequeue [OF ys(2) this] obtain d zs where
      d: "pq_dequeue cyclingPacketComparator ys = Inr (d, zs)" "jq_queued ?b zs"
        "mset ys = add_mset d (mset zs)" "\<forall>r \<in> set zs. jq_key ?b d < jq_key ?b r"
        "eap_sequenceNumber d \<notin> eap_sequenceNumber ` set zs" by blast
    have "length ys = Suc (length zs)" using d(3) by (metis size_add_mset size_mset)
    then have lz: "length zs = 25" using len by simp
    then have "zs \<noteq> []" by auto
    from jq_queued_dequeue [OF d(2) this] obtain n where
      n: "pq_peek zs = Inr n" "n \<in> set zs" "\<forall>r \<in> set zs. jq_key ?b n \<le> jq_key ?b r"
      by (metis add_mset_remove_trivial insert_iff less_imp_le order_refl set_mset_add_mset_insert set_mset_mset)
    let ?q = "jq_notify
                (q'\<lparr>jq_resultPriorityQueue := Some zs,
                   jq_idsInJitterQueue := jq_idsInJitterQueue q' - {eap_sequenceNumber d},
                   jq_readHeadMin := eap_sequenceNumber n, jq_readHeadSpan := 1\<rparr>)
                (NotifyDiscardOverflow (eap_sequenceNumber d) (?b + jq_readHeadSpan q' - 1) (eap_sequenceNumber n))"
    have "discardExcess q' = Inr ?q"
      using ys(1) len d(1) n(1) by (simp add: discardExcess_def jq_count_def pq_count_def jq_consts Let_def)
    moreover have "jq_inv ?q"
    proof -
      have le: "\<And>r. r \<in> set zs \<Longrightarrow> uint (eap_sequenceNumber n - ?b) \<le> jq_key ?b r"
        using n(3) by (simp add: jq_key_def)
      have sub: "set ys = insert d (set zs)" using d(3) by (metis set_mset_add_mset_insert set_mset_mset)
      then have "jq_latest ?b (jq_largestLatestEnqueued q') zs" using ys(3) by (simp add: jq_latest_def)
      moreover from this n(2) have "uint (eap_sequenceNumber n - ?b) \<le> sint (jq_largestLatestEnqueued q' - ?b) + 1"
        by (auto simp: jq_latest_def jq_key_def)
      ultimately have "jq_latest (eap_sequenceNumber n) (jq_largestLatestEnqueued q') zs"
        using jq_latest_rebase le by blast
      moreover have "jq_queued (eap_sequenceNumber n) zs" using jq_queued_rebase [OF d(2) le] .
      ultimately show ?thesis using sub d(5) ys(4) lz by (auto simp: jq_inv_def jq_consts)
    qed
    ultimately show ?thesis using False assms(2) d(3,4) ys(1) by (auto simp: jq_items_def)
  qed
qed

lemma u16_ahead:
  "0 \<le> sint (w :: u16) \<Longrightarrow> sint w \<le> 0x1000 \<Longrightarrow> uint w = sint w"
  "uint w \<le> 0x1000 \<Longrightarrow> sint w = uint w"
  using u16_bounds(2) [of w] unfolding sint16_cases by (auto split: if_splits)

lemma u16_succ:
  assumes "-1 \<le> sint (w :: u16)" and "sint w \<le> 0x1000"
  shows "uint (w + 1) = sint w + 1"
proof -
  have "w + 1 = w - (-1)" by simp
  then have "uint (w + 1) = (if 65535 \<le> uint w then uint w - 65535 else uint w + 1)"
    using u16_diff [of w "-1"] by (simp add: unsigned_minus_1_eq_mask mask_eq_exp_minus_1)
  then show ?thesis
    using assms u16_bounds [of w] unfolding sint16_cases by (auto split: if_splits)
qed

lemma u16_succ_pos: "uint (w :: u16) \<le> 0x1000 \<Longrightarrow> uint (w + 1) = uint w + 1"
proof -
  assume w: "uint w \<le> 0x1000"
  have "-1 \<le> sint w" "sint w \<le> 0x1000"
    unfolding u16_ahead(2) [OF w] using w u16_bounds(1) [of w] by linarith+
  then show ?thesis using u16_succ u16_ahead(2) [OF w] by metis
qed

text \<open>A state into which a packet numbered \<open>s\<close> fits.\<close>

definition jq_fits :: "jitterQueue \<Rightarrow> u16 \<Rightarrow> encodedAudioPacket list \<Rightarrow> bool" where
  "jq_fits q s xs \<longleftrightarrow>
     jq_resultPriorityQueue q = Some xs \<and> jq_queued (jq_readHeadMin q) xs \<and>
     jq_latest (jq_readHeadMin q) (jq_largestLatestEnqueued q) xs \<and>
     jq_idsInJitterQueue q = eap_sequenceNumber ` set xs \<and> length xs \<le> 25 \<and>
     1 \<le> jq_readHeadSpan q \<and> jq_readHeadSpan q \<le> 0x101 \<and>
     s \<notin> jq_idsInJitterQueue q \<and> uint (s - jq_readHeadMin q) \<le> READ_HEAD_MAX_QUEUE_AHEAD"

lemma tryFitIntoSequence_spec:
  assumes inv: "jq_inv q"
  shows "(\<exists>n. tryFitIntoSequence q s = (False, jq_notify q n)) \<or>
    tryFitIntoSequence q s = (True, q) \<and> jq_fits q s (jq_items q) \<or>
    (\<exists>q'. tryFitIntoSequence q s = (True, q') \<and> jq_fits q' s [] \<and> jq_readHeadMin q' = s \<and>
      READ_HEAD_BAD_SPAN_THRESHOLD < jq_readHeadSpan q)"
  using tryForceSync_inv [OF inv, of s]
proof
  assume a: "tryForceSyncIfNecessary q s = (False, q) \<and> jq_resultPriorityQueue q \<noteq> None \<and>
      jq_readHeadSpan q \<le> READ_HEAD_BAD_SPAN_THRESHOLD"
  then obtain xs where xs: "jq_resultPriorityQueue q = Some xs" by blast
  show ?thesis
  proof (cases "0 \<le> sint (s - jq_readHeadMin q) \<and> sint (s - jq_readHeadMin q) \<le> READ_HEAD_MAX_QUEUE_AHEAD \<and>
      s \<notin> jq_idsInJitterQueue q")
    case True
    then have "tryFitIntoSequence q s = (True, q)"
      using a by (simp add: tryFitIntoSequence_def congruentDifference_sint Let_def)
    moreover have "uint (s - jq_readHeadMin q) \<le> READ_HEAD_MAX_QUEUE_AHEAD"
      using True u16_ahead(1) [of "s - jq_readHeadMin q"] by (simp add: jq_consts)
    ultimately show ?thesis using True inv xs by (simp add: jq_fits_def jq_inv_def jq_consts)
  next
    case False
    then show ?thesis
      using a by (auto simp: tryFitIntoSequence_def congruentDifference_sint Let_def)
  qed
next
  assume "\<exists>q'. tryForceSyncIfNecessary q s = (True, q') \<and> jq_resultPriorityQueue q' = Some [] \<and>
      jq_readHeadMin q' = s \<and> jq_largestLatestEnqueued q' = s \<and> jq_readHeadSpan q' = 1 \<and>
      jq_idsInJitterQueue q' = {} \<and> READ_HEAD_BAD_SPAN_THRESHOLD < jq_readHeadSpan q"
  then obtain q' where "tryForceSyncIfNecessary q s = (True, q')" "jq_resultPriorityQueue q' = Some []"
      "jq_readHeadMin q' = s" "jq_largestLatestEnqueued q' = s" "jq_readHeadSpan q' = 1"
      "jq_idsInJitterQueue q' = {}" "READ_HEAD_BAD_SPAN_THRESHOLD < jq_readHeadSpan q" by blast
  then show ?thesis
    by (simp add: tryFitIntoSequence_def jq_fits_def jq_latest_def jq_consts Let_def)
qed

definition jq_afterInsert :: "jitterQueue \<Rightarrow> u16 \<Rightarrow> encodedAudioPacket list \<Rightarrow> jitterQueue" where
  "jq_afterInsert q s items =
     (let q = q\<lparr>jq_idsInJitterQueue := insert s (jq_idsInJitterQueue q),
                jq_resultPriorityQueue := Some items\<rparr>;
          q = (if congruentDifferenceMod2ToThe16 (jq_largestLatestEnqueued q) s > 0
               then q\<lparr>jq_largestLatestEnqueued := s\<rparr> else q)
      in jq_notify q (NotifyArrival s))"

lemma tryEnqueue_unfold:
  "tryEnqueue q p =
     (let (fits, q) = tryFitIntoSequence q (eap_sequenceNumber p)
      in if \<not> fits then Inr (False, q)
         else bindR (pq_enqueue cyclingPacketComparator (jq_items q) p) (\<lambda>items.
           bindR (discardExcess (jq_afterInsert q (eap_sequenceNumber p) items)) (\<lambda>q. Inr (True, q))))"
  by (simp only: tryEnqueue_def jq_afterInsert_def Let_def)

lemma jq_afterInsert_ok:
  assumes f: "jq_fits q (eap_sequenceNumber p) xs"
  shows "\<exists>ys. pq_enqueue cyclingPacketComparator xs p = Inr ys \<and>
    jq_inserted q p xs (jq_afterInsert q (eap_sequenceNumber p) ys)"
proof -
  let ?b = "jq_readHeadMin q" and ?s = "eap_sequenceNumber p" and ?l = "jq_largestLatestEnqueued q"
  from f have q: "jq_queued ?b xs" "p \<in> jq_window ?b" "?s \<notin> eap_sequenceNumber ` set xs"
    and l: "jq_latest ?b ?l xs"
    by (auto simp add: jq_fits_def jq_window_def jq_key_def)
  from jq_queued_enqueue [OF q] obtain ys where
    y: "pq_enqueue cyclingPacketComparator xs p = Inr ys" "jq_queued ?b ys"
      "mset ys = add_mset p (mset xs)" by blast
  have set: "set ys = insert p (set xs)" using y(3) by (metis set_mset_add_mset_insert set_mset_mset)
  have len: "length ys = Suc (length xs)" using y(3) by (metis size_add_mset size_mset)
  have u: "uint (?s - ?b) \<le> 0x1000" using f by (simp add: jq_fits_def jq_consts)
  then have s: "sint (?s - ?b) = jq_key ?b p" by (simp add: u16_ahead(2) jq_key_def)
  have diff: "sint (?s - ?l) = sint (?s - ?b) - sint (?l - ?b)"
  proof -
    have b1: "-1 \<le> sint (?l - ?b)" "sint (?l - ?b) \<le> 0x1000"
      using l by (simp_all add: jq_latest_def jq_consts)
    have b2: "-1 \<le> sint (?s - ?b)" "sint (?s - ?b) \<le> 0x1000" 
      using s u jq_key_nonneg [of ?b p] by (simp_all only: jq_key_def)
    have "?s - (?b - 1) = (?s - ?b) + 1" "?l - (?b - 1) = (?l - ?b) + 1" by simp_all
    note eqs = this
    have e: "uint (?s - (?b - 1)) = sint (?s - ?b) + 1" "uint (?l - (?b - 1)) = sint (?l - ?b) + 1"
      unfolding eqs by (rule u16_succ [OF b2], rule u16_succ [OF b1])
    have "sint (?s - ?l) = uint (?s - (?b - 1)) - uint (?l - (?b - 1))"
      by (rule u16_sint_sub) (use e b1 b2 in linarith)+
    then show ?thesis using e by simp
  qed
  let ?q' = "jq_afterInsert q ?s ys"
  have l': "jq_latest ?b (jq_largestLatestEnqueued ?q') ys"
    using l s diff u set
    by (auto simp: jq_afterInsert_def Let_def congruentDifference_sint jq_latest_def jq_key_def jq_consts)
  have "jq_inserted q p xs ?q'"
    using y(2,3) l' set len f
    by (auto simp: jq_inserted_def jq_fits_def jq_afterInsert_def Let_def)
  with y(1) show ?thesis by blast
qed

lemma tryEnqueue_ok:
  assumes inv: "jq_inv q"
  shows "\<exists>b q'. tryEnqueue q p = Inr (b, q') \<and> jq_inv q' \<and>
    (\<not> b \<longrightarrow> (\<exists>n. q' = jq_notify q n)) \<and>
    (b \<longrightarrow> (\<exists>xs. (xs = jq_items q \<or> xs = [] \<and> READ_HEAD_BAD_SPAN_THRESHOLD < jq_readHeadSpan q) \<and>
       (mset (jq_items q') = add_mset p (mset xs) \<or>
        length xs = 25 \<and> (\<exists>d. add_mset d (mset (jq_items q')) = add_mset p (mset xs)))))"
proof -
  let ?s = "eap_sequenceNumber p"
  have step: "\<exists>q''. tryEnqueue q p = Inr (True, q'') \<and> jq_inv q'' \<and>
       (mset (jq_items q'') = add_mset p (mset xs) \<or>
        length xs = 25 \<and> (\<exists>d. add_mset d (mset (jq_items q'')) = add_mset p (mset xs)))"
    if t: "tryFitIntoSequence q ?s = (True, q')" and f: "jq_fits q' ?s xs" for q' xs
  proof -
    from jq_afterInsert_ok [OF f] obtain ys where
      y: "pq_enqueue cyclingPacketComparator xs p = Inr ys" "jq_inserted q' p xs (jq_afterInsert q' ?s ys)"
      by blast
    have len: "length xs \<le> 25" and i: "jq_items q' = xs" using f by (simp_all add: jq_fits_def)
    have "mset (jq_items (jq_afterInsert q' ?s ys)) = add_mset p (mset xs)"
      using y(2) by (auto simp: jq_inserted_def)
    with discardExcess_inv [OF y(2) len] t y(1) i len show ?thesis
      by (auto simp: tryEnqueue_unfold)
  qed
  show ?thesis using tryFitIntoSequence_spec [OF inv, of ?s]
  proof (elim disjE exE conjE)
    fix n assume "tryFitIntoSequence q ?s = (False, jq_notify q n)"
    then show ?thesis using inv by (auto simp: tryEnqueue_unfold)
  next
    assume "tryFitIntoSequence q ?s = (True, q)" "jq_fits q ?s (jq_items q)"
    from step [OF this] show ?thesis by blast
  next
    fix q' assume "tryFitIntoSequence q ?s = (True, q')" "jq_fits q' ?s []"
      "READ_HEAD_BAD_SPAN_THRESHOLD < jq_readHeadSpan q"
    with step [OF this(1,2)] show ?thesis by blast
  qed
qed

lemma jq_span_step:
  "1 \<le> (n :: u16) \<Longrightarrow> n \<le> 0x100 \<Longrightarrow> 1 \<le> n + 1 \<and> n + 1 \<le> 0x101"
  by (simp add: word_le_nat_alt unat_word_ariths)

lemma jq_inv_widen:
  assumes "jq_inv q" and "jq_readHeadSpan q \<le> 0x100"
  shows "jq_inv (q\<lparr>jq_readHeadSpan := jq_readHeadSpan q + 1\<rparr>)"
  using assms jq_span_step [of "jq_readHeadSpan q"]
  by (auto simp: jq_inv_def split: option.splits)

lemma tryDequeue_ok:
  assumes inv: "jq_inv q"
  shows "\<exists>r q'. tryDequeue q = Inr (r, q') \<and> jq_inv q' \<and>
    (case r of
       None \<Rightarrow> jq_items q' = jq_items q \<and> jq_readHeadMin q' = jq_readHeadMin q \<and>
         (jq_readHeadSpan q \<le> READ_HEAD_BAD_SPAN_THRESHOLD \<longrightarrow>
           (\<forall>x \<in> set (jq_items q). uint (jq_readHeadSpan q) \<le> jq_key (jq_readHeadMin q) x))
     | Some p \<Rightarrow> mset (jq_items q) = add_mset p (mset (jq_items q')) \<and>
         jq_key (jq_readHeadMin q) p < uint (jq_readHeadSpan q) \<and>
         jq_readHeadSpan q \<le> READ_HEAD_BAD_SPAN_THRESHOLD \<and>
         (\<forall>x \<in> set (jq_items q'). jq_key (jq_readHeadMin q) p < jq_key (jq_readHeadMin q) x) \<and>
         jq_readHeadMin q' = eap_sequenceNumber p + 1 \<and> jq_readHeadSpan q' = 1)"
proof (cases "READ_HEAD_BAD_SPAN_THRESHOLD < jq_readHeadSpan q")
  case True
  then have "\<not> jq_readHeadSpan q \<le> READ_HEAD_BAD_SPAN_THRESHOLD" by (simp add: not_le)
  then show ?thesis using True inv by (simp add: tryDequeue_def checkReactIfOutOfSyncForDequeue_def)
next
  case False
  then have span: "jq_readHeadSpan q \<le> 0x100" by (simp add: READ_HEAD_BAD_SPAN_THRESHOLD_def)
  then obtain xs where xs: "jq_resultPriorityQueue q = Some xs"
    using inv by (auto simp: jq_inv_def split: option.splits)
  let ?b = "jq_readHeadMin q"
  from inv xs have i: "jq_queued ?b xs" "jq_latest ?b (jq_largestLatestEnqueued q) xs"
    "jq_idsInJitterQueue q = eap_sequenceNumber ` set xs" "length xs \<le> 25"
    by (simp_all add: jq_inv_def jq_consts)
  have widen: "jq_inv (q\<lparr>jq_readHeadSpan := jq_readHeadSpan q + 1\<rparr>)" using inv span by (rule jq_inv_widen)
  show ?thesis
  proof (cases "xs = []")
    case True
    then show ?thesis using False xs widen
      by (simp add: tryDequeue_def checkReactIfOutOfSyncForDequeue_def checkReactIfEmptyForDequeue_def
          jq_count_def pq_count_def jq_items_def)
  next
    case ne: False
    from jq_queued_dequeue [OF i(1) ne] obtain p ys where
      d: "pq_dequeue cyclingPacketComparator xs = Inr (p, ys)" "pq_peek xs = Inr p" "jq_queued ?b ys"
      "mset xs = add_mset p (mset ys)" "\<forall>r \<in> set ys. jq_key ?b p < jq_key ?b r"
      "eap_sequenceNumber p \<notin> eap_sequenceNumber ` set ys" by blast
    have set: "set xs = insert p (set ys)" using d(4) by (metis set_mset_add_mset_insert set_mset_mset)
    have len: "length xs = Suc (length ys)" using d(4) by (metis size_add_mset size_mset)
    have kp: "jq_key ?b p \<le> 0x1000" using i(1) set by (simp add: jq_queued_def jq_window_def jq_consts)
    then have cd: "congruentDifferenceMod2ToThe16 ?b (eap_sequenceNumber p) = jq_key ?b p"
      by (simp add: congruentDifference_sint jq_key_def u16_ahead(2))
    have nn: "\<not> jq_key ?b p < 0" by (simp add: not_less)
    show ?thesis
    proof (cases "jq_key ?b p < uint (jq_readHeadSpan q)")
      case far: False
      then have "\<forall>x \<in> set xs. uint (jq_readHeadSpan q) \<le> jq_key ?b x" using set d(5) by fastforce
      then show ?thesis using far False xs ne widen d(2) cd
        by (simp add: tryDequeue_def checkReactIfOutOfSyncForDequeue_def checkReactIfEmptyForDequeue_def
            checkReactIfNoDataUnderReadHeadForDequeue_def jq_count_def pq_count_def jq_items_def Let_def)
    next
      case near: True
      let ?s = "eap_sequenceNumber p"
      let ?q = "q\<lparr>jq_resultPriorityQueue := Some ys, jq_readHeadMin := ?s + 1, jq_readHeadSpan := 1,
                  jq_idsInJitterQueue := jq_idsInJitterQueue q - {?s}\<rparr>"
      have "tryDequeue q = Inr (Some p, jq_notify ?q (NotifyDequeue ?s (card (jq_idsInJitterQueue ?q))))"
        using near False xs ne d(1,2) cd nn
        by (simp add: tryDequeue_def checkReactIfOutOfSyncForDequeue_def checkReactIfEmptyForDequeue_def
            checkReactIfNoDataUnderReadHeadForDequeue_def jq_count_def pq_count_def Let_def)
      moreover have "jq_inv ?q"
      proof -
        have "?s + 1 - ?b = ?s - ?b + 1" by simp
        then have b': "uint (?s + 1 - ?b) = jq_key ?b p + 1"
          using kp u16_succ_pos [of "?s - ?b"] by (simp only: jq_key_def)
        then have le: "\<And>r. r \<in> set ys \<Longrightarrow> uint (?s + 1 - ?b) \<le> jq_key ?b r" using d(5) by fastforce
        have lat: "jq_latest ?b (jq_largestLatestEnqueued q) ys"
          and "jq_key ?b p \<le> sint (jq_largestLatestEnqueued q - ?b)"
          using i(2) set by (simp_all add: jq_latest_def)
        then have "jq_latest (?s + 1) (jq_largestLatestEnqueued q) ys"
          using b' le by (intro jq_latest_rebase [OF lat]) simp_all
        moreover have "jq_queued (?s + 1) ys" using jq_queued_rebase [OF d(3) le] .
        ultimately show ?thesis using i(3,4) set len d(6) by (auto simp: jq_inv_def jq_consts)
      qed
      ultimately show ?thesis using near span d(4,5) xs by (simp add: jq_consts jq_items_def)
    qed
  qed
qed

lemma tryEnqueue_accept:
  assumes inv: "jq_inv q" and sync: "jq_readHeadSpan q \<le> READ_HEAD_BAD_SPAN_THRESHOLD"
    and room: "jq_count q < 25"
  shows "\<exists>b q'. tryEnqueue q p = Inr (b, q') \<and> jq_inv q' \<and>
    jq_readHeadMin q' = jq_readHeadMin q \<and> jq_readHeadSpan q' = jq_readHeadSpan q \<and>
    mset (jq_items q') = (if b then add_mset p (mset (jq_items q)) else mset (jq_items q)) \<and>
    (b \<longleftrightarrow> jq_key (jq_readHeadMin q) p \<le> READ_HEAD_MAX_QUEUE_AHEAD \<and>
           eap_sequenceNumber p \<notin> eap_sequenceNumber ` set (jq_items q))"
proof -
  let ?s = "eap_sequenceNumber p"
  obtain xs where xs: "jq_resultPriorityQueue q = Some xs"
    using inv sync by (auto simp: jq_inv_def jq_consts split: option.splits)
  have ids: "jq_idsInJitterQueue q = eap_sequenceNumber ` set xs" and len: "length xs < 25"
    using inv room xs by (auto simp: jq_inv_def jq_count_def pq_count_def)
  have ns: "tryForceSyncIfNecessary q ?s = (False, q)" using sync by (simp add: tryForceSyncIfNecessary_def)
  show ?thesis
  proof (cases "jq_key (jq_readHeadMin q) p \<le> READ_HEAD_MAX_QUEUE_AHEAD \<and> ?s \<notin> eap_sequenceNumber ` set xs")
    case True
    then have "sint (?s - jq_readHeadMin q) = jq_key (jq_readHeadMin q) p"
      by (simp add: jq_key_def jq_consts u16_ahead(2))
    moreover have "\<not> jq_key (jq_readHeadMin q) p < 0" by (simp add: not_less)
    ultimately have t: "tryFitIntoSequence q ?s = (True, q)"
      using True ns ids by (auto simp: tryFitIntoSequence_def Let_def congruentDifference_sint)
    have f: "jq_fits q ?s xs" using True inv xs ids by (simp add: jq_fits_def jq_inv_def jq_consts jq_key_def)
    from jq_afterInsert_ok [OF f] obtain ys where
      y: "pq_enqueue cyclingPacketComparator xs p = Inr ys" "jq_inserted q p xs (jq_afterInsert q ?s ys)"
      by blast
    from discardExcess_inv [OF y(2)] len have d: "discardExcess (jq_afterInsert q ?s ys) = Inr (jq_afterInsert q ?s ys)"
      "jq_inv (jq_afterInsert q ?s ys)" by auto
    have "mset (jq_items (jq_afterInsert q ?s ys)) = add_mset p (mset xs)"
      using y(2) by (auto simp: jq_inserted_def)
    moreover have "jq_readHeadMin (jq_afterInsert q ?s ys) = jq_readHeadMin q"
      "jq_readHeadSpan (jq_afterInsert q ?s ys) = jq_readHeadSpan q"
      by (simp_all add: jq_afterInsert_def Let_def)
    ultimately show ?thesis using t y(1) d True xs by (auto simp: tryEnqueue_unfold)
  next
    case False
    have "\<exists>n. tryFitIntoSequence q ?s = (False, jq_notify q n)"
    proof (cases "0 \<le> sint (?s - jq_readHeadMin q) \<and> sint (?s - jq_readHeadMin q) \<le> READ_HEAD_MAX_QUEUE_AHEAD")
      case True
      then have "jq_key (jq_readHeadMin q) p = sint (?s - jq_readHeadMin q)"
        by (simp add: jq_key_def jq_consts u16_ahead(1))
      with True False have "?s \<in> jq_idsInJitterQueue q" by (simp add: ids)
      with True ns show ?thesis
        by (auto simp: tryFitIntoSequence_def Let_def congruentDifference_sint)
    next
      case False
      with ns show ?thesis by (auto simp: tryFitIntoSequence_def Let_def congruentDifference_sint)
    qed
    with inv False xs show ?thesis by (auto simp: tryEnqueue_unfold)
  qed
qed

subsection \<open>Runs\<close>

text \<open>A client's use of the queue: arrivals and reads, and what the reads deliver.\<close>

datatype jq_op = Arrive encodedAudioPacket | Read

fun jq_run :: "jitterQueue \<Rightarrow> jq_op list \<Rightarrow> (encodedAudioPacket list \<times> jitterQueue) result" where
  "jq_run q [] = Inr ([], q)"
| "jq_run q (Arrive p # ops) = bindR (tryEnqueue q p) (\<lambda>(b, q). jq_run q ops)"
| "jq_run q (Read # ops) = bindR (tryDequeue q) (\<lambda>(r, q).
     bindR (jq_run q ops) (\<lambda>(out, q). Inr (case r of None \<Rightarrow> out | Some p \<Rightarrow> p # out, q)))"

fun jq_arrivals :: "jq_op list \<Rightarrow> encodedAudioPacket list" where
  "jq_arrivals [] = []"
| "jq_arrivals (Arrive p # ops) = p # jq_arrivals ops"
| "jq_arrivals (Read # ops) = jq_arrivals ops"

lemma add_mset_subset: "M \<subseteq># add_mset x M"
  using mset_subset_eq_add_right [of M "{#x#}"] by simp

lemma tryEnqueue_items:
  assumes "jq_inv q"
  shows "\<exists>b q1. tryEnqueue q p = Inr (b, q1) \<and> jq_inv q1 \<and>
    mset (jq_items q1) \<subseteq># add_mset p (mset (jq_items q))"
proof -
  from tryEnqueue_ok [OF assms, of p] obtain b q1 where
    e: "tryEnqueue q p = Inr (b, q1)" "jq_inv q1" "\<not> b \<longrightarrow> (\<exists>n. q1 = jq_notify q n)"
    and t: "b \<Longrightarrow> \<exists>xs. (xs = jq_items q \<or> xs = [] \<and> READ_HEAD_BAD_SPAN_THRESHOLD < jq_readHeadSpan q) \<and>
       (mset (jq_items q1) = add_mset p (mset xs) \<or>
        length xs = 25 \<and> (\<exists>d. add_mset d (mset (jq_items q1)) = add_mset p (mset xs)))"
    by blast
  have "mset (jq_items q1) \<subseteq># add_mset p (mset (jq_items q))"
  proof (cases b)
    case False
    with e(3) have "jq_items q1 = jq_items q" by auto
    then show ?thesis using add_mset_subset [of "mset (jq_items q)" p] by simp
  next
    case True
    from t [OF this] obtain xs where xs: "xs = jq_items q \<or> xs = []"
      and m: "mset (jq_items q1) = add_mset p (mset xs) \<or>
        (\<exists>d. add_mset d (mset (jq_items q1)) = add_mset p (mset xs))" by blast
    have "mset (jq_items q1) \<subseteq># add_mset p (mset xs)"
      using m add_mset_subset [of "mset (jq_items q1)"] by (elim disjE exE) (simp, metis)
    moreover have "mset xs \<subseteq># mset (jq_items q)" using xs by auto
    then have "add_mset p (mset xs) \<subseteq># add_mset p (mset (jq_items q))" by simp
    ultimately show ?thesis by (rule subset_mset.order_trans)
  qed
  with e show ?thesis by blast
qed

lemma jq_run_conserves:
  "jq_inv q \<Longrightarrow> \<exists>out q'. jq_run q ops = Inr (out, q') \<and> jq_inv q' \<and>
     mset out + mset (jq_items q') \<subseteq># mset (jq_items q) + mset (jq_arrivals ops)"
proof (induction ops arbitrary: q)
  case Nil
  then show ?case by simp
next
  case (Cons op ops)
  show ?case
  proof (cases op)
    case (Arrive p)
    from tryEnqueue_items [OF Cons.prems, of p] obtain b q1 where
      e: "tryEnqueue q p = Inr (b, q1)" "jq_inv q1"
      and i: "mset (jq_items q1) \<subseteq># add_mset p (mset (jq_items q))" by blast
    from Cons.IH [OF e(2)] obtain out q' where
      r: "jq_run q1 ops = Inr (out, q')" "jq_inv q'"
        "mset out + mset (jq_items q') \<subseteq># mset (jq_items q1) + mset (jq_arrivals ops)" by blast
    have "mset (jq_items q1) + mset (jq_arrivals ops) \<subseteq># add_mset p (mset (jq_items q)) + mset (jq_arrivals ops)"
      using i by simp
    with r e Arrive show ?thesis by (auto intro: subset_mset.order_trans)
  next
    case Read
    from tryDequeue_ok [OF Cons.prems] obtain r q1 where
      e: "tryDequeue q = Inr (r, q1)" "jq_inv q1"
      and i: "mset (jq_items q) = (case r of None \<Rightarrow> {#} | Some p \<Rightarrow> {#p#}) + mset (jq_items q1)"
      by (fastforce split: option.splits)
    from Cons.IH [OF e(2)] obtain out q' where
      "jq_run q1 ops = Inr (out, q')" "jq_inv q'"
        "mset out + mset (jq_items q') \<subseteq># mset (jq_items q1) + mset (jq_arrivals ops)" by blast
    with e i Read show ?thesis by (auto split: option.splits)
  qed
qed

text \<open>
  A run without jumps: the queue is in sync at every step, and no arrival finds it full, so
  the read head only moves by reads.
\<close>

fun jq_calm :: "jitterQueue \<Rightarrow> jq_op list \<Rightarrow> bool" where
  "jq_calm q [] = True"
| "jq_calm q (Arrive p # ops) =
     (jq_readHeadSpan q \<le> READ_HEAD_BAD_SPAN_THRESHOLD \<and> jq_count q < 25 \<and>
      (case tryEnqueue q p of Inl e \<Rightarrow> False | Inr (b, q) \<Rightarrow> jq_calm q ops))"
| "jq_calm q (Read # ops) =
     (jq_readHeadSpan q \<le> READ_HEAD_BAD_SPAN_THRESHOLD \<and>
      (case tryDequeue q of Inl e \<Rightarrow> False | Inr (r, q) \<Rightarrow> jq_calm q ops))"

text \<open>The numbers of a delivered sequence, each 1 to 256 ahead of the one before.\<close>

fun jq_ascending :: "u16 \<Rightarrow> encodedAudioPacket list \<Rightarrow> bool" where
  "jq_ascending prev [] = True"
| "jq_ascending prev (p # ps) =
     (1 \<le> sint (eap_sequenceNumber p - prev) \<and> sint (eap_sequenceNumber p - prev) \<le> 0x100 \<and>
      jq_ascending (eap_sequenceNumber p) ps)"

lemma jq_calm_ascending:
  "jq_inv q \<Longrightarrow> jq_calm q ops \<Longrightarrow>
     \<exists>out q'. jq_run q ops = Inr (out, q') \<and> jq_ascending (jq_readHeadMin q - 1) out"
proof (induction ops arbitrary: q)
  case Nil
  then show ?case by simp
next
  case (Cons op ops)
  show ?case
  proof (cases op)
    case (Arrive p)
    with Cons.prems have "jq_readHeadSpan q \<le> READ_HEAD_BAD_SPAN_THRESHOLD" "jq_count q < 25" by simp_all
    from tryEnqueue_accept [OF Cons.prems(1) this, of p] obtain b q1 where
      "tryEnqueue q p = Inr (b, q1)" "jq_inv q1" "jq_readHeadMin q1 = jq_readHeadMin q" by blast
    with Cons Arrive show ?thesis by fastforce
  next
    case Read
    from tryDequeue_ok [OF Cons.prems(1)] obtain r q1 where
      e: "tryDequeue q = Inr (r, q1)" "jq_inv q1"
      and none: "r = None \<longrightarrow> jq_readHeadMin q1 = jq_readHeadMin q"
      and some: "\<And>p. r = Some p \<Longrightarrow> jq_key (jq_readHeadMin q) p < uint (jq_readHeadSpan q) \<and>
         jq_readHeadMin q1 = eap_sequenceNumber p + 1"
      by (auto split: option.splits)
    have "jq_calm q1 ops" and span: "jq_readHeadSpan q \<le> 0x100"
      using Cons.prems(2) Read e(1) by (simp_all add: READ_HEAD_BAD_SPAN_THRESHOLD_def)
    from Cons.IH [OF e(2) this(1)] obtain out q' where
      r: "jq_run q1 ops = Inr (out, q')" "jq_ascending (jq_readHeadMin q1 - 1) out" by blast
    show ?thesis
    proof (cases r)
      case None
      with r none e Read show ?thesis by auto
    next
      case (Some p)
      have "uint (jq_readHeadSpan q) \<le> 0x100" using span by (simp add: word_le_def)
      with some [OF Some] have k: "uint (eap_sequenceNumber p - jq_readHeadMin q) < 0x100"
        by (simp add: jq_key_def)
      have "eap_sequenceNumber p - (jq_readHeadMin q - 1) = (eap_sequenceNumber p - jq_readHeadMin q) + 1"
        by simp
      note eq = this
      have "uint (eap_sequenceNumber p - (jq_readHeadMin q - 1)) =
          uint (eap_sequenceNumber p - jq_readHeadMin q) + 1"
        unfolding eq by (rule u16_succ_pos) (use k in simp)
      then have "sint (eap_sequenceNumber p - (jq_readHeadMin q - 1)) =
          uint (eap_sequenceNumber p - jq_readHeadMin q) + 1"
        using k u16_ahead(2) [of "eap_sequenceNumber p - (jq_readHeadMin q - 1)"] by simp
      then have "jq_ascending (jq_readHeadMin q - 1) (p # out)"
        using k u16_bounds(1) [of "eap_sequenceNumber p - jq_readHeadMin q"] r(2) some [OF Some] by simp
      with r(1) e Some Read show ?thesis by simp
    qed
  qed
qed

subsection \<open>Reordering\<close>

lemma u16_of_nat_eq: "i < 65536 \<Longrightarrow> j < 65536 \<Longrightarrow> ((of_nat i :: u16) = of_nat j) = (i = j)"
  by (simp add: word_unat_eq_iff unat_of_nat)

lemma jq_arrive_all:
  assumes "jq_inv q" and "jq_readHeadSpan q \<le> READ_HEAD_BAD_SPAN_THRESHOLD"
    and "length (jq_items q) + length ps \<le> 25"
    and "distinct (map eap_sequenceNumber (jq_items q @ ps))"
    and "\<And>p. p \<in> set ps \<Longrightarrow> jq_key (jq_readHeadMin q) p \<le> READ_HEAD_MAX_QUEUE_AHEAD"
  shows "\<exists>q'. jq_run q (map Arrive ps @ ops) = jq_run q' ops \<and> jq_inv q' \<and>
    jq_readHeadMin q' = jq_readHeadMin q \<and> jq_readHeadSpan q' = jq_readHeadSpan q \<and>
    mset (jq_items q') = mset (jq_items q) + mset ps"
  using assms
proof (induction ps arbitrary: q)
  case Nil
  then show ?case by auto
next
  case (Cons p ps)
  have "jq_count q < 25" using Cons.prems(3) by (simp add: jq_count_def pq_count_def)
  from tryEnqueue_accept [OF Cons.prems(1,2) this, of p] Cons.prems(4,5) obtain q1 where
    e: "tryEnqueue q p = Inr (True, q1)" "jq_inv q1" "jq_readHeadMin q1 = jq_readHeadMin q"
      "jq_readHeadSpan q1 = jq_readHeadSpan q" "mset (jq_items q1) = add_mset p (mset (jq_items q))"
    by auto
  have len: "length (jq_items q1) = Suc (length (jq_items q))" using e(5) by (metis size_add_mset size_mset)
  have "distinct (map eap_sequenceNumber (jq_items q1 @ ps)) =
      distinct (map eap_sequenceNumber (jq_items q @ p # ps))"
    using e(5) by (intro mset_eq_imp_distinct_iff) simp
  then have "\<exists>q'. jq_run q1 (map Arrive ps @ ops) = jq_run q' ops \<and> jq_inv q' \<and>
    jq_readHeadMin q' = jq_readHeadMin q1 \<and> jq_readHeadSpan q' = jq_readHeadSpan q1 \<and>
    mset (jq_items q') = mset (jq_items q1) + mset ps"
    using Cons.prems e len by (intro Cons.IH) simp_all
  with e show ?case by auto
qed

lemma jq_read_all:
  assumes "jq_inv q" and "jq_readHeadSpan q = 1"
    and "eap_sequenceNumber ` set (jq_items q) = (\<lambda>i. jq_readHeadMin q + of_nat i) ` {..<n}"
    and "length (jq_items q) = n" and "n \<le> 25"
  shows "\<exists>out q'. jq_run q (replicate n Read) = Inr (out, q') \<and> mset out = mset (jq_items q) \<and>
    map eap_sequenceNumber out = map (\<lambda>i. jq_readHeadMin q + of_nat i) [0..<n]"
  using assms
proof (induction n arbitrary: q)
  case 0
  then show ?case by simp
next
  case (Suc n)
  have "jq_readHeadMin q \<in> eap_sequenceNumber ` set (jq_items q)"
    unfolding Suc.prems(3) by (rule image_eqI [of _ _ 0]) simp_all
  then obtain x where x: "x \<in> set (jq_items q)" "eap_sequenceNumber x = jq_readHeadMin q"
    by auto
  then have kx: "jq_key (jq_readHeadMin q) x = 0" by (simp add: jq_key_def)
  from tryDequeue_ok [OF Suc.prems(1)] obtain r q1 where
    e: "tryDequeue q = Inr (r, q1)" "jq_inv q1" and r: "case r of
       None \<Rightarrow> jq_items q1 = jq_items q \<and> jq_readHeadMin q1 = jq_readHeadMin q \<and>
         (jq_readHeadSpan q \<le> READ_HEAD_BAD_SPAN_THRESHOLD \<longrightarrow>
           (\<forall>x \<in> set (jq_items q). uint (jq_readHeadSpan q) \<le> jq_key (jq_readHeadMin q) x))
     | Some p \<Rightarrow> mset (jq_items q) = add_mset p (mset (jq_items q1)) \<and>
         jq_key (jq_readHeadMin q) p < uint (jq_readHeadSpan q) \<and>
         jq_readHeadSpan q \<le> READ_HEAD_BAD_SPAN_THRESHOLD \<and>
         (\<forall>x \<in> set (jq_items q1). jq_key (jq_readHeadMin q) p < jq_key (jq_readHeadMin q) x) \<and>
         jq_readHeadMin q1 = eap_sequenceNumber p + 1 \<and> jq_readHeadSpan q1 = 1" by blast
  have "r \<noteq> None" using r x kx Suc.prems(2) by (auto simp: READ_HEAD_BAD_SPAN_THRESHOLD_def split: option.splits)
  then obtain p where p: "r = Some p" by blast
  note d = r [unfolded p option.case]
  have "jq_key (jq_readHeadMin q) p = 0"
  proof -
    have "jq_key (jq_readHeadMin q) p < 1" using d Suc.prems(2) by simp
    then show ?thesis using jq_key_nonneg [of "jq_readHeadMin q" p] by linarith
  qed
  then have sp: "eap_sequenceNumber p = jq_readHeadMin q"
    using kx x jq_key_inj [of "jq_readHeadMin q" p x] by simp
  have set: "set (jq_items q) = insert p (set (jq_items q1))"
    using d by (metis set_mset_add_mset_insert set_mset_mset)
  have len: "length (jq_items q1) = n" using d Suc.prems(4) by (metis size_add_mset size_mset nat.inject)
  have notin: "eap_sequenceNumber p \<notin> eap_sequenceNumber ` set (jq_items q1)"
  proof
    assume "eap_sequenceNumber p \<in> eap_sequenceNumber ` set (jq_items q1)"
    then obtain x where "x \<in> set (jq_items q1)" "jq_key (jq_readHeadMin q) p = jq_key (jq_readHeadMin q) x"
      by (auto simp: jq_key_def)
    with d show False by fastforce
  qed
  have inj: "inj_on (\<lambda>i. jq_readHeadMin q + of_nat i) {..<Suc n}"
    using Suc.prems(5) by (intro inj_onI) (simp add: u16_of_nat_eq)
  have "eap_sequenceNumber ` set (jq_items q1) = (\<lambda>i. jq_readHeadMin q + of_nat i) ` {..<Suc n} - {jq_readHeadMin q}"
  proof -
    have "insert (jq_readHeadMin q) (eap_sequenceNumber ` set (jq_items q1)) =
        (\<lambda>i. jq_readHeadMin q + of_nat i) ` {..<Suc n}"
      unfolding Suc.prems(3) [symmetric] set using sp by simp
    then show ?thesis using notin unfolding sp by (metis Diff_insert_absorb)
  qed
  also have "\<dots> = (\<lambda>i. jq_readHeadMin q + of_nat i) ` ({..<Suc n} - {0})"
    using inj_on_image_set_diff [OF inj, of "{..<Suc n}" "{0}"] by simp
  also have "{..<Suc n} - {0} = Suc ` {..<n}"
    by (auto simp: image_iff less_Suc_eq_0_disj)
  finally have "eap_sequenceNumber ` set (jq_items q1) = (\<lambda>i. jq_readHeadMin q1 + of_nat i) ` {..<n}"
    using d sp by (simp add: image_image add.assoc)
  with Suc.IH [OF e(2) _ _ len] d Suc.prems(5) obtain out q' where
    o: "jq_run q1 (replicate n Read) = Inr (out, q')" "mset out = mset (jq_items q1)"
      "map eap_sequenceNumber out = map (\<lambda>i. jq_readHeadMin q1 + of_nat i) [0..<n]" by auto
  have "map (\<lambda>i. jq_readHeadMin q + of_nat i) [0..<Suc n] =
      jq_readHeadMin q # map (\<lambda>i. jq_readHeadMin q1 + of_nat i) [0..<n]"
    using d sp by (simp add: upt_conv_Cons map_Suc_upt [symmetric] del: upt_Suc)
  with o e p sp d show ?case by simp
qed

lemma jq_new_synced:
  "\<exists>q. tryEnqueue (jq_new w) p = Inr (True, q) \<and> jq_inv q \<and>
     jq_readHeadMin q = eap_sequenceNumber p \<and> jq_readHeadSpan q = 1 \<and> jq_items q = [p]"
proof -
  have n: "jq_resultPriorityQueue (jq_new w) = None" "jq_readHeadSpan (jq_new w) = 0x101"
    by (cases w; simp add: jq_new_def jq_registerWatcher_def jq_consts)+
  define q1 where "q1 = (jq_new w)\<lparr>jq_readHeadMin := eap_sequenceNumber p,
    jq_largestLatestEnqueued := eap_sequenceNumber p, jq_readHeadSpan := 1,
    jq_idsInJitterQueue := {}, jq_resultPriorityQueue := Some []\<rparr>"
  have f: "tryFitIntoSequence (jq_new w) (eap_sequenceNumber p) = (True, q1)"
    by (simp add: tryFitIntoSequence_def tryForceSyncIfNecessary_def n jq_consts q1_def)
  have e: "pq_enqueue cyclingPacketComparator [] p = Inr [p]"
    by (simp add: pq_enqueue_def pq_siftUp.simps)
  have "tryEnqueue (jq_new w) p = Inr (True, jq_afterInsert q1 (eap_sequenceNumber p) [p])"
    using f e by (simp add: tryEnqueue_unfold q1_def jq_items_def discardExcess_def jq_count_def
        pq_count_def jq_afterInsert_def Let_def congruentDifference_sint jq_consts)
  moreover obtain b q where "tryEnqueue (jq_new w) p = Inr (b, q)" "jq_inv q"
    using tryEnqueue_ok [OF jq_new_inv] by blast
  ultimately show ?thesis
    by (auto simp: jq_afterInsert_def Let_def q1_def)
qed

subsection \<open>Properties of the jitter queue\<close>

text \<open>C3: From a new queue, any sequence of arriving packets (late, early, duplicate, from any
  peer) and reads runs without an exception: the heap's comparator never sees two numbers too
  far apart, no empty heap is read. The reads deliver only packets that arrived, each at most
  as often as it arrived, and whatever is left keeps the invariant.\<close>

theorem jitter_queue_safe:
  "\<exists>out q. jq_run (jq_new w) ops = Inr (out, q) \<and> jq_inv q \<and>
     mset out + mset (jq_items q) \<subseteq># mset (jq_arrivals ops)"
proof -
  have "jq_items (jq_new w) = []"
    by (cases w) (simp_all add: jq_items_def jq_new_def jq_registerWatcher_def)
  then show ?thesis using jq_run_conserves [OF jq_new_inv, of w ops] by simp
qed

text \<open>C5: While the queue stays in sync and no arrival finds it full, the delivered packets are
  in sequence: each number is 1 to 256 ahead of the one before it in 16-bit congruence, so
  none is delivered twice or behind a later one.\<close>

theorem jitter_queue_in_sequence:
  assumes "jq_inv q" and "jq_calm q ops"
  shows "\<exists>out q'. jq_run q ops = Inr (out, q') \<and> jq_ascending (jq_readHeadMin q - 1) out"
  using assms by (rule jq_calm_ascending)

text \<open>C28: A burst of up to 25 packets with consecutive numbers (wrapping at 2^16), whose first
  arrival is the lowest and whose others arrive in any order, is delivered by as many reads
  completely and in sequence.\<close>

theorem jitter_queue_reorders:
  assumes perm: "mset (map eap_sequenceNumber (p # ps)) =
      mset (map (\<lambda>i. eap_sequenceNumber p + of_nat i) [0..<Suc (length ps)])"
    and few: "length ps < 25"
  shows "\<exists>out q. jq_run (jq_new w) (map Arrive (p # ps) @ replicate (Suc (length ps)) Read) = Inr (out, q) \<and>
    mset out = mset (p # ps) \<and>
    map eap_sequenceNumber out = map (\<lambda>i. eap_sequenceNumber p + of_nat i) [0..<Suc (length ps)]"
proof -
  let ?s = "eap_sequenceNumber p" and ?n = "Suc (length ps)"
  from jq_new_synced [of w p] obtain q1 where
    e: "tryEnqueue (jq_new w) p = Inr (True, q1)" and i1: "jq_inv q1" "jq_readHeadMin q1 = ?s"
      "jq_readHeadSpan q1 = 1" "jq_items q1 = [p]" by blast
  have nums: "set (map eap_sequenceNumber (p # ps)) = (\<lambda>i. ?s + of_nat i) ` {..<?n}"
    using perm by (metis atLeast_upt set_map set_mset_mset)
  have "inj_on (\<lambda>i. ?s + of_nat i) {..<?n}"
    using few by (intro inj_onI) (simp add: u16_of_nat_eq)
  then have "distinct (map (\<lambda>i. ?s + of_nat i) [0..<?n])"
    by (simp add: distinct_map atLeast0LessThan del: upt_Suc)
  then have dist: "distinct (map eap_sequenceNumber (p # ps))"
    using mset_eq_imp_distinct_iff [OF perm] by blast
  have key: "jq_key ?s r \<le> READ_HEAD_MAX_QUEUE_AHEAD" if "r \<in> set ps" for r
  proof -
    have "eap_sequenceNumber r \<in> set (map eap_sequenceNumber (p # ps))" using that by simp
    then obtain i where "i < ?n" "eap_sequenceNumber r = ?s + of_nat i" unfolding nums by blast
    then show ?thesis using few by (simp add: jq_key_def jq_consts uint_nat unat_of_nat)
  qed
  have "\<exists>q2. jq_run q1 (map Arrive ps @ replicate ?n Read) = jq_run q2 (replicate ?n Read) \<and> jq_inv q2 \<and>
    jq_readHeadMin q2 = jq_readHeadMin q1 \<and> jq_readHeadSpan q2 = jq_readHeadSpan q1 \<and>
    mset (jq_items q2) = mset (jq_items q1) + mset ps"
    using i1 few dist key by (intro jq_arrive_all) (simp_all add: READ_HEAD_BAD_SPAN_THRESHOLD_def)
  then obtain q2 where r: "jq_run q1 (map Arrive ps @ replicate ?n Read) = jq_run q2 (replicate ?n Read)"
    and i2: "jq_inv q2" "jq_readHeadMin q2 = ?s" "jq_readHeadSpan q2 = 1"
      "mset (jq_items q2) = mset (p # ps)" using i1 by auto
  have "set (jq_items q2) = set (p # ps)" using i2(4) by (metis set_mset_mset)
  then have "eap_sequenceNumber ` set (jq_items q2) = (\<lambda>i. jq_readHeadMin q2 + of_nat i) ` {..<?n}"
    using nums i2(2) by simp
  moreover have "length (jq_items q2) = ?n" using i2(4) by (metis length_Cons size_mset)
  ultimately obtain out q' where o: "jq_run q2 (replicate ?n Read) = Inr (out, q')"
    "mset out = mset (p # ps)" "map eap_sequenceNumber out = map (\<lambda>i. ?s + of_nat i) [0..<?n]"
    using jq_read_all [OF i2(1,3), of ?n] few i2(2,4) by auto
  have "jq_run (jq_new w) (map Arrive (p # ps) @ replicate ?n Read) = Inr (out, q')"
    using e r o(1) by (simp del: replicate_Suc)
  with o(2,3) show ?thesis by blast
qed

text \<open>The measured buffer depth of a synchronised queue lies between -256 and 4096
  packets, so the 16-bit difference it is computed with never wraps.\<close>

theorem jitter_queue_depth_bounded:
  assumes "jq_inv q"
  shows "-256 \<le> currentBufferDepth q \<and> currentBufferDepth q \<le> 4096"
proof (cases "READ_HEAD_BAD_SPAN_THRESHOLD < jq_readHeadSpan q")
  case True
  then show ?thesis by (simp add: currentBufferDepth_def)
next
  case False
  let ?w = "jq_largestLatestEnqueued q - jq_readHeadMin q" and ?n = "jq_readHeadSpan q"
  from False assms have w: "-1 \<le> sint ?w" "sint ?w \<le> 0x1000" and n: "1 \<le> ?n" "?n \<le> 0x100"
    by (auto simp: jq_inv_def jq_latest_def jq_consts split: option.splits)
  have n': "1 \<le> uint ?n" "uint ?n \<le> 0x100" using n by (simp_all add: word_le_def)
  have u: "uint (?w + 1) = sint ?w + 1" using w by (rule u16_succ)
  have "jq_largestLatestEnqueued q - (jq_readHeadMin q + ?n - 1) = (?w + 1) - ?n" by simp
  then have "currentBufferDepth q = sint ((?w + 1) - ?n)"
    using False by (simp only: currentBufferDepth_def congruentDifference_sint if_False)
  also have "\<dots> = uint (?w + 1 - 0) - uint (?n - 0)"
    by (intro u16_sint_sub) (use u w n' in simp_all)
  finally show ?thesis using u w n' by simp
qed

text \<open>Witnesses.\<close>

theorem jitter_queue_in_sequence_witness:
  "\<exists>out q'. jq_run (\<lparr>jq_resultPriorityQueue = Some [], jq_readHeadMin = 0xFFFF, jq_readHeadSpan = 1,
        jq_idsInJitterQueue = {}, jq_watchers = [], jq_largestLatestEnqueued = 0xFFFF, jq_log = []\<rparr>)
      [Arrive \<lparr>eap_audioData = [7], eap_sequenceNumber = 0xFFFF\<rparr>, Read, Read] = Inr (out, q') \<and>
    jq_ascending (0xFFFF - 1) out"
proof -
  let ?q = "\<lparr>jq_resultPriorityQueue = Some [], jq_readHeadMin = 0xFFFF, jq_readHeadSpan = 1,
        jq_idsInJitterQueue = {}, jq_watchers = [], jq_largestLatestEnqueued = 0xFFFF, jq_log = []\<rparr>"
  have "jq_inv ?q" by (simp add: jq_inv_def jq_latest_def jq_consts)
  moreover have "jq_calm ?q [Arrive \<lparr>eap_audioData = [7], eap_sequenceNumber = 0xFFFF\<rparr>, Read, Read]"
    by code_simp
  ultimately show ?thesis
    using jitter_queue_in_sequence [of ?q "[Arrive \<lparr>eap_audioData = [7], eap_sequenceNumber = 0xFFFF\<rparr>, Read, Read]"]
    by simp
qed

theorem jitter_queue_reorders_witness:
  "\<exists>out q. jq_run (jq_new None)
      (map Arrive [\<lparr>eap_audioData = [1], eap_sequenceNumber = 0xFFFE\<rparr>,
         \<lparr>eap_audioData = [3], eap_sequenceNumber = 0\<rparr>, \<lparr>eap_audioData = [2], eap_sequenceNumber = 0xFFFF\<rparr>]
       @ [Read, Read, Read]) = Inr (out, q) \<and>
     map eap_sequenceNumber out = map (\<lambda>i. 0xFFFE + of_nat i) [0..<3]"
proof -
  let ?p = "\<lparr>eap_audioData = [1], eap_sequenceNumber = 0xFFFE\<rparr>"
  let ?ps = "[\<lparr>eap_audioData = [3], eap_sequenceNumber = 0\<rparr>, \<lparr>eap_audioData = [2], eap_sequenceNumber = 0xFFFF\<rparr>]"
  have "mset (map eap_sequenceNumber (?p # ?ps)) =
      mset (map (\<lambda>i. eap_sequenceNumber ?p + of_nat i) [0..<Suc (length ?ps)])"
    by (simp add: upt_rec)
  from jitter_queue_reorders [OF this, of None] obtain out q where
    "jq_run (jq_new None) (map Arrive (?p # ?ps) @ replicate (Suc (length ?ps)) Read) = Inr (out, q)"
    "map eap_sequenceNumber out = map (\<lambda>i. eap_sequenceNumber ?p + of_nat i) [0..<Suc (length ?ps)]"
    by auto
  then show ?thesis by (intro exI conjI) (simp_all del: jq_run.simps upt_Suc add: numeral_3_eq_3)
qed

theorem jitter_queue_depth_bounded_witness:
  "-256 \<le> currentBufferDepth (jq_new (Some 0)) \<and> currentBufferDepth (jq_new (Some 0)) \<le> 4096"
  by (rule jitter_queue_depth_bounded) (rule jq_new_inv)

end
