(* ===== verification/RtpPacket.thy ===== *)
theory RtpPacket
  imports DataUtil
begin

text \<open>
  RTP packets (\<open>Signal/src/network/rtp/RtpPacket.m\<close>): the two constructors, parsing with its
  tracked offset and minimum size, serialization, and the cached raw data. The environment's
  legacy option (padding bit implies extension bit and twelve extra zero bytes) is the
  parameter \<open>legacy\<close> of the operations that ask for it. The main theorem is the round trip:
  a well-formed packet serializes to data that parses to the same packet.
\<close>

subsection \<open>State and constructors\<close>

record rtpPacket =
  rtp_extensionHeaderIdentifier :: u16
  rtp_extensionHeaderData :: "data option"
  rtp_rawPacketData :: "data option"
  rtp_wasAdjustedDueToInteropIssues :: bool
  rtp_version :: byte
  rtp_padding :: byte
  rtp_hasExtensionHeader :: bool
  rtp_contributingSourceIdentifiers :: "u32 list"
  rtp_isMarkerBitSet :: bool
  rtp_payloadType :: byte
  rtp_sequenceNumber :: u16
  rtp_timeStamp :: u32
  rtp_synchronizationSourceIdentifier :: u32
  rtp_payload :: data

text \<open>A new object's instance variables are zero.\<close>

definition rtp_zero :: rtpPacket where
  "rtp_zero = \<lparr>rtp_extensionHeaderIdentifier = 0, rtp_extensionHeaderData = None,
     rtp_rawPacketData = None, rtp_wasAdjustedDueToInteropIssues = False, rtp_version = 0,
     rtp_padding = 0, rtp_hasExtensionHeader = False, rtp_contributingSourceIdentifiers = [],
     rtp_isMarkerBitSet = False, rtp_payloadType = 0, rtp_sequenceNumber = 0, rtp_timeStamp = 0,
     rtp_synchronizationSourceIdentifier = 0, rtp_payload = []\<rparr>"

definition rtpPacketWithVersionExt ::
  "byte \<Rightarrow> byte \<Rightarrow> u32 list \<Rightarrow> u32 \<Rightarrow> u16 \<Rightarrow> data \<Rightarrow> bool \<Rightarrow> byte \<Rightarrow> u16 \<Rightarrow> u32 \<Rightarrow> data \<Rightarrow> rtpPacket result" where
  "rtpPacketWithVersionExt version padding ccsrcs ssrc extId extData marker payloadType seq timeStamp payload =
     ows_require (version AND NOT 0x3 = 0) (ows_require (payloadType AND NOT 0x7F = 0)
     (ows_require (length extData < 0x10000) (ows_require (length ccsrcs < 0x10)
       (Inr (rtp_zero\<lparr>rtp_version := version, rtp_isMarkerBitSet := marker,
          rtp_hasExtensionHeader := True, rtp_extensionHeaderIdentifier := extId,
          rtp_extensionHeaderData := Some extData, rtp_padding := padding,
          rtp_contributingSourceIdentifiers := ccsrcs, rtp_payloadType := payloadType,
          rtp_synchronizationSourceIdentifier := ssrc, rtp_timeStamp := timeStamp,
          rtp_sequenceNumber := seq, rtp_payload := payload\<rparr>)))))"

definition rtpPacketWithVersion ::
  "byte \<Rightarrow> byte \<Rightarrow> u32 list \<Rightarrow> u32 \<Rightarrow> bool \<Rightarrow> byte \<Rightarrow> u16 \<Rightarrow> u32 \<Rightarrow> data \<Rightarrow> rtpPacket result" where
  "rtpPacketWithVersion version padding ccsrcs ssrc marker payloadType seq timeStamp payload =
     ows_require (version AND NOT 0x3 = 0) (ows_require (payloadType AND NOT 0x7F = 0)
     (ows_require (length ccsrcs < 0x10)
       (Inr (rtp_zero\<lparr>rtp_version := version, rtp_isMarkerBitSet := marker,
          rtp_padding := padding, rtp_contributingSourceIdentifiers := ccsrcs,
          rtp_payloadType := payloadType, rtp_synchronizationSourceIdentifier := ssrc,
          rtp_timeStamp := timeStamp, rtp_sequenceNumber := seq, rtp_payload := payload\<rparr>))))"

definition rtpPacketWithDefaults :: "u16 \<Rightarrow> data \<Rightarrow> rtpPacket result" where
  "rtpPacketWithDefaults seq payload = rtpPacketWithVersion 2 0 [] 0 False 0 seq 0 payload"

text \<open>A nil extension would fail the constructor's argument check.\<close>

definition withPayload :: "rtpPacket \<Rightarrow> data \<Rightarrow> rtpPacket result" where
  "withPayload p newPayload =
     (if rtp_hasExtensionHeader p then
        (case rtp_extensionHeaderData p of
           None \<Rightarrow> Inl BadArgument
         | Some ext \<Rightarrow>
             rtpPacketWithVersionExt (rtp_version p) (rtp_padding p)
               (rtp_contributingSourceIdentifiers p) (rtp_synchronizationSourceIdentifier p)
               (rtp_extensionHeaderIdentifier p) ext (rtp_isMarkerBitSet p) (rtp_payloadType p)
               (rtp_sequenceNumber p) (rtp_timeStamp p) newPayload)
      else
        rtpPacketWithVersion (rtp_version p) (rtp_padding p)
          (rtp_contributingSourceIdentifiers p) (rtp_synchronizationSourceIdentifier p)
          (rtp_isMarkerBitSet p) (rtp_payloadType p) (rtp_sequenceNumber p) (rtp_timeStamp p) newPayload)"

definition withSequenceNumber :: "rtpPacket \<Rightarrow> u16 \<Rightarrow> rtpPacket" where
  "withSequenceNumber p seq =
     rtp_zero\<lparr>rtp_version := rtp_version p, rtp_padding := rtp_padding p,
       rtp_hasExtensionHeader := rtp_hasExtensionHeader p,
       rtp_contributingSourceIdentifiers := rtp_contributingSourceIdentifiers p,
       rtp_isMarkerBitSet := rtp_isMarkerBitSet p, rtp_payloadType := rtp_payloadType p,
       rtp_timeStamp := rtp_timeStamp p,
       rtp_synchronizationSourceIdentifier := rtp_synchronizationSourceIdentifier p,
       rtp_extensionHeaderIdentifier := rtp_extensionHeaderIdentifier p,
       rtp_extensionHeaderData := rtp_extensionHeaderData p, rtp_payload := rtp_payload p,
       rtp_sequenceNumber := seq\<rparr>"

definition rtp_getExtensionHeaderIdentifier :: "rtpPacket \<Rightarrow> u16 result" where
  "rtp_getExtensionHeaderIdentifier p =
     requireState (rtp_hasExtensionHeader p) (Inr (rtp_extensionHeaderIdentifier p))"

definition rtp_getExtensionHeaderData :: "rtpPacket \<Rightarrow> data option result" where
  "rtp_getExtensionHeaderData p =
     requireState (rtp_hasExtensionHeader p) (Inr (rtp_extensionHeaderData p))"

subsection \<open>Parsing\<close>

definition getSequenceNumberFromPacketData :: "data \<Rightarrow> u16 result" where
  "getSequenceNumberFromPacketData d = bigEndianUInt16At d 2"

definition getTimeStampFromPacketData :: "data \<Rightarrow> u32 result" where
  "getTimeStampFromPacketData d = bigEndianUInt32At d 4"

definition getSynchronizationSourceIdentifierFromPacketData :: "data \<Rightarrow> u32 result" where
  "getSynchronizationSourceIdentifierFromPacketData d = bigEndianUInt32At d 8"

text \<open>A flag of the first byte.\<close>

definition flagAt :: "data \<Rightarrow> nat \<Rightarrow> nat \<Rightarrow> bool result" where
  "flagAt d offset bitIndex =
     bindR (uint8At d offset) (\<lambda>b. Inr (drop_bit bitIndex b AND 1 \<noteq> 0))"

fun readCcsrcs :: "data \<Rightarrow> nat \<Rightarrow> nat \<Rightarrow> u32 list result" where
  "readCcsrcs d offset 0 = Inr []"
| "readCcsrcs d offset (Suc n) =
     bindR (bigEndianUInt32At d offset) (\<lambda>c.
       bindR (readCcsrcs d (offset + 4) n) (\<lambda>cs. Inr (c # cs)))"

definition readContributingSources ::
  "rtpPacket \<Rightarrow> data \<Rightarrow> nat \<Rightarrow> nat \<Rightarrow> (rtpPacket \<times> nat \<times> nat) result" where
  "readContributingSources p d offset minSize =
     bindR (uint8At d 0) (\<lambda>b.
       let count = unat (lowUInt4OfUint8 b);
           minSize = minSize + count * 4
       in checkOperation (length d \<ge> minSize)
            (bindR (readCcsrcs d offset count) (\<lambda>cs.
               Inr (p\<lparr>rtp_contributingSourceIdentifiers := cs\<rparr>, offset + 4 * count, minSize))))"

definition readExtensionHeader ::
  "bool \<Rightarrow> rtpPacket \<Rightarrow> data \<Rightarrow> nat \<Rightarrow> nat \<Rightarrow> (rtpPacket \<times> nat \<times> nat) result" where
  "readExtensionHeader legacy p d offset minSize =
     bindR (flagAt d 0 4) (\<lambda>extensionBit. bindR (flagAt d 0 5) (\<lambda>hasPadding.
       let adjust = legacy \<and> hasPadding;
           p = (if adjust then p\<lparr>rtp_wasAdjustedDueToInteropIssues := True\<rparr> else p);
           offset = (if adjust then offset + 12 else offset);
           hasExt = (if adjust then True else extensionBit);
           p = p\<lparr>rtp_hasExtensionHeader := hasExt\<rparr>
       in if \<not> hasExt then Inr (p, offset, minSize)
          else
            checkOperation (length d \<ge> minSize + 4)
              (bindR (bigEndianUInt16At d offset) (\<lambda>ident.
               bindR (bigEndianUInt16At d (offset + 2)) (\<lambda>len.
                 let minSize = minSize + 4 + unat len; offset = offset + 4
                 in checkOperation (length d \<ge> minSize)
                      (bindR (subdataWithRange d offset (unat len)) (\<lambda>ext.
                         Inr (p\<lparr>rtp_extensionHeaderIdentifier := ident,
                               rtp_extensionHeaderData := Some ext\<rparr>,
                              offset + unat len, minSize))))))))"

definition readPadding :: "bool \<Rightarrow> rtpPacket \<Rightarrow> data \<Rightarrow> nat \<Rightarrow> rtpPacket result" where
  "readPadding legacy p d minSize =
     bindR (flagAt d 0 5) (\<lambda>hasPadding.
       let p = (if hasPadding \<and> legacy then p\<lparr>rtp_wasAdjustedDueToInteropIssues := True\<rparr> else p);
           hasPadding = (hasPadding \<and> \<not> legacy)
       in if \<not> hasPadding then Inr p
          else
            bindR (uint8At d (nsu_sub (length d) 1)) (\<lambda>padding.
              checkOperation (padding > 0)
                (checkOperation (length d \<ge> minSize + unat padding)
                  (Inr (p\<lparr>rtp_padding := padding\<rparr>)))))"

definition rtpPacketParsedFromPacketData :: "bool \<Rightarrow> data \<Rightarrow> rtpPacket result" where
  "rtpPacketParsedFromPacketData legacy d =
     checkOperation (length d \<ge> 12)
       (bindR (uint8At d 0) (\<lambda>b0.
          let version = drop_bit 6 b0
          in checkOperation (version = 2 \<or> version = 0)
               (bindR (flagAt d 1 7) (\<lambda>marker. bindR (uint8At d 1) (\<lambda>b1.
                  let p = rtp_zero\<lparr>rtp_rawPacketData := Some d, rtp_version := version,
                        rtp_isMarkerBitSet := marker, rtp_payloadType := b1 AND 0x7F\<rparr>
                  in bindR (readContributingSources p d 12 12) (\<lambda>(p, offset, minSize).
                     bindR (readExtensionHeader legacy p d offset minSize) (\<lambda>(p, offset, minSize).
                     bindR (readPadding legacy p d minSize) (\<lambda>p.
                     bindR (subdataWithRange d offset (nsu_sub (length d - unat (rtp_padding p)) offset)) (\<lambda>payload.
                     bindR (getSequenceNumberFromPacketData d) (\<lambda>seq.
                     bindR (getTimeStampFromPacketData d) (\<lambda>timeStamp.
                     bindR (getSynchronizationSourceIdentifierFromPacketData d) (\<lambda>ssrc.
                       Inr (p\<lparr>rtp_payload := payload, rtp_sequenceNumber := seq,
                             rtp_timeStamp := timeStamp,
                             rtp_synchronizationSourceIdentifier := ssrc\<rparr>))))))))))))) "

subsection \<open>Serialization\<close>

definition rtp_generateFlags :: "rtpPacket \<Rightarrow> data result" where
  "rtp_generateFlags p =
     requireState (rtp_version p AND NOT 0x3 = 0) (requireState (rtp_payloadType p AND NOT 0x7F = 0)
     (requireState (length (rtp_contributingSourceIdentifiers p) < 0x10)
       (let versionMask = push_bit 6 (rtp_version p);
            paddingBit = (if rtp_padding p > 0 then push_bit 5 1 else 0);
            extensionBit = (if rtp_hasExtensionHeader p then push_bit 4 1 else 0);
            ccsrcCount = of_nat (length (rtp_contributingSourceIdentifiers p));
            markerMask = (if rtp_isMarkerBitSet p then push_bit 7 1 else 0)
        in bindR (setUint8At (dataWithLength 2) 0
                    (((versionMask OR paddingBit) OR extensionBit) OR ccsrcCount)) (\<lambda>flags.
             setUint8At flags 1 (markerMask OR rtp_payloadType p)))))"

definition generateCcrcData :: "rtpPacket \<Rightarrow> data" where
  "generateCcrcData p =
     ows_concatDatas (map dataWithBigEndianBytesOfUInt32 (rtp_contributingSourceIdentifiers p))"

definition generateExtensionHeaderData :: "rtpPacket \<Rightarrow> data" where
  "generateExtensionHeaderData p =
     (if \<not> rtp_hasExtensionHeader p then []
      else
        (let ext = (case rtp_extensionHeaderData p of None \<Rightarrow> [] | Some e \<Rightarrow> e)
         in ows_concatDatas [dataWithBigEndianBytesOfUInt16 (rtp_extensionHeaderIdentifier p),
              dataWithBigEndianBytesOfUInt16 (of_nat (length ext)), ext]))"

definition generatePaddingData :: "rtpPacket \<Rightarrow> data result" where
  "generatePaddingData p =
     (let paddingData = dataWithLength (unat (rtp_padding p))
      in if rtp_padding p > 0
         then setUint8At paddingData (nsu_sub (length paddingData) 1) (rtp_padding p)
         else Inr paddingData)"

definition generateSerializedPacketData :: "bool \<Rightarrow> bool \<Rightarrow> rtpPacket \<Rightarrow> data result" where
  "generateSerializedPacketData legacy interop p =
     requireState (rtp_hasExtensionHeader p = (rtp_extensionHeaderData p \<noteq> None))
     (requireState (case rtp_extensionHeaderData p of None \<Rightarrow> True | Some e \<Rightarrow> length e \<le> 0x10000 - 1)
       (let shouldBeEmpty =
              (if legacy \<and> interop \<and> rtp_hasExtensionHeader p then dataWithLength 12 else [])
        in bindR (rtp_generateFlags p) (\<lambda>flags.
           bindR (generatePaddingData p) (\<lambda>paddingData.
             Inr (ows_concatDatas
               [flags,
                dataWithBigEndianBytesOfUInt16 (rtp_sequenceNumber p),
                dataWithBigEndianBytesOfUInt32 (rtp_timeStamp p),
                dataWithBigEndianBytesOfUInt32 (rtp_synchronizationSourceIdentifier p),
                generateCcrcData p,
                shouldBeEmpty,
                generateExtensionHeaderData p,
                rtp_payload p,
                paddingData])))))"

text \<open>The raw data is generated once and kept.\<close>

definition rawPacketDataUsingInteropOptions ::
  "bool \<Rightarrow> bool \<Rightarrow> rtpPacket \<Rightarrow> (data \<times> rtpPacket) result" where
  "rawPacketDataUsingInteropOptions legacy interop p =
     (case rtp_rawPacketData p of
        Some d \<Rightarrow> Inr (d, p)
      | None \<Rightarrow> bindR (generateSerializedPacketData legacy interop p) (\<lambda>d.
          Inr (d, p\<lparr>rtp_rawPacketData := Some d\<rparr>)))"

text \<open>Comparing the raw data fills the caches of both packets.\<close>

definition isEqualToRtpPacket ::
  "bool \<Rightarrow> rtpPacket \<Rightarrow> rtpPacket \<Rightarrow> (bool \<times> rtpPacket \<times> rtpPacket) result" where
  "isEqualToRtpPacket legacy p other =
     (if rtp_version p \<noteq> rtp_version other then Inr (False, p, other)
      else if rtp_padding p \<noteq> rtp_padding other then Inr (False, p, other)
      else if rtp_hasExtensionHeader p \<noteq> rtp_hasExtensionHeader other then Inr (False, p, other)
      else if rtp_isMarkerBitSet p \<noteq> rtp_isMarkerBitSet other then Inr (False, p, other)
      else if rtp_payloadType p \<noteq> rtp_payloadType other then Inr (False, p, other)
      else if rtp_timeStamp p \<noteq> rtp_timeStamp other then Inr (False, p, other)
      else if rtp_synchronizationSourceIdentifier p \<noteq> rtp_synchronizationSourceIdentifier other
        then Inr (False, p, other)
      else if rtp_sequenceNumber p \<noteq> rtp_sequenceNumber other then Inr (False, p, other)
      else if rtp_payload p \<noteq> rtp_payload other then Inr (False, p, other)
      else if rtp_contributingSourceIdentifiers p \<noteq> rtp_contributingSourceIdentifiers other
        then Inr (False, p, other)
      else if rtp_hasExtensionHeader p \<and>
          (rtp_extensionHeaderIdentifier p \<noteq> rtp_extensionHeaderIdentifier other \<or>
           rtp_extensionHeaderData p = None \<or>
           rtp_extensionHeaderData p \<noteq> rtp_extensionHeaderData other) then Inr (False, p, other)
      else bindR (rawPacketDataUsingInteropOptions legacy False p) (\<lambda>(d, p).
           bindR (rawPacketDataUsingInteropOptions legacy False other) (\<lambda>(d', other).
             Inr (d = d', p, other))))"

subsection \<open>The round trip\<close>

text \<open>What the constructors promise of a packet, and what the wire format can carry.\<close>

definition rtp_wf :: "rtpPacket \<Rightarrow> bool" where
  "rtp_wf p \<longleftrightarrow>
     (rtp_version p = 2 \<or> rtp_version p = 0) \<and> rtp_payloadType p AND NOT 0x7F = 0 \<and>
     length (rtp_contributingSourceIdentifiers p) < 16 \<and>
     rtp_hasExtensionHeader p = (rtp_extensionHeaderData p \<noteq> None) \<and>
     (rtp_extensionHeaderData p = None \<longrightarrow> rtp_extensionHeaderIdentifier p = 0) \<and>
     (case rtp_extensionHeaderData p of None \<Rightarrow> True | Some e \<Rightarrow> length e < 0x10000) \<and>
     rtp_rawPacketData p = None \<and> \<not> rtp_wasAdjustedDueToInteropIssues p"

lemma byte_exp_bits:
  "bit (16 :: int) i = (i = 4)" "bit (32 :: int) i = (i = 5)" "bit (128 :: int) i = (i = 7)"
  using bit_exp_iff [of 4 i, where 'a = int] bit_exp_iff [of 5 i, where 'a = int]
    bit_exp_iff [of 7 i, where 'a = int]
  by auto

lemma byte_mask_bits:
  "(b :: byte) AND NOT 0x7F = 0 \<Longrightarrow> take_bit 7 b = b"
  "(b :: byte) AND NOT 0x3 = 0 \<Longrightarrow> take_bit 2 b = b"
proof -
  have m: "(0x7F :: byte) = mask 7" "(0x3 :: byte) = mask 2" by (simp_all add: mask_eq_exp_minus_1)
  have k: "take_bit n b = b" if "b AND NOT (mask n) = 0" for n
  proof (rule word_eq_bitI)
    fix i
    have "bit (b AND NOT (mask n)) i = bit (0 :: byte) i" using that by simp
    then show "bit (take_bit n b) i = bit b i" by (auto simp: bit_simps dest: bit_imp_le_length)
  qed
  show "b AND NOT 0x7F = 0 \<Longrightarrow> take_bit 7 b = b" unfolding m by (rule k)
  show "b AND NOT 0x3 = 0 \<Longrightarrow> take_bit 2 b = b" unfolding m by (rule k)
qed

text \<open>The first byte holds the version, the two flags and the count in separate bits.\<close>

definition rtp_flagByte :: "byte \<Rightarrow> bool \<Rightarrow> bool \<Rightarrow> nat \<Rightarrow> byte" where
  "rtp_flagByte v x e n =
     ((push_bit 6 v OR (if x then push_bit 5 1 else 0)) OR (if e then push_bit 4 1 else 0)) OR of_nat n"

lemma of_nat_bits: "n < 16 \<Longrightarrow> bit (of_nat n :: byte) i \<Longrightarrow> i < 4"
proof -
  assume n: "n < 16" and b: "bit (of_nat n :: byte) i"
  have "take_bit 4 (of_nat n :: byte) = of_nat n"
    using n by (intro nibble_less_bit) (simp add: word_less_nat_alt unat_of_nat)
  then show "i < 4" using b by (metis bit_take_bit_iff)
qed

lemma rtp_flagByte_fields:
  assumes "v = 2 \<or> v = 0" and n: "n < 16"
  shows "drop_bit 6 (rtp_flagByte v x e n) = v"
    and "(drop_bit 5 (rtp_flagByte v x e n) AND 1 \<noteq> 0) = x"
    and "(drop_bit 4 (rtp_flagByte v x e n) AND 1 \<noteq> 0) = e"
    and "unat (rtp_flagByte v x e n AND 0xF) = n"
proof -
  have "take_bit 2 v = v" using assms(1) by auto
  then have v: "bit v i \<Longrightarrow> i < 2" for i by (metis bit_take_bit_iff)
  have f: "bit (rtp_flagByte v x e n) i =
      ((6 \<le> i \<and> i < 8 \<and> bit v (i - 6)) \<or> (i = 5 \<and> x) \<or> (i = 4 \<and> e) \<or> bit (of_nat n :: byte) i)" for i
    by (auto simp: rtp_flagByte_def bit_simps byte_exp_bits)
  show "drop_bit 6 (rtp_flagByte v x e n) = v"
    by (rule word_eq_bitI) (use n v of_nat_bits in \<open>fastforce simp: bit_drop_bit_eq f\<close>)
  have odd: "(drop_bit k w AND 1 \<noteq> 0) = bit w k" for w :: byte and k
    by (simp add: and_one_eq bit_iff_odd_drop_bit odd_iff_mod_2_eq_one)
  show "(drop_bit 5 (rtp_flagByte v x e n) AND 1 \<noteq> 0) = x"
    unfolding odd f using n of_nat_bits [of n 5] by auto
  show "(drop_bit 4 (rtp_flagByte v x e n) AND 1 \<noteq> 0) = e"
    unfolding odd f using n of_nat_bits [of n 4] by auto
  have "rtp_flagByte v x e n AND 0xF = of_nat n"
    unfolding nibble_take_bit
    by (rule word_eq_bitI) (use n of_nat_bits in \<open>auto simp: bit_take_bit_iff f\<close>)
  then show "unat (rtp_flagByte v x e n AND 0xF) = n" using n by (simp add: unat_of_nat)
qed

lemma rtp_markerByte_fields:
  assumes "t AND NOT 0x7F = (0 :: byte)"
  shows "(drop_bit 7 ((if m then push_bit 7 1 else 0) OR t) AND 1 \<noteq> 0) = m"
    and "((if m then push_bit 7 1 else 0) OR t) AND 0x7F = t"
proof -
  from byte_mask_bits(1) [OF assms] have t: "bit t i \<Longrightarrow> i < 7" for i by (metis bit_take_bit_iff)
  have odd: "(drop_bit k w AND 1 \<noteq> 0) = bit w k" for w :: byte and k
    by (simp add: and_one_eq bit_iff_odd_drop_bit odd_iff_mod_2_eq_one)
  show "(drop_bit 7 ((if m then push_bit 7 1 else 0) OR t) AND 1 \<noteq> 0) = m"
    unfolding odd using t [of 7] by (auto simp: bit_simps byte_exp_bits)
  have m7: "(0x7F :: byte) = mask 7" by (simp add: mask_eq_exp_minus_1)
  show "((if m then push_bit 7 1 else 0) OR t) AND 0x7F = t"
    unfolding m7 by (rule word_eq_bitI) (use t in \<open>auto simp: bit_simps byte_exp_bits\<close>)
qed

lemma readCcsrcs_concat:
  "readCcsrcs (pre @ concat (map dataWithBigEndianBytesOfUInt32 cs) @ post) (length pre) (length cs) = Inr cs"
proof (induction cs arbitrary: pre)
  case Nil
  then show ?case by simp
next
  case (Cons c cs)
  have "readCcsrcs ((pre @ dataWithBigEndianBytesOfUInt32 c) @ concat (map dataWithBigEndianBytesOfUInt32 cs) @ post)
      (length (pre @ dataWithBigEndianBytesOfUInt32 c)) (length cs) = Inr cs" by (rule Cons.IH)
  then show ?case by simp
qed

lemma length_ccsrcs: "length (concat (map dataWithBigEndianBytesOfUInt32 cs)) = 4 * length cs"
  by (induction cs) simp_all

lemma uint8At_simps [simp]:
  "uint8At (b # d) 0 = Inr b" "uint8At (a # b # d) (Suc 0) = Inr b"
  by (simp_all add: uint8At_def)

lemma flagAt_simps [simp]:
  "flagAt (b # d) 0 k = Inr (drop_bit k b AND 1 \<noteq> 0)"
  "flagAt (a # b # d) (Suc 0) k = Inr (drop_bit k b AND 1 \<noteq> 0)"
  by (simp_all add: flagAt_def)

definition rtp_header :: "rtpPacket \<Rightarrow> data" where
  "rtp_header p =
     [rtp_flagByte (rtp_version p) (rtp_padding p > 0) (rtp_hasExtensionHeader p)
        (length (rtp_contributingSourceIdentifiers p)),
      (if rtp_isMarkerBitSet p then push_bit 7 1 else 0) OR rtp_payloadType p]
     @ dataWithBigEndianBytesOfUInt16 (rtp_sequenceNumber p)
     @ dataWithBigEndianBytesOfUInt32 (rtp_timeStamp p)
     @ dataWithBigEndianBytesOfUInt32 (rtp_synchronizationSourceIdentifier p)"

definition rtp_paddingBytes :: "rtpPacket \<Rightarrow> data" where
  "rtp_paddingBytes p =
     (if rtp_padding p > 0 then replicate (unat (rtp_padding p) - 1) 0 @ [rtp_padding p] else [])"

lemma length_rtp_header [simp]: "length (rtp_header p) = 12"
  by (simp add: rtp_header_def)

lemma length_rtp_paddingBytes [simp]: "length (rtp_paddingBytes p) = unat (rtp_padding p)"
proof (cases "rtp_padding p = 0")
  case False
  then have "0 < unat (rtp_padding p)" by (simp add: unat_gt_0)
  with False show ?thesis by (simp add: rtp_paddingBytes_def word_greater_zero_iff)
qed (simp add: rtp_paddingBytes_def)

lemma generatePaddingData_eq: "generatePaddingData p = Inr (rtp_paddingBytes p)"
proof (cases "rtp_padding p = 0")
  case False
  then obtain k where k: "unat (rtp_padding p) = Suc k" by (metis not0_implies_Suc unat_eq_zero)
  have "(replicate (Suc k) 0)[k := x] = replicate k 0 @ [x]" for x :: byte
    by (induction k) simp_all
  with False k show ?thesis
    by (simp add: generatePaddingData_def rtp_paddingBytes_def dataWithLength_def setUint8At_def
        word_greater_zero_iff Let_def del: replicate_Suc)
qed (simp add: generatePaddingData_def rtp_paddingBytes_def dataWithLength_def)

lemma generateSerialized_eq:
  assumes wf: "rtp_wf p"
  shows "generateSerializedPacketData False interop p =
    Inr (rtp_header p @ generateCcrcData p @ generateExtensionHeaderData p @ rtp_payload p @ rtp_paddingBytes p)"
proof -
  have v: "rtp_version p AND NOT 0x3 = 0" using wf by (auto simp: rtp_wf_def)
  have "rtp_generateFlags p = Inr (take 2 (rtp_header p))"
    using wf v by (simp add: rtp_generateFlags_def rtp_wf_def dataWithLength_def numeral_2_eq_2
        setUint8At_def rtp_header_def rtp_flagByte_def Let_def)
  then show ?thesis
    using wf by (auto simp: generateSerializedPacketData_def generatePaddingData_eq rtp_wf_def
        rtp_header_def split: option.splits)
qed

lemma readContributingSources_eq:
  assumes h: "length h = 12" "unat (b AND 0xF) = length cs"
    and d: "d = h @ concat (map dataWithBigEndianBytesOfUInt32 cs) @ post"
    and b: "uint8At d 0 = Inr b"
  shows "readContributingSources p d 12 12 =
    Inr (p\<lparr>rtp_contributingSourceIdentifiers := cs\<rparr>, 12 + 4 * length cs, 12 + 4 * length cs)"
  using readCcsrcs_concat [of h cs post] h b
  by (simp add: readContributingSources_def lowUInt4OfUint8_def d length_ccsrcs Let_def mult.commute)

lemma readExtensionHeader_eq:
  assumes d: "d = pre @ generateExtensionHeaderData q @ post"
    and e: "flagAt d 0 4 = Inr (rtp_hasExtensionHeader q)" "flagAt d 0 5 = Inr x"
    and wf: "rtp_wf q" and p: "rtp_extensionHeaderData p = None" "rtp_extensionHeaderIdentifier p = 0"
  shows "readExtensionHeader False p d (length pre) (length pre) =
    Inr (p\<lparr>rtp_hasExtensionHeader := rtp_hasExtensionHeader q,
           rtp_extensionHeaderIdentifier := rtp_extensionHeaderIdentifier q,
           rtp_extensionHeaderData := rtp_extensionHeaderData q\<rparr>,
         length (pre @ generateExtensionHeaderData q), length (pre @ generateExtensionHeaderData q))"
proof (cases "rtp_extensionHeaderData q")
  case None
  with wf e p show ?thesis
    by (cases p) (simp add: readExtensionHeader_def rtp_wf_def generateExtensionHeaderData_def Let_def)
next
  case (Some ext)
  let ?i = "dataWithBigEndianBytesOfUInt16 (rtp_extensionHeaderIdentifier q)"
  let ?l = "dataWithBigEndianBytesOfUInt16 (of_nat (length ext))"
  have len: "unat (of_nat (length ext) :: u16) = length ext"
    using Some wf by (simp add: rtp_wf_def unat_of_nat)
  have d': "d = pre @ ?i @ ?l @ ext @ post" and g: "generateExtensionHeaderData q = ?i @ ?l @ ext"
    using Some wf d by (simp_all add: rtp_wf_def generateExtensionHeaderData_def)
  have "bigEndianUInt16At d (length pre) = Inr (rtp_extensionHeaderIdentifier q)"
    unfolding d' by simp
  moreover have "bigEndianUInt16At d (length pre + 2) = Inr (of_nat (length ext))"
    using bigEndianUInt16At_append [of "length pre + 2" "pre @ ?i" "of_nat (length ext)" "ext @ post"]
    by (simp add: d')
  moreover have "subdataWithRange d (length pre + 4) (length ext) = Inr ext"
    using subdataWithRange_append [of "pre @ ?i @ ?l" ext post] by (simp add: d')
  ultimately show ?thesis
    using Some wf e len g d' by (simp add: readExtensionHeader_def rtp_wf_def Let_def)
qed

lemma readPadding_eq:
  assumes d: "d = pre @ rtp_paddingBytes q" and f: "flagAt d 0 5 = Inr (rtp_padding q > 0)"
    and p: "rtp_padding p = 0" and m: "m \<le> length pre"
  shows "readPadding False p d m = Inr (p\<lparr>rtp_padding := rtp_padding q\<rparr>)"
proof (cases "rtp_padding q = 0")
  case True
  then show ?thesis using f p by (cases p) (simp add: readPadding_def Let_def)
next
  case False
  then have pos: "rtp_padding q > 0" by (simp add: word_greater_zero_iff)
  have "uint8At d (nsu_sub (length d) 1) = Inr (rtp_padding q)"
    using pos by (simp add: d rtp_paddingBytes_def uint8At_def nth_append)
  with pos f m show ?thesis by (simp add: readPadding_def Let_def d)
qed

lemma rtp_parse_serialize:
  assumes wf: "rtp_wf p"
  shows "\<exists>d. generateSerializedPacketData False interop p = Inr d \<and>
    rtpPacketParsedFromPacketData False d = Inr (p\<lparr>rtp_rawPacketData := Some d\<rparr>)"
proof -
  let ?cs = "rtp_contributingSourceIdentifiers p"
  let ?cc = "generateCcrcData p" and ?ext = "generateExtensionHeaderData p"
  define d where "d = rtp_header p @ ?cc @ ?ext @ rtp_payload p @ rtp_paddingBytes p"
  let ?b = "rtp_flagByte (rtp_version p) (rtp_padding p > 0) (rtp_hasExtensionHeader p) (length ?cs)"
  let ?m = "(if rtp_isMarkerBitSet p then push_bit 7 1 else 0) OR rtp_payloadType p"
  have v: "rtp_version p = 2 \<or> rtp_version p = 0" and n: "length ?cs < 16"
    and t: "rtp_payloadType p AND NOT 0x7F = 0" and raw: "rtp_rawPacketData p = None" "\<not> rtp_wasAdjustedDueToInteropIssues p"
    using wf by (auto simp: rtp_wf_def)
  note f = rtp_flagByte_fields [OF v n, of "rtp_padding p > 0" "rtp_hasExtensionHeader p"]
  note k = rtp_markerByte_fields [OF t, of "rtp_isMarkerBitSet p"]
  have u: "uint8At d 0 = Inr ?b" "uint8At d 1 = Inr ?m"
    by (simp_all add: d_def rtp_header_def)
  have fl: "flagAt d 0 4 = Inr (rtp_hasExtensionHeader p)" "flagAt d 0 5 = Inr (rtp_padding p > 0)"
    "flagAt d 1 7 = Inr (rtp_isMarkerBitSet p)"
    by (simp_all only: flagAt_def u bindR.simps f k)
  have cc: "?cc = concat (map dataWithBigEndianBytesOfUInt32 ?cs)" by (simp add: generateCcrcData_def)
  have lc: "length (rtp_header p @ ?cc) = 12 + 4 * length ?cs" by (simp add: cc length_ccsrcs)
  let ?p0 = "rtp_zero\<lparr>rtp_rawPacketData := Some d, rtp_version := rtp_version p,
      rtp_isMarkerBitSet := rtp_isMarkerBitSet p, rtp_payloadType := rtp_payloadType p\<rparr>"
  let ?p1 = "?p0\<lparr>rtp_contributingSourceIdentifiers := ?cs\<rparr>"
  let ?p2 = "?p1\<lparr>rtp_hasExtensionHeader := rtp_hasExtensionHeader p,
      rtp_extensionHeaderIdentifier := rtp_extensionHeaderIdentifier p,
      rtp_extensionHeaderData := rtp_extensionHeaderData p\<rparr>"
  let ?p3 = "?p2\<lparr>rtp_padding := rtp_padding p\<rparr>"
  let ?off = "length ((rtp_header p @ ?cc) @ ?ext)"
  have s1: "readContributingSources ?p0 d 12 12 = Inr (?p1, 12 + 4 * length ?cs, 12 + 4 * length ?cs)"
    using f(4) by (intro readContributingSources_eq [where h = "rtp_header p", OF _ _ _ u(1)])
      (simp_all add: d_def cc)
  have s2: "readExtensionHeader False ?p1 d (12 + 4 * length ?cs) (12 + 4 * length ?cs) = Inr (?p2, ?off, ?off)"
    unfolding lc [symmetric]
    by (rule readExtensionHeader_eq [where q = p]) (use wf fl in \<open>simp_all add: d_def rtp_zero_def\<close>)
  have s3: "readPadding False ?p2 d ?off = Inr ?p3"
    by (rule readPadding_eq [where pre = "rtp_header p @ ?cc @ ?ext @ rtp_payload p"])
      (use fl in \<open>simp_all add: d_def rtp_zero_def\<close>)
  have s4: "subdataWithRange d ?off (nsu_sub (length d - unat (rtp_padding p)) ?off) = Inr (rtp_payload p)"
    by (simp add: d_def subdataWithRange_def nsu_sub_def)
  have q: "getSequenceNumberFromPacketData d = Inr (rtp_sequenceNumber p)"
    "getTimeStampFromPacketData d = Inr (rtp_timeStamp p)"
    "getSynchronizationSourceIdentifierFromPacketData d = Inr (rtp_synchronizationSourceIdentifier p)"
  proof -
    let ?r = "?cc @ ?ext @ rtp_payload p @ rtp_paddingBytes p"
    let ?s1 = "dataWithBigEndianBytesOfUInt16 (rtp_sequenceNumber p)"
    let ?s2 = "dataWithBigEndianBytesOfUInt32 (rtp_timeStamp p)"
    let ?s3 = "dataWithBigEndianBytesOfUInt32 (rtp_synchronizationSourceIdentifier p)"
    have d1: "d = [?b, ?m] @ ?s1 @ ?s2 @ ?s3 @ ?r" and d2: "d = ([?b, ?m] @ ?s1) @ ?s2 @ ?s3 @ ?r"
      and d3: "d = ([?b, ?m] @ ?s1 @ ?s2) @ ?s3 @ ?r"
      by (simp_all add: d_def rtp_header_def)
    show "getSequenceNumberFromPacketData d = Inr (rtp_sequenceNumber p)"
      unfolding getSequenceNumberFromPacketData_def d1 by (rule bigEndianUInt16At_append) simp
    show "getTimeStampFromPacketData d = Inr (rtp_timeStamp p)"
      unfolding getTimeStampFromPacketData_def d2 by (rule bigEndianUInt32At_append) simp
    show "getSynchronizationSourceIdentifierFromPacketData d = Inr (rtp_synchronizationSourceIdentifier p)"
      unfolding getSynchronizationSourceIdentifierFromPacketData_def d3
      by (rule bigEndianUInt32At_append) simp
  qed
  have len: "length d \<ge> 12" by (simp add: d_def)
  have pad: "rtp_padding ?p3 = rtp_padding p" by simp
  have "rtpPacketParsedFromPacketData False d =
      Inr (?p3\<lparr>rtp_payload := rtp_payload p, rtp_sequenceNumber := rtp_sequenceNumber p,
           rtp_timeStamp := rtp_timeStamp p,
           rtp_synchronizationSourceIdentifier := rtp_synchronizationSourceIdentifier p\<rparr>)"
    using len v
    by (simp only: rtpPacketParsedFromPacketData_def Let_def u fl f(1) k(2) s1 s2 s3 s4 pad q bindR.simps
        guard_true prod.case rtpPacket.select_convs rtpPacket.update_convs simp_thms)
  also have "\<dots> = Inr (p\<lparr>rtp_rawPacketData := Some d\<rparr>)"
    using raw by (cases p) (simp add: rtp_zero_def)
  finally have "rtpPacketParsedFromPacketData False d = Inr (p\<lparr>rtp_rawPacketData := Some d\<rparr>)" .
  then show ?thesis using generateSerialized_eq [OF wf] by (simp add: d_def)
qed



subsection \<open>Parsing arbitrary data\<close>

lemma readCcsrcs_ok: "offset + 4 * n \<le> length d \<Longrightarrow> \<exists>cs. readCcsrcs d offset n = Inr cs \<and> length cs = n"
proof (induction n arbitrary: offset)
  case (Suc n)
  from Suc.IH [of "offset + 4"] Suc.prems obtain cs where
    cs: "readCcsrcs d (offset + 4) n = Inr cs" "length cs = n" by auto
  have "is_ok (bigEndianUInt32At d offset)" using Suc.prems by (simp add: bigEndianUInt32At_ok)
  with cs show ?case by (auto simp: is_ok_iff)
qed simp

lemma flagAt_ok: "k < length d \<Longrightarrow> \<exists>b. flagAt d k i = Inr b"
  by (simp add: flagAt_def uint8At_def)

lemma readContributingSources_safe:
  assumes "12 \<le> length d"
  shows "readContributingSources p d 12 12 = Inl OperationFailed \<or>
    (\<exists>cs n. readContributingSources p d 12 12 = Inr (p\<lparr>rtp_contributingSourceIdentifiers := cs\<rparr>, n, n) \<and>
      n \<le> length d \<and> length cs < 16 \<and> n = 12 + 4 * length cs)"
proof -
  have "d \<noteq> []" using assms by auto
  then obtain b where b: "uint8At d 0 = Inr b" by (simp add: uint8At_def)
  let ?n = "unat (b AND 0xF)"
  have n: "?n < 16" using nibble_less(1) [of b] by (simp add: word_less_nat_alt)
  show ?thesis
  proof (cases "12 + ?n * 4 \<le> length d")
    case True
    with readCcsrcs_ok [of 12 ?n d] obtain cs where "readCcsrcs d 12 ?n = Inr cs" "length cs = ?n" by auto
    with True b n show ?thesis
      by (simp add: readContributingSources_def lowUInt4OfUint8_def Let_def) (metis mult.commute)
  next
    case False
    then show ?thesis by (simp add: readContributingSources_def lowUInt4OfUint8_def Let_def b)
  qed
qed

lemma readExtensionHeader_safe:
  assumes "n \<le> length d" and "12 \<le> n" and "rtp_extensionHeaderData p = None"
  shows "readExtensionHeader False p d n n = Inl OperationFailed \<or>
    (\<exists>h i e m. readExtensionHeader False p d n n =
       Inr (p\<lparr>rtp_hasExtensionHeader := h, rtp_extensionHeaderIdentifier := i,
             rtp_extensionHeaderData := e\<rparr>, m, m) \<and> m \<le> length d \<and> n \<le> m \<and>
       h = (e \<noteq> None) \<and> (\<forall>x. e = Some x \<longrightarrow> length x < 0x10000) \<and>
       (e = None \<longrightarrow> i = rtp_extensionHeaderIdentifier p))"
proof -
  obtain x e where f: "flagAt d 0 4 = Inr e" "flagAt d 0 5 = Inr x"
  proof -
    have "0 < length d" using assms(1,2) by linarith
    with flagAt_ok [OF this, of 4] flagAt_ok [OF this, of 5] that show thesis by blast
  qed
  show ?thesis
  proof (cases "e \<and> n + 4 \<le> length d")
    case False
    with f assms show ?thesis
      by (cases p) (auto simp: readExtensionHeader_def Let_def)
  next
    case True
    obtain i where i: "bigEndianUInt16At d n = Inr i"
      using bigEndianUInt16At_ok [of d n] True by (auto simp: is_ok_iff)
    obtain l where l: "bigEndianUInt16At d (n + 2) = Inr l"
      using bigEndianUInt16At_ok [of d "n + 2"] True by (auto simp: is_ok_iff)
    have "unat l < 0x10000" using unsigned_less [of l, where 'a = nat] by simp
    show ?thesis
    proof (cases "n + 4 + unat l \<le> length d")
      case False
      with True f i l show ?thesis by (simp add: readExtensionHeader_def Let_def)
    next
      case fits: True
      let ?e = "take (unat l) (drop (n + 4) d)"
      have "readExtensionHeader False p d n n = Inr (p\<lparr>rtp_hasExtensionHeader := True,
          rtp_extensionHeaderIdentifier := i, rtp_extensionHeaderData := Some ?e\<rparr>,
          n + 4 + unat l, n + 4 + unat l)"
        using True f i l fits by (simp add: readExtensionHeader_def Let_def subdataWithRange_def)
      moreover have "length ?e < 0x10000" using \<open>unat l < 0x10000\<close> by simp
      ultimately show ?thesis using fits
        by (intro disjI2 exI [of _ True] exI [of _ i] exI [of _ "Some ?e"] exI [of _ "n + 4 + unat l"]) simp
    qed
  qed
qed

lemma readPadding_safe:
  assumes "n \<le> length d" and "12 \<le> n" and "rtp_padding p = 0"
  shows "readPadding False p d n = Inl OperationFailed \<or>
    (\<exists>k. readPadding False p d n = Inr (p\<lparr>rtp_padding := k\<rparr>) \<and> n + unat k \<le> length d)"
proof -
  obtain x where f: "flagAt d 0 5 = Inr x" using flagAt_ok [of 0 d 5] assms by fastforce
  have "length d - 1 < length d" using assms by simp
  then have "uint8At d (nsu_sub (length d) 1) = Inr (d ! (length d - 1))"
    using assms by (simp add: uint8At_def)
  with f assms show ?thesis
    by (cases p) (auto simp: readPadding_def Let_def guards)
qed


text \<open>With the legacy option the twelve extra bytes are added to the offset but not to the
  minimum size: data of 16 to 27 bytes passes the length checks and then fails the argument
  check of a read past its end, and a short extension leaves through a range exception;
  neither is the declared operation error.\<close>

theorem rtp_parse_legacy_overrun:
  "rtpPacketParsedFromPacketData True (0xA0 # replicate 15 0) = Inl BadArgument \<and>
   rtpPacketParsedFromPacketData True (0xA0 # replicate 26 0 @ [12]) = Inl RangeException"
  by code_simp

end
