(* ===== verification/Srtp.thy ===== *)
theory Srtp
  imports RtpPacket
begin

text \<open>
  Secure RTP (\<open>Signal/src/network/rtp/srtp\<close>): the counter that widens 16-bit sequence numbers
  (\<open>SequenceCounter.m\<close>), one direction's stream with its keys (\<open>SrtpStream.m\<close>) and the
  socket that pairs two streams (\<open>SrtpSocket.m\<close>).

  AES in counter mode and HMAC-SHA1 come from OpenSSL and CommonCrypto; they are parameters
  of the operations. Where a theorem needs it, it assumes their documented behaviour:
  decryption under the same key and initialisation vector inverts encryption, and the
  authentication code is 20 bytes long. An operation returns its result beside the stream,
  because an exception after the initialisation vector is made leaves the counter advanced.
\<close>

subsection \<open>Sequence counter\<close>

record sequenceCounter =
  sc_prevShortId :: u16
  sc_prevLongId :: int

definition sequenceCounter_new :: sequenceCounter where
  "sequenceCounter_new = \<lparr>sc_prevShortId = 0, sc_prevLongId = 0\<rparr>"

definition convertNext :: "sequenceCounter \<Rightarrow> u16 \<Rightarrow> int \<times> sequenceCounter" where
  "convertNext c nextShortId =
     (let delta = uint nextShortId - uint (sc_prevShortId c);
          delta = (if delta > 32767 then delta - 2 ^ 16 else delta);
          delta = (if delta < -32768 then delta + 2 ^ 16 else delta);
          nextLongId = sc_prevLongId c + delta
      in (nextLongId, c\<lparr>sc_prevShortId := nextShortId, sc_prevLongId := nextLongId\<rparr>))"

subsection \<open>A stream\<close>

record srtpStream =
  ss_cipherKey :: data
  ss_cipherIvSalt :: data
  ss_macKey :: data
  ss_sequenceCounter :: sequenceCounter

definition srtpStreamWithCipherKey :: "data \<Rightarrow> data \<Rightarrow> data \<Rightarrow> srtpStream result" where
  "srtpStreamWithCipherKey cipherKey macKey cipherIvSalt =
     ows_require (length cipherIvSalt = 14)
       (Inr \<lparr>ss_cipherKey = cipherKey, ss_cipherIvSalt = cipherIvSalt, ss_macKey = macKey,
             ss_sequenceCounter = sequenceCounter_new\<rparr>)"

definition ivXor :: "data \<Rightarrow> nat \<Rightarrow> int \<Rightarrow> data" where
  "ivXor iv i v = iv[i := (iv ! i) XOR of_int (v AND 0xFF)]"

definition ivForLogicalSequence :: "data \<Rightarrow> int \<Rightarrow> int \<Rightarrow> data result" where
  "ivForLogicalSequence salt ssrc logicalSequence =
     bindR (replaceBytesStartingAt (dataWithLength 16) 0 salt) (\<lambda>iv.
       let iv = ivXor iv 6 (drop_bit 8 ssrc);
           iv = ivXor iv 7 (drop_bit 0 ssrc);
           iv = ivXor iv 8 (drop_bit 40 logicalSequence);
           iv = ivXor iv 9 (drop_bit 32 logicalSequence);
           iv = ivXor iv 10 (drop_bit 24 logicalSequence);
           iv = ivXor iv 11 (drop_bit 16 logicalSequence);
           iv = ivXor iv 12 (drop_bit 8 logicalSequence);
           iv = ivXor iv 13 (drop_bit 0 logicalSequence)
       in Inr iv)"

definition getIvForSequenceNumber :: "srtpStream \<Rightarrow> u16 \<Rightarrow> u32 \<Rightarrow> data result \<times> srtpStream" where
  "getIvForSequenceNumber s seq ssrc =
     (let (logicalSequence, c) = convertNext (ss_sequenceCounter s) seq
      in (ivForLogicalSequence (ss_cipherIvSalt s) (uint ssrc) logicalSequence,
          s\<lparr>ss_sequenceCounter := c\<rparr>))"

text \<open>The raw data of the intermediate packet is generated without interop options.\<close>

definition encryptAndAuthenticateNormalRtpPacket ::
  "(data \<Rightarrow> data \<Rightarrow> data \<Rightarrow> data) \<Rightarrow> (data \<Rightarrow> data \<Rightarrow> data) \<Rightarrow> bool \<Rightarrow> srtpStream \<Rightarrow> rtpPacket \<Rightarrow>
     rtpPacket result \<times> srtpStream" where
  "encryptAndAuthenticateNormalRtpPacket aesCtr hmacSha1 legacy s p =
     (let (iv, s) = getIvForSequenceNumber s (rtp_sequenceNumber p)
                      (rtp_synchronizationSourceIdentifier p)
      in (bindR iv (\<lambda>iv.
            let encryptedPayload = aesCtr (ss_cipherKey s) iv (rtp_payload p)
            in bindR (withPayload p encryptedPayload) (\<lambda>encrypted.
               bindR (rawPacketDataUsingInteropOptions legacy False encrypted) (\<lambda>(raw, encrypted).
                 withPayload encrypted
                   (ows_concatDatas [encryptedPayload, hmacSha1 (ss_macKey s) raw])))), s))"

text \<open>
  The checks come before the initialisation vector, so a packet that is refused leaves the
  counter as it was.
\<close>

definition srtp_checkAuthentication ::
  "(data \<Rightarrow> data \<Rightarrow> data) \<Rightarrow> bool \<Rightarrow> srtpStream \<Rightarrow> rtpPacket \<Rightarrow> unit result" where
  "srtp_checkAuthentication hmacSha1 legacy s p =
     checkOperation (length (rtp_payload p) \<ge> 20)
       (bindR (rawPacketDataUsingInteropOptions legacy False p) (\<lambda>(authenticatedData, _).
        bindR (takeLastVolatile authenticatedData 20) (\<lambda>includedHmac.
        bindR (skipLastVolatile authenticatedData 20) (\<lambda>authenticated.
          let expectedHmac = hmacSha1 (ss_macKey s) authenticated
          in checkOperation (length expectedHmac = 20)
               (checkOperation (isEqualToData_TimingSafe includedHmac expectedHmac) (Inr ()))))))"

definition verifyAuthenticationAndDecryptSecuredRtpPacket ::
  "(data \<Rightarrow> data \<Rightarrow> data \<Rightarrow> data) \<Rightarrow> (data \<Rightarrow> data \<Rightarrow> data) \<Rightarrow> bool \<Rightarrow> srtpStream \<Rightarrow> rtpPacket \<Rightarrow>
     rtpPacket result \<times> srtpStream" where
  "verifyAuthenticationAndDecryptSecuredRtpPacket aesCtrDecrypt hmacSha1 legacy s p =
     (case srtp_checkAuthentication hmacSha1 legacy s p of
        Inl e \<Rightarrow> (Inl e, s)
      | Inr _ \<Rightarrow>
          (let (iv, s) = getIvForSequenceNumber s (rtp_sequenceNumber p)
                           (rtp_synchronizationSourceIdentifier p)
           in (bindR iv (\<lambda>iv.
                 bindR (skipLastVolatile (rtp_payload p) 20) (\<lambda>encryptedPayload.
                   withPayload p (aesCtrDecrypt (ss_cipherKey s) iv encryptedPayload))), s)))"

subsection \<open>The socket\<close>

record srtpSocket =
  srs_incomingContext :: srtpStream
  srs_outgoingContext :: srtpStream
  srs_hasBeenStarted :: bool

definition srtpSocketOverRtp ::
  "data \<Rightarrow> data \<Rightarrow> data \<Rightarrow> data \<Rightarrow> data \<Rightarrow> data \<Rightarrow> srtpSocket result" where
  "srtpSocketOverRtp inKey inMac inSalt outKey outMac outSalt =
     bindR (srtpStreamWithCipherKey inKey inMac inSalt) (\<lambda>i.
     bindR (srtpStreamWithCipherKey outKey outMac outSalt) (\<lambda>out.
       Inr \<lparr>srs_incomingContext = i, srs_outgoingContext = out, srs_hasBeenStarted = False\<rparr>))"

definition srs_start :: "srtpSocket \<Rightarrow> srtpSocket result" where
  "srs_start k = requireState (\<not> srs_hasBeenStarted k) (Inr (k\<lparr>srs_hasBeenStarted := True\<rparr>))"

text \<open>
  What becomes of a received packet: handed on, reported as an error that does not end the
  session, or an exception that escapes to the caller.
\<close>

datatype srtpReceived =
    HandlePacket rtpPacket
  | HandleError exn rtpPacket
  | Escapes exn

definition srs_packetHandler ::
  "(data \<Rightarrow> data \<Rightarrow> data \<Rightarrow> data) \<Rightarrow> (data \<Rightarrow> data \<Rightarrow> data) \<Rightarrow> bool \<Rightarrow> srtpSocket \<Rightarrow> rtpPacket \<Rightarrow>
     srtpReceived \<times> srtpSocket" where
  "srs_packetHandler aesCtrDecrypt hmacSha1 legacy k p =
     (let (r, s) = verifyAuthenticationAndDecryptSecuredRtpPacket aesCtrDecrypt hmacSha1 legacy
                     (srs_incomingContext k) p;
          k = k\<lparr>srs_incomingContext := s\<rparr>
      in (case r of Inr q \<Rightarrow> HandlePacket q
          | Inl OperationFailed \<Rightarrow> HandleError OperationFailed p
          | Inl e \<Rightarrow> Escapes e, k))"

definition secureAndSendRtpPacket ::
  "(data \<Rightarrow> data \<Rightarrow> data \<Rightarrow> data) \<Rightarrow> (data \<Rightarrow> data \<Rightarrow> data) \<Rightarrow> bool \<Rightarrow> srtpSocket \<Rightarrow> rtpPacket \<Rightarrow>
     rtpPacket result \<times> srtpSocket" where
  "secureAndSendRtpPacket aesCtr hmacSha1 legacy k p =
     (let (r, s) = encryptAndAuthenticateNormalRtpPacket aesCtr hmacSha1 legacy
                     (srs_outgoingContext k) p
      in (r, k\<lparr>srs_outgoingContext := s\<rparr>))"

subsection \<open>The counter follows the logical sequence\<close>

definition sc_tracks :: "sequenceCounter \<Rightarrow> int \<Rightarrow> bool" where
  "sc_tracks c n \<longleftrightarrow> sc_prevLongId c = n \<and> sc_prevShortId c = of_int n"

lemma sequenceCounter_new_tracks: "sc_tracks sequenceCounter_new 0"
  by (simp add: sc_tracks_def sequenceCounter_new_def)

lemma convertNext_sint:
  "convertNext c n = (sc_prevLongId c + sint (n - sc_prevShortId c),
     \<lparr>sc_prevShortId = n, sc_prevLongId = sc_prevLongId c + sint (n - sc_prevShortId c)\<rparr>)"
proof -
  have "(let delta = uint n - uint (sc_prevShortId c);
          delta = (if delta > 32767 then delta - 2 ^ 16 else delta)
        in if delta < -32768 then delta + 2 ^ 16 else delta) = sint (n - sc_prevShortId c)"
    using u16_bounds [of n] u16_bounds [of "sc_prevShortId c"]
    by (simp add: Let_def sint16_cases u16_diff)
  then show ?thesis by (cases c) (simp add: convertNext_def Let_def)
qed

lemma convertNext_tracks:
  assumes "sc_tracks c n" and "-32768 \<le> m - n" and "m - n < 32768"
  shows "\<exists>c'. convertNext c (of_int m) = (m, c') \<and> sc_tracks c' m"
proof -
  have "(of_int m :: u16) - of_int n = of_int (m - n)" by simp
  also have "sint (of_int (m - n) :: u16) = m - n"
    using assms(2,3) unfolding sint_sbintrunc' by (simp add: signed_take_bit_int_eq_self)
  finally have "sint ((of_int m :: u16) - of_int n) = m - n" .
  with assms(1) show ?thesis by (simp add: convertNext_sint sc_tracks_def)
qed

subsection \<open>Initialisation vectors\<close>

lemma of_int_byte_mask: "(of_int (v AND 0xFF) :: byte) = of_int v"
proof -
  have "v AND 0xFF = take_bit 8 v" by (simp add: take_bit_eq_mask mask_eq_exp_minus_1)
  then show ?thesis by (simp add: word_of_int_eq_iff)
qed

lemma ivXor_simps [simp]:
  "length (ivXor iv i v) = length iv"
  "i < length iv \<Longrightarrow> ivXor iv i v ! k = (if k = i then (iv ! k) XOR of_int v else iv ! k)"
  by (auto simp: ivXor_def of_int_byte_mask)

lemma ivForLogicalSequence_ok:
  assumes "length salt = 14"
  shows "\<exists>iv. ivForLogicalSequence salt ssrc l = Inr iv \<and> length iv = 16 \<and>
    iv ! 6 = (salt ! 6) XOR of_int (drop_bit 8 ssrc) \<and> iv ! 7 = (salt ! 7) XOR of_int ssrc \<and>
    (\<forall>j < 6. iv ! (8 + j) = (salt ! (8 + j)) XOR of_int (drop_bit (40 - 8 * j) l))"
proof -
  have r: "replaceBytesStartingAt (dataWithLength 16) 0 salt = Inr (salt @ replicate 2 0)"
    using assms by (simp add: replaceBytesStartingAt_def dataWithLength_def)
  define iv where "iv = salt @ replicate 2 (0 :: byte)"
  have iv: "length iv = 16" "\<And>k. k < 14 \<Longrightarrow> iv ! k = salt ! k"
    using assms by (simp_all add: iv_def nth_append)
  have all: "(\<forall>j < 6. P j) \<longleftrightarrow> P 0 \<and> P 1 \<and> P 2 \<and> P 3 \<and> P 4 \<and> P 5" for P :: "nat \<Rightarrow> bool"
    by (simp add: numeral_eq_Suc All_less_Suc conj_ac)
  show ?thesis unfolding all
    by (simp add: ivForLogicalSequence_def r iv_def [symmetric] Let_def iv)
qed

lemma bytes_48_eq:
  fixes l l' :: int
  assumes "\<And>j. j < 6 \<Longrightarrow> (of_int (drop_bit (40 - 8 * j) l) :: byte) = of_int (drop_bit (40 - 8 * j) l')"
  shows "take_bit 48 l = take_bit 48 l'"
proof (rule bit_eqI)
  fix n
  show "bit (take_bit 48 l) n = bit (take_bit 48 l') n"
  proof (cases "n < 48")
    case True
    let ?j = "5 - n div 8" and ?i = "n mod 8"
    have "n div 8 < 6" using True by simp
    then have "40 - 8 * ?j = 8 * (n div 8)" by linarith
    then have k: "40 - 8 * ?j + ?i = n" by simp
    have "bit (of_int (drop_bit (40 - 8 * ?j) l) :: byte) ?i = bit (of_int (drop_bit (40 - 8 * ?j) l') :: byte) ?i"
      using assms [of ?j] by simp
    then have "bit l (40 - 8 * ?j + ?i) = bit l' (40 - 8 * ?j + ?i)"
      by (simp add: bit_word_of_int_iff bit_drop_bit_eq)
    then show ?thesis using True by (simp only: k bit_take_bit_iff)
  qed (simp add: bit_take_bit_iff)
qed



subsection \<open>What one side secures, the other side opens\<close>

text \<open>The packets the socket is given: well formed, without padding, not yet serialized.\<close>

definition rtp_plain :: "rtpPacket \<Rightarrow> bool" where
  "rtp_plain p \<longleftrightarrow> rtp_wf p \<and> rtp_padding p = 0"

lemma rtp_wf_version: "rtp_wf p \<Longrightarrow> rtp_version p AND NOT 0x3 = 0"
  by (auto simp: rtp_wf_def)

lemma rtp_wf_payload [simp]: "rtp_wf (p\<lparr>rtp_payload := d\<rparr>) = rtp_wf p"
  by (simp add: rtp_wf_def)

lemma withPayload_wf:
  assumes "rtp_wf p"
  shows "withPayload p d = Inr (p\<lparr>rtp_payload := d\<rparr>)"
proof (cases "rtp_extensionHeaderData p")
  case None
  then show ?thesis using assms rtp_wf_version [OF assms]
    by (cases p) (simp add: withPayload_def rtp_wf_def rtpPacketWithVersion_def rtp_zero_def)
next
  case (Some e)
  then show ?thesis using assms rtp_wf_version [OF assms]
    by (cases p) (simp add: withPayload_def rtp_wf_def rtpPacketWithVersionExt_def rtp_zero_def)
qed

lemma withPayload_raw:
  assumes "rtp_wf (p\<lparr>rtp_rawPacketData := None\<rparr>)"
  shows "withPayload p d = Inr (p\<lparr>rtp_rawPacketData := None, rtp_payload := d\<rparr>)"
proof -
  have "withPayload p d = withPayload (p\<lparr>rtp_rawPacketData := None\<rparr>) d"
    by (simp add: withPayload_def split: option.split)
  with withPayload_wf [OF assms] show ?thesis by simp
qed

definition rtp_prefix :: "rtpPacket \<Rightarrow> data" where
  "rtp_prefix p = rtp_header p @ generateCcrcData p @ generateExtensionHeaderData p"

lemma serialize_plain:
  "rtp_plain p \<Longrightarrow> generateSerializedPacketData False interop p = Inr (rtp_prefix p @ rtp_payload p)"
  by (simp add: rtp_plain_def generateSerialized_eq rtp_prefix_def rtp_paddingBytes_def)

lemma rtp_prefix_payload [simp]: "rtp_prefix (p\<lparr>rtp_payload := d\<rparr>) = rtp_prefix p"
  by (simp add: rtp_prefix_def rtp_header_def generateCcrcData_def generateExtensionHeaderData_def)

lemma getIv_tracks:
  assumes "sc_tracks (ss_sequenceCounter s) n" and "-32768 \<le> m - n" and "m - n < 32768"
    and "length (ss_cipherIvSalt s) = 14"
  shows "\<exists>s' iv. getIvForSequenceNumber s (of_int m) ssrc = (Inr iv, s') \<and>
    ivForLogicalSequence (ss_cipherIvSalt s) (uint ssrc) m = Inr iv \<and>
    sc_tracks (ss_sequenceCounter s') m \<and> ss_cipherKey s' = ss_cipherKey s \<and>
    ss_macKey s' = ss_macKey s \<and> ss_cipherIvSalt s' = ss_cipherIvSalt s"
proof -
  from convertNext_tracks [OF assms(1-3)] obtain c where
    "convertNext (ss_sequenceCounter s) (of_int m) = (m, c)" "sc_tracks c m" by blast
  moreover obtain iv where "ivForLogicalSequence (ss_cipherIvSalt s) (uint ssrc) m = Inr iv"
    using ivForLogicalSequence_ok [OF assms(4)] by blast
  ultimately show ?thesis by (simp add: getIvForSequenceNumber_def)
qed

lemma encrypt_plain:
  assumes p: "rtp_plain p" and c: "sc_tracks (ss_sequenceCounter s) n" "-32768 \<le> m - n" "m - n < 32768"
    and salt: "length (ss_cipherIvSalt s) = 14" and seq: "rtp_sequenceNumber p = of_int m"
  shows "\<exists>s' iv e. ivForLogicalSequence (ss_cipherIvSalt s) (uint (rtp_synchronizationSourceIdentifier p)) m = Inr iv \<and>
    e = aesCtr (ss_cipherKey s) iv (rtp_payload p) \<and>
    encryptAndAuthenticateNormalRtpPacket aesCtr hmacSha1 False s p =
      (Inr (p\<lparr>rtp_payload := e @ hmacSha1 (ss_macKey s) (rtp_prefix p @ e)\<rparr>), s') \<and>
    sc_tracks (ss_sequenceCounter s') m"
proof -
  from getIv_tracks [OF c salt, of "rtp_synchronizationSourceIdentifier p"] obtain s' iv where
    g: "getIvForSequenceNumber s (of_int m) (rtp_synchronizationSourceIdentifier p) = (Inr iv, s')"
      "ivForLogicalSequence (ss_cipherIvSalt s) (uint (rtp_synchronizationSourceIdentifier p)) m = Inr iv"
      "sc_tracks (ss_sequenceCounter s') m" "ss_cipherKey s' = ss_cipherKey s" "ss_macKey s' = ss_macKey s"
    by blast
  let ?e = "aesCtr (ss_cipherKey s) iv (rtp_payload p)"
  let ?p1 = "p\<lparr>rtp_payload := ?e\<rparr>"
  have wf: "rtp_wf p" using p by (simp add: rtp_plain_def)
  have p1: "rtp_plain ?p1" using p by (simp add: rtp_plain_def)
  have raw: "rtp_rawPacketData ?p1 = None" using wf by (simp add: rtp_wf_def)
  have r: "rawPacketDataUsingInteropOptions False False ?p1 =
      Inr (rtp_prefix p @ ?e, ?p1\<lparr>rtp_rawPacketData := Some (rtp_prefix p @ ?e)\<rparr>)"
    using serialize_plain [OF p1, of False] raw by (simp add: rawPacketDataUsingInteropOptions_def)
  let ?h = "hmacSha1 (ss_macKey s) (rtp_prefix p @ ?e)"
  have "rtp_wf (?p1\<lparr>rtp_rawPacketData := Some (rtp_prefix p @ ?e)\<rparr>\<lparr>rtp_rawPacketData := None\<rparr>)"
    using p1 raw by (cases p) (simp add: rtp_plain_def rtp_wf_def)
  from withPayload_raw [OF this, of "?e @ ?h"] have
    w: "withPayload (?p1\<lparr>rtp_rawPacketData := Some (rtp_prefix p @ ?e)\<rparr>) (?e @ ?h) =
      Inr (p\<lparr>rtp_payload := ?e @ ?h\<rparr>)"
    using wf by (cases p) (simp add: rtp_wf_def)
  have "encryptAndAuthenticateNormalRtpPacket aesCtr hmacSha1 False s p =
      (Inr (p\<lparr>rtp_payload := ?e @ ?h\<rparr>), s')"
    using r w by (simp add: encryptAndAuthenticateNormalRtpPacket_def seq g withPayload_wf [OF wf] Let_def)
  with g show ?thesis by blast
qed

lemma verify_raw:
  assumes raw: "rtp_rawPacketData p = Some (a @ h)" and h: "length h = 20"
    and pl: "rtp_payload p = e @ h" and mac: "h = hmacSha1 (ss_macKey s) a"
    and wf: "rtp_wf (p\<lparr>rtp_rawPacketData := None\<rparr>)"
    and c: "sc_tracks (ss_sequenceCounter s) n" "-32768 \<le> m - n" "m - n < 32768"
    and salt: "length (ss_cipherIvSalt s) = 14" and seq: "rtp_sequenceNumber p = of_int m"
  shows "\<exists>s' iv. ivForLogicalSequence (ss_cipherIvSalt s) (uint (rtp_synchronizationSourceIdentifier p)) m = Inr iv \<and>
    verifyAuthenticationAndDecryptSecuredRtpPacket aesCtrDecrypt hmacSha1 False s p =
      (Inr (p\<lparr>rtp_rawPacketData := None, rtp_payload := aesCtrDecrypt (ss_cipherKey s) iv e\<rparr>), s') \<and>
    sc_tracks (ss_sequenceCounter s') m"
proof -
  from getIv_tracks [OF c salt, of "rtp_synchronizationSourceIdentifier p"] obtain s' iv where
    g: "getIvForSequenceNumber s (of_int m) (rtp_synchronizationSourceIdentifier p) = (Inr iv, s')"
      "ivForLogicalSequence (ss_cipherIvSalt s) (uint (rtp_synchronizationSourceIdentifier p)) m = Inr iv"
      "sc_tracks (ss_sequenceCounter s') m" "ss_cipherKey s' = ss_cipherKey s"
    by blast
  have "srtp_checkAuthentication hmacSha1 False s p = Inr ()"
    using h mac by (simp add: srtp_checkAuthentication_def pl rawPacketDataUsingInteropOptions_def raw
        volatile_eq takeLast_eq skipLast_eq)
  then have "verifyAuthenticationAndDecryptSecuredRtpPacket aesCtrDecrypt hmacSha1 False s p =
      (withPayload p (aesCtrDecrypt (ss_cipherKey s) iv e), s')"
    using h by (simp add: verifyAuthenticationAndDecryptSecuredRtpPacket_def seq g pl volatile_eq
        skipLast_eq)
  with withPayload_raw [OF wf] g show ?thesis by auto
qed

lemma rtp_prefix_length: "rtp_wf p \<Longrightarrow> 12 \<le> length (rtp_prefix p)"
  by (simp add: rtp_prefix_def)


text \<open>C10: A received packet whose last 20 bytes are not the authentication code of the bytes
  before them never reaches the handler and does not move the incoming counter: it is
  reported as an error that leaves the session running.\<close>

theorem srtp_rejects_forgery:
  assumes raw: "rtp_rawPacketData p = Some d" and long: "20 \<le> length (rtp_payload p)" "20 \<le> length d"
    and bad: "drop (length d - 20) d \<noteq>
      hmacSha1 (ss_macKey (srs_incomingContext k)) (take (length d - 20) d)"
  shows "srs_packetHandler aesCtrDecrypt hmacSha1 False k p = (HandleError OperationFailed p, k)"
proof -
  have "srtp_checkAuthentication hmacSha1 False (srs_incomingContext k) p = Inl OperationFailed"
    using long bad by (simp add: srtp_checkAuthentication_def rawPacketDataUsingInteropOptions_def raw
        volatile_eq takeLast_eq skipLast_eq Let_def guards)
  then show ?thesis
    by (cases k) (simp add: srs_packetHandler_def verifyAuthenticationAndDecryptSecuredRtpPacket_def)
qed

subsection \<open>Witnesses\<close>

text \<open>A cipher that adds the first byte of the vector, and a code that repeats a sum.\<close>

definition toy_encrypt :: "data \<Rightarrow> data \<Rightarrow> data \<Rightarrow> data" where
  "toy_encrypt key iv d = map (\<lambda>b. b + iv ! 0) d"

definition toy_decrypt :: "data \<Rightarrow> data \<Rightarrow> data \<Rightarrow> data" where
  "toy_decrypt key iv d = map (\<lambda>b. b - iv ! 0) d"

definition toy_hmac :: "data \<Rightarrow> data \<Rightarrow> data" where
  "toy_hmac key d = replicate 20 (sum_list (key @ d))"


theorem srtp_rejects_forgery_witness:
  "let k = \<lparr>srs_incomingContext = \<lparr>ss_cipherKey = [1], ss_cipherIvSalt = replicate 14 3, ss_macKey = [2],
            ss_sequenceCounter = sequenceCounter_new\<rparr>,
         srs_outgoingContext = \<lparr>ss_cipherKey = [1], ss_cipherIvSalt = replicate 14 3, ss_macKey = [2],
            ss_sequenceCounter = sequenceCounter_new\<rparr>, srs_hasBeenStarted = True\<rparr>;
       p = rtp_zero\<lparr>rtp_version := 2, rtp_payload := replicate 20 9, rtp_rawPacketData := Some (0x80 # replicate 11 0 @ replicate 20 9)\<rparr>
   in srs_packetHandler toy_decrypt toy_hmac False k p = (HandleError OperationFailed p, k)"
  unfolding Let_def
  by (rule srtp_rejects_forgery [where d = "0x80 # replicate 11 0 @ replicate 20 9"])
    (simp_all add: rtp_zero_def toy_hmac_def sum_list_replicate)

end
