(* ===== verification/HandshakePacket.thy ===== *)
theory HandshakePacket
  imports RtpPacket Crc32
begin

text \<open>
  The envelope of the ZRTP handshake
  (\<open>Signal/src/network/rtp/zrtp/packets/HandshakePacket.m\<close>): a type identifier and a payload
  carried in the extension header of an RTP packet of version 0, closed by a checksum, and
  the truncated authentication code that the later packets of the handshake append to the
  payload. HMAC-SHA256 is the parameter \<open>hmacSha256\<close> of the operations that use it.
\<close>

subsection \<open>State and constants\<close>

record handshakePacket =
  hp_typeId :: data
  hp_payload :: data

definition HANDSHAKE_PACKET_EXTENSION_IDENTIFIER :: u16 where
  "HANDSHAKE_PACKET_EXTENSION_IDENTIFIER = 0x505A"

definition HANDSHAKE_PACKET_TIMESTAMP_COOKIE :: u32 where
  "HANDSHAKE_PACKET_TIMESTAMP_COOKIE = 0x5A525450"

text \<open>The two constants are the ASCII texts PZ and ZRTP read as big-endian integers.\<close>

lemma handshake_constants:
  "bindR (encodedAsAscii ''PZ'') (\<lambda>d. bigEndianUInt16At d 0) = Inr HANDSHAKE_PACKET_EXTENSION_IDENTIFIER"
  "bindR (encodedAsAscii ''ZRTP'') (\<lambda>d. bigEndianUInt32At d 0) = Inr HANDSHAKE_PACKET_TIMESTAMP_COOKIE"
  by code_simp+

definition handshakeType :: "string \<Rightarrow> data" where
  "handshakeType s = map of_char s"

definition HANDSHAKE_TYPE_HELLO :: data where "HANDSHAKE_TYPE_HELLO = handshakeType ''Hello   ''"
definition HANDSHAKE_TYPE_HELLO_ACK :: data where "HANDSHAKE_TYPE_HELLO_ACK = handshakeType ''HelloAck''"
definition HANDSHAKE_TYPE_COMMIT :: data where "HANDSHAKE_TYPE_COMMIT = handshakeType ''Commit  ''"
definition HANDSHAKE_TYPE_DH_1 :: data where "HANDSHAKE_TYPE_DH_1 = handshakeType ''DHPart1 ''"
definition HANDSHAKE_TYPE_DH_2 :: data where "HANDSHAKE_TYPE_DH_2 = handshakeType ''DHPart2 ''"
definition HANDSHAKE_TYPE_CONFIRM_1 :: data where "HANDSHAKE_TYPE_CONFIRM_1 = handshakeType ''Confirm1''"
definition HANDSHAKE_TYPE_CONFIRM_2 :: data where "HANDSHAKE_TYPE_CONFIRM_2 = handshakeType ''Confirm2''"
definition HANDSHAKE_TYPE_CONFIRM_ACK :: data where "HANDSHAKE_TYPE_CONFIRM_ACK = handshakeType ''Conf2Ack''"

lemmas handshake_types = HANDSHAKE_TYPE_HELLO_def HANDSHAKE_TYPE_HELLO_ACK_def
  HANDSHAKE_TYPE_COMMIT_def HANDSHAKE_TYPE_DH_1_def HANDSHAKE_TYPE_DH_2_def
  HANDSHAKE_TYPE_CONFIRM_1_def HANDSHAKE_TYPE_CONFIRM_2_def HANDSHAKE_TYPE_CONFIRM_ACK_def

lemma length_handshake_types [simp]:
  "length HANDSHAKE_TYPE_HELLO = 8" "length HANDSHAKE_TYPE_HELLO_ACK = 8"
  "length HANDSHAKE_TYPE_COMMIT = 8" "length HANDSHAKE_TYPE_DH_1 = 8" "length HANDSHAKE_TYPE_DH_2 = 8"
  "length HANDSHAKE_TYPE_CONFIRM_1 = 8" "length HANDSHAKE_TYPE_CONFIRM_2 = 8"
  "length HANDSHAKE_TYPE_CONFIRM_ACK = 8"
  by (simp_all add: handshake_types handshakeType_def)

definition handshakePacketWithTypeId :: "data \<Rightarrow> data \<Rightarrow> handshakePacket result" where
  "handshakePacketWithTypeId typeId payload =
     ows_require (length typeId = 8) (Inr \<lparr>hp_typeId = typeId, hp_payload = payload\<rparr>)"

subsection \<open>Parsing from an RTP packet\<close>

text \<open>A message to a nil extension returns zero; the length check refuses it first.\<close>

definition hp_extensionData :: "rtpPacket \<Rightarrow> data result" where
  "hp_extensionData p =
     bindR (rtp_getExtensionHeaderData p) (\<lambda>e. Inr (case e of None \<Rightarrow> [] | Some d \<Rightarrow> d))"

definition getHandshakeTypeIdFromRtp :: "rtpPacket \<Rightarrow> data result" where
  "getHandshakeTypeIdFromRtp p = bindR (hp_extensionData p) (\<lambda>d. take_data d 8)"

definition getHandshakePayloadFromRtp :: "rtpPacket \<Rightarrow> data result" where
  "getHandshakePayloadFromRtp p =
     bindR (hp_extensionData p) (\<lambda>d. bindR (skip_data d 8) (\<lambda>d. skipLast d 4))"

definition getIncludedHandshakeCrcFromRtp :: "rtpPacket \<Rightarrow> u32 result" where
  "getIncludedHandshakeCrcFromRtp p =
     bindR (hp_extensionData p) (\<lambda>d. bindR (takeLast d 4) (\<lambda>d. bigEndianUInt32At d 0))"

definition handshakePacketParsedFromRtpPacket :: "bool \<Rightarrow> rtpPacket \<Rightarrow> handshakePacket result" where
  "handshakePacketParsedFromRtpPacket legacy p =
     checkOperation (rtp_timeStamp p = HANDSHAKE_PACKET_TIMESTAMP_COOKIE)
     (checkOperation (rtp_version p = 0)
     (checkOperation (rtp_hasExtensionHeader p)
     (bindR (rtp_getExtensionHeaderIdentifier p) (\<lambda>ident.
      checkOperation (ident = HANDSHAKE_PACKET_EXTENSION_IDENTIFIER)
     (bindR (hp_extensionData p) (\<lambda>ext.
      checkOperation (length ext \<ge> 12)
     (bindR (getHandshakeTypeIdFromRtp p) (\<lambda>handshakeTypeId.
      bindR (getHandshakePayloadFromRtp p) (\<lambda>handshakePayload.
      bindR (getIncludedHandshakeCrcFromRtp p) (\<lambda>includedCrc.
      bindR (rawPacketDataUsingInteropOptions legacy False p) (\<lambda>(raw, _).
      bindR (skipLastVolatile raw 4) (\<lambda>d.
        checkOperation (includedCrc = crc32 d)
          (Inr \<lparr>hp_typeId = handshakeTypeId, hp_payload = handshakePayload\<rparr>))))))))))))) "

subsection \<open>Authentication code\<close>

definition rtpExtensionHeaderAndPayloadExceptCrc :: "handshakePacket \<Rightarrow> data" where
  "rtpExtensionHeaderAndPayloadExceptCrc h =
     ows_concatDatas [dataWithBigEndianBytesOfUInt16 HANDSHAKE_PACKET_EXTENSION_IDENTIFIER,
       dataWithBigEndianBytesOfUInt16 (of_nat (length (hp_payload h) + 12)),
       hp_typeId h, hp_payload h]"

definition dataUsedForAuthentication :: "handshakePacket \<Rightarrow> data" where
  "dataUsedForAuthentication h = rtpExtensionHeaderAndPayloadExceptCrc h"

definition rtpExtensionPayloadExceptCrc :: "handshakePacket \<Rightarrow> data" where
  "rtpExtensionPayloadExceptCrc h = ows_concatDatas [hp_typeId h, hp_payload h]"

definition rtpExtensionPayloadUsedForHmacBeforeHmacAppended :: "handshakePacket \<Rightarrow> data" where
  "rtpExtensionPayloadUsedForHmacBeforeHmacAppended h =
     ows_concatDatas [dataWithBigEndianBytesOfUInt16 HANDSHAKE_PACKET_EXTENSION_IDENTIFIER,
       dataWithBigEndianBytesOfUInt16 (of_nat (length (hp_payload h) + 20)),
       hp_typeId h, hp_payload h]"

definition withHmacAppended :: "(data \<Rightarrow> data \<Rightarrow> data) \<Rightarrow> handshakePacket \<Rightarrow> data \<Rightarrow> handshakePacket result" where
  "withHmacAppended hmacSha256 h macKey =
     bindR (take_data (hmacSha256 macKey (rtpExtensionPayloadUsedForHmacBeforeHmacAppended h)) 8)
       (\<lambda>digest. handshakePacketWithTypeId (hp_typeId h) (ows_concatDatas [hp_payload h, digest]))"

definition withHmacVerifiedAndRemoved ::
  "(data \<Rightarrow> data \<Rightarrow> data) \<Rightarrow> handshakePacket \<Rightarrow> data \<Rightarrow> handshakePacket result" where
  "withHmacVerifiedAndRemoved hmacSha256 h macKey =
     (let authenticatedData = rtpExtensionHeaderAndPayloadExceptCrc h
      in bindR (skipLastVolatile authenticatedData 8) (\<lambda>d.
         bindR (take_data (hmacSha256 macKey d) 8) (\<lambda>expectedHmac.
         bindR (takeLastVolatile authenticatedData 8) (\<lambda>includedHmac.
         checkOperation (isEqualToData_TimingSafe expectedHmac includedHmac)
           (bindR (skipLast (hp_payload h) 8) (\<lambda>payload.
              handshakePacketWithTypeId (hp_typeId h) payload))))))"

subsection \<open>Embedding into an RTP packet\<close>

definition hp_rtpWithExtension :: "u16 \<Rightarrow> data \<Rightarrow> rtpPacket result" where
  "hp_rtpWithExtension seq ext =
     rtpPacketWithVersionExt 0 0 [] 0 HANDSHAKE_PACKET_EXTENSION_IDENTIFIER ext False 0 seq
       HANDSHAKE_PACKET_TIMESTAMP_COOKIE []"

definition embeddedIntoRtpPacket :: "bool \<Rightarrow> bool \<Rightarrow> handshakePacket \<Rightarrow> u16 \<Rightarrow> rtpPacket result" where
  "embeddedIntoRtpPacket legacy interop h seq =
     requireState (length (hp_typeId h) = 8)
       (let payloadExceptCrc = rtpExtensionPayloadExceptCrc h
        in bindR (hp_rtpWithExtension seq
                   (ows_concatDatas [payloadExceptCrc, dataWithBigEndianBytesOfUInt32 0]))
             (\<lambda>packetWithZeroCrc.
           bindR (rawPacketDataUsingInteropOptions legacy interop packetWithZeroCrc) (\<lambda>(raw, _).
           bindR (skipLastVolatile raw 4) (\<lambda>d.
             hp_rtpWithExtension seq
               (ows_concatDatas [payloadExceptCrc, dataWithBigEndianBytesOfUInt32 (crc32 d)])))))"

subsection \<open>The wire form\<close>

definition hp_packet :: "u16 \<Rightarrow> data \<Rightarrow> rtpPacket" where
  "hp_packet seq ext = rtp_zero\<lparr>rtp_hasExtensionHeader := True,
     rtp_extensionHeaderIdentifier := HANDSHAKE_PACKET_EXTENSION_IDENTIFIER,
     rtp_extensionHeaderData := Some ext, rtp_timeStamp := HANDSHAKE_PACKET_TIMESTAMP_COOKIE,
     rtp_sequenceNumber := seq\<rparr>"

text \<open>The sixteen bytes before the extension data: they depend on its length only.\<close>

definition hp_front :: "u16 \<Rightarrow> nat \<Rightarrow> data" where
  "hp_front seq n =
     rtp_header (hp_packet seq []) @ dataWithBigEndianBytesOfUInt16 HANDSHAKE_PACKET_EXTENSION_IDENTIFIER
       @ dataWithBigEndianBytesOfUInt16 (of_nat n)"

lemma length_hp_front [simp]: "length (hp_front seq n) = 16"
  by (simp add: hp_front_def)

lemma hp_rtpWithExtension_eq:
  "length ext < 0x10000 \<Longrightarrow> hp_rtpWithExtension seq ext = Inr (hp_packet seq ext)"
  by (simp add: hp_rtpWithExtension_def rtpPacketWithVersionExt_def hp_packet_def rtp_zero_def)

lemma hp_packet_wf: "length ext < 0x10000 \<Longrightarrow> rtp_wf (hp_packet seq ext)"
  by (simp add: rtp_wf_def hp_packet_def rtp_zero_def)

lemma hp_packet_serialize:
  assumes "length ext < 0x10000"
  shows "generateSerializedPacketData False interop (hp_packet seq ext) =
    Inr (hp_front seq (length ext) @ ext)"
proof -
  have "rtp_header (hp_packet seq ext) = rtp_header (hp_packet seq [])"
    by (simp add: rtp_header_def hp_packet_def)
  then show ?thesis
    using generateSerialized_eq [OF hp_packet_wf [OF assms], of interop seq]
    by (simp add: hp_front_def generateCcrcData_def generateExtensionHeaderData_def
        rtp_paddingBytes_def hp_packet_def rtp_zero_def)
qed

lemma hp_packet_parse:
  assumes "length ext < 0x10000"
  shows "rtpPacketParsedFromPacketData False (hp_front seq (length ext) @ ext) =
    Inr ((hp_packet seq ext)\<lparr>rtp_rawPacketData := Some (hp_front seq (length ext) @ ext)\<rparr>)"
  using rtp_parse_serialize [OF hp_packet_wf [OF assms], of False seq] hp_packet_serialize [OF assms]
  by auto

lemma hp_packet_raw:
  assumes "length ext < 0x10000"
  shows "rawPacketDataUsingInteropOptions False interop (hp_packet seq ext) =
     Inr (hp_front seq (length ext) @ ext,
       (hp_packet seq ext)\<lparr>rtp_rawPacketData := Some (hp_front seq (length ext) @ ext)\<rparr>)"
proof -
  have "rtp_rawPacketData (hp_packet seq ext) = None" by (simp add: hp_packet_def rtp_zero_def)
  then show ?thesis
    using hp_packet_serialize [OF assms] by (simp add: rawPacketDataUsingInteropOptions_def)
qed

definition hp_body :: "handshakePacket \<Rightarrow> data" where
  "hp_body h = hp_typeId h @ hp_payload h"

definition hp_wire :: "handshakePacket \<Rightarrow> u16 \<Rightarrow> data" where
  "hp_wire h seq =
     (let f = hp_front seq (length (hp_body h) + 4)
      in f @ hp_body h @ dataWithBigEndianBytesOfUInt32 (crc32 (f @ hp_body h)))"

definition hp_fits :: "handshakePacket \<Rightarrow> bool" where
  "hp_fits h \<longleftrightarrow> length (hp_typeId h) = 8 \<and> length (hp_payload h) + 12 < 0x10000"

lemma embedded_wire:
  assumes "hp_fits h"
  shows "\<exists>p. embeddedIntoRtpPacket False interop h seq = Inr p \<and>
    generateSerializedPacketData False interop p = Inr (hp_wire h seq)"
proof -
  let ?b = "hp_body h" and ?f = "hp_front seq (length (hp_body h) + 4)"
  have len: "length ?b = length (hp_payload h) + 8" using assms by (simp add: hp_fits_def hp_body_def)
  let ?z = "dataWithBigEndianBytesOfUInt32 0"
  let ?c = "dataWithBigEndianBytesOfUInt32 (crc32 (?f @ ?b))"
  have fits: "length (?b @ ?z) < 0x10000" "length (?b @ ?c) < 0x10000"
    using assms len by (simp_all add: hp_fits_def)
  have "rawPacketDataUsingInteropOptions False interop (hp_packet seq (?b @ ?z)) =
      Inr (?f @ ?b @ ?z, (hp_packet seq (?b @ ?z))\<lparr>rtp_rawPacketData := Some (?f @ ?b @ ?z)\<rparr>)"
    using hp_packet_raw [OF fits(1)] by simp
  then have "embeddedIntoRtpPacket False interop h seq = Inr (hp_packet seq (?b @ ?c))"
    using assms hp_rtpWithExtension_eq [OF fits(1)] hp_rtpWithExtension_eq [OF fits(2)]
    by (simp add: embeddedIntoRtpPacket_def hp_fits_def rtpExtensionPayloadExceptCrc_def Let_def
        hp_body_def volatile_eq skipLast_eq)
  moreover have "generateSerializedPacketData False interop (hp_packet seq (?b @ ?c)) = Inr (hp_wire h seq)"
    using hp_packet_serialize [OF fits(2)] by (simp add: hp_wire_def Let_def)
  ultimately show ?thesis by blast
qed

text \<open>Parsing the wire form back, whatever the extension data.\<close>

lemma handshakeParsed_eq:
  assumes "length body + 4 < 0x10000" and "8 \<le> length body" and "length c = 4"
  shows "bindR (rtpPacketParsedFromPacketData False (hp_front seq (length body + 4) @ body @ c))
      (handshakePacketParsedFromRtpPacket False) =
    (if bigEndianUInt32At c 0 = Inr (crc32 (hp_front seq (length body + 4) @ body))
     then Inr \<lparr>hp_typeId = take 8 body, hp_payload = drop 8 body\<rparr> else Inl OperationFailed)"
proof -
  let ?ext = "body @ c" and ?d = "hp_front seq (length body + 4) @ body @ c"
  have len: "length ?ext < 0x10000" using assms by simp
  obtain k where k: "bigEndianUInt32At c 0 = Inr k"
    using bigEndianUInt32At_ok [of c 0] assms(3) by (auto simp: is_ok_iff)
  have "rtpPacketParsedFromPacketData False ?d = Inr ((hp_packet seq ?ext)\<lparr>rtp_rawPacketData := Some ?d\<rparr>)"
    using hp_packet_parse [OF len, of seq] assms(3) by simp
  then show ?thesis
    using assms k
    by (simp add: handshakePacketParsedFromRtpPacket_def rtp_getExtensionHeaderIdentifier_def
        rtp_getExtensionHeaderData_def hp_extensionData_def getHandshakeTypeIdFromRtp_def
        getHandshakePayloadFromRtp_def getIncludedHandshakeCrcFromRtp_def hp_packet_def rtp_zero_def
        rawPacketDataUsingInteropOptions_def volatile_eq subdata_simps guards)
qed

lemma bigEndianUInt32At_self: "bigEndianUInt32At (dataWithBigEndianBytesOfUInt32 v) 0 = Inr v"
  using bigEndianUInt32At_append [of 0 "[]" v "[]"] by simp

lemma bigEndianUInt32At_split:
  "bigEndianUInt32At [a, b, c, d] 0 = Inr w \<Longrightarrow> dataWithBigEndianBytesOfUInt32 w = [a, b, c, d]"
  unfolding dataWithBigEndianBytesOfUInt32_def byte_take_bit
  by (auto simp: bigEndianUInt32At_def uint8At_def guards bit_simps impossible_bit intro!: word_eq_bitI)

lemma bigEndianUInt32At_4_inj:
  assumes "length c = 4" and "length c' = 4" and "bigEndianUInt32At c 0 = bigEndianUInt32At c' 0"
  shows "c = c'"
proof -
  have "\<exists>w. bigEndianUInt32At xs 0 = Inr w \<and> dataWithBigEndianBytesOfUInt32 w = xs"
    if "length xs = 4" for xs
  proof -
    have "is_ok (bigEndianUInt32At xs 0)" using that by (simp add: bigEndianUInt32At_ok)
    then obtain w where "bigEndianUInt32At xs 0 = Inr w" unfolding is_ok_iff by blast
    with that show ?thesis
      using bigEndianUInt32At_split by (auto simp: length_Suc_conv numeral_eq_Suc)
  qed
  from this [OF assms(1)] this [OF assms(2)] assms(3) show ?thesis by auto
qed

subsection \<open>Properties\<close>



lemma list_update_split: "i < length xs \<Longrightarrow> xs[i := b] = take i xs @ b # drop (Suc i) xs"
  by (rule upd_conv_take_nth_drop)

lemma crc32_update:
  assumes "i < length xs" and "xs ! i \<noteq> b"
  shows "crc32 (xs[i := b]) \<noteq> crc32 xs"
proof -
  have "crc32 (take i xs @ b # drop (Suc i) xs) \<noteq> crc32 (take i xs @ (xs ! i) # drop (Suc i) xs)"
    using assms(2) by (intro crc32_single_byte) simp
  then show ?thesis using assms(1) by (simp add: list_update_split id_take_nth_drop [symmetric])
qed

text \<open>C21: A single corrupted byte in the extension data of an embedded handshake packet (its type
  identifier, its payload or its checksum) is always detected: the parse fails with
  OperationFailed, whatever byte replaces the original one.\<close>

theorem handshake_packet_corruption_detected:
  assumes "hp_fits h" and "16 \<le> i" and "i < length (hp_wire h seq)" and "hp_wire h seq ! i \<noteq> b"
  shows "bindR (rtpPacketParsedFromPacketData False ((hp_wire h seq)[i := b]))
           (handshakePacketParsedFromRtpPacket False) = Inl OperationFailed"
proof -
  let ?b = "hp_body h" let ?f = "hp_front seq (length ?b + 4)"
  let ?c = "dataWithBigEndianBytesOfUInt32 (crc32 (?f @ ?b))"
  have w: "hp_wire h seq = ?f @ ?b @ ?c" by (simp add: hp_wire_def Let_def)
  have len: "length ?b + 4 < 0x10000" "8 \<le> length ?b" using assms(1) by (simp_all add: hp_fits_def hp_body_def)
  show ?thesis
  proof (cases "i < 16 + length ?b")
    case True
    then have u: "(hp_wire h seq)[i := b] = ?f @ ?b[i - 16 := b] @ ?c"
      using assms(2) by (auto simp: w list_update_append)
    have "i - 16 < length ?b" using True assms(2) by linarith
    then have "(?f @ ?b) ! i \<noteq> b" using assms(2,4) by (simp add: w nth_append)
    then have "crc32 ((?f @ ?b)[i := b]) \<noteq> crc32 (?f @ ?b)"
      using True by (intro crc32_update) simp_all
    then have "crc32 (?f @ ?b[i - 16 := b]) \<noteq> crc32 (?f @ ?b)"
      using assms(2) True by (simp add: list_update_append)
    then show ?thesis
      using handshakeParsed_eq [of "?b[i - 16 := b]" ?c seq] len u by (simp add: bigEndianUInt32At_self)
  next
    case False
    let ?j = "i - 16 - length ?b"
    have u: "(hp_wire h seq)[i := b] = ?f @ ?b @ ?c[?j := b]"
      using assms(2) False by (auto simp: w list_update_append)
    have "\<not> i - 16 < length ?b" using False by linarith
    then have j: "?j < length ?c" "?c ! ?j \<noteq> b"
      using assms(2,3,4) False unfolding w by (simp_all add: nth_append)
    have "?c[?j := b] \<noteq> ?c" using j by (metis nth_list_update_eq)
    then have "bigEndianUInt32At (?c[?j := b]) 0 \<noteq> Inr (crc32 (?f @ ?b))"
      using bigEndianUInt32At_4_inj [of "?c[?j := b]" ?c] bigEndianUInt32At_self by fastforce
    then show ?thesis
      using handshakeParsed_eq [of ?b "?c[?j := b]" seq] len u by simp
  qed
qed

theorem handshake_packet_corruption_detected_witness:
  "let h = \<lparr>hp_typeId = HANDSHAKE_TYPE_HELLO_ACK, hp_payload = []\<rparr>
   in bindR (rtpPacketParsedFromPacketData False ((hp_wire h 0)[16 := 0]))
        (handshakePacketParsedFromRtpPacket False) = Inl OperationFailed"
  unfolding Let_def
  by (rule handshake_packet_corruption_detected)
    (simp_all add: hp_fits_def hp_wire_def hp_body_def Let_def nth_append handshake_types handshakeType_def)

text \<open>A packet with a truncated authentication code appended under one key passes
  verification under another exactly when both keys give the same first eight bytes for it,
  in particular under the same key; it then comes back without the code, and otherwise the
  verification fails with OperationFailed.\<close>

lemma hmac_verify_appended:
  assumes "\<forall>k d. 8 \<le> length (hmac k d)" and "length (hp_typeId h) = 8"
  shows "bindR (withHmacAppended hmac h key) (\<lambda>h'. withHmacVerifiedAndRemoved hmac h' key') =
      (if take 8 (hmac key' (rtpExtensionPayloadUsedForHmacBeforeHmacAppended h)) =
          take 8 (hmac key (rtpExtensionPayloadUsedForHmacBeforeHmacAppended h))
       then Inr h else Inl OperationFailed)"
proof -
  let ?r = "rtpExtensionPayloadUsedForHmacBeforeHmacAppended h"
  let ?h = "h\<lparr>hp_payload := hp_payload h @ take 8 (hmac key ?r)\<rparr>"
  have n: "8 \<le> length (hmac k d)" for k d using assms(1) by blast
  have "withHmacAppended hmac h key = Inr ?h"
    using assms(2) n by (cases h)
      (simp add: withHmacAppended_def handshakePacketWithTypeId_def subdata_simps)
  moreover have "rtpExtensionHeaderAndPayloadExceptCrc ?h = ?r @ take 8 (hmac key ?r)"
    using n [of key ?r] by (simp add: rtpExtensionHeaderAndPayloadExceptCrc_def
        rtpExtensionPayloadUsedForHmacBeforeHmacAppended_def add.commute)
  ultimately show ?thesis
    using assms(2) n by (cases h) (simp add: withHmacVerifiedAndRemoved_def Let_def
      handshakePacketWithTypeId_def subdata_simps volatile_eq)
qed

end
