(* ===== verification/HelloPacket.thy ===== *)
theory HelloPacket
  imports HandshakePacket
begin

text \<open>
  The first packets of the ZRTP handshake: the hash chain
  (\<open>Signal/src/network/rtp/zrtp/HashChain.m\<close>), the Hello packet with its version, client, chain
  end, identity, flags and algorithm lists (\<open>packets/HelloPacket.m\<close>), and the two
  acknowledgements with an empty payload (\<open>packets/HelloAckPacket.m\<close>,
  \<open>packets/ConfirmAckPacket.m\<close>). A Zid is the data it wraps. SHA-256 and HMAC-SHA256 are the
  parameters \<open>sha256\<close> and \<open>hmac\<close>.
\<close>

subsection \<open>The hash chain\<close>

record hashChain =
  h0 :: data
  h1 :: data
  h2 :: data
  h3 :: data

definition hashChainWithSeed :: "(data \<Rightarrow> data) \<Rightarrow> data \<Rightarrow> hashChain result" where
  "hashChainWithSeed sha256 seed =
     ows_require (length seed = 32)
       (let a = sha256 seed; b = sha256 a; c = sha256 b
        in Inr \<lparr>h0 = seed, h1 = a, h2 = b, h3 = c\<rparr>)"

definition zidWithData :: "data \<Rightarrow> data result" where
  "zidWithData zidData = ows_require (length zidData = 12) (Inr zidData)"

subsection \<open>The acknowledgements\<close>

definition helloAckPacket :: "handshakePacket result" where
  "helloAckPacket = handshakePacketWithTypeId HANDSHAKE_TYPE_HELLO_ACK []"

definition helloAckPacketParsedFromHandshakePacket :: "handshakePacket \<Rightarrow> handshakePacket result" where
  "helloAckPacketParsedFromHandshakePacket h =
     checkOperation (hp_typeId h = HANDSHAKE_TYPE_HELLO_ACK)
       (checkOperation (length (hp_payload h) = 0) (Inr h))"

definition confirmAckPacket :: "handshakePacket result" where
  "confirmAckPacket = handshakePacketWithTypeId HANDSHAKE_TYPE_CONFIRM_ACK []"

definition confirmAckPacketParsedFromHandshakePacket :: "handshakePacket \<Rightarrow> handshakePacket result" where
  "confirmAckPacketParsedFromHandshakePacket h =
     checkOperation (hp_typeId h = HANDSHAKE_TYPE_CONFIRM_ACK)
       (checkOperation (length (hp_payload h) = 0) (Inr h))"

subsection \<open>The Hello packet\<close>

record helloFields =
  hello_versionId :: data
  hello_clientId :: data
  hello_hashChainH3 :: data
  hello_zid :: data
  hello_flags0SMP :: byte
  hello_flagsUnusedLow4 :: byte
  hello_flagsUnusedHigh4 :: byte
  hello_hashIds :: "data list"
  hello_cipherIds :: "data list"
  hello_authIds :: "data list"
  hello_agreeIds :: "data list"
  hello_sasIds :: "data list"

record helloPacket = helloFields +
  hello_embedding :: handshakePacket

definition COMMIT_DEFAULT_AGREE_SPEC_ID :: data where
  "COMMIT_DEFAULT_AGREE_SPEC_ID = handshakeType ''DH3k''"

text \<open>The identifiers of the key agreement protocols, in their order of preference.\<close>

definition getAgreeIdsFromKeyAgreementProtocols :: "data list \<Rightarrow> data list result" where
  "getAgreeIdsFromKeyAgreementProtocols protocolIds =
     (let (agreeSpecIds, hasDH3k) =
        foldl (\<lambda>(ids, has) e. if e = COMMIT_DEFAULT_AGREE_SPEC_ID then (ids, True) else (ids @ [e], has))
          ([], False) protocolIds
      in ows_require hasDH3k (Inr agreeSpecIds))"

text \<open>
  The flag bytes. The second write goes to the index of the first, as in the source; the index of
  the hash count stays zero.
\<close>

definition generateFlags :: "'a helloFields_scheme \<Rightarrow> data result" where
  "generateFlags p =
     bindR (uint8FromLowUInt4 (hello_flagsUnusedHigh4 p) (hello_flags0SMP p)) (\<lambda>b0.
     bindR (setUint8At (replicate 4 0) 0 b0) (\<lambda>flags.
     bindR (uint8FromLowUInt4 (of_nat (length (hello_hashIds p))) (hello_flagsUnusedLow4 p)) (\<lambda>b1.
     bindR (setUint8At flags 0 b1) (\<lambda>flags.
     bindR (uint8FromLowUInt4 (of_nat (length (hello_authIds p))) (of_nat (length (hello_cipherIds p)))) (\<lambda>b2.
     bindR (setUint8At flags 2 b2) (\<lambda>flags.
     bindR (uint8FromLowUInt4 (of_nat (length (hello_sasIds p))) (of_nat (length (hello_agreeIds p)))) (\<lambda>b3.
       setUint8At flags 3 b3)))))))"

definition hello_generatePayload :: "'a helloFields_scheme \<Rightarrow> data result" where
  "hello_generatePayload p =
     bindR (generateFlags p) (\<lambda>flags. Inr (ows_concatDatas
       [hello_versionId p, hello_clientId p, hello_hashChainH3 p, hello_zid p, flags,
        ows_concatDatas (concat [hello_hashIds p, hello_cipherIds p, hello_authIds p,
          hello_agreeIds p, hello_sasIds p])]))"

definition helloPacketWithVersion ::
  "(data \<Rightarrow> data \<Rightarrow> data) \<Rightarrow> data \<Rightarrow> data \<Rightarrow> data \<Rightarrow> data \<Rightarrow> byte \<Rightarrow> byte \<Rightarrow> byte \<Rightarrow>
   data list \<Rightarrow> data list \<Rightarrow> data list \<Rightarrow> data list \<Rightarrow> data list \<Rightarrow> data \<Rightarrow> helloPacket result" where
  "helloPacketWithVersion hmac versionId clientId hashChainH3 zid flags0SMP flagsUnusedLow4
     flagsUnusedHigh4 hashIds cipherIds authIds agreeIds sasIds hmacKey =
     ows_require (flags0SMP AND NOT 0xF = 0)
     (ows_require (flagsUnusedLow4 AND NOT 0xF = 0)
     (ows_require (flagsUnusedHigh4 AND NOT 0xF = 0)
     (ows_require (length versionId = 4)
     (ows_require (length clientId = 16)
     (ows_require (length hashChainH3 = 32)
     (ows_require (length hashIds \<le> 7)
     (ows_require (length cipherIds \<le> 7)
     (ows_require (length authIds \<le> 7)
     (ows_require (length agreeIds \<le> 7)
     (ows_require (length sasIds \<le> 7)
     (let p = \<lparr>hello_versionId = versionId, hello_clientId = clientId, hello_hashChainH3 = hashChainH3,
            hello_zid = zid, hello_flags0SMP = flags0SMP, hello_flagsUnusedLow4 = flagsUnusedLow4,
            hello_flagsUnusedHigh4 = flagsUnusedHigh4, hello_hashIds = hashIds,
            hello_cipherIds = cipherIds, hello_authIds = authIds, hello_agreeIds = agreeIds,
            hello_sasIds = sasIds\<rparr>
      in bindR (hello_generatePayload p) (\<lambda>payload.
         bindR (handshakePacketWithTypeId HANDSHAKE_TYPE_HELLO payload) (\<lambda>unauthenticatedEmbedding.
         bindR (withHmacAppended hmac unauthenticatedEmbedding hmacKey) (\<lambda>embedding.
           Inr (helloFields.extend p (helloPacket.fields embedding))))))))))))))))"

definition helloPacketWithDefaults ::
  "(data \<Rightarrow> data \<Rightarrow> data) \<Rightarrow> data \<Rightarrow> data \<Rightarrow> hashChain \<Rightarrow> data \<Rightarrow> data list \<Rightarrow> helloPacket result" where
  "helloPacketWithDefaults hmac zrtpVersionId zrtpClientId chain zid keyAgreementProtocols =
     bindR (getAgreeIdsFromKeyAgreementProtocols keyAgreementProtocols) (\<lambda>agreeIds.
       helloPacketWithVersion hmac zrtpVersionId zrtpClientId (h3 chain) zid 0 0 0 [] [] [] agreeIds []
         (h2 chain))"

definition hello_verifyMac :: "(data \<Rightarrow> data) \<Rightarrow> (data \<Rightarrow> data \<Rightarrow> data) \<Rightarrow> helloPacket \<Rightarrow> data \<Rightarrow> unit result" where
  "hello_verifyMac sha256 hmac p hashChainH2 =
     checkOperation (isEqualToData_TimingSafe (sha256 hashChainH2) (hello_hashChainH3 p))
       (bindR (withHmacVerifiedAndRemoved hmac (hello_embedding p) hashChainH2) (\<lambda>_. Inr ()))"

text \<open>The lists of identifiers, read four bytes at a time from one running offset.\<close>

fun readSpecIds :: "data \<Rightarrow> nat \<Rightarrow> nat \<Rightarrow> data list result" where
  "readSpecIds payload 0 offset = Inr []"
| "readSpecIds payload (Suc n) offset =
     bindR (subdataWithRange payload offset 4) (\<lambda>s.
     bindR (readSpecIds payload n (offset + 4)) (\<lambda>ss. Inr (s # ss)))"

fun readSpecIdLists :: "data \<Rightarrow> nat list \<Rightarrow> nat \<Rightarrow> data list list result" where
  "readSpecIdLists payload [] offset = Inr []"
| "readSpecIdLists payload (n # ns) offset =
     bindR (readSpecIds payload n offset) (\<lambda>s.
     bindR (readSpecIdLists payload ns (offset + 4 * n)) (\<lambda>ss. Inr (s # ss)))"

definition getSpecIdsFromPayload :: "data \<Rightarrow> nat list \<Rightarrow> data list list result" where
  "getSpecIdsFromPayload payload counts =
     checkOperation (length payload \<ge> 68 + 4 * sum_list counts) (readSpecIdLists payload counts 68)"

definition helloPacketParsedFromHandshakePacket :: "handshakePacket \<Rightarrow> helloPacket result" where
  "helloPacketParsedFromHandshakePacket h =
     checkOperation (hp_typeId h = HANDSHAKE_TYPE_HELLO)
     (let payload = hp_payload h
      in checkOperation (length payload \<ge> 68)
     (bindR (subdataWithRange payload 0 4) (\<lambda>versionId.
      bindR (subdataWithRange payload 4 16) (\<lambda>clientId.
      bindR (subdataWithRange payload 20 32) (\<lambda>hashChainH3.
      bindR (bindR (subdataWithRange payload 52 12) zidWithData) (\<lambda>zid.
      bindR (subdataWithRange payload 64 4) (\<lambda>flags.
      bindR (highUint4AtByteOffset flags 0) (\<lambda>flags0SMP.
      bindR (lowUint4AtByteOffset flags 0) (\<lambda>flagsUnusedHigh4.
      bindR (highUint4AtByteOffset flags 1) (\<lambda>flagsUnusedLow4.
      bindR (lowUint4AtByteOffset flags 1) (\<lambda>hashIdsCount.
      bindR (highUint4AtByteOffset flags 2) (\<lambda>cipherIdsCount.
      bindR (lowUint4AtByteOffset flags 2) (\<lambda>authIdsCount.
      bindR (highUint4AtByteOffset flags 3) (\<lambda>agreeIdsCount.
      bindR (lowUint4AtByteOffset flags 3) (\<lambda>sasIdsCount.
      bindR (getSpecIdsFromPayload payload [unat hashIdsCount, unat cipherIdsCount,
          unat authIdsCount, unat agreeIdsCount, unat sasIdsCount]) (\<lambda>specIds.
        Inr \<lparr>hello_versionId = versionId, hello_clientId = clientId, hello_hashChainH3 = hashChainH3,
            hello_zid = zid, hello_flags0SMP = flags0SMP, hello_flagsUnusedLow4 = flagsUnusedLow4,
            hello_flagsUnusedHigh4 = flagsUnusedHigh4, hello_hashIds = specIds ! 0,
            hello_cipherIds = specIds ! 1, hello_authIds = specIds ! 2, hello_agreeIds = specIds ! 3,
            hello_sasIds = specIds ! 4, hello_embedding = h\<rparr>))))))))))))))))"

definition agreeIdsIncludingImplied :: "'a helloFields_scheme \<Rightarrow> data list" where
  "agreeIdsIncludingImplied p = hello_agreeIds p @ [COMMIT_DEFAULT_AGREE_SPEC_ID]"

subsection \<open>Reading lists of identifiers\<close>

lemma subdata_mid:
  "length xs = n \<Longrightarrow> length ys = m \<Longrightarrow> subdataWithRange (xs @ ys @ zs) n m = Inr ys"
  by (simp add: subdataWithRange_def)

lemma readSpecIds_append:
  "\<forall>i \<in> set ids. length i = 4 \<Longrightarrow>
   readSpecIds (xs @ concat ids @ ys) (length ids) (length xs) = Inr ids"
proof (induction ids arbitrary: xs)
  case (Cons i ids)
  then have "readSpecIds ((xs @ i) @ concat ids @ ys) (length ids) (length (xs @ i)) = Inr ids"
    by (intro Cons.IH) simp
  with Cons.prems show ?case
    using subdata_mid [of xs "length xs" i 4 "concat ids @ ys"] by simp
qed simp

lemma length_concat4: "\<forall>i \<in> set ids. length i = 4 \<Longrightarrow> length (concat ids) = 4 * length ids"
  by (rule length_concat_fixed)

lemma readSpecIdLists_append:
  "\<forall>ids \<in> set idss. \<forall>i \<in> set ids. length i = 4 \<Longrightarrow>
   readSpecIdLists (xs @ concat (concat idss) @ ys) (map length idss) (length xs) = Inr idss"
proof (induction idss arbitrary: xs)
  case (Cons ids idss)
  then have l: "length (concat ids) = 4 * length ids" by (simp add: length_concat4)
  have "readSpecIdLists ((xs @ concat ids) @ concat (concat idss) @ ys) (map length idss)
      (length (xs @ concat ids)) = Inr idss"
    using Cons.prems by (intro Cons.IH) simp
  then show ?case
    using Cons.prems l readSpecIds_append [of ids xs "concat (concat idss) @ ys"] by simp
qed simp

lemma getSpecIds_append:
  assumes "length xs = 68" and "\<forall>ids \<in> set idss. \<forall>i \<in> set ids. length i = 4"
  shows "getSpecIdsFromPayload (xs @ concat (concat idss) @ ys) (map length idss) = Inr idss"
proof -
  have "length (concat (concat idss)) = 4 * sum_list (map length idss)"
    using assms(2) by (subst length_concat4) (auto simp: length_concat)
  then show ?thesis
    using assms readSpecIdLists_append [OF assms(2), of xs ys] by (simp add: getSpecIdsFromPayload_def)
qed

lemma readSpecIds_0_head: "readSpecIdLists payload (0 # ns) offset = Inr ss \<Longrightarrow> ss ! 0 = []"
  by auto

subsection \<open>What the flags carry\<close>

lemma generateFlags_Inr:
  assumes "generateFlags p = Inr flags"
  shows "\<exists>b1 b2 b3. flags = [b1, 0, b2, b3] \<and>
    b1 AND 0xF = of_nat (length (hello_hashIds p)) \<and> drop_bit 4 b1 = hello_flagsUnusedLow4 p \<and>
    b2 AND 0xF = of_nat (length (hello_authIds p)) \<and> drop_bit 4 b2 = of_nat (length (hello_cipherIds p)) \<and>
    b3 AND 0xF = of_nat (length (hello_sasIds p)) \<and> drop_bit 4 b3 = of_nat (length (hello_agreeIds p))"
  using assms by (auto simp: generateFlags_def setUint8At_def numeral_eq_Suc dest!: nibbles_split)

definition hello_ids :: "'a helloFields_scheme \<Rightarrow> data list" where
  "hello_ids p = hello_hashIds p @ hello_cipherIds p @ hello_authIds p @ hello_agreeIds p @ hello_sasIds p"

text \<open>What the parser makes of a generated packet: the identifiers split by the counts it reads.\<close>

definition hello_received :: "helloPacket \<Rightarrow> helloPacket" where
  "hello_received p =
     (let ids = hello_ids p; c = length (hello_cipherIds p); a = length (hello_authIds p);
          k = length (hello_agreeIds p); n = length (hello_sasIds p)
      in p\<lparr>hello_flags0SMP := hello_flagsUnusedLow4 p, hello_flagsUnusedLow4 := 0,
           hello_flagsUnusedHigh4 := of_nat (length (hello_hashIds p)), hello_hashIds := [],
           hello_cipherIds := take c ids, hello_authIds := take a (drop c ids),
           hello_agreeIds := take k (drop (c + a) ids), hello_sasIds := take n (drop (c + a + k) ids)\<rparr>)"

lemma withHmacAppended_eq:
  assumes "\<forall>k d. 8 \<le> length (hmac k d)" and "length (hp_typeId h) = 8"
  shows "withHmacAppended hmac h key = Inr (h\<lparr>hp_payload := hp_payload h @
    take 8 (hmac key (rtpExtensionPayloadUsedForHmacBeforeHmacAppended h))\<rparr>)"
  using assms by (cases h) (simp add: withHmacAppended_def handshakePacketWithTypeId_def subdata_simps)

lemma generateFlags_truncate: "generateFlags (helloFields.truncate p) = generateFlags p"
  by (simp add: generateFlags_def helloFields.defs)

lemma take_drop_split5:
  "i = take c i @ take a (drop c i) @ take k (drop (c + a) i) @ take n (drop (c + a + k) i) @ drop (c + a + k + n) i"
proof -
  have "drop m i = take a (drop m i) @ drop (m + a) i" for m a
    by (metis append_take_drop_id drop_drop add.commute)
  then show ?thesis by (metis append_take_drop_id)
qed

text \<open>The fields that the constructor's result has, and the bytes of its embedding.\<close>

lemma helloPacketWithVersion_Inr:
  assumes "helloPacketWithVersion hmac v c h z f0 fl fh hs cs as ks ss key = Inr p"
    and "\<forall>k d. 8 \<le> length (hmac k d)"
  shows "\<exists>flags mac. generateFlags (helloFields.truncate p) = Inr flags \<and> length mac = 8 \<and>
     hello_embedding p = \<lparr>hp_typeId = HANDSHAKE_TYPE_HELLO,
       hp_payload = v @ c @ h @ z @ flags @ concat (hello_ids p) @ mac\<rparr> \<and>
     p = \<lparr>hello_versionId = v, hello_clientId = c, hello_hashChainH3 = h, hello_zid = z,
       hello_flags0SMP = f0, hello_flagsUnusedLow4 = fl, hello_flagsUnusedHigh4 = fh,
       hello_hashIds = hs, hello_cipherIds = cs, hello_authIds = as, hello_agreeIds = ks,
       hello_sasIds = ss, hello_embedding = hello_embedding p\<rparr> \<and>
     length v = 4 \<and> length c = 16 \<and> length h = 32 \<and> length hs \<le> 7 \<and> length cs \<le> 7 \<and>
     length as \<le> 7 \<and> length ks \<le> 7 \<and> length ss \<le> 7"
  using assms
  by (auto simp: helloPacketWithVersion_def Let_def hello_generatePayload_def
      handshakePacketWithTypeId_def withHmacAppended_eq hello_ids_def helloFields.defs helloPacket.defs)

lemma unat_of_nat_small: "n \<le> 7 \<Longrightarrow> unat (of_nat n :: byte) = n"
  by (simp add: unat_of_nat)

lemma hello_parse_generated:
  assumes mk: "helloPacketWithVersion hmac v c h z f0 fl fh hs cs as ks ss key = Inr p"
    and hm: "\<forall>k d. 8 \<le> length (hmac k d)"
    and ids: "\<forall>i \<in> set (hello_ids p). length i = 4" and z: "length z = 12"
  shows "helloPacketParsedFromHandshakePacket (hello_embedding p) = Inr (hello_received p)"
proof -
  obtain flags mac where fl: "generateFlags p = Inr flags" and mac: "length mac = 8"
    and emb: "hello_embedding p = \<lparr>hp_typeId = HANDSHAKE_TYPE_HELLO,
       hp_payload = v @ c @ h @ z @ flags @ concat (hello_ids p) @ mac\<rparr>"
    and p: "p = \<lparr>hello_versionId = v, hello_clientId = c, hello_hashChainH3 = h, hello_zid = z,
       hello_flags0SMP = f0, hello_flagsUnusedLow4 = fl, hello_flagsUnusedHigh4 = fh,
       hello_hashIds = hs, hello_cipherIds = cs, hello_authIds = as, hello_agreeIds = ks,
       hello_sasIds = ss, hello_embedding = hello_embedding p\<rparr>"
    and len: "length v = 4" "length c = 16" "length h = 32" "length hs \<le> 7" "length cs \<le> 7"
      "length as \<le> 7" "length ks \<le> 7" "length ss \<le> 7"
    using helloPacketWithVersion_Inr [OF mk hm] unfolding generateFlags_truncate by blast
  obtain b1 b2 b3 where flags: "flags = [b1, 0, b2, b3]"
    and b: "b1 AND 0xF = of_nat (length (hello_hashIds p))" "drop_bit 4 b1 = hello_flagsUnusedLow4 p"
      "b2 AND 0xF = of_nat (length (hello_authIds p))" "drop_bit 4 b2 = of_nat (length (hello_cipherIds p))"
      "b3 AND 0xF = of_nat (length (hello_sasIds p))" "drop_bit 4 b3 = of_nat (length (hello_agreeIds p))"
    using generateFlags_Inr [OF fl] by blast
  have sel: "hello_hashIds p = hs" "hello_cipherIds p = cs" "hello_authIds p = as"
    "hello_agreeIds p = ks" "hello_sasIds p = ss" "hello_flagsUnusedLow4 p = fl"
    "hello_versionId p = v" "hello_clientId p = c" "hello_hashChainH3 p = h" "hello_zid p = z"
    by (subst p, simp)+
  let ?i = "hello_ids p" and ?P = "v @ c @ h @ z @ flags @ concat (hello_ids p) @ mac"
  let ?c = "length cs" and ?a = "length as" and ?k = "length ks" and ?n = "length ss"
  let ?ss = "[[], take ?c ?i, take ?a (drop ?c ?i), take ?k (drop (?c + ?a) ?i),
    take ?n (drop (?c + ?a + ?k) ?i)]"
  have li: "length ?i = length hs + ?c + ?a + ?k + ?n" by (simp add: hello_ids_def sel)
  have split: "?i = concat ?ss @ drop (?c + ?a + ?k + ?n) ?i"
    using take_drop_split5 [of ?i ?c ?a ?k ?n] by simp
  have "getSpecIdsFromPayload ?P (map length ?ss) = Inr ?ss"
  proof -
    have P: "?P = (v @ c @ h @ z @ flags) @ concat (concat ?ss) @ concat (drop (?c + ?a + ?k + ?n) ?i) @ mac"
      by (subst split) simp
    have 4: "\<forall>ids \<in> set ?ss. \<forall>i \<in> set ids. length i = 4"
      using ids by (auto dest: in_set_takeD in_set_dropD)
    have 68: "length (v @ c @ h @ z @ flags) = 68" using len z by (simp add: flags)
    show ?thesis unfolding P by (rule getSpecIds_append [OF 68 4])
  qed
  moreover have "map length ?ss = [0, ?c, ?a, ?k, ?n]" using li by simp
  ultimately have ss: "getSpecIdsFromPayload ?P [0, ?c, ?a, ?k, ?n] = Inr ?ss" by simp
  have "subdataWithRange ?P 0 4 = Inr v" "subdataWithRange ?P 4 16 = Inr c"
      "subdataWithRange ?P 20 32 = Inr h" "subdataWithRange ?P 52 12 = Inr z"
      "subdataWithRange ?P 64 4 = Inr flags"
    using len z by (simp_all add: subdataWithRange_def flags)
  moreover have "68 \<le> length ?P" using len z by (simp add: flags)
  moreover have "hello_received p = \<lparr>hello_versionId = v, hello_clientId = c, hello_hashChainH3 = h,
      hello_zid = z, hello_flags0SMP = fl, hello_flagsUnusedLow4 = 0,
      hello_flagsUnusedHigh4 = of_nat (length hs), hello_hashIds = [],
      hello_cipherIds = take ?c ?i, hello_authIds = take ?a (drop ?c ?i),
      hello_agreeIds = take ?k (drop (?c + ?a) ?i), hello_sasIds = take ?n (drop (?c + ?a + ?k) ?i),
      hello_embedding = hello_embedding p\<rparr>"
    by (rule helloPacket.equality) (simp_all add: hello_received_def Let_def sel)
  ultimately show ?thesis
    using len z ss
    by (simp add: helloPacketParsedFromHandshakePacket_def emb zidWithData_def flags
        highUint4AtByteOffset_def lowUint4AtByteOffset_def uint8At_def b sel unat_of_nat_small)
qed

subsection \<open>Properties\<close>

text \<open>A Hello packet built without hash algorithm identifiers, as the application builds its own,
  survives the handshake envelope: the parser gives back the version, client, chain end,
  identity and all four algorithm lists. Only the flags differ: the 0SMP flags come back as
  the low unused bits, and both unused groups come back zero.\<close>

theorem hello_roundtrip:
  assumes "helloPacketWithVersion hmac v c h z f0 fl fh [] cs as ks ss key = Inr p"
    and "\<forall>k d. 8 \<le> length (hmac k d)" and "length z = 12"
    and "\<forall>i \<in> set (cs @ as @ ks @ ss). length i = 4"
  shows "helloPacketParsedFromHandshakePacket (hello_embedding p) =
    Inr (p\<lparr>hello_flags0SMP := fl, hello_flagsUnusedLow4 := 0, hello_flagsUnusedHigh4 := 0\<rparr>)"
proof -
  have p: "hello_hashIds p = []" "hello_cipherIds p = cs" "hello_authIds p = as"
    "hello_agreeIds p = ks" "hello_sasIds p = ss" "hello_flagsUnusedLow4 p = fl"
    using assms(1) by (auto simp: helloPacketWithVersion_def Let_def helloFields.defs helloPacket.defs)
  then have "\<forall>i \<in> set (hello_ids p). length i = 4" using assms(4) by (simp add: hello_ids_def)
  from hello_parse_generated [OF assms(1,2) this assms(3)]
  show ?thesis
    by (simp add: hello_received_def Let_def hello_ids_def p)
qed

text \<open>Hash algorithm identifiers never arrive. Whatever list a Hello packet is built with, the
  parser finds no hash identifiers in it, reads their number as unused flag bits, and splits the
  identifiers that follow by the counts of the remaining lists, so the hash identifiers are
  taken for cipher identifiers.\<close>

theorem hello_hash_ids_lost:
  assumes "helloPacketWithVersion hmac v c h z f0 fl fh hs cs as ks ss key = Inr p"
    and "\<forall>k d. 8 \<le> length (hmac k d)" and "length z = 12"
    and "\<forall>i \<in> set (hs @ cs @ as @ ks @ ss). length i = 4"
  shows "\<exists>q. helloPacketParsedFromHandshakePacket (hello_embedding p) = Inr q \<and> hello_hashIds q = [] \<and>
    hello_flagsUnusedHigh4 q = of_nat (length hs) \<and>
    hello_cipherIds q = take (length cs) (hs @ cs @ as @ ks @ ss)"
proof -
  have p: "hello_hashIds p = hs" "hello_cipherIds p = cs" "hello_authIds p = as"
    "hello_agreeIds p = ks" "hello_sasIds p = ss"
    using assms(1) by (auto simp: helloPacketWithVersion_def Let_def helloFields.defs helloPacket.defs)
  then have "\<forall>i \<in> set (hello_ids p). length i = 4" using assms(4) by (simp add: hello_ids_def)
  from hello_parse_generated [OF assms(1,2) this assms(3)]
  show ?thesis by (simp add: hello_received_def Let_def hello_ids_def p)
qed

definition hello_exampleMac :: "data \<Rightarrow> data \<Rightarrow> data" where
  "hello_exampleMac k d = k @ [0, 0, 0, 0, 0, 0, 0, 0]"

definition hello_example :: "data list \<Rightarrow> helloPacket" where
  "hello_example hs = projr (helloPacketWithVersion hello_exampleMac [1, 2, 3, 4] (replicate 16 5) (replicate 32 6)
     (replicate 12 7) 1 2 3 hs [[8, 8, 8, 8]] [] [[9, 9, 9, 9]] [] [10])"

lemma hello_example_eq:
  "length hs \<le> 1 \<Longrightarrow> helloPacketWithVersion hello_exampleMac [1, 2, 3, 4] (replicate 16 5) (replicate 32 6)
     (replicate 12 7) 1 2 3 hs [[8, 8, 8, 8]] [] [[9, 9, 9, 9]] [] [10] = Inr (hello_example hs)"
  by (cases hs) (simp_all add: hello_example_def helloPacketWithVersion_def Let_def hello_generatePayload_def
      generateFlags_def uint8FromLowUInt4_def setUint8At_def handshakePacketWithTypeId_def
      withHmacAppended_eq hello_exampleMac_def)

theorem hello_roundtrip_witness:
  "helloPacketParsedFromHandshakePacket (hello_embedding (hello_example [])) =
   Inr ((hello_example [])\<lparr>hello_flags0SMP := 2, hello_flagsUnusedLow4 := 0, hello_flagsUnusedHigh4 := 0\<rparr>)"
  by (rule hello_roundtrip [OF hello_example_eq]) (simp_all add: hello_exampleMac_def)

theorem hello_hash_ids_lost_witness:
  "\<exists>q. helloPacketParsedFromHandshakePacket (hello_embedding (hello_example [[1, 1, 1, 1]])) = Inr q \<and>
     hello_hashIds q = [] \<and> hello_flagsUnusedHigh4 q = 1 \<and> hello_cipherIds q = [[1, 1, 1, 1]]"
  using hello_hash_ids_lost [OF hello_example_eq [of "[[1, 1, 1, 1]]"]] by (simp add: hello_exampleMac_def)

end
