(* ===== verification/ZrtpPackets.thy ===== *)
theory ZrtpPackets
  imports HelloPacket
begin

text \<open>
  The Commit, DHPart and Confirm packets of the ZRTP handshake
  (\<open>Signal/src/network/rtp/zrtp/packets/\<close>: \<open>CommitPacket.m\<close>, \<open>DhPacket.m\<close>,
  \<open>DhPacketSharedSecretHashes.m\<close>, \<open>ConfirmPacket.m\<close>): their construction, parsing and the
  checks of their authentication codes and of the commitment. SHA-256, HMAC-SHA256 and AES in
  cipher feedback mode are the parameters \<open>sha256\<close>, \<open>hmac\<close>, \<open>aesEncrypt\<close> and \<open>aesDecrypt\<close>
  (key, initialization vector, text).
\<close>

subsection \<open>DHPart packets\<close>

record dhPacketSharedSecretHashes =
  dh_rs1 :: data
  dh_rs2 :: data
  dh_aux :: data
  dh_pbx :: data

definition dhPacketSharedSecretHashesWith :: "data \<Rightarrow> data \<Rightarrow> data \<Rightarrow> data \<Rightarrow> dhPacketSharedSecretHashes result" where
  "dhPacketSharedSecretHashesWith rs1 rs2 aux pbx =
     ows_require (length rs1 = 8) (ows_require (length rs2 = 8) (ows_require (length aux = 8)
     (ows_require (length pbx = 8)
       (Inr \<lparr>dh_rs1 = rs1, dh_rs2 = rs2, dh_aux = aux, dh_pbx = pbx\<rparr>))))"

text \<open>A packet parsed from the network leaves \<open>isPart1\<close> at its initial value.\<close>

record dhPacket =
  dh_isPart1 :: bool
  dh_sharedSecretHashes :: dhPacketSharedSecretHashes
  dh_publicKeyData :: data
  dh_hashChainH1 :: data
  dh_embedding :: handshakePacket

definition dh_embedIntoHandshakePacket ::
  "(data \<Rightarrow> data \<Rightarrow> data) \<Rightarrow> bool \<Rightarrow> dhPacketSharedSecretHashes \<Rightarrow> data \<Rightarrow> data \<Rightarrow> data \<Rightarrow> handshakePacket result" where
  "dh_embedIntoHandshakePacket hmac isPart1 ssh publicKeyData hashChainH1 macKey =
     requireState (length hashChainH1 = 32)
       (let typeId = (if isPart1 then HANDSHAKE_TYPE_DH_1 else HANDSHAKE_TYPE_DH_2);
            payload = ows_concatDatas [hashChainH1, dh_rs1 ssh, dh_rs2 ssh, dh_aux ssh, dh_pbx ssh, publicKeyData]
        in bindR (handshakePacketWithTypeId typeId payload) (\<lambda>h. withHmacAppended hmac h macKey))"

definition dhPacketWithHashChainH0 ::
  "(data \<Rightarrow> data) \<Rightarrow> (data \<Rightarrow> data \<Rightarrow> data) \<Rightarrow> data \<Rightarrow> dhPacketSharedSecretHashes \<Rightarrow> data \<Rightarrow> bool \<Rightarrow> dhPacket result" where
  "dhPacketWithHashChainH0 sha256 hmac hashChainH0 ssh publicKeyData isPart1 =
     ows_require (length hashChainH0 = 32)
       (let hashChainH1 = sha256 hashChainH0
        in bindR (dh_embedIntoHandshakePacket hmac isPart1 ssh publicKeyData hashChainH1 hashChainH0) (\<lambda>embedding.
           Inr \<lparr>dh_isPart1 = isPart1, dh_sharedSecretHashes = ssh, dh_publicKeyData = publicKeyData,
                dh_hashChainH1 = hashChainH1, dh_embedding = embedding\<rparr>))"

definition dh1PacketWithHashChain ::
  "(data \<Rightarrow> data) \<Rightarrow> (data \<Rightarrow> data \<Rightarrow> data) \<Rightarrow> hashChain \<Rightarrow> dhPacketSharedSecretHashes \<Rightarrow> data \<Rightarrow> dhPacket result" where
  "dh1PacketWithHashChain sha256 hmac chain ssh publicKeyData =
     dhPacketWithHashChainH0 sha256 hmac (h0 chain) ssh publicKeyData True"

definition dh2PacketWithHashChain ::
  "(data \<Rightarrow> data) \<Rightarrow> (data \<Rightarrow> data \<Rightarrow> data) \<Rightarrow> hashChain \<Rightarrow> dhPacketSharedSecretHashes \<Rightarrow> data \<Rightarrow> dhPacket result" where
  "dh2PacketWithHashChain sha256 hmac chain ssh publicKeyData =
     dhPacketWithHashChainH0 sha256 hmac (h0 chain) ssh publicKeyData False"

definition dh_verifyMac :: "(data \<Rightarrow> data) \<Rightarrow> (data \<Rightarrow> data \<Rightarrow> data) \<Rightarrow> dhPacket \<Rightarrow> data \<Rightarrow> unit result" where
  "dh_verifyMac sha256 hmac p hashChainH0 =
     checkOperation (isEqualToData_TimingSafe (sha256 hashChainH0) (dh_hashChainH1 p))
       (bindR (withHmacVerifiedAndRemoved hmac (dh_embedding p) hashChainH0) (\<lambda>_. Inr ()))"

definition getSharedSecretHashesFromPayload :: "data \<Rightarrow> dhPacketSharedSecretHashes result" where
  "getSharedSecretHashesFromPayload payload =
     bindR (subdataWithRange payload 32 8) (\<lambda>rs1.
     bindR (subdataWithRange payload 40 8) (\<lambda>rs2.
     bindR (subdataWithRange payload 48 8) (\<lambda>aux.
     bindR (subdataWithRange payload 56 8) (\<lambda>pbx.
       dhPacketSharedSecretHashesWith rs1 rs2 aux pbx))))"

definition getPublicKeyDataFromPayload :: "data \<Rightarrow> data result" where
  "getPublicKeyDataFromPayload payload = bindR (skip_data payload 64) (\<lambda>d. skipLast d 8)"

definition dhPacketFromHandshakePacket :: "handshakePacket \<Rightarrow> bool \<Rightarrow> dhPacket result" where
  "dhPacketFromHandshakePacket h isPart1 =
     (let expectedTypeId = (if isPart1 then HANDSHAKE_TYPE_DH_1 else HANDSHAKE_TYPE_DH_2); payload = hp_payload h
      in checkOperation (hp_typeId h = expectedTypeId)
        (checkOperation (length payload \<ge> 72)
        (bindR (take_data payload 32) (\<lambda>hashChainH1.
         bindR (getSharedSecretHashesFromPayload payload) (\<lambda>ssh.
         bindR (getPublicKeyDataFromPayload payload) (\<lambda>publicKeyData.
           Inr \<lparr>dh_isPart1 = False, dh_sharedSecretHashes = ssh, dh_publicKeyData = publicKeyData,
                dh_hashChainH1 = hashChainH1, dh_embedding = h\<rparr>))))))"

subsection \<open>Commit packets\<close>

definition COMMIT_DEFAULT_HASH_SPEC_ID :: data where "COMMIT_DEFAULT_HASH_SPEC_ID = handshakeType ''S256''"
definition COMMIT_DEFAULT_CIPHER_SPEC_ID :: data where "COMMIT_DEFAULT_CIPHER_SPEC_ID = handshakeType ''AES1''"
definition COMMIT_DEFAULT_AUTH_SPEC_ID :: data where "COMMIT_DEFAULT_AUTH_SPEC_ID = handshakeType ''HS80''"
definition COMMIT_DEFAULT_SAS_SPEC_ID :: data where "COMMIT_DEFAULT_SAS_SPEC_ID = handshakeType ''B256''"

lemma length_commit_defaults [simp]:
  "length COMMIT_DEFAULT_HASH_SPEC_ID = 4" "length COMMIT_DEFAULT_CIPHER_SPEC_ID = 4"
  "length COMMIT_DEFAULT_AUTH_SPEC_ID = 4" "length COMMIT_DEFAULT_AGREE_SPEC_ID = 4"
  "length COMMIT_DEFAULT_SAS_SPEC_ID = 4"
  by (simp_all add: COMMIT_DEFAULT_HASH_SPEC_ID_def COMMIT_DEFAULT_CIPHER_SPEC_ID_def
      COMMIT_DEFAULT_AUTH_SPEC_ID_def COMMIT_DEFAULT_AGREE_SPEC_ID_def COMMIT_DEFAULT_SAS_SPEC_ID_def
      handshakeType_def)

record commitPacket =
  commit_h2 :: data
  commit_hashSpecId :: data
  commit_cipherSpecId :: data
  commit_authSpecId :: data
  commit_agreementSpecId :: data
  commit_sasSpecId :: data
  commit_zid :: data
  commit_dhPart2HelloCommitment :: data
  commit_embedding :: handshakePacket

definition commit_embedInHandshakePacket ::
  "(data \<Rightarrow> data \<Rightarrow> data) \<Rightarrow> data \<Rightarrow> data \<Rightarrow> data \<Rightarrow> data \<Rightarrow> data \<Rightarrow> data \<Rightarrow> data \<Rightarrow> data \<Rightarrow> data \<Rightarrow> handshakePacket result" where
  "commit_embedInHandshakePacket hmac hashChainH2 zid hashSpecId cipherSpecId authSpecId agreementSpecId sasSpecId
     dhPart2HelloCommitment hmacKey =
     requireState (length hashChainH2 = 32) (requireState (length hashSpecId = 4) (requireState (length cipherSpecId = 4)
     (requireState (length authSpecId = 4) (requireState (length agreementSpecId = 4)
     (requireState (length sasSpecId = 4)
       (let payload = ows_concatDatas [hashChainH2, zid, hashSpecId, cipherSpecId, authSpecId, agreementSpecId,
              sasSpecId, dhPart2HelloCommitment]
        in bindR (handshakePacketWithTypeId HANDSHAKE_TYPE_COMMIT payload) (\<lambda>h.
             withHmacAppended hmac h hmacKey)))))))"

definition commitPacketWithHashChainH2 ::
  "(data \<Rightarrow> data \<Rightarrow> data) \<Rightarrow> data \<Rightarrow> data \<Rightarrow> data \<Rightarrow> data \<Rightarrow> data \<Rightarrow> data \<Rightarrow> data \<Rightarrow> data \<Rightarrow> data \<Rightarrow> commitPacket result" where
  "commitPacketWithHashChainH2 hmac hashChainH2 zid hashSpecId cipherSpecId authSpecId agreeSpecId sasSpecId
     dhPart2HelloCommitment hmacKey =
     ows_require (length hashChainH2 = 32) (ows_require (length hashSpecId = 4) (ows_require (length cipherSpecId = 4)
     (ows_require (length authSpecId = 4) (ows_require (length agreeSpecId = 4)
     (ows_require (length sasSpecId = 4)
       (bindR (commit_embedInHandshakePacket hmac hashChainH2 zid hashSpecId cipherSpecId authSpecId agreeSpecId
          sasSpecId dhPart2HelloCommitment hmacKey) (\<lambda>embedding.
        Inr \<lparr>commit_h2 = hashChainH2, commit_hashSpecId = hashSpecId, commit_cipherSpecId = cipherSpecId,
          commit_authSpecId = authSpecId, commit_agreementSpecId = agreeSpecId,
          commit_sasSpecId = sasSpecId, commit_zid = zid,
          commit_dhPart2HelloCommitment = dhPart2HelloCommitment, commit_embedding = embedding\<rparr>)))))))"

definition commitment :: "(data \<Rightarrow> data) \<Rightarrow> handshakePacket \<Rightarrow> handshakePacket \<Rightarrow> data" where
  "commitment sha256 dhPart2 hello =
     sha256 (ows_concatDatas [dataUsedForAuthentication dhPart2, dataUsedForAuthentication hello])"

definition commitPacketWithDefaultSpecs ::
  "(data \<Rightarrow> data) \<Rightarrow> (data \<Rightarrow> data \<Rightarrow> data) \<Rightarrow> data \<Rightarrow> hashChain \<Rightarrow> data \<Rightarrow> helloPacket \<Rightarrow> dhPacket \<Rightarrow> commitPacket result" where
  "commitPacketWithDefaultSpecs sha256 hmac agreementId chain zid hello dhPart2 =
     commitPacketWithHashChainH2 hmac (h2 chain) zid COMMIT_DEFAULT_HASH_SPEC_ID
       COMMIT_DEFAULT_CIPHER_SPEC_ID COMMIT_DEFAULT_AUTH_SPEC_ID agreementId COMMIT_DEFAULT_SAS_SPEC_ID
       (commitment sha256 (dh_embedding dhPart2) (hello_embedding hello)) (h1 chain)"

definition verifyCommitment :: "(data \<Rightarrow> data) \<Rightarrow> commitPacket \<Rightarrow> helloPacket \<Rightarrow> dhPacket \<Rightarrow> unit result" where
  "verifyCommitment sha256 p hello dhPart2 =
     (let expected = commitment sha256 (dh_embedding dhPart2) (hello_embedding hello)
      in checkOperation (isEqualToData_TimingSafe (commit_dhPart2HelloCommitment p) expected) (Inr ()))"

definition commit_verifyMac :: "(data \<Rightarrow> data) \<Rightarrow> (data \<Rightarrow> data \<Rightarrow> data) \<Rightarrow> commitPacket \<Rightarrow> data \<Rightarrow> unit result" where
  "commit_verifyMac sha256 hmac p hashChainH1 =
     checkOperation (isEqualToData_TimingSafe (sha256 hashChainH1) (commit_h2 p))
       (bindR (withHmacVerifiedAndRemoved hmac (commit_embedding p) hashChainH1) (\<lambda>_. Inr ()))"

definition commitPacketParsedFromHandshakePacket :: "handshakePacket \<Rightarrow> commitPacket result" where
  "commitPacketParsedFromHandshakePacket h =
     checkOperation (hp_typeId h = HANDSHAKE_TYPE_COMMIT)
     (let payload = hp_payload h
      in checkOperation (length payload = 64 + 32 + 8)
     (bindR (subdataWithRange payload 0 32) (\<lambda>hashChainH2.
      bindR (bindR (subdataWithRange payload 32 12) zidWithData) (\<lambda>zid.
      bindR (subdataWithRange payload 44 4) (\<lambda>hashSpecId.
      bindR (subdataWithRange payload 48 4) (\<lambda>cipherSpecId.
      bindR (subdataWithRange payload 52 4) (\<lambda>authSpecId.
      bindR (subdataWithRange payload 56 4) (\<lambda>agreeSpecId.
      bindR (subdataWithRange payload 60 4) (\<lambda>sasSpecId.
      bindR (subdataWithRange payload 64 32) (\<lambda>dhPart2HelloCommitment.
        Inr \<lparr>commit_h2 = hashChainH2, commit_hashSpecId = hashSpecId, commit_cipherSpecId = cipherSpecId,
          commit_authSpecId = authSpecId, commit_agreementSpecId = agreeSpecId,
          commit_sasSpecId = sasSpecId, commit_zid = zid,
          commit_dhPart2HelloCommitment = dhPart2HelloCommitment, commit_embedding = h\<rparr>))))))))))"

subsection \<open>Confirm packets\<close>

text \<open>A packet built locally leaves \<open>confirmMac\<close> nil.\<close>

record confirmPacket =
  confirm_confirmMac :: "data option"
  confirm_iv :: data
  confirm_hashChainH0 :: data
  confirm_unusedAndSignatureLengthAndFlags :: u32
  confirm_cacheExperationInterval :: u32
  confirm_isPart1 :: bool
  confirm_embedding :: handshakePacket

definition confirm_generateEmbedding ::
  "(data \<Rightarrow> data \<Rightarrow> data) \<Rightarrow> (data \<Rightarrow> data \<Rightarrow> data \<Rightarrow> data) \<Rightarrow> data \<Rightarrow> u32 \<Rightarrow> u32 \<Rightarrow> data \<Rightarrow> data \<Rightarrow> data \<Rightarrow> bool
   \<Rightarrow> handshakePacket result" where
  "confirm_generateEmbedding hmac aesEncrypt hashChainH0 unused interval macKey cipherKey iv isPart1 =
     (let sensitiveData = ows_concatDatas [hashChainH0, dataWithBigEndianBytesOfUInt32 unused,
            dataWithBigEndianBytesOfUInt32 interval];
          encrypted = aesEncrypt cipherKey iv sensitiveData
      in bindR (take_data (hmac macKey encrypted) 8) (\<lambda>mac.
           let typeId = (if isPart1 then HANDSHAKE_TYPE_CONFIRM_1 else HANDSHAKE_TYPE_CONFIRM_2)
           in handshakePacketWithTypeId typeId (ows_concatDatas [mac, iv, encrypted])))"

definition confirmPacketWithHashChainH0 ::
  "(data \<Rightarrow> data \<Rightarrow> data) \<Rightarrow> (data \<Rightarrow> data \<Rightarrow> data \<Rightarrow> data) \<Rightarrow> data \<Rightarrow> u32 \<Rightarrow> u32 \<Rightarrow> data \<Rightarrow> data \<Rightarrow> data \<Rightarrow> bool
   \<Rightarrow> confirmPacket result" where
  "confirmPacketWithHashChainH0 hmac aesEncrypt hashChainH0 unused interval macKey cipherKey iv isPart1 =
     ows_require (length iv = 16) (ows_require (length hashChainH0 = 32)
       (bindR (confirm_generateEmbedding hmac aesEncrypt hashChainH0 unused interval macKey cipherKey iv isPart1)
         (\<lambda>embedding. Inr \<lparr>confirm_confirmMac = None, confirm_iv = iv, confirm_hashChainH0 = hashChainH0,
            confirm_unusedAndSignatureLengthAndFlags = unused, confirm_cacheExperationInterval = interval,
            confirm_isPart1 = isPart1, confirm_embedding = embedding\<rparr>)))"

definition confirm1PacketWithHashChain ::
  "(data \<Rightarrow> data \<Rightarrow> data) \<Rightarrow> (data \<Rightarrow> data \<Rightarrow> data \<Rightarrow> data) \<Rightarrow> hashChain \<Rightarrow> data \<Rightarrow> data \<Rightarrow> data \<Rightarrow> confirmPacket result" where
  "confirm1PacketWithHashChain hmac aesEncrypt chain macKey cipherKey iv =
     confirmPacketWithHashChainH0 hmac aesEncrypt (h0 chain) 0 0xFFFFFFFF macKey cipherKey iv True"

definition confirm2PacketWithHashChain ::
  "(data \<Rightarrow> data \<Rightarrow> data) \<Rightarrow> (data \<Rightarrow> data \<Rightarrow> data \<Rightarrow> data) \<Rightarrow> hashChain \<Rightarrow> data \<Rightarrow> data \<Rightarrow> data \<Rightarrow> confirmPacket result" where
  "confirm2PacketWithHashChain hmac aesEncrypt chain macKey cipherKey iv =
     confirmPacketWithHashChainH0 hmac aesEncrypt (h0 chain) 0 0xFFFFFFFF macKey cipherKey iv False"

definition getDecryptedDataFromPayload ::
  "(data \<Rightarrow> data \<Rightarrow> data) \<Rightarrow> (data \<Rightarrow> data \<Rightarrow> data \<Rightarrow> data) \<Rightarrow> data \<Rightarrow> data \<Rightarrow> data \<Rightarrow> data result" where
  "getDecryptedDataFromPayload hmac aesDecrypt payload macKey cipherKey =
     bindR (subdataVolatileWithRange payload 8 16) (\<lambda>iv.
     bindR (skipVolatile payload (8 + 16)) (\<lambda>encrypted.
     bindR (take_data payload 8) (\<lambda>includedHmac.
     bindR (take_data (hmac macKey encrypted) 8) (\<lambda>expectedHmac.
       checkOperation (isEqualToData_TimingSafe includedHmac expectedHmac)
         (Inr (aesDecrypt cipherKey iv encrypted))))))"

definition confirmPacketParsedFromHandshakePacket ::
  "(data \<Rightarrow> data \<Rightarrow> data) \<Rightarrow> (data \<Rightarrow> data \<Rightarrow> data \<Rightarrow> data) \<Rightarrow> handshakePacket \<Rightarrow> data \<Rightarrow> data \<Rightarrow> bool
   \<Rightarrow> confirmPacket result" where
  "confirmPacketParsedFromHandshakePacket hmac aesDecrypt h macKey cipherKey isPart1 =
     (let expectedTypeId = (if isPart1 then HANDSHAKE_TYPE_CONFIRM_1 else HANDSHAKE_TYPE_CONFIRM_2);
          payload = hp_payload h
      in checkOperation (hp_typeId h = expectedTypeId)
        (checkOperation (length payload = 8 + 16 + 32 + 4 + 4)
        (bindR (getDecryptedDataFromPayload hmac aesDecrypt payload macKey cipherKey) (\<lambda>decryptedData.
         bindR (take_data decryptedData 32) (\<lambda>hashChainH0.
         bindR (bigEndianUInt32At decryptedData 32) (\<lambda>unused.
         bindR (bigEndianUInt32At decryptedData (32 + 4)) (\<lambda>interval.
         bindR (take_data payload 8) (\<lambda>includedHmac.
         bindR (subdataVolatileWithRange payload 8 16) (\<lambda>iv.
           Inr \<lparr>confirm_confirmMac = Some includedHmac, confirm_iv = iv, confirm_hashChainH0 = hashChainH0,
             confirm_unusedAndSignatureLengthAndFlags = unused, confirm_cacheExperationInterval = interval,
             confirm_isPart1 = isPart1, confirm_embedding = h\<rparr>)))))))))"

subsection \<open>Properties\<close>

text \<open>A DHPart packet that the constructor accepts parses back from its embedding with the same
  hash image, shared secret hashes and public key, for either part; the part number is not
  restored, it is always read as part 2.\<close>

theorem dh_packet_roundtrip:
  assumes "dhPacketWithHashChainH0 sha256 hmac hash0 ssh key isPart1 = Inr p"
    and "\<forall>k d. 8 \<le> length (hmac k d)"
    and "dhPacketSharedSecretHashesWith (dh_rs1 ssh) (dh_rs2 ssh) (dh_aux ssh) (dh_pbx ssh) = Inr ssh"
  shows "dhPacketFromHandshakePacket (dh_embedding p) isPart1 = Inr (p\<lparr>dh_isPart1 := False\<rparr>)"
  using assms
  by (auto simp: dhPacketWithHashChainH0_def dh_embedIntoHandshakePacket_def Let_def
      handshakePacketWithTypeId_def withHmacAppended_eq dhPacketFromHandshakePacket_def
      getSharedSecretHashesFromPayload_def getPublicKeyDataFromPayload_def subdata_simps
      subdataWithRange_def dhPacketSharedSecretHashesWith_def)

text \<open>A Commit packet that the constructor accepts, for a 12-byte identity and a 32-byte
  commitment, parses back from its embedding unchanged.\<close>

theorem commit_packet_roundtrip:
  assumes "commitPacketWithHashChainH2 hmac hash2 zid hashId cipherId authId agreeId sasId c key = Inr p"
    and "\<forall>k d. 8 \<le> length (hmac k d)" and "length zid = 12" and "length c = 32"
  shows "commitPacketParsedFromHandshakePacket (commit_embedding p) = Inr p"
  using assms
  by (auto simp: commitPacketWithHashChainH2_def commit_embedInHandshakePacket_def Let_def
      handshakePacketWithTypeId_def withHmacAppended_eq commitPacketParsedFromHandshakePacket_def
      subdataWithRange_def zidWithData_def)

text \<open>A Confirm packet that the constructor accepts parses back under the same keys with the
  same contents and with the authentication code it was sent with, provided AES decryption
  inverts encryption and keeps the length.\<close>

theorem confirm_packet_roundtrip:
  assumes "confirmPacketWithHashChainH0 hmac aesEncrypt hash0 unused interval macKey cipherKey iv isPart1 = Inr p"
    and "\<forall>k d. 8 \<le> length (hmac k d)"
    and "\<forall>k v d. length (aesEncrypt k v d) = length d \<and> aesDecrypt k v (aesEncrypt k v d) = d"
  shows "confirmPacketParsedFromHandshakePacket hmac aesDecrypt (confirm_embedding p) macKey cipherKey isPart1 =
    Inr (p\<lparr>confirm_confirmMac := Some (take 8 (hp_payload (confirm_embedding p)))\<rparr>)"
proof -
  let ?s = "hash0 @ dataWithBigEndianBytesOfUInt32 unused @ dataWithBigEndianBytesOfUInt32 interval"
  have l: "length iv = 16" "length hash0 = 32"
    using assms(1) by (auto simp: confirmPacketWithHashChainH0_def)
  have u: "bigEndianUInt32At ?s 32 = Inr unused" "bigEndianUInt32At ?s 36 = Inr interval"
    using l(2) bigEndianUInt32At_append [of 36 "hash0 @ dataWithBigEndianBytesOfUInt32 unused" interval "[]"]
    by simp_all
  show ?thesis
    using assms l u
    by (auto simp: confirmPacketWithHashChainH0_def confirm_generateEmbedding_def Let_def
        handshakePacketWithTypeId_def confirmPacketParsedFromHandshakePacket_def
        getDecryptedDataFromPayload_def subdata_simps volatile_eq subdataVolatileWithRange_def guards
        split: if_splits)
qed


subsection \<open>The properties at concrete packets\<close>

definition exampleSha256 :: "data \<Rightarrow> data" where
  "exampleSha256 d = take 32 (d @ replicate 32 1)"

definition exampleSecrets :: dhPacketSharedSecretHashes where
  "exampleSecrets = \<lparr>dh_rs1 = replicate 8 1, dh_rs2 = replicate 8 2, dh_aux = replicate 8 3, dh_pbx = replicate 8 4\<rparr>"

definition exampleDh :: dhPacket where
  "exampleDh = projr (dhPacketWithHashChainH0 exampleSha256 hello_exampleMac (replicate 32 9) exampleSecrets [1, 2, 3] True)"

lemma exampleDh_eq:
  "dhPacketWithHashChainH0 exampleSha256 hello_exampleMac (replicate 32 9) exampleSecrets [1, 2, 3] True = Inr exampleDh"
  by (simp add: exampleDh_def dhPacketWithHashChainH0_def dh_embedIntoHandshakePacket_def Let_def
      handshakePacketWithTypeId_def withHmacAppended_eq hello_exampleMac_def exampleSha256_def exampleSecrets_def)

theorem dh_packet_roundtrip_witness:
  "dhPacketFromHandshakePacket (dh_embedding exampleDh) True = Inr (exampleDh\<lparr>dh_isPart1 := False\<rparr>)"
  by (rule dh_packet_roundtrip [OF exampleDh_eq])
    (simp_all add: hello_exampleMac_def exampleSecrets_def dhPacketSharedSecretHashesWith_def)

definition exampleCommit :: commitPacket where
  "exampleCommit = projr (commitPacketWithHashChainH2 hello_exampleMac (replicate 32 1) (replicate 12 2)
     [1, 1, 1, 1] [2, 2, 2, 2] [3, 3, 3, 3] [4, 4, 4, 4] [5, 5, 5, 5] (replicate 32 6) [7])"

lemma exampleCommit_eq:
  "commitPacketWithHashChainH2 hello_exampleMac (replicate 32 1) (replicate 12 2)
     [1, 1, 1, 1] [2, 2, 2, 2] [3, 3, 3, 3] [4, 4, 4, 4] [5, 5, 5, 5] (replicate 32 6) [7] = Inr exampleCommit"
  by (simp add: exampleCommit_def commitPacketWithHashChainH2_def commit_embedInHandshakePacket_def Let_def
      handshakePacketWithTypeId_def withHmacAppended_eq hello_exampleMac_def)

theorem commit_packet_roundtrip_witness:
  "commitPacketParsedFromHandshakePacket (commit_embedding exampleCommit) = Inr exampleCommit"
  by (rule commit_packet_roundtrip [OF exampleCommit_eq]) (simp_all add: hello_exampleMac_def)

definition exampleConfirm :: confirmPacket where
  "exampleConfirm = projr (confirmPacketWithHashChainH0 hello_exampleMac (\<lambda>k v. rev) (replicate 32 1) 2 3 [4] [5]
     (replicate 16 6) True)"

lemma exampleConfirm_eq:
  "confirmPacketWithHashChainH0 hello_exampleMac (\<lambda>k v. rev) (replicate 32 1) 2 3 [4] [5]
     (replicate 16 6) True = Inr exampleConfirm"
  by (simp add: exampleConfirm_def confirmPacketWithHashChainH0_def confirm_generateEmbedding_def Let_def
      handshakePacketWithTypeId_def hello_exampleMac_def subdata_simps)

theorem confirm_packet_roundtrip_witness:
  "confirmPacketParsedFromHandshakePacket hello_exampleMac (\<lambda>k v. rev) (confirm_embedding exampleConfirm) [4] [5] True =
   Inr (exampleConfirm\<lparr>confirm_confirmMac := Some (take 8 (hp_payload (confirm_embedding exampleConfirm)))\<rparr>)"
  by (rule confirm_packet_roundtrip [OF exampleConfirm_eq]) (simp_all add: hello_exampleMac_def)


end
