(* ===== verification/SasWords.thy ===== *)
theory SasWords
  imports DataUtil
begin

text \<open>
  The short authentication string
  (\<open>Signal/src/network/rtp/zrtp/ShortAuthenticationStringGenerator.m\<close>): the two PGP word lists and
  the words that the first two bytes select.
\<close>

definition PGP_LIST_EVEN :: "string list" where
  "PGP_LIST_EVEN = [
    ''aardvark'', ''absurd'', ''accrue'', ''acme'', ''adrift'', ''adult'', ''afflict'', ''ahead'',
    ''aimless'', ''Algol'', ''allow'', ''alone'', ''ammo'', ''ancient'', ''apple'', ''artist'',
    ''assume'', ''Athens'', ''atlas'', ''Aztec'', ''baboon'', ''backfield'', ''backward'', ''banjo'',
    ''beaming'', ''bedlamp'', ''beehive'', ''beeswax'', ''befriend'', ''Belfast'', ''berserk'', ''billiard'',
    ''bison'', ''blackjack'', ''blockade'', ''blowtorch'', ''bluebird'', ''bombast'', ''bookshelf'', ''brackish'',
    ''breadline'', ''breakup'', ''brickyard'', ''briefcase'', ''Burbank'', ''button'', ''buzzard'', ''cement'',
    ''chairlift'', ''chatter'', ''checkup'', ''chisel'', ''choking'', ''chopper'', ''Christmas'', ''clamshell'',
    ''classic'', ''classroom'', ''cleanup'', ''clockwork'', ''cobra'', ''commence'', ''concert'', ''cowbell'',
    ''crackdown'', ''cranky'', ''crowfoot'', ''crucial'', ''crumpled'', ''crusade'', ''cubic'', ''dashboard'',
    ''deadbolt'', ''deckhand'', ''dogsled'', ''dragnet'', ''drainage'', ''dreadful'', ''drifter'', ''dropper'',
    ''drumbeat'', ''drunken'', ''Dupont'', ''dwelling'', ''eating'', ''edict'', ''egghead'', ''eightball'',
    ''endorse'', ''endow'', ''enlist'', ''erase'', ''escape'', ''exceed'', ''eyeglass'', ''eyetooth'',
    ''facial'', ''fallout'', ''flagpole'', ''flatfoot'', ''flytrap'', ''fracture'', ''framework'', ''freedom'',
    ''frighten'', ''gazelle'', ''Geiger'', ''glitter'', ''glucose'', ''goggles'', ''goldfish'', ''gremlin'',
    ''guidance'', ''hamlet'', ''highchair'', ''hockey'', ''indoors'', ''indulge'', ''inverse'', ''involve'',
    ''island'', ''jawbone'', ''keyboard'', ''kickoff'', ''kiwi'', ''klaxon'', ''locale'', ''lockup'',
    ''merit'', ''minnow'', ''miser'', ''Mohawk'', ''mural'', ''music'', ''necklace'', ''Neptune'',
    ''newborn'', ''nightbird'', ''Oakland'', ''obtuse'', ''offload'', ''optic'', ''orca'', ''payday'',
    ''peachy'', ''pheasant'', ''physique'', ''playhouse'', ''Pluto'', ''preclude'', ''prefer'', ''preshrunk'',
    ''printer'', ''prowler'', ''pupil'', ''puppy'', ''python'', ''quadrant'', ''quiver'', ''quota'',
    ''ragtime'', ''ratchet'', ''rebirth'', ''reform'', ''regain'', ''reindeer'', ''rematch'', ''repay'',
    ''retouch'', ''revenge'', ''reward'', ''rhythm'', ''ribcage'', ''ringbolt'', ''robust'', ''rocker'',
    ''ruffled'', ''sailboat'', ''sawdust'', ''scallion'', ''scenic'', ''scorecard'', ''Scotland'', ''seabird'',
    ''select'', ''sentence'', ''shadow'', ''shamrock'', ''showgirl'', ''skullcap'', ''skydive'', ''slingshot'',
    ''slowdown'', ''snapline'', ''snapshot'', ''snowcap'', ''snowslide'', ''solo'', ''southward'', ''soybean'',
    ''spaniel'', ''spearhead'', ''spellbind'', ''spheroid'', ''spigot'', ''spindle'', ''spyglass'', ''stagehand'',
    ''stagnate'', ''stairway'', ''standard'', ''stapler'', ''steamship'', ''sterling'', ''stockman'', ''stopwatch'',
    ''stormy'', ''sugar'', ''surmount'', ''suspense'', ''sweatband'', ''swelter'', ''tactics'', ''talon'',
    ''tapeworm'', ''tempest'', ''tiger'', ''tissue'', ''tonic'', ''topmost'', ''tracker'', ''transit'',
    ''trauma'', ''treadmill'', ''Trojan'', ''trouble'', ''tumor'', ''tunnel'', ''tycoon'', ''uncut'',
    ''unearth'', ''unwind'', ''uproot'', ''upset'', ''upshot'', ''vapor'', ''village'', ''virus'',
    ''Vulcan'', ''waffle'', ''wallet'', ''watchword'', ''wayside'', ''willow'', ''woodlark'', ''Zulu'']"

definition PGP_LIST_ODD :: "string list" where
  "PGP_LIST_ODD = [
    ''adroitness'', ''adviser'', ''aftermath'', ''aggregate'', ''alkali'', ''almighty'', ''amulet'', ''amusement'',
    ''antenna'', ''applicant'', ''Apollo'', ''armistice'', ''article'', ''asteroid'', ''Atlantic'', ''atmosphere'',
    ''autopsy'', ''Babylon'', ''backwater'', ''barbecue'', ''belowground'', ''bifocals'', ''bodyguard'', ''bookseller'',
    ''borderline'', ''bottomless'', ''Bradbury'', ''bravado'', ''Brazilian'', ''breakaway'', ''Burlington'', ''businessman'',
    ''butterfat'', ''Camelot'', ''candidate'', ''cannonball'', ''Capricorn'', ''caravan'', ''caretaker'', ''celebrate'',
    ''cellulose'', ''certify'', ''chambermaid'', ''Cherokee'', ''Chicago'', ''clergyman'', ''coherence'', ''combustion'',
    ''commando'', ''company'', ''component'', ''concurrent'', ''confidence'', ''conformist'', ''congregate'', ''consensus'',
    ''consulting'', ''corporate'', ''corrosion'', ''councilman'', ''crossover'', ''crucifix'', ''cumbersome'', ''customer'',
    ''Dakota'', ''decadence'', ''December'', ''decimal'', ''designing'', ''detector'', ''detergent'', ''determine'',
    ''dictator'', ''dinosaur'', ''direction'', ''disable'', ''disbelief'', ''disruptive'', ''distortion'', ''document'',
    ''embezzle'', ''enchanting'', ''enrollment'', ''enterprise'', ''equation'', ''equipment'', ''escapade'', ''Eskimo'',
    ''everyday'', ''examine'', ''existence'', ''exodus'', ''fascinate'', ''filament'', ''finicky'', ''forever'',
    ''fortitude'', ''frequency'', ''gadgetry'', ''Galveston'', ''getaway'', ''glossary'', ''gossamer'', ''graduate'',
    ''gravity'', ''guitarist'', ''hamburger'', ''Hamilton'', ''handiwork'', ''hazardous'', ''headwaters'', ''hemisphere'',
    ''hesitate'', ''hideaway'', ''holiness'', ''hurricane'', ''hydraulic'', ''impartial'', ''impetus'', ''inception'',
    ''indigo'', ''inertia'', ''infancy'', ''inferno'', ''informant'', ''insincere'', ''insurgent'', ''integrate'',
    ''intention'', ''inventive'', ''Istanbul'', ''Jamaica'', ''Jupiter'', ''leprosy'', ''letterhead'', ''liberty'',
    ''maritime'', ''matchmaker'', ''maverick'', ''Medusa'', ''megaton'', ''microscope'', ''microwave'', ''midsummer'',
    ''millionaire'', ''miracle'', ''misnomer'', ''molasses'', ''molecule'', ''Montana'', ''monument'', ''mosquito'',
    ''narrative'', ''nebula'', ''newsletter'', ''Norwegian'', ''October'', ''Ohio'', ''onlooker'', ''opulent'',
    ''Orlando'', ''outfielder'', ''Pacific'', ''pandemic'', ''Pandora'', ''paperweight'', ''paragon'', ''paragraph'',
    ''paramount'', ''passenger'', ''pedigree'', ''Pegasus'', ''penetrate'', ''perceptive'', ''performance'', ''pharmacy'',
    ''phonetic'', ''photograph'', ''pioneer'', ''pocketful'', ''politeness'', ''positive'', ''potato'', ''processor'',
    ''provincial'', ''proximate'', ''puberty'', ''publisher'', ''pyramid'', ''quantity'', ''racketeer'', ''rebellion'',
    ''recipe'', ''recover'', ''repellent'', ''replica'', ''reproduce'', ''resistor'', ''responsive'', ''retraction'',
    ''retrieval'', ''retrospect'', ''revenue'', ''revival'', ''revolver'', ''sandalwood'', ''sardonic'', ''Saturday'',
    ''savagery'', ''scavenger'', ''sensation'', ''sociable'', ''souvenir'', ''specialist'', ''speculate'', ''stethoscope'',
    ''stupendous'', ''supportive'', ''surrender'', ''suspicious'', ''sympathy'', ''tambourine'', ''telephone'', ''therapist'',
    ''tobacco'', ''tolerance'', ''tomorrow'', ''torpedo'', ''tradition'', ''travesty'', ''trombonist'', ''truncated'',
    ''typewriter'', ''ultimate'', ''undaunted'', ''underfoot'', ''unicorn'', ''unify'', ''universe'', ''unravel'',
    ''upcoming'', ''vacancy'', ''vagabond'', ''vertigo'', ''Virginia'', ''visitor'', ''vocalist'', ''voyager'',
    ''warranty'', ''Waterloo'', ''whimsical'', ''Wichita'', ''Wilmington'', ''Wyoming'', ''yesteryear'', ''Yucatan'']"

definition sas_generateFromData :: "data \<Rightarrow> string result" where
  "sas_generateFromData sasBytes =
     ows_require (length sasBytes \<ge> 2)
       (bindR (uint8At sasBytes 0) (\<lambda>wordIndexOne.
        bindR (uint8At sasBytes 1) (\<lambda>wordIndexTwo.
          Inr (PGP_LIST_EVEN ! unat wordIndexOne @ '' '' @ PGP_LIST_ODD ! unat wordIndexTwo))))"

subsection \<open>The words of each list are distinct\<close>

text \<open>
  Both lists are in alphabetical order, case aside and but for one swap in the odd list, so
  distinctness needs only the comparison of neighbours.
\<close>

fun letter :: "char \<Rightarrow> bool list" where
  "letter (Char b0 b1 b2 b3 b4 b5 b6 b7) = [b4, b3, b2, b1, b0]"

fun lex_less :: "bool list \<Rightarrow> bool list \<Rightarrow> bool" where
  "lex_less xs [] = False"
| "lex_less [] (y # ys) = True"
| "lex_less (x # xs) (y # ys) = (if x = y then lex_less xs ys else y)"

fun ascending :: "bool list list \<Rightarrow> bool" where
  "ascending (x # y # zs) = (if lex_less x y then ascending (y # zs) else False)"
| "ascending _ = True"

lemma lex_less_trans: "lex_less xs ys \<Longrightarrow> lex_less ys zs \<Longrightarrow> lex_less xs zs"
proof (induction xs ys arbitrary: zs rule: lex_less.induct)
  case (2 y ys)
  then show ?case by (cases zs) auto
next
  case (3 x xs y ys)
  then show ?case by (cases zs) (auto split: if_splits)
qed simp

lemma lex_less_irrefl: "\<not> lex_less xs xs"
  by (induction xs) auto

lemma ascending_less: "ascending (x # xs) \<Longrightarrow> y \<in> set xs \<Longrightarrow> lex_less x y"
proof (induction xs arbitrary: x)
  case (Cons z zs)
  then show ?case by (auto dest: lex_less_trans split: if_splits)
qed simp

lemma ascending_tl: "ascending (x # xs) \<Longrightarrow> ascending xs"
  by (cases xs) (auto split: if_splits)

lemma ascending_distinct: "ascending xs \<Longrightarrow> distinct xs"
proof (induction xs)
  case (Cons x xs)
  then show ?case using ascending_less [of x xs x] lex_less_irrefl [of x] ascending_tl [of x xs] by auto
qed simp

lemma length_PGP: "length PGP_LIST_EVEN = 256" "length PGP_LIST_ODD = 256"
  by (simp_all add: PGP_LIST_EVEN_def PGP_LIST_ODD_def)

definition letters :: "string \<Rightarrow> bool list" where
  "letters s = concat (map letter s)"

lemma ascending_PGP_EVEN: "ascending (map letters PGP_LIST_EVEN)"
  by code_simp

lemma ascending_PGP_ODD:
  "ascending (map letters ((PGP_LIST_ODD[9 := PGP_LIST_ODD ! 10])[10 := PGP_LIST_ODD ! 9]))"
  by code_simp


lemma distinct_PGP: "distinct PGP_LIST_EVEN" "distinct PGP_LIST_ODD"
proof -
  show "distinct PGP_LIST_EVEN"
    using ascending_distinct [OF ascending_PGP_EVEN] by (simp add: distinct_map)
  have "distinct ((PGP_LIST_ODD[9 := PGP_LIST_ODD ! 10])[10 := PGP_LIST_ODD ! 9])"
    using ascending_distinct [OF ascending_PGP_ODD] unfolding distinct_map by blast
  then show "distinct PGP_LIST_ODD" by (simp add: length_PGP)
qed

lemma no_space_PGP: "list_all (\<lambda>w. CHR '' '' \<notin> set w) PGP_LIST_EVEN"
  by code_simp

lemma words_eq:
  assumes "CHR '' '' \<notin> set a" and "CHR '' '' \<notin> set b"
  shows "a @ CHR '' '' # x = b @ CHR '' '' # y \<longleftrightarrow> a = b \<and> x = y"
  using assms
proof (induction a arbitrary: b)
  case Nil
  then show ?case by (cases b) auto
next
  case (Cons c a)
  then show ?case by (cases b) auto
qed

text \<open>C39: Two short authentication strings are equal exactly when the first two bytes of the data
  they come from are, so the spoken words lose nothing of the sixteen bits they stand for; with
  fewer than two bytes there is no string.\<close>

theorem sas_faithful:
  assumes "2 \<le> length d" and "2 \<le> length e"
  shows "sas_generateFromData d = sas_generateFromData e \<longleftrightarrow> take 2 d = take 2 e"
proof -
  obtain d0 d1 ds where d: "d = d0 # d1 # ds" using assms(1) by (cases d; cases "tl d") auto
  obtain e0 e1 es where e: "e = e0 # e1 # es" using assms(2) by (cases e; cases "tl e") auto
  have "CHR '' '' \<notin> set (PGP_LIST_EVEN ! unat b)" for b :: byte
    using no_space_PGP length_PGP by (simp add: list_all_length)
  then show ?thesis
    using distinct_PGP length_PGP
    by (simp add: sas_generateFromData_def uint8At_def d e words_eq nth_eq_iff_index_eq
        word_unat_eq_iff)
qed

theorem sas_faithful_witness:
  "(sas_generateFromData [0, 1, 7, 7] = sas_generateFromData [0, 1, 8, 8]) \<and>
   (sas_generateFromData [0, 1, 7, 7] \<noteq> sas_generateFromData [0, 2, 7, 7])"
  using sas_faithful [of "[0, 1, 7, 7]" "[0, 1, 8, 8]"] sas_faithful [of "[0, 1, 7, 7]" "[0, 2, 7, 7]"]
  by simp

end
