(* ===== verification/MasterSecret.thy ===== *)
theory MasterSecret
  imports ZrtpPackets SasWords
begin

text \<open>
  Key derivation of the ZRTP handshake (\<open>Signal/src/network/rtp/zrtp/MasterSecret.m\<close>): the hash of
  the exchanged packets, the shared secret, and the keys, salts and short authentication string
  derived from them with HMAC-SHA256 under distinct labels.
\<close>

text \<open>The labels are ASCII, where UTF-8 is one byte per character.\<close>

definition encodedAsUtf8 :: "string \<Rightarrow> data" where
  "encodedAsUtf8 s = map of_char s"

record masterSecret =
  ms_totalHash :: data
  ms_counter :: data
  ms_sharedSecret :: data
  ms_shortAuthenticationStringData :: data
  ms_initiatorZid :: data
  ms_responderZid :: data
  ms_initiatorSrtpKey :: data
  ms_responderSrtpKey :: data
  ms_initiatorSrtpSalt :: data
  ms_responderSrtpSalt :: data
  ms_initiatorMacKey :: data
  ms_responderMacKey :: data
  ms_initiatorZrtpKey :: data
  ms_responderZrtpKey :: data

definition calculateSharedSecret :: "(data \<Rightarrow> data) \<Rightarrow> data \<Rightarrow> data \<Rightarrow> data \<Rightarrow> data \<Rightarrow> data" where
  "calculateSharedSecret sha256 dhResult totalHash initiatorZid responderZid =
     sha256 (ows_concatDatas [dataWithBigEndianBytesOfUInt32 1, dhResult, encodedAsUtf8 ''ZRTP-HMAC-KDF'',
       initiatorZid, responderZid, totalHash, dataWithBigEndianBytesOfUInt32 0,
       dataWithBigEndianBytesOfUInt32 0, dataWithBigEndianBytesOfUInt32 0])"

definition calculateTotalHash ::
  "(data \<Rightarrow> data) \<Rightarrow> helloPacket \<Rightarrow> commitPacket \<Rightarrow> dhPacket \<Rightarrow> dhPacket \<Rightarrow> data" where
  "calculateTotalHash sha256 responderHello commit dhPart1 dhPart2 =
     sha256 (ows_concatDatas [dataUsedForAuthentication (hello_embedding responderHello),
       dataUsedForAuthentication (commit_embedding commit),
       dataUsedForAuthentication (dh_embedding dhPart1),
       dataUsedForAuthentication (dh_embedding dhPart2)])"

definition deriveKeyWithLabel ::
  "(data \<Rightarrow> data \<Rightarrow> data) \<Rightarrow> data \<Rightarrow> data \<Rightarrow> data \<Rightarrow> data \<Rightarrow> data \<Rightarrow> string \<Rightarrow> u16 \<Rightarrow> data result" where
  "deriveKeyWithLabel hmac counter sharedSecret totalHash initiatorZid responderZid label truncatedLength =
     (let input = ows_concatDatas [counter, encodedAsUtf8 label, ows_toUint8Data [0], initiatorZid,
            responderZid, totalHash, dataWithBigEndianBytesOfUInt32 (ucast truncatedLength)]
      in take_data (hmac sharedSecret input) (unat truncatedLength))"

definition masterSecretFromSharedSecret ::
  "(data \<Rightarrow> data \<Rightarrow> data) \<Rightarrow> data \<Rightarrow> data \<Rightarrow> data \<Rightarrow> data \<Rightarrow> masterSecret result" where
  "masterSecretFromSharedSecret hmac sharedSecret totalHash initiatorZid responderZid =
     (let counter = dataWithBigEndianBytesOfUInt32 1;
          derive = deriveKeyWithLabel hmac counter sharedSecret totalHash initiatorZid responderZid
      in bindR (derive ''Initiator SRTP master key'' 16) (\<lambda>initiatorSrtpKey.
         bindR (derive ''Responder SRTP master key'' 16) (\<lambda>responderSrtpKey.
         bindR (derive ''Initiator SRTP master salt'' 14) (\<lambda>initiatorSrtpSalt.
         bindR (derive ''Responder SRTP master salt'' 14) (\<lambda>responderSrtpSalt.
         bindR (derive ''Initiator HMAC key'' 20) (\<lambda>initiatorMacKey.
         bindR (derive ''Responder HMAC key'' 20) (\<lambda>responderMacKey.
         bindR (derive ''Initiator ZRTP key'' 16) (\<lambda>initiatorZrtpKey.
         bindR (derive ''Responder ZRTP key'' 16) (\<lambda>responderZrtpKey.
         bindR (derive ''SAS'' 4) (\<lambda>sas.
           Inr \<lparr>ms_totalHash = totalHash, ms_counter = counter, ms_sharedSecret = sharedSecret,
             ms_shortAuthenticationStringData = sas, ms_initiatorZid = initiatorZid,
             ms_responderZid = responderZid, ms_initiatorSrtpKey = initiatorSrtpKey,
             ms_responderSrtpKey = responderSrtpKey, ms_initiatorSrtpSalt = initiatorSrtpSalt,
             ms_responderSrtpSalt = responderSrtpSalt, ms_initiatorMacKey = initiatorMacKey,
             ms_responderMacKey = responderMacKey, ms_initiatorZrtpKey = initiatorZrtpKey,
             ms_responderZrtpKey = responderZrtpKey\<rparr>))))))))))"

definition masterSecretFromDhResult ::
  "(data \<Rightarrow> data) \<Rightarrow> (data \<Rightarrow> data \<Rightarrow> data) \<Rightarrow> data \<Rightarrow> helloPacket \<Rightarrow> helloPacket \<Rightarrow> commitPacket \<Rightarrow> dhPacket \<Rightarrow> dhPacket
   \<Rightarrow> masterSecret result" where
  "masterSecretFromDhResult sha256 hmac dhResult initiatorHello responderHello commit dhPart1 dhPart2 =
     (let totalHash = calculateTotalHash sha256 responderHello commit dhPart1 dhPart2;
          sharedSecret = calculateSharedSecret sha256 dhResult totalHash (hello_zid initiatorHello)
            (hello_zid responderHello)
      in masterSecretFromSharedSecret hmac sharedSecret totalHash (hello_zid initiatorHello)
           (hello_zid responderHello))"

definition shortAuthenticationString :: "masterSecret \<Rightarrow> string result" where
  "shortAuthenticationString s = sas_generateFromData (ms_shortAuthenticationStringData s)"

subsection \<open>Lemmas\<close>

lemma deriveKey_ok:
  assumes "\<forall>k d. 20 \<le> length (hmac k d)" and "unat n \<le> 20"
  shows "\<exists>k. deriveKeyWithLabel hmac c s t zi zr label n = Inr k \<and> length k = unat n"
proof -
  have "unat n \<le> length (hmac k d)" for k d using assms le_trans by blast
  then show ?thesis by (simp add: deriveKeyWithLabel_def Let_def subdata_simps)
qed

text \<open>The lengths that the consumers of the keys rely on.\<close>

definition ms_wf :: "masterSecret \<Rightarrow> bool" where
  "ms_wf s \<longleftrightarrow> length (ms_shortAuthenticationStringData s) = 4 \<and>
     length (ms_initiatorSrtpKey s) = 16 \<and> length (ms_responderSrtpKey s) = 16 \<and>
     length (ms_initiatorSrtpSalt s) = 14 \<and> length (ms_responderSrtpSalt s) = 14 \<and>
     length (ms_initiatorMacKey s) = 20 \<and> length (ms_responderMacKey s) = 20 \<and>
     length (ms_initiatorZrtpKey s) = 16 \<and> length (ms_responderZrtpKey s) = 16"

lemma masterSecret_ok:
  assumes "\<forall>k d. 20 \<le> length (hmac k d)"
  shows "\<exists>s. masterSecretFromSharedSecret hmac secret th zi zr = Inr s \<and> ms_wf s"
proof -
  have "\<exists>k. deriveKeyWithLabel hmac (dataWithBigEndianBytesOfUInt32 1) secret th zi zr label n = Inr k \<and>
      length k = unat n" if "unat n \<le> 20" for label n
    using deriveKey_ok [OF assms that] by blast
  note this [of 16 "''Initiator SRTP master key''"] this [of 16 "''Responder SRTP master key''"]
    this [of 14 "''Initiator SRTP master salt''"] this [of 14 "''Responder SRTP master salt''"]
    this [of 20 "''Initiator HMAC key''"] this [of 20 "''Responder HMAC key''"]
    this [of 16 "''Initiator ZRTP key''"] this [of 16 "''Responder ZRTP key''"] this [of 4 "''SAS''"]
  then show ?thesis
    by (auto simp: masterSecretFromSharedSecret_def Let_def ms_wf_def)
qed

lemma masterSecretFromDhResult_ok:
  "\<forall>k d. 20 \<le> length (hmac k d) \<Longrightarrow>
   \<exists>s. masterSecretFromDhResult sha256 hmac r ih rh c d1 d2 = Inr s \<and> ms_wf s"
  using masterSecret_ok by (simp add: masterSecretFromDhResult_def Let_def)

text \<open>C36: Key derivation always succeeds with an HMAC of at least twenty bytes, gives every key and
  salt the length its user requires, and a short authentication string of two words from the
  word lists.\<close>

theorem master_secret_complete:
  assumes "\<forall>k d. 20 \<le> length (hmac k d)"
  shows "\<exists>s e w. masterSecretFromDhResult sha256 hmac r ih rh c d1 d2 = Inr s \<and> ms_wf s \<and>
    shortAuthenticationString s = Inr (e @ '' '' @ w) \<and> e \<in> set PGP_LIST_EVEN \<and> w \<in> set PGP_LIST_ODD"
proof -
  obtain s where s: "masterSecretFromDhResult sha256 hmac r ih rh c d1 d2 = Inr s" "ms_wf s"
    using masterSecretFromDhResult_ok [OF assms] by blast
  then have "length (ms_shortAuthenticationStringData s) = 4" by (simp add: ms_wf_def)
  then have "shortAuthenticationString s = Inr (PGP_LIST_EVEN ! unat (ms_shortAuthenticationStringData s ! 0) @
      '' '' @ PGP_LIST_ODD ! unat (ms_shortAuthenticationStringData s ! 1))"
    by (simp add: shortAuthenticationString_def sas_generateFromData_def uint8At_def)
  moreover have "PGP_LIST_EVEN ! unat (b :: byte) \<in> set PGP_LIST_EVEN"
      "PGP_LIST_ODD ! unat (b :: byte) \<in> set PGP_LIST_ODD" for b
    by (rule nth_mem, simp add: length_PGP)+
  ultimately show ?thesis using s by blast
qed

theorem master_secret_complete_witness:
  "\<exists>s e w. masterSecretFromDhResult exampleSha256 (\<lambda>k d. replicate 20 3) [1] (hello_example []) (hello_example [])
      exampleCommit exampleDh exampleDh = Inr s \<and> ms_wf s \<and>
    shortAuthenticationString s = Inr (e @ '' '' @ w) \<and> e \<in> set PGP_LIST_EVEN \<and> w \<in> set PGP_LIST_ODD"
  by (rule master_secret_complete) simp

end
