(* ===== verification/CMemory.thy ===== *)
theory CMemory
  imports Prelude
begin

text \<open>
  Vocabulary for the C sources under \<open>Libraries/speex\<close>: arrays are lists, an access outside
  an array is undefined behaviour, and an operation that may commit one returns an option, \<open>None\<close>
  when it does. A theorem that an operation returns \<open>Some\<close> is memory safety.
\<close>

subsection \<open>Array accesses\<close>

definition rd :: "'a list \<Rightarrow> nat \<Rightarrow> 'a option" where
  "rd a i = (if i < length a then Some (a ! i) else None)"

definition wr :: "'a list \<Rightarrow> nat \<Rightarrow> 'a \<Rightarrow> 'a list option" where
  "wr a i x = (if i < length a then Some (a[i := x]) else None)"

text \<open>\<open>memcpy\<close> and \<open>memmove\<close> of \<open>n\<close> elements between arrays or inside one.\<close>

definition blit :: "'a list \<Rightarrow> nat \<Rightarrow> 'a list \<Rightarrow> nat \<Rightarrow> nat \<Rightarrow> 'a list option" where
  "blit src i dst j n =
     (if i + n \<le> length src \<and> j + n \<le> length dst
      then Some (take j dst @ take n (drop i src) @ drop (j + n) dst) else None)"

lemma rd_Some [simp]: "i < length a \<Longrightarrow> rd a i = Some (a ! i)"
  by (simp add: rd_def)

lemma wr_Some [simp]: "i < length a \<Longrightarrow> wr a i x = Some (a[i := x])"
  by (simp add: wr_def)

lemma blit_Some:
  "i + n \<le> length src \<Longrightarrow> j + n \<le> length dst \<Longrightarrow>
   blit src i dst j n = Some (take j dst @ take n (drop i src) @ drop (j + n) dst)"
  by (simp add: blit_def)

lemma length_blit: "blit src i dst j n = Some a \<Longrightarrow> length a = length dst"
  by (auto simp: blit_def split: if_splits)

text \<open>An array of signed chars.\<close>

definition signedChars :: "int list \<Rightarrow> bool" where
  "signedChars t = list_all (\<lambda>x. - 128 \<le> x \<and> x \<le> 127) t"

subsection \<open>Loops over an array\<close>

text \<open>A loop that stores a value at each of the given indices, in order.\<close>

fun forUpd :: "(nat \<Rightarrow> 'a list \<Rightarrow> 'a option) \<Rightarrow> nat list \<Rightarrow> 'a list \<Rightarrow> 'a list option" where
  "forUpd f [] a = Some a"
| "forUpd f (i # is) a = Option.bind (f i a) (\<lambda>x. Option.bind (wr a i x) (forUpd f is))"

text \<open>A loop whose stored value depends on the element it replaces only.\<close>

lemma forUpd_pointwise:
  assumes "\<And>i a. i < length a \<Longrightarrow> i \<in> set is \<Longrightarrow> f i a = g i (a ! i)"
    and "distinct is" and "\<forall>i \<in> set is. i < length a" and "\<forall>i \<in> set is. g i (a ! i) = Some (h i)"
  shows "\<exists>b. forUpd f is a = Some b \<and> length b = length a \<and>
    (\<forall>i < length a. b ! i = (if i \<in> set is then h i else a ! i))"
  using assms
proof (induction "is" arbitrary: a)
  case (Cons i "is")
  let ?a = "a[i := h i]"
  have "f j c = g j (c ! j)" if "j < length c" "j \<in> set is" for j c using Cons.prems(1) that by simp
  moreover have "\<forall>j \<in> set is. g j (?a ! j) = Some (h j)"
  proof
    fix j assume j: "j \<in> set is"
    with Cons.prems(2) have "i \<noteq> j" by auto
    then have "?a ! j = a ! j" by simp
    with j Cons.prems(4) show "g j (?a ! j) = Some (h j)" by simp
  qed
  ultimately obtain b where "forUpd f is ?a = Some b" "length b = length a"
    "\<forall>j < length a. b ! j = (if j \<in> set is then h j else ?a ! j)"
    using Cons.IH [of ?a] Cons.prems(2,3) by auto
  then show ?case using Cons.prems by (auto simp: nth_list_update)
qed simp

subsection \<open>The allocator\<close>

text \<open>
  The system's \<open>realloc\<close> may fail, and the bytes it adds hold whatever the memory held: the
  allocator says which sizes succeed and what new memory contains.
\<close>

record allocator =
  alloc_ok :: "nat \<Rightarrow> bool"
  alloc_fill :: "nat \<Rightarrow> byte"

definition realloc :: "allocator \<Rightarrow> byte list \<Rightarrow> nat \<Rightarrow> byte list option" where
  "realloc al a n =
     (if alloc_ok al n then Some (take n a @ map (alloc_fill al) [length a..<n]) else None)"

lemma realloc_Some:
  "realloc al a n = Some b \<Longrightarrow> length b = n \<and> (\<forall>i < min n (length a). b ! i = a ! i)"
  by (auto simp: realloc_def nth_append split: if_splits)

end
