(* ===== verification/FixedPoint.thy ===== *)
theory FixedPoint
  imports CMemory "HOL-Library.Signed_Division"
begin

text \<open>
  The fixed-point arithmetic of the speech codec (\<open>Libraries/speex/fixed_generic.h\<close>; the build
  defines \<open>FIXED_POINT\<close> and no assembly variant). C ints are HOL integers; \<open>s16\<close> and \<open>s32\<close> are
  the conversions to 16-bit and 32-bit signed integers, and a macro converts where the source
  does. Arithmetic on promoted operands that leaves 32 bits is taken to wrap.
\<close>

definition s16 :: "int \<Rightarrow> int" where "s16 x = signed_take_bit 15 x"
definition s32 :: "int \<Rightarrow> int" where "s32 x = signed_take_bit 31 x"

lemma s16_id: "- 32768 \<le> x \<Longrightarrow> x < 32768 \<Longrightarrow> s16 x = x"
  by (simp add: s16_def signed_take_bit_int_eq_self)

lemma s32_id: "- 2147483648 \<le> x \<Longrightarrow> x < 2147483648 \<Longrightarrow> s32 x = x"
  by (simp add: s32_def signed_take_bit_int_eq_self)

lemma s16_range: "- 32768 \<le> s16 x" "s16 x < 32768"
  using signed_take_bit_int_greater_eq_minus_exp [of 15 x] signed_take_bit_int_less_exp [of 15 x]
  by (simp_all add: s16_def)

lemma s32_range: "- 2147483648 \<le> s32 x" "s32 x < 2147483648"
  using signed_take_bit_int_greater_eq_minus_exp [of 31 x] signed_take_bit_int_less_exp [of 31 x]
  by (simp_all add: s32_def)

lemma s16_s16 [simp]: "s16 (s16 x) = s16 x"
  by (rule s16_id [OF s16_range])

lemma s16_eq_iff: "s16 x = s16 y \<longleftrightarrow> x mod 65536 = y mod 65536"
  by (simp add: s16_def signed_take_bit_eq_iff_take_bit_eq take_bit_eq_mod)

lemma s16_mod [simp]: "s16 x mod 65536 = x mod 65536"
  using s16_eq_iff [of "s16 x" x] by simp

lemma s16_s32 [simp]: "s16 (s32 x) = s16 x"
  by (simp add: s16_def s32_def signed_take_bit_signed_take_bit)

text \<open>Inside sums, differences and products that end in 16 bits the conversions can be dropped.\<close>

lemma s16_cong:
  "s16 (s16 a + b) = s16 (a + b)" "s16 (b + s16 a) = s16 (b + a)"
  "s16 (s16 a - b) = s16 (a - b)" "s16 (b - s16 a) = s16 (b - a)"
  "s16 (s16 a * b) = s16 (a * b)" "s16 (b * s16 a) = s16 (b * a)"
  unfolding s16_eq_iff by (rule mod_add_cong mod_diff_cong mod_mult_cong; simp)+

subsection \<open>Conversions and shifts\<close>

definition EXTRACT16 :: "int \<Rightarrow> int" where "EXTRACT16 x = s16 x"
definition EXTEND32 :: "int \<Rightarrow> int" where "EXTEND32 x = s32 x"
definition NEG32 :: "int \<Rightarrow> int" where "NEG32 x = s32 (- x)"
definition SHR16 :: "int \<Rightarrow> nat \<Rightarrow> int" where "SHR16 a n = drop_bit n a"
definition SHL16 :: "int \<Rightarrow> nat \<Rightarrow> int" where "SHL16 a n = s32 (push_bit n a)"
definition SHR32 :: "int \<Rightarrow> nat \<Rightarrow> int" where "SHR32 a n = drop_bit n a"
definition SHL32 :: "int \<Rightarrow> nat \<Rightarrow> int" where "SHL32 a n = s32 (push_bit n a)"
definition PSHR16 :: "int \<Rightarrow> nat \<Rightarrow> int" where
  "PSHR16 a n = SHR16 (s32 (a + drop_bit 1 (push_bit n 1))) n"
definition PSHR32 :: "int \<Rightarrow> nat \<Rightarrow> int" where
  "PSHR32 a n = SHR32 (s32 (a + drop_bit 1 (push_bit n 1))) n"
definition VSHR32 :: "int \<Rightarrow> int \<Rightarrow> int" where
  "VSHR32 a n = (if n > 0 then SHR32 a (nat n) else SHL32 a (nat (- n)))"
definition SATURATE16 :: "int \<Rightarrow> int \<Rightarrow> int" where
  "SATURATE16 x a = (if x > a then a else if x < - a then - a else x)"
definition SATURATE32 :: "int \<Rightarrow> int \<Rightarrow> int" where
  "SATURATE32 x a = (if x > a then a else if x < - a then - a else x)"
definition SHR :: "int \<Rightarrow> nat \<Rightarrow> int" where "SHR a n = drop_bit n a"
definition SHL :: "int \<Rightarrow> nat \<Rightarrow> int" where "SHL a n = s32 (push_bit n (s32 a))"
definition PSHR :: "int \<Rightarrow> nat \<Rightarrow> int" where
  "PSHR a n = SHR (s32 (a + drop_bit 1 (push_bit n 1))) n"

subsection \<open>Arithmetic\<close>

definition ADD16 :: "int \<Rightarrow> int \<Rightarrow> int" where "ADD16 a b = s16 (s16 a + s16 b)"
definition SUB16 :: "int \<Rightarrow> int \<Rightarrow> int" where "SUB16 a b = s16 a - s16 b"
definition ADD32 :: "int \<Rightarrow> int \<Rightarrow> int" where "ADD32 a b = s32 (s32 a + s32 b)"
definition SUB32 :: "int \<Rightarrow> int \<Rightarrow> int" where "SUB32 a b = s32 (s32 a - s32 b)"
definition MULT16_16_16 :: "int \<Rightarrow> int \<Rightarrow> int" where "MULT16_16_16 a b = s16 a * s16 b"
definition MULT16_16 :: "int \<Rightarrow> int \<Rightarrow> int" where "MULT16_16 a b = s32 (s16 a * s16 b)"
definition MAC16_16 :: "int \<Rightarrow> int \<Rightarrow> int \<Rightarrow> int" where "MAC16_16 c a b = ADD32 c (MULT16_16 a b)"
definition MULT16_32_Q11 :: "int \<Rightarrow> int \<Rightarrow> int" where
  "MULT16_32_Q11 a b = ADD32 (MULT16_16 a (SHR b 11)) (SHR (MULT16_16 a (b AND 0x7FF)) 11)"
definition MULT16_32_Q12 :: "int \<Rightarrow> int \<Rightarrow> int" where
  "MULT16_32_Q12 a b = ADD32 (MULT16_16 a (SHR b 12)) (SHR (MULT16_16 a (b AND 0xFFF)) 12)"
definition MULT16_32_Q13 :: "int \<Rightarrow> int \<Rightarrow> int" where
  "MULT16_32_Q13 a b = ADD32 (MULT16_16 a (SHR b 13)) (SHR (MULT16_16 a (b AND 0x1FFF)) 13)"
definition MULT16_32_Q14 :: "int \<Rightarrow> int \<Rightarrow> int" where
  "MULT16_32_Q14 a b = ADD32 (MULT16_16 a (SHR b 14)) (SHR (MULT16_16 a (b AND 0x3FFF)) 14)"
definition MULT16_32_P15 :: "int \<Rightarrow> int \<Rightarrow> int" where
  "MULT16_32_P15 a b = ADD32 (MULT16_16 a (SHR b 15)) (PSHR (MULT16_16 a (b AND 0x7FFF)) 15)"
definition MULT16_32_Q15 :: "int \<Rightarrow> int \<Rightarrow> int" where
  "MULT16_32_Q15 a b = ADD32 (MULT16_16 a (SHR b 15)) (SHR (MULT16_16 a (b AND 0x7FFF)) 15)"
definition MAC16_32_Q11 :: "int \<Rightarrow> int \<Rightarrow> int \<Rightarrow> int" where
  "MAC16_32_Q11 c a b = ADD32 c (ADD32 (MULT16_16 a (SHR b 11)) (SHR (MULT16_16 a (b AND 0x7FF)) 11))"
definition MAC16_32_Q15 :: "int \<Rightarrow> int \<Rightarrow> int \<Rightarrow> int" where
  "MAC16_32_Q15 c a b = ADD32 c (ADD32 (MULT16_16 a (SHR b 15)) (SHR (MULT16_16 a (b AND 0x7FFF)) 15))"
definition MULT16_16_Q13 :: "int \<Rightarrow> int \<Rightarrow> int" where "MULT16_16_Q13 a b = SHR (MULT16_16 a b) 13"
definition MULT16_16_Q14 :: "int \<Rightarrow> int \<Rightarrow> int" where "MULT16_16_Q14 a b = SHR (MULT16_16 a b) 14"
definition MULT16_16_Q15 :: "int \<Rightarrow> int \<Rightarrow> int" where "MULT16_16_Q15 a b = SHR (MULT16_16 a b) 15"
definition MULT16_16_P13 :: "int \<Rightarrow> int \<Rightarrow> int" where
  "MULT16_16_P13 a b = SHR (ADD32 4096 (MULT16_16 a b)) 13"
definition MULT16_16_P14 :: "int \<Rightarrow> int \<Rightarrow> int" where
  "MULT16_16_P14 a b = SHR (ADD32 8192 (MULT16_16 a b)) 14"
definition MULT16_16_P15 :: "int \<Rightarrow> int \<Rightarrow> int" where
  "MULT16_16_P15 a b = SHR (ADD32 16384 (MULT16_16 a b)) 15"

text \<open>Division truncates towards zero; division by zero is undefined.\<close>

definition DIV32_16 :: "int \<Rightarrow> int \<Rightarrow> int option" where
  "DIV32_16 a b = (if s16 b = 0 then None else Some (s16 (s32 a sdiv s16 b)))"
definition PDIV32_16 :: "int \<Rightarrow> int \<Rightarrow> int option" where
  "PDIV32_16 a b = (if s16 b = 0 then None else Some (s16 ((s32 a + drop_bit 1 (s16 b)) sdiv s16 b)))"
definition DIV32 :: "int \<Rightarrow> int \<Rightarrow> int option" where
  "DIV32 a b = (if s32 b = 0 then None else Some (s32 a sdiv s32 b))"

text \<open>The split of a 32-bit factor loses nothing: the product is the exact one, shifted.\<close>

lemma split_product:
  fixes a b :: int
  shows "a * drop_bit n b + drop_bit n (a * take_bit n b) = drop_bit n (a * b)"
proof -
  have "a * b = a * take_bit n b + (a * (b div 2 ^ n)) * 2 ^ n"
    by (metis (no_types) add.commute distrib_left div_mult_mod_eq mult.assoc take_bit_eq_mod)
  then have "(a * b) div 2 ^ n = a * (b div 2 ^ n) + (a * take_bit n b) div 2 ^ n"
    by simp
  then show ?thesis by (simp add: drop_bit_eq_div)
qed

lemma drop_bit_bounds:
  fixes x :: int
  assumes "- (2 ^ (n + k)) \<le> x" and "x < 2 ^ (n + k)"
  shows "- (2 ^ k) \<le> drop_bit n x" "drop_bit n x < 2 ^ k"
proof -
  have "- (2 ^ k) * 2 ^ n \<le> x" using assms(1) by (simp add: power_add mult.commute)
  then have "- (2 ^ k) * 2 ^ n div 2 ^ n \<le> x div 2 ^ n" by (rule zdiv_mono1) simp
  then show "- (2 ^ k) \<le> drop_bit n x"
    unfolding drop_bit_eq_div by (subst (asm) nonzero_mult_div_cancel_right) simp_all
  have "0 \<le> x mod 2 ^ n" by simp
  then have "(x div 2 ^ n) * 2 ^ n \<le> x" using div_mult_mod_eq [of x "2 ^ n"] by linarith
  also have "\<dots> < 2 ^ k * 2 ^ n" using assms(2) by (simp add: power_add mult.commute)
  finally show "drop_bit n x < 2 ^ k" unfolding drop_bit_eq_div by (rule mult_right_less_imp_less) simp
qed

lemma product_bounds:
  fixes a b :: int
  assumes "- 32768 \<le> a" "a < 32768" "- c \<le> b" "b < c"
  shows "- (32768 * c) \<le> a * b" "a * b \<le> 32768 * c"
proof -
  have "\<bar>a\<bar> * \<bar>b\<bar> \<le> 32768 * c" using assms by (intro mult_mono) auto
  then have "\<bar>a * b\<bar> \<le> 32768 * c" by (simp add: abs_mult)
  then show "- (32768 * c) \<le> a * b" "a * b \<le> 32768 * c" by linarith+
qed

lemma MULT16_32_exact:
  assumes a: "- 32768 \<le> a" "a < 32768" and n: "n \<le> 15"
    and b: "- (2 ^ (n + 15)) \<le> b" "b < 2 ^ (n + 15)"
  shows "ADD32 (MULT16_16 a (SHR b n)) (SHR (MULT16_16 a (take_bit n b)) n) = drop_bit n (a * b)"
proof -
  let ?h = "drop_bit n b" and ?l = "take_bit n b"
  have h: "- 32768 \<le> ?h" "?h < 32768" using drop_bit_bounds [OF b] by simp_all
  have "(2 :: int) ^ n \<le> 2 ^ 15" using n by (intro power_increasing) auto
  then have l: "0 \<le> ?l" "?l < 32768"
    using order_less_le_trans [OF take_bit_int_less_exp [of n b]] by auto
  have "MULT16_16 a ?h = a * ?h"
    using product_bounds [OF a h] by (simp add: MULT16_16_def s16_id a h s32_id)
  moreover have "MULT16_16 a ?l = a * ?l"
  proof -
    have e: "s16 ?l = ?l" using l by (intro s16_id) linarith+
    have "s32 (a * ?l) = a * ?l" using product_bounds [OF a, of 32768 ?l] l by (intro s32_id) linarith+
    then show ?thesis unfolding MULT16_16_def e s16_id [OF a] .
  qed
  moreover have "- (2 ^ (n + 30)) \<le> a * b" "a * b \<le> 2 ^ (n + 30)"
    using product_bounds [OF a, of "2 ^ (n + 15)" b] b by (simp_all add: power_add)
  then have "- (2 ^ (n + 31)) \<le> a * b" "a * b < 2 ^ (n + 31)"
  proof -
    have "(2 :: int) ^ (n + 30) < 2 ^ (n + 31)" by (rule power_strict_increasing) simp_all
    then show "- (2 ^ (n + 31)) \<le> a * b" "a * b < 2 ^ (n + 31)"
      using \<open>- (2 ^ (n + 30)) \<le> a * b\<close> \<open>a * b \<le> 2 ^ (n + 30)\<close> by linarith+
  qed
  from drop_bit_bounds [OF this] have "s32 (drop_bit n (a * b)) = drop_bit n (a * b)"
    by (intro s32_id) simp_all
  moreover have "s32 (s32 x + s32 y) = s32 (x + y)" for x y
    by (simp add: s32_def signed_take_bit_add)
  ultimately show ?thesis
    by (simp add: ADD32_def SHR_def split_product)
qed

text \<open>The masks of the macros are the low bits.\<close>

lemma masks:
  "b AND 0x7FF = take_bit 11 (b :: int)" "b AND 0xFFF = take_bit 12 b" "b AND 0x1FFF = take_bit 13 b"
  "b AND 0x3FFF = take_bit 14 b" "b AND 0x7FFF = take_bit 15 b"
  by (simp_all add: take_bit_eq_mask mask_eq_exp_minus_1)

text \<open>Multiplying a 16-bit number by a 32-bit fixed-point number through two 16-bit products gives
  the exact product, shifted and rounded down, for each of the five formats, as long as the high
  half of the second factor fits in 16 bits, that is for factors up to two to the power of
  fifteen plus the number of fraction bits.\<close>

theorem fixed_point_products_exact:
  assumes "- 32768 \<le> a" "a < 32768" "- (2 ^ 26) \<le> b" "b < (2 :: int) ^ 26"
  shows "MULT16_32_Q11 a b = (a * b) div 2 ^ 11 \<and> MULT16_32_Q12 a b = (a * b) div 2 ^ 12 \<and>
    MULT16_32_Q13 a b = (a * b) div 2 ^ 13 \<and> MULT16_32_Q14 a b = (a * b) div 2 ^ 14 \<and>
    MULT16_32_Q15 a b = (a * b) div 2 ^ 15"
  using assms MULT16_32_exact [OF assms(1,2), of 11 b] MULT16_32_exact [OF assms(1,2), of 12 b]
    MULT16_32_exact [OF assms(1,2), of 13 b] MULT16_32_exact [OF assms(1,2), of 14 b]
    MULT16_32_exact [OF assms(1,2), of 15 b]
  by (simp add: MULT16_32_Q11_def MULT16_32_Q12_def MULT16_32_Q13_def MULT16_32_Q14_def
      MULT16_32_Q15_def masks drop_bit_eq_div)

theorem fixed_point_products_exact_witness:
  "MULT16_32_Q11 (- 5) 100000 = (- 5 * 100000) div 2 ^ 11 \<and> MULT16_32_Q12 (- 5) 100000 = (- 5 * 100000) div 2 ^ 12 \<and>
    MULT16_32_Q13 (- 5) 100000 = (- 5 * 100000) div 2 ^ 13 \<and> MULT16_32_Q14 (- 5) 100000 = (- 5 * 100000) div 2 ^ 14 \<and>
    MULT16_32_Q15 (- 5) 100000 = (- 5 * 100000) div 2 ^ 15"
  by (rule fixed_point_products_exact) simp_all

end
