(* ===== verification/SpeexBits.thy ===== *)
theory SpeexBits
  imports CMemory
begin

text \<open>
  The bit stream of the speech codec (\<open>Libraries/speex/bits.c\<close>), built with eight bits to the
  char. Bits are written and read most significant first. The counters are C ints that stay
  non-negative and far below the range of an int for a buffer of this size: natural numbers
  here. A \<open>char\<close> is a byte: the sources shift and mask it, and read one bit at a time.
  Operations return \<open>None\<close> where the source would access memory outside the buffer.
\<close>

record speexBits =
  sb_chars :: "byte list"
  sb_nbBits :: nat
  sb_charPtr :: nat
  sb_bitPtr :: nat
  sb_owner :: bool
  sb_overflow :: bool
  sb_bufSize :: nat

subsection \<open>Setting up\<close>

definition speex_bits_reset :: "speexBits \<Rightarrow> speexBits option" where
  "speex_bits_reset b =
     Option.bind (wr (sb_chars b) 0 0) (\<lambda>chars.
       Some (b\<lparr>sb_chars := chars, sb_nbBits := 0, sb_charPtr := 0, sb_bitPtr := 0, sb_overflow := False\<rparr>))"

text \<open>\<open>None\<close> also when the allocation fails and the structure is left as it was.\<close>

definition speex_bits_init :: "allocator \<Rightarrow> speexBits option" where
  "speex_bits_init al =
     (if alloc_ok al 2000
      then speex_bits_reset \<lparr>sb_chars = replicate 2000 0, sb_nbBits = 0, sb_charPtr = 0, sb_bitPtr = 0,
             sb_owner = True, sb_overflow = False, sb_bufSize = 2000\<rparr>
      else None)"

definition speex_bits_init_buffer :: "byte list \<Rightarrow> nat \<Rightarrow> speexBits option" where
  "speex_bits_init_buffer buff buf_size =
     speex_bits_reset \<lparr>sb_chars = buff, sb_nbBits = 0, sb_charPtr = 0, sb_bitPtr = 0,
       sb_owner = False, sb_overflow = False, sb_bufSize = buf_size\<rparr>"

definition speex_bits_set_bit_buffer :: "byte list \<Rightarrow> nat \<Rightarrow> speexBits" where
  "speex_bits_set_bit_buffer buff buf_size =
     \<lparr>sb_chars = buff, sb_nbBits = buf_size * 8, sb_charPtr = 0, sb_bitPtr = 0,
      sb_owner = False, sb_overflow = False, sb_bufSize = buf_size\<rparr>"

definition speex_bits_rewind :: "speexBits \<Rightarrow> speexBits" where
  "speex_bits_rewind b = b\<lparr>sb_charPtr := 0, sb_bitPtr := 0, sb_overflow := False\<rparr>"

subsection \<open>Reading and writing whole bytes\<close>

text \<open>The resize of \<open>speex_bits_read_from\<close>: the number of chars to copy and the buffer.\<close>

definition readFrom_fit :: "allocator \<Rightarrow> speexBits \<Rightarrow> nat \<Rightarrow> nat \<times> speexBits" where
  "readFrom_fit al b nchars =
     (if nchars > sb_bufSize b then
        (if sb_owner b then
           (case realloc al (sb_chars b) nchars of
              Some tmp \<Rightarrow> (nchars, b\<lparr>sb_bufSize := nchars, sb_chars := tmp\<rparr>)
            | None \<Rightarrow> (sb_bufSize b, b))
         else (sb_bufSize b, b))
      else (nchars, b))"

definition speex_bits_read_from :: "allocator \<Rightarrow> speexBits \<Rightarrow> byte list \<Rightarrow> nat \<Rightarrow> speexBits option" where
  "speex_bits_read_from al b chars len =
     (let (nchars, b) = readFrom_fit al b len
      in Option.bind (blit chars 0 (sb_chars b) 0 nchars) (\<lambda>a.
           Some (b\<lparr>sb_chars := a, sb_nbBits := nchars * 8, sb_charPtr := 0, sb_bitPtr := 0,
                  sb_overflow := False\<rparr>)))"

text \<open>A cursor past the stored chars makes the length of the move negative: undefined.\<close>

definition speex_bits_flush :: "speexBits \<Rightarrow> speexBits option" where
  "speex_bits_flush b =
     (let nchars = (sb_nbBits b + 7) div 8
      in Option.bind (if sb_charPtr b > 0
             then (if sb_charPtr b \<le> nchars
                   then blit (sb_chars b) (sb_charPtr b) (sb_chars b) 0 (nchars - sb_charPtr b) else None)
             else Some (sb_chars b)) (\<lambda>a.
         if sb_charPtr b * 8 \<le> sb_nbBits b
         then Some (b\<lparr>sb_chars := a, sb_nbBits := sb_nbBits b - sb_charPtr b * 8, sb_charPtr := 0\<rparr>)
         else None))"

definition readWhole_fit :: "allocator \<Rightarrow> speexBits \<Rightarrow> nat \<Rightarrow> nat \<times> speexBits" where
  "readWhole_fit al b nchars =
     (if (sb_nbBits b + 7) div 8 + nchars > sb_bufSize b then
        (if sb_owner b then
           (case realloc al (sb_chars b) (sb_nbBits b div 8 + nchars + 1) of
              Some tmp \<Rightarrow> (nchars, b\<lparr>sb_bufSize := sb_nbBits b div 8 + nchars + 1, sb_chars := tmp\<rparr>)
            | None \<Rightarrow> (sb_bufSize b - sb_nbBits b div 8 - 1, b))
         else (sb_bufSize b, b))
      else (nchars, b))"

definition speex_bits_read_whole_bytes :: "allocator \<Rightarrow> speexBits \<Rightarrow> byte list \<Rightarrow> nat \<Rightarrow> speexBits option" where
  "speex_bits_read_whole_bytes al b chars nbytes =
     (let (nchars, b) = readWhole_fit al b nbytes
      in Option.bind (speex_bits_flush b) (\<lambda>b.
         let pos = sb_nbBits b div 8
         in Option.bind (blit chars 0 (sb_chars b) pos nchars) (\<lambda>a.
              Some (b\<lparr>sb_chars := a, sb_nbBits := sb_nbBits b + nchars * 8\<rparr>))))"

subsection \<open>Writing bits\<close>

text \<open>The loop of \<open>speex_bits_pack\<close>: one bit per round, from bit \<open>n - 1\<close> of the data down.\<close>

fun packLoop :: "u32 \<Rightarrow> nat \<Rightarrow> speexBits \<Rightarrow> speexBits option" where
  "packLoop d 0 b = Some b"
| "packLoop d (Suc n) b =
     (let bit1 = drop_bit n d AND 1
      in Option.bind (rd (sb_chars b) (sb_charPtr b)) (\<lambda>c.
         Option.bind (wr (sb_chars b) (sb_charPtr b) (c OR push_bit (7 - sb_bitPtr b) (ucast bit1))) (\<lambda>a.
         if sb_bitPtr b + 1 = 8
         then Option.bind (wr a (sb_charPtr b + 1) 0) (\<lambda>a.
                packLoop d n (b\<lparr>sb_chars := a, sb_bitPtr := 0, sb_charPtr := sb_charPtr b + 1,
                  sb_nbBits := sb_nbBits b + 1\<rparr>))
         else packLoop d n (b\<lparr>sb_chars := a, sb_bitPtr := sb_bitPtr b + 1, sb_nbBits := sb_nbBits b + 1\<rparr>))))"

definition speex_bits_pack :: "allocator \<Rightarrow> speexBits \<Rightarrow> u32 \<Rightarrow> nat \<Rightarrow> speexBits option" where
  "speex_bits_pack al b d nbBits =
     (if sb_charPtr b + (nbBits + sb_bitPtr b) div 8 \<ge> sb_bufSize b then
        (if sb_owner b then
           (let new_nchars = ((sb_bufSize b + 5) * 3) div 2
            in case realloc al (sb_chars b) new_nchars of
                 Some tmp \<Rightarrow> packLoop d nbBits (b\<lparr>sb_bufSize := new_nchars, sb_chars := tmp\<rparr>)
               | None \<Rightarrow> Some b)
         else Some b)
      else packLoop d nbBits b)"

function insertOnes :: "allocator \<Rightarrow> nat \<Rightarrow> speexBits \<Rightarrow> speexBits option" where
  "insertOnes al fuel b =
     (if sb_bitPtr b = 0 then Some b
      else if fuel = 0 then None
      else Option.bind (speex_bits_pack al b 1 1) (insertOnes al (fuel - 1)))"
  by pat_completeness auto
termination by (relation "measure (\<lambda>(al, n, b). n)") auto

declare insertOnes.simps [simp del]

text \<open>
  The loop ends when the cursor reaches a byte boundary, after at most seven rounds when each
  packs its bit; a refused resize would make it spin, which shows as \<open>None\<close>.
\<close>

definition speex_bits_insert_terminator :: "allocator \<Rightarrow> speexBits \<Rightarrow> speexBits option" where
  "speex_bits_insert_terminator al b =
     Option.bind (if sb_bitPtr b \<noteq> 0 then speex_bits_pack al b 0 1 else Some b) (insertOnes al 8)"

definition speex_bits_write :: "allocator \<Rightarrow> speexBits \<Rightarrow> nat \<Rightarrow> (byte list \<times> speexBits) option" where
  "speex_bits_write al b max_nbytes =
     Option.bind (speex_bits_insert_terminator al b) (\<lambda>t.
     let t = t\<lparr>sb_bitPtr := sb_bitPtr b, sb_charPtr := sb_charPtr b, sb_nbBits := sb_nbBits b\<rparr>;
         n = min max_nbytes ((sb_nbBits t + 7) div 8)
     in if n \<le> length (sb_chars t) then Some (take n (sb_chars t), t) else None)"

definition speex_bits_write_whole_bytes :: "speexBits \<Rightarrow> nat \<Rightarrow> (byte list \<times> speexBits) option" where
  "speex_bits_write_whole_bytes b max_nbytes =
     (let n = min max_nbytes (sb_nbBits b div 8)
      in if n \<le> length (sb_chars b)
         then Option.bind (if sb_bitPtr b > 0 then rd (sb_chars b) n else Some 0) (\<lambda>c.
              Option.bind (wr (sb_chars b) 0 c) (\<lambda>a.
                Some (take n (sb_chars b), b\<lparr>sb_chars := a, sb_charPtr := 0, sb_nbBits := sb_nbBits b mod 8\<rparr>)))
         else None)"

subsection \<open>Reading bits\<close>

fun unpackLoop :: "byte list \<Rightarrow> nat \<Rightarrow> nat \<Rightarrow> u32 \<Rightarrow> nat \<Rightarrow> (u32 \<times> nat \<times> nat) option" where
  "unpackLoop chars charPtr bitPtr d 0 = Some (d, charPtr, bitPtr)"
| "unpackLoop chars charPtr bitPtr d (Suc n) =
     Option.bind (rd chars charPtr) (\<lambda>c.
       let d = push_bit 1 d OR ucast (drop_bit (7 - bitPtr) c AND 1)
       in if bitPtr + 1 = 8 then unpackLoop chars (charPtr + 1) 0 d n
          else unpackLoop chars charPtr (bitPtr + 1) d n)"

definition speex_bits_unpack_unsigned :: "speexBits \<Rightarrow> nat \<Rightarrow> (u32 \<times> speexBits) option" where
  "speex_bits_unpack_unsigned b nbBits =
     (let b = (if sb_charPtr b * 8 + sb_bitPtr b + nbBits > sb_nbBits b then b\<lparr>sb_overflow := True\<rparr> else b)
      in if sb_overflow b then Some (0, b)
         else Option.bind (unpackLoop (sb_chars b) (sb_charPtr b) (sb_bitPtr b) 0 nbBits) (\<lambda>(d, c, k).
              Some (d, b\<lparr>sb_charPtr := c, sb_bitPtr := k\<rparr>)))"

text \<open>For a width from 1 to 32, as all callers use; the result is read as a signed int.\<close>

definition speex_bits_unpack_signed :: "speexBits \<Rightarrow> nat \<Rightarrow> (int \<times> speexBits) option" where
  "speex_bits_unpack_signed b nbBits =
     Option.bind (speex_bits_unpack_unsigned b nbBits) (\<lambda>(d, b).
       let d = (if drop_bit (nbBits - 1) d \<noteq> 0 then d OR push_bit nbBits (-1) else d)
       in Some (sint d, b))"

definition speex_bits_peek_unsigned :: "speexBits \<Rightarrow> nat \<Rightarrow> (u32 \<times> speexBits) option" where
  "speex_bits_peek_unsigned b nbBits =
     (let b = (if sb_charPtr b * 8 + sb_bitPtr b + nbBits > sb_nbBits b then b\<lparr>sb_overflow := True\<rparr> else b)
      in if sb_overflow b then Some (0, b)
         else Option.bind (unpackLoop (sb_chars b) (sb_charPtr b) (sb_bitPtr b) 0 nbBits) (\<lambda>(d, _). Some (d, b)))"

definition speex_bits_peek :: "speexBits \<Rightarrow> (byte \<times> speexBits) option" where
  "speex_bits_peek b =
     (let b = (if sb_charPtr b * 8 + sb_bitPtr b + 1 > sb_nbBits b then b\<lparr>sb_overflow := True\<rparr> else b)
      in if sb_overflow b then Some (0, b)
         else Option.bind (rd (sb_chars b) (sb_charPtr b)) (\<lambda>c. Some (drop_bit (7 - sb_bitPtr b) c AND 1, b)))"

text \<open>The distance may be negative; a move to before the first bit of the buffer has no result.\<close>

definition speex_bits_advance :: "speexBits \<Rightarrow> int \<Rightarrow> speexBits option" where
  "speex_bits_advance b n =
     (if int (sb_charPtr b * 8 + sb_bitPtr b) + n > int (sb_nbBits b) \<or> sb_overflow b then Some (b\<lparr>sb_overflow := True\<rparr>)
      else
        (let c = int (sb_charPtr b) + (int (sb_bitPtr b) + n) div 8
         in if c < 0 then None
            else Some (b\<lparr>sb_charPtr := nat c, sb_bitPtr := nat ((int (sb_bitPtr b) + n) mod 8)\<rparr>)))"

definition speex_bits_remaining :: "speexBits \<Rightarrow> int" where
  "speex_bits_remaining b =
     (if sb_overflow b then -1 else int (sb_nbBits b) - int (sb_charPtr b * 8 + sb_bitPtr b))"

definition speex_bits_nbytes :: "speexBits \<Rightarrow> nat" where
  "speex_bits_nbytes b = (sb_nbBits b + 7) div 8"

subsection \<open>The stream of bits\<close>

definition sbit :: "byte list \<Rightarrow> nat \<Rightarrow> bool" where
  "sbit chars k = bit (chars ! (k div 8)) (7 - k mod 8)"

definition sb_stream :: "speexBits \<Rightarrow> bool list" where
  "sb_stream b = map (sbit (sb_chars b)) [0..<sb_nbBits b]"

text \<open>The bits of a value of the given width, most significant first.\<close>

definition valueBits :: "nat \<Rightarrow> u32 \<Rightarrow> bool list" where
  "valueBits n d = map (\<lambda>k. bit d (n - 1 - k)) [0..<n]"

text \<open>
  A stream that is being written: the cursor stands at its end, inside the buffer, and the bits
  of the char under it that are not written yet are zero.
\<close>

definition sb_writing :: "speexBits \<Rightarrow> bool" where
  "sb_writing b \<longleftrightarrow> sb_bufSize b \<le> length (sb_chars b) \<and> sb_charPtr b < sb_bufSize b \<and> sb_bitPtr b < 8 \<and>
     sb_nbBits b = 8 * sb_charPtr b + sb_bitPtr b \<and>
     (\<forall>j. sb_bitPtr b \<le> j \<and> j < 8 \<longrightarrow> \<not> bit (sb_chars b ! sb_charPtr b) (7 - j))"

text \<open>One round of the packing loop.\<close>

definition packBit :: "bool \<Rightarrow> speexBits \<Rightarrow> speexBits" where
  "packBit x b =
     (let c = sb_chars b ! sb_charPtr b;
          a = (sb_chars b)[sb_charPtr b := c OR push_bit (7 - sb_bitPtr b) (of_bool x)]
      in if sb_bitPtr b + 1 = 8
         then b\<lparr>sb_chars := a[sb_charPtr b + 1 := 0], sb_bitPtr := 0, sb_charPtr := sb_charPtr b + 1,
                sb_nbBits := sb_nbBits b + 1\<rparr>
         else b\<lparr>sb_chars := a, sb_bitPtr := sb_bitPtr b + 1, sb_nbBits := sb_nbBits b + 1\<rparr>)"

lemma bit1_of_bool: "ucast (drop_bit n (d :: u32) AND 1) = (of_bool (bit d n) :: byte)"
  by (simp add: and_one_eq bit_iff_odd_drop_bit odd_iff_mod_2_eq_one)

lemma packLoop_step:
  assumes "sb_writing b" and "sb_charPtr b + (1 + sb_bitPtr b) div 8 < sb_bufSize b"
  shows "packLoop d (Suc n) b = packLoop d n (packBit (bit d n) b)"
  using assms by (auto simp: packBit_def Let_def bit1_of_bool sb_writing_def)

lemma packBit_writing:
  assumes w: "sb_writing b" and "sb_charPtr b + (1 + sb_bitPtr b) div 8 < sb_bufSize b"
  shows "sb_writing (packBit x b)"
proof (cases "sb_bitPtr b + 1 = 8")
  case True
  with assms show ?thesis by (auto simp: packBit_def Let_def sb_writing_def)
next
  case False
  with assms show ?thesis
    by (auto simp: packBit_def Let_def sb_writing_def bit_simps)
qed

lemma packBit_stream:
  assumes w: "sb_writing b" and "sb_charPtr b + (1 + sb_bitPtr b) div 8 < sb_bufSize b"
  shows "sb_stream (packBit x b) = sb_stream b @ [x]"
proof -
  let ?p = "sb_charPtr b" and ?k = "sb_bitPtr b" and ?a = "sb_chars b"
  let ?c = "?a ! ?p OR push_bit (7 - ?k) (of_bool x)"
  have k: "?k < 8" "?p < length ?a" and n: "sb_nbBits b = 8 * ?p + ?k"
    and z: "\<not> bit (?a ! ?p) (7 - ?k)" using w by (auto simp: sb_writing_def)
  have chars: "sb_chars (packBit x b) ! i = (if i = ?p then ?c else ?a ! i)" if "i \<le> ?p" for i
    using that k by (auto simp: packBit_def Let_def nth_list_update)
  have nb: "sb_nbBits (packBit x b) = Suc (sb_nbBits b)" by (simp add: packBit_def Let_def)
  have old: "sbit (sb_chars (packBit x b)) i = sbit ?a i" if "i < sb_nbBits b" for i
  proof (cases "i div 8 = ?p")
    case True
    with that n have "i mod 8 < ?k" by presburger
    with True k show ?thesis by (auto simp: sbit_def chars bit_simps bit_1_iff)
  next
    case False
    with that n k have "i div 8 < ?p" by presburger
    then show ?thesis by (simp add: sbit_def chars)
  qed
  have "sb_nbBits b div 8 = ?p" "sb_nbBits b mod 8 = ?k" using n k by simp_all
  then have "sbit (sb_chars (packBit x b)) (sb_nbBits b) = x"
    using k z by (auto simp: sbit_def chars bit_simps)
  then show ?thesis using old by (simp add: sb_stream_def nb)
qed

lemma packBit_frame [simp]:
  "sb_bufSize (packBit x b) = sb_bufSize b" "sb_owner (packBit x b) = sb_owner b"
  "length (sb_chars (packBit x b)) = length (sb_chars b)" "sb_overflow (packBit x b) = sb_overflow b"
  by (simp_all add: packBit_def Let_def)

lemma packBit_pos:
  "sb_bitPtr b < 8 \<Longrightarrow> 8 * sb_charPtr (packBit x b) + sb_bitPtr (packBit x b) = 8 * sb_charPtr b + sb_bitPtr b + 1"
  by (auto simp: packBit_def Let_def)

lemma valueBits_Suc: "valueBits (Suc n) d = bit d n # valueBits n d"
proof -
  have "[0..<Suc n] = 0 # map Suc [0..<n]" by (simp add: upt_conv_Cons map_Suc_upt del: upt_Suc)
  then show ?thesis by (simp add: valueBits_def comp_def del: upt_Suc)
qed

lemma packLoop_ok:
  assumes "sb_writing b" and "sb_charPtr b + (n + sb_bitPtr b) div 8 < sb_bufSize b"
  shows "\<exists>b'. packLoop d n b = Some b' \<and> sb_writing b' \<and> sb_stream b' = sb_stream b @ valueBits n d \<and>
    sb_bufSize b' = sb_bufSize b \<and> sb_owner b' = sb_owner b"
  using assms
proof (induction n arbitrary: b)
  case 0
  then show ?case by (simp add: valueBits_def)
next
  case (Suc n)
  let ?b = "packBit (bit d n) b"
  have k: "sb_bitPtr b < 8" using Suc.prems by (simp add: sb_writing_def)
  have room: "sb_charPtr b + (1 + sb_bitPtr b) div 8 < sb_bufSize b"
    using Suc.prems(2) div_le_mono [of "1 + sb_bitPtr b" "Suc n + sb_bitPtr b" 8] by simp
  have w: "sb_writing ?b" by (rule packBit_writing [OF Suc.prems(1) room])
  have "(8 * sb_charPtr ?b + (n + sb_bitPtr ?b)) div 8 = (8 * sb_charPtr b + (Suc n + sb_bitPtr b)) div 8"
    using packBit_pos [OF k, of "bit d n"] by (simp add: algebra_simps)
  then have "sb_charPtr ?b + (n + sb_bitPtr ?b) div 8 < sb_bufSize ?b"
    using Suc.prems(2) by simp
  from Suc.IH [OF w this] packLoop_step [OF Suc.prems(1) room, of d n] packBit_stream [OF Suc.prems(1) room]
  show ?case by (simp add: valueBits_Suc del: packLoop.simps)
qed

text \<open>A pack either appends the bits of the value or, when a resize is refused, changes nothing.\<close>

lemma realloc_writing:
  assumes "sb_writing b" and "realloc al (sb_chars b) n = Some tmp" and "sb_bufSize b \<le> n"
  shows "sb_writing (b\<lparr>sb_bufSize := n, sb_chars := tmp\<rparr>)"
    and "sb_stream (b\<lparr>sb_bufSize := n, sb_chars := tmp\<rparr>) = sb_stream b"
proof -
  have t: "length tmp = n" "\<And>i. i < n \<Longrightarrow> i < length (sb_chars b) \<Longrightarrow> tmp ! i = sb_chars b ! i"
    using realloc_Some [OF assms(2)] by auto
  have p: "sb_charPtr b < n" "sb_charPtr b < length (sb_chars b)"
    using assms(1,3) by (auto simp: sb_writing_def)
  show "sb_writing (b\<lparr>sb_bufSize := n, sb_chars := tmp\<rparr>)"
    using assms(1) t p by (simp add: sb_writing_def)
  have "tmp ! (i div 8) = sb_chars b ! (i div 8)" if "i < sb_nbBits b" for i
  proof -
    have "i div 8 \<le> sb_charPtr b" using that assms(1) by (simp add: sb_writing_def) linarith
    with p t show ?thesis by simp
  qed
  then show "sb_stream (b\<lparr>sb_bufSize := n, sb_chars := tmp\<rparr>) = sb_stream b"
    by (simp add: sb_stream_def sbit_def)
qed

lemma pack_ok:
  assumes w: "sb_writing b" and n: "n \<le> 32"
  shows "\<exists>b'. speex_bits_pack al b d n = Some b' \<and> sb_writing b' \<and> sb_owner b' = sb_owner b \<and>
    (sb_stream b' = sb_stream b @ valueBits n d \<or> sb_stream b' = sb_stream b)"
    and "sb_owner b \<Longrightarrow> alloc_ok al = (\<lambda>_. True) \<Longrightarrow>
      \<exists>b'. speex_bits_pack al b d n = Some b' \<and> sb_writing b' \<and> sb_owner b' \<and>
        sb_stream b' = sb_stream b @ valueBits n d"
proof -
  let ?N = "((sb_bufSize b + 5) * 3) div 2"
  have grown: "\<exists>b'. packLoop d n (b\<lparr>sb_bufSize := ?N, sb_chars := tmp\<rparr>) = Some b' \<and> sb_writing b' \<and>
      sb_stream b' = sb_stream b @ valueBits n d \<and> sb_owner b' = sb_owner b"
    if r: "realloc al (sb_chars b) ?N = Some tmp" for tmp
  proof -
    have "sb_charPtr b < sb_bufSize b" "(n + sb_bitPtr b) div 8 \<le> 4"
      using w n by (auto simp: sb_writing_def)
    then have "sb_charPtr b + (n + sb_bitPtr b) div 8 < ?N" by simp
    moreover have "sb_bufSize b \<le> ?N" by simp
    ultimately show ?thesis
      using packLoop_ok [OF realloc_writing(1) [OF w r], of n d] realloc_writing(2) [OF w r] by auto
  qed
  show "\<exists>b'. speex_bits_pack al b d n = Some b' \<and> sb_writing b' \<and> sb_owner b' = sb_owner b \<and>
    (sb_stream b' = sb_stream b @ valueBits n d \<or> sb_stream b' = sb_stream b)"
    using grown w packLoop_ok [OF w, of n d]
    by (cases "realloc al (sb_chars b) ?N") (auto simp: speex_bits_pack_def Let_def)
  show "\<exists>b'. speex_bits_pack al b d n = Some b' \<and> sb_writing b' \<and> sb_owner b' \<and>
        sb_stream b' = sb_stream b @ valueBits n d"
    if "sb_owner b" "alloc_ok al = (\<lambda>_. True)"
    using grown w packLoop_ok [OF w, of n d] that
    by (auto simp: speex_bits_pack_def Let_def realloc_def)
qed

subsection \<open>Reading back\<close>

definition shiftIn :: "u32 \<Rightarrow> bool \<Rightarrow> u32" where
  "shiftIn d x = push_bit 1 d OR of_bool x"

definition bitsValue :: "u32 \<Rightarrow> bool list \<Rightarrow> u32" where
  "bitsValue d bs = foldl shiftIn d bs"

lemma unpack_bit: "ucast (drop_bit k (c :: byte) AND 1) = (of_bool (bit c k) :: u32)"
  by (simp add: and_one_eq bit_iff_odd_drop_bit odd_iff_mod_2_eq_one)

lemma unpackLoop_step:
  assumes "k < 8" and "p < length chars"
  shows "unpackLoop chars p k d (Suc n) =
    (if k + 1 = 8 then unpackLoop chars (p + 1) 0 (shiftIn d (sbit chars (8 * p + k))) n
     else unpackLoop chars p (k + 1) (shiftIn d (sbit chars (8 * p + k))) n)"
proof -
  have i: "sbit chars (8 * p + k) = bit (chars ! p) (7 - k)" using assms(1) by (simp add: sbit_def)
  show ?thesis
    by (simp only: unpackLoop.simps rd_Some [OF assms(2)] Option.bind.simps unpack_bit i Let_def shiftIn_def)
qed

lemma unpackLoop_ok:
  assumes "k < 8" and "8 * p + k + n \<le> 8 * length chars"
  shows "unpackLoop chars p k d n =
    Some (bitsValue d (map (sbit chars) [8 * p + k..<8 * p + k + n]), (8 * p + k + n) div 8, (8 * p + k + n) mod 8)"
  using assms
proof (induction n arbitrary: p k d)
  case 0
  then show ?case by (simp add: bitsValue_def)
next
  case (Suc n)
  have upt: "[8 * p + k..<Suc (8 * p + k) + n] = (8 * p + k) # [Suc (8 * p + k)..<Suc (8 * p + k) + n]"
    by (simp add: upt_conv_Cons del: upt_Suc)
  have p: "p < length chars" using Suc.prems(2) by linarith
  note step = unpackLoop_step [OF Suc.prems(1) p, of d n]
  have s: "8 * p + k + Suc n = Suc (8 * p + k) + n" by simp
  let ?d = "shiftIn d (sbit chars (8 * p + k))"
  show ?case
  proof (cases "k + 1 = 8")
    case True
    then have e: "8 * (p + 1) + 0 = Suc (8 * p + k)" by simp
    have "unpackLoop chars (p + 1) 0 ?d n = Some (bitsValue ?d (map (sbit chars)
        [Suc (8 * p + k)..<Suc (8 * p + k) + n]), (Suc (8 * p + k) + n) div 8, (Suc (8 * p + k) + n) mod 8)"
      unfolding e [symmetric] by (rule Suc.IH) (use Suc.prems True in simp_all)
    with True show ?thesis unfolding step s upt bitsValue_def list.map foldl_Cons by (simp only: if_True refl)
  next
    case False
    have e: "8 * p + (k + 1) = Suc (8 * p + k)" by simp
    have "unpackLoop chars p (k + 1) ?d n = Some (bitsValue ?d (map (sbit chars)
        [Suc (8 * p + k)..<Suc (8 * p + k) + n]), (Suc (8 * p + k) + n) div 8, (Suc (8 * p + k) + n) mod 8)"
      unfolding e [symmetric] by (rule Suc.IH) (use Suc.prems False in simp_all)
    with False show ?thesis unfolding step s upt bitsValue_def list.map foldl_Cons by (simp only: if_False)
  qed
qed

lemma bit_shiftIn: "bit (shiftIn d x) j = (if j = 0 then x else j < 32 \<and> bit d (j - 1))"
  unfolding shiftIn_def bit_or_iff bit_push_bit_iff by (cases j) (auto simp: bit_simps)

lemma bit_bitsValue:
  "bit (bitsValue d bs) j = (j < 32 \<and> (if j < length bs then bs ! (length bs - 1 - j) else bit d (j - length bs)))"
proof (induction bs arbitrary: d j rule: rev_induct)
  case Nil
  then show ?case by (auto simp: bitsValue_def dest: bit_imp_le_length)
next
  case (snoc x bs)
  have "bitsValue d (bs @ [x]) = shiftIn (bitsValue d bs) x" by (simp add: bitsValue_def)
  then show ?case by (cases j) (auto simp: bit_shiftIn snoc nth_append)
qed

lemma bitsValue_valueBits: "n \<le> 32 \<Longrightarrow> bitsValue 0 (valueBits n d) = take_bit n d"
  by (rule word_eq_bitI) (auto simp: bit_bitsValue valueBits_def bit_simps)

text \<open>The position of the cursor, in bits.\<close>

definition sb_pos :: "speexBits \<Rightarrow> nat" where
  "sb_pos b = 8 * sb_charPtr b + sb_bitPtr b"

text \<open>
  A stream that can be read: every bit that is counted lies in the buffer, and so does the char
  under the cursor while bits remain. The buffer is at least as long as the stream takes it to be,
  and the cursor has not passed the end unnoticed.
\<close>

definition sb_readable :: "speexBits \<Rightarrow> bool" where
  "sb_readable b \<longleftrightarrow> sb_nbBits b \<le> 8 * length (sb_chars b) \<and> sb_bitPtr b < 8 \<and> sb_bufSize b \<le> length (sb_chars b) \<and>
     (sb_overflow b \<or> sb_pos b \<le> sb_nbBits b)"

lemma unpack_fits:
  assumes "sb_readable b" and "\<not> sb_overflow b" and "sb_pos b + n \<le> sb_nbBits b"
  shows "\<exists>b'. speex_bits_unpack_unsigned b n = Some (bitsValue 0 (take n (drop (sb_pos b) (sb_stream b))), b') \<and>
    sb_pos b' = sb_pos b + n \<and> sb_bitPtr b' < 8 \<and> sb_chars b' = sb_chars b \<and> sb_nbBits b' = sb_nbBits b \<and> \<not> sb_overflow b' \<and>
    sb_bufSize b' = sb_bufSize b"
proof -
  have "sb_bitPtr b < 8" "8 * sb_charPtr b + sb_bitPtr b + n \<le> 8 * length (sb_chars b)"
    using assms by (auto simp: sb_readable_def sb_pos_def)
  note u = unpackLoop_ok [OF this, of 0]
  have "take n (drop (sb_pos b) (sb_stream b)) = map (sbit (sb_chars b)) [sb_pos b..<sb_pos b + n]"
    using assms(3) by (simp add: sb_stream_def drop_map take_map)
  with u assms show ?thesis
    by (simp add: speex_bits_unpack_unsigned_def Let_def sb_pos_def mult.commute)
qed

lemma bitsValue_less:
  assumes "length bs \<le> n" and "n \<le> 31"
  shows "unat (bitsValue 0 bs) < 2 ^ n"
proof -
  have "take_bit n (bitsValue 0 bs) = bitsValue 0 bs"
    by (rule word_eq_bitI) (use assms in \<open>auto simp: bit_bitsValue bit_simps\<close>)
  then have "take_bit n (unat (bitsValue 0 bs)) = unat (bitsValue 0 bs)"
    by (metis unsigned_take_bit_eq)
  then show ?thesis using take_bit_nat_less_exp [of n "unat (bitsValue 0 bs)"] by simp
qed

lemma unpack_readable:
  assumes "sb_readable b"
  shows "\<exists>d b'. speex_bits_unpack_unsigned b n = Some (d, b') \<and> sb_readable b' \<and> (n \<le> 31 \<longrightarrow> unat d < 2 ^ n)"
proof (cases "sb_overflow b \<or> sb_nbBits b < sb_pos b + n")
  case True
  with assms show ?thesis
    by (auto simp: speex_bits_unpack_unsigned_def Let_def sb_pos_def sb_readable_def mult.commute)
next
  case False
  then show ?thesis using unpack_fits [OF assms, of n] assms bitsValue_less [of "take n (drop (sb_pos b) (sb_stream b))" n]
    by (auto simp: sb_readable_def)
qed

text \<open>Sequences of packs and unpacks.\<close>

fun packAll :: "allocator \<Rightarrow> speexBits \<Rightarrow> (u32 \<times> nat) list \<Rightarrow> speexBits option" where
  "packAll al b [] = Some b"
| "packAll al b ((v, n) # vs) = Option.bind (speex_bits_pack al b v n) (\<lambda>b. packAll al b vs)"

fun unpackAll :: "speexBits \<Rightarrow> nat list \<Rightarrow> (u32 list \<times> speexBits) option" where
  "unpackAll b [] = Some ([], b)"
| "unpackAll b (n # ns) = Option.bind (speex_bits_unpack_unsigned b n) (\<lambda>(v, b).
     Option.bind (unpackAll b ns) (\<lambda>(vs, b). Some (v # vs, b)))"

lemma packAll_ok:
  assumes "sb_writing b" and "sb_owner b" and "alloc_ok al = (\<lambda>_. True)" and "\<forall>(v, n) \<in> set vs. n \<le> 32"
  shows "\<exists>b'. packAll al b vs = Some b' \<and> sb_writing b' \<and>
    sb_stream b' = sb_stream b @ concat (map (\<lambda>(v, n). valueBits n v) vs)"
  using assms
proof (induction vs arbitrary: b)
  case (Cons x vs)
  obtain v n where x: "x = (v, n)" by force
  with Cons.prems obtain b1 where b1: "speex_bits_pack al b v n = Some b1" "sb_writing b1" "sb_owner b1"
    "sb_stream b1 = sb_stream b @ valueBits n v"
    using pack_ok(2) [of b n al v] by auto
  from Cons.IH [OF b1(2,3)] Cons.prems b1 x show ?case by auto
qed simp

lemma length_valueBits [simp]: "length (valueBits n v) = n"
  by (simp add: valueBits_def)

text \<open>A reader that has the bits \<open>bs\<close> before it.\<close>

definition sb_at :: "speexBits \<Rightarrow> bool list \<Rightarrow> bool" where
  "sb_at b bs \<longleftrightarrow> sb_readable b \<and> \<not> sb_overflow b \<and> sb_pos b \<le> sb_nbBits b \<and> drop (sb_pos b) (sb_stream b) = bs"

lemma unpack_at:
  assumes "sb_at b (valueBits n v @ bs)" and "n \<le> 32"
  shows "\<exists>b'. speex_bits_unpack_unsigned b n = Some (take_bit n v, b') \<and> sb_at b' bs"
proof -
  note at = assms(1) [unfolded sb_at_def]
  then have d: "drop (sb_pos b) (sb_stream b) = valueBits n v @ bs" by simp
  then have "length (drop (sb_pos b) (sb_stream b)) = n + length bs" by simp
  moreover have "sb_pos b \<le> sb_nbBits b" using at by blast
  ultimately have len: "sb_pos b + n \<le> sb_nbBits b" by (simp add: sb_stream_def)
  obtain b' where b': "speex_bits_unpack_unsigned b n = Some (take_bit n v, b')"
    "sb_pos b' = sb_pos b + n" "sb_bitPtr b' < 8" "sb_chars b' = sb_chars b" "sb_nbBits b' = sb_nbBits b"
    "\<not> sb_overflow b'" "sb_bufSize b' = sb_bufSize b"
    using unpack_fits [OF _ _ len] at d bitsValue_valueBits [of n v] assms(2) by auto
  have "drop (sb_pos b') (sb_stream b') = drop n (drop (sb_pos b) (sb_stream b))"
    using b' by (simp add: sb_stream_def add.commute)
  with b' at len d show ?thesis by (simp add: sb_at_def sb_readable_def)
qed

lemma unpackAll_ok:
  "sb_at b (concat (map (\<lambda>(v, n). valueBits n v) vs) @ rest) \<Longrightarrow> \<forall>(v, n) \<in> set vs. n \<le> 32 \<Longrightarrow>
   \<exists>b'. unpackAll b (map snd vs) = Some (map (\<lambda>(v, n). take_bit n v) vs, b')"
proof (induction vs arbitrary: b)
  case (Cons x vs)
  obtain v n where x: "x = (v, n)" by force
  with Cons.prems obtain b' where b': "speex_bits_unpack_unsigned b n = Some (take_bit n v, b')"
    "sb_at b' (concat (map (\<lambda>(v, n). valueBits n v) vs) @ rest)"
    using unpack_at [of b n v "concat (map (\<lambda>(v, n). valueBits n v) vs) @ rest"] by auto
  from Cons.IH [OF b'(2)] Cons.prems(2) b'(1) x show ?case by auto
qed simp

text \<open>A written stream that is rewound can be read from its start.\<close>

lemma rewind_at: "sb_writing b \<Longrightarrow> sb_at (speex_bits_rewind b) (sb_stream b)"
  by (auto simp: sb_at_def speex_bits_rewind_def sb_readable_def sb_pos_def sb_writing_def sb_stream_def)

lemma init_writing:
  assumes "alloc_ok al 2000"
  shows "\<exists>b. speex_bits_init al = Some b \<and> sb_writing b \<and> sb_owner b \<and> sb_stream b = []"
  using assms by (simp add: speex_bits_init_def speex_bits_reset_def sb_writing_def sb_stream_def)

subsection \<open>Properties\<close>

text \<open>C24: Whatever values of at most 32 bits an encoder packs into a fresh stream, with an allocator
  that grants its requests, reading the stream from its start with the same widths gives back the
  low bits of every value, through every resize of the buffer and with no access outside it.\<close>

theorem speex_bits_roundtrip:
  assumes "alloc_ok al = (\<lambda>_. True)" and "\<forall>(v, n) \<in> set vs. n \<le> 32"
  shows "\<exists>b. Option.bind (speex_bits_init al) (\<lambda>b. packAll al b vs) = Some b \<and>
    map_option fst (unpackAll (speex_bits_rewind b) (map snd vs)) = Some (map (\<lambda>(v, n). take_bit n v) vs)"
proof -
  obtain b0 where b0: "speex_bits_init al = Some b0" "sb_writing b0" "sb_owner b0" "sb_stream b0 = []"
    using init_writing [of al] assms(1) by auto
  obtain b where b: "packAll al b0 vs = Some b" "sb_writing b"
    "sb_stream b = concat (map (\<lambda>(v, n). valueBits n v) vs)"
    using packAll_ok [OF b0(2,3) assms] b0(4) by auto
  from rewind_at [OF b(2)] unpackAll_ok [OF _ assms(2), of "speex_bits_rewind b" "[]"] b(3)
  have "\<exists>b'. unpackAll (speex_bits_rewind b) (map snd vs) = Some (map (\<lambda>(v, n). take_bit n v) vs, b')"
    by simp
  with b0(1) b(1) show ?thesis by auto
qed

theorem speex_bits_roundtrip_witness:
  "\<exists>b. Option.bind (speex_bits_init \<lparr>alloc_ok = \<lambda>_. True, alloc_fill = \<lambda>_. 7\<rparr>)
      (\<lambda>b. packAll \<lparr>alloc_ok = \<lambda>_. True, alloc_fill = \<lambda>_. 7\<rparr> b [(5, 3), (0x1FF, 8), (1, 32)]) = Some b \<and>
    map_option fst (unpackAll (speex_bits_rewind b) (map snd [(5 :: u32, 3), (0x1FF, 8), (1, 32)])) =
      Some (map (\<lambda>(v, n). take_bit n v) [(5, 3), (0x1FF, 8), (1, 32)])"
  by (rule speex_bits_roundtrip) simp_all

lemma packAll_safe:
  "sb_writing b \<Longrightarrow> \<forall>(v, n) \<in> set vs. n \<le> 32 \<Longrightarrow> \<exists>b'. packAll al b vs = Some b' \<and> sb_writing b'"
proof (induction vs arbitrary: b)
  case (Cons x vs)
  obtain v n where x: "x = (v, n)" by force
  with Cons.prems obtain b1 where "speex_bits_pack al b v n = Some b1" "sb_writing b1"
    using pack_ok(1) [of b n al v] by auto
  with Cons.IH [of b1] Cons.prems x show ?case by auto
qed simp

lemma unpackAll_safe: "sb_readable b \<Longrightarrow> \<exists>r. unpackAll b ns = Some r"
proof (induction ns arbitrary: b)
  case (Cons n ns)
  obtain d b' where "speex_bits_unpack_unsigned b n = Some (d, b')" "sb_readable b'"
    using unpack_readable [OF Cons.prems] by blast
  with Cons.IH [of b'] show ?case by auto
qed simp

lemma read_from_readable:
  assumes "sb_bufSize b \<le> length (sb_chars b)" and "len \<le> length packet"
  shows "\<exists>b'. speex_bits_read_from al b packet len = Some b' \<and> sb_readable b'"
proof -
  obtain n b1 where f: "readFrom_fit al b len = (n, b1)" by force
  have "n \<le> length (sb_chars b1) \<and> n \<le> len \<and> sb_bufSize b1 \<le> length (sb_chars b1)"
    using f assms by (auto simp: readFrom_fit_def realloc_def split: if_splits option.splits)
  then have n: "n \<le> length packet" "n \<le> length (sb_chars b1)" "sb_bufSize b1 \<le> length (sb_chars b1)" using assms(2) by auto
  then show ?thesis
    by (simp add: speex_bits_read_from_def f blit_Some sb_readable_def sb_pos_def)
qed



text \<open>Loading whole bytes behind unread ones into a buffer the stream does not own can write
  past its end: the truncated length is the size of the buffer, whatever it already holds.\<close>

theorem read_whole_bytes_overflow:
  "speex_bits_read_whole_bytes al
     \<lparr>sb_chars = [7, 0], sb_nbBits = 8, sb_charPtr = 0, sb_bitPtr = 0, sb_owner = False,
      sb_overflow = False, sb_bufSize = 2\<rparr> [1, 2] 2 = None"
  by (simp add: speex_bits_read_whole_bytes_def readWhole_fit_def speex_bits_flush_def blit_def)

text \<open>Writing out a stream does not put the stream back as it was: the terminator bits stay in
  the buffer under the restored cursor, and the next value packed is merged with them. With one
  zero bit in the stream, packing 0 in three bits after a write appends the bits 011.\<close>

theorem write_leaves_terminator:
  "map_option (\<lambda>(_, b'). map_option sb_stream
      (speex_bits_pack \<lparr>alloc_ok = \<lambda>_. True, alloc_fill = \<lambda>_. 0\<rparr> b' 0 3))
     (speex_bits_write \<lparr>alloc_ok = \<lambda>_. True, alloc_fill = \<lambda>_. 0\<rparr>
        \<lparr>sb_chars = [0, 0], sb_nbBits = 1, sb_charPtr = 0, sb_bitPtr = 1, sb_owner = False,
         sb_overflow = False, sb_bufSize = 2\<rparr> 2) =
   Some (Some [False, False, True, True])"
  by code_simp

end
