(* ===== verification/SpeexLspTables.thy ===== *)
theory SpeexLspTables
  imports CMemory
begin

text \<open>
  The codebooks of the line spectral pairs and of the pitch gains
  (\<open>Libraries/speex/lsp_tables_nb.c\<close>, \<open>high_lsp_tables.c\<close>, \<open>gain_table.c\<close>,
  \<open>gain_table_lbr.c\<close>): arrays of signed chars, one row here is one vector.
  Their lengths and their ranges are proved here once.
\<close>

definition cdbk_nb :: "int list" where
  "cdbk_nb = concat [
    [30, 19, 38, 34, 40, 32, 46, 43, 58, 43],
    [5, - 18, - 25, - 40, - 33, - 55, - 52, 20, 34, 28],
    [- 20, - 63, - 97, - 92, 61, 53, 47, 49, 53, 75],
    [- 14, - 53, - 77, - 79, 0, - 3, - 5, 19, 22, 26],
    [- 9, - 53, - 55, 66, 90, 72, 85, 68, 74, 52],
    [- 4, - 41, - 58, - 31, - 18, - 31, 27, 32, 30, 18],
    [24, 3, 8, 5, - 12, - 3, 26, 28, 74, 63],
    [- 2, - 39, - 67, - 77, - 106, - 74, 59, 59, 73, 65],
    [44, 40, 71, 72, 82, 83, 98, 88, 89, 60],
    [- 6, - 31, - 47, - 48, - 13, - 39, - 9, 7, 2, 79],
    [- 1, - 39, - 60, - 17, 87, 81, 65, 50, 45, 19],
    [- 21, - 67, - 91, - 87, - 41, - 50, 7, 18, 39, 74],
    [10, - 31, - 28, 39, 24, 13, 23, 5, 56, 45],
    [29, 10, - 5, - 13, - 11, - 35, - 18, - 8, - 10, - 8],
    [- 25, - 71, - 77, - 21, 2, 16, 50, 63, 87, 87],
    [5, - 32, - 40, - 51, - 68, 0, 12, 6, 54, 34],
    [5, - 12, 32, 52, 68, 64, 69, 59, 65, 45],
    [14, - 16, - 31, - 40, - 65, - 67, 41, 49, 47, 37],
    [- 11, - 52, - 75, - 84, - 4, 57, 48, 42, 42, 33],
    [- 11, - 51, - 68, - 6, 13, 0, 8, - 8, 26, 32],
    [- 23, - 53, 0, 36, 56, 76, 97, 105, 111, 97],
    [- 1, - 28, - 39, - 40, - 43, - 54, - 44, - 40, - 18, 35],
    [16, - 20, - 19, - 28, - 42, 29, 47, 38, 74, 45],
    [3, - 29, - 48, - 62, - 80, - 104, - 33, 56, 59, 59],
    [10, 17, 46, 72, 84, 101, 117, 123, 123, 106],
    [- 7, - 33, - 49, - 51, - 70, - 67, - 27, - 31, 70, 67],
    [- 16, - 62, - 85, - 20, 82, 71, 86, 80, 85, 74],
    [- 19, - 58, - 75, - 45, - 29, - 33, - 18, - 25, 45, 57],
    [- 12, - 42, - 5, 12, 28, 36, 52, 64, 81, 82],
    [13, - 9, - 27, - 28, 22, 3, 2, 22, 26, 6],
    [- 6, - 44, - 51, 2, 15, 10, 48, 43, 49, 34],
    [- 19, - 62, - 84, - 89, - 102, - 24, 8, 17, 61, 68],
    [39, 24, 23, 19, 16, - 5, 12, 15, 27, 15],
    [- 8, - 44, - 49, - 60, - 18, - 32, - 28, 52, 54, 62],
    [- 8, - 48, - 77, - 70, 66, 101, 83, 63, 61, 37],
    [- 12, - 50, - 75, - 64, 33, 17, 13, 25, 15, 77],
    [1, - 42, - 29, 72, 64, 46, 49, 31, 61, 44],
    [- 8, - 47, - 54, - 46, - 30, 19, 20, - 1, - 16, 0],
    [16, - 12, - 18, - 9, - 26, - 27, - 10, - 22, 53, 45],
    [- 10, - 47, - 75, - 82, - 105, - 109, 8, 25, 49, 77],
    [50, 65, 114, 117, 124, 118, 115, 96, 90, 61],
    [- 9, - 45, - 63, - 60, - 75, - 57, 8, 11, 20, 29],
    [0, - 35, - 49, - 43, 40, 47, 35, 40, 55, 38],
    [- 24, - 76, - 103, - 112, - 27, 3, 23, 34, 52, 75],
    [8, - 29, - 43, 12, 63, 38, 35, 29, 24, 8],
    [25, 11, 1, - 15, - 18, - 43, - 7, 37, 40, 21],
    [- 20, - 56, - 19, - 19, - 4, - 2, 11, 29, 51, 63],
    [- 2, - 44, - 62, - 75, - 89, 30, 57, 51, 74, 51],
    [50, 46, 68, 64, 65, 52, 63, 55, 65, 43],
    [18, - 9, - 26, - 35, - 55, - 69, 3, 6, 8, 17],
    [- 15, - 61, - 86, - 97, 1, 86, 93, 74, 78, 67],
    [- 1, - 38, - 66, - 48, 48, 39, 29, 25, 17, - 1],
    [13, 13, 29, 39, 50, 51, 69, 82, 97, 98],
    [- 2, - 36, - 46, - 27, - 16, - 30, - 13, - 4, - 7, - 4],
    [25, - 5, - 11, - 6, - 25, - 21, 33, 12, 31, 29],
    [- 8, - 38, - 52, - 63, - 68, - 89, - 33, - 1, 10, 74],
    [- 2, - 15, 59, 91, 105, 105, 101, 87, 84, 62],
    [- 7, - 33, - 50, - 35, - 54, - 47, 25, 17, 82, 81],
    [- 13, - 56, - 83, 21, 58, 31, 42, 25, 72, 65],
    [- 24, - 66, - 91, - 56, 9, - 2, 21, 10, 69, 75],
    [2, - 24, 11, 22, 25, 28, 38, 34, 48, 33],
    [7, - 29, - 26, 17, 15, - 1, 14, 0, - 2, 0],
    [- 6, - 41, - 67, 6, - 2, - 9, 19, 2, 85, 74],
    [- 22, - 67, - 84, - 71, - 50, 3, 11, - 9, 2, 62]]"

definition cdbk_nb_low1 :: "int list" where
  "cdbk_nb_low1 = concat [
    [- 34, - 52, - 15, 45, 2], [23, 21, 52, 24, - 33], [- 9, - 1, 9, - 44, - 41],
    [- 13, - 17, 44, 22, - 17], [- 6, - 4, - 1, 22, 38], [26, 16, 2, 50, 27],
    [- 35, - 34, - 9, - 41, 6], [0, - 16, - 34, 51, 8], [- 14, - 31, - 49, 15, - 33],
    [45, 49, 33, - 11, - 37], [- 62, - 54, 45, 11, - 5], [- 72, 11, - 1, - 12, - 11],
    [24, 27, - 11, - 43, 46], [43, 33, - 12, - 9, - 1], [1, - 4, - 23, - 57, - 71],
    [11, 8, 16, 17, - 8], [- 20, - 31, - 41, 53, 48], [- 16, 3, 65, - 24, - 8],
    [- 23, - 32, - 37, - 32, - 49], [- 10, - 17, 6, 38, 5], [- 9, - 17, - 46, 8, 52],
    [3, 6, 45, 40, 39], [- 7, - 6, - 34, - 74, 31], [8, 1, - 16, 43, 68],
    [- 11, - 19, - 31, 4, 6], [0, - 6, - 17, - 16, - 38], [- 16, - 30, 2, 9, - 39],
    [- 16, - 1, 43, - 10, 48], [3, 3, - 16, - 31, - 3], [62, 68, 43, 13, 3],
    [- 10, 8, 20, - 56, 12], [12, - 2, - 18, 22, - 15], [- 40, - 36, 1, 7, 41],
    [0, 1, 46, - 6, - 62], [- 4, - 12, - 2, - 11, - 83], [- 13, - 2, 91, 33, - 10],
    [0, 4, - 11, - 16, 79], [32, 37, 14, 9, 51], [- 21, - 28, - 56, - 34, 0],
    [21, 9, - 26, 11, 28], [- 42, - 54, - 23, - 2, - 15], [31, 30, 8, - 39, - 66],
    [- 39, - 36, 31, - 28, - 40], [- 46, 35, 40, 22, 24], [33, 48, 23, - 34, 14],
    [40, 32, 17, 27, - 3], [25, 26, - 13, - 61, - 17], [11, 4, 31, 60, - 6],
    [- 26, - 41, - 64, 13, 16], [- 26, 54, 31, - 11, - 23], [- 9, - 11, - 34, - 71, - 21],
    [- 34, - 35, 55, 50, 29], [- 22, - 27, - 50, - 38, 57], [33, 42, 57, 48, 26],
    [11, 0, - 49, - 31, 26], [- 4, - 14, 5, 78, 37], [17, 0, - 49, - 12, - 23],
    [26, 14, 2, 2, - 43], [- 17, - 12, 10, - 8, - 4], [8, 18, 12, - 6, 20],
    [- 12, - 6, - 13, - 25, 34], [15, 40, 49, 7, 8], [13, 20, 20, - 19, - 22],
    [- 2, - 8, 2, 51, - 51]]"

definition cdbk_nb_low2 :: "int list" where
  "cdbk_nb_low2 = concat [
    [- 6, 53, - 21, - 24, 4], [26, 17, - 4, - 37, 25], [17, - 36, - 13, 31, 3],
    [- 6, 27, 15, - 10, 31], [28, 26, - 10, - 10, - 40], [16, - 7, 15, 13, 41],
    [- 9, 0, - 4, 50, - 6], [- 7, 14, 38, 22, 0], [- 48, 2, 1, - 13, - 19],
    [32, - 3, - 60, 11, - 17], [- 1, - 24, - 34, - 1, 35], [- 5, - 27, 28, 44, 13],
    [25, 15, 42, - 11, 15], [51, 35, - 36, 20, 8], [- 4, - 12, - 29, 19, - 47],
    [49, - 15, - 4, 16, - 29], [- 39, 14, - 30, 4, 25], [- 9, - 5, - 51, - 14, - 3],
    [- 40, - 32, 38, 5, - 9], [- 8, - 4, - 1, - 22, 71], [- 3, 14, 26, - 18, - 22],
    [24, - 41, - 25, - 24, 6], [23, 19, - 10, 39, - 26], [- 27, 65, 45, 2, - 7],
    [- 26, - 8, 22, - 12, 16], [15, 16, - 35, - 5, 33], [- 21, - 8, 0, 23, 33],
    [34, 6, 21, 36, 6], [- 7, - 22, 8, - 37, - 14], [31, 38, 11, - 4, - 3],
    [- 39, - 32, - 8, 32, - 23], [- 6, - 12, 16, 20, - 28], [- 4, 23, 13, - 52, - 1],
    [22, 6, - 33, - 40, - 6], [4, - 62, 13, 5, - 26], [35, 39, 11, 2, 57],
    [- 11, 9, - 20, - 28, - 33], [52, - 5, - 6, - 2, 22], [- 14, - 16, - 48, 35, 1],
    [- 58, 20, 13, 33, - 1], [- 74, 56, - 18, - 22, - 31], [12, 6, - 14, 4, - 2],
    [- 9, - 47, 10, - 3, 29], [- 17, - 5, 61, 14, 47], [- 12, 2, 72, - 39, - 17],
    [92, 64, - 53, - 51, - 15], [- 30, - 38, - 41, - 29, - 28], [27, 9, 36, 9, - 35],
    [- 42, 81, - 21, 20, 25], [- 16, - 5, - 17, - 35, 21], [15, - 28, 48, 2, - 2],
    [9, - 19, 29, - 40, 30], [- 18, - 18, 18, - 16, - 57], [15, - 20, - 12, - 15, - 37],
    [- 15, 33, - 39, 21, - 22], [- 13, 35, 11, 13, - 38], [- 63, 29, 23, - 27, 32],
    [18, 3, - 26, 42, 33], [- 64, - 66, - 17, 16, 56], [2, 36, 3, 31, 21],
    [- 41, - 39, 8, - 57, 14], [37, - 2, 19, - 36, - 19], [- 23, - 29, - 16, 1, - 3],
    [- 8, - 10, 31, 64, - 65]]"

definition cdbk_nb_high1 :: "int list" where
  "cdbk_nb_high1 = concat [
    [- 26, - 8, 29, 21, 4], [19, - 39, 33, - 7, - 36], [56, 54, 48, 40, 29],
    [- 4, - 24, - 42, - 66, - 43], [- 60, 19, - 2, 37, 41], [- 10, - 37, - 60, - 64, 18],
    [- 22, 77, 73, 40, 25], [4, 19, - 19, - 66, - 2], [11, 5, 21, 14, 26],
    [- 25, - 86, - 4, 18, 1], [26, - 37, 10, 37, - 1], [24, - 12, - 59, - 11, 20],
    [- 6, 34, - 16, - 16, 42], [19, - 28, - 51, 53, 32], [4, 10, 62, 21, - 12],
    [- 34, 27, 4, - 48, - 48], [- 50, - 49, 31, - 7, - 21], [- 42, - 25, - 4, - 43, - 22],
    [59, 2, 27, 12, - 9], [- 6, - 16, - 8, - 32, - 58], [- 16, - 29, - 5, 41, 23],
    [- 30, - 33, - 46, - 13, - 10], [- 38, 52, 52, 1, - 17], [- 9, 10, 26, - 25, - 6],
    [33, - 20, 53, 55, 25], [- 32, - 5, - 42, 23, 21], [66, 5, - 28, 20, 9],
    [75, 29, - 7, - 42, - 39], [15, 3, - 23, 21, 6], [11, 1, - 29, 14, 63],
    [10, 54, 26, - 24, - 51], [- 49, 7, - 23, - 51, 15], [- 66, 1, 60, 25, 10],
    [0, - 30, - 4, - 15, 17], [19, 59, 40, 4, - 5], [33, 6, - 22, - 58, - 70],
    [- 5, 23, - 6, 60, 44], [- 29, - 16, - 47, - 29, 52], [- 19, 50, 28, 16, 35],
    [31, 36, 0, - 21, 6], [21, 27, 22, 42, 7], [- 66, - 40, - 8, 7, 19],
    [46, 0, - 4, 60, 36], [45, - 7, - 29, - 6, - 32], [- 39, 2, 6, - 9, 33],
    [20, - 51, - 34, 18, - 6], [19, 6, 11, 5, - 19], [- 29, - 2, 42, - 11, - 45],
    [- 21, - 55, 57, 37, 2], [- 14, - 67, - 16, - 27, - 38], [69, 48, 19, 2, - 17],
    [20, - 20, - 16, - 34, - 17], [- 25, - 61, 10, 73, 45], [16, - 40, - 64, - 17, - 29],
    [- 22, 56, 17, - 39, 8], [- 11, 8, - 25, - 18, - 13], [- 19, 8, 54, 57, 36],
    [- 17, - 26, - 4, 6, - 21], [40, 42, - 4, 20, 31], [53, 10, - 34, - 53, 31],
    [- 17, 35, 0, 15, - 6], [- 20, - 63, - 73, 22, 25], [29, 17, 8, - 29, - 39],
    [- 69, 18, 15, - 15, - 5]]"

definition cdbk_nb_high2 :: "int list" where
  "cdbk_nb_high2 = concat [
    [11, 47, 16, - 9, - 46], [- 32, 26, - 64, 34, - 5], [38, - 7, 47, 20, 2],
    [- 73, - 99, - 3, - 45, 20], [70, - 52, 15, - 6, - 7], [- 82, 31, 21, 47, 51],
    [39, - 3, 9, 0, - 41], [- 7, - 15, - 54, 2, 0], [27, - 31, 9, - 45, - 22],
    [- 38, - 24, - 24, 8, - 33], [23, 5, 50, - 36, - 17], [- 18, - 51, - 2, 13, 19],
    [43, 12, - 15, - 12, 61], [38, 38, 7, 13, 0], [6, - 1, 3, 62, 9],
    [27, 22, - 33, 38, - 35], [- 9, 30, - 43, - 9, - 32], [- 1, 4, - 4, 1, - 5],
    [- 11, - 8, 38, 31, 11], [- 10, - 42, - 21, - 37, 1], [43, 15, - 13, - 35, - 19],
    [- 18, 15, 23, - 26, 59], [1, - 21, 53, 8, - 41], [- 50, - 14, - 28, 4, 21],
    [25, - 28, - 40, 5, - 40], [- 41, 4, 51, - 33, - 8], [- 8, 1, 17, - 60, 12],
    [25, - 41, 17, 34, 43], [19, 45, 7, - 37, 24], [- 15, 56, - 2, 35, - 10],
    [48, 4, - 47, - 2, 5], [- 5, - 54, 5, - 3, - 33], [- 10, 30, - 2, - 44, - 24],
    [- 38, 9, - 9, 42, 4], [6, - 56, 44, - 16, 9], [- 40, - 26, 18, - 20, 10],
    [28, - 41, - 21, - 4, 13], [- 18, 32, - 30, - 3, 37], [15, 22, 28, 50, - 40],
    [3, - 29, - 64, 7, 51], [- 19, - 11, 17, - 27, - 40], [- 64, 24, - 12, - 7, - 27],
    [3, 37, 48, - 1, 2], [- 9, - 38, - 34, 46, 1], [27, - 6, 19, - 13, 26],
    [10, 34, 20, 25, 40], [50, - 6, - 7, 30, 9], [- 24, 0, - 23, 71, - 61],
    [22, 58, - 34, - 4, 2], [- 49, - 33, 25, 30, - 8], [- 6, - 16, 77, 2, 38],
    [- 8, - 35, - 6, - 30, 56], [78, 31, 33, - 20, 13], [- 39, 20, 22, 4, 21],
    [- 8, 4, - 6, 10, - 83], [- 41, 9, - 25, - 43, 15], [- 7, - 12, - 34, - 39, - 37],
    [- 33, 19, 30, 16, - 33], [42, - 25, 25, - 68, 44], [- 15, - 11, - 4, 23, 50],
    [14, 4, - 39, - 43, 20], [- 30, 60, 9, - 20, 7], [16, 19, - 33, 37, 29],
    [16, - 35, 7, 38, - 27]]"

definition high_lsp_cdbk :: "int list" where
  "high_lsp_cdbk = concat [
    [39, 12, - 14, - 20, - 29, - 61, - 67, - 76], [- 32, - 71, - 67, 68, 77, 46, 34, 5],
    [- 13, - 48, - 46, - 72, - 81, - 84, - 60, - 58], [- 40, - 28, 82, 93, 68, 45, 29, 3],
    [- 19, - 47, - 28, - 43, - 35, - 30, - 8, - 13], [- 39, - 91, - 91, - 123, - 96, 10, 10, - 6],
    [- 18, - 55, - 60, - 91, - 56, - 36, - 27, - 16], [- 48, - 75, 40, 28, - 10, - 28, 35, 9],
    [37, 19, 1, - 20, - 31, - 41, - 18, - 25], [- 35, - 68, - 80, 45, 27, - 1, 47, 13],
    [0, - 29, - 35, - 57, - 50, - 79, - 73, - 38], [- 19, 5, 35, 14, - 10, - 23, 16, - 8],
    [5, - 24, - 40, - 62, - 23, - 27, - 22, - 16], [- 18, - 46, - 72, - 77, 43, 21, 33, 1],
    [- 80, - 70, - 70, - 64, - 56, - 52, - 39, - 33], [- 31, - 38, - 19, - 19, - 15, 32, 33, - 2],
    [7, - 15, - 15, - 24, - 23, - 33, - 41, - 56], [- 24, - 57, 5, 89, 64, 41, 27, 5],
    [- 9, - 47, - 60, - 97, - 97, - 124, - 20, - 9], [- 44, - 73, 31, 29, - 4, 64, 48, 7],
    [- 35, - 57, 0, - 3, - 26, - 47, - 3, - 6], [- 40, - 76, - 79, - 48, 12, 81, 55, 10],
    [9, - 24, - 43, - 73, - 57, - 69, 16, 5], [- 28, - 53, 18, 29, 20, 0, - 4, - 11],
    [6, - 13, 23, 7, - 17, - 35, - 37, - 37], [- 30, - 68, - 63, 6, 24, - 9, - 14, 3],
    [21, - 13, - 27, - 57, - 49, - 80, - 24, - 41], [- 5, - 16, - 5, 1, 45, 25, 12, - 7],
    [3, - 15, - 6, - 16, - 15, - 8, 6, - 13], [- 42, - 81, - 80, - 87, 14, 1, - 10, - 3],
    [- 43, - 69, - 46, - 24, - 28, - 29, 36, 6], [- 43, - 56, - 12, 12, 54, 79, 43, 9],
    [54, 22, 2, 8, - 12, - 43, - 46, - 52], [- 38, - 69, - 89, - 5, 75, 38, 33, 5],
    [- 13, - 53, - 62, - 87, - 89, - 113, - 99, - 55], [- 34, - 37, 62, 55, 33, 16, 21, - 2],
    [- 17, - 46, - 29, - 38, - 38, - 48, - 39, - 42], [- 36, - 75, - 72, - 88, - 48, - 30, 21, 2],
    [- 15, - 57, - 64, - 98, - 84, - 76, 25, 1], [- 46, - 80, - 12, 18, - 7, 3, 34, 6],
    [38, 31, 23, 4, - 1, 20, 14, - 15], [- 43, - 78, - 91, - 24, 14, - 3, 54, 16],
    [0, - 27, - 28, - 44, - 56, - 83, - 92, - 89], [- 3, 34, 56, 41, 36, 22, 20, - 8],
    [- 7, - 35, - 42, - 62, - 49, 3, 12, - 10], [- 50, - 87, - 96, - 66, 92, 70, 38, 9],
    [- 70, - 71, - 62, - 42, - 39, - 43, - 11, - 7], [- 50, - 79, - 58, - 50, - 31, 32, 31, - 6],
    [- 4, - 25, 7, - 17, - 38, - 70, - 58, - 27], [- 43, - 83, - 28, 59, 36, 20, 31, 2],
    [- 27, - 71, - 80, - 109, - 98, - 75, - 33, - 32], [- 31, - 2, 33, 15, - 6, 43, 33, - 5],
    [0, - 22, - 10, - 27, - 34, - 49, - 11, - 20], [- 41, - 91, - 100, - 121, - 39, 57, 41, 10],
    [- 19, - 50, - 38, - 59, - 60, - 70, - 18, - 20], [- 8, - 31, - 8, - 15, 1, - 14, - 26, - 25],
    [33, 21, 32, 17, 1, - 19, - 19, - 26], [- 58, - 81, - 35, - 22, 45, 30, 11, - 11],
    [3, - 26, - 48, - 87, - 67, - 83, - 58, 3], [- 1, - 26, - 20, 44, 10, 25, 39, 5],
    [- 9, - 35, - 27, - 38, 7, 10, 4, - 9], [- 42, - 85, - 102, - 127, 52, 44, 28, 10],
    [- 47, - 61, - 40, - 39, - 17, - 1, - 10, - 33], [- 42, - 74, - 48, 21, - 4, 70, 52, 10]]"

definition high_lsp_cdbk2 :: "int list" where
  "high_lsp_cdbk2 = concat [
    [- 36, - 62, 6, - 9, - 10, - 14, - 56, 23], [1, - 26, 23, - 48, - 17, 12, 8, - 7],
    [23, 29, - 36, - 28, - 6, - 29, - 17, - 5], [40, 23, 10, 10, - 46, - 13, 36, 6],
    [4, - 30, - 29, 62, 32, - 32, - 1, 22], [- 14, 1, - 4, - 22, - 45, 2, 54, 4],
    [- 30, - 57, - 59, - 12, 27, - 3, - 31, 8], [- 9, 5, 10, - 14, 32, 66, 19, 9],
    [2, - 25, - 37, 23, - 15, 18, - 38, - 31], [5, - 9, - 21, 15, 0, 22, 62, 30],
    [15, - 12, - 14, - 46, 77, 21, 33, 3], [34, 29, - 19, 50, 2, 11, 9, - 38],
    [- 12, - 37, 62, 1, - 15, 54, 32, 6], [2, - 24, 20, 35, - 21, 2, 19, 24],
    [- 13, 55, 4, 9, 39, - 19, 30, - 1], [- 21, 73, 54, 33, 8, 18, 3, 15],
    [6, - 19, - 47, 6, - 3, - 48, - 50, 1], [26, 20, 8, - 23, - 50, 65, - 14, - 55],
    [- 17, - 31, - 37, - 28, 53, - 1, - 17, - 53], [1, 57, 11, - 8, - 25, - 30, - 37, 64],
    [5, - 52, - 45, 15, 23, 31, 15, 14], [- 25, 24, 33, - 2, - 44, - 56, - 18, 6],
    [- 21, - 43, 4, - 12, 17, - 37, 20, - 10], [34, 15, 2, 15, 55, 21, - 11, - 31],
    [- 6, 46, 25, 16, - 9, - 25, - 8, - 62], [28, 17, 20, - 32, - 29, 26, 30, 25],
    [- 19, 2, - 16, - 17, 26, - 51, 2, 50], [42, 19, - 66, 23, 29, - 2, 3, 19],
    [- 19, - 37, 32, 15, 6, 30, - 34, 13], [11, - 5, 40, 31, 10, - 42, 4, - 9],
    [26, - 9, - 70, 17, - 2, - 23, 20, - 22], [- 55, 51, - 24, - 31, 22, - 22, 15, - 13],
    [3, - 10, - 28, - 16, 56, 4, - 63, 11], [- 18, - 15, - 18, - 38, - 35, 16, - 7, 34],
    [- 1, - 21, - 49, - 47, 9, - 37, 7, 8], [69, 55, 20, 6, - 33, - 45, - 10, - 9],
    [6, - 9, 12, 71, 15, - 3, - 42, - 7], [- 24, 32, - 35, - 2, - 42, - 17, - 5, 0],
    [- 2, - 33, - 54, 13, - 12, - 34, 47, 23], [19, 55, 7, - 8, 74, 31, 14, 16],
    [- 23, - 26, 19, 12, - 18, - 49, - 28, - 31], [- 20, 2, - 14, - 20, - 47, 78, 40, 13],
    [- 23, - 11, 21, - 6, 18, 1, 47, 5], [38, 35, 32, 46, 22, 8, 13, 16],
    [- 14, 18, 51, 19, 40, 39, 11, - 26], [- 1, - 17, 47, 2, - 53, - 15, 31, - 22],
    [38, 21, - 15, - 16, 5, - 33, 53, 15], [- 38, 86, 11, - 3, - 24, 49, 13, - 4],
    [- 11, - 18, 28, 20, - 12, - 27, - 26, 35], [- 25, - 35, - 3, - 20, - 61, 30, 10, - 55],
    [- 12, - 22, - 52, - 54, - 14, 19, - 32, - 12], [45, 15, - 8, - 48, - 9, 11, - 32, 8],
    [- 16, - 34, - 13, 51, 18, 38, - 2, - 32], [- 17, 22, - 2, - 18, - 28, - 70, 59, 27],
    [- 28, - 19, - 10, - 20, - 9, - 9, - 8, - 21], [21, - 8, 35, - 2, 45, - 3, - 9, 12],
    [0, 30, 7, - 39, 43, 27, - 38, - 91], [30, 26, 19, - 55, - 4, 63, 14, - 17],
    [13, 9, 13, 2, 7, 4, 6, 61], [72, - 1, - 17, 29, - 1, - 22, - 17, 8],
    [- 28, - 37, 63, 44, 41, 3, 2, 14], [9, - 6, 75, - 8, - 7, - 12, - 15, - 12],
    [13, 9, - 4, 30, - 22, - 65, 15, 0], [- 45, 4, - 4, 1, 5, 22, 11, 23]]"

definition gain_cdbk_nb :: "int list" where
  "gain_cdbk_nb = concat [
    [- 32, - 32, - 32, 0], [- 28, - 67, - 5, 33], [- 42, - 6, - 32, 18], [- 57, - 10, - 54, 35],
    [- 16, 27, - 41, 42], [19, - 19, - 40, 36], [- 45, 24, - 21, 40], [- 8, - 14, - 18, 28],
    [1, 14, - 58, 53], [- 18, - 88, - 39, 39], [- 38, 21, - 18, 37], [- 19, 20, - 43, 38],
    [10, 17, - 48, 54], [- 52, - 58, - 13, 33], [- 44, - 1, - 11, 32], [- 12, - 11, - 34, 22],
    [14, 0, - 46, 46], [- 37, - 35, - 34, 5], [- 25, 44, - 30, 43], [6, - 4, - 63, 49],
    [- 31, 43, - 41, 43], [- 23, 30, - 43, 41], [- 43, 26, - 14, 44], [- 33, 1, - 13, 27],
    [- 13, 18, - 37, 37], [- 46, - 73, - 45, 34], [- 36, 24, - 25, 34], [- 36, - 11, - 20, 19],
    [- 25, 12, - 18, 33], [- 36, - 69, - 59, 34], [- 45, 6, 8, 46], [- 22, - 14, - 24, 18],
    [- 1, 13, - 44, 44], [- 39, - 48, - 26, 15], [- 32, 31, - 37, 34], [- 33, 15, - 46, 31],
    [- 24, 30, - 36, 37], [- 41, 31, - 23, 41], [- 50, 22, - 4, 50], [- 22, 2, - 21, 28],
    [- 17, 30, - 34, 40], [- 7, - 60, - 28, 29], [- 38, 42, - 28, 42], [- 44, - 11, 21, 43],
    [- 16, 8, - 44, 34], [- 39, - 55, - 43, 21], [- 11, - 35, 26, 41], [- 9, 0, - 34, 29],
    [- 8, 121, - 81, 113], [7, - 16, - 22, 33], [- 37, 33, - 31, 36], [- 27, - 7, - 36, 17],
    [- 34, 70, - 57, 65], [- 37, - 11, - 48, 21], [- 40, 17, - 1, 44], [- 33, 6, - 6, 33],
    [- 9, 0, - 20, 34], [- 21, 69, - 33, 57], [- 29, 33, - 31, 35], [- 55, 12, - 1, 49],
    [- 33, 27, - 22, 35], [- 50, - 33, - 47, 17], [- 50, 54, 51, 94], [- 1, - 5, - 44, 35],
    [- 4, 22, - 40, 45], [- 39, - 66, - 25, 24], [- 33, 1, - 26, 20], [- 24, - 23, - 25, 12],
    [- 11, 21, - 45, 44], [- 25, - 45, - 19, 17], [- 43, 105, - 16, 82], [5, - 21, 1, 41],
    [- 16, 11, - 33, 30], [- 13, - 99, - 4, 57], [- 37, 33, - 15, 44], [- 25, 37, - 63, 54],
    [- 36, 24, - 31, 31], [- 53, - 56, - 38, 26], [- 41, - 4, 4, 37], [- 33, 13, - 30, 24],
    [49, 52, - 94, 114], [- 5, - 30, - 15, 23], [1, 38, - 40, 56], [- 23, 12, - 36, 29],
    [- 17, 40, - 47, 51], [- 37, - 41, - 39, 11], [- 49, 34, 0, 58], [- 18, - 7, - 4, 34],
    [- 16, 17, - 27, 35], [30, 5, - 62, 65], [4, 48, - 68, 76], [- 43, 11, - 11, 38],
    [- 18, 19, - 15, 41], [- 23, - 62, - 39, 23], [- 42, 10, - 2, 41], [- 21, - 13, - 13, 25],
    [- 9, 13, - 47, 42], [- 23, - 62, - 24, 24], [- 44, 60, - 21, 58], [- 18, - 3, - 52, 32],
    [- 22, 22, - 36, 34], [- 75, 57, 16, 90], [- 19, 3, 10, 45], [- 29, 23, - 38, 32],
    [- 5, - 62, - 51, 38], [- 51, 40, - 18, 53], [- 42, 13, - 24, 32], [- 34, 14, - 20, 30],
    [- 56, - 75, - 26, 37], [- 26, 32, 15, 59], [- 26, 17, - 29, 29], [- 7, 28, - 52, 53],
    [- 12, - 30, 5, 30], [- 5, - 48, - 5, 35], [2, 2, - 43, 40], [21, 16, 16, 75],
    [- 25, - 45, - 32, 10], [- 43, 18, - 10, 42], [9, 0, - 1, 52], [- 1, 7, - 30, 36],
    [19, - 48, - 4, 48], [- 28, 25, - 29, 32], [- 22, 0, - 31, 22], [- 32, 17, - 10, 36],
    [- 64, - 41, - 62, 36], [- 52, 15, 16, 58], [- 30, - 22, - 32, 6], [- 7, 9, - 38, 36]]"

definition gain_cdbk_lbr :: "int list" where
  "gain_cdbk_lbr = concat [
    [- 32, - 32, - 32, 0], [- 31, - 58, - 16, 22], [- 41, - 24, - 43, 14], [- 56, - 22, - 55, 29],
    [- 13, 33, - 41, 47], [- 4, - 39, - 9, 29], [- 41, 15, - 12, 38], [- 8, - 15, - 12, 31],
    [1, 2, - 44, 40], [- 22, - 66, - 42, 27], [- 38, 28, - 23, 38], [- 21, 14, - 37, 31],
    [0, 21, - 50, 52], [- 53, - 71, - 27, 33], [- 37, - 1, - 19, 25], [- 19, - 5, - 28, 22],
    [6, 65, - 44, 74], [- 33, - 48, - 33, 9], [- 40, 57, - 14, 58], [- 17, 4, - 45, 32],
    [- 31, 38, - 33, 36], [- 23, 28, - 40, 39], [- 43, 29, - 12, 46], [- 34, 13, - 23, 28],
    [- 16, 15, - 27, 34], [- 14, - 82, - 15, 43], [- 31, 25, - 32, 29], [- 21, 5, - 5, 38],
    [- 47, - 63, - 51, 33], [- 46, 12, 3, 47], [- 28, - 17, - 29, 11], [- 10, 14, - 40, 38]]"

lemma length_lsp:
  "length cdbk_nb = 640"
  "length cdbk_nb_low1 = 320"
  "length cdbk_nb_low2 = 320"
  "length cdbk_nb_high1 = 320"
  "length cdbk_nb_high2 = 320"
  "length high_lsp_cdbk = 512"
  "length high_lsp_cdbk2 = 512"
  "length gain_cdbk_nb = 512"
  "length gain_cdbk_lbr = 128"
  by (simp_all add: cdbk_nb_def cdbk_nb_low1_def cdbk_nb_low2_def cdbk_nb_high1_def cdbk_nb_high2_def high_lsp_cdbk_def high_lsp_cdbk2_def gain_cdbk_nb_def gain_cdbk_lbr_def)

lemma chars_lsp:
  "signedChars cdbk_nb"
  "signedChars cdbk_nb_low1"
  "signedChars cdbk_nb_low2"
  "signedChars cdbk_nb_high1"
  "signedChars cdbk_nb_high2"
  "signedChars high_lsp_cdbk"
  "signedChars high_lsp_cdbk2"
  "signedChars gain_cdbk_nb"
  "signedChars gain_cdbk_lbr"
  by (simp_all add: signedChars_def cdbk_nb_def cdbk_nb_low1_def cdbk_nb_low2_def cdbk_nb_high1_def cdbk_nb_high2_def high_lsp_cdbk_def high_lsp_cdbk2_def gain_cdbk_nb_def gain_cdbk_lbr_def)

end
