(* ===== verification/LspQuant.thy ===== *)
theory LspQuant
  imports FixedPoint SpeexBits SpeexLspTables
begin

text \<open>
  Quantization of the line spectral pairs of the speech codec (\<open>Libraries/speex/quant_lsp.c\<close>,
  fixed-point build): the encoder searches a codebook for each stage of the residual and packs
  the indices, the decoder reads the indices and sums the codewords. Arrays of 16-bit numbers
  are lists of integers; a store converts to 16 bits. An access outside an array gives \<open>None\<close>.
\<close>

definition LSP_LINEAR :: "nat \<Rightarrow> int" where "LSP_LINEAR i = SHL16 (int i + 1) 11"
definition LSP_LINEAR_HIGH :: "nat \<Rightarrow> int" where "LSP_LINEAR_HIGH i = ADD16 (MULT16_16_16 (int i) 2560) 6144"
definition LSP_DIV_256 :: "int \<Rightarrow> int" where "LSP_DIV_256 x = SHL16 (s16 x) 5"
definition LSP_DIV_512 :: "int \<Rightarrow> int" where "LSP_DIV_512 x = SHL16 (s16 x) 4"
definition LSP_DIV_1024 :: "int \<Rightarrow> int" where "LSP_DIV_1024 x = SHL16 (s16 x) 3"
definition LSP_PI :: int where "LSP_PI = 25736"
definition VERY_LARGE32 :: int where "VERY_LARGE32 = 2147483647"

subsection \<open>Encoding\<close>

definition compute_quant_weights :: "int list \<Rightarrow> int list \<Rightarrow> nat \<Rightarrow> int list option" where
  "compute_quant_weights qlsp quant_weight order =
     forUpd (\<lambda>i _.
       Option.bind (rd qlsp i) (\<lambda>q.
       Option.bind (if i = 0 then Some (s16 q) else map_option (\<lambda>p. s16 (q - p)) (rd qlsp (i - 1))) (\<lambda>tmp1.
       Option.bind (if i + 1 = order then Some (s16 (LSP_PI - q)) else map_option (\<lambda>n. s16 (n - q)) (rd qlsp (i + 1))) (\<lambda>tmp2.
       let tmp1 = (if tmp2 < tmp1 then tmp2 else tmp1)
       in DIV32_16 81920 (ADD16 300 tmp1))))) [0..<order] quant_weight"

text \<open>The distance of codeword \<open>i\<close>: a loop over its dimensions; \<open>x\<close> starts at \<open>off\<close> in its array.\<close>

fun lspDist :: "(nat \<Rightarrow> int \<Rightarrow> int \<Rightarrow> int option) \<Rightarrow> int list \<Rightarrow> nat \<Rightarrow> int list \<Rightarrow> nat \<Rightarrow> nat list \<Rightarrow> int \<Rightarrow> int option" where
  "lspDist acc x off cdbk base [] dist = Some dist"
| "lspDist acc x off cdbk base (j # js) dist =
     Option.bind (rd x (off + j)) (\<lambda>xj. Option.bind (rd cdbk (base + j)) (\<lambda>c.
     let tmp = s16 (SUB16 xj (SHL16 (s16 c) 5))
     in Option.bind (acc j dist tmp) (lspDist acc x off cdbk base js)))"

fun lspSearch :: "(nat \<Rightarrow> int option) \<Rightarrow> nat list \<Rightarrow> int \<Rightarrow> nat \<Rightarrow> nat option" where
  "lspSearch d [] best_dist best_id = Some best_id"
| "lspSearch d (i # is) best_dist best_id =
     Option.bind (d i) (\<lambda>dist.
       if dist < best_dist then lspSearch d is dist i else lspSearch d is best_dist best_id)"

definition lspResidual :: "int list \<Rightarrow> nat \<Rightarrow> int list \<Rightarrow> nat \<Rightarrow> nat \<Rightarrow> int list option" where
  "lspResidual x off cdbk best_id nbDim =
     forUpd (\<lambda>k a. Option.bind (rd a k) (\<lambda>v. Option.bind (rd cdbk (best_id * nbDim + (k - off))) (\<lambda>c.
       Some (s16 (SUB16 v (SHL16 (s16 c) 5)))))) [off..<off + nbDim] x"

definition lsp_quant :: "int list \<Rightarrow> nat \<Rightarrow> int list \<Rightarrow> nat \<Rightarrow> nat \<Rightarrow> (nat \<times> int list) option" where
  "lsp_quant x off cdbk nbVec nbDim =
     Option.bind (lspSearch (\<lambda>i. lspDist (\<lambda>j dist tmp. Some (MAC16_16 dist tmp tmp)) x off cdbk (i * nbDim) [0..<nbDim] 0)
         [0..<nbVec] VERY_LARGE32 0) (\<lambda>best_id.
     map_option (Pair best_id) (lspResidual x off cdbk best_id nbDim))"

definition lsp_weight_quant ::
  "int list \<Rightarrow> nat \<Rightarrow> int list \<Rightarrow> nat \<Rightarrow> int list \<Rightarrow> nat \<Rightarrow> nat \<Rightarrow> (nat \<times> int list) option" where
  "lsp_weight_quant x off weight woff cdbk nbVec nbDim =
     Option.bind (lspSearch (\<lambda>i. lspDist (\<lambda>j dist tmp.
           map_option (\<lambda>w. MAC16_32_Q15 dist w (MULT16_16 tmp tmp)) (rd weight (woff + j))) x off cdbk (i * nbDim) [0..<nbDim] 0)
         [0..<nbVec] VERY_LARGE32 0) (\<lambda>best_id.
     map_option (Pair best_id) (lspResidual x off cdbk best_id nbDim))"

definition scaleRange :: "(int \<Rightarrow> int) \<Rightarrow> nat \<Rightarrow> nat \<Rightarrow> int list \<Rightarrow> int list option" where
  "scaleRange f m n a = forUpd (\<lambda>i a. map_option (\<lambda>q. s16 (f q)) (rd a i)) [m..<n] a"

definition lsp_quant_nb :: "allocator \<Rightarrow> int list \<Rightarrow> int list \<Rightarrow> nat \<Rightarrow> speexBits \<Rightarrow> (int list \<times> speexBits) option" where
  "lsp_quant_nb al lsp qlsp order bits =
     Option.bind (forUpd (\<lambda>i _. rd lsp i) [0..<order] qlsp) (\<lambda>qlsp.
     Option.bind (compute_quant_weights qlsp (replicate 10 0) order) (\<lambda>quant_weight.
     Option.bind (forUpd (\<lambda>i a. map_option (\<lambda>q. s16 (SUB16 q (LSP_LINEAR i))) (rd a i)) [0..<order] qlsp) (\<lambda>qlsp.
     Option.bind (lsp_quant qlsp 0 cdbk_nb 64 order) (\<lambda>(ident, qlsp).
     Option.bind (speex_bits_pack al bits (of_nat ident) 6) (\<lambda>bits.
     Option.bind (scaleRange (\<lambda>q. q * 2) 0 order qlsp) (\<lambda>qlsp.
     Option.bind (lsp_weight_quant qlsp 0 quant_weight 0 cdbk_nb_low1 64 5) (\<lambda>(ident, qlsp).
     Option.bind (speex_bits_pack al bits (of_nat ident) 6) (\<lambda>bits.
     Option.bind (scaleRange (\<lambda>q. q * 2) 0 5 qlsp) (\<lambda>qlsp.
     Option.bind (lsp_weight_quant qlsp 0 quant_weight 0 cdbk_nb_low2 64 5) (\<lambda>(ident, qlsp).
     Option.bind (speex_bits_pack al bits (of_nat ident) 6) (\<lambda>bits.
     Option.bind (lsp_weight_quant qlsp 5 quant_weight 5 cdbk_nb_high1 64 5) (\<lambda>(ident, qlsp).
     Option.bind (speex_bits_pack al bits (of_nat ident) 6) (\<lambda>bits.
     Option.bind (scaleRange (\<lambda>q. q * 2) 5 10 qlsp) (\<lambda>qlsp.
     Option.bind (lsp_weight_quant qlsp 5 quant_weight 5 cdbk_nb_high2 64 5) (\<lambda>(ident, qlsp).
     Option.bind (speex_bits_pack al bits (of_nat ident) 6) (\<lambda>bits.
     Option.bind (scaleRange (\<lambda>q. PSHR16 q 2) 0 order qlsp) (\<lambda>qlsp.
     Option.bind (forUpd (\<lambda>i a. Option.bind (rd lsp i) (\<lambda>l. map_option (\<lambda>q. s16 (l - q)) (rd a i))) [0..<order] qlsp) (\<lambda>qlsp.
       Some (qlsp, bits)))))))))))))))))))"

definition lsp_quant_lbr :: "allocator \<Rightarrow> int list \<Rightarrow> int list \<Rightarrow> nat \<Rightarrow> speexBits \<Rightarrow> (int list \<times> speexBits) option" where
  "lsp_quant_lbr al lsp qlsp order bits =
     Option.bind (forUpd (\<lambda>i _. rd lsp i) [0..<order] qlsp) (\<lambda>qlsp.
     Option.bind (compute_quant_weights qlsp (replicate 10 0) order) (\<lambda>quant_weight.
     Option.bind (forUpd (\<lambda>i a. map_option (\<lambda>q. s16 (SUB16 q (LSP_LINEAR i))) (rd a i)) [0..<order] qlsp) (\<lambda>qlsp.
     Option.bind (lsp_quant qlsp 0 cdbk_nb 64 order) (\<lambda>(ident, qlsp).
     Option.bind (speex_bits_pack al bits (of_nat ident) 6) (\<lambda>bits.
     Option.bind (scaleRange (\<lambda>q. q * 2) 0 order qlsp) (\<lambda>qlsp.
     Option.bind (lsp_weight_quant qlsp 0 quant_weight 0 cdbk_nb_low1 64 5) (\<lambda>(ident, qlsp).
     Option.bind (speex_bits_pack al bits (of_nat ident) 6) (\<lambda>bits.
     Option.bind (lsp_weight_quant qlsp 5 quant_weight 5 cdbk_nb_high1 64 5) (\<lambda>(ident, qlsp).
     Option.bind (speex_bits_pack al bits (of_nat ident) 6) (\<lambda>bits.
     Option.bind (scaleRange (\<lambda>q. PSHR16 q 1) 0 order qlsp) (\<lambda>qlsp.
     Option.bind (forUpd (\<lambda>i a. Option.bind (rd lsp i) (\<lambda>l. map_option (\<lambda>q. s16 (l - q)) (rd a i))) [0..<order] qlsp) (\<lambda>qlsp.
       Some (qlsp, bits)))))))))))))"

definition lsp_quant_high :: "allocator \<Rightarrow> int list \<Rightarrow> int list \<Rightarrow> nat \<Rightarrow> speexBits \<Rightarrow> (int list \<times> speexBits) option" where
  "lsp_quant_high al lsp qlsp order bits =
     Option.bind (forUpd (\<lambda>i _. rd lsp i) [0..<order] qlsp) (\<lambda>qlsp.
     Option.bind (compute_quant_weights qlsp (replicate 10 0) order) (\<lambda>quant_weight.
     Option.bind (forUpd (\<lambda>i a. map_option (\<lambda>q. s16 (SUB16 q (LSP_LINEAR_HIGH i))) (rd a i)) [0..<order] qlsp) (\<lambda>qlsp.
     Option.bind (lsp_quant qlsp 0 high_lsp_cdbk 64 order) (\<lambda>(ident, qlsp).
     Option.bind (speex_bits_pack al bits (of_nat ident) 6) (\<lambda>bits.
     Option.bind (scaleRange (\<lambda>q. q * 2) 0 order qlsp) (\<lambda>qlsp.
     Option.bind (lsp_weight_quant qlsp 0 quant_weight 0 high_lsp_cdbk2 64 order) (\<lambda>(ident, qlsp).
     Option.bind (speex_bits_pack al bits (of_nat ident) 6) (\<lambda>bits.
     Option.bind (scaleRange (\<lambda>q. PSHR16 q 1) 0 order qlsp) (\<lambda>qlsp.
     Option.bind (forUpd (\<lambda>i a. Option.bind (rd lsp i) (\<lambda>l. map_option (\<lambda>q. s16 (l - q)) (rd a i))) [0..<order] qlsp) (\<lambda>qlsp.
       Some (qlsp, bits)))))))))))"

subsection \<open>Decoding\<close>

text \<open>
  The loops \<open>for (i = 0; i < n; i++) lsp[off+i] = lsp[off+i] + scale(cdbk[base+i])\<close>. Whether the
  source adds with \<open>ADD16\<close>, \<open>ADD32\<close> or \<open>+=\<close>, both operands are small ints and the sum is stored
  in 16 bits.
\<close>

definition addCodeword :: "(int \<Rightarrow> int) \<Rightarrow> int list \<Rightarrow> nat \<Rightarrow> nat \<Rightarrow> nat \<Rightarrow> int list \<Rightarrow> int list option" where
  "addCodeword scale cdbk base off n a =
     forUpd (\<lambda>k a. Option.bind (rd a k) (\<lambda>x. Option.bind (rd cdbk (base + (k - off))) (\<lambda>c.
       Some (s16 (x + scale c))))) [off..<off + n] a"

definition lsp_unquant_nb :: "int list \<Rightarrow> nat \<Rightarrow> speexBits \<Rightarrow> (int list \<times> speexBits) option" where
  "lsp_unquant_nb lsp order bits =
     Option.bind (forUpd (\<lambda>i _. Some (s16 (LSP_LINEAR i))) [0..<order] lsp) (\<lambda>lsp.
     Option.bind (speex_bits_unpack_unsigned bits 6) (\<lambda>(ident, bits).
     Option.bind (addCodeword LSP_DIV_256 cdbk_nb (unat ident * 10) 0 10 lsp) (\<lambda>lsp.
     Option.bind (speex_bits_unpack_unsigned bits 6) (\<lambda>(ident, bits).
     Option.bind (addCodeword LSP_DIV_512 cdbk_nb_low1 (unat ident * 5) 0 5 lsp) (\<lambda>lsp.
     Option.bind (speex_bits_unpack_unsigned bits 6) (\<lambda>(ident, bits).
     Option.bind (addCodeword LSP_DIV_1024 cdbk_nb_low2 (unat ident * 5) 0 5 lsp) (\<lambda>lsp.
     Option.bind (speex_bits_unpack_unsigned bits 6) (\<lambda>(ident, bits).
     Option.bind (addCodeword LSP_DIV_512 cdbk_nb_high1 (unat ident * 5) 5 5 lsp) (\<lambda>lsp.
     Option.bind (speex_bits_unpack_unsigned bits 6) (\<lambda>(ident, bits).
     Option.bind (addCodeword LSP_DIV_1024 cdbk_nb_high2 (unat ident * 5) 5 5 lsp) (\<lambda>lsp.
       Some (lsp, bits))))))))))))"

definition lsp_unquant_lbr :: "int list \<Rightarrow> nat \<Rightarrow> speexBits \<Rightarrow> (int list \<times> speexBits) option" where
  "lsp_unquant_lbr lsp order bits =
     Option.bind (forUpd (\<lambda>i _. Some (s16 (LSP_LINEAR i))) [0..<order] lsp) (\<lambda>lsp.
     Option.bind (speex_bits_unpack_unsigned bits 6) (\<lambda>(ident, bits).
     Option.bind (addCodeword LSP_DIV_256 cdbk_nb (unat ident * 10) 0 10 lsp) (\<lambda>lsp.
     Option.bind (speex_bits_unpack_unsigned bits 6) (\<lambda>(ident, bits).
     Option.bind (addCodeword LSP_DIV_512 cdbk_nb_low1 (unat ident * 5) 0 5 lsp) (\<lambda>lsp.
     Option.bind (speex_bits_unpack_unsigned bits 6) (\<lambda>(ident, bits).
     Option.bind (addCodeword LSP_DIV_512 cdbk_nb_high1 (unat ident * 5) 5 5 lsp) (\<lambda>lsp.
       Some (lsp, bits))))))))"

definition lsp_unquant_high :: "int list \<Rightarrow> nat \<Rightarrow> speexBits \<Rightarrow> (int list \<times> speexBits) option" where
  "lsp_unquant_high lsp order bits =
     Option.bind (forUpd (\<lambda>i _. Some (s16 (LSP_LINEAR_HIGH i))) [0..<order] lsp) (\<lambda>lsp.
     Option.bind (speex_bits_unpack_unsigned bits 6) (\<lambda>(ident, bits).
     Option.bind (addCodeword LSP_DIV_256 high_lsp_cdbk (unat ident * order) 0 order lsp) (\<lambda>lsp.
     Option.bind (speex_bits_unpack_unsigned bits 6) (\<lambda>(ident, bits).
     Option.bind (addCodeword LSP_DIV_512 high_lsp_cdbk2 (unat ident * order) 0 order lsp) (\<lambda>lsp.
       Some (lsp, bits))))))"

subsection \<open>The stages of the quantizer\<close>

text \<open>An array of 16-bit numbers that holds the given integers, wrapped.\<close>

definition wraps16 :: "int list \<Rightarrow> (nat \<Rightarrow> int) \<Rightarrow> bool" where
  "wraps16 x f \<longleftrightarrow> (\<forall>k < length x. x ! k = s16 (f k))"

text \<open>Adding a multiple of a codeword, and doubling, on a part of the array.\<close>

definition plusCode :: "int \<Rightarrow> int list \<Rightarrow> nat \<Rightarrow> nat \<Rightarrow> nat \<Rightarrow> (nat \<Rightarrow> int) \<Rightarrow> nat \<Rightarrow> int" where
  "plusCode m cdbk r off n f k = f k + (if off \<le> k \<and> k < off + n then m * cdbk ! (r * n + (k - off)) else 0)"

definition doubled :: "nat \<Rightarrow> nat \<Rightarrow> (nat \<Rightarrow> int) \<Rightarrow> nat \<Rightarrow> int" where
  "doubled m n f k = (if m \<le> k \<and> k < n then f k * 2 else f k)"

lemma s16_SHL16: "s16 (SUB16 (s16 a) (SHL16 (s16 c) 5)) = s16 (a - 32 * c)"
proof -
  have "s16 (SUB16 (s16 a) (SHL16 (s16 c) 5)) = s16 (a - s16 (s16 c * 32))"
    by (simp add: SUB16_def SHL16_def push_bit_eq_mult s16_cong)
  then show ?thesis by (simp only: s16_cong mult.commute)
qed

lemma forUpd_range:
  assumes "\<And>i a. i < length a \<Longrightarrow> m \<le> i \<Longrightarrow> i < n \<Longrightarrow> f i a = g i (a ! i)"
    and "n \<le> length a" and "\<And>i. m \<le> i \<Longrightarrow> i < n \<Longrightarrow> g i (a ! i) = Some (h i)"
  shows "\<exists>b. forUpd f [m..<n] a = Some b \<and> length b = length a \<and>
    (\<forall>i < length a. b ! i = (if m \<le> i \<and> i < n then h i else a ! i))"
  using forUpd_pointwise [of "[m..<n]" f g a h] assms by auto

lemma lspSearch_ok:
  assumes "\<And>i. i \<in> set js \<Longrightarrow> \<exists>y. d i = Some y"
  shows "\<exists>r. lspSearch d js best id0 = Some r \<and> (r = id0 \<or> r \<in> set js)"
  using assms
proof (induction js arbitrary: best id0)
  case (Cons j js)
  obtain y where "d j = Some y" using Cons.prems by fastforce
  with Cons.IH [of y j] Cons.IH [of best id0] Cons.prems show ?case by auto
qed simp

lemma lspDist_ok:
  assumes "\<And>j y t. j \<in> set js \<Longrightarrow> \<exists>z. acc j y t = Some z"
    and "\<And>j. j \<in> set js \<Longrightarrow> off + j < length x \<and> base + j < length cdbk"
  shows "\<exists>y. lspDist acc x off cdbk base js dist = Some y"
  using assms
proof (induction js arbitrary: dist)
  case (Cons j js)
  let ?t = "s16 (SUB16 (x ! (off + j)) (SHL16 (s16 (cdbk ! (base + j))) 5))"
  obtain z where "acc j dist ?t = Some z" using Cons.prems(1) by fastforce
  with Cons.IH [of z] Cons.prems show ?case by simp
qed simp

lemma lspResidual_ok:
  assumes "wraps16 x f" and "off + nbDim \<le> length x" and "(r + 1) * nbDim \<le> length cdbk"
  shows "\<exists>x'. lspResidual x off cdbk r nbDim = Some x' \<and> length x' = length x \<and>
    wraps16 x' (plusCode (- 32) cdbk r off nbDim f)"
  using forUpd_range [where f = "\<lambda>k a. Option.bind (rd a k) (\<lambda>v. Option.bind (rd cdbk (r * nbDim + (k - off))) (\<lambda>c.
        Some (s16 (SUB16 v (SHL16 (s16 c) 5)))))"
      and g = "\<lambda>k v. Option.bind (rd cdbk (r * nbDim + (k - off))) (\<lambda>c. Some (s16 (SUB16 v (SHL16 (s16 c) 5))))"
      and h = "\<lambda>k. s16 (SUB16 (x ! k) (SHL16 (s16 (cdbk ! (r * nbDim + (k - off)))) 5))"
      and m = off and n = "off + nbDim" and a = x] assms
  by (auto simp: lspResidual_def wraps16_def s16_SHL16 plusCode_def)

lemma codeword_inside:
  assumes "i < nbVec" and "nbVec * nbDim \<le> len"
  shows "(i + 1) * nbDim \<le> (len :: nat)"
  using mult_le_mono1 [of "i + 1" nbVec nbDim] assms by linarith

lemma codeword_at:
  assumes "i < nbVec" and "nbVec * nbDim \<le> len" and "j < nbDim"
  shows "i * nbDim + j < (len :: nat)"
  using codeword_inside [OF assms(1,2)] assms(3) by simp

lemma search_residual_ok:
  assumes x: "wraps16 x f" "off + nbDim \<le> length x" and cdbk: "nbVec * nbDim \<le> length cdbk" "0 < nbVec"
    and acc: "\<And>j y t. j < nbDim \<Longrightarrow> \<exists>z. acc j y t = Some z"
  shows "\<exists>r x'. Option.bind (lspSearch (\<lambda>i. lspDist acc x off cdbk (i * nbDim) [0..<nbDim] 0) [0..<nbVec] VERY_LARGE32 0)
      (\<lambda>best_id. map_option (Pair best_id) (lspResidual x off cdbk best_id nbDim)) = Some (r, x') \<and> r < nbVec \<and>
    length x' = length x \<and>
    wraps16 x' (plusCode (- 32) cdbk r off nbDim f)"
proof -
  have d: "\<exists>y. lspDist acc x off cdbk (i * nbDim) [0..<nbDim] 0 = Some y" if "i \<in> set [0..<nbVec]" for i
  proof (rule lspDist_ok)
    fix j y t assume "j \<in> set [0..<nbDim]"
    then show "\<exists>z. acc j y t = Some z" using acc by simp
  next
    fix j assume "j \<in> set [0..<nbDim]"
    then show "off + j < length x \<and> i * nbDim + j < length cdbk"
      using codeword_at [OF _ cdbk(1)] that x(2) by simp
  qed
  from lspSearch_ok [where js = "[0..<nbVec]", OF d]
  obtain r where r: "lspSearch (\<lambda>i. lspDist acc x off cdbk (i * nbDim) [0..<nbDim] 0) [0..<nbVec] VERY_LARGE32 0 = Some r"
    "r < nbVec" using cdbk(2) by fastforce
  from r(1) lspResidual_ok [OF x codeword_inside [OF r(2) cdbk(1)]] r(2) show ?thesis by auto
qed

lemma lsp_quant_ok:
  assumes "wraps16 x f" and "off + nbDim \<le> length x" and "nbVec * nbDim \<le> length cdbk" and "0 < nbVec"
  shows "\<exists>r x'. lsp_quant x off cdbk nbVec nbDim = Some (r, x') \<and> r < nbVec \<and> length x' = length x \<and>
    wraps16 x' (plusCode (- 32) cdbk r off nbDim f)"
  unfolding lsp_quant_def by (rule search_residual_ok [OF assms]) simp

lemma lsp_weight_quant_ok:
  assumes "wraps16 x f" and "off + nbDim \<le> length x" and "nbVec * nbDim \<le> length cdbk" and "0 < nbVec"
    and "woff + nbDim \<le> length w"
  shows "\<exists>r x'. lsp_weight_quant x off w woff cdbk nbVec nbDim = Some (r, x') \<and> r < nbVec \<and> length x' = length x \<and>
    wraps16 x' (plusCode (- 32) cdbk r off nbDim f)"
  unfolding lsp_weight_quant_def by (rule search_residual_ok [OF assms(1-4)]) (use assms(5) in simp)

lemma scale_ok:
  assumes "wraps16 x f" and "n \<le> length x"
  shows "\<exists>x'. scaleRange (\<lambda>q. q * 2) m n x = Some x' \<and> length x' = length x \<and>
    wraps16 x' (doubled m n f)"
  using forUpd_range [where f = "\<lambda>i a. map_option (\<lambda>q. s16 (q * 2)) (rd a i)" and g = "\<lambda>i q. Some (s16 (q * 2))"
      and h = "\<lambda>i. s16 (x ! i * 2)" and m = m and n = n and a = x] assms
  by (auto simp: scaleRange_def wraps16_def s16_cong doubled_def)

lemma descale_ok:
  assumes "n \<le> length x"
  shows "\<exists>x'. scaleRange (\<lambda>q. PSHR16 q b) 0 n x = Some x' \<and> length x' = length x \<and>
    (\<forall>k < n. x' ! k = s16 (PSHR16 (x ! k) b))"
  using forUpd_range [where f = "\<lambda>i a. map_option (\<lambda>q. s16 (PSHR16 q b)) (rd a i)" and g = "\<lambda>i q. Some (s16 (PSHR16 q b))"
      and h = "\<lambda>i. s16 (PSHR16 (x ! i) b)" and m = 0 and n = n and a = x] assms
  by (auto simp: scaleRange_def)

lemma addCodeword_ok:
  assumes "wraps16 x f" and "off + n \<le> length x" and "base + n \<le> length cdbk"
  shows "\<exists>x'. addCodeword scale cdbk base off n x = Some x' \<and> length x' = length x \<and>
    wraps16 x' (\<lambda>k. f k + (if off \<le> k \<and> k < off + n then scale (cdbk ! (base + (k - off))) else 0))"
  using forUpd_range [where f = "\<lambda>k a. Option.bind (rd a k) (\<lambda>x. Option.bind (rd cdbk (base + (k - off))) (\<lambda>c.
        Some (s16 (x + scale c))))"
      and g = "\<lambda>k v. Option.bind (rd cdbk (base + (k - off))) (\<lambda>c. Some (s16 (v + scale c)))"
      and h = "\<lambda>k. s16 (x ! k + scale (cdbk ! (base + (k - off))))"
      and m = off and n = "off + n" and a = x] assms
  by (auto simp: addCodeword_def wraps16_def s16_cong)

lemma linear_ok:
  assumes "n \<le> length x"
  shows "\<exists>x'. forUpd (\<lambda>i _. Some (s16 (L i))) [0..<n] x = Some x' \<and> length x' = length x \<and> (\<forall>k < n. x' ! k = s16 (L k))"
  using forUpd_range [where f = "\<lambda>i _. Some (s16 (L i))" and g = "\<lambda>i _. Some (s16 (L i))"
      and h = "\<lambda>i. s16 (L i)" and m = 0 and n = n and a = x] assms by auto

lemma copy_ok:
  assumes "length x = n" and "length lsp = n"
  shows "forUpd (\<lambda>i _. rd lsp i) [0..<n] x = Some lsp"
proof -
  obtain x' where "forUpd (\<lambda>i _. rd lsp i) [0..<n] x = Some x'" "length x' = n" "\<forall>k < n. x' ! k = lsp ! k"
    using forUpd_range [where f = "\<lambda>i _. rd lsp i" and g = "\<lambda>i _. rd lsp i"
      and h = "\<lambda>i. lsp ! i" and m = 0 and n = n and a = x] assms by auto
  with assms show ?thesis by (simp add: list_eq_iff_nth_eq)
qed

lemma remove_linear_ok:
  assumes "n \<le> length x"
  shows "\<exists>x'. forUpd (\<lambda>i a. map_option (\<lambda>q. s16 (SUB16 q (L i))) (rd a i)) [0..<n] x = Some x' \<and> length x' = length x \<and>
    (\<forall>k < n. x' ! k = s16 (x ! k - L k))"
  using forUpd_range [where f = "\<lambda>i a. map_option (\<lambda>q. s16 (SUB16 q (L i))) (rd a i)"
      and g = "\<lambda>i q. Some (s16 (SUB16 q (L i)))"
      and h = "\<lambda>i. s16 (x ! i - L i)" and m = 0 and n = n and a = x] assms
  by (auto simp: SUB16_def s16_cong)

lemma from_lsp_ok:
  assumes "n \<le> length x" and "n \<le> length lsp"
  shows "\<exists>x'. forUpd (\<lambda>i a. Option.bind (rd lsp i) (\<lambda>l. map_option (\<lambda>q. s16 (l - q)) (rd a i))) [0..<n] x = Some x' \<and>
    length x' = length x \<and> (\<forall>k < n. x' ! k = s16 (lsp ! k - x ! k))"
  using forUpd_range [where f = "\<lambda>i a. Option.bind (rd lsp i) (\<lambda>l. map_option (\<lambda>q. s16 (l - q)) (rd a i))"
      and g = "\<lambda>i q. map_option (\<lambda>l. s16 (l - q)) (rd lsp i)"
      and h = "\<lambda>i. s16 (lsp ! i - x ! i)" and m = 0 and n = n and a = x] assms
  by auto

text \<open>Line spectral pairs in ascending order within half a turn, as the analysis delivers them.\<close>

definition lsp_ordered :: "int list \<Rightarrow> bool" where
  "lsp_ordered lsp \<longleftrightarrow> sorted lsp \<and> (\<forall>x \<in> set lsp. 0 \<le> x \<and> x \<le> LSP_PI)"

lemma weight_divisor:
  assumes "0 \<le> t" "t \<le> LSP_PI"
  shows "\<exists>w. DIV32_16 81920 (ADD16 300 t) = Some w \<and> 0 < w"
proof -
  have t: "0 \<le> t" "t \<le> 25736" using assms by (simp_all add: LSP_PI_def)
  then have a: "ADD16 300 t = 300 + t" by (simp add: ADD16_def s16_id)
  have "81920 sdiv (300 + t) = 81920 div (300 + t)" using t by (simp add: signed_divide_int_def)
  moreover have "1 \<le> 81920 div (300 + t)" using t zdiv_mono2 [of 81920 "300 + t" 26036] by simp
  moreover have "81920 div (300 + t) \<le> 81920 div 300" using t by (intro zdiv_mono2) auto
  ultimately show ?thesis using t
    by (simp add: DIV32_16_def a s16_id s32_id)
qed

lemma weights_ok:
  assumes "lsp_ordered q" and "length q = n" and "n \<le> length w"
  shows "\<exists>w'. compute_quant_weights q w n = Some w' \<and> length w' = length w \<and> (\<forall>i < n. 0 < w' ! i)"
proof -
  let ?t = "\<lambda>i. min (if i = 0 then q ! i else q ! i - q ! (i - 1)) (if i + 1 = n then LSP_PI - q ! i else q ! (i + 1) - q ! i)"
  let ?h = "\<lambda>i. the (DIV32_16 81920 (ADD16 300 (?t i)))"
  have q: "0 \<le> q ! i" "q ! i \<le> LSP_PI" if "i < n" for i
    using assms(1,2) that by (simp_all add: lsp_ordered_def)
  have mono: "q ! i \<le> q ! j" if "i \<le> j" "j < n" for i j
    using assms(1,2) that sorted_nth_mono [of q i j] by (simp add: lsp_ordered_def)
  have t: "0 \<le> ?t i" "?t i \<le> LSP_PI" if "i < n" for i
    using q [OF that] q [of "i - 1"] q [of "i + 1"] mono [of "i - 1" i] mono [of i "i + 1"] that by (auto simp: min_def)
  have s: "s16 x = x" if "0 \<le> x" "x \<le> LSP_PI" for x using that by (simp add: s16_id LSP_PI_def)
  have h: "\<exists>v. DIV32_16 81920 (ADD16 300 (?t i)) = Some v \<and> 0 < v" if "i < n" for i
    using weight_divisor [OF t [OF that]] .
  let ?f = "\<lambda>i. Option.bind (rd q i) (\<lambda>y.
       Option.bind (if i = 0 then Some (s16 y) else map_option (\<lambda>p. s16 (y - p)) (rd q (i - 1))) (\<lambda>tmp1.
       Option.bind (if i + 1 = n then Some (s16 (LSP_PI - y)) else map_option (\<lambda>z. s16 (z - y)) (rd q (i + 1))) (\<lambda>tmp2.
       let tmp1 = (if tmp2 < tmp1 then tmp2 else tmp1)
       in DIV32_16 81920 (ADD16 300 tmp1))))"
  have f: "?f i = Some (?h i)" if "i < n" for i
  proof -
    let ?a = "if i = 0 then q ! i else q ! i - q ! (i - 1)" and ?b = "if i + 1 = n then LSP_PI - q ! i else q ! (i + 1) - q ! i"
    have a: "0 \<le> ?a" "?a \<le> LSP_PI" and b: "0 \<le> ?b" "?b \<le> LSP_PI"
      using q [OF that] q(1) [OF less_imp_diff_less [OF that, of 1]] q [of "i + 1"] mono [of "i - 1" i] mono [of i "i + 1"] that
      by auto
    have "?f i = DIV32_16 81920 (ADD16 300 (if ?b < ?a then ?b else ?a))"
      using that assms(2) s [OF a] s [OF b] by (cases "i = 0"; cases "i + 1 = n") (simp_all split: if_splits)
    also have "(if ?b < ?a then ?b else ?a) = ?t i" by (simp add: min_def)
    finally show ?thesis using h [OF that] by auto
  qed
  obtain w' where w': "forUpd (\<lambda>i _. ?f i) [0..<n] w = Some w'" "length w' = length w"
    "\<forall>i < length w. w' ! i = (if 0 \<le> i \<and> i < n then ?h i else w ! i)"
    using forUpd_range [where f = "\<lambda>i _. ?f i" and g = "\<lambda>i _. ?f i" and h = ?h and m = 0 and n = n and a = w] f assms(3)
    by blast
  have "0 < w' ! i" if "i < n" for i using h [OF that] w'(3) that assms(3) by auto
  with w'(1,2) show ?thesis by (simp add: compute_quant_weights_def)
qed

text \<open>The last step: the residual, scaled down, is the quantization error unless it overflows.\<close>

lemma residual_recovers:
  assumes "r = s16 (2 ^ n * (x - d))" and "n < 15" "0 < n" and "- (2 ^ (15 - n)) \<le> x - d" "x - d < 2 ^ (15 - n)"
  shows "s16 (x - s16 (PSHR16 r n)) = s16 d"
proof -
  have p: "(2 :: int) ^ n * 2 ^ (15 - n) = 32768" using assms(2) by (simp flip: power_add)
  have "2 ^ n * - (2 ^ (15 - n)) \<le> 2 ^ n * (x - d)" by (rule mult_left_mono) (use assms(4) in simp_all)
  moreover have "2 ^ n * (x - d) < 2 ^ n * 2 ^ (15 - n)" by (rule mult_strict_left_mono) (use assms(5) in simp_all)
  ultimately have b: "- 32768 \<le> 2 ^ n * (x - d)" "2 ^ n * (x - d) < 32768" using p by (simp_all only: mult_minus_right)
  then have r: "r = 2 ^ n * (x - d)" using assms(1) by (simp only: s16_id)
  have h: "drop_bit 1 (push_bit n 1) = (2 :: int) ^ (n - 1)"
    using assms(3) by (cases n) (simp_all add: push_bit_eq_mult drop_bit_eq_div)
  have "(2 :: int) ^ (n - 1) \<le> 16384" using power_increasing [of "n - 1" 14 "2 :: int"] assms(2) by simp
  moreover have "(0 :: int) < 2 ^ (n - 1)" by simp
  ultimately have e: "s32 (2 ^ n * (x - d) + 2 ^ (n - 1)) = 2 ^ n * (x - d) + 2 ^ (n - 1)"
    using b by (intro s32_id) linarith+
  have "PSHR16 r n = (2 ^ n * (x - d) + 2 ^ (n - 1)) div 2 ^ n"
    unfolding PSHR16_def SHR16_def h r e by (rule drop_bit_eq_div)
  also have "\<dots> = x - d"
  proof -
    have "(2 :: int) ^ (n - 1) < 2 ^ n" using assms(3) by (intro power_strict_increasing) simp_all
    then show ?thesis by (simp add: div_add1_eq)
  qed
  finally show ?thesis by (simp add: s16_cong)
qed

subsection \<open>Decoded values\<close>

text \<open>The values the codebook indices stand for.\<close>

definition nbCode :: "nat \<Rightarrow> nat \<Rightarrow> nat \<Rightarrow> nat \<Rightarrow> nat \<Rightarrow> nat \<Rightarrow> int" where
  "nbCode r1 r2 r3 r4 r5 = plusCode 8 cdbk_nb_high2 r5 5 5 (plusCode 16 cdbk_nb_high1 r4 5 5
     (plusCode 8 cdbk_nb_low2 r3 0 5 (plusCode 16 cdbk_nb_low1 r2 0 5 (plusCode 32 cdbk_nb r1 0 10
       (\<lambda>k. 2048 * (int k + 1))))))"

definition lbrCode :: "nat \<Rightarrow> nat \<Rightarrow> nat \<Rightarrow> nat \<Rightarrow> int" where
  "lbrCode r1 r2 r3 = plusCode 16 cdbk_nb_high1 r3 5 5 (plusCode 16 cdbk_nb_low1 r2 0 5
     (plusCode 32 cdbk_nb r1 0 10 (\<lambda>k. 2048 * (int k + 1))))"

definition highCode :: "nat \<Rightarrow> nat \<Rightarrow> nat \<Rightarrow> int" where
  "highCode r1 r2 = plusCode 16 high_lsp_cdbk2 r2 0 8 (plusCode 32 high_lsp_cdbk r1 0 8 (\<lambda>k. 2560 * int k + 6144))"

lemma signedChars_nth: "signedChars t \<Longrightarrow> i < length t \<Longrightarrow> - 128 \<le> t ! i \<and> t ! i \<le> 127"
  by (simp add: signedChars_def list_all_length)

lemma LSP_DIV_exact:
  assumes "- 128 \<le> c \<and> c \<le> 127"
  shows "LSP_DIV_256 c = 32 * c" "LSP_DIV_512 c = 16 * c" "LSP_DIV_1024 c = 8 * c"
  using assms by (simp_all add: LSP_DIV_256_def LSP_DIV_512_def LSP_DIV_1024_def SHL16_def push_bit_eq_mult s16_id s32_id)

lemma LSP_LINEAR_exact: "k < 10 \<Longrightarrow> LSP_LINEAR k = 2048 * (int k + 1)"
  by (simp add: LSP_LINEAR_def SHL16_def push_bit_eq_mult s32_id)

lemma LSP_LINEAR_HIGH_exact: "k < 8 \<Longrightarrow> LSP_LINEAR_HIGH k = 2560 * int k + 6144"
  by (simp add: LSP_LINEAR_HIGH_def ADD16_def MULT16_16_16_def s16_id s32_id)

lemmas lsp_tables = length_lsp chars_lsp

text \<open>One codebook stage of the decoder.\<close>

lemma stage_ok:
  assumes "wraps16 x f" and "off + n \<le> length x" and "r < 64" and "64 * n \<le> length cdbk" and "signedChars cdbk"
    and "\<And>c. - 128 \<le> c \<and> c \<le> 127 \<Longrightarrow> scale c = m * c"
  shows "\<exists>x'. addCodeword scale cdbk (r * n) off n x = Some x' \<and> length x' = length x \<and>
    wraps16 x' (plusCode m cdbk r off n f)"
proof -
  have i: "r * n + (k - off) < length cdbk" if "off \<le> k" "k < off + n" for k
    using codeword_at [OF assms(3,4), of "k - off"] that by simp
  have "(\<lambda>k. f k + (if off \<le> k \<and> k < off + n then scale (cdbk ! (r * n + (k - off))) else 0)) =
    plusCode m cdbk r off n f"
    using assms(6) [OF signedChars_nth [OF assms(5) i]] by (auto simp: plusCode_def)
  with addCodeword_ok [OF assms(1,2), of "r * n" cdbk scale] codeword_inside [OF assms(3,4)] show ?thesis
    by (simp add: add.commute)
qed

lemma unquant_nb_ok:
  assumes "length lsp = 10"
    and u: "speex_bits_unpack_unsigned b 6 = Some (v1, b1)" "speex_bits_unpack_unsigned b1 6 = Some (v2, b2)"
      "speex_bits_unpack_unsigned b2 6 = Some (v3, b3)" "speex_bits_unpack_unsigned b3 6 = Some (v4, b4)"
      "speex_bits_unpack_unsigned b4 6 = Some (v5, b5)"
    and v: "unat v1 < 64" "unat v2 < 64" "unat v3 < 64" "unat v4 < 64" "unat v5 < 64"
  shows "\<exists>d. lsp_unquant_nb lsp 10 b = Some (d, b5) \<and> length d = 10 \<and>
    wraps16 d (nbCode (unat v1) (unat v2) (unat v3) (unat v4) (unat v5))"
proof -
  obtain x0 where x0: "forUpd (\<lambda>i _. Some (s16 (LSP_LINEAR i))) [0..<10] lsp = Some x0" "length x0 = 10"
    "wraps16 x0 (\<lambda>k. 2048 * (int k + 1))"
    using linear_ok [of 10 lsp LSP_LINEAR] assms(1) by (auto simp: wraps16_def LSP_LINEAR_exact)
  note [simp] = lsp_tables LSP_DIV_exact
  from stage_ok [OF x0(3), of 0 10 "unat v1" cdbk_nb LSP_DIV_256 32] x0 v obtain x1 where
    x1: "addCodeword LSP_DIV_256 cdbk_nb (unat v1 * 10) 0 10 x0 = Some x1" "length x1 = 10"
      "wraps16 x1 (plusCode 32 cdbk_nb (unat v1) 0 10 (\<lambda>k. 2048 * (int k + 1)))" by auto
  from stage_ok [OF x1(3), of 0 5 "unat v2" cdbk_nb_low1 LSP_DIV_512 16] x1 v obtain x2 where
    x2: "addCodeword LSP_DIV_512 cdbk_nb_low1 (unat v2 * 5) 0 5 x1 = Some x2" "length x2 = 10"
      "wraps16 x2 (plusCode 16 cdbk_nb_low1 (unat v2) 0 5 (plusCode 32 cdbk_nb (unat v1) 0 10 (\<lambda>k. 2048 * (int k + 1))))" by auto
  from stage_ok [OF x2(3), of 0 5 "unat v3" cdbk_nb_low2 LSP_DIV_1024 8] x2 v obtain x3 where
    x3: "addCodeword LSP_DIV_1024 cdbk_nb_low2 (unat v3 * 5) 0 5 x2 = Some x3" "length x3 = 10"
      "wraps16 x3 (plusCode 8 cdbk_nb_low2 (unat v3) 0 5 (plusCode 16 cdbk_nb_low1 (unat v2) 0 5
        (plusCode 32 cdbk_nb (unat v1) 0 10 (\<lambda>k. 2048 * (int k + 1)))))" by auto
  from stage_ok [OF x3(3), of 5 5 "unat v4" cdbk_nb_high1 LSP_DIV_512 16] x3 v obtain x4 where
    x4: "addCodeword LSP_DIV_512 cdbk_nb_high1 (unat v4 * 5) 5 5 x3 = Some x4" "length x4 = 10"
      "wraps16 x4 (plusCode 16 cdbk_nb_high1 (unat v4) 5 5 (plusCode 8 cdbk_nb_low2 (unat v3) 0 5
        (plusCode 16 cdbk_nb_low1 (unat v2) 0 5 (plusCode 32 cdbk_nb (unat v1) 0 10 (\<lambda>k. 2048 * (int k + 1))))))" by auto
  from stage_ok [OF x4(3), of 5 5 "unat v5" cdbk_nb_high2 LSP_DIV_1024 8] x4 v obtain x5 where
    x5: "addCodeword LSP_DIV_1024 cdbk_nb_high2 (unat v5 * 5) 5 5 x4 = Some x5" "length x5 = 10"
      "wraps16 x5 (nbCode (unat v1) (unat v2) (unat v3) (unat v4) (unat v5))" by (auto simp: nbCode_def)
  from x0(1) x1(1) x2(1) x3(1) x4(1) x5 u show ?thesis by (simp add: lsp_unquant_nb_def)
qed

lemma unquant_lbr_ok:
  assumes "length lsp = 10"
    and u: "speex_bits_unpack_unsigned b 6 = Some (v1, b1)" "speex_bits_unpack_unsigned b1 6 = Some (v2, b2)"
      "speex_bits_unpack_unsigned b2 6 = Some (v3, b3)"
    and v: "unat v1 < 64" "unat v2 < 64" "unat v3 < 64"
  shows "\<exists>d. lsp_unquant_lbr lsp 10 b = Some (d, b3) \<and> length d = 10 \<and>
    wraps16 d (lbrCode (unat v1) (unat v2) (unat v3))"
proof -
  obtain x0 where x0: "forUpd (\<lambda>i _. Some (s16 (LSP_LINEAR i))) [0..<10] lsp = Some x0" "length x0 = 10"
    "wraps16 x0 (\<lambda>k. 2048 * (int k + 1))"
    using linear_ok [of 10 lsp LSP_LINEAR] assms(1) by (auto simp: wraps16_def LSP_LINEAR_exact)
  note [simp] = lsp_tables LSP_DIV_exact
  from stage_ok [OF x0(3), of 0 10 "unat v1" cdbk_nb LSP_DIV_256 32] x0 v obtain x1 where
    x1: "addCodeword LSP_DIV_256 cdbk_nb (unat v1 * 10) 0 10 x0 = Some x1" "length x1 = 10"
      "wraps16 x1 (plusCode 32 cdbk_nb (unat v1) 0 10 (\<lambda>k. 2048 * (int k + 1)))" by auto
  from stage_ok [OF x1(3), of 0 5 "unat v2" cdbk_nb_low1 LSP_DIV_512 16] x1 v obtain x2 where
    x2: "addCodeword LSP_DIV_512 cdbk_nb_low1 (unat v2 * 5) 0 5 x1 = Some x2" "length x2 = 10"
      "wraps16 x2 (plusCode 16 cdbk_nb_low1 (unat v2) 0 5 (plusCode 32 cdbk_nb (unat v1) 0 10 (\<lambda>k. 2048 * (int k + 1))))" by auto
  from stage_ok [OF x2(3), of 5 5 "unat v3" cdbk_nb_high1 LSP_DIV_512 16] x2 v obtain x3 where
    x3: "addCodeword LSP_DIV_512 cdbk_nb_high1 (unat v3 * 5) 5 5 x2 = Some x3" "length x3 = 10"
      "wraps16 x3 (lbrCode (unat v1) (unat v2) (unat v3))" by (auto simp: lbrCode_def)
  from x0(1) x1(1) x2(1) x3 u show ?thesis by (simp add: lsp_unquant_lbr_def)
qed

lemma unquant_high_ok:
  assumes "length lsp = 8"
    and u: "speex_bits_unpack_unsigned b 6 = Some (v1, b1)" "speex_bits_unpack_unsigned b1 6 = Some (v2, b2)"
    and v: "unat v1 < 64" "unat v2 < 64"
  shows "\<exists>d. lsp_unquant_high lsp 8 b = Some (d, b2) \<and> length d = 8 \<and> wraps16 d (highCode (unat v1) (unat v2))"
proof -
  obtain x0 where x0: "forUpd (\<lambda>i _. Some (s16 (LSP_LINEAR_HIGH i))) [0..<8] lsp = Some x0" "length x0 = 8"
    "wraps16 x0 (\<lambda>k. 2560 * int k + 6144)"
    using linear_ok [of 8 lsp LSP_LINEAR_HIGH] assms(1) by (auto simp: wraps16_def LSP_LINEAR_HIGH_exact)
  note [simp] = lsp_tables LSP_DIV_exact
  from stage_ok [OF x0(3), of 0 8 "unat v1" high_lsp_cdbk LSP_DIV_256 32] x0 v obtain x1 where
    x1: "addCodeword LSP_DIV_256 high_lsp_cdbk (unat v1 * 8) 0 8 x0 = Some x1" "length x1 = 8"
      "wraps16 x1 (plusCode 32 high_lsp_cdbk (unat v1) 0 8 (\<lambda>k. 2560 * int k + 6144))" by auto
  from stage_ok [OF x1(3), of 0 8 "unat v2" high_lsp_cdbk2 LSP_DIV_512 16] x1 v obtain x2 where
    x2: "addCodeword LSP_DIV_512 high_lsp_cdbk2 (unat v2 * 8) 0 8 x1 = Some x2" "length x2 = 8"
      "wraps16 x2 (highCode (unat v1) (unat v2))" by (auto simp: highCode_def)
  from x0(1) x1(1) x2 u show ?thesis by (simp add: lsp_unquant_high_def)
qed

subsection \<open>The encoder\<close>

lemma quant_nb_ok:
  assumes len: "length lsp = 10" "length qlsp = 10" and lsp: "lsp_ordered lsp"
    and b: "sb_writing b" "sb_owner b" and al: "alloc_ok al = (\<lambda>_. True)"
  shows "\<exists>q b' r1 r2 r3 r4 r5. lsp_quant_nb al lsp qlsp 10 b = Some (q, b') \<and> length q = 10 \<and> sb_writing b' \<and>
    r1 < 64 \<and> r2 < 64 \<and> r3 < 64 \<and> r4 < 64 \<and> r5 < 64 \<and>
    sb_stream b' = sb_stream b @ valueBits 6 (of_nat r1) @ valueBits 6 (of_nat r2) @ valueBits 6 (of_nat r3) @ valueBits 6 (of_nat r4) @ valueBits 6 (of_nat r5) \<and>
    (\<forall>k < 10. - 8192 \<le> lsp ! k - nbCode r1 r2 r3 r4 r5 k \<longrightarrow> lsp ! k - nbCode r1 r2 r3 r4 r5 k < 8192 \<longrightarrow>
      q ! k = s16 (nbCode r1 r2 r3 r4 r5 k))"
proof -
  note [simp] = lsp_tables
  note x0 = copy_ok [OF len(2,1)]
  obtain w where w: "compute_quant_weights lsp (replicate 10 0) 10 = Some w" "length w = 10"
    using weights_ok [OF lsp len(1), of "replicate 10 0"] by auto
  obtain y0 where y0: "forUpd (\<lambda>i a. map_option (\<lambda>q. s16 (SUB16 q (LSP_LINEAR i))) (rd a i)) [0..<10] lsp = Some y0"
    "length y0 = 10" "wraps16 y0 (\<lambda>k. lsp ! k - LSP_LINEAR k)"
    using remove_linear_ok [of 10 lsp LSP_LINEAR] len by (auto simp: wraps16_def)
  obtain r1 y1 where y1: "lsp_quant y0 0 cdbk_nb 64 10 = Some (r1, y1)" "length y1 = 10" "r1 < 64" and
    y1f: "wraps16 y1 (plusCode (- 32) cdbk_nb r1 0 10 (\<lambda>k. lsp ! k - LSP_LINEAR k))"
    using lsp_quant_ok [OF y0(3), of 0 10 64 cdbk_nb] y0(2) by auto
  obtain b1 where b1: "speex_bits_pack al b (of_nat r1) 6 = Some b1" "sb_writing b1"
    "sb_stream b1 = sb_stream b @ valueBits 6 (of_nat r1)" "sb_owner b1"
    using pack_ok(2) [of b 6 al] b al by auto
  obtain y2 where y2: "scaleRange (\<lambda>q. q * 2) 0 10 y1 = Some y2" "length y2 = 10" and
    y2f: "wraps16 y2 (doubled 0 10 (plusCode (- 32) cdbk_nb r1 0 10 (\<lambda>k. lsp ! k - LSP_LINEAR k)))"
    using scale_ok [OF y1f, of 10 0] y1(2) by auto
  obtain r2 y3 where y3: "lsp_weight_quant y2 0 w 0 cdbk_nb_low1 64 5 = Some (r2, y3)" "length y3 = 10" "r2 < 64" and
    y3f: "wraps16 y3 (plusCode (- 32) cdbk_nb_low1 r2 0 5 (doubled 0 10 (plusCode (- 32) cdbk_nb r1 0 10 (\<lambda>k. lsp ! k - LSP_LINEAR k))))"
    using lsp_weight_quant_ok [OF y2f, of 0 5 64 cdbk_nb_low1 0 w] y2(2) w(2) by auto
  obtain b2 where b2: "speex_bits_pack al b1 (of_nat r2) 6 = Some b2" "sb_writing b2"
    "sb_stream b2 = sb_stream b1 @ valueBits 6 (of_nat r2)" "sb_owner b2"
    using pack_ok(2) [of b1 6 al] b1(2,4) al by auto
  obtain y4 where y4: "scaleRange (\<lambda>q. q * 2) 0 5 y3 = Some y4" "length y4 = 10" and
    y4f: "wraps16 y4 (doubled 0 5 (plusCode (- 32) cdbk_nb_low1 r2 0 5 (doubled 0 10 (plusCode (- 32) cdbk_nb r1 0 10 (\<lambda>k. lsp ! k - LSP_LINEAR k)))))"
    using scale_ok [OF y3f, of 5 0] y3(2) by auto
  obtain r3 y5 where y5: "lsp_weight_quant y4 0 w 0 cdbk_nb_low2 64 5 = Some (r3, y5)" "length y5 = 10" "r3 < 64" and
    y5f: "wraps16 y5 (plusCode (- 32) cdbk_nb_low2 r3 0 5 (doubled 0 5 (plusCode (- 32) cdbk_nb_low1 r2 0 5 (doubled 0 10 (plusCode (- 32) cdbk_nb r1 0 10 (\<lambda>k. lsp ! k - LSP_LINEAR k))))))"
    using lsp_weight_quant_ok [OF y4f, of 0 5 64 cdbk_nb_low2 0 w] y4(2) w(2) by auto
  obtain b3 where b3: "speex_bits_pack al b2 (of_nat r3) 6 = Some b3" "sb_writing b3"
    "sb_stream b3 = sb_stream b2 @ valueBits 6 (of_nat r3)" "sb_owner b3"
    using pack_ok(2) [of b2 6 al] b2(2,4) al by auto
  obtain r4 y6 where y6: "lsp_weight_quant y5 5 w 5 cdbk_nb_high1 64 5 = Some (r4, y6)" "length y6 = 10" "r4 < 64" and
    y6f: "wraps16 y6 (plusCode (- 32) cdbk_nb_high1 r4 5 5 (plusCode (- 32) cdbk_nb_low2 r3 0 5 (doubled 0 5 (plusCode (- 32) cdbk_nb_low1 r2 0 5 (doubled 0 10 (plusCode (- 32) cdbk_nb r1 0 10 (\<lambda>k. lsp ! k - LSP_LINEAR k)))))))"
    using lsp_weight_quant_ok [OF y5f, of 5 5 64 cdbk_nb_high1 5 w] y5(2) w(2) by auto
  obtain b4 where b4: "speex_bits_pack al b3 (of_nat r4) 6 = Some b4" "sb_writing b4"
    "sb_stream b4 = sb_stream b3 @ valueBits 6 (of_nat r4)" "sb_owner b4"
    using pack_ok(2) [of b3 6 al] b3(2,4) al by auto
  obtain y7 where y7: "scaleRange (\<lambda>q. q * 2) 5 10 y6 = Some y7" "length y7 = 10" and
    y7f: "wraps16 y7 (doubled 5 10 (plusCode (- 32) cdbk_nb_high1 r4 5 5 (plusCode (- 32) cdbk_nb_low2 r3 0 5 (doubled 0 5 (plusCode (- 32) cdbk_nb_low1 r2 0 5 (doubled 0 10 (plusCode (- 32) cdbk_nb r1 0 10 (\<lambda>k. lsp ! k - LSP_LINEAR k))))))))"
    using scale_ok [OF y6f, of 10 5] y6(2) by auto
  obtain r5 y8 where y8: "lsp_weight_quant y7 5 w 5 cdbk_nb_high2 64 5 = Some (r5, y8)" "length y8 = 10" "r5 < 64" and
    y8f: "wraps16 y8 (plusCode (- 32) cdbk_nb_high2 r5 5 5 (doubled 5 10 (plusCode (- 32) cdbk_nb_high1 r4 5 5 (plusCode (- 32) cdbk_nb_low2 r3 0 5 (doubled 0 5 (plusCode (- 32) cdbk_nb_low1 r2 0 5 (doubled 0 10 (plusCode (- 32) cdbk_nb r1 0 10 (\<lambda>k. lsp ! k - LSP_LINEAR k)))))))))"
    using lsp_weight_quant_ok [OF y7f, of 5 5 64 cdbk_nb_high2 5 w] y7(2) w(2) by auto
  obtain b5 where b5: "speex_bits_pack al b4 (of_nat r5) 6 = Some b5" "sb_writing b5"
    "sb_stream b5 = sb_stream b4 @ valueBits 6 (of_nat r5)" "sb_owner b5"
    using pack_ok(2) [of b4 6 al] b4(2,4) al by auto
  obtain z where z: "scaleRange (\<lambda>q. PSHR16 q 2) 0 10 y8 = Some z" "length z = 10"
    "\<forall>k < 10. z ! k = s16 (PSHR16 (y8 ! k) 2)"
    using descale_ok [of 10 y8 2] y8(2) by auto
  obtain q where q: "forUpd (\<lambda>i a. Option.bind (rd lsp i) (\<lambda>l. map_option (\<lambda>q. s16 (l - q)) (rd a i))) [0..<10] z = Some q"
    "length q = 10" "\<forall>k < 10. q ! k = s16 (lsp ! k - z ! k)"
    using from_lsp_ok [of 10 z lsp] z(2) len by auto
  have "q ! k = s16 (nbCode r1 r2 r3 r4 r5 k)"
    if k: "k < 10" and e: "- 8192 \<le> lsp ! k - nbCode r1 r2 r3 r4 r5 k" "lsp ! k - nbCode r1 r2 r3 r4 r5 k < 8192" for k
  proof -
    have "y8 ! k = s16 (2 ^ 2 * (lsp ! k - nbCode r1 r2 r3 r4 r5 k))"
      using y8f y8(2) k
      by (cases "k < 5") (simp_all add: wraps16_def doubled_def plusCode_def nbCode_def LSP_LINEAR_exact algebra_simps)
    from residual_recovers [OF this] e z(3) q(3) k show ?thesis by simp
  qed
  moreover have "lsp_quant_nb al lsp qlsp 10 b = Some (q, b5)"
    by (simp add: lsp_quant_nb_def x0 w(1) y0(1) b1(1) y1(1) y2(1) b2(1) y3(1) y4(1) b3(1) y5(1) b4(1) y6(1) y7(1) b5(1) y8(1) z(1) q(1) del: One_nat_def)
  moreover have "sb_stream b5 = sb_stream b @ valueBits 6 (of_nat r1) @ valueBits 6 (of_nat r2) @ valueBits 6 (of_nat r3) @ valueBits 6 (of_nat r4) @ valueBits 6 (of_nat r5)"
    by (simp add: b1(3) b2(3) b3(3) b4(3) b5(3))
  ultimately show ?thesis using q(2) b5(2) y1(3) y3(3) y5(3) y6(3) y8(3)
    by - (rule exI [where x = q], rule exI [where x = b5], rule exI [where x = r1], rule exI [where x = r2], rule exI [where x = r3], rule exI [where x = r4], rule exI [where x = r5], intro conjI, simp_all)
qed

lemma quant_lbr_ok:
  assumes len: "length lsp = 10" "length qlsp = 10" and lsp: "lsp_ordered lsp"
    and b: "sb_writing b" "sb_owner b" and al: "alloc_ok al = (\<lambda>_. True)"
  shows "\<exists>q b' r1 r2 r3. lsp_quant_lbr al lsp qlsp 10 b = Some (q, b') \<and> length q = 10 \<and> sb_writing b' \<and>
    r1 < 64 \<and> r2 < 64 \<and> r3 < 64 \<and>
    sb_stream b' = sb_stream b @ valueBits 6 (of_nat r1) @ valueBits 6 (of_nat r2) @ valueBits 6 (of_nat r3) \<and>
    (\<forall>k < 10. - 16384 \<le> lsp ! k - lbrCode r1 r2 r3 k \<longrightarrow> lsp ! k - lbrCode r1 r2 r3 k < 16384 \<longrightarrow>
      q ! k = s16 (lbrCode r1 r2 r3 k))"
proof -
  note [simp] = lsp_tables
  note x0 = copy_ok [OF len(2,1)]
  obtain w where w: "compute_quant_weights lsp (replicate 10 0) 10 = Some w" "length w = 10"
    using weights_ok [OF lsp len(1), of "replicate 10 0"] by auto
  obtain y0 where y0: "forUpd (\<lambda>i a. map_option (\<lambda>q. s16 (SUB16 q (LSP_LINEAR i))) (rd a i)) [0..<10] lsp = Some y0"
    "length y0 = 10" "wraps16 y0 (\<lambda>k. lsp ! k - LSP_LINEAR k)"
    using remove_linear_ok [of 10 lsp LSP_LINEAR] len by (auto simp: wraps16_def)
  obtain r1 y1 where y1: "lsp_quant y0 0 cdbk_nb 64 10 = Some (r1, y1)" "length y1 = 10" "r1 < 64" and
    y1f: "wraps16 y1 (plusCode (- 32) cdbk_nb r1 0 10 (\<lambda>k. lsp ! k - LSP_LINEAR k))"
    using lsp_quant_ok [OF y0(3), of 0 10 64 cdbk_nb] y0(2) by auto
  obtain b1 where b1: "speex_bits_pack al b (of_nat r1) 6 = Some b1" "sb_writing b1"
    "sb_stream b1 = sb_stream b @ valueBits 6 (of_nat r1)" "sb_owner b1"
    using pack_ok(2) [of b 6 al] b al by auto
  obtain y2 where y2: "scaleRange (\<lambda>q. q * 2) 0 10 y1 = Some y2" "length y2 = 10" and
    y2f: "wraps16 y2 (doubled 0 10 (plusCode (- 32) cdbk_nb r1 0 10 (\<lambda>k. lsp ! k - LSP_LINEAR k)))"
    using scale_ok [OF y1f, of 10 0] y1(2) by auto
  obtain r2 y3 where y3: "lsp_weight_quant y2 0 w 0 cdbk_nb_low1 64 5 = Some (r2, y3)" "length y3 = 10" "r2 < 64" and
    y3f: "wraps16 y3 (plusCode (- 32) cdbk_nb_low1 r2 0 5 (doubled 0 10 (plusCode (- 32) cdbk_nb r1 0 10 (\<lambda>k. lsp ! k - LSP_LINEAR k))))"
    using lsp_weight_quant_ok [OF y2f, of 0 5 64 cdbk_nb_low1 0 w] y2(2) w(2) by auto
  obtain b2 where b2: "speex_bits_pack al b1 (of_nat r2) 6 = Some b2" "sb_writing b2"
    "sb_stream b2 = sb_stream b1 @ valueBits 6 (of_nat r2)" "sb_owner b2"
    using pack_ok(2) [of b1 6 al] b1(2,4) al by auto
  obtain r3 y4 where y4: "lsp_weight_quant y3 5 w 5 cdbk_nb_high1 64 5 = Some (r3, y4)" "length y4 = 10" "r3 < 64" and
    y4f: "wraps16 y4 (plusCode (- 32) cdbk_nb_high1 r3 5 5 (plusCode (- 32) cdbk_nb_low1 r2 0 5 (doubled 0 10 (plusCode (- 32) cdbk_nb r1 0 10 (\<lambda>k. lsp ! k - LSP_LINEAR k)))))"
    using lsp_weight_quant_ok [OF y3f, of 5 5 64 cdbk_nb_high1 5 w] y3(2) w(2) by auto
  obtain b3 where b3: "speex_bits_pack al b2 (of_nat r3) 6 = Some b3" "sb_writing b3"
    "sb_stream b3 = sb_stream b2 @ valueBits 6 (of_nat r3)" "sb_owner b3"
    using pack_ok(2) [of b2 6 al] b2(2,4) al by auto
  obtain z where z: "scaleRange (\<lambda>q. PSHR16 q 1) 0 10 y4 = Some z" "length z = 10"
    "\<forall>k < 10. z ! k = s16 (PSHR16 (y4 ! k) 1)"
    using descale_ok [of 10 y4 1] y4(2) by auto
  obtain q where q: "forUpd (\<lambda>i a. Option.bind (rd lsp i) (\<lambda>l. map_option (\<lambda>q. s16 (l - q)) (rd a i))) [0..<10] z = Some q"
    "length q = 10" "\<forall>k < 10. q ! k = s16 (lsp ! k - z ! k)"
    using from_lsp_ok [of 10 z lsp] z(2) len by auto
  have "q ! k = s16 (lbrCode r1 r2 r3 k)"
    if k: "k < 10" and e: "- 16384 \<le> lsp ! k - lbrCode r1 r2 r3 k" "lsp ! k - lbrCode r1 r2 r3 k < 16384" for k
  proof -
    have "y4 ! k = s16 (2 ^ 1 * (lsp ! k - lbrCode r1 r2 r3 k))"
      using y4f y4(2) k
      by (cases "k < 5") (simp_all add: wraps16_def doubled_def plusCode_def lbrCode_def LSP_LINEAR_exact algebra_simps)
    from residual_recovers [OF this] e z(3) q(3) k show ?thesis by simp
  qed
  moreover have "lsp_quant_lbr al lsp qlsp 10 b = Some (q, b3)"
    by (simp add: lsp_quant_lbr_def x0 w(1) y0(1) b1(1) y1(1) y2(1) b2(1) y3(1) b3(1) y4(1) z(1) q(1) del: One_nat_def)
  moreover have "sb_stream b3 = sb_stream b @ valueBits 6 (of_nat r1) @ valueBits 6 (of_nat r2) @ valueBits 6 (of_nat r3)"
    by (simp add: b1(3) b2(3) b3(3))
  ultimately show ?thesis using q(2) b3(2) y1(3) y3(3) y4(3)
    by - (rule exI [where x = q], rule exI [where x = b3], rule exI [where x = r1], rule exI [where x = r2], rule exI [where x = r3], intro conjI, simp_all)
qed

lemma quant_high_ok:
  assumes len: "length lsp = 8" "length qlsp = 8" and lsp: "lsp_ordered lsp"
    and b: "sb_writing b" "sb_owner b" and al: "alloc_ok al = (\<lambda>_. True)"
  shows "\<exists>q b' r1 r2. lsp_quant_high al lsp qlsp 8 b = Some (q, b') \<and> length q = 8 \<and> sb_writing b' \<and>
    r1 < 64 \<and> r2 < 64 \<and>
    sb_stream b' = sb_stream b @ valueBits 6 (of_nat r1) @ valueBits 6 (of_nat r2) \<and>
    (\<forall>k < 8. - 16384 \<le> lsp ! k - highCode r1 r2 k \<longrightarrow> lsp ! k - highCode r1 r2 k < 16384 \<longrightarrow>
      q ! k = s16 (highCode r1 r2 k))"
proof -
  note [simp] = lsp_tables
  note x0 = copy_ok [OF len(2,1)]
  obtain w where w: "compute_quant_weights lsp (replicate 10 0) 8 = Some w" "length w = 10"
    using weights_ok [OF lsp len(1), of "replicate 10 0"] by auto
  obtain y0 where y0: "forUpd (\<lambda>i a. map_option (\<lambda>q. s16 (SUB16 q (LSP_LINEAR_HIGH i))) (rd a i)) [0..<8] lsp = Some y0"
    "length y0 = 8" "wraps16 y0 (\<lambda>k. lsp ! k - LSP_LINEAR_HIGH k)"
    using remove_linear_ok [of 8 lsp LSP_LINEAR_HIGH] len by (auto simp: wraps16_def)
  obtain r1 y1 where y1: "lsp_quant y0 0 high_lsp_cdbk 64 8 = Some (r1, y1)" "length y1 = 8" "r1 < 64" and
    y1f: "wraps16 y1 (plusCode (- 32) high_lsp_cdbk r1 0 8 (\<lambda>k. lsp ! k - LSP_LINEAR_HIGH k))"
    using lsp_quant_ok [OF y0(3), of 0 8 64 high_lsp_cdbk] y0(2) by auto
  obtain b1 where b1: "speex_bits_pack al b (of_nat r1) 6 = Some b1" "sb_writing b1"
    "sb_stream b1 = sb_stream b @ valueBits 6 (of_nat r1)" "sb_owner b1"
    using pack_ok(2) [of b 6 al] b al by auto
  obtain y2 where y2: "scaleRange (\<lambda>q. q * 2) 0 8 y1 = Some y2" "length y2 = 8" and
    y2f: "wraps16 y2 (doubled 0 8 (plusCode (- 32) high_lsp_cdbk r1 0 8 (\<lambda>k. lsp ! k - LSP_LINEAR_HIGH k)))"
    using scale_ok [OF y1f, of 8 0] y1(2) by auto
  obtain r2 y3 where y3: "lsp_weight_quant y2 0 w 0 high_lsp_cdbk2 64 8 = Some (r2, y3)" "length y3 = 8" "r2 < 64" and
    y3f: "wraps16 y3 (plusCode (- 32) high_lsp_cdbk2 r2 0 8 (doubled 0 8 (plusCode (- 32) high_lsp_cdbk r1 0 8 (\<lambda>k. lsp ! k - LSP_LINEAR_HIGH k))))"
    using lsp_weight_quant_ok [OF y2f, of 0 8 64 high_lsp_cdbk2 0 w] y2(2) w(2) by auto
  obtain b2 where b2: "speex_bits_pack al b1 (of_nat r2) 6 = Some b2" "sb_writing b2"
    "sb_stream b2 = sb_stream b1 @ valueBits 6 (of_nat r2)" "sb_owner b2"
    using pack_ok(2) [of b1 6 al] b1(2,4) al by auto
  obtain z where z: "scaleRange (\<lambda>q. PSHR16 q 1) 0 8 y3 = Some z" "length z = 8"
    "\<forall>k < 8. z ! k = s16 (PSHR16 (y3 ! k) 1)"
    using descale_ok [of 8 y3 1] y3(2) by auto
  obtain q where q: "forUpd (\<lambda>i a. Option.bind (rd lsp i) (\<lambda>l. map_option (\<lambda>q. s16 (l - q)) (rd a i))) [0..<8] z = Some q"
    "length q = 8" "\<forall>k < 8. q ! k = s16 (lsp ! k - z ! k)"
    using from_lsp_ok [of 8 z lsp] z(2) len by auto
  have "q ! k = s16 (highCode r1 r2 k)"
    if k: "k < 8" and e: "- 16384 \<le> lsp ! k - highCode r1 r2 k" "lsp ! k - highCode r1 r2 k < 16384" for k
  proof -
    have "y3 ! k = s16 (2 ^ 1 * (lsp ! k - highCode r1 r2 k))"
      using y3f y3(2) k
      by (cases "k < 5") (simp_all add: wraps16_def doubled_def plusCode_def highCode_def LSP_LINEAR_HIGH_exact algebra_simps)
    from residual_recovers [OF this] e z(3) q(3) k show ?thesis by simp
  qed
  moreover have "lsp_quant_high al lsp qlsp 8 b = Some (q, b2)"
    by (simp add: lsp_quant_high_def x0 w(1) y0(1) b1(1) y1(1) y2(1) b2(1) y3(1) z(1) q(1) del: One_nat_def)
  moreover have "sb_stream b2 = sb_stream b @ valueBits 6 (of_nat r1) @ valueBits 6 (of_nat r2)"
    by (simp add: b1(3) b2(3))
  ultimately show ?thesis using q(2) b2(2) y1(3) y3(3)
    by - (rule exI [where x = q], rule exI [where x = b2], rule exI [where x = r1], rule exI [where x = r2], intro conjI, simp_all)
qed

subsection \<open>Properties\<close>

lemma plusCode_bounds:
  assumes f: "\<forall>k < N. \<bar>f k\<bar> \<le> B" and t: "signedChars t" "r < 64" "64 * n \<le> length t" and m: "0 \<le> m"
  shows "\<forall>k < N. \<bar>plusCode m t r off n f k\<bar> \<le> B + 128 * m"
proof (intro allI impI)
  fix k assume k: "k < N"
  have "\<bar>m * t ! (r * n + (k - off))\<bar> \<le> 128 * m" if "off \<le> k" "k < off + n"
  proof -
    have "k - off < n" using that by linarith
    from signedChars_nth [OF t(1) codeword_at [OF t(2,3) this]]
    have "\<bar>t ! (r * n + (k - off))\<bar> \<le> 128" by linarith
    then have "m * \<bar>t ! (r * n + (k - off))\<bar> \<le> m * 128" using m by (rule mult_left_mono)
    then show ?thesis using m by (simp only: abs_mult abs_of_nonneg mult.commute)
  qed
  moreover have "\<bar>f k\<bar> \<le> B" using f k by simp
  ultimately show "\<bar>plusCode m t r off n f k\<bar> \<le> B + 128 * m"
    using m abs_triangle_ineq [of "f k" "m * t ! (r * n + (k - off))"] unfolding plusCode_def
    by (split if_split) linarith
qed

lemma nbCode_s16:
  assumes r: "r1 < 64" "r2 < 64" "r3 < 64" "r4 < 64" "r5 < 64" and "k < 10"
  shows "s16 (nbCode r1 r2 r3 r4 r5 k) = nbCode r1 r2 r3 r4 r5 k"
proof -
  have "\<forall>k < 10. \<bar>2048 * (int k + 1)\<bar> \<le> 20480" by simp
  from plusCode_bounds [OF this chars_lsp(1) r(1), of 10 32 0]
    plusCode_bounds [OF _ chars_lsp(2) r(2), of 10 "plusCode 32 cdbk_nb r1 0 10 (\<lambda>k. 2048 * (int k + 1))" 24576 5 16 0]
  have "\<forall>k < 10. \<bar>plusCode 16 cdbk_nb_low1 r2 0 5 (plusCode 32 cdbk_nb r1 0 10 (\<lambda>k. 2048 * (int k + 1))) k\<bar> \<le> 26624"
    by (simp add: lsp_tables)
  from plusCode_bounds [OF this chars_lsp(3) r(3), of 5 8 0]
  have "\<forall>k < 10. \<bar>plusCode 8 cdbk_nb_low2 r3 0 5 (plusCode 16 cdbk_nb_low1 r2 0 5 (plusCode 32 cdbk_nb r1 0 10
      (\<lambda>k. 2048 * (int k + 1)))) k\<bar> \<le> 27648" by (simp add: lsp_tables)
  from plusCode_bounds [OF this chars_lsp(4) r(4), of 5 16 5]
  have "\<forall>k < 10. \<bar>plusCode 16 cdbk_nb_high1 r4 5 5 (plusCode 8 cdbk_nb_low2 r3 0 5 (plusCode 16 cdbk_nb_low1 r2 0 5
      (plusCode 32 cdbk_nb r1 0 10 (\<lambda>k. 2048 * (int k + 1))))) k\<bar> \<le> 29696" by (simp add: lsp_tables)
  from plusCode_bounds [OF this chars_lsp(5) r(5), of 5 8 5]
  have "\<forall>k < 10. \<bar>nbCode r1 r2 r3 r4 r5 k\<bar> \<le> 30720" by (simp add: lsp_tables nbCode_def)
  with assms(6) have "\<bar>nbCode r1 r2 r3 r4 r5 k\<bar> \<le> 30720" by blast
  then show ?thesis by (intro s16_id) linarith+
qed

text \<open>C25: The narrow-band encoder and decoder agree on the quantized line spectral pairs: whenever the
  encoder quantizes an ordered vector into a fresh stream, with an allocator that grants its
  requests, the decoder that reads the stream from its start succeeds, and the vector the encoder
  goes on with equals the one the decoder rebuilt in every coordinate whose quantization error is
  below one radian (8192 steps), the range the scaled 16-bit residual can hold.\<close>

theorem lsp_nb_agreement:
  assumes "lsp_ordered lsp" and "length lsp = 10" "length qlsp = 10" "length lsp0 = 10"
    and "sb_writing b" "sb_owner b" "sb_stream b = []" and "alloc_ok al = (\<lambda>_. True)"
  shows "\<exists>q b' d b''. lsp_quant_nb al lsp qlsp 10 b = Some (q, b') \<and>
    lsp_unquant_nb lsp0 10 (speex_bits_rewind b') = Some (d, b'') \<and>
    (\<forall>k < 10. - 8192 \<le> lsp ! k - d ! k \<and> lsp ! k - d ! k < 8192 \<longrightarrow> q ! k = d ! k)"
proof -
  obtain q b' r1 r2 r3 r4 r5 where q: "lsp_quant_nb al lsp qlsp 10 b = Some (q, b')" "sb_writing b'"
    "r1 < 64" "r2 < 64" "r3 < 64" "r4 < 64" "r5 < 64"
    "sb_stream b' = valueBits 6 (of_nat r1) @ valueBits 6 (of_nat r2) @ valueBits 6 (of_nat r3) @ valueBits 6 (of_nat r4) @
      valueBits 6 (of_nat r5) @ []"
    "\<forall>k < 10. - 8192 \<le> lsp ! k - nbCode r1 r2 r3 r4 r5 k \<longrightarrow> lsp ! k - nbCode r1 r2 r3 r4 r5 k < 8192 \<longrightarrow>
      q ! k = s16 (nbCode r1 r2 r3 r4 r5 k)"
    using quant_nb_ok [OF assms(2,3,1,5,6,8)] assms(7) by auto
  note at = rewind_at [OF q(2), unfolded q(8)]
  obtain b1 where b1: "speex_bits_unpack_unsigned (speex_bits_rewind b') 6 = Some (take_bit 6 (of_nat r1), b1)"
    "sb_at b1 (valueBits 6 (of_nat r2) @ valueBits 6 (of_nat r3) @ valueBits 6 (of_nat r4) @ valueBits 6 (of_nat r5) @ [])"
    using unpack_at [OF at] by auto
  obtain b2 where b2: "speex_bits_unpack_unsigned b1 6 = Some (take_bit 6 (of_nat r2), b2)"
    "sb_at b2 (valueBits 6 (of_nat r3) @ valueBits 6 (of_nat r4) @ valueBits 6 (of_nat r5) @ [])"
    using unpack_at [OF b1(2)] by auto
  obtain b3 where b3: "speex_bits_unpack_unsigned b2 6 = Some (take_bit 6 (of_nat r3), b3)"
    "sb_at b3 (valueBits 6 (of_nat r4) @ valueBits 6 (of_nat r5) @ [])"
    using unpack_at [OF b2(2)] by auto
  obtain b4 where b4: "speex_bits_unpack_unsigned b3 6 = Some (take_bit 6 (of_nat r4), b4)"
    "sb_at b4 (valueBits 6 (of_nat r5) @ [])"
    using unpack_at [OF b3(2)] by auto
  obtain b5 where b5: "speex_bits_unpack_unsigned b4 6 = Some (take_bit 6 (of_nat r5), b5)"
    using unpack_at [OF b4(2)] by auto
  have u: "unat (take_bit 6 (of_nat r) :: u32) = r" if "r < 64" for r
    using that by (simp add: unsigned_take_bit_eq unat_of_nat take_bit_nat_eq_self)
  obtain d where d: "lsp_unquant_nb lsp0 10 (speex_bits_rewind b') = Some (d, b5)" "length d = 10"
    "wraps16 d (nbCode r1 r2 r3 r4 r5)"
    using unquant_nb_ok [OF assms(4) b1(1) b2(1) b3(1) b4(1) b5] q(3-7) u by auto
  then have "\<forall>k < 10. d ! k = nbCode r1 r2 r3 r4 r5 k"
    using nbCode_s16 [OF q(3-7)] by (simp add: wraps16_def)
  with q(1,9) d nbCode_s16 [OF q(3-7)] show ?thesis by auto
qed

theorem lsp_nb_agreement_witness:
  "\<exists>q b' d b''. lsp_quant_nb \<lparr>alloc_ok = \<lambda>_. True, alloc_fill = \<lambda>_. 0\<rparr> (map (\<lambda>k. 2300 * (int k + 1)) [0..<10])
      (replicate 10 0) 10 (the (speex_bits_init \<lparr>alloc_ok = \<lambda>_. True, alloc_fill = \<lambda>_. 0\<rparr>)) = Some (q, b') \<and>
    lsp_unquant_nb (replicate 10 0) 10 (speex_bits_rewind b') = Some (d, b'') \<and>
    (\<forall>k < 10. - 8192 \<le> map (\<lambda>k. 2300 * (int k + 1)) [0..<10] ! k - d ! k \<and>
      map (\<lambda>k. 2300 * (int k + 1)) [0..<10] ! k - d ! k < 8192 \<longrightarrow> q ! k = d ! k)"
proof (rule lsp_nb_agreement)
  let ?al = "\<lparr>alloc_ok = \<lambda>_. True, alloc_fill = \<lambda>_. 0\<rparr>"
  show "sb_writing (the (speex_bits_init ?al))" "sb_owner (the (speex_bits_init ?al))" "sb_stream (the (speex_bits_init ?al)) = []"
    using init_writing [of ?al] by auto
  show "lsp_ordered (map (\<lambda>k. 2300 * (int k + 1)) [0..<10])"
    by (simp add: lsp_ordered_def LSP_PI_def upt_rec)
qed simp_all

text \<open>C26: The three decoders of line spectral pairs are safe on any input: from any readable stream,
  however short or corrupt, they never read outside a codebook or the vector, whatever indices
  the stream holds, and they leave a readable stream.\<close>

theorem lsp_unquant_safe:
  assumes "sb_readable b" and "length lsp = 10" and "length hlsp = 8"
  shows "(\<exists>d b'. lsp_unquant_nb lsp 10 b = Some (d, b') \<and> length d = 10 \<and> sb_readable b') \<and>
    (\<exists>d b'. lsp_unquant_lbr lsp 10 b = Some (d, b') \<and> length d = 10 \<and> sb_readable b') \<and>
    (\<exists>d b'. lsp_unquant_high hlsp 8 b = Some (d, b') \<and> length d = 8 \<and> sb_readable b')"
proof -
  have u: "\<exists>v b'. speex_bits_unpack_unsigned b 6 = Some (v, b') \<and> sb_readable b' \<and> unat v < 64" if "sb_readable b" for b
    using unpack_readable [OF that, of 6] by simp
  obtain v1 b1 where 1: "speex_bits_unpack_unsigned b 6 = Some (v1, b1)" "sb_readable b1" "unat v1 < 64" using u assms(1) by blast
  obtain v2 b2 where 2: "speex_bits_unpack_unsigned b1 6 = Some (v2, b2)" "sb_readable b2" "unat v2 < 64" using u 1(2) by blast
  obtain v3 b3 where 3: "speex_bits_unpack_unsigned b2 6 = Some (v3, b3)" "sb_readable b3" "unat v3 < 64" using u 2(2) by blast
  obtain v4 b4 where 4: "speex_bits_unpack_unsigned b3 6 = Some (v4, b4)" "sb_readable b4" "unat v4 < 64" using u 3(2) by blast
  obtain v5 b5 where 5: "speex_bits_unpack_unsigned b4 6 = Some (v5, b5)" "sb_readable b5" "unat v5 < 64" using u 4(2) by blast
  from unquant_nb_ok [OF assms(2) 1(1) 2(1) 3(1) 4(1) 5(1)] unquant_lbr_ok [OF assms(2) 1(1) 2(1) 3(1)]
    unquant_high_ok [OF assms(3) 1(1) 2(1)] 1 2 3 4 5 show ?thesis by blast
qed

theorem lsp_unquant_safe_witness:
  "(\<exists>d b'. lsp_unquant_nb (replicate 10 0) 10 (the (speex_bits_init_buffer [255, 255] 2)) = Some (d, b') \<and> length d = 10 \<and> sb_readable b') \<and>
    (\<exists>d b'. lsp_unquant_lbr (replicate 10 0) 10 (the (speex_bits_init_buffer [255, 255] 2)) = Some (d, b') \<and> length d = 10 \<and> sb_readable b') \<and>
    (\<exists>d b'. lsp_unquant_high (replicate 8 0) 8 (the (speex_bits_init_buffer [255, 255] 2)) = Some (d, b') \<and> length d = 8 \<and> sb_readable b')"
  by (rule lsp_unquant_safe) (simp_all add: speex_bits_init_buffer_def speex_bits_reset_def sb_readable_def sb_pos_def)

end
