(* ===== verification/OggPage.thy ===== *)
theory OggPage
  imports CMemory
begin

text \<open>
  Pages of the container of the recorded audio streams
  (\<open>Libraries/speex/include/framing.c\<close>): the fields of a page header and the checksum.

  A page is its header and its body; the pointers and lengths of \<open>ogg_page\<close> are the two lists.
  An access outside one of them gives \<open>None\<close>.
\<close>

record ogg_page =
  og_header :: "byte list"
  og_body :: "byte list"

subsection \<open>Header fields\<close>

definition ogg_page_version :: "ogg_page \<Rightarrow> byte option" where
  "ogg_page_version og = rd (og_header og) 4"

definition ogg_page_continued :: "ogg_page \<Rightarrow> byte option" where
  "ogg_page_continued og = map_option (\<lambda>b. b AND 1) (rd (og_header og) 5)"

definition ogg_page_bos :: "ogg_page \<Rightarrow> byte option" where
  "ogg_page_bos og = map_option (\<lambda>b. b AND 2) (rd (og_header og) 5)"

definition ogg_page_eos :: "ogg_page \<Rightarrow> byte option" where
  "ogg_page_eos og = map_option (\<lambda>b. b AND 4) (rd (og_header og) 5)"

text \<open>The bytes at the given offsets, shifted in from the left, the last offset lowest.\<close>

definition ogg_page_granulepos :: "ogg_page \<Rightarrow> 64 word option" where
  "ogg_page_granulepos og =
     foldl (\<lambda>g i. Option.bind g (\<lambda>g. map_option (\<lambda>b. push_bit 8 g OR ucast b) (rd (og_header og) i)))
       (map_option ucast (rd (og_header og) 13)) [12, 11, 10, 9, 8, 7, 6]"

text \<open>The four bytes from offset \<open>k\<close>, least significant first, as a signed 32-bit int.\<close>

definition headerInt :: "byte list \<Rightarrow> nat \<Rightarrow> int option" where
  "headerInt h k =
     Option.bind (rd h k) (\<lambda>b0. Option.bind (rd h (k + 1)) (\<lambda>b1.
     Option.bind (rd h (k + 2)) (\<lambda>b2. Option.bind (rd h (k + 3)) (\<lambda>b3.
       Some (sint (ucast b0 OR push_bit 8 (ucast b1) OR push_bit 16 (ucast b2) OR push_bit 24 (ucast b3) :: u32))))))"

definition ogg_page_serialno :: "ogg_page \<Rightarrow> int option" where
  "ogg_page_serialno og = headerInt (og_header og) 14"

definition ogg_page_pageno :: "ogg_page \<Rightarrow> int option" where
  "ogg_page_pageno og = headerInt (og_header og) 18"

fun countPackets :: "byte list \<Rightarrow> nat \<Rightarrow> nat \<Rightarrow> nat option" where
  "countPackets h i 0 = Some 0"
| "countPackets h i (Suc n) =
     Option.bind (rd h (27 + i)) (\<lambda>b. map_option (\<lambda>c. if b < 255 then c + 1 else c) (countPackets h (i + 1) n))"

definition ogg_page_packets :: "ogg_page \<Rightarrow> nat option" where
  "ogg_page_packets og = Option.bind (rd (og_header og) 26) (\<lambda>n. countPackets (og_header og) 0 (unat n))"

subsection \<open>Checksum\<close>

text \<open>The generator of the table, which the source keeps as an illustration.\<close>

definition ogg_crc_entry :: "64 word \<Rightarrow> u32" where
  "ogg_crc_entry index =
     ucast (((\<lambda>r. if r AND 0x80000000 \<noteq> 0 then push_bit 1 r XOR 0x04c11db7 else push_bit 1 r) ^^ 8) (push_bit 24 index))"

definition crc_lookup :: "u32 list" where
  "crc_lookup = concat
   [[0x00000000, 0x04c11db7, 0x09823b6e, 0x0d4326d9],
    [0x130476dc, 0x17c56b6b, 0x1a864db2, 0x1e475005],
    [0x2608edb8, 0x22c9f00f, 0x2f8ad6d6, 0x2b4bcb61],
    [0x350c9b64, 0x31cd86d3, 0x3c8ea00a, 0x384fbdbd],
    [0x4c11db70, 0x48d0c6c7, 0x4593e01e, 0x4152fda9],
    [0x5f15adac, 0x5bd4b01b, 0x569796c2, 0x52568b75],
    [0x6a1936c8, 0x6ed82b7f, 0x639b0da6, 0x675a1011],
    [0x791d4014, 0x7ddc5da3, 0x709f7b7a, 0x745e66cd],
    [0x9823b6e0, 0x9ce2ab57, 0x91a18d8e, 0x95609039],
    [0x8b27c03c, 0x8fe6dd8b, 0x82a5fb52, 0x8664e6e5],
    [0xbe2b5b58, 0xbaea46ef, 0xb7a96036, 0xb3687d81],
    [0xad2f2d84, 0xa9ee3033, 0xa4ad16ea, 0xa06c0b5d],
    [0xd4326d90, 0xd0f37027, 0xddb056fe, 0xd9714b49],
    [0xc7361b4c, 0xc3f706fb, 0xceb42022, 0xca753d95],
    [0xf23a8028, 0xf6fb9d9f, 0xfbb8bb46, 0xff79a6f1],
    [0xe13ef6f4, 0xe5ffeb43, 0xe8bccd9a, 0xec7dd02d],
    [0x34867077, 0x30476dc0, 0x3d044b19, 0x39c556ae],
    [0x278206ab, 0x23431b1c, 0x2e003dc5, 0x2ac12072],
    [0x128e9dcf, 0x164f8078, 0x1b0ca6a1, 0x1fcdbb16],
    [0x018aeb13, 0x054bf6a4, 0x0808d07d, 0x0cc9cdca],
    [0x7897ab07, 0x7c56b6b0, 0x71159069, 0x75d48dde],
    [0x6b93dddb, 0x6f52c06c, 0x6211e6b5, 0x66d0fb02],
    [0x5e9f46bf, 0x5a5e5b08, 0x571d7dd1, 0x53dc6066],
    [0x4d9b3063, 0x495a2dd4, 0x44190b0d, 0x40d816ba],
    [0xaca5c697, 0xa864db20, 0xa527fdf9, 0xa1e6e04e],
    [0xbfa1b04b, 0xbb60adfc, 0xb6238b25, 0xb2e29692],
    [0x8aad2b2f, 0x8e6c3698, 0x832f1041, 0x87ee0df6],
    [0x99a95df3, 0x9d684044, 0x902b669d, 0x94ea7b2a],
    [0xe0b41de7, 0xe4750050, 0xe9362689, 0xedf73b3e],
    [0xf3b06b3b, 0xf771768c, 0xfa325055, 0xfef34de2],
    [0xc6bcf05f, 0xc27dede8, 0xcf3ecb31, 0xcbffd686],
    [0xd5b88683, 0xd1799b34, 0xdc3abded, 0xd8fba05a],
    [0x690ce0ee, 0x6dcdfd59, 0x608edb80, 0x644fc637],
    [0x7a089632, 0x7ec98b85, 0x738aad5c, 0x774bb0eb],
    [0x4f040d56, 0x4bc510e1, 0x46863638, 0x42472b8f],
    [0x5c007b8a, 0x58c1663d, 0x558240e4, 0x51435d53],
    [0x251d3b9e, 0x21dc2629, 0x2c9f00f0, 0x285e1d47],
    [0x36194d42, 0x32d850f5, 0x3f9b762c, 0x3b5a6b9b],
    [0x0315d626, 0x07d4cb91, 0x0a97ed48, 0x0e56f0ff],
    [0x1011a0fa, 0x14d0bd4d, 0x19939b94, 0x1d528623],
    [0xf12f560e, 0xf5ee4bb9, 0xf8ad6d60, 0xfc6c70d7],
    [0xe22b20d2, 0xe6ea3d65, 0xeba91bbc, 0xef68060b],
    [0xd727bbb6, 0xd3e6a601, 0xdea580d8, 0xda649d6f],
    [0xc423cd6a, 0xc0e2d0dd, 0xcda1f604, 0xc960ebb3],
    [0xbd3e8d7e, 0xb9ff90c9, 0xb4bcb610, 0xb07daba7],
    [0xae3afba2, 0xaafbe615, 0xa7b8c0cc, 0xa379dd7b],
    [0x9b3660c6, 0x9ff77d71, 0x92b45ba8, 0x9675461f],
    [0x8832161a, 0x8cf30bad, 0x81b02d74, 0x857130c3],
    [0x5d8a9099, 0x594b8d2e, 0x5408abf7, 0x50c9b640],
    [0x4e8ee645, 0x4a4ffbf2, 0x470cdd2b, 0x43cdc09c],
    [0x7b827d21, 0x7f436096, 0x7200464f, 0x76c15bf8],
    [0x68860bfd, 0x6c47164a, 0x61043093, 0x65c52d24],
    [0x119b4be9, 0x155a565e, 0x18197087, 0x1cd86d30],
    [0x029f3d35, 0x065e2082, 0x0b1d065b, 0x0fdc1bec],
    [0x3793a651, 0x3352bbe6, 0x3e119d3f, 0x3ad08088],
    [0x2497d08d, 0x2056cd3a, 0x2d15ebe3, 0x29d4f654],
    [0xc5a92679, 0xc1683bce, 0xcc2b1d17, 0xc8ea00a0],
    [0xd6ad50a5, 0xd26c4d12, 0xdf2f6bcb, 0xdbee767c],
    [0xe3a1cbc1, 0xe760d676, 0xea23f0af, 0xeee2ed18],
    [0xf0a5bd1d, 0xf464a0aa, 0xf9278673, 0xfde69bc4],
    [0x89b8fd09, 0x8d79e0be, 0x803ac667, 0x84fbdbd0],
    [0x9abc8bd5, 0x9e7d9662, 0x933eb0bb, 0x97ffad0c],
    [0xafb010b1, 0xab710d06, 0xa6322bdf, 0xa2f33668],
    [0xbcb4666d, 0xb8757bda, 0xb5365d03, 0xb1f740b4]]"

definition crcStep :: "u32 \<Rightarrow> byte \<Rightarrow> u32" where
  "crcStep crc_reg b = push_bit 8 crc_reg XOR crc_lookup ! unat (drop_bit 24 crc_reg AND 0xff XOR ucast b)"

definition pageCrc :: "byte list \<Rightarrow> byte list \<Rightarrow> u32" where
  "pageCrc header body = foldl crcStep (foldl crcStep 0 header) body"

definition ogg_page_checksum_set :: "ogg_page \<Rightarrow> ogg_page option" where
  "ogg_page_checksum_set og =
     Option.bind (wr (og_header og) 22 0) (\<lambda>h. Option.bind (wr h 23 0) (\<lambda>h.
     Option.bind (wr h 24 0) (\<lambda>h. Option.bind (wr h 25 0) (\<lambda>h.
     let crc_reg = pageCrc h (og_body og)
     in Option.bind (wr h 22 (ucast (crc_reg AND 0xff))) (\<lambda>h.
        Option.bind (wr h 23 (ucast (drop_bit 8 crc_reg AND 0xff))) (\<lambda>h.
        Option.bind (wr h 24 (ucast (drop_bit 16 crc_reg AND 0xff))) (\<lambda>h.
        Option.bind (wr h 25 (ucast (drop_bit 24 crc_reg AND 0xff))) (\<lambda>h.
          Some (og\<lparr>og_header := h\<rparr>)))))))))"

subsection \<open>The checksum against a shift register\<close>

text \<open>The reference: a shift register fed most significant bit first.\<close>

definition crcShiftL :: "u32 \<Rightarrow> u32" where
  "crcShiftL r = (if bit r 31 then push_bit 1 r XOR 0x04c11db7 else push_bit 1 r)"

definition crcByteL :: "u32 \<Rightarrow> byte \<Rightarrow> u32" where
  "crcByteL r b = (crcShiftL ^^ 8) (r XOR push_bit 24 (ucast b))"

lemma funpow_8: "(f ^^ 8) x = f (f (f (f (f (f (f (f x)))))))"
  by (simp add: eval_nat_numeral)

lemma crcShiftL_xor: "crcShiftL (x XOR y) = crcShiftL x XOR crcShiftL y"
  by (rule word_eq_bitI) (auto simp: crcShiftL_def bit_simps)

lemma crcShiftL_funpow_xor: "(crcShiftL ^^ n) (x XOR y) = (crcShiftL ^^ n) x XOR (crcShiftL ^^ n) y"
  by (induction n) (simp_all add: crcShiftL_xor)

lemma crcShiftL_funpow_low:
  "\<forall>k < n. \<not> bit x (31 - k) \<Longrightarrow> n \<le> 32 \<Longrightarrow> (crcShiftL ^^ n) x = push_bit n x"
proof (induction n arbitrary: x)
  case (Suc n)
  have "\<not> bit x 31" using Suc.prems(1) by force
  then have "crcShiftL x = push_bit 1 x" by (simp add: crcShiftL_def)
  moreover have "\<forall>k < n. \<not> bit (push_bit 1 x) (31 - k)"
  proof (intro allI impI)
    fix k assume "k < n"
    then have "\<not> bit x (31 - Suc k)" using Suc.prems(1) by blast
    moreover have "31 - k = Suc (31 - Suc k)" using \<open>k < n\<close> Suc.prems(2) by simp
    ultimately show "\<not> bit (push_bit 1 x) (31 - k)" unfolding bit_push_bit_iff by simp
  qed
  ultimately show ?case using Suc.IH [of "push_bit 1 x"] Suc.prems(2) by (simp add: funpow_swap1)
qed simp

lemma crc_powers:
  "crc_lookup ! 1 = (crcShiftL ^^ 8) (push_bit 24 1)" "crc_lookup ! 2 = (crcShiftL ^^ 8) (push_bit 24 2)"
  "crc_lookup ! 4 = (crcShiftL ^^ 8) (push_bit 24 4)" "crc_lookup ! 8 = (crcShiftL ^^ 8) (push_bit 24 8)"
  "crc_lookup ! 16 = (crcShiftL ^^ 8) (push_bit 24 16)" "crc_lookup ! 32 = (crcShiftL ^^ 8) (push_bit 24 32)"
  "crc_lookup ! 64 = (crcShiftL ^^ 8) (push_bit 24 64)" "crc_lookup ! 128 = (crcShiftL ^^ 8) (push_bit 24 128)"
  unfolding funpow_8 by (simp_all add: crc_lookup_def crcShiftL_def push_bit_eq_mult)

lemma crc_lookup_rows:
  "take 1 (drop 1 crc_lookup) = map (\<lambda>x. x XOR crc_lookup ! 1) (take 1 crc_lookup)"
  "take 2 (drop 2 crc_lookup) = map (\<lambda>x. x XOR crc_lookup ! 2) (take 2 crc_lookup)"
  "take 4 (drop 4 crc_lookup) = map (\<lambda>x. x XOR crc_lookup ! 4) (take 4 crc_lookup)"
  "take 8 (drop 8 crc_lookup) = map (\<lambda>x. x XOR crc_lookup ! 8) (take 8 crc_lookup)"
  "take 16 (drop 16 crc_lookup) = map (\<lambda>x. x XOR crc_lookup ! 16) (take 16 crc_lookup)"
  "take 32 (drop 32 crc_lookup) = map (\<lambda>x. x XOR crc_lookup ! 32) (take 32 crc_lookup)"
  "take 64 (drop 64 crc_lookup) = map (\<lambda>x. x XOR crc_lookup ! 64) (take 64 crc_lookup)"
  "take 128 (drop 128 crc_lookup) = map (\<lambda>x. x XOR crc_lookup ! 128) (take 128 crc_lookup)"
  by (simp_all add: crc_lookup_def)

lemma length_crc_lookup: "length crc_lookup = 256"
  by (simp add: crc_lookup_def)

definition tableOk :: "nat \<Rightarrow> bool" where
  "tableOk m \<longleftrightarrow> (\<forall>i < m. crc_lookup ! i = (crcShiftL ^^ 8) (push_bit 24 (of_nat i)))"

lemma crc_row:
  assumes "take m (drop m crc_lookup) = map (\<lambda>x. x XOR crc_lookup ! m) (take m crc_lookup)" and "2 * m \<le> 256" and "m = 2 ^ j"
    and "crc_lookup ! m = (crcShiftL ^^ 8) (push_bit 24 (of_nat m))"
    and "tableOk m" and "n = 2 * m"
  shows "tableOk n"
  unfolding tableOk_def
proof (intro allI impI)
  note old = assms(5) [unfolded tableOk_def]
  fix i assume "i < n"
  then have i: "i < 2 * m" using assms(6) by simp
  show "crc_lookup ! i = (crcShiftL ^^ 8) (push_bit 24 (of_nat i))"
  proof (cases "i < m")
    case False
    then obtain k where k: "i = m + k" "k < m" using i le_Suc_ex by (metis add_less_cancel_left mult_2 not_less)
    have "take m (drop m crc_lookup) ! k = crc_lookup ! i" using k assms(2) by (simp add: length_crc_lookup)
    then have "crc_lookup ! i = crc_lookup ! k XOR crc_lookup ! m" using assms(1,2) k(2) by (simp add: length_crc_lookup)
    moreover have "(of_nat i :: u32) = of_nat k XOR of_nat m"
    proof -
      have k2: "k < 2 ^ j" using k(2) assms(3) by simp
      have "\<not> bit k j"
      proof
        assume "bit k j"
        then have "bit (take_bit j k) j" using k2 by (simp add: take_bit_nat_eq_self)
        then show False by (simp add: bit_take_bit_iff)
      qed
      then have "k AND m = 0" unfolding assms(3) by (simp add: and_exp_eq_0_iff_not_bit)
      then have "k + m = k XOR m" by (rule disjunctive_add_eq_xor)
      then have "(of_nat (k + m) :: u32) = of_nat (k XOR m)" by simp
      then show ?thesis using k(1) by (simp add: of_nat_xor_eq add.commute)
    qed
    ultimately show ?thesis using assms(4) old k(2) by (simp add: crcShiftL_funpow_xor push_bit_xor)
  qed (use old in blast)
qed

lemma crc_lookup_nth: "i < 256 \<Longrightarrow> crc_lookup ! i = (crcShiftL ^^ 8) (push_bit 24 (of_nat i))"
proof -
  have "tableOk 1" unfolding tableOk_def funpow_8 by (simp add: crc_lookup_def crcShiftL_def)
  then have "tableOk 2" by (rule crc_row [OF crc_lookup_rows(1), where j = 0, rotated 3]) (use crc_powers(1) in simp_all)
  then have "tableOk 4" by (rule crc_row [OF crc_lookup_rows(2), where j = 1, rotated 3]) (use crc_powers(2) in simp_all)
  then have "tableOk 8" by (rule crc_row [OF crc_lookup_rows(3), where j = 2, rotated 3]) (use crc_powers(3) in simp_all)
  then have "tableOk 16" by (rule crc_row [OF crc_lookup_rows(4), where j = 3, rotated 3]) (use crc_powers(4) in simp_all)
  then have "tableOk 32" by (rule crc_row [OF crc_lookup_rows(5), where j = 4, rotated 3]) (use crc_powers(5) in simp_all)
  then have "tableOk 64" by (rule crc_row [OF crc_lookup_rows(6), where j = 5, rotated 3]) (use crc_powers(6) in simp_all)
  then have "tableOk 128" by (rule crc_row [OF crc_lookup_rows(7), where j = 6, rotated 3]) (use crc_powers(7) in simp_all)
  then have "tableOk 256" by (rule crc_row [OF crc_lookup_rows(8), where j = 7, rotated 3]) (use crc_powers(8) in simp_all)
  then show "i < 256 \<Longrightarrow> ?thesis" by (simp add: tableOk_def)
qed

text \<open>A step over the table is eight steps of the register.\<close>

lemma crcStep_register: "crcStep r b = crcByteL r b"
proof -
  have top: "drop_bit 24 r AND 0xff = take_bit 8 (drop_bit 24 r)" by (rule byte_take_bit)
  let ?t = "drop_bit 24 r XOR ucast b :: u32"
  have t8: "drop_bit 24 r AND 0xff XOR ucast b = ?t"
    unfolding top by (rule word_eq_bitI) (auto simp: bit_simps dest: bit_imp_le_length)
  have "take_bit 8 ?t = ?t" by (rule word_eq_bitI) (auto simp: bit_simps dest: bit_imp_le_length)
  then have "take_bit 8 (unat ?t) = unat ?t" by (metis unsigned_take_bit_eq)
  then have l: "unat ?t < 256" using take_bit_nat_less_exp [of 8 "unat ?t"] by simp
  have "r XOR push_bit 24 (ucast b) = take_bit 24 r XOR push_bit 24 ?t"
    by (rule word_eq_bitI) (auto simp: bit_simps not_less cong: conj_cong)
  moreover have "(crcShiftL ^^ 8) (take_bit 24 r) = push_bit 8 (take_bit 24 r)"
    by (rule crcShiftL_funpow_low) (auto simp: bit_simps)
  moreover have "push_bit 8 (take_bit 24 r) = push_bit 8 r"
    by (rule word_eq_bitI) (auto simp: bit_simps)
  ultimately show ?thesis
    unfolding crcByteL_def crcStep_def t8 by (simp add: crcShiftL_funpow_xor crc_lookup_nth [OF l])
qed

lemma ogg_crc_entry_register: "ogg_crc_entry index = (crcShiftL ^^ 8) (ucast (push_bit 24 index))"
proof -
  let ?f = "\<lambda>r :: u64. if r AND 0x80000000 \<noteq> 0 then push_bit 1 r XOR 0x04c11db7 else push_bit 1 r"
  have m: "(0x80000000 :: u64) = 2 ^ 31" by simp
  have p: "ucast (push_bit k r :: u64) = (push_bit k (ucast r) :: u32)" for k r
    by (rule word_eq_bitI) (auto simp: bit_simps)
  have x: "ucast (y XOR z :: u64) = (ucast y XOR ucast z :: u32)" for y z
    by (rule word_eq_bitI) (auto simp: bit_simps)
  have b: "bit (ucast r :: u32) 31 = bit r 31" for r :: u64 by (simp add: bit_simps)
  have "ucast (0x04c11db7 :: u64) = (0x04c11db7 :: u32)" by simp
  then have f: "ucast (?f r) = crcShiftL (ucast r)" for r
    unfolding m and_exp_eq_0_iff_not_bit not_not crcShiftL_def b by (cases "bit r 31") (simp_all only: if_True if_False p x)
  have "ucast ((?f ^^ n) r) = (crcShiftL ^^ n) (ucast r)" for n r
    by (induction n) (simp_all add: f)
  then show ?thesis unfolding ogg_crc_entry_def .
qed

text \<open>The checksum of a page is that of the bit-serial shift register with the generator
  polynomial 0x04c11db7, fed the header and then the body, and the table in the source is the one
  its commented-out generator would compute, entry by entry.\<close>

theorem ogg_page_crc_reference:
  "pageCrc header body = foldl crcByteL 0 (header @ body) \<and>
   map (\<lambda>i. ogg_crc_entry (of_nat i)) [0..<256] = crc_lookup"
proof
  have "crcStep = crcByteL" by (intro ext crcStep_register)
  then show "pageCrc header body = foldl crcByteL 0 (header @ body)" by (simp add: pageCrc_def)
  have "ucast (push_bit 24 (of_nat i :: u64)) = (push_bit 24 (of_nat i) :: u32)" for i
    by (rule word_eq_bitI) (auto simp: bit_simps)
  then show "map (\<lambda>i. ogg_crc_entry (of_nat i)) [0..<256] = crc_lookup"
    by (auto simp: ogg_crc_entry_register crc_lookup_nth length_crc_lookup intro!: nth_equalityI simp del: upt_Suc)
qed

end
