(* ===== verification/OggStream.thy ===== *)
theory OggStream
  imports OggPage
begin

text \<open>
  Logical streams of the container (\<open>Libraries/speex/include/framing.c\<close>): packets go in,
  are cut into segments of at most 255 bytes and collected into pages; pages go in at the other
  side, are cut into segments again and joined into packets.

  Sizes and positions are naturals; where the source subtracts, the model gives \<open>None\<close> should the
  result be negative. The null pointer \<open>body_data\<close> of a cleared stream is the empty array.
  The pointers handed in are never null and no size reaches the range limit of its type.
\<close>

record ogg_packet =
  op_packet :: "byte list"
  op_b_o_s :: u32
  op_e_o_s :: u32
  op_granulepos :: u64
  op_packetno :: int

record ogg_stream_state =
  os_body_data :: "byte list"
  os_body_storage :: nat
  os_body_fill :: nat
  os_body_returned :: nat
  os_lacing_vals :: "u32 list"
  os_granule_vals :: "u64 list"
  os_lacing_storage :: nat
  os_lacing_fill :: nat
  os_lacing_packet :: nat
  os_lacing_returned :: nat
  os_header :: "byte list"
  os_header_fill :: nat
  os_e_o_s :: bool
  os_b_o_s :: bool
  os_serialno :: int
  os_pageno :: int
  os_packetno :: int
  os_granulepos :: u64

text \<open>The allocator: which sizes in bytes it grants, and what new memory holds.\<close>

record ogg_allocator =
  oa_ok :: "nat \<Rightarrow> bool"
  oa_bytes :: "nat \<Rightarrow> byte"
  oa_ints :: "nat \<Rightarrow> u32"
  oa_granules :: "nat \<Rightarrow> u64"

definition growArray :: "bool \<Rightarrow> (nat \<Rightarrow> 'a) \<Rightarrow> 'a list \<Rightarrow> nat \<Rightarrow> 'a list option" where
  "growArray ok fill a n = (if ok then Some (take n a @ map fill [length a..<n]) else None)"

definition subNat :: "nat \<Rightarrow> nat \<Rightarrow> nat option" where
  "subNat a b = (if b \<le> a then Some (a - b) else None)"

subsection \<open>Life cycle\<close>

text \<open>All fields zero, as \<open>memset\<close> leaves them.\<close>

definition os_zero :: ogg_stream_state where
  "os_zero = \<lparr>os_body_data = [], os_body_storage = 0, os_body_fill = 0, os_body_returned = 0,
     os_lacing_vals = [], os_granule_vals = [], os_lacing_storage = 0, os_lacing_fill = 0,
     os_lacing_packet = 0, os_lacing_returned = 0, os_header = replicate 282 0, os_header_fill = 0,
     os_e_o_s = False, os_b_o_s = False, os_serialno = 0, os_pageno = 0, os_packetno = 0, os_granulepos = 0\<rparr>"

definition ogg_stream_clear :: "ogg_stream_state \<Rightarrow> int \<times> ogg_stream_state" where
  "ogg_stream_clear os = (0, os_zero)"

definition ogg_stream_init :: "ogg_allocator \<Rightarrow> int \<Rightarrow> int \<times> ogg_stream_state" where
  "ogg_stream_init al serialno =
     (let os = os_zero\<lparr>os_body_storage := 16 * 1024, os_lacing_storage := 1024\<rparr>
      in case (growArray (oa_ok al (os_body_storage os)) (oa_bytes al) [] (os_body_storage os),
               growArray (oa_ok al (os_lacing_storage os * 4)) (oa_ints al) [] (os_lacing_storage os),
               growArray (oa_ok al (os_lacing_storage os * 8)) (oa_granules al) [] (os_lacing_storage os)) of
           (Some body_data, Some lacing_vals, Some granule_vals) \<Rightarrow>
             (0, os\<lparr>os_body_data := body_data, os_lacing_vals := lacing_vals,
                   os_granule_vals := granule_vals, os_serialno := serialno\<rparr>)
         | _ \<Rightarrow> (-1, snd (ogg_stream_clear os)))"

definition ogg_stream_check :: "ogg_stream_state \<Rightarrow> int" where
  "ogg_stream_check os = (if os_body_data os = [] then -1 else 0)"

definition os_body_expand :: "ogg_allocator \<Rightarrow> ogg_stream_state \<Rightarrow> nat \<Rightarrow> int \<times> ogg_stream_state" where
  "os_body_expand al os needed =
     (if os_body_storage os \<le> os_body_fill os + needed then
        (let n = os_body_storage os + needed + 1024
         in case growArray (oa_ok al n) (oa_bytes al) (os_body_data os) n of
              None \<Rightarrow> (-1, snd (ogg_stream_clear os))
            | Some ret \<Rightarrow> (0, os\<lparr>os_body_storage := os_body_storage os + (needed + 1024), os_body_data := ret\<rparr>))
      else (0, os))"

definition os_lacing_expand :: "ogg_allocator \<Rightarrow> ogg_stream_state \<Rightarrow> nat \<Rightarrow> int \<times> ogg_stream_state" where
  "os_lacing_expand al os needed =
     (if os_lacing_storage os \<le> os_lacing_fill os + needed then
        (let n = os_lacing_storage os + needed + 32
         in case growArray (oa_ok al (n * 4)) (oa_ints al) (os_lacing_vals os) n of
              None \<Rightarrow> (-1, snd (ogg_stream_clear os))
            | Some ret \<Rightarrow>
                (let os = os\<lparr>os_lacing_vals := ret\<rparr>
                 in case growArray (oa_ok al (n * 8)) (oa_granules al) (os_granule_vals os) n of
                      None \<Rightarrow> (-1, snd (ogg_stream_clear os))
                    | Some ret \<Rightarrow> (0, os\<lparr>os_granule_vals := ret, os_lacing_storage := os_lacing_storage os + (needed + 32)\<rparr>)))
      else (0, os))"

definition ogg_stream_reset :: "ogg_stream_state \<Rightarrow> int \<times> ogg_stream_state" where
  "ogg_stream_reset os =
     (if ogg_stream_check os \<noteq> 0 then (-1, os)
      else (0, os\<lparr>os_body_fill := 0, os_body_returned := 0, os_lacing_fill := 0, os_lacing_packet := 0,
                 os_lacing_returned := 0, os_header_fill := 0, os_e_o_s := False, os_b_o_s := False,
                 os_pageno := -1, os_packetno := 0, os_granulepos := 0\<rparr>))"

definition ogg_stream_reset_serialno :: "ogg_stream_state \<Rightarrow> int \<Rightarrow> int \<times> ogg_stream_state" where
  "ogg_stream_reset_serialno os serialno =
     (if ogg_stream_check os \<noteq> 0 then (-1, os)
      else (0, (snd (ogg_stream_reset os))\<lparr>os_serialno := serialno\<rparr>))"

definition ogg_stream_eos :: "ogg_stream_state \<Rightarrow> int" where
  "ogg_stream_eos os = (if ogg_stream_check os \<noteq> 0 then 1 else of_bool (os_e_o_s os))"

subsection \<open>Packets in\<close>

text \<open>Moving the body data that was not returned yet to the front of the buffer.\<close>

definition compactBody :: "ogg_stream_state \<Rightarrow> ogg_stream_state option" where
  "compactBody os =
     (if os_body_returned os \<noteq> 0 then
        Option.bind (subNat (os_body_fill os) (os_body_returned os)) (\<lambda>fill.
        Option.bind (if fill \<noteq> 0 then blit (os_body_data os) (os_body_returned os) (os_body_data os) 0 fill
                     else Some (os_body_data os)) (\<lambda>data.
          Some (os\<lparr>os_body_fill := fill, os_body_data := data, os_body_returned := 0\<rparr>)))
      else Some os)"

text \<open>Copying one array behind the stored data.\<close>

definition appendBody :: "ogg_stream_state \<Rightarrow> byte list \<Rightarrow> ogg_stream_state option" where
  "appendBody os d =
     Option.bind (blit d 0 (os_body_data os) (os_body_fill os) (length d)) (\<lambda>data.
       Some (os\<lparr>os_body_data := data, os_body_fill := os_body_fill os + length d\<rparr>))"

fun copyVectors :: "ogg_stream_state \<Rightarrow> byte list list \<Rightarrow> ogg_stream_state option" where
  "copyVectors os [] = Some os"
| "copyVectors os (v # vs) = Option.bind (appendBody os v) (\<lambda>os. copyVectors os vs)"

definition storeLacing :: "ogg_stream_state \<Rightarrow> nat \<Rightarrow> nat \<Rightarrow> u64 \<Rightarrow> ogg_stream_state option" where
  "storeLacing os bytes n granulepos =
     (let fill = os_lacing_fill os; lst = fill + (n - 1)
      in Option.bind (forUpd (\<lambda>_ _. Some 255) [fill..<lst] (os_lacing_vals os)) (\<lambda>lv.
         Option.bind (forUpd (\<lambda>_ _. Some (os_granulepos os)) [fill..<lst] (os_granule_vals os)) (\<lambda>gv.
         Option.bind (wr lv lst (of_nat (bytes mod 255))) (\<lambda>lv.
         Option.bind (wr gv lst granulepos) (\<lambda>gv.
         Option.bind (rd lv fill) (\<lambda>v.
         Option.bind (wr lv fill (v OR 0x100)) (\<lambda>lv.
           Some (os\<lparr>os_lacing_vals := lv, os_granule_vals := gv, os_granulepos := granulepos,
                    os_lacing_fill := fill + n\<rparr>))))))))"

definition ogg_stream_iovecin ::
  "ogg_allocator \<Rightarrow> ogg_stream_state \<Rightarrow> byte list list \<Rightarrow> bool \<Rightarrow> u64 \<Rightarrow> (int \<times> ogg_stream_state) option" where
  "ogg_stream_iovecin al os iov e_o_s granulepos =
     (if ogg_stream_check os \<noteq> 0 then Some (-1, os)
      else
        (let bytes = sum_list (map length iov); lacing_vals = bytes div 255 + 1
         in Option.bind (compactBody os) (\<lambda>os.
            case os_body_expand al os bytes of (r, os) \<Rightarrow>
            if r \<noteq> 0 then Some (-1, os)
            else case os_lacing_expand al os lacing_vals of (r, os) \<Rightarrow>
            if r \<noteq> 0 then Some (-1, os)
            else
              Option.bind (copyVectors os iov) (\<lambda>os.
              Option.bind (storeLacing os bytes lacing_vals granulepos) (\<lambda>os.
                Some (0, os\<lparr>os_packetno := os_packetno os + 1, os_e_o_s := os_e_o_s os \<or> e_o_s\<rparr>))))))"

definition ogg_stream_packetin :: "ogg_allocator \<Rightarrow> ogg_stream_state \<Rightarrow> ogg_packet \<Rightarrow> (int \<times> ogg_stream_state) option" where
  "ogg_stream_packetin al os op =
     ogg_stream_iovecin al os [op_packet op] (op_e_o_s op \<noteq> 0) (op_granulepos op)"

subsection \<open>Pages out\<close>

text \<open>The first page holds the first packet only.\<close>

fun firstPageVals :: "u32 list \<Rightarrow> nat \<Rightarrow> nat \<Rightarrow> nat option" where
  "firstPageVals lacing vals 0 = Some vals"
| "firstPageVals lacing vals (Suc n) =
     Option.bind (rd lacing vals) (\<lambda>v. if v AND 0xff < 255 then Some (vals + 1) else firstPageVals lacing (vals + 1) n)"

text \<open>
  The segments of any other page: the loop with its counters \<open>acc\<close>, \<open>packets_done\<close> and
  \<open>packet_just_done\<close>; the result is the number of segments, the granule position of the last packet
  that ends on the page, and whether the page is forced out.
\<close>

fun pageVals ::
  "ogg_stream_state \<Rightarrow> int \<Rightarrow> nat \<Rightarrow> nat \<Rightarrow> nat \<Rightarrow> nat \<Rightarrow> nat \<Rightarrow> u64 \<Rightarrow> bool \<Rightarrow> (nat \<times> u64 \<times> bool) option" where
  "pageVals os nfill vals 0 acc packets_done packet_just_done granule_pos force = Some (vals, granule_pos, force)"
| "pageVals os nfill vals (Suc n) acc packets_done packet_just_done granule_pos force =
     (if int acc > nfill \<and> packet_just_done \<ge> 4 then Some (vals, granule_pos, True)
      else
        Option.bind (rd (os_lacing_vals os) vals) (\<lambda>v.
        let acc = acc + unat (v AND 0xff)
        in if v AND 0xff < 255
           then Option.bind (rd (os_granule_vals os) vals) (\<lambda>g.
                  pageVals os nfill (vals + 1) n acc (packets_done + 1) (packets_done + 1) g force)
           else pageVals os nfill (vals + 1) n acc packets_done 0 granule_pos force))"

definition pageSegments :: "ogg_stream_state \<Rightarrow> bool \<Rightarrow> int \<Rightarrow> nat \<Rightarrow> (nat \<times> u64 \<times> bool) option" where
  "pageSegments os force nfill maxvals =
     (if \<not> os_b_o_s os then map_option (\<lambda>vals. (vals, 0, force)) (firstPageVals (os_lacing_vals os) 0 maxvals)
      else Option.bind (pageVals os nfill 0 maxvals 0 0 0 (-1) force) (\<lambda>(vals, granule_pos, force).
             Some (vals, granule_pos, if vals = 255 then True else force)))"

text \<open>The low \<open>n\<close> bytes of a number, least significant first.\<close>

definition leBytes :: "nat \<Rightarrow> u64 \<Rightarrow> byte list" where
  "leBytes n v = map (\<lambda>i. ucast (drop_bit (8 * i) v AND 0xff)) [0..<n]"

definition pageHeader :: "ogg_stream_state \<Rightarrow> byte \<Rightarrow> u64 \<Rightarrow> int \<Rightarrow> u32 list \<Rightarrow> byte list" where
  "pageHeader os flags granule_pos pageno segs =
     [0x4f, 0x67, 0x67, 0x53, 0x00, flags] @ leBytes 8 granule_pos @ leBytes 4 (of_int (os_serialno os)) @
     leBytes 4 (of_int pageno) @ [0, 0, 0, 0] @ [of_nat (length segs)] @ map (\<lambda>v. ucast (v AND 0xff)) segs"

text \<open>
  The header is built in the stream's own array, which the returned page points to; the lacing
  values of the page are dropped and its body counts as returned.
\<close>

definition ogg_stream_flush_i ::
  "ogg_stream_state \<Rightarrow> bool \<Rightarrow> int \<Rightarrow> (int \<times> ogg_page option \<times> ogg_stream_state) option" where
  "ogg_stream_flush_i os force nfill =
     (let maxvals = min (os_lacing_fill os) 255
      in if ogg_stream_check os \<noteq> 0 then Some (0, None, os)
         else if maxvals = 0 then Some (0, None, os)
         else
           Option.bind (pageSegments os force nfill maxvals) (\<lambda>(vals, granule_pos, force).
           if \<not> force then Some (0, None, os)
           else
             Option.bind (rd (os_lacing_vals os) 0) (\<lambda>v0.
             let flags = (if v0 AND 0x100 = 0 then 1 else 0) OR (if os_b_o_s os then 0 else 2) OR
                         (if os_e_o_s os \<and> os_lacing_fill os = vals then 4 else 0);
                 pageno = (if os_pageno os = -1 then 0 else os_pageno os);
                 segs = take vals (os_lacing_vals os);
                 hdr = pageHeader os flags granule_pos pageno segs;
                 bytes = sum_list (map (\<lambda>v. unat (v AND 0xff)) segs)
             in Option.bind (blit hdr 0 (os_header os) 0 (length hdr)) (\<lambda>header.
                Option.bind (blit (os_body_data os) (os_body_returned os) (replicate bytes 0) 0 bytes) (\<lambda>body.
                Option.bind (subNat (os_lacing_fill os) vals) (\<lambda>lacing_fill.
                Option.bind (blit (os_lacing_vals os) vals (os_lacing_vals os) 0 lacing_fill) (\<lambda>lv.
                Option.bind (blit (os_granule_vals os) vals (os_granule_vals os) 0 lacing_fill) (\<lambda>gv.
                Option.bind (ogg_page_checksum_set \<lparr>og_header = take (vals + 27) header, og_body = body\<rparr>) (\<lambda>og.
                  Some (1, Some og,
                    os\<lparr>os_b_o_s := True, os_pageno := pageno + 1, os_header_fill := vals + 27,
                       os_header := og_header og @ drop (vals + 27) header,
                       os_lacing_fill := lacing_fill, os_lacing_vals := lv, os_granule_vals := gv,
                       os_body_returned := os_body_returned os + bytes\<rparr>))))))))))"

definition ogg_stream_flush :: "ogg_stream_state \<Rightarrow> (int \<times> ogg_page option \<times> ogg_stream_state) option" where
  "ogg_stream_flush os = ogg_stream_flush_i os True 4096"

definition ogg_stream_flush_fill :: "ogg_stream_state \<Rightarrow> int \<Rightarrow> (int \<times> ogg_page option \<times> ogg_stream_state) option" where
  "ogg_stream_flush_fill os nfill = ogg_stream_flush_i os True nfill"

definition ogg_stream_pageout_fill :: "ogg_stream_state \<Rightarrow> int \<Rightarrow> (int \<times> ogg_page option \<times> ogg_stream_state) option" where
  "ogg_stream_pageout_fill os nfill =
     (if ogg_stream_check os \<noteq> 0 then Some (0, None, os)
      else ogg_stream_flush_i os
             (os_e_o_s os \<and> os_lacing_fill os \<noteq> 0 \<or> os_lacing_fill os \<noteq> 0 \<and> \<not> os_b_o_s os) nfill)"

definition ogg_stream_pageout :: "ogg_stream_state \<Rightarrow> (int \<times> ogg_page option \<times> ogg_stream_state) option" where
  "ogg_stream_pageout os =
     (if ogg_stream_check os \<noteq> 0 then Some (0, None, os)
      else ogg_stream_flush_i os
             (os_e_o_s os \<and> os_lacing_fill os \<noteq> 0 \<or> os_lacing_fill os \<noteq> 0 \<and> \<not> os_b_o_s os) 4096)"

subsection \<open>Pages in\<close>

definition cleanReturned :: "ogg_stream_state \<Rightarrow> ogg_stream_state option" where
  "cleanReturned os =
     Option.bind (compactBody os) (\<lambda>os.
     let lr = os_lacing_returned os
     in if lr \<noteq> 0 then
          Option.bind (subNat (os_lacing_fill os) lr) (\<lambda>fill.
          Option.bind (if fill \<noteq> 0 then blit (os_lacing_vals os) lr (os_lacing_vals os) 0 fill
                       else Some (os_lacing_vals os)) (\<lambda>lv.
          Option.bind (if fill \<noteq> 0 then blit (os_granule_vals os) lr (os_granule_vals os) 0 fill
                       else Some (os_granule_vals os)) (\<lambda>gv.
          Option.bind (subNat (os_lacing_packet os) lr) (\<lambda>packet.
            Some (os\<lparr>os_lacing_vals := lv, os_granule_vals := gv, os_lacing_fill := fill,
                     os_lacing_packet := packet, os_lacing_returned := 0\<rparr>)))))
        else Some os)"

text \<open>Dropping the segments of an incomplete packet when a page is missing, and marking the hole.\<close>

fun unrollBody :: "u32 list \<Rightarrow> nat \<Rightarrow> nat \<Rightarrow> nat \<Rightarrow> nat option" where
  "unrollBody lacing i 0 fill = Some fill"
| "unrollBody lacing i (Suc n) fill =
     Option.bind (rd lacing i) (\<lambda>v. Option.bind (subNat fill (unat (v AND 0xff))) (\<lambda>fill.
       unrollBody lacing (i + 1) n fill))"

definition resequence :: "ogg_stream_state \<Rightarrow> int \<Rightarrow> ogg_stream_state option" where
  "resequence os pageno =
     (if pageno \<noteq> os_pageno os then
        Option.bind (unrollBody (os_lacing_vals os) (os_lacing_packet os)
            (os_lacing_fill os - os_lacing_packet os) (os_body_fill os)) (\<lambda>body_fill.
        let os = os\<lparr>os_body_fill := body_fill, os_lacing_fill := os_lacing_packet os\<rparr>
        in if os_pageno os \<noteq> -1 then
             Option.bind (wr (os_lacing_vals os) (os_lacing_fill os) 0x400) (\<lambda>lv.
               Some (os\<lparr>os_lacing_vals := lv, os_lacing_fill := os_lacing_fill os + 1,
                        os_lacing_packet := os_lacing_packet os + 1\<rparr>))
           else Some os)
      else Some os)"

text \<open>
  Skipping the end of a packet whose beginning is missing: the result is the segment to go on
  with and the length of the skipped body.
\<close>

fun skipSegments :: "byte list \<Rightarrow> nat \<Rightarrow> nat \<Rightarrow> nat \<Rightarrow> (nat \<times> nat) option" where
  "skipSegments header segptr 0 skipped = Some (segptr, skipped)"
| "skipSegments header segptr (Suc n) skipped =
     Option.bind (rd header (27 + segptr)) (\<lambda>val.
       if val < 255 then Some (segptr + 1, skipped + unat val)
       else skipSegments header (segptr + 1) n (skipped + unat val))"

text \<open>The loop over the remaining segments; \<open>saved\<close> is the last segment that ends a packet.\<close>

fun addSegments :: "byte list \<Rightarrow> nat \<Rightarrow> nat \<Rightarrow> bool \<Rightarrow> nat option \<Rightarrow> ogg_stream_state \<Rightarrow>
    (nat option \<times> ogg_stream_state) option" where
  "addSegments header segptr 0 bos saved os = Some (saved, os)"
| "addSegments header segptr (Suc n) bos saved os =
     Option.bind (rd header (27 + segptr)) (\<lambda>val.
     let fill = os_lacing_fill os
     in Option.bind (wr (os_lacing_vals os) fill (if bos then ucast val OR 0x100 else ucast val)) (\<lambda>lv.
        Option.bind (wr (os_granule_vals os) fill (-1)) (\<lambda>gv.
        addSegments header (segptr + 1) n False (if val < 255 then Some fill else saved)
          (os\<lparr>os_lacing_vals := lv, os_granule_vals := gv, os_lacing_fill := fill + 1,
              os_lacing_packet := (if val < 255 then fill + 1 else os_lacing_packet os)\<rparr>))))"

definition markEos :: "ogg_stream_state \<Rightarrow> ogg_stream_state option" where
  "markEos os =
     (let os = os\<lparr>os_e_o_s := True\<rparr>
      in if os_lacing_fill os > 0 then
           Option.bind (rd (os_lacing_vals os) (os_lacing_fill os - 1)) (\<lambda>v.
           Option.bind (wr (os_lacing_vals os) (os_lacing_fill os - 1) (v OR 0x200)) (\<lambda>lv.
             Some (os\<lparr>os_lacing_vals := lv\<rparr>)))
         else Some os)"

definition skipContinued :: "ogg_stream_state \<Rightarrow> byte list \<Rightarrow> nat \<Rightarrow> bool \<Rightarrow> bool \<Rightarrow> (nat \<times> nat \<times> bool) option" where
  "skipContinued os header segments continued bos =
     (if continued then
        Option.bind (if os_lacing_fill os < 1 then Some True
                     else map_option (\<lambda>v. v = 0x400) (rd (os_lacing_vals os) (os_lacing_fill os - 1))) (\<lambda>missing.
        if missing then map_option (\<lambda>(segptr, skipped). (segptr, skipped, False)) (skipSegments header 0 segments 0)
        else Some (0, 0, bos))
      else Some (0, 0, bos))"

definition ogg_stream_pagein :: "ogg_allocator \<Rightarrow> ogg_stream_state \<Rightarrow> ogg_page \<Rightarrow> (int \<times> ogg_stream_state) option" where
  "ogg_stream_pagein al os og =
     Option.bind (ogg_page_version og) (\<lambda>version.
     Option.bind (ogg_page_continued og) (\<lambda>continued.
     Option.bind (ogg_page_bos og) (\<lambda>bos.
     Option.bind (ogg_page_eos og) (\<lambda>eos.
     Option.bind (ogg_page_granulepos og) (\<lambda>granulepos.
     Option.bind (ogg_page_serialno og) (\<lambda>serialno.
     Option.bind (ogg_page_pageno og) (\<lambda>pageno.
     Option.bind (rd (og_header og) 26) (\<lambda>segs.
     let segments = unat segs
     in if ogg_stream_check os \<noteq> 0 then Some (-1, os)
        else
          Option.bind (cleanReturned os) (\<lambda>os.
          if serialno \<noteq> os_serialno os then Some (-1, os)
          else if version > 0 then Some (-1, os)
          else case os_lacing_expand al os (segments + 1) of (r, os) \<Rightarrow>
          if r \<noteq> 0 then Some (-1, os)
          else
            Option.bind (resequence os pageno) (\<lambda>os.
            Option.bind (skipContinued os (og_header og) segments (continued \<noteq> 0) (bos \<noteq> 0)) (\<lambda>(segptr, skipped, bos).
            Option.bind (subNat (length (og_body og)) skipped) (\<lambda>bodysize.
            case (if bodysize \<noteq> 0 then os_body_expand al os bodysize else (0, os)) of (r, os) \<Rightarrow>
            if r \<noteq> 0 then Some (-1, os)
            else
              Option.bind (if bodysize \<noteq> 0 then appendBody os (drop skipped (og_body og)) else Some os) (\<lambda>os.
              Option.bind (addSegments (og_header og) segptr (segments - segptr) bos None os) (\<lambda>(saved, os).
              Option.bind (case saved of None \<Rightarrow> Some (os_granule_vals os)
                           | Some i \<Rightarrow> wr (os_granule_vals os) i granulepos) (\<lambda>gv.
              Option.bind (if eos \<noteq> 0 then markEos (os\<lparr>os_granule_vals := gv\<rparr>) else Some (os\<lparr>os_granule_vals := gv\<rparr>)) (\<lambda>os.
                Some (0, os\<lparr>os_pageno := pageno + 1\<rparr>)))))))))))))))))"

subsection \<open>Packets out\<close>

text \<open>
  Gathering the segments behind the one at \<open>ptr\<close>, whose size is \<open>size\<close>: the last segment, the
  length of the packet and the end-of-stream flag.
\<close>

function gatherPacket :: "u32 list \<Rightarrow> nat \<Rightarrow> nat \<Rightarrow> nat \<Rightarrow> u32 \<Rightarrow> (nat \<times> nat \<times> u32) option" where
  "gatherPacket lacing ptr sz bytes eos =
     (if sz = 255 then
        (if ptr + 1 < length lacing then
           let val = lacing ! (ptr + 1); sz = unat (val AND 0xff)
           in gatherPacket lacing (ptr + 1) sz (bytes + sz) (if val AND 0x200 \<noteq> 0 then 0x200 else eos)
         else None)
      else Some (ptr, bytes, eos))"
  by pat_completeness auto
termination by (relation "measure (\<lambda>(lacing, ptr, _). length lacing - ptr)") auto

declare gatherPacket.simps [simp del]

text \<open>With a packet to fill in, as both callers do; \<open>adv\<close> tells whether to move on.\<close>

definition packetout :: "ogg_stream_state \<Rightarrow> bool \<Rightarrow> (int \<times> ogg_packet option \<times> ogg_stream_state) option" where
  "packetout os adv =
     (let ptr = os_lacing_returned os
      in if os_lacing_packet os \<le> ptr then Some (0, None, os)
         else
           Option.bind (rd (os_lacing_vals os) ptr) (\<lambda>v.
           if v AND 0x400 \<noteq> 0 then
             Some (-1, None, os\<lparr>os_lacing_returned := os_lacing_returned os + 1, os_packetno := os_packetno os + 1\<rparr>)
           else
             let sz = unat (v AND 0xff)
             in Option.bind (gatherPacket (os_lacing_vals os) ptr sz sz (v AND 0x200)) (\<lambda>(ptr, bytes, eos).
                Option.bind (rd (os_granule_vals os) ptr) (\<lambda>granule.
                Option.bind (blit (os_body_data os) (os_body_returned os) (replicate bytes 0) 0 bytes) (\<lambda>data.
                let op = \<lparr>op_packet = data, op_b_o_s = v AND 0x100, op_e_o_s = eos,
                          op_granulepos = granule, op_packetno = os_packetno os\<rparr>
                in Some (1, Some op,
                     if adv then os\<lparr>os_body_returned := os_body_returned os + bytes, os_lacing_returned := ptr + 1,
                                    os_packetno := os_packetno os + 1\<rparr>
                     else os))))))"

definition ogg_stream_packetout :: "ogg_stream_state \<Rightarrow> (int \<times> ogg_packet option \<times> ogg_stream_state) option" where
  "ogg_stream_packetout os = (if ogg_stream_check os \<noteq> 0 then Some (0, None, os) else packetout os True)"

definition ogg_stream_packetpeek :: "ogg_stream_state \<Rightarrow> (int \<times> ogg_packet option \<times> ogg_stream_state) option" where
  "ogg_stream_packetpeek os = (if ogg_stream_check os \<noteq> 0 then Some (0, None, os) else packetout os False)"

end
