(* ===== verification/OggSender.thy ===== *)
theory OggSender
  imports OggStream
begin

text \<open>
  Delivery through pages: whatever the packets and the schedule, a decoder that receives the pages
  of an encoder in order delivers the packets that were put in, in order and unchanged.

  A stream is seen through two windows: the segments that wait in it and the bytes that wait in
  it. Every operation takes elements from the front or adds some at the back of these windows,
  whatever it moves in memory.
\<close>

subsection \<open>Windows of an array\<close>

definition window :: "'a list \<Rightarrow> nat \<Rightarrow> nat \<Rightarrow> 'a list" where
  "window a i n = drop i (take n a)"

lemma length_window: "n \<le> length a \<Longrightarrow> length (window a i n) = n - i"
  by (simp add: window_def)

lemma nth_window: "i + k < n \<Longrightarrow> n \<le> length a \<Longrightarrow> window a i n ! k = a ! (i + k)"
  by (simp add: window_def)

lemma window_append:
  assumes "i \<le> n" and "n + length d \<le> length a"
  shows "\<exists>b. blit d 0 a n (length d) = Some b \<and> length b = length a \<and> window b i (n + length d) = window a i n @ d"
  using assms by (simp add: blit_Some window_def)

lemma window_compact:
  assumes "i \<le> n" and "n \<le> length a"
  shows "\<exists>b. (if n - i \<noteq> 0 then blit a i a 0 (n - i) else Some a) = Some b \<and> length b = length a \<and>
    window b 0 (n - i) = window a i n"
  using assms by (auto simp: blit_Some window_def drop_take)

lemma window_front:
  assumes "k \<le> n - i" and "i \<le> n" and "n \<le> length a"
  shows "blit a i (replicate k x) 0 k = Some (take k (window a i n))"
proof -
  have "i + k \<le> length a" "i + k \<le> n" using assms by linarith+
  then show ?thesis by (simp add: blit_Some window_def take_drop add.commute min_def)
qed

lemma window_grow:
  assumes "n \<le> length a" and "n \<le> m" and "growArray True f a m = Some b"
  shows "length b = m \<and> window b i n = window a i n"
proof -
  have "b = take m a @ map f [length a..<m]" using assms(3) by (simp add: growArray_def)
  moreover have "take n (take m a @ map f [length a..<m]) = take n a" using assms(1,2) by (simp add: min_def)
  ultimately show ?thesis by (simp add: window_def)
qed

lemma window_snoc:
  assumes "i \<le> n" and "n < length a"
  shows "window (a[n := x]) i (Suc n) = window a i n @ [x]"
  using assms by (simp add: window_def take_Suc_conv_app_nth)

lemma window_drop: "window a (i + k) n = drop k (window a i n)"
  by (simp add: window_def add.commute)

lemma window_update_outside: "n \<le> k \<Longrightarrow> window (a[k := x]) i n = window a i n"
  by (simp add: window_def)

subsection \<open>Streams through their windows\<close>

definition low :: "u32 \<Rightarrow> nat" where
  "low v = unat (v AND 0xff)"

definition os_segs :: "ogg_stream_state \<Rightarrow> u32 list" where
  "os_segs os = window (os_lacing_vals os) (os_lacing_returned os) (os_lacing_fill os)"

definition os_bytes :: "ogg_stream_state \<Rightarrow> byte list" where
  "os_bytes os = window (os_body_data os) (os_body_returned os) (os_body_fill os)"

definition os_wf :: "ogg_stream_state \<Rightarrow> bool" where
  "os_wf os \<longleftrightarrow> os_body_data os \<noteq> [] \<and> length (os_body_data os) = os_body_storage os \<and>
     os_body_returned os \<le> os_body_fill os \<and> os_body_fill os \<le> os_body_storage os \<and>
     length (os_lacing_vals os) = os_lacing_storage os \<and> length (os_granule_vals os) = os_lacing_storage os \<and>
     os_lacing_returned os \<le> os_lacing_fill os \<and> os_lacing_fill os \<le> os_lacing_storage os \<and>
     length (os_header os) = 282 \<and> sum_list (map low (os_segs os)) = length (os_bytes os)"

lemma low_less: "low v < 256"
  using word_and_le1 [of v "0xff"] by (simp add: low_def word_le_nat_alt)

lemma low_flag: "low (v OR 0x100) = low v" "low (v OR 0x200) = low v"
proof -
  have "(v OR 0x100) AND 0xff = v AND 0xff" "(v OR 0x200) AND 0xff = v AND 0xff"
    by (simp_all add: word_ao_dist)
  then show "low (v OR 0x100) = low v" "low (v OR 0x200) = low v" by (simp_all only: low_def)
qed

lemma low_small:
  assumes "n < 256"
  shows "low (of_nat n) = n"
proof -
  have "(0xff :: u32) = mask 8" by (simp add: mask_eq_exp_minus_1)
  then have "(of_nat n :: u32) AND 0xff = take_bit 8 (of_nat n)" by (simp only: take_bit_eq_mask)
  then have "low (of_nat n) = take_bit 8 (take_bit 32 n)"
    by (simp only: low_def unsigned_take_bit_eq unsigned_of_nat) simp
  with assms show ?thesis by (simp add: take_bit_eq_mod)
qed

lemma low_ucast: "low (ucast (b :: byte)) = unat b"
proof -
  have "low (of_nat (unat b)) = unat b" by (rule low_small) (rule unat_byte_less)
  then show ?thesis by simp
qed

subsection \<open>Putting packets in\<close>

text \<open>The segments of a packet: their sizes, and the lacing values the encoder stores.\<close>

definition lacing :: "nat \<Rightarrow> nat list" where
  "lacing len = replicate (len div 255) 255 @ [len mod 255]"

definition packetLacing :: "nat \<Rightarrow> u32 list" where
  "packetLacing len = (case replicate (len div 255) 255 @ [of_nat (len mod 255)] of
     v # vs \<Rightarrow> (v OR 0x100) # vs)"

lemma packetLacing_low: "map low (packetLacing len) = lacing len"
proof -
  have "low 511 = 255" by (simp add: low_def)
  then show ?thesis
    by (cases "len div 255") (simp_all add: packetLacing_def lacing_def low_flag low_small low_small [of 255, simplified])
qed

lemma sum_lacing: "sum_list (lacing len) = len"
  by (simp add: lacing_def sum_list_replicate)

lemma length_lacing: "length (lacing len) = len div 255 + 1" "length (packetLacing len) = len div 255 + 1"
  using arg_cong [OF packetLacing_low [of len], of length] by (simp_all add: lacing_def)

lemma forUpd_fill:
  "m \<le> n \<Longrightarrow> n \<le> length a \<Longrightarrow> forUpd (\<lambda>_ _. Some c) [m..<n] a = Some (take m a @ replicate (n - m) c @ drop n a)"
proof (induction "n - m" arbitrary: m a)
  case (Suc k)
  then have m: "m < n" by simp
  have "forUpd (\<lambda>_ _. Some c) [Suc m..<n] (a[m := c]) = Some (take (Suc m) (a[m := c]) @ replicate (n - Suc m) c @ drop n (a[m := c]))"
    by (rule Suc.hyps(1)) (use Suc.hyps(2) Suc.prems m in auto)
  moreover have "take (Suc m) (a[m := c]) = take m a @ [c]" using m Suc.prems by (simp add: take_Suc_conv_app_nth)
  moreover have "n - m = Suc (n - Suc m)" using m by simp
  ultimately show ?case using m Suc.prems by (simp add: upt_conv_Cons)
qed simp

lemma storeLacing_ok:
  assumes fill: "os_lacing_fill os + (bytes div 255 + 1) \<le> length (os_lacing_vals os)"
    "length (os_granule_vals os) = length (os_lacing_vals os)"
  shows "\<exists>lv gv. storeLacing os bytes (bytes div 255 + 1) g = Some (os\<lparr>os_lacing_vals := lv, os_granule_vals := gv,
      os_granulepos := g, os_lacing_fill := os_lacing_fill os + (bytes div 255 + 1)\<rparr>) \<and>
    length lv = length (os_lacing_vals os) \<and> length gv = length (os_lacing_vals os) \<and>
    take (os_lacing_fill os + (bytes div 255 + 1)) lv = take (os_lacing_fill os) (os_lacing_vals os) @ packetLacing bytes"
proof -
  let ?f = "os_lacing_fill os" and ?n = "bytes div 255" and ?a = "os_lacing_vals os"
  let ?rest = "drop (?f + ?n + 1) ?a"
  have "drop (?f + ?n) ?a = ?a ! (?f + ?n) # ?rest" using fill by (simp add: Cons_nth_drop_Suc)
  then have lv: "forUpd (\<lambda>_ _. Some 255) [?f..<?f + ?n] ?a = Some (take ?f ?a @ replicate ?n 255 @ ?a ! (?f + ?n) # ?rest)"
    using fill by (subst forUpd_fill) simp_all
  have gv: "\<exists>gv. forUpd (\<lambda>_ _. Some (os_granulepos os)) [?f..<?f + ?n] (os_granule_vals os) = Some gv \<and> length gv = length ?a"
    using fill by (subst forUpd_fill) simp_all
  have wr1: "wr (take ?f ?a @ replicate ?n 255 @ ?a ! (?f + ?n) # ?rest) (?f + ?n) (of_nat (bytes mod 255)) =
      Some (take ?f ?a @ replicate ?n 255 @ of_nat (bytes mod 255) # ?rest)"
    using fill by (simp add: list_update_append)
  obtain v vs where vs: "replicate ?n 255 @ [of_nat (bytes mod 255)] = (v :: u32) # vs" by (cases ?n) auto
  have p: "packetLacing bytes = (v OR 0x100) # vs" by (simp only: packetLacing_def vs list.case)
  have l: "length vs = ?n" using arg_cong [OF vs, of length] by simp
  have e: "take ?f ?a @ replicate ?n 255 @ of_nat (bytes mod 255) # ?rest = take ?f ?a @ (v # vs) @ ?rest"
    using arg_cong [OF vs, of "\<lambda>x. x @ ?rest"] by simp
  have r: "rd (take ?f ?a @ (v # vs) @ ?rest) ?f = Some v" using fill by (simp add: nth_append)
  have wr2: "wr (take ?f ?a @ (v # vs) @ ?rest) ?f (v OR 0x100) = Some (take ?f ?a @ packetLacing bytes @ ?rest)"
    using fill by (simp add: p list_update_append)
  from gv obtain gv where g: "forUpd (\<lambda>_ _. Some (os_granulepos os)) [?f..<?f + ?n] (os_granule_vals os) = Some gv"
    "length gv = length ?a" by blast
  have wg: "wr gv (?f + ?n) g = Some (gv[?f + ?n := g])" using fill g(2) by simp
  have "storeLacing os bytes (?n + 1) g = Some (os\<lparr>os_lacing_vals := take ?f ?a @ packetLacing bytes @ ?rest,
      os_granule_vals := gv[?f + ?n := g], os_granulepos := g, os_lacing_fill := ?f + (?n + 1)\<rparr>)"
    by (simp only: storeLacing_def Let_def add_diff_cancel_right' lv g(1) Option.bind.simps wr1 e r wr2 wg)
  then show ?thesis using fill g(2) by - (intro exI conjI, assumption, simp_all add: length_lacing)
qed

definition grants :: "ogg_allocator \<Rightarrow> bool" where
  "grants al \<longleftrightarrow> (\<forall>n. oa_ok al n)"

lemma body_expand_ok:
  assumes "grants al" and "length (os_body_data os) = os_body_storage os" and "os_body_fill os \<le> os_body_storage os"
  shows "\<exists>d. os_body_expand al os n = (0, os\<lparr>os_body_storage := length d, os_body_data := d\<rparr>) \<and>
    os_body_fill os + n < length d \<and> take (os_body_fill os) d = take (os_body_fill os) (os_body_data os)"
proof (cases "os_body_storage os \<le> os_body_fill os + n")
  case True
  with assms show ?thesis
    by (intro exI [of _ "os_body_data os @ map (oa_bytes al) [os_body_storage os..<os_body_storage os + n + 1024]"])
      (simp add: os_body_expand_def growArray_def grants_def Let_def)
next
  case False
  then have "os = os\<lparr>os_body_storage := length (os_body_data os), os_body_data := os_body_data os\<rparr>"
    using assms(2) by simp
  with False assms show ?thesis unfolding os_body_expand_def
    by (intro exI [of _ "os_body_data os"]) auto
qed

lemma lacing_expand_ok:
  assumes "grants al" and "length (os_lacing_vals os) = os_lacing_storage os" "length (os_granule_vals os) = os_lacing_storage os"
    and "os_lacing_fill os \<le> os_lacing_storage os"
  shows "\<exists>lv gv. os_lacing_expand al os n =
      (0, os\<lparr>os_lacing_storage := length lv, os_lacing_vals := lv, os_granule_vals := gv\<rparr>) \<and>
    os_lacing_fill os + n < length lv \<and> length gv = length lv \<and>
    take (os_lacing_fill os) lv = take (os_lacing_fill os) (os_lacing_vals os)"
proof (cases "os_lacing_storage os \<le> os_lacing_fill os + n")
  case True
  with assms show ?thesis
    by (intro exI [of _ "os_lacing_vals os @ map (oa_ints al) [os_lacing_storage os..<os_lacing_storage os + n + 32]"]
        exI [of _ "os_granule_vals os @ map (oa_granules al) [os_lacing_storage os..<os_lacing_storage os + n + 32]"])
      (simp add: os_lacing_expand_def growArray_def grants_def Let_def)
next
  case False
  then have "os = os\<lparr>os_lacing_storage := length (os_lacing_vals os), os_lacing_vals := os_lacing_vals os,
      os_granule_vals := os_granule_vals os\<rparr>"
    using assms(2) by simp
  with False assms show ?thesis unfolding os_lacing_expand_def
    by (intro exI [of _ "os_lacing_vals os"] exI [of _ "os_granule_vals os"]) auto
qed

lemma compactBody_ok:
  assumes "os_body_returned os \<le> os_body_fill os" and "os_body_fill os \<le> length (os_body_data os)"
  shows "\<exists>d. compactBody os = Some (os\<lparr>os_body_fill := os_body_fill os - os_body_returned os, os_body_data := d,
      os_body_returned := 0\<rparr>) \<and> length d = length (os_body_data os) \<and>
    take (os_body_fill os - os_body_returned os) d = os_bytes os"
proof (cases "os_body_returned os = 0")
  case True
  then have "os = os\<lparr>os_body_fill := os_body_fill os - os_body_returned os, os_body_data := os_body_data os, os_body_returned := 0\<rparr>"
    by simp
  with True show ?thesis by (intro exI [of _ "os_body_data os"]) (simp add: compactBody_def os_bytes_def window_def)
next
  case False
  obtain d where "(if os_body_fill os - os_body_returned os \<noteq> 0 then blit (os_body_data os) (os_body_returned os) (os_body_data os) 0
        (os_body_fill os - os_body_returned os) else Some (os_body_data os)) = Some d"
    "length d = length (os_body_data os)" "window d 0 (os_body_fill os - os_body_returned os) = os_bytes os"
    using window_compact [OF assms] by (auto simp: os_bytes_def)
  note d = this
  have "subNat (os_body_fill os) (os_body_returned os) = Some (os_body_fill os - os_body_returned os)"
    using assms(1) by (simp add: subNat_def)
  then have "compactBody os = Some (os\<lparr>os_body_fill := os_body_fill os - os_body_returned os, os_body_data := d,
      os_body_returned := 0\<rparr>)"
    by (simp only: compactBody_def if_P [OF False] Option.bind.simps d(1))
  with d(2,3) show ?thesis by (auto simp: window_def)
qed

lemma appendBody_ok:
  assumes "os_body_fill os + length v \<le> length (os_body_data os)"
  shows "\<exists>d. appendBody os v = Some (os\<lparr>os_body_data := d, os_body_fill := os_body_fill os + length v\<rparr>) \<and>
    length d = length (os_body_data os) \<and> take (os_body_fill os + length v) d = take (os_body_fill os) (os_body_data os) @ v"
  using assms by (intro exI [of _ "take (os_body_fill os) (os_body_data os) @ v @ drop (os_body_fill os + length v) (os_body_data os)"])
    (simp add: appendBody_def blit_Some)

lemma copyVectors_ok:
  "os_body_fill os + length (concat vs) \<le> length (os_body_data os) \<Longrightarrow>
   \<exists>d. copyVectors os vs = Some (os\<lparr>os_body_data := d, os_body_fill := os_body_fill os + length (concat vs)\<rparr>) \<and>
    length d = length (os_body_data os) \<and>
    take (os_body_fill os + length (concat vs)) d = take (os_body_fill os) (os_body_data os) @ concat vs"
proof (induction vs arbitrary: os)
  case Nil
  then show ?case by (intro exI [of _ "os_body_data os"]) simp
next
  case (Cons v vs)
  then obtain d where d: "appendBody os v = Some (os\<lparr>os_body_data := d, os_body_fill := os_body_fill os + length v\<rparr>)"
    "length d = length (os_body_data os)" "take (os_body_fill os + length v) d = take (os_body_fill os) (os_body_data os) @ v"
    using appendBody_ok [of os v] by auto
  from Cons.IH [of "os\<lparr>os_body_data := d, os_body_fill := os_body_fill os + length v\<rparr>"] Cons.prems d show ?case
    by (simp add: add.assoc)
qed

lemma ogg_check_ok: "os_body_data os \<noteq> [] \<Longrightarrow> ogg_stream_check os = 0"
  by (simp add: ogg_stream_check_def)

text \<open>What an operation that stores data leaves alone.\<close>

definition os_same :: "ogg_stream_state \<Rightarrow> ogg_stream_state \<Rightarrow> bool" where
  "os_same os os' \<longleftrightarrow> os_lacing_returned os' = os_lacing_returned os \<and> os_lacing_packet os' = os_lacing_packet os \<and>
     os_serialno os' = os_serialno os \<and> os_pageno os' = os_pageno os \<and> os_b_o_s os' = os_b_o_s os"

lemma iovecin_ok:
  assumes wf: "os_wf os" and al: "grants al"
  shows "\<exists>os'. ogg_stream_iovecin al os vs e g = Some (0, os') \<and> os_wf os' \<and> os_same os os' \<and>
    os_segs os' = os_segs os @ packetLacing (length (concat vs)) \<and> os_bytes os' = os_bytes os @ concat vs"
proof -
  let ?n = "length (concat vs)"
  have n: "sum_list (map length vs) = ?n" by (simp add: length_concat)
  obtain d1 where d1: "compactBody os = Some (os\<lparr>os_body_fill := os_body_fill os - os_body_returned os, os_body_data := d1,
      os_body_returned := 0\<rparr>)" "length d1 = length (os_body_data os)"
    "take (os_body_fill os - os_body_returned os) d1 = os_bytes os"
    using compactBody_ok [of os] wf by (auto simp: os_wf_def)
  let ?os1 = "os\<lparr>os_body_fill := os_body_fill os - os_body_returned os, os_body_data := d1, os_body_returned := 0\<rparr>"
  have "os_body_fill ?os1 \<le> os_body_storage ?os1" using wf by (simp add: os_wf_def le_trans [OF diff_le_self])
  then obtain d2 where d2: "os_body_expand al ?os1 ?n = (0, ?os1\<lparr>os_body_storage := length d2, os_body_data := d2\<rparr>)"
    "os_body_fill ?os1 + ?n < length d2" "take (os_body_fill ?os1) d2 = take (os_body_fill ?os1) (os_body_data ?os1)"
    using body_expand_ok [OF al, of ?os1 ?n] wf d1(2) by (auto simp: os_wf_def)
  let ?os2 = "?os1\<lparr>os_body_storage := length d2, os_body_data := d2\<rparr>"
  obtain lv gv where l: "os_lacing_expand al ?os2 (?n div 255 + 1) =
      (0, ?os2\<lparr>os_lacing_storage := length lv, os_lacing_vals := lv, os_granule_vals := gv\<rparr>)"
    "os_lacing_fill os + (?n div 255 + 1) < length lv" "length gv = length lv"
    "take (os_lacing_fill os) lv = take (os_lacing_fill os) (os_lacing_vals os)"
    using lacing_expand_ok [OF al, of ?os2 "?n div 255 + 1"] wf by (auto simp: os_wf_def)
  let ?os3 = "?os2\<lparr>os_lacing_storage := length lv, os_lacing_vals := lv, os_granule_vals := gv\<rparr>"
  obtain d4 where d4: "copyVectors ?os3 vs = Some (?os3\<lparr>os_body_data := d4, os_body_fill := os_body_fill ?os3 + ?n\<rparr>)"
    "length d4 = length d2" "take (os_body_fill ?os3 + ?n) d4 = take (os_body_fill ?os3) d2 @ concat vs"
    using copyVectors_ok [of ?os3 vs] d2(2) by auto
  let ?os4 = "?os3\<lparr>os_body_data := d4, os_body_fill := os_body_fill ?os3 + ?n\<rparr>"
  obtain lv5 gv5 where st: "storeLacing ?os4 ?n (?n div 255 + 1) g = Some (?os4\<lparr>os_lacing_vals := lv5, os_granule_vals := gv5,
      os_granulepos := g, os_lacing_fill := os_lacing_fill os + (?n div 255 + 1)\<rparr>)"
    "length lv5 = length lv" "length gv5 = length lv"
    "take (os_lacing_fill os + (?n div 255 + 1)) lv5 = take (os_lacing_fill os) lv @ packetLacing ?n"
    using storeLacing_ok [of ?os4 ?n g] l(2,3) by auto
  let ?os5 = "?os4\<lparr>os_lacing_vals := lv5, os_granule_vals := gv5, os_granulepos := g,
      os_lacing_fill := os_lacing_fill os + (?n div 255 + 1), os_packetno := os_packetno os + 1, os_e_o_s := os_e_o_s os \<or> e\<rparr>"
  have "ogg_stream_check os = 0" using wf by (simp add: os_wf_def ogg_check_ok)
  then have run: "ogg_stream_iovecin al os vs e g = Some (0, ?os5)"
    unfolding ogg_stream_iovecin_def n Let_def by (simp add: d1(1) d2(1) [simplified] l(1) [simplified] d4(1) [simplified] st(1) [simplified])
  have segs: "os_segs ?os5 = os_segs os @ packetLacing ?n"
    using wf st(4) l(4) by (simp add: os_segs_def window_def os_wf_def)
  have bytes: "os_bytes ?os5 = os_bytes os @ concat vs"
    using d4(3) d2(3) d1(3) by (simp add: os_bytes_def window_def)
  have "os_wf ?os5"
    using wf d2(2) d4(2) l(2,3) st(2,3) segs bytes
    by (auto simp: os_wf_def packetLacing_low sum_lacing)
  with run segs bytes show ?thesis by (intro exI [of _ ?os5]) (simp add: os_same_def)
qed

subsection \<open>Page headers\<close>

text \<open>The bytes of a page header with the given fields, the checksum bytes included.\<close>

definition headerBytes :: "byte \<Rightarrow> u64 \<Rightarrow> u64 \<Rightarrow> u64 \<Rightarrow> byte list \<Rightarrow> byte list \<Rightarrow> byte list" where
  "headerBytes flags granule serial pageno crc segs =
     [0x4f, 0x67, 0x67, 0x53, 0x00, flags] @ leBytes 8 granule @ leBytes 4 serial @ leBytes 4 pageno @ crc @
     [of_nat (length segs)] @ segs"

lemma low_byte: "ucast (v AND 0xff :: u64) = (ucast v :: byte)"
  unfolding byte_take_bit by (rule word_eq_bitI) (auto simp: bit_simps)

lemma leBytes_4: "leBytes 4 v = [ucast v, ucast (drop_bit 8 v), ucast (drop_bit 16 v), ucast (drop_bit 24 v)]"
  by (simp add: leBytes_def upt_rec low_byte)

lemma leBytes_8: "leBytes 8 v = [ucast v, ucast (drop_bit 8 v), ucast (drop_bit 16 v), ucast (drop_bit 24 v),
    ucast (drop_bit 32 v), ucast (drop_bit 40 v), ucast (drop_bit 48 v), ucast (drop_bit 56 v)]"
  by (simp add: leBytes_def upt_rec low_byte)

lemma le32_join: "ucast (ucast v :: byte) OR push_bit 8 (ucast (ucast (drop_bit 8 v) :: byte)) OR
    push_bit 16 (ucast (ucast (drop_bit 16 v) :: byte)) OR push_bit 24 (ucast (ucast (drop_bit 24 (v :: u64)) :: byte)) = (ucast v :: u32)"
  by (rule word_eq_bitI) (auto simp: bit_simps not_less cong: conj_cong)

lemma le64_step:
  assumes "m = k + 8"
  shows "push_bit 8 (drop_bit m v) OR ucast (ucast (drop_bit k v) :: byte) = drop_bit k (v :: u64)"
proof (rule word_eq_bitI)
  fix n
  show "bit (push_bit 8 (drop_bit m v) OR ucast (ucast (drop_bit k v) :: byte)) n = bit (drop_bit k v) n"
    by (cases "n < 8") (auto simp: assms bit_simps not_less dest: bit_imp_le_length)
qed

lemma le64_top: "ucast (ucast (drop_bit 56 v) :: byte) = drop_bit 56 (v :: u64)"
  by (rule word_eq_bitI) (auto simp: bit_simps dest: bit_imp_le_length)

lemma header_fields:
  assumes crc: "length crc = 4" and h: "h = headerBytes flags g s p crc segs"
  shows "rd h 4 = Some 0" "rd h 5 = Some flags" "rd h 26 = Some (of_nat (length segs))"
    "i < length segs \<Longrightarrow> rd h (27 + i) = Some (segs ! i)" "length h = 27 + length segs"
    "headerInt h 14 = Some (sint (ucast s :: u32))" "headerInt h 18 = Some (sint (ucast p :: u32))"
    "ogg_page_granulepos \<lparr>og_header = h, og_body = b\<rparr> = Some g"
proof -
  obtain c0 c1 c2 c3 where c: "crc = [c0, c1, c2, c3]" using crc by (auto simp: eval_nat_numeral length_Suc_conv)
  note d = h headerBytes_def leBytes_4 leBytes_8 c
  show "rd h 4 = Some 0" "rd h 5 = Some flags" "rd h 26 = Some (of_nat (length segs))"
    "length h = 27 + length segs"
    by (simp_all add: d)
  show "rd h (27 + i) = Some (segs ! i)" if "i < length segs"
    using that by (simp add: d)
  show "headerInt h 14 = Some (sint (ucast s :: u32))" "headerInt h 18 = Some (sint (ucast p :: u32))"
    unfolding le32_join [symmetric] by (simp_all add: d headerInt_def)
  show "ogg_page_granulepos \<lparr>og_header = h, og_body = b\<rparr> = Some g"
  proof -
    have r: "rd h 6 = Some (ucast g)" "rd h 7 = Some (ucast (drop_bit 8 g))" "rd h 8 = Some (ucast (drop_bit 16 g))"
      "rd h 9 = Some (ucast (drop_bit 24 g))" "rd h 10 = Some (ucast (drop_bit 32 g))" "rd h 11 = Some (ucast (drop_bit 40 g))"
      "rd h 12 = Some (ucast (drop_bit 48 g))" "rd h 13 = Some (ucast (drop_bit 56 g))"
      by (simp_all add: d)
    have 0: "push_bit 8 (drop_bit 8 g) OR ucast (ucast g :: byte) = g" using le64_step [of 8 0 g] by simp
    have j: "push_bit 8 (drop_bit 56 g) OR ucast (ucast (drop_bit 48 g) :: byte) = drop_bit 48 g"
      "push_bit 8 (drop_bit 48 g) OR ucast (ucast (drop_bit 40 g) :: byte) = drop_bit 40 g"
      "push_bit 8 (drop_bit 40 g) OR ucast (ucast (drop_bit 32 g) :: byte) = drop_bit 32 g"
      "push_bit 8 (drop_bit 32 g) OR ucast (ucast (drop_bit 24 g) :: byte) = drop_bit 24 g"
      "push_bit 8 (drop_bit 24 g) OR ucast (ucast (drop_bit 16 g) :: byte) = drop_bit 16 g"
      "push_bit 8 (drop_bit 16 g) OR ucast (ucast (drop_bit 8 g) :: byte) = drop_bit 8 g"
      by (rule le64_step; simp)+
    show ?thesis
      by (simp only: ogg_page_granulepos_def foldl.simps ogg_page.simps r option.map Option.bind.simps le64_top j 0)
  qed
qed

definition crcBytes :: "u32 \<Rightarrow> byte list" where
  "crcBytes r = [ucast (r AND 0xff), ucast (drop_bit 8 r AND 0xff), ucast (drop_bit 16 r AND 0xff), ucast (drop_bit 24 r AND 0xff)]"

lemma checksum_set_ok:
  assumes "length crc = 4"
  shows "ogg_page_checksum_set \<lparr>og_header = headerBytes flags g s p crc segs, og_body = b\<rparr> =
    Some \<lparr>og_header = headerBytes flags g s p (crcBytes (pageCrc (headerBytes flags g s p [0, 0, 0, 0] segs) b)) segs, og_body = b\<rparr>"
proof -
  obtain c0 c1 c2 c3 where c: "crc = [c0, c1, c2, c3]" using assms by (auto simp: eval_nat_numeral length_Suc_conv)
  show ?thesis
    by (simp add: ogg_page_checksum_set_def headerBytes_def leBytes_4 leBytes_8 c crcBytes_def Let_def)
qed

subsection \<open>Taking pages out\<close>

lemma firstPageVals_ok:
  "vals + n \<le> length l \<Longrightarrow> \<exists>r. firstPageVals l vals n = Some r \<and> vals \<le> r \<and> r \<le> vals + n \<and> (0 < n \<longrightarrow> vals < r)"
proof (induction n arbitrary: vals)
  case (Suc n)
  then show ?case using Suc.IH [of "vals + 1"] by auto
qed simp

lemma pageVals_ok:
  "vals + n \<le> length (os_lacing_vals os) \<Longrightarrow> length (os_granule_vals os) = length (os_lacing_vals os) \<Longrightarrow>
   \<exists>r g' f'. pageVals os nfill vals n acc done just g f = Some (r, g', f') \<and> vals \<le> r \<and> r \<le> vals + n \<and>
     (0 < n \<longrightarrow> just < 4 \<longrightarrow> vals < r)"
proof (induction n arbitrary: vals acc "done" just g)
  case (Suc n)
  let ?v = "os_lacing_vals os ! vals" and ?g = "os_granule_vals os ! vals"
  have IH: "\<exists>r g' f'. pageVals os nfill (vals + 1) n acc' done' just' g'' f = Some (r, g', f') \<and> vals + 1 \<le> r \<and> r \<le> vals + 1 + n"
    for acc' done' just' g'' using Suc.IH [of "vals + 1" acc' done' just' g''] Suc.prems by auto
  show ?case
  proof (cases "int acc > nfill \<and> just \<ge> 4")
    case True
    then show ?thesis by auto
  next
    case False
    with Suc.prems IH [of "acc + unat (?v AND 0xff)" "done + 1" "done + 1" ?g] IH [of "acc + unat (?v AND 0xff)" "done" 0 g] show ?thesis
      by (auto simp: Let_def)
  qed
qed simp

lemma pageSegments_ok:
  assumes "n \<le> length (os_lacing_vals os)" and "length (os_granule_vals os) = length (os_lacing_vals os)" and "0 < n"
  shows "\<exists>r g f. pageSegments os force nfill n = Some (r, g, f) \<and> 0 < r \<and> r \<le> n"
  using firstPageVals_ok [of 0 n "os_lacing_vals os"] pageVals_ok [of 0 n os nfill 0 0 0 "-1" force] assms
  by (fastforce simp: pageSegments_def)

lemma pageVals_forced: "pageVals os nfill vals n acc done just g True = Some (r, g', f') \<Longrightarrow> f'"
  by (induction n arbitrary: vals acc "done" just g) (auto simp: Let_def Option.bind_eq_Some_conv split: if_splits)

lemma pageSegments_forced:
  assumes "n \<le> length (os_lacing_vals os)" and "length (os_granule_vals os) = length (os_lacing_vals os)" and "0 < n"
  shows "\<exists>r g. pageSegments os True nfill n = Some (r, g, True)"
proof -
  obtain r g f where p: "pageSegments os True nfill n = Some (r, g, f)"
    using pageSegments_ok [OF assms] by blast
  then have f by (auto simp: pageSegments_def Option.bind_eq_Some_conv split: if_splits dest: pageVals_forced)
  with p show ?thesis by auto
qed

text \<open>The page that holds the first \<open>n\<close> waiting segments.\<close>

definition isFirst :: "u32 \<Rightarrow> bool" where
  "isFirst v \<longleftrightarrow> v AND 0x100 \<noteq> 0"

definition os_nextPage :: "ogg_stream_state \<Rightarrow> int" where
  "os_nextPage os = (if os_pageno os = -1 then 0 else os_pageno os)"

definition page_of :: "ogg_stream_state \<Rightarrow> nat \<Rightarrow> ogg_page \<Rightarrow> bool" where
  "page_of os n og \<longleftrightarrow> (\<exists>flags g crc. length crc = 4 \<and> (flags AND 1 \<noteq> 0) = (\<not> isFirst (hd (os_segs os))) \<and>
     crc = crcBytes (pageCrc (headerBytes flags g (of_int (os_serialno os)) (of_int (os_nextPage os)) [0, 0, 0, 0]
       (map (\<lambda>v. ucast (v AND 0xff)) (take n (os_segs os)))) (og_body og)) \<and>
     og = \<lparr>og_header = headerBytes flags g (of_int (os_serialno os)) (of_int (os_nextPage os)) crc
             (map (\<lambda>v. ucast (v AND 0xff)) (take n (os_segs os))),
           og_body = take (sum_list (map low (take n (os_segs os)))) (os_bytes os)\<rparr>)"

definition page_taken :: "ogg_stream_state \<Rightarrow> nat \<Rightarrow> ogg_stream_state \<Rightarrow> bool" where
  "page_taken os n os' \<longleftrightarrow> os_wf os' \<and> os_lacing_returned os' = 0 \<and> os_serialno os' = os_serialno os \<and>
     os_pageno os' = os_nextPage os + 1 \<and> os_segs os' = drop n (os_segs os) \<and>
     os_bytes os' = drop (sum_list (map low (take n (os_segs os)))) (os_bytes os)"

lemma flags_continued:
  "(((if a then 1 else 0) OR (if b then 0 else 2) OR (if c then 4 else 0)) AND (1 :: byte) \<noteq> 0) = a"
  by simp

lemma sum_split: "sum_list (map f xs) = sum_list (map f (take n xs)) + sum_list (map f (drop n xs))" for f :: "'a \<Rightarrow> nat"
  by (metis append_take_drop_id map_append sum_list_append)

lemma sum_take_le: "sum_list (map f (take n xs)) \<le> sum_list (map f xs)" for f :: "'a \<Rightarrow> nat"
  using sum_split [of f xs n] by linarith

lemma sum_drop: "sum_list (map f (drop n xs)) = sum_list (map f xs) - sum_list (map f (take n xs))" for f :: "'a \<Rightarrow> nat"
  using sum_split [of f xs n] by linarith

lemma flush_ok:
  assumes wf: "os_wf os" and ret: "os_lacing_returned os = 0"
  shows "\<exists>r og os'. ogg_stream_flush_i os force nfill = Some (r, og, os') \<and>
    (r = 0 \<and> og = None \<and> os' = os \<or>
     r = 1 \<and> (\<exists>n p. 0 < n \<and> n \<le> length (os_segs os) \<and> n \<le> 255 \<and> og = Some p \<and> page_of os n p \<and> page_taken os n os'))"
proof -
  let ?lv = "os_lacing_vals os" and ?fill = "os_lacing_fill os" and ?max = "min (os_lacing_fill os) 255"
  have check: "ogg_stream_check os = 0" using wf by (simp add: os_wf_def ogg_check_ok)
  have sg: "os_segs os = take ?fill ?lv" using ret by (simp add: os_segs_def window_def)
  have len: "?fill \<le> length ?lv" "length (os_granule_vals os) = length ?lv" using wf by (auto simp: os_wf_def)
  show ?thesis
  proof (cases "?max = 0")
    case True
    then show ?thesis by (simp add: ogg_stream_flush_i_def check)
  next
    case False
    obtain n g f where n: "pageSegments os force nfill ?max = Some (n, g, f)" "0 < n" "n \<le> ?max"
      using pageSegments_ok [OF le_trans [OF min.cobounded1 len(1)] len(2), of 255 force nfill] False by auto
    show ?thesis
    proof (cases f)
      case False
      then show ?thesis using \<open>?max \<noteq> 0\<close> n(1) by (simp add: ogg_stream_flush_i_def check Let_def)
    next
      case True
      let ?flags = "(if ?lv ! 0 AND 0x100 = 0 then 1 else 0) OR (if os_b_o_s os then 0 else 2) OR
                         (if os_e_o_s os \<and> ?fill = n then 4 else 0) :: byte"
      let ?segs = "take n ?lv"
      let ?hdr = "headerBytes ?flags g (of_int (os_serialno os)) (of_int (os_nextPage os)) [0, 0, 0, 0]
          (map (\<lambda>v. ucast (v AND 0xff)) ?segs)"
      let ?bytes = "sum_list (map low ?segs)"
      have hdr: "pageHeader os ?flags g (os_nextPage os) ?segs = ?hdr"
        by (simp add: pageHeader_def headerBytes_def)
      have lh: "length ?hdr = n + 27" using n(3) len by (simp add: headerBytes_def leBytes_def)
      have segs: "?segs = take n (os_segs os)" using n(3) by (simp add: sg)
      have bytes: "?bytes \<le> length (os_bytes os)" using wf sum_take_le [of low n "os_segs os"] segs by (simp add: os_wf_def)
      have lb: "length (os_bytes os) = os_body_fill os - os_body_returned os" "os_body_fill os \<le> length (os_body_data os)"
        using wf by (auto simp: os_wf_def os_bytes_def length_window)
      have b1: "blit ?hdr 0 (os_header os) 0 (n + 27) = Some (?hdr @ drop (n + 27) (os_header os))"
        using n(3) wf lh by (simp add: blit_Some os_wf_def)
      have b2: "blit (os_body_data os) (os_body_returned os) (replicate ?bytes 0) 0 ?bytes = Some (take ?bytes (os_bytes os))"
        unfolding os_bytes_def using bytes lb wf by (intro window_front) (simp_all add: os_wf_def)
      have b3: "subNat ?fill n = Some (?fill - n)" using n(3) by (simp add: subNat_def)
      have b4: "\<exists>lv. blit ?lv n ?lv 0 (?fill - n) = Some lv \<and> length lv = length ?lv \<and> take (?fill - n) lv = drop n (take ?fill ?lv)"
        "\<exists>gv. blit (os_granule_vals os) n (os_granule_vals os) 0 (?fill - n) = Some gv \<and> length gv = length ?lv"
        using n(3) len by (auto simp: blit_Some drop_take)
      then obtain lv gv where l: "blit ?lv n ?lv 0 (?fill - n) = Some lv" "length lv = length ?lv"
        "take (?fill - n) lv = drop n (take ?fill ?lv)"
        "blit (os_granule_vals os) n (os_granule_vals os) 0 (?fill - n) = Some gv" "length gv = length ?lv" by blast
      let ?crc = "crcBytes (pageCrc ?hdr (take ?bytes (os_bytes os)))"
      let ?h = "headerBytes ?flags g (of_int (os_serialno os)) (of_int (os_nextPage os)) ?crc (map (\<lambda>v. ucast (v AND 0xff)) ?segs)"
      have cs: "ogg_page_checksum_set \<lparr>og_header = take (n + 27) (?hdr @ drop (n + 27) (os_header os)), og_body = take ?bytes (os_bytes os)\<rparr> =
          Some \<lparr>og_header = ?h, og_body = take ?bytes (os_bytes os)\<rparr>"
        using lh by (simp add: checksum_set_ok)
      have "n \<le> ?fill" using n(3) by simp
      then have ne: "0 < length ?lv" using n(2) len(1) by linarith
      then have v0: "rd ?lv 0 = Some (?lv ! 0)" by (rule rd_Some)
      obtain hx where hx: "?h @ drop (n + 27) (?hdr @ drop (n + 27) (os_header os)) = hx" "length hx = 282"
        using lh n(3) wf by (simp add: os_wf_def headerBytes_def leBytes_def crcBytes_def)
      let ?os' = "os\<lparr>os_b_o_s := True, os_pageno := os_nextPage os + 1, os_header_fill := n + 27, os_header := hx,
         os_lacing_fill := ?fill - n, os_lacing_vals := lv, os_granule_vals := gv,
         os_body_returned := os_body_returned os + ?bytes\<rparr>"
      have run: "ogg_stream_flush_i os force nfill = Some (1, Some \<lparr>og_header = ?h, og_body = take ?bytes (os_bytes os)\<rparr>, ?os')"
        using True \<open>?max \<noteq> 0\<close>
        by (simp only: ogg_stream_flush_i_def Let_def check n(1) Option.bind.simps split if_False not_True_eq_False
            v0 os_nextPage_def [symmetric] hdr lh b1 low_def [symmetric] b2 b3 l(1,4) cs ogg_page.simps hx(1)
            not_False_eq_True if_True simp_thms)
      have hd: "hd (os_segs os) = ?lv ! 0" using n(2,3) ne sg by (simp add: hd_conv_nth)
      have "page_of os n \<lparr>og_header = ?h, og_body = take ?bytes (os_bytes os)\<rparr>"
        unfolding page_of_def segs [symmetric]
        by (intro exI [of _ ?flags] exI [of _ g] exI [of _ ?crc]) (simp add: crcBytes_def isFirst_def hd flags_continued)
      moreover have "page_taken os n ?os'"
      proof -
        have segs': "os_segs ?os' = drop n (os_segs os)" using ret l(3) by (simp add: os_segs_def window_def)
        have bytes': "os_bytes ?os' = drop ?bytes (os_bytes os)" by (simp add: os_bytes_def window_drop)
        have "os_body_returned os \<le> os_body_fill os" using wf by (simp add: os_wf_def)
        then have "os_body_returned os + ?bytes \<le> os_body_fill os" using bytes lb(1) by linarith
        moreover have "sum_list (map low (drop n (os_segs os))) = length (drop ?bytes (os_bytes os))"
          using wf segs by (simp add: sum_drop os_wf_def)
        moreover have "?fill - n \<le> length ?lv" using len by simp
        ultimately have "os_wf ?os'" unfolding os_wf_def segs' bytes' using wf [unfolded os_wf_def] l(2,5) hx(2) ret by simp
        with segs' bytes' segs ret show ?thesis by (simp add: page_taken_def)
      qed
      moreover have "n \<le> length (os_segs os)" "n \<le> 255" using n(3) sg len by simp_all
      ultimately have "\<exists>m p. 0 < m \<and> m \<le> length (os_segs os) \<and> m \<le> 255 \<and>
          Some \<lparr>og_header = ?h, og_body = take ?bytes (os_bytes os)\<rparr> = Some p \<and> page_of os m p \<and> page_taken os m ?os'"
        using n(2) by (intro exI [of _ n] exI [of _ "\<lparr>og_header = ?h, og_body = take ?bytes (os_bytes os)\<rparr>"] conjI refl)
      with run show ?thesis by blast
    qed
  qed
qed

end
