(* ===== verification/OggReceiver.thy ===== *)
theory OggReceiver
  imports OggSender
begin

text \<open>
  The receiving side of a stream, seen through its windows: a page that arrives in sequence adds
  its segments and its bytes at the back, a packet that is taken out takes its own from the front.
\<close>

subsection \<open>Pages in sequence\<close>

text \<open>The number of segments up to the end of the last complete packet.\<close>

definition complete :: "nat list \<Rightarrow> nat" where
  "complete ss = length (dropWhile (\<lambda>x. x = 255) (rev ss))"

lemma complete_snoc: "complete (ss @ [x]) = (if x = 255 then complete ss else length ss + 1)"
  by (simp add: complete_def)

lemma complete_le: "complete ss \<le> length ss"
  using length_dropWhile_le [of _ "rev ss"] by (simp add: complete_def)

definition noHole :: "u32 \<Rightarrow> bool" where
  "noHole v \<longleftrightarrow> v AND 0x400 = 0"

definition os_receiving :: "ogg_stream_state \<Rightarrow> bool" where
  "os_receiving os \<longleftrightarrow> os_wf os \<and> os_lacing_packet os = os_lacing_returned os + complete (map low (os_segs os)) \<and>
     (\<forall>v \<in> set (os_segs os). noHole v)"

lemma cleanReturned_ok:
  assumes "os_receiving os"
  shows "\<exists>d f lv gv. cleanReturned os = Some (os\<lparr>os_body_fill := f, os_body_data := d, os_body_returned := 0,
      os_lacing_vals := lv, os_granule_vals := gv, os_lacing_fill := length (os_segs os),
      os_lacing_packet := complete (map low (os_segs os)), os_lacing_returned := 0\<rparr>) \<and>
    length d = os_body_storage os \<and> f = length (os_bytes os) \<and> take f d = os_bytes os \<and>
    length lv = os_lacing_storage os \<and> length gv = os_lacing_storage os \<and> take (length (os_segs os)) lv = os_segs os"
proof -
  have wf: "os_wf os" using assms by (simp add: os_receiving_def)
  then have b: "os_body_returned os \<le> os_body_fill os" "os_body_fill os \<le> length (os_body_data os)"
    and l: "os_lacing_returned os \<le> os_lacing_fill os" "os_lacing_fill os \<le> length (os_lacing_vals os)"
      "length (os_granule_vals os) = length (os_lacing_vals os)" "length (os_lacing_vals os) = os_lacing_storage os"
      "length (os_body_data os) = os_body_storage os"
    by (simp_all add: os_wf_def)
  have fill: "length (os_bytes os) = os_body_fill os - os_body_returned os"
    "length (os_segs os) = os_lacing_fill os - os_lacing_returned os"
    using b l by (simp_all add: os_bytes_def os_segs_def length_window)
  obtain d where d: "compactBody os = Some (os\<lparr>os_body_fill := length (os_bytes os), os_body_data := d, os_body_returned := 0\<rparr>)"
    "length d = length (os_body_data os)" "take (length (os_bytes os)) d = os_bytes os"
    using compactBody_ok [OF b] fill by auto
  let ?os = "os\<lparr>os_body_fill := length (os_bytes os), os_body_data := d, os_body_returned := 0\<rparr>"
  show ?thesis
  proof (cases "os_lacing_returned os = 0")
    case True
    have "os_lacing_vals os = os_lacing_vals os" "take (length (os_segs os)) (os_lacing_vals os) = os_segs os"
      using True fill l by (simp_all add: os_segs_def window_def)
    moreover have "cleanReturned os = Some (?os\<lparr>os_lacing_vals := os_lacing_vals os, os_granule_vals := os_granule_vals os,
        os_lacing_fill := length (os_segs os), os_lacing_packet := complete (map low (os_segs os)), os_lacing_returned := 0\<rparr>)"
      using True fill assms by (simp add: cleanReturned_def d(1) os_receiving_def)
    ultimately show ?thesis using d l by - (intro exI conjI, assumption, simp_all)
  next
    case False
    obtain lv where lv: "(if length (os_segs os) \<noteq> 0 then blit (os_lacing_vals os) (os_lacing_returned os) (os_lacing_vals os) 0
          (length (os_segs os)) else Some (os_lacing_vals os)) = Some lv"
      "length lv = length (os_lacing_vals os)" "take (length (os_segs os)) lv = os_segs os"
      using window_compact [OF l(1,2)] unfolding fill(2) [symmetric] by (auto simp: os_segs_def window_def)
    obtain gv where gv: "(if length (os_segs os) \<noteq> 0 then blit (os_granule_vals os) (os_lacing_returned os) (os_granule_vals os) 0
          (length (os_segs os)) else Some (os_granule_vals os)) = Some gv" "length gv = length (os_lacing_vals os)"
      using window_compact [OF l(1), of "os_granule_vals os"] l unfolding fill(2) [symmetric] by auto
    have p: "subNat (os_lacing_fill os) (os_lacing_returned os) = Some (length (os_segs os))"
      "subNat (os_lacing_packet os) (os_lacing_returned os) = Some (complete (map low (os_segs os)))"
      using l fill assms by (simp_all add: subNat_def os_receiving_def)
    have sel: "os_lacing_returned ?os = os_lacing_returned os" "os_lacing_fill ?os = os_lacing_fill os"
      "os_lacing_vals ?os = os_lacing_vals os" "os_granule_vals ?os = os_granule_vals os" "os_lacing_packet ?os = os_lacing_packet os"
      by simp_all
    have "cleanReturned os = Some (?os\<lparr>os_lacing_vals := lv, os_granule_vals := gv,
        os_lacing_fill := length (os_segs os), os_lacing_packet := complete (map low (os_segs os)), os_lacing_returned := 0\<rparr>)"
      by (simp only: cleanReturned_def d(1) Option.bind.simps Let_def sel if_P [OF False] p lv(1) gv(1))
    then show ?thesis using d l lv gv by - (intro exI conjI, assumption, simp_all)
  qed
qed

lemma byte_full: "((b :: byte) < 255) = (unat b \<noteq> 255)"
proof -
  have "unat (255 :: byte) = 255" by simp
  then show ?thesis using unat_byte_less [of b] unfolding word_less_nat_alt by linarith
qed

lemma noHole_ucast: "noHole (ucast (b :: byte))" "noHole (ucast b OR 0x100)"
proof -
  have "bit (ucast b :: u32) 10 = False" by (auto simp: bit_ucast_iff dest: bit_imp_le_length)
  moreover have "(0x400 :: u32) = push_bit 10 1" by simp
  then have "(v AND 0x400 = 0) = (\<not> bit v 10)" for v :: u32
    by (simp only: bit_iff_and_push_bit_not_eq_0 not_not)
  ultimately show "noHole (ucast b)" "noHole (ucast b OR 0x100)"
    by (simp_all add: noHole_def bit_or_iff) 
qed

lemma noHole_or: "noHole (v OR 0x200) = noHole v"
  by (simp add: noHole_def word_ao_dist)

lemma low_stored: "low (if c then ucast (b :: byte) OR 0x100 else ucast b) = unat b"
  by (simp add: low_flag low_ucast)

lemma addSegments_ok:
  assumes "\<forall>j < length S. rd header (27 + (segptr + j)) = Some (S ! j)"
    and "os_lacing_fill os + length S \<le> length (os_lacing_vals os)" "length (os_granule_vals os) = length (os_lacing_vals os)"
    and "os_lacing_packet os = complete (map low (take (os_lacing_fill os) (os_lacing_vals os)))"
    and "\<forall>v \<in> set (take (os_lacing_fill os) (os_lacing_vals os)). noHole v"
    and "\<forall>i. saved = Some i \<longrightarrow> i < length (os_lacing_vals os)"
  shows "\<exists>sv lv gv. addSegments header segptr (length S) bos saved os = Some (sv, os\<lparr>os_lacing_vals := lv, os_granule_vals := gv,
      os_lacing_fill := os_lacing_fill os + length S,
      os_lacing_packet := complete (map low (take (os_lacing_fill os + length S) lv))\<rparr>) \<and>
    length lv = length (os_lacing_vals os) \<and> length gv = length lv \<and>
    map low (take (os_lacing_fill os + length S) lv) = map low (take (os_lacing_fill os) (os_lacing_vals os)) @ map unat S \<and>
    (\<forall>v \<in> set (take (os_lacing_fill os + length S) lv). noHole v) \<and> (\<forall>i. sv = Some i \<longrightarrow> i < length lv)"
  using assms
proof (induction S arbitrary: segptr os bos saved)
  case Nil
  then have "os = os\<lparr>os_lacing_vals := os_lacing_vals os, os_granule_vals := os_granule_vals os, os_lacing_fill := os_lacing_fill os,
      os_lacing_packet := complete (map low (take (os_lacing_fill os) (os_lacing_vals os)))\<rparr>" by simp
  then have "addSegments header segptr (length []) bos saved os = Some (saved, os\<lparr>os_lacing_vals := os_lacing_vals os,
      os_granule_vals := os_granule_vals os, os_lacing_fill := os_lacing_fill os + length [],
      os_lacing_packet := complete (map low (take (os_lacing_fill os + length []) (os_lacing_vals os)))\<rparr>)" by simp
  with Nil.prems show ?case by - (intro exI conjI, assumption, simp_all)
next
  case (Cons b S)
  let ?fill = "os_lacing_fill os"
  obtain v where v: "(if bos then ucast b OR 0x100 else ucast b :: u32) = v" "low v = unat b" "noHole v"
    using low_stored [of bos b] noHole_ucast [of b] by (cases bos) auto
  let ?lv = "(os_lacing_vals os)[?fill := v]" and ?gv = "(os_granule_vals os)[?fill := -1]"
  let ?os = "os\<lparr>os_lacing_vals := ?lv, os_granule_vals := ?gv, os_lacing_fill := ?fill + 1,
      os_lacing_packet := (if b < 255 then ?fill + 1 else os_lacing_packet os)\<rparr>"
  have len: "?fill < length (os_lacing_vals os)" using Cons.prems(2) by simp
  have t: "take (Suc ?fill) ?lv = take ?fill (os_lacing_vals os) @ [v]"
    using window_snoc [of 0 ?fill "os_lacing_vals os" v] len by (simp add: window_def)
  have p: "os_lacing_packet ?os = complete (map low (take (os_lacing_fill ?os) (os_lacing_vals ?os)))"
    using Cons.prems(4) len by (simp add: t complete_snoc v(2) byte_full)
  have step: "addSegments header segptr (length (b # S)) bos saved os =
      addSegments header (segptr + 1) (length S) False (if b < 255 then Some ?fill else saved) ?os"
    using Cons.prems(1) [rule_format, of 0] Cons.prems(3) len by (simp add: Let_def v(1))
  have "\<exists>sv lv gv. addSegments header (segptr + 1) (length S) False (if b < 255 then Some ?fill else saved) ?os =
      Some (sv, ?os\<lparr>os_lacing_vals := lv, os_granule_vals := gv, os_lacing_fill := os_lacing_fill ?os + length S,
        os_lacing_packet := complete (map low (take (os_lacing_fill ?os + length S) lv))\<rparr>) \<and>
    length lv = length (os_lacing_vals ?os) \<and> length gv = length lv \<and>
    map low (take (os_lacing_fill ?os + length S) lv) = map low (take (os_lacing_fill ?os) (os_lacing_vals ?os)) @ map unat S \<and>
    (\<forall>v \<in> set (take (os_lacing_fill ?os + length S) lv). noHole v) \<and> (\<forall>i. sv = Some i \<longrightarrow> i < length lv)"
  proof (rule Cons.IH [OF _ _ _ p])
    show "\<forall>j < length S. rd header (27 + (segptr + 1 + j)) = Some (S ! j)"
    proof (intro allI impI)
      fix j assume "j < length S"
      then show "rd header (27 + (segptr + 1 + j)) = Some (S ! j)" using Cons.prems(1) [rule_format, of "Suc j"] by simp
    qed
    show "\<forall>v \<in> set (take (os_lacing_fill ?os) (os_lacing_vals ?os)). noHole v"
      using Cons.prems(5) by (simp add: t v(3))
  qed (use Cons.prems len in auto)
  then show ?case unfolding step by (simp add: t v(2))
qed

lemma storeBody_ok:
  assumes "grants al" and "length (os_body_data os) = os_body_storage os" and "os_body_fill os \<le> os_body_storage os"
  shows "\<exists>d. (\<forall>err K. (case (if length b \<noteq> 0 then os_body_expand al os (length b) else (0, os)) of (r, os) \<Rightarrow>
      if r \<noteq> 0 then err r os else Option.bind (if length b \<noteq> 0 then appendBody os b else Some os) K) =
    (K (os\<lparr>os_body_storage := length d, os_body_data := d, os_body_fill := os_body_fill os + length b\<rparr>) ::
      (int \<times> ogg_stream_state) option)) \<and>
    (os_body_data os \<noteq> [] \<longrightarrow> d \<noteq> []) \<and> os_body_fill os + length b \<le> length d \<and>
    take (os_body_fill os + length b) d = take (os_body_fill os) (os_body_data os) @ b"
proof (cases "length b = 0")
  case True
  then have "os = os\<lparr>os_body_storage := length (os_body_data os), os_body_data := os_body_data os, os_body_fill := os_body_fill os + length b\<rparr>"
    using assms by simp
  with True assms show ?thesis by (intro exI [of _ "os_body_data os"]) simp
next
  case False
  obtain d where d: "os_body_expand al os (length b) = (0, os\<lparr>os_body_storage := length d, os_body_data := d\<rparr>)"
    "os_body_fill os + length b < length d" "take (os_body_fill os) d = take (os_body_fill os) (os_body_data os)"
    using body_expand_ok [OF assms] by blast
  obtain d' where d': "appendBody (os\<lparr>os_body_storage := length d, os_body_data := d\<rparr>) b =
      Some (os\<lparr>os_body_storage := length d, os_body_data := d', os_body_fill := os_body_fill os + length b\<rparr>)"
    "length d' = length d" "take (os_body_fill os + length b) d' = take (os_body_fill os) d @ b"
    using appendBody_ok [of "os\<lparr>os_body_storage := length d, os_body_data := d\<rparr>" b] d(2) by auto
  from False d d' show ?thesis by (intro exI [of _ d']) auto
qed

lemma markEos_ok:
  assumes "os_lacing_fill os \<le> length (os_lacing_vals os)"
  shows "\<exists>lv. (if eos then markEos os else Some os) = Some (os\<lparr>os_e_o_s := os_e_o_s os \<or> eos, os_lacing_vals := lv\<rparr>) \<and>
    length lv = length (os_lacing_vals os) \<and>
    map low (take (os_lacing_fill os) lv) = map low (take (os_lacing_fill os) (os_lacing_vals os)) \<and>
    ((\<forall>v \<in> set (take (os_lacing_fill os) (os_lacing_vals os)). noHole v) \<longrightarrow> (\<forall>v \<in> set (take (os_lacing_fill os) lv). noHole v))"
proof (cases "eos \<and> os_lacing_fill os > 0")
  case False
  then show ?thesis using assms by (intro exI [of _ "os_lacing_vals os"]) (auto simp: markEos_def Let_def)
next
  case True
  then obtain k where k: "os_lacing_fill os = Suc k" by (cases "os_lacing_fill os") auto
  let ?a = "os_lacing_vals os"
  have f: "k < length ?a" using k assms by simp
  have t: "take (Suc k) (?a[k := x]) = take k ?a @ [x]" for x
    using window_snoc [of 0 k ?a x] f by (simp add: window_def)
  have t': "take (Suc k) ?a = take k ?a @ [?a ! k]" using f by (rule take_Suc_conv_app_nth)
  have "markEos os = Some (os\<lparr>os_e_o_s := True, os_lacing_vals := ?a[k := ?a ! k OR 0x200]\<rparr>)"
    using f by (simp add: markEos_def Let_def k)
  then show ?thesis
    using True by (intro exI [of _ "?a[k := ?a ! k OR 0x200]"]) (simp add: k t t' low_flag noHole_or)
qed

lemma in_sequence_ok:
  assumes "\<forall>v \<in> set (take (os_lacing_fill os) (os_lacing_vals os)). noHole v" and "os_lacing_fill os \<le> length (os_lacing_vals os)"
    and "continued \<Longrightarrow> 0 < os_lacing_fill os"
  shows "resequence os (os_pageno os) = Some os" "skipContinued os header segments continued bos = Some (0, 0, bos)"
proof -
  show "resequence os (os_pageno os) = Some os" by (simp add: resequence_def)
  show "skipContinued os header segments continued bos = Some (0, 0, bos)"
  proof (cases continued)
    case True
    let ?f = "os_lacing_fill os - 1"
    have f: "?f < os_lacing_fill os" using assms(3) [OF True] by simp
    then have "os_lacing_vals os ! ?f \<in> set (take (os_lacing_fill os) (os_lacing_vals os))"
      using assms(2) by (auto simp: in_set_conv_nth intro!: exI [of _ ?f])
    then have "noHole (os_lacing_vals os ! ?f)" using assms(1) by blast
    then have "os_lacing_vals os ! ?f \<noteq> 0x400" by (auto simp: noHole_def)
    with f assms(2) show ?thesis by (auto simp: skipContinued_def)
  qed (simp add: skipContinued_def)
qed

lemma int_fields:
  assumes "- (2 ^ 31) \<le> x" "x < 2 ^ 31"
  shows "sint (ucast (of_int x :: u64) :: u32) = x"
proof -
  have "ucast (of_int x :: u64) = (of_int x :: u32)"
    by (rule word_eq_bitI) (auto simp: bit_simps)
  then show ?thesis using assms by (simp add: signed_of_int signed_take_bit_int_eq_self)
qed

lemma pagein_ok:
  assumes os: "os_receiving os" and al: "grants al" and crc: "length crc = 4" and S: "length S \<le> 255" "sum_list (map unat S) = length b"
    and serial: "- (2 ^ 31) \<le> os_serialno os" "os_serialno os < 2 ^ 31"
    and pageno: "0 \<le> os_pageno os" "os_pageno os < 2 ^ 31"
    and cont: "flags AND 1 \<noteq> 0 \<Longrightarrow> os_segs os \<noteq> []"
  shows "\<exists>os'. ogg_stream_pagein al os \<lparr>og_header = headerBytes flags g (of_int (os_serialno os)) (of_int (os_pageno os)) crc S,
      og_body = b\<rparr> = Some (0, os') \<and> os_receiving os' \<and> map low (os_segs os') = map low (os_segs os) @ map unat S \<and>
    os_bytes os' = os_bytes os @ b \<and> os_serialno os' = os_serialno os \<and> os_pageno os' = os_pageno os + 1"
proof -
  define h where "h = headerBytes flags g (of_int (os_serialno os)) (of_int (os_pageno os)) crc S"
  note hf = header_fields [OF crc h_def]
  have wf: "os_wf os" "os_body_data os \<noteq> []" "length (os_header os) = 282" "sum_list (map low (os_segs os)) = length (os_bytes os)"
    "length (os_body_data os) = os_body_storage os" "length (os_segs os) \<le> os_lacing_storage os" "length (os_bytes os) \<le> os_body_storage os"
    using os by (auto simp: os_receiving_def os_wf_def os_segs_def os_bytes_def length_window)
  obtain d f lv gv where c: "cleanReturned os = Some (os\<lparr>os_body_fill := f, os_body_data := d, os_body_returned := 0,
      os_lacing_vals := lv, os_granule_vals := gv, os_lacing_fill := length (os_segs os),
      os_lacing_packet := complete (map low (os_segs os)), os_lacing_returned := 0\<rparr>)"
    "length d = os_body_storage os" "f = length (os_bytes os)" "take f d = os_bytes os"
    "length lv = os_lacing_storage os" "length gv = os_lacing_storage os" "take (length (os_segs os)) lv = os_segs os"
    using cleanReturned_ok [OF os] by blast
  let ?os1 = "os\<lparr>os_body_fill := f, os_body_data := d, os_body_returned := 0, os_lacing_vals := lv, os_granule_vals := gv,
      os_lacing_fill := length (os_segs os), os_lacing_packet := complete (map low (os_segs os)), os_lacing_returned := 0\<rparr>"
  obtain lv2 gv2 where l: "os_lacing_expand al ?os1 (length S + 1) =
      (0, ?os1\<lparr>os_lacing_storage := length lv2, os_lacing_vals := lv2, os_granule_vals := gv2\<rparr>)"
    "length (os_segs os) + (length S + 1) < length lv2" "length gv2 = length lv2" "take (length (os_segs os)) lv2 = os_segs os"
    using lacing_expand_ok [OF al, of ?os1 "length S + 1"] c wf by auto
  let ?os2 = "?os1\<lparr>os_lacing_storage := length lv2, os_lacing_vals := lv2, os_granule_vals := gv2\<rparr>"
  have "os_pageno ?os2 = os_pageno os" "os_lacing_fill ?os2 = length (os_segs os)" by simp_all
  moreover have "\<forall>v \<in> set (take (os_lacing_fill ?os2) (os_lacing_vals ?os2)). noHole v" "os_lacing_fill ?os2 \<le> length (os_lacing_vals ?os2)"
    "flags AND 1 \<noteq> 0 \<Longrightarrow> 0 < os_lacing_fill ?os2"
    using os l(2,4) cont by (auto simp: os_receiving_def)
  ultimately have sq: "resequence ?os2 (os_pageno os) = Some ?os2"
    "\<And>bos. skipContinued ?os2 h (length S) (flags AND 1 \<noteq> 0) bos = Some (0, 0, bos)"
    using in_sequence_ok(1) [of ?os2 "flags AND 1 \<noteq> 0"] in_sequence_ok(2) [of ?os2 "flags AND 1 \<noteq> 0" h "length S"] by simp_all
  have b2: "os_body_data ?os2 = d" "os_body_storage ?os2 = os_body_storage os" "os_body_fill ?os2 = f" by simp_all
  have b3: "d \<noteq> []" "f \<le> os_body_storage os" using c(2,3) wf(2,5,7) by auto
  obtain d3 where body: "\<And>err K. (case (if length b \<noteq> 0 then os_body_expand al ?os2 (length b) else (0, ?os2)) of (r, os) \<Rightarrow>
      if r \<noteq> 0 then err r os else Option.bind (if length b \<noteq> 0 then appendBody os b else Some os) K) =
      (K (?os2\<lparr>os_body_storage := length d3, os_body_data := d3, os_body_fill := f + length b\<rparr>) :: (int \<times> ogg_stream_state) option)"
    "d3 \<noteq> []" "f + length b \<le> length d3" "take (f + length b) d3 = os_bytes os @ b"
    using storeBody_ok [OF al, of ?os2 b] c(2,4) b3 unfolding b2 by auto
  let ?os3 = "?os2\<lparr>os_body_storage := length d3, os_body_data := d3, os_body_fill := f + length b\<rparr>"
  define n where "n = length (os_segs os) + length S"
  obtain sv lv4 gv4 where add: "addSegments h 0 (length S) (flags AND 2 \<noteq> 0) None ?os3 = Some (sv, ?os3\<lparr>os_lacing_vals := lv4,
      os_granule_vals := gv4, os_lacing_fill := n, os_lacing_packet := complete (map low (take n lv4))\<rparr>)"
    "length lv4 = length lv2" "length gv4 = length lv2" "map low (take n lv4) = map low (os_segs os) @ map unat S"
    "\<forall>v \<in> set (take n lv4). noHole v" "\<forall>i. sv = Some i \<longrightarrow> i < length lv2"
    using addSegments_ok [of S h 0 ?os3 None "flags AND 2 \<noteq> 0"] hf(4) l(2-4) os by (auto simp: n_def os_receiving_def)
  let ?os4 = "?os3\<lparr>os_lacing_vals := lv4, os_granule_vals := gv4, os_lacing_fill := n, os_lacing_packet := complete (map low (take n lv4))\<rparr>"
  obtain gv5 where gran: "(case sv of None \<Rightarrow> Some gv4 | Some i \<Rightarrow> wr gv4 i g) = Some gv5" "length gv5 = length lv2"
    using add(3,6) by (cases sv) auto
  have n: "n \<le> length lv4" using l(2) add(2) by (simp add: n_def)
  obtain lv6 where eos: "(if flags AND 4 \<noteq> 0 then markEos (?os4\<lparr>os_granule_vals := gv5\<rparr>) else Some (?os4\<lparr>os_granule_vals := gv5\<rparr>)) =
      Some (?os4\<lparr>os_granule_vals := gv5, os_e_o_s := os_e_o_s os \<or> flags AND 4 \<noteq> 0, os_lacing_vals := lv6\<rparr>)"
    "length lv6 = length lv4" "map low (take n lv6) = map low (take n lv4)" "\<forall>v \<in> set (take n lv6). noHole v"
    using markEos_ok [of "?os4\<lparr>os_granule_vals := gv5\<rparr>" "flags AND 4 \<noteq> 0"] n add(5) by auto
  let ?os' = "?os4\<lparr>os_granule_vals := gv5, os_e_o_s := os_e_o_s os \<or> flags AND 4 \<noteq> 0, os_lacing_vals := lv6,
      os_pageno := os_pageno os + 1\<rparr>"
  have seg: "unat (of_nat (length S) :: byte) = length S" using S(1) by (simp add: unat_of_nat)
  have chk: "ogg_stream_check os = 0" using wf(2) by (rule ogg_check_ok)
  have sel: "os_serialno ?os1 = os_serialno os" "os_granule_vals ?os4 = gv4" by simp_all
  let ?og = "\<lparr>og_header = h, og_body = b\<rparr>"
  have fields: "ogg_page_version ?og = Some 0" "ogg_page_continued ?og = Some (flags AND 1)" "ogg_page_bos ?og = Some (flags AND 2)"
    "ogg_page_eos ?og = Some (flags AND 4)" "ogg_page_serialno ?og = Some (os_serialno os)" "ogg_page_pageno ?og = Some (os_pageno os)"
    "rd (og_header ?og) 26 = Some (of_nat (length S))" "og_header ?og = h" "og_body ?og = b"
    using hf(1-3,6,7) int_fields [OF serial] int_fields [of "os_pageno os"] pageno
    by (simp_all add: ogg_page_version_def ogg_page_continued_def ogg_page_bos_def ogg_page_eos_def ogg_page_serialno_def ogg_page_pageno_def)
  have sub: "subNat (length b) 0 = Some (length b)" "drop 0 b = b" "length S - 0 = length S" by (simp_all add: subNat_def)
  have run: "ogg_stream_pagein al os ?og = Some (0, ?os')"
    by (simp only: ogg_stream_pagein_def fields hf(3,8) seg Option.bind.simps Let_def chk c(1) sel l(1) split sq sub
        body(1) add(1) gran(1) eos(1) less_irrefl if_False if_True simp_thms)
  have segs: "os_segs ?os' = take n lv6" and bytes: "os_bytes ?os' = os_bytes os @ b"
    using body(4) by (simp_all add: os_segs_def os_bytes_def window_def)
  have "os_receiving ?os'"
    using wf(3,4) body(2,3) n eos(2-4) add(2,4) gran(2) S(2) c(3)
    unfolding os_receiving_def os_wf_def segs bytes by simp
  then show ?thesis using run segs bytes eos(3) add(4) unfolding h_def [symmetric]
    by - (intro exI conjI, assumption, simp_all)
qed

subsection \<open>Taking packets out\<close>

lemma complete_append: "x \<noteq> 255 \<Longrightarrow> complete (ss @ x # rest) = length ss + 1 + complete rest"
proof (induction rest rule: rev_induct)
  case Nil
  then show ?case using complete_snoc [of ss x] by (simp add: complete_def)
next
  case (snoc y rest)
  have "complete ((ss @ x # rest) @ [y]) = (if y = 255 then complete (ss @ x # rest) else length (ss @ x # rest) + 1)"
    by (rule complete_snoc)
  then show ?case using snoc complete_snoc [of rest y] by simp
qed

lemma first_packet:
  assumes "0 < complete ss"
  obtains k x rest where "ss = replicate k 255 @ x # rest" "x \<noteq> (255 :: nat)"
proof -
  have "\<exists>x \<in> set ss. x \<noteq> 255"
  proof (rule ccontr)
    assume "\<not> (\<exists>x \<in> set ss. x \<noteq> 255)"
    then have "dropWhile (\<lambda>x. x = 255) (rev ss) = []" by simp
    with assms show False by (simp add: complete_def)
  qed
  from split_list_first_prop [OF this] obtain ys x rest where s: "ss = ys @ x # rest" "x \<noteq> 255" "\<forall>y \<in> set ys. \<not> y \<noteq> 255" by blast
  then have "ys = replicate (length ys) 255" by (simp add: list_eq_iff_nth_eq)
  with s show ?thesis using that by metis
qed

lemma gather_ok:
  "\<lbrakk>\<forall>j < k. low (l ! (ptr + j)) = 255; low (l ! (ptr + k)) \<noteq> 255; ptr + k < length l\<rbrakk> \<Longrightarrow>
   \<exists>e. gatherPacket l ptr (low (l ! ptr)) (acc + low (l ! ptr)) eos = Some (ptr + k, acc + 255 * k + low (l ! (ptr + k)), e)"
proof (induction k arbitrary: ptr acc eos)
  case 0
  then show ?case by (subst gatherPacket.simps) simp
next
  case (Suc k)
  have "\<forall>j < k. low (l ! (Suc ptr + j)) = 255"
  proof (intro allI impI)
    fix j assume "j < k"
    then show "low (l ! (Suc ptr + j)) = 255" using Suc.prems(1) [rule_format, of "Suc j"] by simp
  qed
  with Suc.IH [of "Suc ptr" "acc + 255"] Suc.prems
  have "\<exists>e. gatherPacket l (Suc ptr) (low (l ! Suc ptr)) (acc + 255 + low (l ! Suc ptr)) eos' =
      Some (Suc ptr + k, acc + 255 + 255 * k + low (l ! (Suc ptr + k)), e)" for eos' by simp
  then show ?case using Suc.prems(1) [rule_format, of 0] Suc.prems(3)
    by (subst gatherPacket.simps) (simp add: Let_def low_def [symmetric] algebra_simps)
qed

text \<open>The packet made of the first \<open>k\<close> full segments and one more is taken out of the stream.\<close>

definition packet_taken :: "ogg_stream_state \<Rightarrow> ogg_packet \<Rightarrow> ogg_stream_state \<Rightarrow> bool" where
  "packet_taken os p os' \<longleftrightarrow> (\<exists>k x. take (k + 1) (map low (os_segs os)) = replicate k 255 @ [x] \<and> x \<noteq> 255 \<and>
     op_packet p = take (255 * k + x) (os_bytes os) \<and> os_receiving os' \<and>
     os_segs os' = drop (k + 1) (os_segs os) \<and> os_bytes os' = drop (255 * k + x) (os_bytes os) \<and>
     os_serialno os' = os_serialno os \<and> os_pageno os' = os_pageno os)"

lemma packetout_ok:
  assumes os: "os_receiving os"
  shows "\<exists>r op os'. ogg_stream_packetout os = Some (r, op, os') \<and>
    (complete (map low (os_segs os)) = 0 \<and> r = 0 \<and> op = None \<and> os' = os \<or>
     (\<exists>p. r = 1 \<and> op = Some p \<and> packet_taken os p os'))"
proof -
  have wf: "os_wf os" using os by (simp add: os_receiving_def)
  then have chk: "ogg_stream_check os = 0" by (simp add: os_wf_def ogg_check_ok)
  have pk: "os_lacing_packet os = os_lacing_returned os + complete (map low (os_segs os))" using os by (simp add: os_receiving_def)
  show ?thesis
  proof (cases "complete (map low (os_segs os)) = 0")
    case True
    then show ?thesis by (simp add: ogg_stream_packetout_def chk packetout_def pk)
  next
    case False
    then obtain k x rest where ss: "map low (os_segs os) = replicate k 255 @ x # rest" "x \<noteq> 255"
      using first_packet by blast
    let ?l = "os_lacing_vals os" and ?p = "os_lacing_returned os"
    have b: "os_body_returned os \<le> os_body_fill os" "os_body_fill os \<le> length (os_body_data os)"
      and fl: "?p \<le> os_lacing_fill os" "os_lacing_fill os \<le> length ?l" "length (os_granule_vals os) = length ?l"
      using wf by (simp_all add: os_wf_def)
    have len: "length (os_segs os) = os_lacing_fill os - ?p" "length (os_bytes os) = os_body_fill os - os_body_returned os"
      using fl b by (simp_all add: os_segs_def os_bytes_def length_window)
    have k: "k < length (os_segs os)" using arg_cong [OF ss(1), of length] by simp
    have nth: "?l ! (?p + j) = os_segs os ! j" if "j \<le> k" for j
      using that k len fl by (simp add: os_segs_def nth_window)
    have lw: "low (?l ! (?p + j)) = (replicate k 255 @ x # rest) ! j" if "j \<le> k" for j
      using nth [OF that] that k unfolding ss(1) [symmetric] by simp
    have pl: "?p + k < length ?l" using k len(1) fl by linarith
    have full: "\<forall>j < k. low (?l ! (?p + j)) = 255" and last: "low (?l ! (?p + k)) = x" using lw by (simp_all add: nth_append)
    obtain e where g: "gatherPacket ?l ?p (low (?l ! ?p)) (low (?l ! ?p)) (?l ! ?p AND 0x200) = Some (?p + k, 255 * k + x, e)"
      using gather_ok [OF full _ pl, of 0 "?l ! ?p AND 0x200"] ss(2) unfolding last by auto
    have size: "255 * k + x \<le> length (os_bytes os)"
    proof -
      have "sum_list (map low (os_segs os)) = 255 * k + x + sum_list rest" unfolding ss(1) by (simp add: sum_list_replicate)
      then show ?thesis using wf by (simp add: os_wf_def)
    qed
    have data: "blit (os_body_data os) (os_body_returned os) (replicate (255 * k + x) 0) 0 (255 * k + x) = Some (take (255 * k + x) (os_bytes os))"
      unfolding os_bytes_def using size len b by (intro window_front) simp_all
    have "os_segs os ! 0 \<in> set (os_segs os)" using k by (intro nth_mem) linarith
    then have "?l ! ?p \<in> set (os_segs os)" using nth [of 0] by simp
    then have v: "rd ?l ?p = Some (?l ! ?p)" "?l ! ?p AND 0x400 = 0"
      using pl os by (simp_all add: os_receiving_def noHole_def)
    have gr: "\<exists>y. rd (os_granule_vals os) (?p + k) = Some y" using k len fl by simp
    then obtain y where gr: "rd (os_granule_vals os) (?p + k) = Some y" by blast
    let ?op = "\<lparr>op_packet = take (255 * k + x) (os_bytes os), op_b_o_s = ?l ! ?p AND 0x100, op_e_o_s = e, op_granulepos = y,
        op_packetno = os_packetno os\<rparr>"
    let ?os' = "os\<lparr>os_body_returned := os_body_returned os + (255 * k + x), os_lacing_returned := ?p + k + 1,
        os_packetno := os_packetno os + 1\<rparr>"
    have run: "ogg_stream_packetout os = Some (1, Some ?op, ?os')"
      using False by (simp add: ogg_stream_packetout_def chk packetout_def pk v gr data low_def [symmetric] g Let_def)
    have segs: "os_segs ?os' = drop (k + 1) (os_segs os)" using window_drop [of ?l ?p "k + 1"] by (simp add: os_segs_def add.assoc)
    have bytes: "os_bytes ?os' = drop (255 * k + x) (os_bytes os)" using window_drop [of "os_body_data os"] by (simp add: os_bytes_def)
    have "map low (drop (k + 1) (os_segs os)) = rest" by (simp only: drop_map [symmetric] ss(1)) simp
    then have "os_receiving ?os'"
      using wf os k len size b fl complete_append [OF ss(2), of "replicate k 255" rest]
      unfolding os_receiving_def os_wf_def segs bytes by (auto simp: ss(1) sum_list_replicate dest: in_set_dropD)
    then have "packet_taken os ?op ?os'"
      unfolding packet_taken_def segs bytes ss(1) by (intro exI [of _ k] exI [of _ x]) (simp add: ss(2))
    with run show ?thesis by blast
  qed
qed

end
