(* ===== verification/OggDelivery.thy ===== *)
theory OggDelivery
  imports OggReceiver
begin

text \<open>
  Delivery through pages: whatever the packets and the schedule, a decoder that receives the pages
  of an encoder in order delivers the packets that were put in, in order and unchanged.
\<close>

subsection \<open>An encoder, a decoder and a schedule\<close>

datatype ogg_action =
    Submit "byte list" bool u64
  | Flush
  | FlushFill int
  | Pageout
  | PageoutFill int
  | Deliver

fun takePage :: "ogg_action \<Rightarrow> ogg_stream_state \<Rightarrow> (int \<times> ogg_page option \<times> ogg_stream_state) option" where
  "takePage Flush os = ogg_stream_flush os"
| "takePage (FlushFill n) os = ogg_stream_flush_fill os n"
| "takePage Pageout os = ogg_stream_pageout os"
| "takePage (PageoutFill n) os = ogg_stream_pageout_fill os n"
| "takePage _ os = Some (0, None, os)"

text \<open>The encoder, the decoder and the packets delivered so far.\<close>

type_synonym ogg_link = "ogg_stream_state \<times> ogg_stream_state \<times> byte list list"

fun link_step :: "ogg_allocator \<Rightarrow> ogg_link \<Rightarrow> ogg_action \<Rightarrow> ogg_link option" where
  "link_step al (en, de, out) (Submit p e g) =
     map_option (\<lambda>(_, en). (en, de, out))
       (ogg_stream_packetin al en \<lparr>op_packet = p, op_b_o_s = 0, op_e_o_s = of_bool e, op_granulepos = g, op_packetno = 0\<rparr>)"
| "link_step al (en, de, out) Deliver =
     map_option (\<lambda>(_, p, de). (en, de, out @ (case p of None \<Rightarrow> [] | Some p \<Rightarrow> [op_packet p]))) (ogg_stream_packetout de)"
| "link_step al (en, de, out) a =
     Option.bind (takePage a en) (\<lambda>(_, og, en).
       case og of None \<Rightarrow> Some (en, de, out)
       | Some og \<Rightarrow> map_option (\<lambda>(_, de). (en, de, out)) (ogg_stream_pagein al de og))"

fun link_run :: "ogg_allocator \<Rightarrow> ogg_link \<Rightarrow> ogg_action list \<Rightarrow> ogg_link option" where
  "link_run al l [] = Some l"
| "link_run al l (a # as) = Option.bind (link_step al l a) (\<lambda>l. link_run al l as)"

fun submitted :: "ogg_action list \<Rightarrow> byte list list" where
  "submitted [] = []"
| "submitted (Submit p e g # as) = p # submitted as"
| "submitted (_ # as) = submitted as"

subsection \<open>The invariant\<close>

definition continues :: "u32 list \<Rightarrow> u32 list \<Rightarrow> bool" where
  "continues de en \<longleftrightarrow> (\<forall>i < length en. \<not> isFirst (en ! i) \<longrightarrow>
     (\<exists>j. length de + i = Suc j \<and> (map low de @ map low en) ! j = 255))"

definition link_inv :: "int \<Rightarrow> nat \<Rightarrow> byte list list \<Rightarrow> ogg_link \<Rightarrow> bool" where
  "link_inv s n sent l = (case l of (en, de, out) \<Rightarrow>
     os_wf en \<and> os_lacing_returned en = 0 \<and> os_receiving de \<and> os_serialno en = s \<and> os_serialno de = s \<and>
     os_pageno en = os_pageno de \<and> 0 \<le> os_pageno de \<and> os_pageno de \<le> int n \<and> continues (os_segs de) (os_segs en) \<and>
     (\<exists>rest. sent = out @ rest \<and> concat (map (\<lambda>p. lacing (length p)) rest) = map low (os_segs de) @ map low (os_segs en) \<and>
       concat rest = os_bytes de @ os_bytes en))"

lemma low_as_byte: "unat (ucast (v AND 0xff) :: byte) = low v"
proof -
  have "unat (ucast (v AND 0xff) :: byte) = unat (v AND 0xff) mod 256"
    by (simp only: unsigned_ucast_eq take_bit_eq_mod) simp
  then show ?thesis using low_less [of v] by (simp add: low_def)
qed

lemma lacing_unique:
  "replicate a (255 :: nat) @ u # r = replicate b 255 @ v # s \<Longrightarrow> u \<noteq> 255 \<Longrightarrow> v \<noteq> 255 \<Longrightarrow> a = b \<and> u = v \<and> r = s"
proof (induction a arbitrary: b)
  case 0
  then show ?case by (cases b) auto
next
  case (Suc a)
  then show ?case by (cases b) auto
qed

lemma packetLacing_flags:
  assumes "i < length (packetLacing len)" and "\<not> isFirst (packetLacing len ! i)"
  shows "\<exists>j. i = Suc j \<and> lacing len ! j = 255"
proof (cases i)
  case 0
  have "isFirst (v OR 0x100)" for v by (simp add: isFirst_def word_ao_dist)
  moreover have "isFirst 511" by (simp add: isFirst_def)
  ultimately show ?thesis using assms 0 by (cases "len div 255") (auto simp: packetLacing_def)
next
  case (Suc j)
  with assms(1) have "j < len div 255" by (simp add: length_lacing)
  with Suc show ?thesis by (simp add: lacing_def nth_append)
qed

lemma continues_submit:
  assumes "continues de en"
  shows "continues de (en @ packetLacing len)"
  unfolding continues_def
proof (intro allI impI)
  fix i assume i: "i < length (en @ packetLacing len)" "\<not> isFirst ((en @ packetLacing len) ! i)"
  let ?L = "map low de @ map low en"
  have L: "map low de @ map low (en @ packetLacing len) = ?L @ lacing len" by (simp add: packetLacing_low)
  have len: "length ?L = length de + length en" by simp
  show "\<exists>j. length de + i = Suc j \<and> (map low de @ map low (en @ packetLacing len)) ! j = 255"
  proof (cases "i < length en")
    case True
    with i have "\<not> isFirst (en ! i)" by (simp add: nth_append)
    with assms True obtain j where j: "length de + i = Suc j" "?L ! j = 255" by (auto simp: continues_def)
    then have "j < length ?L" using True len by linarith
    with j show ?thesis unfolding L nth_append by metis
  next
    case False
    then obtain m where m: "i = length en + m" using le_Suc_ex by (metis not_less)
    with i have "m < length (packetLacing len)" "\<not> isFirst (packetLacing len ! m)" by simp_all
    from packetLacing_flags [OF this] obtain j where j: "m = Suc j" "lacing len ! j = 255" by blast
    have "(?L @ lacing len) ! (length ?L + j) = 255" unfolding nth_append_length_plus by (rule j(2))
    moreover have "length de + i = Suc (length ?L + j)" using m j(1) by simp
    ultimately show ?thesis unfolding L by blast
  qed
qed

lemma continues_transfer:
  assumes "continues de en" and "map low de' = map low de @ map low (take n en)" and "n \<le> length en"
  shows "continues de' (drop n en)"
  unfolding continues_def
proof (intro allI impI)
  fix i assume i: "i < length (drop n en)" "\<not> isFirst (drop n en ! i)"
  have l: "length de' = length de + n" using arg_cong [OF assms(2), of length] assms(3) by simp
  have L: "map low de' @ map low (drop n en) = map low de @ map low en"
    by (simp only: assms(2) append_assoc map_append [symmetric] append_take_drop_id)
  from i assms(1,3) obtain j where "length de + (n + i) = Suc j" "(map low de @ map low en) ! j = 255"
    unfolding continues_def by (metis add.commute length_drop less_diff_conv nth_drop)
  then show "\<exists>j. length de' + i = Suc j \<and> (map low de' @ map low (drop n en)) ! j = 255"
    unfolding L l by (intro exI [of _ j]) simp
qed

lemma continues_deliver:
  assumes "continues de en" and "take (k + 1) (map low de) = replicate k 255 @ [x]" and "x \<noteq> 255"
  shows "continues (drop (k + 1) de) en"
  unfolding continues_def
proof (intro allI impI)
  fix i assume i: "i < length en" "\<not> isFirst (en ! i)"
  let ?L = "map low de @ map low en"
  have "length (take (k + 1) (map low de)) = k + 1" unfolding assms(2) by simp
  then have k: "k < length de" by simp
  have "take (k + 1) (map low de) ! k = x" unfolding assms(2) by (simp add: nth_append)
  then have xk: "?L ! k = x" using k by (simp add: nth_append)
  from assms(1) i obtain j where j: "length de + i = Suc j" "?L ! j = 255" by (auto simp: continues_def)
  have "j \<noteq> k" using xk assms(3) j(2) by auto
  then have "k + 1 \<le> j" using k j(1) by linarith
  then obtain m where m: "j = k + 1 + m" using le_Suc_ex by blast
  have L: "map low (drop (k + 1) de) @ map low en = drop (k + 1) ?L" using k by (simp add: drop_map)
  have "drop (k + 1) ?L ! m = ?L ! (k + 1 + m)" by (rule nth_drop) (use k in simp)
  then have "drop (k + 1) ?L ! m = 255" using j(2) m by simp
  moreover have "length (drop (k + 1) de) + i = Suc m" using j(1) m k by simp
  ultimately show "\<exists>j. length (drop (k + 1) de) + i = Suc j \<and> (map low (drop (k + 1) de) @ map low en) ! j = 255"
    unfolding L by blast
qed

text \<open>Each step keeps the invariant.\<close>

lemma flush_all:
  assumes "os_wf os" and "os_lacing_returned os = 0" and "\<forall>p e g. a \<noteq> Submit p e g" and "a \<noteq> Deliver"
  shows "\<exists>r og os'. takePage a os = Some (r, og, os') \<and>
    (og = None \<and> os' = os \<or> (\<exists>n p. 0 < n \<and> n \<le> length (os_segs os) \<and> n \<le> 255 \<and> og = Some p \<and> page_of os n p \<and> page_taken os n os'))"
proof -
  have "ogg_stream_check os = 0" using assms(1) by (simp add: os_wf_def ogg_check_ok)
  with assms(3,4) have "\<exists>force nfill. takePage a os = ogg_stream_flush_i os force nfill"
    by (cases a) (auto simp: ogg_stream_flush_def ogg_stream_flush_fill_def ogg_stream_pageout_def ogg_stream_pageout_fill_def)
  then obtain force nfill where "takePage a os = ogg_stream_flush_i os force nfill" by blast
  with flush_ok [OF assms(1,2), of force nfill] show ?thesis by auto
qed

lemma link_page:
  assumes inv: "link_inv s n sent (en, de, out)" and al: "grants al" and s: "- (2 ^ 31) \<le> s" "s < 2 ^ 31" and n: "n < 2 ^ 31"
    and pg: "page_of en m og" "page_taken en m en'" "0 < m" "m \<le> length (os_segs en)" "m \<le> 255"
  shows "\<exists>de'. ogg_stream_pagein al de og = Some (0, de') \<and> link_inv s (Suc n) sent (en', de', out)"
proof -
  from inv obtain rest where i: "os_wf en" "os_lacing_returned en = 0" "os_receiving de" "os_serialno en = s" "os_serialno de = s"
    "os_pageno en = os_pageno de" "0 \<le> os_pageno de" "os_pageno de \<le> int n" "continues (os_segs de) (os_segs en)"
    "sent = out @ rest" "concat (map (\<lambda>p. lacing (length p)) rest) = map low (os_segs de) @ map low (os_segs en)"
    "concat rest = os_bytes de @ os_bytes en"
    by (auto simp: link_inv_def)
  have np: "os_nextPage en = os_pageno de" using i(6,7) by (simp add: os_nextPage_def)
  let ?S = "map (\<lambda>v. ucast (v AND 0xff)) (take m (os_segs en)) :: byte list"
  let ?b = "take (sum_list (map low (take m (os_segs en)))) (os_bytes en)"
  obtain flags g crc where og: "length crc = 4" "(flags AND 1 \<noteq> 0) = (\<not> isFirst (hd (os_segs en)))"
    "og = \<lparr>og_header = headerBytes flags g (of_int (os_serialno de)) (of_int (os_pageno de)) crc ?S, og_body = ?b\<rparr>"
    using pg(1) unfolding page_of_def np i(4) i(5) by blast
  have S: "length ?S \<le> 255" "map unat ?S = map low (take m (os_segs en))"
    using pg(5) by (simp_all add: comp_def low_as_byte)
  have "sum_list (map low (take m (os_segs en))) \<le> length (os_bytes en)"
    using i(1) sum_take_le [of low m "os_segs en"] by (simp add: os_wf_def)
  then have b: "sum_list (map unat ?S) = length ?b" unfolding S(2) by simp
  have cont: "os_segs de \<noteq> []" if "flags AND 1 \<noteq> 0"
  proof -
    have ne: "os_segs en \<noteq> []" using pg(3,4) by auto
    then have "\<not> isFirst (os_segs en ! 0)" using that og(2) by (simp add: hd_conv_nth)
    then show ?thesis using i(9) ne by (auto simp: continues_def)
  qed
  have pn: "os_pageno de < 2 ^ 31" using i(8) n by simp
  obtain de' where de: "ogg_stream_pagein al de og = Some (0, de')" "os_receiving de'"
    "map low (os_segs de') = map low (os_segs de) @ map low (take m (os_segs en))" "os_bytes de' = os_bytes de @ ?b"
    "os_serialno de' = s" "os_pageno de' = os_pageno de + 1"
    using pagein_ok [OF i(3) al og(1) S(1) b _ _ i(7) pn cont, where g = g] s i(5) unfolding og(3) S(2) by auto
  have t: "os_wf en'" "os_lacing_returned en' = 0" "os_serialno en' = os_serialno en" "os_pageno en' = os_nextPage en + 1"
    "os_segs en' = drop m (os_segs en)" "os_bytes en' = drop (sum_list (map low (take m (os_segs en)))) (os_bytes en)"
    using pg(2) by (simp_all add: page_taken_def)
  have "concat (map (\<lambda>p. lacing (length p)) rest) = map low (os_segs de') @ map low (os_segs en')"
    by (simp only: i(11) de(3) t(5) append_assoc map_append [symmetric] append_take_drop_id)
  moreover have "concat rest = os_bytes de' @ os_bytes en'"
    by (simp only: i(12) de(4) t(6) append_assoc append_take_drop_id)
  moreover have "continues (os_segs de') (os_segs en')" unfolding t(5) by (rule continues_transfer [OF i(9) de(3) pg(4)])
  ultimately have "link_inv s (Suc n) sent (en', de', out)"
    using i(4-8,10) t(1-4) de(2,5,6) np unfolding link_inv_def prod.case by auto
  with de(1) show ?thesis by blast
qed

lemma link_submit:
  assumes inv: "link_inv s n sent (en, de, out)" and al: "grants al"
  shows "\<exists>l. link_step al (en, de, out) (Submit p e g) = Some l \<and> link_inv s (Suc n) (sent @ [p]) l"
proof -
  from inv have i: "os_wf en" by (simp add: link_inv_def)
  obtain en' where en: "ogg_stream_iovecin al en [p] e g = Some (0, en')" "os_wf en'" "os_same en en'"
    "os_segs en' = os_segs en @ packetLacing (length p)" "os_bytes en' = os_bytes en @ p"
    using iovecin_ok [OF i al, of "[p]" e g] by auto
  have "link_step al (en, de, out) (Submit p e g) = Some (en', de, out)"
    using en(1) by (cases e) (simp_all add: ogg_stream_packetin_def)
  moreover have "link_inv s (Suc n) (sent @ [p]) (en', de, out)"
  proof -
    from inv obtain rest where r: "sent = out @ rest" "concat (map (\<lambda>p. lacing (length p)) rest) = map low (os_segs de) @ map low (os_segs en)"
      "concat rest = os_bytes de @ os_bytes en" by (auto simp: link_inv_def)
    then have "sent @ [p] = out @ (rest @ [p])" "concat (map (\<lambda>p. lacing (length p)) (rest @ [p])) = map low (os_segs de) @ map low (os_segs en')"
      "concat (rest @ [p]) = os_bytes de @ os_bytes en'" using en(4,5) by (simp_all add: packetLacing_low)
    with inv en show ?thesis using continues_submit [of "os_segs de" "os_segs en" "length p"]
      unfolding link_inv_def prod.case os_same_def by auto
  qed
  ultimately show ?thesis by blast
qed

lemma link_deliver:
  assumes inv: "link_inv s n sent (en, de, out)"
  shows "\<exists>l. link_step al (en, de, out) Deliver = Some l \<and> link_inv s (Suc n) sent l"
proof -
  from inv obtain rest where i: "os_receiving de" "continues (os_segs de) (os_segs en)"
    "sent = out @ rest" "concat (map (\<lambda>p. lacing (length p)) rest) = map low (os_segs de) @ map low (os_segs en)"
    "concat rest = os_bytes de @ os_bytes en"
    by (auto simp: link_inv_def)
  obtain r op de' where o: "ogg_stream_packetout de = Some (r, op, de')"
    "complete (map low (os_segs de)) = 0 \<and> r = 0 \<and> op = None \<and> de' = de \<or> (\<exists>p. r = 1 \<and> op = Some p \<and> packet_taken de p de')"
    using packetout_ok [OF i(1)] by blast
  show ?thesis
  proof (cases op)
    case None
    then have "link_step al (en, de, out) Deliver = Some (en, de, out)" using o by auto
    moreover have "link_inv s (Suc n) sent (en, de, out)" using inv by (auto simp: link_inv_def)
    ultimately show ?thesis by blast
  next
    case (Some p)
    then obtain k x where t: "take (k + 1) (map low (os_segs de)) = replicate k 255 @ [x]" "x \<noteq> 255"
      "op_packet p = take (255 * k + x) (os_bytes de)" "os_receiving de'"
      "os_segs de' = drop (k + 1) (os_segs de)" "os_bytes de' = drop (255 * k + x) (os_bytes de)"
      "os_serialno de' = os_serialno de" "os_pageno de' = os_pageno de"
      using o(2) by (auto simp: packet_taken_def)
    obtain T where T: "map low (drop (k + 1) (os_segs de)) = T" "map low (os_segs de) = replicate k 255 @ x # T"
      using append_take_drop_id [of "k + 1" "map low (os_segs de)"] unfolding t(1) drop_map by simp
    obtain q rest' where rest: "rest = q # rest'" using i(4) unfolding T(2) by (cases rest) auto
    have F: "replicate (length q div 255) 255 @ (length q mod 255) # concat (map (\<lambda>p. lacing (length p)) rest') =
        replicate k 255 @ x # T @ map low (os_segs en)"
      using i(4) unfolding rest T(2) by (simp add: lacing_def)
    have "length q mod 255 < 255" by (rule mod_less_divisor) simp
    then have "length q mod 255 \<noteq> 255" by linarith
    note lu = lacing_unique [OF F this t(2)]
    then have u: "length q div 255 = k" "length q mod 255 = x" "concat (map (\<lambda>p. lacing (length p)) rest') = T @ map low (os_segs en)"
      by blast+
    have q: "255 * k + x = length q" unfolding u(1,2) [symmetric] by (rule mult_div_mod_eq)
    have "sum_list (map low (os_segs de)) = length (os_bytes de)" using i(1) by (simp add: os_receiving_def os_wf_def)
    then have "length q \<le> length (os_bytes de)" unfolding T(2) q [symmetric] by (simp add: sum_list_replicate)
    then have b: "take (length q) (os_bytes de) = q" "concat rest' = drop (length q) (os_bytes de) @ os_bytes en"
      using i(5) unfolding rest by (auto simp: append_eq_append_conv_if split: if_splits)
    have "link_step al (en, de, out) Deliver = Some (en, de', out @ [q])"
      using o(1) Some t(3) b(1) by (simp add: q)
    moreover have "link_inv s (Suc n) sent (en, de', out @ [q])"
      
    proof -
      have c: "continues (os_segs de') (os_segs en)" unfolding t(5) by (rule continues_deliver [OF i(2) t(1,2)])
      have "concat (map (\<lambda>p. lacing (length p)) rest') = map low (os_segs de') @ map low (os_segs en)"
        unfolding t(5) T(1) by (rule u(3))
      moreover have "concat rest' = os_bytes de' @ os_bytes en" unfolding t(6) q by (rule b(2))
      moreover have "sent = (out @ [q]) @ rest'" using i(3) rest by simp
      ultimately show ?thesis using inv t(4,7,8) c unfolding link_inv_def prod.case by auto
    qed
    ultimately show ?thesis by blast
  qed
qed

lemma link_step_ok:
  assumes inv: "link_inv s n sent l" and al: "grants al" and s: "- (2 ^ 31) \<le> s" "s < 2 ^ 31" and n: "n < 2 ^ 31"
  shows "\<exists>l'. link_step al l a = Some l' \<and> link_inv s (Suc n) (sent @ submitted [a]) l'"
proof -
  obtain en de out where l: "l = (en, de, out)" by (cases l)
  have wf: "os_wf en" "os_lacing_returned en = 0" using inv by (auto simp: link_inv_def l)
  have page: ?thesis if a: "\<forall>p e g. a \<noteq> Submit p e g" "a \<noteq> Deliver"
  proof -
    obtain r og en' where t: "takePage a en = Some (r, og, en')"
      "og = None \<and> en' = en \<or> (\<exists>n p. 0 < n \<and> n \<le> length (os_segs en) \<and> n \<le> 255 \<and> og = Some p \<and> page_of en n p \<and> page_taken en n en')"
      using flush_all [OF wf a] by blast
    have sub: "submitted [a] = []" using a by (cases a) auto
    have step: "link_step al l a = Option.bind (takePage a en) (\<lambda>(_, og, en).
       case og of None \<Rightarrow> Some (en, de, out) | Some og \<Rightarrow> map_option (\<lambda>(_, de). (en, de, out)) (ogg_stream_pagein al de og))"
      using a unfolding l by (cases a) auto
    show ?thesis
    proof (cases og)
      case None
      with t inv step l sub show ?thesis by (auto simp: link_inv_def)
    next
      case (Some p)
      with t(2) obtain m where "0 < m" "m \<le> length (os_segs en)" "m \<le> 255" "page_of en m p" "page_taken en m en'" by auto
      from link_page [OF inv [unfolded l] al s n this(4,5,1,2,3)] step t(1) Some sub show ?thesis by auto
    qed
  qed
  show ?thesis
  proof (cases a)
    case (Submit p e g)
    then show ?thesis using link_submit [OF inv [unfolded l] al, of p e g] by (simp add: l)
  next
    case Deliver
    then show ?thesis using link_deliver [OF inv [unfolded l], of al] by (simp add: l)
  qed (use page in simp_all)
qed

lemma submitted_Cons: "submitted (a # as) = submitted [a] @ submitted as"
  by (cases a) auto

lemma link_run_ok:
  assumes al: "grants al" and s: "- (2 ^ 31) \<le> s" "s < 2 ^ 31"
  shows "link_inv s n sent l \<Longrightarrow> n + length as \<le> 2 ^ 31 \<Longrightarrow>
    \<exists>l'. link_run al l as = Some l' \<and> link_inv s (n + length as) (sent @ submitted as) l'"
proof (induction "as" arbitrary: n sent l)
  case (Cons a "as")
  have "n < 2 ^ 31" using Cons.prems(2) by simp
  from link_step_ok [OF Cons.prems(1) al s this] obtain l1 where
    l1: "link_step al l a = Some l1" "link_inv s (Suc n) (sent @ submitted [a]) l1" by blast
  from Cons.IH [OF l1(2)] Cons.prems(2) obtain l' where
    "link_run al l1 as = Some l'" "link_inv s (Suc n + length as) ((sent @ submitted [a]) @ submitted as) l'" by auto
  with l1(1) show ?case by (simp add: submitted_Cons [of a "as"] del: submitted.simps)
qed simp

lemma init_link:
  assumes "grants al"
  shows "\<exists>os. ogg_stream_init al s = (0, os) \<and> link_inv s 0 [] (os, os, [])"
proof -
  let ?os = "os_zero\<lparr>os_body_storage := 16384, os_lacing_storage := 1024, os_body_data := map (oa_bytes al) [0..<16384],
      os_lacing_vals := map (oa_ints al) [0..<1024], os_granule_vals := map (oa_granules al) [0..<1024], os_serialno := s\<rparr>"
  have "ogg_stream_init al s = (0, ?os)"
    using assms by (simp add: ogg_stream_init_def Let_def growArray_def grants_def os_zero_def del: upt_conv_Nil)
  moreover have "link_inv s 0 [] (?os, ?os, [])"
    by (simp add: link_inv_def os_wf_def os_receiving_def os_segs_def os_bytes_def window_def os_zero_def complete_def continues_def)
  ultimately show ?thesis by blast
qed

lemma flush_nothing:
  assumes "os_wf os" and "os_lacing_returned os = 0" and "ogg_stream_flush os = Some (0, None, os)"
  shows "os_segs os = []"
proof (rule ccontr)
  assume "os_segs os \<noteq> []"
  then have m: "min (os_lacing_fill os) 255 \<noteq> 0" by (auto simp: os_segs_def window_def)
  have len: "os_lacing_fill os \<le> length (os_lacing_vals os)" "length (os_granule_vals os) = length (os_lacing_vals os)"
    and chk: "ogg_stream_check os = 0" using assms(1) by (auto simp: os_wf_def ogg_check_ok)
  obtain n g where "pageSegments os True 4096 (min (os_lacing_fill os) 255) = Some (n, g, True)"
    using pageSegments_forced [OF le_trans [OF min.cobounded1 len(1)] len(2), of 255 4096] m by auto
  then show False using assms(3) m chk
    by (auto simp: ogg_stream_flush_def ogg_stream_flush_i_def Let_def Option.bind_eq_Some_conv)
qed

subsection \<open>Properties\<close>

text \<open>C6: Delivery through pages. An encoder and a decoder of the same serial number are fresh, the
  allocator grants their requests, and a schedule of at most two to the power of 31 steps submits
  packets, takes pages by any of the four operations and hands them to the decoder, and takes
  packets out. Then no step leaves the arrays it works on; the packets delivered are the first
  ones submitted, unchanged and in order; and once a flush finds no page to take and the decoder
  no packet to deliver, every packet submitted has been delivered.\<close>

theorem ogg_delivers_in_order:
  assumes "grants al" and "- (2 ^ 31) \<le> s" "s < 2 ^ 31" and "length acts \<le> 2 ^ 31"
  shows "\<exists>en de out. link_run al (snd (ogg_stream_init al s), snd (ogg_stream_init al s), []) acts = Some (en, de, out) \<and>
    (\<exists>rest. submitted acts = out @ rest \<and>
      (ogg_stream_flush en = Some (0, None, en) \<and> ogg_stream_packetout de = Some (0, None, de) \<longrightarrow> rest = []))"
proof -
  obtain os where os: "ogg_stream_init al s = (0, os)" "link_inv s 0 [] (os, os, [])" using init_link [OF assms(1)] by blast
  obtain en de out where l: "link_run al (os, os, []) acts = Some (en, de, out)" "link_inv s (length acts) (submitted acts) (en, de, out)"
    using link_run_ok [OF assms(1-3) os(2), of acts] assms(4) by auto
  from l(2) obtain rest where r: "submitted acts = out @ rest"
    "concat (map (\<lambda>p. lacing (length p)) rest) = map low (os_segs de) @ map low (os_segs en)"
    "os_wf en" "os_lacing_returned en = 0" "os_receiving de" by (auto simp: link_inv_def)
  have "rest = []" if f: "ogg_stream_flush en = Some (0, None, en)" and p: "ogg_stream_packetout de = Some (0, None, de)"
  proof -
    have "os_segs en = []" by (rule flush_nothing [OF r(3,4) f])
    then have segs: "map low (os_segs de) = concat (map (\<lambda>p. lacing (length p)) rest)" using r(2) by simp
    have none: "complete (map low (os_segs de)) = 0" using packetout_ok [OF r(5)] p by auto
    have "length q mod 255 \<noteq> 255" for q :: "byte list" using mod_less_divisor [of 255 "length q"] by linarith
    with none show ?thesis unfolding segs by (cases rest) (auto simp: lacing_def complete_append)
  qed
  with os(1) l(1) r(1) show ?thesis by auto
qed

theorem ogg_delivers_in_order_witness:
  "\<exists>en de out. link_run \<lparr>oa_ok = \<lambda>_. True, oa_bytes = \<lambda>_. 0, oa_ints = \<lambda>_. 0, oa_granules = \<lambda>_. 0\<rparr>
      (snd (ogg_stream_init \<lparr>oa_ok = \<lambda>_. True, oa_bytes = \<lambda>_. 0, oa_ints = \<lambda>_. 0, oa_granules = \<lambda>_. 0\<rparr> 7),
       snd (ogg_stream_init \<lparr>oa_ok = \<lambda>_. True, oa_bytes = \<lambda>_. 0, oa_ints = \<lambda>_. 0, oa_granules = \<lambda>_. 0\<rparr> 7), [])
      [Submit [1, 2, 3] False 5, Submit (replicate 600 4) True 9, Flush, Deliver, Pageout, Deliver] = Some (en, de, out) \<and>
    (\<exists>rest. submitted [Submit [1, 2, 3] False 5, Submit (replicate 600 4) True 9, Flush, Deliver, Pageout, Deliver] = out @ rest \<and>
      (ogg_stream_flush en = Some (0, None, en) \<and> ogg_stream_packetout de = Some (0, None, de) \<longrightarrow> rest = []))"
  by (rule ogg_delivers_in_order) (simp_all add: grants_def)

end
