(* ===== verification/OggSync.thy ===== *)
theory OggSync
  imports OggDelivery
begin

text \<open>
  Finding the pages in a stream of bytes (\<open>Libraries/speex/include/framing.c\<close>): the buffer the
  application fills, the search for the capture pattern, the checksum, and the resynchronization
  after damage. Sizes are naturals as in the stream layer. The page that is returned is a copy of
  the part of the buffer the source points into.
\<close>

record ogg_sync_state =
  oy_data :: "byte list"
  oy_storage :: int
  oy_fill :: nat
  oy_returned :: nat
  oy_unsynced :: bool
  oy_headerbytes :: nat
  oy_bodybytes :: nat

definition oy_zero :: ogg_sync_state where
  "oy_zero = \<lparr>oy_data = [], oy_storage = 0, oy_fill = 0, oy_returned = 0, oy_unsynced = False,
     oy_headerbytes = 0, oy_bodybytes = 0\<rparr>"

text \<open>The readiness flag is written first and wiped by the \<open>memset\<close> behind it.\<close>

definition ogg_sync_init :: "ogg_sync_state \<Rightarrow> int \<times> ogg_sync_state" where
  "ogg_sync_init oy = (let oy = oy\<lparr>oy_storage := -1\<rparr> in (0, oy_zero))"

definition ogg_sync_clear :: "ogg_sync_state \<Rightarrow> int \<times> ogg_sync_state" where
  "ogg_sync_clear oy = (0, oy_zero)"

definition ogg_sync_check :: "ogg_sync_state \<Rightarrow> int" where
  "ogg_sync_check oy = (if oy_storage oy < 0 then -1 else 0)"

text \<open>The result is the position in the buffer to write at, or none for the null pointer.\<close>

definition ogg_sync_buffer :: "ogg_allocator \<Rightarrow> ogg_sync_state \<Rightarrow> nat \<Rightarrow> (nat option \<times> ogg_sync_state) option" where
  "ogg_sync_buffer al oy n =
     (if ogg_sync_check oy \<noteq> 0 then Some (None, oy)
      else
        Option.bind
          (if oy_returned oy \<noteq> 0 then
             Option.bind (subNat (oy_fill oy) (oy_returned oy)) (\<lambda>fill.
             Option.bind (if fill > 0 then blit (oy_data oy) (oy_returned oy) (oy_data oy) 0 fill else Some (oy_data oy)) (\<lambda>data.
               Some (oy\<lparr>oy_fill := fill, oy_data := data, oy_returned := 0\<rparr>)))
           else Some oy) (\<lambda>oy.
        if int n > oy_storage oy - int (oy_fill oy) then
          (let newsize = n + oy_fill oy + 4096
           in case growArray (oa_ok al newsize) (oa_bytes al) (oy_data oy) newsize of
                None \<Rightarrow> Some (None, snd (ogg_sync_clear oy))
              | Some ret \<Rightarrow> Some (Some (oy_fill oy), oy\<lparr>oy_data := ret, oy_storage := int newsize\<rparr>))
        else Some (Some (oy_fill oy), oy)))"

definition ogg_sync_wrote :: "ogg_sync_state \<Rightarrow> nat \<Rightarrow> int \<times> ogg_sync_state" where
  "ogg_sync_wrote oy bytes =
     (if ogg_sync_check oy \<noteq> 0 then (-1, oy)
      else if int (oy_fill oy) + int bytes > oy_storage oy then (-1, oy)
      else (0, oy\<lparr>oy_fill := oy_fill oy + bytes\<rparr>))"

definition ogg_sync_reset :: "ogg_sync_state \<Rightarrow> int \<times> ogg_sync_state" where
  "ogg_sync_reset oy =
     (if ogg_sync_check oy \<noteq> 0 then (-1, oy)
      else (0, oy\<lparr>oy_fill := 0, oy_returned := 0, oy_unsynced := False, oy_headerbytes := 0, oy_bodybytes := 0\<rparr>))"

text \<open>\<open>memchr\<close> from position \<open>i\<close>.\<close>

fun findByte :: "byte list \<Rightarrow> byte \<Rightarrow> nat \<Rightarrow> nat \<Rightarrow> nat option option" where
  "findByte a c i 0 = Some None"
| "findByte a c i (Suc n) = Option.bind (rd a i) (\<lambda>b. if b = c then Some (Some i) else findByte a c (i + 1) n)"

fun sumBytes :: "byte list \<Rightarrow> nat \<Rightarrow> nat \<Rightarrow> nat option" where
  "sumBytes a i 0 = Some 0"
| "sumBytes a i (Suc n) = Option.bind (rd a i) (\<lambda>b. map_option (\<lambda>s. unat b + s) (sumBytes a (i + 1) n))"

definition syncFail :: "ogg_sync_state \<Rightarrow> nat \<Rightarrow> (int \<times> ogg_page option \<times> ogg_sync_state) option" where
  "syncFail oy bytes =
     Option.bind (subNat bytes 1) (\<lambda>n.
     Option.bind (findByte (oy_data oy) 0x4f (oy_returned oy + 1) n) (\<lambda>found.
     let next = (case found of None \<Rightarrow> oy_fill oy | Some i \<Rightarrow> i)
     in Some (- (int next - int (oy_returned oy)), None,
          oy\<lparr>oy_headerbytes := 0, oy_bodybytes := 0, oy_returned := next\<rparr>)))"

text \<open>
  The second half: the whole test page must be buffered and its checksum must be right. The
  source computes the checksum in place and puts the old bytes back on a mismatch; either way the
  buffer ends up as it was.
\<close>

definition checkPage :: "ogg_sync_state \<Rightarrow> nat \<Rightarrow> (int \<times> ogg_page option \<times> ogg_sync_state) option" where
  "checkPage oy bytes =
     (if oy_bodybytes oy + oy_headerbytes oy > bytes then Some (0, None, oy)
      else
        (let n = oy_headerbytes oy + oy_bodybytes oy
         in Option.bind (blit (oy_data oy) (oy_returned oy) (replicate n 0) 0 n) (\<lambda>page.
            let og = \<lparr>og_header = take (oy_headerbytes oy) page, og_body = drop (oy_headerbytes oy) page\<rparr>
            in Option.bind (ogg_page_checksum_set og) (\<lambda>log.
               if take 4 (drop 22 (og_header log)) \<noteq> take 4 (drop 22 (og_header og)) then syncFail oy bytes
               else Some (int n, Some og,
                 oy\<lparr>oy_unsynced := False, oy_returned := oy_returned oy + n, oy_headerbytes := 0, oy_bodybytes := 0\<rparr>)))))"

definition ogg_sync_pageseek :: "ogg_sync_state \<Rightarrow> (int \<times> ogg_page option \<times> ogg_sync_state) option" where
  "ogg_sync_pageseek oy =
     Option.bind (subNat (oy_fill oy) (oy_returned oy)) (\<lambda>bytes.
     if ogg_sync_check oy \<noteq> 0 then Some (0, None, oy)
     else if oy_headerbytes oy = 0 then
       (if bytes < 27 then Some (0, None, oy)
        else
          Option.bind (blit (oy_data oy) (oy_returned oy) (replicate 4 0) 0 4) (\<lambda>capture.
          if capture \<noteq> [0x4f, 0x67, 0x67, 0x53] then syncFail oy bytes
          else
            Option.bind (rd (oy_data oy) (oy_returned oy + 26)) (\<lambda>segs.
            let headerbytes = unat segs + 27
            in if bytes < headerbytes then Some (0, None, oy)
               else
                 Option.bind (sumBytes (oy_data oy) (oy_returned oy + 27) (unat segs)) (\<lambda>s.
                   checkPage (oy\<lparr>oy_bodybytes := oy_bodybytes oy + s, oy_headerbytes := headerbytes\<rparr>) bytes))))
     else checkPage oy bytes)"

lemma findByte_range: "findByte a c i n = Some (Some k) \<Longrightarrow> i \<le> k \<and> k < i + n"
  by (induction n arbitrary: i) (fastforce simp: Option.bind_eq_Some_conv split: if_splits)+

lemma syncFail_advances:
  assumes "syncFail oy bytes = Some (ret, og, oy')" and "bytes = oy_fill oy - oy_returned oy"
  shows "oy_fill oy' = oy_fill oy \<and> oy_returned oy < oy_returned oy' \<and> oy_returned oy' \<le> oy_fill oy \<and> oy_data oy' = oy_data oy \<and>
    oy_storage oy' = oy_storage oy \<and> oy_headerbytes oy' = 0 \<and> oy_bodybytes oy' = 0 \<and> og = None \<and>
    ret = - int (oy_returned oy' - oy_returned oy)"
  using assms
  by (auto simp: syncFail_def subNat_def Let_def Option.bind_eq_Some_conv split: if_splits option.splits dest!: findByte_range)

lemma pageseek_cases:
  assumes "ogg_sync_pageseek oy = Some (ret, og, oy')" and "ret \<noteq> 0"
  shows "syncFail oy (oy_fill oy - oy_returned oy) = Some (ret, og, oy') \<or>
    (\<exists>h b. checkPage (oy\<lparr>oy_bodybytes := b, oy_headerbytes := h\<rparr>) (oy_fill oy - oy_returned oy) = Some (ret, og, oy'))"
proof -
  have "oy = oy\<lparr>oy_bodybytes := oy_bodybytes oy, oy_headerbytes := oy_headerbytes oy\<rparr>" by simp
  then have c: "\<exists>h b. checkPage (oy\<lparr>oy_bodybytes := b, oy_headerbytes := h\<rparr>) n = Some r" if "checkPage oy n = Some r" for n r
    using that by metis
  show ?thesis
    using assms by (auto simp: ogg_sync_pageseek_def subNat_def Let_def Option.bind_eq_Some_conv intro: c split: if_splits)
qed

lemma pageseek_advances:
  assumes "ogg_sync_pageseek oy = Some (ret, og, oy')" and "ret < 0"
  shows "oy_fill oy' = oy_fill oy \<and> oy_returned oy < oy_returned oy' \<and> oy_returned oy' \<le> oy_fill oy"
proof -
  have s: ?thesis if "syncFail (oy\<lparr>oy_bodybytes := b, oy_headerbytes := h\<rparr>) (oy_fill oy - oy_returned oy) = Some (ret, og, oy')" for h b
    using syncFail_advances [OF that] by simp
  have "ret \<noteq> 0" using assms(2) by simp
  from pageseek_cases [OF assms(1) this] show ?thesis
  proof (elim disjE exE)
    assume "syncFail oy (oy_fill oy - oy_returned oy) = Some (ret, og, oy')"
    then show ?thesis using syncFail_advances by blast
  next
    fix h b assume "checkPage (oy\<lparr>oy_bodybytes := b, oy_headerbytes := h\<rparr>) (oy_fill oy - oy_returned oy) = Some (ret, og, oy')"
    then have "syncFail (oy\<lparr>oy_bodybytes := b, oy_headerbytes := h\<rparr>) (oy_fill oy - oy_returned oy) = Some (ret, og, oy')"
      using assms(2) by (auto simp: checkPage_def Let_def Option.bind_eq_Some_conv split: if_splits)
    then show ?thesis by (rule s)
  qed
qed

function ogg_sync_pageout :: "ogg_sync_state \<Rightarrow> (int \<times> ogg_page option \<times> ogg_sync_state) option" where
  "ogg_sync_pageout oy =
     (if ogg_sync_check oy \<noteq> 0 then Some (0, None, oy)
      else
        (case ogg_sync_pageseek oy of
           None \<Rightarrow> None
         | Some (ret, og, oy') \<Rightarrow>
             if ret > 0 then Some (1, og, oy')
             else if ret = 0 then Some (0, None, oy')
             else if \<not> oy_unsynced oy' then Some (-1, None, oy'\<lparr>oy_unsynced := True\<rparr>)
             else ogg_sync_pageout oy'))"
  by pat_completeness auto
termination
proof (relation "measure (\<lambda>oy. oy_fill oy - oy_returned oy)")
  fix oy x ret y og oy'
  assume a: "ogg_sync_pageseek oy = Some x" "(ret, y) = x" "(og, oy') = y" "\<not> (0 :: int) < ret" "ret \<noteq> 0"
  then have "ogg_sync_pageseek oy = Some (ret, og, oy')" "ret < 0" by auto
  from pageseek_advances [OF this] show "(oy', oy) \<in> measure (\<lambda>oy. oy_fill oy - oy_returned oy)" by auto
qed simp

declare ogg_sync_pageout.simps [simp del]

subsection \<open>Safety and termination\<close>

text \<open>
  The buffer between calls: what is counted lies in it, and the header of a page under way, if one
  was seen, lies before the end.
\<close>

definition oy_wf :: "ogg_sync_state \<Rightarrow> bool" where
  "oy_wf oy \<longleftrightarrow> 0 \<le> oy_storage oy \<and> int (length (oy_data oy)) = oy_storage oy \<and> oy_returned oy \<le> oy_fill oy \<and>
     oy_fill oy \<le> length (oy_data oy) \<and> (oy_headerbytes oy = 0 \<and> oy_bodybytes oy = 0 \<or> 27 \<le> oy_headerbytes oy)"

lemma findByte_ok: "i + n \<le> length a \<Longrightarrow> \<exists>r. findByte a c i n = Some r"
  by (induction n arbitrary: i) auto

lemma sumBytes_ok: "i + n \<le> length a \<Longrightarrow> sumBytes a i n = Some (sum_list (map unat (take n (drop i a))))"
proof (induction n arbitrary: i)
  case (Suc n)
  then have "drop i a = a ! i # drop (Suc i) a" by (simp add: Cons_nth_drop_Suc)
  with Suc show ?case by simp
qed simp

lemma checksum_set_total: "26 \<le> length (og_header og) \<Longrightarrow> \<exists>log. ogg_page_checksum_set og = Some log"
  by (simp add: ogg_page_checksum_set_def Let_def)

lemma syncFail_ok:
  assumes "oy_wf oy" and "oy_returned oy < oy_fill oy"
  shows "\<exists>ret oy'. syncFail oy (oy_fill oy - oy_returned oy) = Some (ret, None, oy') \<and> oy_wf oy'"
proof -
  let ?n = "oy_fill oy - oy_returned oy - 1"
  have "oy_returned oy + 1 + ?n \<le> length (oy_data oy)" using assms by (auto simp: oy_wf_def)
  then obtain r where r: "findByte (oy_data oy) 0x4f (oy_returned oy + 1) ?n = Some r" using findByte_ok by blast
  have "subNat (oy_fill oy - oy_returned oy) 1 = Some ?n" using assms(2) by (simp add: subNat_def)
  with r have "\<exists>ret oy'. syncFail oy (oy_fill oy - oy_returned oy) = Some (ret, None, oy')"
    by (simp add: syncFail_def Let_def)
  then obtain ret oy' where s: "syncFail oy (oy_fill oy - oy_returned oy) = Some (ret, None, oy')" by blast
  from syncFail_advances [OF s refl] assms(1) s show ?thesis by (auto simp: oy_wf_def)
qed

lemma checkPage_ok:
  assumes wf: "oy_wf oy" and h: "27 \<le> oy_headerbytes oy"
  shows "\<exists>ret og oy'. checkPage oy (oy_fill oy - oy_returned oy) = Some (ret, og, oy') \<and> oy_wf oy'"
proof (cases "oy_bodybytes oy + oy_headerbytes oy > oy_fill oy - oy_returned oy")
  case True
  with wf show ?thesis by (simp add: checkPage_def)
next
  case False
  let ?n = "oy_headerbytes oy + oy_bodybytes oy"
  have n: "oy_returned oy + ?n \<le> length (oy_data oy)" "oy_returned oy + ?n \<le> oy_fill oy" using False wf h by (auto simp: oy_wf_def)
  obtain page where b: "blit (oy_data oy) (oy_returned oy) (replicate ?n 0) 0 ?n = Some page" "length page = ?n"
    using n by (simp add: blit_Some)
  let ?og = "\<lparr>og_header = take (oy_headerbytes oy) page, og_body = drop (oy_headerbytes oy) page\<rparr>"
  have "26 \<le> length (og_header ?og)" using h b(2) by simp
  then obtain log where log: "ogg_page_checksum_set ?og = Some log" using checksum_set_total by blast
  have "\<exists>ret oy'. syncFail oy (oy_fill oy - oy_returned oy) = Some (ret, None, oy') \<and> oy_wf oy'"
    using syncFail_ok [OF wf] n(2) h by simp
  moreover have "oy_wf (oy\<lparr>oy_unsynced := False, oy_returned := oy_returned oy + ?n, oy_headerbytes := 0, oy_bodybytes := 0\<rparr>)"
    using wf n by (simp add: oy_wf_def)
  ultimately show ?thesis using False by (auto simp: checkPage_def Let_def b(1) log)
qed

lemma pageseek_ok:
  assumes wf: "oy_wf oy"
  shows "\<exists>ret og oy'. ogg_sync_pageseek oy = Some (ret, og, oy') \<and> oy_wf oy'"
proof -
  let ?bytes = "oy_fill oy - oy_returned oy"
  have s: "subNat (oy_fill oy) (oy_returned oy) = Some ?bytes" and c: "ogg_sync_check oy = 0"
    using wf by (auto simp: subNat_def oy_wf_def ogg_sync_check_def)
  have b: "oy_returned oy + ?bytes \<le> length (oy_data oy)" using wf by (simp add: oy_wf_def)
  show ?thesis
  proof (cases "oy_headerbytes oy = 0 \<and> 27 \<le> ?bytes")
    case False
    then show ?thesis using checkPage_ok [OF wf] wf by (auto simp: ogg_sync_pageseek_def s c oy_wf_def)
  next
    case True
    then have r: "oy_returned oy + 27 \<le> length (oy_data oy)" using b by simp
    let ?segs = "oy_data oy ! (oy_returned oy + 26)"
    let ?oy = "\<lambda>x. oy\<lparr>oy_bodybytes := oy_bodybytes oy + x, oy_headerbytes := unat ?segs + 27\<rparr>"
    have fail: "\<exists>ret og oy'. syncFail oy ?bytes = Some (ret, og, oy') \<and> oy_wf oy'" using syncFail_ok [OF wf] True by fastforce
    have "\<exists>ret og oy'. checkPage (?oy x) ?bytes = Some (ret, og, oy') \<and> oy_wf oy'" for x
      using checkPage_ok [of "?oy x"] wf by (simp add: oy_wf_def)
    moreover have "\<exists>x. sumBytes (oy_data oy) (oy_returned oy + 27) (unat ?segs) = Some x" if "\<not> ?bytes < unat ?segs + 27"
      using sumBytes_ok [of "oy_returned oy + 27" "unat ?segs" "oy_data oy"] that b by auto
    ultimately show ?thesis
      using True r fail wf by (cases "?bytes < unat ?segs + 27") (auto simp: ogg_sync_pageseek_def s c blit_Some Let_def)
  qed
qed

text \<open>C33: The search for pages is safe and ends on any data: from any state of the buffer that holds
  together, however damaged the bytes in it, asking for a page returns without reading or writing
  outside the buffer, and the state still holds together.\<close>

theorem ogg_sync_pageout_safe:
  assumes "oy_wf oy"
  shows "\<exists>ret og oy'. ogg_sync_pageout oy = Some (ret, og, oy') \<and> oy_wf oy' \<and> ret \<in> {-1, 0, 1}"
  using assms
proof (induction "oy_fill oy - oy_returned oy" arbitrary: oy rule: less_induct)
  case less
  obtain ret og oy' where p: "ogg_sync_pageseek oy = Some (ret, og, oy')" "oy_wf oy'" using pageseek_ok [OF less.prems] by blast
  have c: "ogg_sync_check oy = 0" using less.prems by (simp add: oy_wf_def ogg_sync_check_def)
  show ?case
  proof (cases "ret < 0 \<and> oy_unsynced oy'")
    case True
    then have "oy_fill oy' - oy_returned oy' < oy_fill oy - oy_returned oy" using pageseek_advances [OF p(1)] by auto
    from less.hyps [OF this p(2)] True show ?thesis by (subst ogg_sync_pageout.simps) (simp add: c p(1))
  next
    case False
    then show ?thesis using p by (subst ogg_sync_pageout.simps) (auto simp: c oy_wf_def)
  qed
qed

theorem ogg_sync_pageout_safe_witness:
  "\<exists>ret og oy'. ogg_sync_pageout \<lparr>oy_data = replicate 40 0x4f, oy_storage = 40, oy_fill = 40, oy_returned = 3,
      oy_unsynced = False, oy_headerbytes = 0, oy_bodybytes = 0\<rparr> = Some (ret, og, oy') \<and> oy_wf oy' \<and> ret \<in> {-1, 0, 1}"
  by (rule ogg_sync_pageout_safe) (simp add: oy_wf_def)

end
