(* ===== verification/OggCapture.thy ===== *)
theory OggCapture
  imports OggSync "HOL-Library.Sublist"
begin

text \<open>
  The search for pages on undamaged data: however the bytes of a sequence of pages are cut into
  chunks, and whenever pages are asked for, exactly these pages come out, in order.
\<close>

definition wire :: "ogg_page \<Rightarrow> byte list" where
  "wire og = og_header og @ og_body og"

text \<open>A page as the encoder makes it: its segment table adds up and its checksum is right.\<close>

definition valid_page :: "ogg_page \<Rightarrow> bool" where
  "valid_page og \<longleftrightarrow> (\<exists>flags g s p segs. length segs \<le> 255 \<and> sum_list (map unat segs) = length (og_body og) \<and>
     og_header og = headerBytes flags g s p (crcBytes (pageCrc (headerBytes flags g s p [0, 0, 0, 0] segs) (og_body og))) segs)"

lemma length_headerBytes: "length crc = 4 \<Longrightarrow> length (headerBytes flags g s p crc segs) = 27 + length segs"
  by (simp add: headerBytes_def leBytes_def)

lemma valid_page_facts:
  assumes "valid_page og"
  obtains segs where "length segs \<le> 255" "sum_list (map unat segs) = length (og_body og)" "length (og_header og) = 27 + length segs"
    "take 4 (og_header og) = [0x4f, 0x67, 0x67, 0x53]" "og_header og ! 26 = of_nat (length segs)" "drop 27 (og_header og) = segs"
    "ogg_page_checksum_set og = Some og"
proof -
  obtain flags g s p segs where v: "length segs \<le> 255" "sum_list (map unat segs) = length (og_body og)"
    "og_header og = headerBytes flags g s p (crcBytes (pageCrc (headerBytes flags g s p [0, 0, 0, 0] segs) (og_body og))) segs"
    using assms by (auto simp: valid_page_def)
  define crc where "crc = crcBytes (pageCrc (headerBytes flags g s p [0, 0, 0, 0] segs) (og_body og))"
  have c: "length crc = 4" by (simp add: crc_def crcBytes_def)
  obtain c0 c1 c2 c3 where c4: "crc = [c0, c1, c2, c3]" using c by (auto simp: eval_nat_numeral length_Suc_conv)
  have h: "og_header og = headerBytes flags g s p crc segs" using v(3) by (simp add: crc_def)
  have e: "og_header og = [0x4f, 0x67, 0x67, 0x53, 0, flags] @ leBytes 8 g @ leBytes 4 s @ leBytes 4 p @ [c0, c1, c2, c3] @
      [of_nat (length segs)] @ segs" unfolding h headerBytes_def c4 ..
  have "og = \<lparr>og_header = headerBytes flags g s p crc segs, og_body = og_body og\<rparr>" using h by simp
  then have "ogg_page_checksum_set og = Some og"
    using checksum_set_ok [OF c, of flags g s p segs "og_body og"] unfolding crc_def [symmetric] by simp
  moreover have "take 4 (og_header og) = [0x4f, 0x67, 0x67, 0x53]" "og_header og ! 26 = of_nat (length segs)"
    "drop 27 (og_header og) = segs"
    unfolding e by (simp_all add: leBytes_4 leBytes_8)
  ultimately show ?thesis using that v(1,2) length_headerBytes [OF c, of flags g s p segs] h by metis
qed

lemma page_of_valid:
  assumes "page_of os n og" and "os_wf os" and "n \<le> 255"
  shows "valid_page og"
proof -
  from assms(1) obtain flags g where p: "og = \<lparr>og_header = headerBytes flags g (of_int (os_serialno os)) (of_int (os_nextPage os))
        (crcBytes (pageCrc (headerBytes flags g (of_int (os_serialno os)) (of_int (os_nextPage os)) [0, 0, 0, 0]
          (map (\<lambda>v. ucast (v AND 0xff)) (take n (os_segs os)))) (og_body og)))
        (map (\<lambda>v. ucast (v AND 0xff)) (take n (os_segs os))),
      og_body = take (sum_list (map low (take n (os_segs os)))) (os_bytes os)\<rparr>"
    unfolding page_of_def by blast
  have "sum_list (map low (take n (os_segs os))) \<le> length (os_bytes os)"
    using assms(2) sum_take_le [of low n "os_segs os"] by (simp add: os_wf_def)
  then have "sum_list (map unat (map (\<lambda>v. ucast (v AND 0xff) :: byte) (take n (os_segs os)))) = length (og_body og)"
    by (subst p) (simp add: comp_def low_as_byte)
  moreover have "length (map (\<lambda>v. ucast (v AND 0xff) :: byte) (take n (os_segs os))) \<le> 255" using assms(3) by simp
  ultimately show ?thesis unfolding valid_page_def by (metis (no_types, lifting) ogg_page.select_convs(1) p)
qed

subsection \<open>The buffer through its window\<close>

definition oy_bytes :: "ogg_sync_state \<Rightarrow> byte list" where
  "oy_bytes oy = window (oy_data oy) (oy_returned oy) (oy_fill oy)"

text \<open>What is known of the page under way.\<close>

definition under_way :: "ogg_sync_state \<Rightarrow> ogg_page list \<Rightarrow> bool" where
  "under_way oy pages \<longleftrightarrow> oy_headerbytes oy = 0 \<and> oy_bodybytes oy = 0 \<or>
     (\<exists>p ps. pages = p # ps \<and> oy_headerbytes oy = length (og_header p) \<and> oy_bodybytes oy = length (og_body p))"

definition sync_inv :: "ogg_sync_state \<Rightarrow> byte list \<Rightarrow> ogg_page list \<Rightarrow> bool" where
  "sync_inv oy future pages \<longleftrightarrow> oy_wf oy \<and> (\<forall>p \<in> set pages. valid_page p) \<and>
     oy_bytes oy @ future = concat (map wire pages) \<and> under_way oy pages"

lemma oy_bytes_facts:
  assumes "oy_wf oy"
  shows "length (oy_bytes oy) = oy_fill oy - oy_returned oy" "n \<le> length (oy_bytes oy) \<Longrightarrow>
      blit (oy_data oy) (oy_returned oy) (replicate n x) 0 n = Some (take n (oy_bytes oy))"
    "i < length (oy_bytes oy) \<Longrightarrow> rd (oy_data oy) (oy_returned oy + i) = Some (oy_bytes oy ! i)"
    "i + n \<le> length (oy_bytes oy) \<Longrightarrow> sumBytes (oy_data oy) (oy_returned oy + i) n = Some (sum_list (map unat (take n (drop i (oy_bytes oy)))))"
proof -
  have w: "oy_returned oy \<le> oy_fill oy" "oy_fill oy \<le> length (oy_data oy)" using assms by (simp_all add: oy_wf_def)
  show l: "length (oy_bytes oy) = oy_fill oy - oy_returned oy" using w by (simp add: oy_bytes_def length_window)
  show "blit (oy_data oy) (oy_returned oy) (replicate n x) 0 n = Some (take n (oy_bytes oy))" if "n \<le> length (oy_bytes oy)"
    unfolding oy_bytes_def by (rule window_front) (use that l w in simp_all)
  show "rd (oy_data oy) (oy_returned oy + i) = Some (oy_bytes oy ! i)" if "i < length (oy_bytes oy)"
    using that w unfolding l by (simp add: oy_bytes_def nth_window)
  show "sumBytes (oy_data oy) (oy_returned oy + i) n = Some (sum_list (map unat (take n (drop i (oy_bytes oy)))))"
    if "i + n \<le> length (oy_bytes oy)"
  proof -
    have "oy_returned oy + i + n \<le> oy_fill oy" using that l w(1) by linarith
    moreover have "take n (drop i (oy_bytes oy)) = take n (drop (oy_returned oy + i) (oy_data oy))"
      using \<open>oy_returned oy + i + n \<le> oy_fill oy\<close> by (simp add: oy_bytes_def window_def take_drop add.commute add.left_commute min_def)
    ultimately show ?thesis using w by (simp add: sumBytes_ok)
  qed
qed

lemma checkPage_page:
  assumes inv: "sync_inv oy future (p # ps)" and h: "oy_headerbytes oy = length (og_header p)" "oy_bodybytes oy = length (og_body p)"
  shows "length (oy_bytes oy) < length (wire p) \<and> checkPage oy (length (oy_bytes oy)) = Some (0, None, oy) \<or>
    (\<exists>oy'. checkPage oy (length (oy_bytes oy)) = Some (int (length (wire p)), Some p, oy') \<and> sync_inv oy' future ps \<and> \<not> oy_unsynced oy')"
proof (cases "length (oy_bytes oy) < length (wire p)")
  case True
  then show ?thesis by (simp add: checkPage_def h wire_def add.commute)
next
  case False
  have wf: "oy_wf oy" and v: "valid_page p" and e: "oy_bytes oy @ future = wire p @ concat (map wire ps)"
    using inv by (simp_all add: sync_inv_def)
  have n: "oy_headerbytes oy + oy_bodybytes oy = length (wire p)" by (simp add: h wire_def)
  have t: "take (length (wire p)) (oy_bytes oy) = wire p" "drop (length (wire p)) (oy_bytes oy) @ future = concat (map wire ps)"
    using e False by (auto simp: append_eq_append_conv_if split: if_splits)
  have th: "take (oy_headerbytes oy) (wire p) = og_header p" "drop (oy_headerbytes oy) (wire p) = og_body p"
    "\<lparr>og_header = og_header p, og_body = og_body p\<rparr> = p"
    by (simp_all add: wire_def h)
  obtain cs: "ogg_page_checksum_set p = Some p" using valid_page_facts [OF v] by metis
  let ?oy = "oy\<lparr>oy_unsynced := False, oy_returned := oy_returned oy + length (wire p), oy_headerbytes := 0, oy_bodybytes := 0\<rparr>"
  have b: "blit (oy_data oy) (oy_returned oy) (replicate (length (wire p)) 0) 0 (length (wire p)) = Some (wire p)"
    using oy_bytes_facts(2) [OF wf, of "length (wire p)" 0] False t(1) by simp
  have "checkPage oy (length (oy_bytes oy)) = Some (int (length (wire p)), Some p, ?oy)"
    using False by (simp add: checkPage_def n add.commute [of "oy_bodybytes oy"] b th cs Let_def)
  moreover have "oy_wf ?oy" using wf False oy_bytes_facts(1) [OF wf] by (simp add: oy_wf_def) linarith
  moreover have "oy_bytes ?oy = drop (length (wire p)) (oy_bytes oy)" by (simp add: oy_bytes_def window_drop)
  ultimately show ?thesis using inv t(2) by (auto simp: sync_inv_def under_way_def)
qed


text \<open>Asking for a page on undamaged data: either nothing yet, or the next page.\<close>

definition page_or_wait :: "ogg_sync_state \<Rightarrow> byte list \<Rightarrow> ogg_page list \<Rightarrow> (int \<times> ogg_page option \<times> ogg_sync_state) option \<Rightarrow> bool" where
  "page_or_wait oy future pages r \<longleftrightarrow>
     (\<exists>oy'. r = Some (0, None, oy') \<and> sync_inv oy' future pages \<and> (pages \<noteq> [] \<longrightarrow> length (oy_bytes oy) < length (wire (hd pages))) \<and>
        oy_unsynced oy' = oy_unsynced oy) \<or>
     (\<exists>p ps oy'. pages = p # ps \<and> r = Some (int (length (wire p)), Some p, oy') \<and> sync_inv oy' future ps \<and> \<not> oy_unsynced oy')"

lemma wire_prefix:
  assumes "xs @ ys = p @ zs" and "n \<le> length xs" and "n \<le> length p"
  shows "take n xs = take n p"
  using assms by (auto simp: append_eq_append_conv_if split: if_splits) (metis take_append take_take min_def le_add_diff_inverse append_take_drop_id nat_le_linear)+

lemma pageseek_page:
  assumes inv: "sync_inv oy future pages"
  shows "page_or_wait oy future pages (ogg_sync_pageseek oy)"
proof -
  have wf: "oy_wf oy" and e: "oy_bytes oy @ future = concat (map wire pages)" and u: "under_way oy pages"
    using inv by (simp_all add: sync_inv_def)
  define n where "n = length (oy_bytes oy)"
  have s: "subNat (oy_fill oy) (oy_returned oy) = Some n" and c: "ogg_sync_check oy = 0"
    using wf by (auto simp: subNat_def oy_wf_def ogg_sync_check_def n_def oy_bytes_facts(1))
  show ?thesis
  proof (cases "oy_headerbytes oy = 0")
    case False
    then obtain p ps where p: "pages = p # ps" "oy_headerbytes oy = length (og_header p)" "oy_bodybytes oy = length (og_body p)"
      using u by (auto simp: under_way_def)
    from checkPage_page [OF inv [unfolded p(1)] p(2,3)] False show ?thesis
      using inv by (auto simp: page_or_wait_def p(1) ogg_sync_pageseek_def s c n_def)
  next
    case hb: True
    then have bb: "oy_bodybytes oy = 0"
      using u inv valid_page_facts by (fastforce simp: under_way_def sync_inv_def)
    show ?thesis
    proof (cases pages)
      case Nil
      then have "n = 0" using e by (simp add: n_def)
      then show ?thesis using inv by (simp add: page_or_wait_def ogg_sync_pageseek_def s c hb Nil)
    next
      case (Cons p ps)
      have v: "valid_page p" using inv by (simp add: sync_inv_def Cons)
      obtain segs where f: "length segs \<le> 255" "sum_list (map unat segs) = length (og_body p)" "length (og_header p) = 27 + length segs"
        "take 4 (og_header p) = [0x4f, 0x67, 0x67, 0x53]" "og_header p ! 26 = of_nat (length segs)" "drop 27 (og_header p) = segs"
        using valid_page_facts [OF v] by metis
      have pre: "take k (oy_bytes oy) = take k (og_header p)" if "k \<le> n" "k \<le> length (og_header p)" for k
        using wire_prefix [of "oy_bytes oy" future "wire p" "concat (map wire ps)" k] e that by (simp add: Cons n_def wire_def)
      have lw: "length (wire p) = 27 + length segs + length (og_body p)" by (simp add: wire_def f(3))
      show ?thesis
      proof (cases "n < 27")
        case True
        then show ?thesis using inv lw by (auto simp: page_or_wait_def ogg_sync_pageseek_def s c hb Cons n_def)
      next
        case False
        have capture: "blit (oy_data oy) (oy_returned oy) (replicate 4 0) 0 4 = Some [0x4f, 0x67, 0x67, 0x53]"
          using oy_bytes_facts(2) [OF wf, of 4 0] False pre [of 4] f(3,4) by (simp add: n_def)
        have "oy_bytes oy ! 26 = og_header p ! 26"
          using pre [of 27] False f(3) nth_take [of 26 27 "oy_bytes oy"] nth_take [of 26 27 "og_header p"] by simp
        then have count: "rd (oy_data oy) (oy_returned oy + 26) = Some (of_nat (length segs))"
          using oy_bytes_facts(3) [OF wf, of 26] False f(5) by (simp add: n_def)
        have us: "unat (of_nat (length segs) :: byte) = length segs" using f(1) by (simp add: unat_of_nat)
        show ?thesis
        proof (cases "n < 27 + length segs")
          case True
          then show ?thesis using inv lw capture count us False
            by (auto simp: page_or_wait_def ogg_sync_pageseek_def s c hb Cons n_def Let_def)
        next
          case header: False
          let ?oy = "oy\<lparr>oy_bodybytes := length (og_body p), oy_headerbytes := length (og_header p)\<rparr>"
          have "take (length segs) (drop 27 (oy_bytes oy)) = segs"
            using pre [of "27 + length segs"] header f(3,6) by (metis drop_take diff_add_inverse order_refl not_less take_all_iff)
          then have sum: "sumBytes (oy_data oy) (oy_returned oy + 27) (length segs) = Some (length (og_body p))"
            using oy_bytes_facts(4) [OF wf, of 27 "length segs"] header f(2) by (simp add: n_def)
          have b: "oy_bytes (oy\<lparr>oy_bodybytes := x, oy_headerbytes := y\<rparr>) = oy_bytes oy" for x y by (simp add: oy_bytes_def)
          have i: "sync_inv ?oy future (p # ps)"
            using inv f(3) by (simp add: sync_inv_def Cons b under_way_def) (simp add: oy_wf_def)
          have "ogg_sync_pageseek oy = checkPage ?oy n"
            using header False capture count us by (simp add: ogg_sync_pageseek_def s c hb bb Let_def sum f(3) add.commute)
          moreover have "checkPage ?oy n = Some (0, None, ?oy) \<and> n < length (wire p) \<or>
              (\<exists>oy'. checkPage ?oy n = Some (int (length (wire p)), Some p, oy') \<and> sync_inv oy' future ps \<and> \<not> oy_unsynced oy')"
            using checkPage_page [OF i] unfolding n_def b by auto
          ultimately show ?thesis using i b by (auto simp: page_or_wait_def Cons n_def)
        qed
      qed
    qed
  qed
qed


subsection \<open>Feeding and asking\<close>

text \<open>
  What an application does: it asks for room, copies what it has read there and says how much it
  was; or it asks for a page and keeps it when there is one.
\<close>

datatype sync_op = Feed "byte list" | Ask

fun sync_op_step :: "ogg_allocator \<Rightarrow> sync_op \<Rightarrow> ogg_sync_state \<times> ogg_page list \<Rightarrow> (ogg_sync_state \<times> ogg_page list) option" where
  "sync_op_step al (Feed chunk) (oy, out) =
     Option.bind (ogg_sync_buffer al oy (length chunk)) (\<lambda>(pos, oy).
     Option.bind pos (\<lambda>pos.
     Option.bind (blit chunk 0 (oy_data oy) pos (length chunk)) (\<lambda>data.
     Some (snd (ogg_sync_wrote (oy\<lparr>oy_data := data\<rparr>) (length chunk)), out))))"
| "sync_op_step al Ask (oy, out) =
     Option.bind (ogg_sync_pageout oy) (\<lambda>(ret, og, oy). Some (oy, if ret = 1 then out @ [the og] else out))"

fun sync_run :: "ogg_allocator \<Rightarrow> sync_op list \<Rightarrow> ogg_sync_state \<times> ogg_page list \<Rightarrow> (ogg_sync_state \<times> ogg_page list) option" where
  "sync_run al [] x = Some x"
| "sync_run al (a # as) x = Option.bind (sync_op_step al a x) (sync_run al as)"

fun fed :: "sync_op list \<Rightarrow> byte list" where
  "fed [] = []"
| "fed (Feed chunk # as) = chunk @ fed as"
| "fed (Ask # as) = fed as"

lemma pageout_page:
  assumes inv: "sync_inv oy future pages"
  shows "(\<exists>oy'. ogg_sync_pageout oy = Some (0, None, oy') \<and> sync_inv oy' future pages \<and> (future = [] \<longrightarrow> pages = [])) \<or>
    (\<exists>p ps oy'. pages = p # ps \<and> ogg_sync_pageout oy = Some (1, Some p, oy') \<and> sync_inv oy' future ps)"
proof -
  have c: "ogg_sync_check oy = 0" using inv by (simp add: sync_inv_def oy_wf_def ogg_sync_check_def)
  consider (wait) oy' where "ogg_sync_pageseek oy = Some (0, None, oy')" "sync_inv oy' future pages"
      "pages \<noteq> [] \<longrightarrow> length (oy_bytes oy) < length (wire (hd pages))"
    | (page) p ps oy' where "pages = p # ps" "ogg_sync_pageseek oy = Some (int (length (wire p)), Some p, oy')" "sync_inv oy' future ps"
    using pageseek_page [OF inv] unfolding page_or_wait_def by blast
  then show ?thesis
  proof cases
    case wait
    have "pages = []" if "future = []"
    proof (rule ccontr)
      assume "pages \<noteq> []"
      then obtain p ps where p: "pages = p # ps" by (cases pages) auto
      with inv that have "oy_bytes oy = wire p @ concat (map wire ps)" by (simp add: sync_inv_def)
      with wait(3) p show False by simp
    qed
    with wait(1,2) show ?thesis by (subst (1) ogg_sync_pageout.simps) (simp add: c)
  next
    case page
    have "valid_page p" using inv page(1) by (simp add: sync_inv_def)
    then have "0 < length (wire p)" using valid_page_facts by (fastforce simp: wire_def)
    with page show ?thesis by (subst (2) ogg_sync_pageout.simps) (simp add: c)
  qed
qed


definition roomMade :: "ogg_sync_state \<Rightarrow> ogg_sync_state \<Rightarrow> bool" where
  "roomMade oy oy1 \<longleftrightarrow> oy_wf oy1 \<and> oy_bytes oy1 = oy_bytes oy \<and>
     oy_headerbytes oy1 = oy_headerbytes oy \<and> oy_bodybytes oy1 = oy_bodybytes oy"

definition sync_compact :: "ogg_sync_state \<Rightarrow> ogg_sync_state option" where
  "sync_compact oy =
     (if oy_returned oy \<noteq> 0 then
        Option.bind (subNat (oy_fill oy) (oy_returned oy)) (\<lambda>fill.
        Option.bind (if fill > 0 then blit (oy_data oy) (oy_returned oy) (oy_data oy) 0 fill else Some (oy_data oy)) (\<lambda>data.
          Some (oy\<lparr>oy_fill := fill, oy_data := data, oy_returned := 0\<rparr>)))
      else Some oy)"

lemma sync_compact_ok:
  assumes wf: "oy_wf oy"
  shows "\<exists>oy1. sync_compact oy = Some oy1 \<and> roomMade oy oy1"
proof (cases "oy_returned oy = 0")
  case True
  with wf show ?thesis by (simp add: sync_compact_def roomMade_def)
next
  case False
  define n where "n = oy_fill oy - oy_returned oy"
  have s: "subNat (oy_fill oy) (oy_returned oy) = Some n" using wf by (simp add: subNat_def oy_wf_def n_def)
  have w: "oy_returned oy \<le> oy_fill oy" "oy_fill oy \<le> length (oy_data oy)" using wf by (simp_all add: oy_wf_def)
  obtain b where b: "(if n \<noteq> 0 then blit (oy_data oy) (oy_returned oy) (oy_data oy) 0 n else Some (oy_data oy)) = Some b"
    "length b = length (oy_data oy)" "window b 0 n = oy_bytes oy"
    using window_compact [OF w] unfolding n_def oy_bytes_def by blast
  have "sync_compact oy = Some (oy\<lparr>oy_fill := n, oy_data := b, oy_returned := 0\<rparr>)"
    using False b(1) by (simp add: sync_compact_def s)
  moreover have "n \<le> length b" using wf b(2) by (auto simp: oy_wf_def n_def)
  ultimately show ?thesis using wf b(2,3) by (auto simp: roomMade_def oy_wf_def oy_bytes_def)
qed

lemma sync_buffer_ok:
  assumes wf: "oy_wf oy" and al: "grants al"
  shows "\<exists>oy1. ogg_sync_buffer al oy k = Some (Some (oy_fill oy1), oy1) \<and> roomMade oy oy1 \<and>
    int (oy_fill oy1) + int k \<le> oy_storage oy1"
proof -
  obtain oy0 where c: "sync_compact oy = Some oy0" "roomMade oy oy0" using sync_compact_ok [OF wf] by blast
  have w: "oy_wf oy0" and ch: "ogg_sync_check oy = 0" using c(2) wf by (simp_all add: roomMade_def oy_wf_def ogg_sync_check_def)
  show ?thesis
  proof (cases "int k > oy_storage oy0 - int (oy_fill oy0)")
    case False
    then have "ogg_sync_buffer al oy k = Some (Some (oy_fill oy0), oy0)"
      unfolding ogg_sync_buffer_def sync_compact_def [symmetric] by (simp add: ch c(1))
    with False c(2) show ?thesis by auto
  next
    case True
    let ?m = "k + oy_fill oy0 + 4096"
    obtain b where b: "growArray True (oa_bytes al) (oy_data oy0) ?m = Some b" by (simp add: growArray_def)
    have g: "length b = ?m" "window b (oy_returned oy0) (oy_fill oy0) = oy_bytes oy0"
      using window_grow [OF _ _ b, of "oy_fill oy0" "oy_returned oy0"] w unfolding oy_wf_def oy_bytes_def by simp_all
    let ?oy = "oy0\<lparr>oy_data := b, oy_storage := int ?m\<rparr>"
    have "ogg_sync_buffer al oy k = Some (Some (oy_fill oy0), ?oy)"
      using True al b unfolding ogg_sync_buffer_def sync_compact_def [symmetric] by (simp add: ch c(1) grants_def Let_def)
    moreover have "roomMade oy ?oy" using c(2) g by (auto simp: roomMade_def oy_wf_def oy_bytes_def)
    ultimately show ?thesis by (intro exI [of _ ?oy]) simp
  qed
qed

lemma feed_ok:
  assumes inv: "sync_inv oy (chunk @ future) pages" and al: "grants al"
  shows "\<exists>oy'. sync_op_step al (Feed chunk) (oy, out) = Some (oy', out) \<and> sync_inv oy' future pages"
proof -
  have wf: "oy_wf oy" using inv by (simp add: sync_inv_def)
  obtain oy1 where oy1: "ogg_sync_buffer al oy (length chunk) = Some (Some (oy_fill oy1), oy1)" "oy_wf oy1" "oy_bytes oy1 = oy_bytes oy"
      "int (oy_fill oy1) + int (length chunk) \<le> oy_storage oy1" "oy_headerbytes oy1 = oy_headerbytes oy" "oy_bodybytes oy1 = oy_bodybytes oy"
    using sync_buffer_ok [OF wf al, of "length chunk"] unfolding roomMade_def by blast
  obtain data where d: "blit chunk 0 (oy_data oy1) (oy_fill oy1) (length chunk) = Some data" "length data = length (oy_data oy1)"
      "window data (oy_returned oy1) (oy_fill oy1 + length chunk) = oy_bytes oy1 @ chunk"
    using window_append [of "oy_returned oy1" "oy_fill oy1" chunk "oy_data oy1"] oy1(2,4) by (auto simp: oy_wf_def oy_bytes_def)
  let ?oy = "oy1\<lparr>oy_data := data, oy_fill := oy_fill oy1 + length chunk\<rparr>"
  have "ogg_sync_check oy1 = 0" using oy1(2) by (simp add: oy_wf_def ogg_sync_check_def)
  then have "sync_op_step al (Feed chunk) (oy, out) = Some (?oy, out)"
    using oy1(1,4) d(1) by (simp add: ogg_sync_wrote_def ogg_sync_check_def)
  moreover have "oy_bytes ?oy = oy_bytes oy1 @ chunk"
    using d(3) by (simp add: oy_bytes_def)
  moreover have "oy_wf ?oy" using oy1(2,4) d(2) by (auto simp: oy_wf_def)
  ultimately show ?thesis using inv oy1(3,5,6) by (auto simp: sync_inv_def under_way_def)
qed

lemma ask_ok:
  assumes inv: "sync_inv oy future pages"
  shows "\<exists>oy' k. sync_op_step al Ask (oy, out) = Some (oy', out @ take k pages) \<and> sync_inv oy' future (drop k pages) \<and>
    (future = [] \<longrightarrow> pages \<noteq> [] \<longrightarrow> k = 1)"
  using pageout_page [OF inv]
proof (elim disjE exE conjE)
  fix oy' assume "ogg_sync_pageout oy = Some (0, None, oy')" "sync_inv oy' future pages" "future = [] \<longrightarrow> pages = []"
  then show ?thesis by (intro exI [of _ oy'] exI [of _ 0]) auto
next
  fix p ps oy' assume "pages = p # ps" "ogg_sync_pageout oy = Some (1, Some p, oy')" "sync_inv oy' future ps"
  then show ?thesis by (intro exI [of _ oy'] exI [of _ 1]) auto
qed

lemma run_ok:
  assumes "grants al" and "sync_inv oy (fed ops @ future) pages"
  shows "\<exists>oy' k. sync_run al ops (oy, out) = Some (oy', out @ take k pages) \<and> sync_inv oy' future (drop k pages)"
  using assms(2)
proof (induction ops arbitrary: oy out pages)
  case Nil
  then show ?case by (intro exI [of _ oy] exI [of _ 0]) simp
next
  case (Cons a ops)
  show ?case
  proof (cases a)
    case (Feed chunk)
    with Cons.prems have "sync_inv oy (chunk @ fed ops @ future) pages" by simp
    from feed_ok [OF this assms(1), of out] Cons.IH show ?thesis by (fastforce simp: Feed)
  next
    case Ask
    with Cons.prems have "sync_inv oy (fed ops @ future) pages" by simp
    from ask_ok [OF this, of al out] obtain oy1 k where s: "sync_op_step al Ask (oy, out) = Some (oy1, out @ take k pages)"
      "sync_inv oy1 (fed ops @ future) (drop k pages)" by blast
    from Cons.IH [OF s(2), of "out @ take k pages"] obtain oy2 j where
      "sync_run al ops (oy1, out @ take k pages) = Some (oy2, (out @ take k pages) @ take j (drop k pages))"
      "sync_inv oy2 future (drop j (drop k pages))" by blast
    with s(1) show ?thesis unfolding Ask by (intro exI [of _ oy2] exI [of _ "k + j"]) (simp add: take_add del: sync_op_step.simps, simp add: add.commute)
  qed
qed

lemma drain_ok:
  assumes "sync_inv oy [] pages"
  shows "\<exists>oy'. sync_run al (replicate (length pages) Ask) (oy, out) = Some (oy', out @ pages)"
  using assms
proof (induction pages arbitrary: oy out)
  case (Cons p ps)
  from ask_ok [OF Cons.prems, of al out] obtain oy1 where
    "sync_op_step al Ask (oy, out) = Some (oy1, out @ [p])" "sync_inv oy1 [] ps" by auto
  with Cons.IH [of oy1 "out @ [p]"] show ?case by simp
qed simp


text \<open>C14: Pages are found exactly on undamaged data: for every sequence of pages whose segment tables and
  checksums are right, however its bytes are cut into chunks and whenever pages are asked for in
  between, no operation touches memory outside the buffer, what comes out is a prefix of the pages fed,
  each unchanged and in order, and once everything is fed, asking often enough gives all of them.\<close>

theorem ogg_capture_exact:
  assumes "grants al" and "\<forall>p \<in> set pages. valid_page p" and "fed ops @ future = concat (map wire pages)"
  shows "\<exists>oy out. sync_run al ops (snd (ogg_sync_init oy0), []) = Some (oy, out) \<and> prefix out pages \<and>
    (future = [] \<longrightarrow> (\<exists>oy'. sync_run al (replicate (length pages - length out) Ask) (oy, out) = Some (oy', pages)))"
proof -
  have "sync_inv (snd (ogg_sync_init oy0)) (fed ops @ future) pages"
    using assms(2,3) by (simp add: sync_inv_def ogg_sync_init_def oy_zero_def oy_wf_def oy_bytes_def window_def under_way_def)
  from run_ok [OF assms(1) this, of "[]"] obtain oy k where
    r: "sync_run al ops (snd (ogg_sync_init oy0), []) = Some (oy, take k pages)" "sync_inv oy future (drop k pages)" by auto
  have "\<exists>oy'. sync_run al (replicate (length pages - length (take k pages)) Ask) (oy, take k pages) = Some (oy', pages)"
    if "future = []"
    using drain_ok [of oy "drop k pages" al "take k pages"] r(2) that by (simp add: min_def split: if_splits)
  with r(1) take_is_prefix [of k pages] show ?thesis by blast
qed

definition sample_page :: ogg_page where
  "sample_page = \<lparr>og_header = headerBytes 2 9 7 0 (crcBytes (pageCrc (headerBytes 2 9 7 0 [0, 0, 0, 0] [3]) [10, 20, 30])) [3],
     og_body = [10, 20, 30]\<rparr>"

theorem ogg_capture_exact_witness:
  "\<exists>oy out. sync_run \<lparr>oa_ok = \<lambda>_. True, oa_bytes = \<lambda>_. 0, oa_ints = \<lambda>_. 0, oa_granules = \<lambda>_. 0\<rparr>
      [Feed (take 5 (wire sample_page)), Ask, Feed (drop 5 (wire sample_page))] (snd (ogg_sync_init oy_zero), []) = Some (oy, out) \<and>
    prefix out [sample_page] \<and>
    (([] :: byte list) = [] \<longrightarrow> (\<exists>oy'. sync_run \<lparr>oa_ok = \<lambda>_. True, oa_bytes = \<lambda>_. 0, oa_ints = \<lambda>_. 0, oa_granules = \<lambda>_. 0\<rparr>
        (replicate (length [sample_page] - length out) Ask) (oy, out) = Some (oy', [sample_page])))"
proof (rule ogg_capture_exact)
  have "valid_page sample_page" unfolding valid_page_def
    by (intro exI [of _ 2] exI [of _ 9] exI [of _ 7] exI [of _ 0] exI [of _ "[3]"]) (simp add: sample_page_def)
  then show "\<forall>p \<in> set [sample_page]. valid_page p" by simp
qed (simp_all add: grants_def)

end
