(* ===== verification/OggPack.thy ===== *)
theory OggPack
  imports CMemory
begin

text \<open>
  The bit packer of the Ogg library (\<open>Libraries/speex/include/bitwise.c\<close>): words of up to 32 bits
  written to and read from a byte buffer, least significant bit first (\<open>oggpack\<close>) or most
  significant bit first (\<open>oggpackB\<close>). A \<open>long\<close> has 64 bits and an \<open>int\<close> 32, as on the 64-bit
  target; bytes are promoted to \<open>int\<close> before they are shifted, and a shift into the sign bit wraps.
  The pointer \<open>ptr\<close> is an offset into the buffer, \<open>None\<close> when it is NULL. An operation that
  accesses memory outside the buffer has the result \<open>None\<close>.
\<close>

subsection \<open>State\<close>

record oggpack_buffer =
  ob_endbyte :: int
  ob_endbit :: int
  ob_buffer :: "byte list option"
  ob_ptr :: "int option"
  ob_storage :: int

definition ob_zero :: oggpack_buffer where
  "ob_zero = \<lparr>ob_endbyte = 0, ob_endbit = 0, ob_buffer = None, ob_ptr = None, ob_storage = 0\<rparr>"

definition BUFFER_INCREMENT :: int where "BUFFER_INCREMENT = 256"
definition LONG_MAX :: int where "LONG_MAX = 2 ^ 63 - 1"

definition mask_table :: "u64 list" where
  "mask_table = [0x00000000,0x00000001,0x00000003,0x00000007,0x0000000f,
 0x0000001f,0x0000003f,0x0000007f,0x000000ff,0x000001ff,
 0x000003ff,0x000007ff,0x00000fff,0x00001fff,0x00003fff,
 0x00007fff,0x0000ffff,0x0001ffff,0x0003ffff,0x0007ffff,
 0x000fffff,0x001fffff,0x003fffff,0x007fffff,0x00ffffff,
 0x01ffffff,0x03ffffff,0x07ffffff,0x0fffffff,0x1fffffff,
 0x3fffffff,0x7fffffff,0xffffffff]"

definition mask8B :: "u32 list" where
  "mask8B = [0x00,0x80,0xc0,0xe0,0xf0,0xf8,0xfc,0xfe,0xff]"

subsection \<open>Access through the pointer\<close>

definition pGet :: "oggpack_buffer \<Rightarrow> int \<Rightarrow> byte option" where
  "pGet b k = Option.bind (ob_buffer b) (\<lambda>a. Option.bind (ob_ptr b) (\<lambda>p.
     if p + k < 0 then None else rd a (nat (p + k))))"

definition pPut :: "int \<Rightarrow> byte list \<Rightarrow> oggpack_buffer \<Rightarrow> oggpack_buffer option" where
  "pPut k xs b = Option.bind (ob_buffer b) (\<lambda>a. Option.bind (ob_ptr b) (\<lambda>p.
     if p + k < 0 then None
     else Option.bind (blit xs 0 a (nat (p + k)) (length xs)) (\<lambda>a. Some (b\<lparr>ob_buffer := Some a\<rparr>))))"

subsection \<open>Setting up\<close>

definition oggpack_writeclear :: "oggpack_buffer \<Rightarrow> oggpack_buffer" where
  "oggpack_writeclear b = ob_zero"

text \<open>The result of the first allocation is used unchecked.\<close>

definition oggpack_writeinit :: "allocator \<Rightarrow> oggpack_buffer option" where
  "oggpack_writeinit al =
     Option.bind (realloc al [] (nat BUFFER_INCREMENT)) (\<lambda>a.
     Option.bind (pPut 0 [0] (ob_zero\<lparr>ob_ptr := Some 0, ob_buffer := Some a\<rparr>)) (\<lambda>b.
       Some (b\<lparr>ob_storage := BUFFER_INCREMENT\<rparr>)))"

definition oggpack_writecheck :: "oggpack_buffer \<Rightarrow> int" where
  "oggpack_writecheck b = (if ob_ptr b = None \<or> ob_storage b = 0 then -1 else 0)"

definition oggpack_reset :: "oggpack_buffer \<Rightarrow> oggpack_buffer option" where
  "oggpack_reset b =
     (if ob_ptr b = None then Some b
      else Option.bind (pPut 0 [0] (b\<lparr>ob_ptr := Some 0\<rparr>)) (\<lambda>b.
        Some (b\<lparr>ob_endbit := 0, ob_endbyte := 0\<rparr>)))"

definition oggpack_readinit :: "byte list \<Rightarrow> int \<Rightarrow> oggpack_buffer" where
  "oggpack_readinit buf bytes = ob_zero\<lparr>ob_buffer := Some buf, ob_ptr := Some 0, ob_storage := bytes\<rparr>"

text \<open>Cutting the stream back to a number of bits; the mask is read as the rest of the bits says.\<close>

definition writetrunc :: "(nat \<Rightarrow> byte option) \<Rightarrow> oggpack_buffer \<Rightarrow> int \<Rightarrow> oggpack_buffer option" where
  "writetrunc msk b bits =
     (let bytes = bits div 8
      in if ob_ptr b = None then Some b
         else
           (let bits = bits - bytes * 8;
                b = b\<lparr>ob_ptr := Some bytes, ob_endbit := bits, ob_endbyte := bytes\<rparr>
            in Option.bind (msk (nat bits)) (\<lambda>m. Option.bind (pGet b 0) (\<lambda>x. pPut 0 [x AND m] b))))"

definition oggpack_writetrunc :: "oggpack_buffer \<Rightarrow> int \<Rightarrow> oggpack_buffer option" where
  "oggpack_writetrunc = writetrunc (\<lambda>i. map_option ucast (rd mask_table i))"

definition oggpackB_writetrunc :: "oggpack_buffer \<Rightarrow> int \<Rightarrow> oggpack_buffer option" where
  "oggpackB_writetrunc = writetrunc (\<lambda>i. map_option ucast (rd mask8B i))"

subsection \<open>Writing\<close>

text \<open>Room for the five bytes a word can touch. Without a buffer nothing happens; a failure to grow
  clears the buffer.\<close>

definition writeRoom :: "allocator \<Rightarrow> oggpack_buffer \<Rightarrow> (oggpack_buffer \<Rightarrow> oggpack_buffer option) \<Rightarrow> oggpack_buffer option" where
  "writeRoom al b k =
     (if ob_endbyte b \<ge> ob_storage b - 4 then
        (if ob_ptr b = None then Some b
         else if ob_storage b > LONG_MAX - BUFFER_INCREMENT then Some (oggpack_writeclear b)
         else
           (case realloc al (case ob_buffer b of None \<Rightarrow> [] | Some a \<Rightarrow> a) (nat (ob_storage b + BUFFER_INCREMENT)) of
              None \<Rightarrow> Some (oggpack_writeclear b)
            | Some a \<Rightarrow> k (b\<lparr>ob_buffer := Some a, ob_storage := ob_storage b + BUFFER_INCREMENT,
                             ob_ptr := Some (ob_endbyte b)\<rparr>)))
      else k b)"

text \<open>The bytes after the first, least and most significant bit first.\<close>

definition lsbTail :: "u64 \<Rightarrow> nat \<Rightarrow> int \<Rightarrow> byte list" where
  "lsbTail value endbit bits =
     (if bits \<ge> 8 then ucast (drop_bit (8 - endbit) value) #
        (if bits \<ge> 16 then ucast (drop_bit (16 - endbit) value) #
           (if bits \<ge> 24 then ucast (drop_bit (24 - endbit) value) #
              (if bits \<ge> 32 then [if endbit \<noteq> 0 then ucast (drop_bit (32 - endbit) value) else 0] else [])
            else [])
         else [])
      else [])"

definition msbTail :: "u64 \<Rightarrow> nat \<Rightarrow> int \<Rightarrow> byte list" where
  "msbTail value endbit bits =
     (if bits \<ge> 8 then ucast (drop_bit (16 + endbit) value) #
        (if bits \<ge> 16 then ucast (drop_bit (8 + endbit) value) #
           (if bits \<ge> 24 then ucast (drop_bit endbit value) #
              (if bits \<ge> 32 then [if endbit \<noteq> 0 then ucast (push_bit (8 - endbit) value) else 0] else [])
            else [])
         else [])
      else [])"

text \<open>C division rounds towards zero.\<close>

definition div8 :: "int \<Rightarrow> int" where
  "div8 n = (if n \<ge> 0 then n div 8 else - (- n div 8))"

definition moveBy :: "int \<Rightarrow> oggpack_buffer \<Rightarrow> oggpack_buffer" where
  "moveBy bits b = b\<lparr>ob_endbyte := ob_endbyte b + div8 bits, ob_ptr := map_option (\<lambda>p. p + div8 bits) (ob_ptr b),
     ob_endbit := bits mod 8\<rparr>"

definition oggpack_write :: "allocator \<Rightarrow> oggpack_buffer \<Rightarrow> u64 \<Rightarrow> int \<Rightarrow> oggpack_buffer option" where
  "oggpack_write al b value bits =
     (if bits < 0 \<or> bits > 32 then Some (oggpack_writeclear b)
      else writeRoom al b (\<lambda>b.
        Option.bind (rd mask_table (nat bits)) (\<lambda>m.
        let value = value AND m; endbit = nat (ob_endbit b); bits = bits + ob_endbit b
        in Option.bind (pGet b 0) (\<lambda>x.
           Option.bind (pPut 0 [x OR ucast (push_bit endbit value)] b) (\<lambda>b.
           Option.bind (pPut 1 (lsbTail value endbit bits) b) (\<lambda>b. Some (moveBy bits b)))))))"

definition oggpackB_write :: "allocator \<Rightarrow> oggpack_buffer \<Rightarrow> u64 \<Rightarrow> int \<Rightarrow> oggpack_buffer option" where
  "oggpackB_write al b value bits =
     (if bits < 0 \<or> bits > 32 then Some (oggpack_writeclear b)
      else writeRoom al b (\<lambda>b.
        Option.bind (rd mask_table (nat bits)) (\<lambda>m.
        let value = push_bit (nat (32 - bits)) (value AND m); endbit = nat (ob_endbit b); bits = bits + ob_endbit b
        in Option.bind (pGet b 0) (\<lambda>x.
           Option.bind (pPut 0 [x OR ucast (drop_bit (24 + endbit) value)] b) (\<lambda>b.
           Option.bind (pPut 1 (msbTail value endbit bits) b) (\<lambda>b. Some (moveBy bits b)))))))"

definition oggpack_writealign :: "allocator \<Rightarrow> oggpack_buffer \<Rightarrow> oggpack_buffer option" where
  "oggpack_writealign al b =
     (let bits = 8 - ob_endbit b in if bits < 8 then oggpack_write al b 0 bits else Some b)"

definition oggpackB_writealign :: "allocator \<Rightarrow> oggpack_buffer \<Rightarrow> oggpack_buffer option" where
  "oggpackB_writealign al b =
     (let bits = 8 - ob_endbit b in if bits < 8 then oggpackB_write al b 0 bits else Some b)"

text \<open>Copying whole bytes one word at a time.\<close>

fun copyBytes :: "(oggpack_buffer \<Rightarrow> u64 \<Rightarrow> int \<Rightarrow> oggpack_buffer option) \<Rightarrow> byte list \<Rightarrow> oggpack_buffer \<Rightarrow> oggpack_buffer option" where
  "copyBytes w [] b = Some b"
| "copyBytes w (x # xs) b = Option.bind (w b (ucast x) 8) (copyBytes w xs)"

text \<open>The aligned copy, with the source's test of the room it is about to make.\<close>

definition alignedCopy :: "allocator \<Rightarrow> oggpack_buffer \<Rightarrow> byte list \<Rightarrow> int \<Rightarrow>
    (oggpack_buffer \<Rightarrow> oggpack_buffer option) \<Rightarrow> oggpack_buffer option" where
  "alignedCopy al b src bytes k =
     (let copy = (\<lambda>b. Option.bind (if nat bytes \<le> length src then Some (take (nat bytes) src) else None) (\<lambda>xs.
            Option.bind (pPut 0 xs b) (\<lambda>b.
              let b = b\<lparr>ob_ptr := map_option (\<lambda>p. p + bytes) (ob_ptr b), ob_endbyte := ob_endbyte b + bytes\<rparr>
              in Option.bind (pPut 0 [0] b) k)))
      in if ob_endbyte b + bytes + 1 \<ge> ob_storage b then
           (if ob_ptr b = None then Some (oggpack_writeclear b)
            else if ob_endbyte b + bytes + BUFFER_INCREMENT > ob_storage b then Some (oggpack_writeclear b)
            else
              (let b = b\<lparr>ob_storage := ob_endbyte b + bytes + BUFFER_INCREMENT\<rparr>
               in case realloc al (case ob_buffer b of None \<Rightarrow> [] | Some a \<Rightarrow> a) (nat (ob_storage b)) of
                    None \<Rightarrow> Some (oggpack_writeclear b)
                  | Some a \<Rightarrow> copy (b\<lparr>ob_buffer := Some a, ob_ptr := Some (ob_endbyte b)\<rparr>)))
         else copy b)"

definition oggpack_writecopy_helper :: "allocator \<Rightarrow> oggpack_buffer \<Rightarrow> byte list \<Rightarrow> int \<Rightarrow>
    (oggpack_buffer \<Rightarrow> u64 \<Rightarrow> int \<Rightarrow> oggpack_buffer option) \<Rightarrow> bool \<Rightarrow> oggpack_buffer option" where
  "oggpack_writecopy_helper al b src bits w msb =
     (let bytes = div8 bits; bits = bits - bytes * 8;
          rest = (\<lambda>b. if bits = 0 then Some b
                 else Option.bind (rd src (nat bytes)) (\<lambda>x.
                   w b (if msb then drop_bit (nat (8 - bits)) (ucast x) else ucast x) bits))
      in if ob_endbit b \<noteq> 0
         then Option.bind (if nat bytes \<le> length src then Some (take (nat bytes) src) else None) (\<lambda>xs.
                Option.bind (copyBytes w xs b) rest)
         else alignedCopy al b src bytes rest)"

definition oggpack_writecopy :: "allocator \<Rightarrow> oggpack_buffer \<Rightarrow> byte list \<Rightarrow> int \<Rightarrow> oggpack_buffer option" where
  "oggpack_writecopy al b src bits = oggpack_writecopy_helper al b src bits (oggpack_write al) False"

definition oggpackB_writecopy :: "allocator \<Rightarrow> oggpack_buffer \<Rightarrow> byte list \<Rightarrow> int \<Rightarrow> oggpack_buffer option" where
  "oggpackB_writecopy al b src bits = oggpack_writecopy_helper al b src bits (oggpackB_write al) True"

subsection \<open>Reading\<close>

text \<open>A byte shifted as an \<open>int\<close> and widened to a \<open>long\<close>.\<close>

definition shl :: "byte \<Rightarrow> nat \<Rightarrow> u64" where
  "shl x n = scast (push_bit n (ucast x :: u32))"

definition shr :: "byte \<Rightarrow> nat \<Rightarrow> u64" where
  "shr x n = scast (drop_bit n (ucast x :: u32))"

definition orNext :: "oggpack_buffer \<Rightarrow> bool \<Rightarrow> int \<Rightarrow> (byte \<Rightarrow> u64) \<Rightarrow> (u64 \<Rightarrow> u64 option) \<Rightarrow> u64 \<Rightarrow> u64 option" where
  "orNext b c k f rest ret = (if c then Option.bind (pGet b k) (\<lambda>x. rest (ret OR f x)) else Some ret)"

definition lsbGather :: "oggpack_buffer \<Rightarrow> int \<Rightarrow> u64 option" where
  "lsbGather b bits =
     (let e = nat (ob_endbit b)
      in Option.bind (pGet b 0) (\<lambda>x.
           orNext b (bits > 8) 1 (\<lambda>x. shl x (8 - e))
          (orNext b (bits > 16) 2 (\<lambda>x. shl x (16 - e))
          (orNext b (bits > 24) 3 (\<lambda>x. shl x (24 - e))
          (orNext b (bits > 32 \<and> e \<noteq> 0) 4 (\<lambda>x. shl x (32 - e)) Some))) (shr x e)))"

definition msbGather :: "oggpack_buffer \<Rightarrow> int \<Rightarrow> u64 option" where
  "msbGather b bits =
     (let e = nat (ob_endbit b)
      in Option.bind (pGet b 0) (\<lambda>x.
           orNext b (bits > 8) 1 (\<lambda>x. shl x (16 + e))
          (orNext b (bits > 16) 2 (\<lambda>x. shl x (8 + e))
          (orNext b (bits > 24) 3 (\<lambda>x. shl x e)
          (orNext b (bits > 32 \<and> e \<noteq> 0) 4 (\<lambda>x. shr x (8 - e)) Some))) (shl x (24 + e))))"

definition msbResult :: "int \<Rightarrow> u64 \<Rightarrow> u64" where
  "msbResult m ret = drop_bit (nat ((m + 1) div 2)) (drop_bit (nat (m div 2)) (ret AND 0xffffffff))"

text \<open>The test off the main path: \<open>Some None\<close> is the overflow, \<open>Some (Some 0)\<close> an empty read at the end.\<close>

definition nearEnd :: "oggpack_buffer \<Rightarrow> int \<Rightarrow> bool" where
  "nearEnd b bits \<longleftrightarrow> ob_endbyte b > ob_storage b - (bits + 7) div 8"

definition oggpack_look :: "oggpack_buffer \<Rightarrow> int \<Rightarrow> int option" where
  "oggpack_look b bits =
     (if bits < 0 \<or> bits > 32 then Some (-1)
      else Option.bind (rd mask_table (nat bits)) (\<lambda>m.
        let bits = bits + ob_endbit b
        in if ob_endbyte b \<ge> ob_storage b - 4 \<and> nearEnd b bits then Some (-1)
           else if ob_endbyte b \<ge> ob_storage b - 4 \<and> bits = 0 then Some 0
           else Option.bind (lsbGather b bits) (\<lambda>ret. Some (sint (m AND ret)))))"

definition oggpackB_look :: "oggpack_buffer \<Rightarrow> int \<Rightarrow> int option" where
  "oggpackB_look b bits =
     (let m = 32 - bits
      in if m < 0 \<or> m > 32 then Some (-1)
         else
           (let bits = bits + ob_endbit b
            in if ob_endbyte b \<ge> ob_storage b - 4 \<and> nearEnd b bits then Some (-1)
               else if ob_endbyte b \<ge> ob_storage b - 4 \<and> bits = 0 then Some 0
               else Option.bind (msbGather b bits) (\<lambda>ret. Some (sint (msbResult m ret)))))"

definition oggpack_look1 :: "oggpack_buffer \<Rightarrow> int option" where
  "oggpack_look1 b =
     (if ob_endbyte b \<ge> ob_storage b then Some (-1)
      else Option.bind (pGet b 0) (\<lambda>x. Some (uint (drop_bit (nat (ob_endbit b)) x AND 1))))"

definition oggpackB_look1 :: "oggpack_buffer \<Rightarrow> int option" where
  "oggpackB_look1 b =
     (if ob_endbyte b \<ge> ob_storage b then Some (-1)
      else Option.bind (pGet b 0) (\<lambda>x. Some (uint (drop_bit (nat (7 - ob_endbit b)) x AND 1))))"

definition overflow :: "oggpack_buffer \<Rightarrow> oggpack_buffer" where
  "overflow b = b\<lparr>ob_ptr := None, ob_endbyte := ob_storage b, ob_endbit := 1\<rparr>"

definition oggpack_adv :: "oggpack_buffer \<Rightarrow> int \<Rightarrow> oggpack_buffer" where
  "oggpack_adv b bits =
     (let bits = bits + ob_endbit b in if nearEnd b bits then overflow b else moveBy bits b)"

definition oggpack_adv1 :: "oggpack_buffer \<Rightarrow> oggpack_buffer" where
  "oggpack_adv1 b =
     (let b = b\<lparr>ob_endbit := ob_endbit b + 1\<rparr>
      in if ob_endbit b > 7
         then b\<lparr>ob_endbit := 0, ob_ptr := map_option (\<lambda>p. p + 1) (ob_ptr b), ob_endbyte := ob_endbyte b + 1\<rparr>
         else b)"

definition oggpack_read :: "oggpack_buffer \<Rightarrow> int \<Rightarrow> (int \<times> oggpack_buffer) option" where
  "oggpack_read b bits =
     (if bits < 0 \<or> bits > 32 then Some (-1, overflow b)
      else Option.bind (rd mask_table (nat bits)) (\<lambda>m.
        let bits = bits + ob_endbit b
        in if ob_endbyte b \<ge> ob_storage b - 4 \<and> nearEnd b bits then Some (-1, overflow b)
           else if ob_endbyte b \<ge> ob_storage b - 4 \<and> bits = 0 then Some (0, b)
           else Option.bind (lsbGather b bits) (\<lambda>ret. Some (sint (ret AND m), moveBy bits b))))"

definition oggpackB_read :: "oggpack_buffer \<Rightarrow> int \<Rightarrow> (int \<times> oggpack_buffer) option" where
  "oggpackB_read b bits =
     (let m = 32 - bits
      in if m < 0 \<or> m > 32 then Some (-1, overflow b)
         else
           (let bits = bits + ob_endbit b
            in if ob_endbyte b + 4 \<ge> ob_storage b \<and> nearEnd b bits then Some (-1, overflow b)
               else if ob_endbyte b + 4 \<ge> ob_storage b \<and> bits = 0 then Some (0, b)
               else Option.bind (msbGather b bits) (\<lambda>ret. Some (sint (msbResult m ret), moveBy bits b))))"

definition oggpack_read1 :: "oggpack_buffer \<Rightarrow> (int \<times> oggpack_buffer) option" where
  "oggpack_read1 b =
     (if ob_endbyte b \<ge> ob_storage b then Some (-1, overflow b)
      else Option.bind (pGet b 0) (\<lambda>x.
        Some (uint (drop_bit (nat (ob_endbit b)) x AND 1), oggpack_adv1 b)))"

definition oggpackB_read1 :: "oggpack_buffer \<Rightarrow> (int \<times> oggpack_buffer) option" where
  "oggpackB_read1 b =
     (if ob_endbyte b \<ge> ob_storage b then Some (-1, overflow b)
      else Option.bind (pGet b 0) (\<lambda>x.
        Some (uint (drop_bit (nat (7 - ob_endbit b)) x AND 1), oggpack_adv1 b)))"

definition oggpack_bytes :: "oggpack_buffer \<Rightarrow> int" where
  "oggpack_bytes b = ob_endbyte b + div8 (ob_endbit b + 7)"

definition oggpack_bits :: "oggpack_buffer \<Rightarrow> int" where
  "oggpack_bits b = ob_endbyte b * 8 + ob_endbit b"

definition oggpack_get_buffer :: "oggpack_buffer \<Rightarrow> byte list option" where
  "oggpack_get_buffer b = ob_buffer b"

subsection \<open>Most significant bit first: the operations that do not depend on the order\<close>

definition oggpackB_writeclear :: "oggpack_buffer \<Rightarrow> oggpack_buffer" where
  "oggpackB_writeclear b = oggpack_writeclear b"

definition oggpackB_writeinit :: "allocator \<Rightarrow> oggpack_buffer option" where
  "oggpackB_writeinit al = oggpack_writeinit al"

definition oggpackB_writecheck :: "oggpack_buffer \<Rightarrow> int" where
  "oggpackB_writecheck b = oggpack_writecheck b"

definition oggpackB_reset :: "oggpack_buffer \<Rightarrow> oggpack_buffer option" where
  "oggpackB_reset b = oggpack_reset b"

definition oggpackB_readinit :: "byte list \<Rightarrow> int \<Rightarrow> oggpack_buffer" where
  "oggpackB_readinit buf bytes = oggpack_readinit buf bytes"

definition oggpackB_adv :: "oggpack_buffer \<Rightarrow> int \<Rightarrow> oggpack_buffer" where
  "oggpackB_adv b bits = oggpack_adv b bits"

definition oggpackB_adv1 :: "oggpack_buffer \<Rightarrow> oggpack_buffer" where
  "oggpackB_adv1 b = oggpack_adv1 b"

definition oggpackB_bytes :: "oggpack_buffer \<Rightarrow> int" where
  "oggpackB_bytes b = oggpack_bytes b"

definition oggpackB_bits :: "oggpack_buffer \<Rightarrow> int" where
  "oggpackB_bits b = oggpack_bits b"

definition oggpackB_get_buffer :: "oggpack_buffer \<Rightarrow> byte list option" where
  "oggpackB_get_buffer b = oggpack_get_buffer b"

end
