(* ===== verification/OggPackBits.thy ===== *)
theory OggPackBits
  imports OggPack
begin

text \<open>
  What the bit packer does to the bits of its buffer, for both bit orders: a write appends the bits
  of its value after those written before and changes none of them; a read inside the buffer gives
  the next bits and moves on.
\<close>

subsection \<open>Bits of a buffer\<close>

text \<open>The \<open>i\<close>th bit of a stream, and the bit of an \<open>n\<close>-bit value that is written as its \<open>i\<close>th.\<close>

definition bitAt :: "bool \<Rightarrow> byte list \<Rightarrow> nat \<Rightarrow> bool" where
  "bitAt msb a i = bit (a ! (i div 8)) (if msb then 7 - i mod 8 else i mod 8)"

definition bitOf :: "bool \<Rightarrow> nat \<Rightarrow> nat \<Rightarrow> nat" where
  "bitOf msb n i = (if msb then n - 1 - i else i)"

text \<open>A buffer at byte \<open>k\<close> and bit \<open>e\<close>.\<close>

definition ob_state :: "byte list \<Rightarrow> nat \<Rightarrow> nat \<Rightarrow> oggpack_buffer" where
  "ob_state a k e = \<lparr>ob_endbyte = int k, ob_endbit = int e, ob_buffer = Some a, ob_ptr = Some (int k),
     ob_storage = int (length a)\<rparr>"

lemma ob_state_simps [simp]:
  "ob_endbyte (ob_state a k e) = int k" "ob_endbit (ob_state a k e) = int e" "ob_buffer (ob_state a k e) = Some a"
  "ob_ptr (ob_state a k e) = Some (int k)" "ob_storage (ob_state a k e) = int (length a)"
  by (simp_all add: ob_state_def)

text \<open>A buffer being written: no bit is set after the last one of its current byte.\<close>

definition writing :: "bool \<Rightarrow> byte list \<Rightarrow> nat \<Rightarrow> nat \<Rightarrow> bool" where
  "writing msb a k e \<longleftrightarrow> e < 8 \<and> k < length a \<and> (\<forall>i. 8 * k + e \<le> i \<longrightarrow> i < 8 * k + 8 \<longrightarrow> \<not> bitAt msb a i)"

lemma mask_table_eq: "n \<le> 32 \<Longrightarrow> rd mask_table n = Some (mask n)"
proof -
  have "length mask_table = 33" "\<forall>n \<in> set [0..<33]. mask_table ! n = mask n" by code_simp+
  then show "n \<le> 32 \<Longrightarrow> ?thesis" by simp
qed

lemma pGet_state [simp]: "k + t < length a \<Longrightarrow> pGet (ob_state a k e) (int t) = Some (a ! (k + t))"
  by (simp add: pGet_def nat_add_distrib)

lemma pPut_state:
  "k + t + length xs \<le> length a \<Longrightarrow>
   pPut (int t) xs (ob_state a k e) = Some (ob_state (take (k + t) a @ xs @ drop (k + t + length xs) a) k e)"
  by (simp add: pPut_def blit_Some nat_add_distrib ob_state_def)

lemma pGet_0 [simp]: "k < length a \<Longrightarrow> pGet (ob_state a k e) 0 = Some (a ! k)"
  using pGet_state [of k 0 a e] by simp

lemma moveBy_state: "moveBy (int n) (ob_state a k e) = ob_state a (k + n div 8) (n mod 8)"
  by (simp add: moveBy_def div8_def ob_state_def zdiv_int zmod_int)

subsection \<open>Room\<close>

text \<open>An allocator that never fails, and a buffer far from the largest size.\<close>

lemma writeRoom_state:
  assumes "\<forall>n. alloc_ok al n" and "int (length a) \<le> LONG_MAX - BUFFER_INCREMENT" and "k < length a"
  shows "\<exists>x. writeRoom al (ob_state a k e) f = f (ob_state (a @ x) k e) \<and> k + 4 < length (a @ x) \<and> length x \<le> 256"
proof (cases "int k \<ge> int (length a) - 4")
  case False
  then show ?thesis by (intro exI [of _ "[]"]) (auto simp: writeRoom_def)
next
  case True
  have n: "nat (int (length a) + BUFFER_INCREMENT) = length a + 256" by (simp add: BUFFER_INCREMENT_def)
  let ?x = "map (alloc_fill al) [length a..<length a + 256]"
  have "(ob_state a k e)\<lparr>ob_buffer := Some (a @ ?x), ob_storage := int (length a) + BUFFER_INCREMENT, ob_ptr := Some (int k)\<rparr> =
      ob_state (a @ ?x) k e"
    by (simp add: ob_state_def BUFFER_INCREMENT_def)
  then show ?thesis
    using True assms by (intro exI [of _ ?x]) (simp add: writeRoom_def realloc_def n)
qed

subsection \<open>The bytes written\<close>

lemma bit_byte_ge [simp]: "8 \<le> j \<Longrightarrow> \<not> bit (x :: byte) j"
  by (simp add: impossible_bit)

lemma length_lsbTail: "n + e < 40 \<Longrightarrow> length (lsbTail v e (int (n + e))) = (n + e) div 8"
  by (auto simp: lsbTail_def)

lemma length_msbTail: "n + e < 40 \<Longrightarrow> length (msbTail v e (int (n + e))) = (n + e) div 8"
  by (auto simp: msbTail_def)

lemma lsbTail_bit:
  assumes e: "e < 8" and n: "n \<le> 32" and t: "0 < t" "t \<le> (n + e) div 8" and j: "j < 8"
  shows "bit (lsbTail (v AND mask n) e (int (n + e)) ! (t - 1)) j = (8 * t + j - e < n \<and> bit v (8 * t + j - e))"
proof -
  have "t = 1 \<or> t = 2 \<or> t = 3 \<or> t = 4" using e n t by linarith
  moreover have "8 \<le> n + e" "2 \<le> t \<Longrightarrow> 16 \<le> n + e" "3 \<le> t \<Longrightarrow> 24 \<le> n + e" "4 \<le> t \<Longrightarrow> 32 \<le> n + e" using t by linarith+
  moreover have "8 * t - e + j = 8 * t + j - e" using e t by linarith
  ultimately show ?thesis
    using e n j by (elim disjE) (auto simp: lsbTail_def bit_simps numeral_eq_Suc)
qed

lemma msbTail_nth:
  assumes e: "e < 8" and t: "0 < t" "8 * t \<le> n + e" "n \<le> 32" and j: "j < 8"
  shows "bit (msbTail V e (int (n + e)) ! (t - 1)) (7 - j) = (8 * t + j - e < 32 \<and> bit V (31 - (8 * t + j - e)))"
proof -
  have "t = 1 \<or> t = 2 \<or> t = 3 \<or> t = 4" using e t by linarith
  then show ?thesis
  proof (elim disjE)
    assume [simp]: "t = 1"
    have "16 + e + (7 - j) = 31 - (8 + j - e)" using e j by linarith
    then show ?thesis using e t j by (auto simp: msbTail_def bit_simps)
  next
    assume [simp]: "t = 2"
    have "8 + e + (7 - j) = 31 - (16 + j - e)" using e j by linarith
    then show ?thesis using e t j by (auto simp: msbTail_def bit_simps numeral_eq_Suc)
  next
    assume [simp]: "t = 3"
    have "e + (7 - j) = 31 - (24 + j - e)" using e j by linarith
    then show ?thesis using e t j by (auto simp: msbTail_def bit_simps numeral_eq_Suc)
  next
    assume [simp]: "t = 4"
    have "7 - j - (8 - e) = 31 - (32 + j - e)" "8 - e \<le> 7 - j \<longleftrightarrow> 32 + j - e < 32" using e j by linarith+
    then show ?thesis using e t j by (auto simp: msbTail_def bit_simps numeral_eq_Suc)
  qed
qed

lemma msb_value:
  assumes "n \<le> 32" and "i < 32"
  shows "bit (push_bit (32 - n) ((v :: u64) AND mask n)) (31 - i) = (i < n \<and> bit v (n - 1 - i))"
proof -
  have "i < n \<Longrightarrow> 31 - i - (32 - n) = n - 1 - i" using assms by linarith
  then show ?thesis using assms by (auto simp: bit_simps)
qed

lemma msbTail_bit:
  assumes "e < 8" and "n \<le> 32" and "0 < t" "t \<le> (n + e) div 8" and "j < 8"
  shows "bit (msbTail (push_bit (32 - n) (v AND mask n)) e (int (n + e)) ! (t - 1)) (7 - j) =
    (8 * t + j - e < n \<and> bit v (n - 1 - (8 * t + j - e)))"
proof -
  have "8 * t \<le> n + e" using assms(4) by linarith
  then show ?thesis
    using msbTail_nth [OF assms(1,3) _ assms(2,5), of "push_bit (32 - n) (v AND mask n)"]
      msb_value [OF assms(2), of "8 * t + j - e" v] assms(2) by auto
qed

text \<open>All bytes of a write: the rest of the current one and those of the tail.\<close>

definition newBytes :: "bool \<Rightarrow> byte \<Rightarrow> u64 \<Rightarrow> nat \<Rightarrow> nat \<Rightarrow> byte list" where
  "newBytes msb x v e n =
     (if msb
      then (let V = push_bit (32 - n) (v AND mask n) in (x OR ucast (drop_bit (24 + e) V)) # msbTail V e (int (n + e)))
      else (let V = v AND mask n in (x OR ucast (push_bit e V)) # lsbTail V e (int (n + e))))"

lemma length_newBytes [simp]: "e < 8 \<Longrightarrow> n \<le> 32 \<Longrightarrow> length (newBytes msb x v e n) = Suc ((n + e) div 8)"
  by (simp add: newBytes_def Let_def length_lsbTail [simplified] length_msbTail [simplified])

lemma newBytes_bit:
  assumes e: "e < 8" and n: "n \<le> 32" and i: "i < 8 * Suc ((n + e) div 8)"
    and clean: "\<And>j. e \<le> j \<Longrightarrow> j < 8 \<Longrightarrow> \<not> bitAt msb [x] j"
  shows "bitAt msb (newBytes msb x v e n) i =
    (if i < e then bitAt msb [x] i else i - e < n \<and> bit v (bitOf msb n (i - e)))"
proof (cases "i < 8")
  case True
  have x: "\<not> bit x (if msb then 7 - i else i)" if "\<not> i < e" using clean [of i] that True by (auto simp: bitAt_def split: if_splits)
  show ?thesis
  proof (cases msb)
    case True
    define V where "V = push_bit (32 - n) (v AND mask n)"
    have V: "bit V (24 + e + (7 - i)) = (\<not> i < e \<and> i - e < n \<and> bit v (n - 1 - (i - e)))"
    proof (cases "i < e")
      case True
      then show ?thesis using e n by (auto simp: V_def bit_simps)
    next
      case False
      then have "24 + e + (7 - i) = 31 - (i - e)" "i - e < 32" using \<open>i < 8\<close> by linarith+
      then show ?thesis using False msb_value [OF n, of "i - e" v] by (simp add: V_def)
    qed
    have "newBytes msb x v e n = (x OR ucast (drop_bit (24 + e) V)) # msbTail V e (int (n + e))"
      using True unfolding newBytes_def V_def Let_def by simp
    then have "bitAt msb (newBytes msb x v e n) i = (bit x (7 - i) \<or> bit V (24 + e + (7 - i)))"
      using True \<open>i < 8\<close> less_imp_diff_less [of 7 8 i] by (simp add: bitAt_def bit_or_iff bit_ucast_iff bit_drop_bit_eq)
    then show ?thesis using V x True \<open>i < 8\<close> by (auto simp: bitAt_def bitOf_def)
  next
    case False
    then show ?thesis using x \<open>i < 8\<close> e n by (auto simp: bitAt_def newBytes_def bitOf_def Let_def bit_simps)
  qed
next
  case False
  define t where "t = i div 8"
  have t: "0 < t" "t \<le> (n + e) div 8" using False i by (auto simp: t_def)
  have m: "i mod 8 < 8" "8 * t + i mod 8 - e = i - e" by (simp_all add: t_def)
  have nth: "newBytes msb x v e n ! t = (if msb then msbTail (push_bit (32 - n) (v AND mask n)) e (int (n + e)) ! (t - 1)
      else lsbTail (v AND mask n) e (int (n + e)) ! (t - 1))"
    using t by (simp add: newBytes_def Let_def)
  show ?thesis
    using False e lsbTail_bit [OF e n t m(1), of v] msbTail_bit [OF e n t m(1), of v]
    by (simp add: bitAt_def bitOf_def t_def [symmetric] nth m(2))
qed

subsection \<open>Writing\<close>

text \<open>The buffer after the bytes are stored.\<close>

definition putBytes :: "byte list \<Rightarrow> nat \<Rightarrow> byte list \<Rightarrow> byte list" where
  "putBytes a k xs = take k a @ xs @ drop (k + length xs) a"

lemma length_putBytes [simp]: "k + length xs \<le> length a \<Longrightarrow> length (putBytes a k xs) = length a"
  by (simp add: putBytes_def)

lemma bitAt_putBytes:
  assumes "k + length xs \<le> length a"
  shows "i < 8 * k \<Longrightarrow> bitAt msb (putBytes a k xs) i = bitAt msb a i"
    and "i < 8 * length xs \<Longrightarrow> bitAt msb (putBytes a k xs) (8 * k + i) = bitAt msb xs i"
proof -
  show "bitAt msb (putBytes a k xs) i = bitAt msb a i" if "i < 8 * k"
  proof -
    have "i div 8 < k" using that by linarith
    then show ?thesis using assms by (simp add: bitAt_def putBytes_def nth_append)
  qed
  show "bitAt msb (putBytes a k xs) (8 * k + i) = bitAt msb xs i" if "i < 8 * length xs"
  proof -
    have "i div 8 < length xs" using that by linarith
    then show ?thesis using assms by (simp add: bitAt_def putBytes_def nth_append)
  qed
qed

definition packWrite :: "bool \<Rightarrow> allocator \<Rightarrow> oggpack_buffer \<Rightarrow> u64 \<Rightarrow> int \<Rightarrow> oggpack_buffer option" where
  "packWrite msb = (if msb then oggpackB_write else oggpack_write)"

lemma write_bytes:
  assumes "e < 8" and "n \<le> 32" and k: "k + 4 < length a"
  shows "Option.bind (pPut 0 [hd (newBytes msb (a ! k) v e n)] (ob_state a k e)) (\<lambda>b.
     Option.bind (pPut 1 (tl (newBytes msb (a ! k) v e n)) b) (\<lambda>b. Some (moveBy (int n + int e) b))) =
   Some (ob_state (putBytes a k (newBytes msb (a ! k) v e n)) (k + (n + e) div 8) ((n + e) mod 8))"
proof -
  obtain y ys where nb: "newBytes msb (a ! k) v e n = y # ys"
    using length_newBytes [OF assms(1,2), of msb "a ! k" v] by (cases "newBytes msb (a ! k) v e n") simp_all
  have l: "length ys = (n + e) div 8" using length_newBytes [OF assms(1,2), of msb "a ! k" v] nb by simp
  then have le: "length ys \<le> 4" using assms by linarith
  let ?a = "take k a @ [y] @ drop (Suc k) a"
  have "pPut 0 [y] (ob_state a k e) = Some (ob_state ?a k e)" using pPut_state [of k 0 "[y]" a e] k by simp
  moreover have "pPut 1 ys (ob_state ?a k e) = Some (ob_state (take (Suc k) ?a @ ys @ drop (Suc k + length ys) ?a) k e)"
    using pPut_state [of k 1 ys ?a e] k le by simp
  moreover have "take (Suc k) ?a @ ys @ drop (Suc k + length ys) ?a = putBytes a k (y # ys)"
    using k le by (simp add: putBytes_def add.commute)
  ultimately show ?thesis
    using moveBy_state [of "n + e" "putBytes a k (y # ys)" k e] by (simp add: nb)
qed

lemma packWrite_eq:
  assumes "\<forall>n. alloc_ok al n" and "int (length a) \<le> LONG_MAX - BUFFER_INCREMENT" and "k < length a"
    and e: "e < 8" and n: "n \<le> 32"
  shows "\<exists>x. packWrite msb al (ob_state a k e) v (int n) =
     Some (ob_state (putBytes (a @ x) k (newBytes msb (a ! k) v e n)) (k + (n + e) div 8) ((n + e) mod 8)) \<and>
     k + 4 < length (a @ x) \<and> length x \<le> 256"
proof -
  define f where "f = (\<lambda>b. Option.bind (rd mask_table n) (\<lambda>m.
        let value = (if msb then push_bit (nat (32 - int n)) (v AND m) else v AND m);
            endbit = nat (ob_endbit b); bits = int n + ob_endbit b
        in Option.bind (pGet b 0) (\<lambda>x.
           Option.bind (pPut 0 [x OR ucast (if msb then drop_bit (24 + endbit) value else push_bit endbit value)] b) (\<lambda>b.
           Option.bind (pPut 1 (if msb then msbTail value endbit bits else lsbTail value endbit bits) b) (\<lambda>b.
             Some (moveBy bits b))))))"
  obtain x where x: "writeRoom al (ob_state a k e) f = f (ob_state (a @ x) k e)" "k + 4 < length (a @ x)" "length x \<le> 256"
    using writeRoom_state [OF assms(1-3)] by blast
  have "packWrite msb al (ob_state a k e) v (int n) = writeRoom al (ob_state a k e) f"
    using n by (cases msb) (simp_all add: packWrite_def oggpack_write_def oggpackB_write_def f_def)
  moreover have "f (ob_state (a @ x) k e) =
      Some (ob_state (putBytes (a @ x) k (newBytes msb (a ! k) v e n)) (k + (n + e) div 8) ((n + e) mod 8))"
  proof -
    have ak: "(a @ x) ! k = a ! k" using assms(3) by (simp add: nth_append)
    have "nat (32 - int n) = 32 - n" by simp
    then have "f (ob_state (a @ x) k e) = Option.bind (pPut 0 [hd (newBytes msb (a ! k) v e n)] (ob_state (a @ x) k e)) (\<lambda>b.
        Option.bind (pPut 1 (tl (newBytes msb (a ! k) v e n)) b) (\<lambda>b. Some (moveBy (int n + int e) b)))"
      unfolding f_def mask_table_eq [OF n] using assms(3) ak
      by (cases msb) (simp_all add: newBytes_def Let_def)
    then show ?thesis using write_bytes [OF e n x(2), of msb v] ak by simp
  qed
  ultimately show ?thesis using x by auto
qed

lemma packWrite_appends:
  assumes al: "\<forall>n. alloc_ok al n" and len: "int (length a) \<le> LONG_MAX - BUFFER_INCREMENT"
    and w: "writing msb a k e" and n: "n \<le> 32"
  shows "\<exists>a' k' e'. packWrite msb al (ob_state a k e) v (int n) = Some (ob_state a' k' e') \<and> writing msb a' k' e' \<and>
    8 * k' + e' = 8 * k + e + n \<and> length a' \<le> length a + 256 \<and>
    (\<forall>i < 8 * k + e. bitAt msb a' i = bitAt msb a i) \<and>
    (\<forall>i < n. bitAt msb a' (8 * k + e + i) = bit v (bitOf msb n i))"
proof -
  have e: "e < 8" and k: "k < length a" using w by (simp_all add: writing_def)
  let ?new = "newBytes msb (a ! k) v e n" and ?m = "(n + e) div 8"
  obtain x where pw: "packWrite msb al (ob_state a k e) v (int n) =
     Some (ob_state (putBytes (a @ x) k ?new) (k + ?m) ((n + e) mod 8))"
    and room: "k + 4 < length (a @ x)" "length x \<le> 256"
    using packWrite_eq [OF al len k e n] by blast
  let ?a = "putBytes (a @ x) k ?new"
  have fit: "k + length ?new \<le> length (a @ x)" using room e n by simp
  have old: "bitAt msb [a ! k] j = bitAt msb a (8 * k + j)" if "j < 8" for j using that by (simp add: bitAt_def)
  have clean: "\<not> bitAt msb [a ! k] j" if "e \<le> j" "j < 8" for j
    using w that old [of j] by (simp add: writing_def)
  have bits: "bitAt msb ?a (8 * k + i) = (if i < e then bitAt msb a (8 * k + i) else i - e < n \<and> bit v (bitOf msb n (i - e)))"
    if "i < 8 * Suc ?m" for i
    using bitAt_putBytes(2) [OF fit, of i msb] newBytes_bit [OF e n that clean] that old [of i] e n by auto
  have before: "bitAt msb ?a i = bitAt msb a i" if "i < 8 * k + e" for i
  proof (cases "i < 8 * k")
    case True
    then have "i div 8 < length a" using k by linarith
    then have "bitAt msb (a @ x) i = bitAt msb a i" by (simp add: bitAt_def nth_append)
    with True show ?thesis using bitAt_putBytes(1) [OF fit] by simp
  next
    case False
    then have "i - 8 * k < e" "8 * k + (i - 8 * k) = i" using that by linarith+
    then show ?thesis using bits [of "i - 8 * k"] e by simp
  qed
  have new: "bitAt msb ?a (8 * k + e + i) = bit v (bitOf msb n i)" if "i < n" for i
  proof -
    have "e + i < n + e" using that by simp
    moreover have "N < 8 * Suc (N div 8)" for N :: nat by presburger
    ultimately have "e + i < 8 * Suc ?m" by (rule less_trans)
    with that show ?thesis using bits [of "e + i"] by (simp add: add.assoc)
  qed
  have "writing msb ?a (k + ?m) ((n + e) mod 8)"
    unfolding writing_def
  proof (intro conjI allI impI)
    show "(n + e) mod 8 < 8" by simp
    show "k + ?m < length ?a" using fit room e n by simp
    fix i assume i: "8 * (k + ?m) + (n + e) mod 8 \<le> i" "i < 8 * (k + ?m) + 8"
    define m r where "m = (n + e) div 8" and "r = (n + e) mod 8"
    have "n + e = 8 * m + r" "r < 8" by (simp_all add: m_def r_def)
    moreover have "8 * (k + m) + r \<le> i" "i < 8 * (k + m) + 8" using i by (simp_all only: m_def r_def)
    moreover from this have "8 * k \<le> i" by presburger
    then obtain d where d: "i = 8 * k + d" using le_Suc_ex by blast
    ultimately have *: "n + e \<le> d" "d < 8 * Suc m" by (simp_all add: algebra_simps)
    then show "\<not> bitAt msb ?a i" using bits [of d] unfolding d by (auto simp: m_def)
  qed
  moreover have "8 * (k + ?m) + (n + e) mod 8 = 8 * k + e + n"
    using mult_div_mod_eq [of 8 "n + e"] by (simp only: distrib_left)
  moreover have "length ?a \<le> length a + 256" using fit room by simp
  ultimately show ?thesis using pw before new by blast
qed

subsection \<open>Reading\<close>

lemma shl_bit: "i < 32 \<Longrightarrow> bit (shl x s) i = (s \<le> i \<and> bit x (i - s))"
  by (auto simp: shl_def bit_simps)

lemma shr_bit: "i < 32 \<Longrightarrow> bit (shr x s) i = bit x (s + i)"
  by (auto simp: shr_def bit_simps dest: bit_imp_le_length)

definition packGather :: "bool \<Rightarrow> oggpack_buffer \<Rightarrow> int \<Rightarrow> u64 option" where
  "packGather msb = (if msb then msbGather else lsbGather)"

lemma pick_lsb:
  assumes "m < 40"
  shows "(bit (f 0) m \<or> (8 \<le> m \<and> bit (f 1) (m - 8)) \<or> (16 \<le> m \<and> bit (f 2) (m - 16)) \<or>
    (24 \<le> m \<and> bit (f 3) (m - 24)) \<or> (32 \<le> m \<and> bit (f 4) (m - 32))) = bit ((f :: nat \<Rightarrow> byte) (m div 8)) (m mod 8)"
proof -
  define r where "r = m mod 8"
  have "m div 8 = 0 \<or> m div 8 = 1 \<or> m div 8 = 2 \<or> m div 8 = 3 \<or> m div 8 = 4" using assms by linarith
  moreover have "m = 8 * (m div 8) + r" "r < 8" by (simp_all add: r_def)
  ultimately show ?thesis unfolding r_def [symmetric] by (elim disjE) (simp_all add: impossible_bit)
qed

lemma pick_msb:
  assumes "m < 40"
  shows "((m \<le> 7 \<and> bit (f 0) (7 - m)) \<or> (m \<le> 15 \<and> bit (f 1) (15 - m)) \<or> (m \<le> 23 \<and> bit (f 2) (23 - m)) \<or>
    (m \<le> 31 \<and> bit (f 3) (31 - m)) \<or> bit (f 4) (39 - m)) = bit ((f :: nat \<Rightarrow> byte) (m div 8)) (7 - m mod 8)"
proof -
  define r where "r = m mod 8"
  have "m div 8 = 0 \<or> m div 8 = 1 \<or> m div 8 = 2 \<or> m div 8 = 3 \<or> m div 8 = 4" using assms by linarith
  moreover have "m = 8 * (m div 8) + r" "r < 8" by (simp_all add: r_def)
  ultimately show ?thesis unfolding r_def [symmetric] by (elim disjE) (simp_all add: impossible_bit)
qed

lemma orNext_state:
  "(c \<Longrightarrow> k + t < length a) \<Longrightarrow>
   orNext (ob_state a k e) c (int t) f rest ret = (if c then rest (ret OR f (a ! (k + t))) else Some ret)"
  by (simp add: orNext_def)

text \<open>The bits gathered, counted from the start of the current byte.\<close>

lemma packGather_eq:
  assumes e: "e < 8" and n: "n \<le> 32" and k: "k < length a" and fit: "8 * k + e + n \<le> 8 * length a"
    and N: "N = int n + int e"
  shows "packGather msb (ob_state a k e) N =
    (let f = (\<lambda>t. a ! (k + t)); r0 = (if msb then shl (f 0) (24 + e) else shr (f 0) e);
         r1 = r0 OR (if msb then shl (f 1) (16 + e) else shl (f 1) (8 - e));
         r2 = r1 OR (if msb then shl (f 2) (8 + e) else shl (f 2) (16 - e));
         r3 = r2 OR (if msb then shl (f 3) e else shl (f 3) (24 - e));
         r4 = r3 OR (if msb then shr (f 4) (8 - e) else shl (f 4) (32 - e))
     in Some (if n + e > 32 then r4 else if n + e > 24 then r3 else if n + e > 16 then r2 else if n + e > 8 then r1 else r0))"
proof -
  have "N > 8 \<Longrightarrow> k + 1 < length a" "N > 16 \<Longrightarrow> k + 2 < length a" "N > 24 \<Longrightarrow> k + 3 < length a"
    "N > 32 \<and> e \<noteq> 0 \<Longrightarrow> k + 4 < length a"
    using fit N by linarith+
  note o = orNext_state [where t = 1, OF this(1)] orNext_state [where t = 2, OF this(2)]
    orNext_state [where t = 3, OF this(3)] orNext_state [where t = 4, OF this(4)]
  have c: "N > 8 \<longleftrightarrow> n + e > 8" "N > 16 \<longleftrightarrow> n + e > 16" "N > 24 \<longleftrightarrow> n + e > 24" "N > 32 \<and> e \<noteq> 0 \<longleftrightarrow> n + e > 32"
    using N n by linarith+
  show ?thesis
    using k o by (cases msb) (auto simp: packGather_def msbGather_def lsbGather_def Let_def c [symmetric] N)
qed

text \<open>The bits gathered are the bits of the stream, from the top of the word for the most significant
  bit first.\<close>

lemma bit_gathered:
  "bit (if N > 32 then (((r0 OR x1) OR x2) OR x3) OR x4 else if N > 24 then ((r0 OR x1) OR x2) OR x3 else if N > 16 then (r0 OR x1) OR x2
        else if N > 8 then r0 OR x1 else (r0 :: u64)) j =
   (bit r0 j \<or> (8 < (N :: nat) \<and> bit x1 j) \<or> (16 < N \<and> bit x2 j) \<or> (24 < N \<and> bit x3 j) \<or> (32 < N \<and> bit x4 j))"
  by (auto simp: bit_or_iff)

lemma packGather_bits:
  assumes e: "e < 8" and n: "n \<le> 32" and k: "k < length a" and fit: "8 * k + e + n \<le> 8 * length a"
  shows "\<exists>r. packGather msb (ob_state a k e) (int n + int e) = Some r \<and>
    (\<forall>i < n. bit r (if msb then 31 - i else i) = bitAt msb a (8 * k + e + i))"
proof -
  define f where "f = (\<lambda>t. a ! (k + t))"
  have at: "bitAt msb a (8 * k + e + i) = bit (f ((e + i) div 8)) (if msb then 7 - (e + i) mod 8 else (e + i) mod 8)" for i
    by (simp add: bitAt_def f_def add.assoc)
  show ?thesis
  proof (cases msb)
    case True
    have at': "bitAt True a (8 * k + e + i) = bit (f ((e + i) div 8)) (7 - (e + i) mod 8)" for i using at [of i] True by simp
    have *: "(bit (shl (f 0) (24 + e)) (31 - i) \<or> (8 < n + e \<and> bit (shl (f 1) (16 + e)) (31 - i)) \<or>
        (16 < n + e \<and> bit (shl (f 2) (8 + e)) (31 - i)) \<or> (24 < n + e \<and> bit (shl (f 3) e) (31 - i)) \<or>
        (32 < n + e \<and> bit (shr (f 4) (8 - e)) (31 - i))) = bit (f ((e + i) div 8)) (7 - (e + i) mod 8)" if "i < n" for i
    proof -
      define m where "m = e + i"
      have m: "m < n + e" "m < 40" using that e n by (simp_all add: m_def)
      have "bit (shl (f 0) (24 + e)) (31 - i) = (m \<le> 7 \<and> bit (f 0) (7 - m))"
        using that n by (auto simp: shl_bit m_def add.commute)
      moreover have "(8 < n + e \<and> bit (shl (f 1) (16 + e)) (31 - i)) = (m \<le> 15 \<and> bit (f 1) (15 - m))"
      proof (cases "8 < n + e")
        case True
        then show ?thesis using that n by (auto simp: shl_bit m_def add.commute)
      next
        case False
        then have "8 \<le> 15 - m" using m by linarith
        then show ?thesis using False by simp
      qed
      moreover have "(16 < n + e \<and> bit (shl (f 2) (8 + e)) (31 - i)) = (m \<le> 23 \<and> bit (f 2) (23 - m))"
      proof (cases "16 < n + e")
        case True
        then show ?thesis using that n by (auto simp: shl_bit m_def add.commute)
      next
        case False
        then have "8 \<le> 23 - m" using m by linarith
        then show ?thesis using False by simp
      qed
      moreover have "(24 < n + e \<and> bit (shl (f 3) e) (31 - i)) = (m \<le> 31 \<and> bit (f 3) (31 - m))"
      proof (cases "24 < n + e")
        case True
        then show ?thesis using that n by (auto simp: shl_bit m_def add.commute)
      next
        case False
        then have "8 \<le> 31 - m" using m by linarith
        then show ?thesis using False by simp
      qed
      moreover have "(32 < n + e \<and> bit (shr (f 4) (8 - e)) (31 - i)) = bit (f 4) (39 - m)"
      proof (cases "32 < n + e")
        case True
        have "8 - e + (31 - i) = 39 - m" using that e n by (simp add: m_def)
        then show ?thesis using True that n by (simp add: shr_bit)
      next
        case False
        then have "8 \<le> 39 - m" using m by linarith
        then show ?thesis using False by simp
      qed
      ultimately show ?thesis using pick_msb [OF m(2), of f] unfolding m_def [symmetric] by simp
    qed
    then show ?thesis
      unfolding packGather_eq [OF e n k fit refl] Let_def f_def [symmetric] using True
      by (simp only: at if_True bit_gathered simp_thms option.inject)
         (use * in \<open>simp add: at'\<close>)
  next
    case False
    have at': "bitAt False a (8 * k + e + i) = bit (f ((e + i) div 8)) ((e + i) mod 8)" for i using at [of i] False by simp
    have *: "(bit (shr (f 0) e) i \<or> (8 < n + e \<and> bit (shl (f 1) (8 - e)) i) \<or>
        (16 < n + e \<and> bit (shl (f 2) (16 - e)) i) \<or> (24 < n + e \<and> bit (shl (f 3) (24 - e)) i) \<or>
        (32 < n + e \<and> bit (shl (f 4) (32 - e)) i)) = bit (f ((e + i) div 8)) ((e + i) mod 8)" if "i < n" for i
    proof -
      define m where "m = e + i"
      have m: "m < n + e" "m < 40" "i = m - e" "e \<le> m" using that e n by (simp_all add: m_def)
      have "bit (shr (f 0) e) i = bit (f 0) m"
        "(8 < n + e \<and> bit (shl (f 1) (8 - e)) i) = (8 \<le> m \<and> bit (f 1) (m - 8))"
        "(16 < n + e \<and> bit (shl (f 2) (16 - e)) i) = (16 \<le> m \<and> bit (f 2) (m - 16))"
        "(24 < n + e \<and> bit (shl (f 3) (24 - e)) i) = (24 \<le> m \<and> bit (f 3) (m - 24))"
        "(32 < n + e \<and> bit (shl (f 4) (32 - e)) i) = (32 \<le> m \<and> bit (f 4) (m - 32))"
        using that e n by (auto simp: shl_bit shr_bit m_def add.commute)
      then show ?thesis using pick_lsb [OF m(2), of f] unfolding m_def [symmetric] by simp
    qed
    then show ?thesis
      unfolding packGather_eq [OF e n k fit refl] Let_def f_def [symmetric] using False
      by (simp only: at if_False bit_gathered simp_thms option.inject)
         (use * in \<open>simp add: at'\<close>)
  qed
qed

definition packRead :: "bool \<Rightarrow> oggpack_buffer \<Rightarrow> int \<Rightarrow> (int \<times> oggpack_buffer) option" where
  "packRead msb = (if msb then oggpackB_read else oggpack_read)"

lemma sint_uint_low: "\<not> bit (w :: u64) 63 \<Longrightarrow> sint w = uint w"
proof (rule bit_eqI)
  fix j assume w: "\<not> bit w 63"
  show "bit (sint w) j = bit (uint w) j"
  proof (cases "j < 63")
    case True
    then show ?thesis by (simp add: bit_sint_iff bit_uint_iff)
  next
    case False
    then have "\<not> bit w j" using w bit_imp_le_length [of w j] by (cases "j = 63") auto
    then show ?thesis using False w by (simp add: bit_sint_iff bit_uint_iff)
  qed
qed

definition packMask :: "bool \<Rightarrow> nat \<Rightarrow> u64 \<Rightarrow> u64" where
  "packMask msb n r = (if msb then msbResult (32 - int n) r else r AND mask n)"

lemma msbResult_bit:
  assumes "n \<le> 32"
  shows "bit (msbResult (32 - int n) r) j = (j < n \<and> bit r (32 - n + j))"
proof -
  have m: "nat ((32 - int n + 1) div 2) = (33 - n) div 2" "nat ((32 - int n) div 2) = (32 - n) div 2" using assms by linarith+
  have "(32 - n) div 2 + ((33 - n) div 2 + j) = 32 - n + j" using assms by linarith
  moreover have ff: "(0xffffffff :: u64) = mask 32" by (simp add: mask_eq_exp_minus_1)
  moreover have "32 - n + j < 32 \<longleftrightarrow> j < n" using assms by linarith
  ultimately have "bit (drop_bit ((33 - n) div 2) (drop_bit ((32 - n) div 2) (r AND mask 32))) j = (j < n \<and> bit r (32 - n + j))"
    by (simp only: bit_drop_bit_eq o_def bit_and_iff bit_mask_iff) auto
  then show ?thesis unfolding msbResult_def m ff .
qed

lemma packMask_bits:
  assumes n: "n \<le> 32"
  shows "i < n \<Longrightarrow> bit (packMask msb n r) (bitOf msb n i) = bit r (if msb then 31 - i else i)"
    and "n \<le> j \<Longrightarrow> \<not> bit (packMask msb n r) j"
proof -
  show "bit (packMask msb n r) (bitOf msb n i) = bit r (if msb then 31 - i else i)" if "i < n"
  proof -
    have "32 - n + (n - Suc i) = 31 - i" using that n by linarith
    then show ?thesis using that n by (auto simp: packMask_def bitOf_def msbResult_bit bit_simps)
  qed
  show "\<not> bit (packMask msb n r) j" if "n \<le> j"
    using that n by (auto simp: packMask_def msbResult_bit bit_simps)
qed

lemma nearEnd_state: "nearEnd (ob_state a k e) (int n + int e) \<longleftrightarrow> 8 * length a < 8 * k + e + n"
proof -
  have "(int n + int e + 7) div 8 = int ((n + e + 7) div 8)" by (simp add: zdiv_int)
  then show ?thesis unfolding nearEnd_def by (simp del: of_nat_add) linarith
qed

lemma packRead_eq:
  assumes "n \<le> 32"
  shows "packRead msb (ob_state a k e) (int n) =
    (if length a \<le> k + 4 \<and> 8 * length a < 8 * k + e + n then Some (-1, overflow (ob_state a k e))
     else if length a \<le> k + 4 \<and> n + e = 0 then Some (0, ob_state a k e)
     else Option.bind (packGather msb (ob_state a k e) (int n + int e)) (\<lambda>r.
       Some (sint (packMask msb n r), ob_state a (k + (n + e) div 8) ((n + e) mod 8))))"
proof -
  have "int k \<ge> int (length a) - 4 \<longleftrightarrow> length a \<le> k + 4" "int k + 4 \<ge> int (length a) \<longleftrightarrow> length a \<le> k + 4"
    "int n + int e = 0 \<longleftrightarrow> n + e = 0" by linarith+
  moreover have "moveBy (int n + int e) (ob_state a k e) = ob_state a (k + (n + e) div 8) ((n + e) mod 8)"
    using moveBy_state [of "n + e"] by simp
  ultimately show ?thesis
    using assms mask_table_eq [OF assms]
    by (cases msb) (simp_all add: packRead_def oggpack_read_def oggpackB_read_def Let_def nearEnd_state packGather_def packMask_def)
qed

lemma packRead_bits:
  assumes e: "e < 8" and n: "n \<le> 32" and fit: "8 * k + e + n \<le> 8 * length a"
  shows "\<exists>w. packRead msb (ob_state a k e) (int n) = Some (uint w, ob_state a (k + (n + e) div 8) ((n + e) mod 8)) \<and>
    (\<forall>i < n. bit w (bitOf msb n i) = bitAt msb a (8 * k + e + i)) \<and> (\<forall>j \<ge> n. \<not> bit (w :: u64) j)"
proof (cases "length a \<le> k + 4 \<and> n + e = 0")
  case True
  then show ?thesis using fit packRead_eq [OF n, of msb a k e] by (intro exI [of _ 0]) simp
next
  case False
  then have k: "k < length a" using fit by (cases "n + e = 0") auto
  obtain r where r: "packGather msb (ob_state a k e) (int n + int e) = Some r"
    "\<forall>i < n. bit r (if msb then 31 - i else i) = bitAt msb a (8 * k + e + i)"
    using packGather_bits [OF e n k fit] by blast
  let ?w = "packMask msb n r"
  have "\<not> bit ?w 63" using packMask_bits(2) [OF n, of 63] n by simp
  then have "packRead msb (ob_state a k e) (int n) = Some (uint ?w, ob_state a (k + (n + e) div 8) ((n + e) mod 8))"
    using False fit by (auto simp: packRead_eq [OF n] r(1) sint_uint_low)
  then show ?thesis using packMask_bits [OF n] r(2) by blast
qed

lemma packRead_past:
  assumes "n \<le> 32" and "8 * length a < 8 * k + e + n" and "e < 8"
  shows "packRead msb (ob_state a k e) (int n) = Some (-1, overflow (ob_state a k e))"
  using assms by (auto simp: packRead_eq)

end
