(* ===== verification/OggPackStream.thy ===== *)
theory OggPackStream
  imports OggPackBits
begin

text \<open>
  The contract of the bit packer: reading is taking bits off the front of a list, whatever the
  sequence of calls, and ends for good at the first call that asks for more than there is; what was
  written is read back. The block copy does not keep it: it gives the buffer up where it should grow.
\<close>

subsection \<open>A list of bits\<close>

definition packBits :: "bool \<Rightarrow> nat \<Rightarrow> u64 \<Rightarrow> bool list" where
  "packBits msb n v = map (\<lambda>i. bit v (bitOf msb n i)) [0..<n]"

definition packVal :: "bool \<Rightarrow> bool list \<Rightarrow> int" where
  "packVal msb xs = horner_sum of_bool 2 (if msb then rev xs else xs)"

definition streamBits :: "bool \<Rightarrow> byte list \<Rightarrow> bool list" where
  "streamBits msb a = map (bitAt msb a) [0..<8 * length a]"

lemma length_packBits [simp]: "length (packBits msb n v) = n"
  by (simp add: packBits_def)

lemma bit_uint [simp]: "bit (uint (w :: u64)) j = bit w j"
  by (auto simp: bit_uint_iff dest: bit_imp_le_length)

lemma packVal_unique:
  assumes "\<And>i. i < length xs \<Longrightarrow> bit w (bitOf msb (length xs) i) = xs ! i" and "\<And>j. length xs \<le> j \<Longrightarrow> \<not> bit w j"
  shows "packVal msb xs = uint (w :: u64)"
proof (rule bit_eqI)
  fix j
  show "bit (packVal msb xs) j = bit (uint w) j"
  proof (cases "j < length xs")
    case True
    then show ?thesis
      using assms(1) [of "if msb then length xs - 1 - j else j"]
      by (auto simp: packVal_def bit_horner_sum_bit_iff bitOf_def rev_nth)
  next
    case False
    then show ?thesis using assms(2) [of j] by (simp add: packVal_def bit_horner_sum_bit_iff)
  qed
qed

lemma packVal_packBits:
  assumes "n \<le> 32"
  shows "packVal msb (packBits msb n v) = uint (v AND mask n)"
proof (rule packVal_unique)
  show "bit (v AND mask n) (bitOf msb (length (packBits msb n v)) i) = packBits msb n v ! i"
    if "i < length (packBits msb n v)" for i
    using that assms by (auto simp: packBits_def bitOf_def bit_simps dest: bit_imp_le_length)
  show "\<not> bit (v AND mask n) j" if "length (packBits msb n v) \<le> j" for j
    using that by (simp add: bit_simps)
qed

subsection \<open>The calls of a reader\<close>

datatype pop = Bits int | Look int | One | LookOne | Skip nat

definition packLook :: "bool \<Rightarrow> oggpack_buffer \<Rightarrow> int \<Rightarrow> int option" where
  "packLook msb = (if msb then oggpackB_look else oggpack_look)"

fun packStep :: "bool \<Rightarrow> pop \<Rightarrow> oggpack_buffer \<Rightarrow> (int \<times> oggpack_buffer) option" where
  "packStep msb (Bits n) b = packRead msb b n"
| "packStep msb (Look n) b = map_option (\<lambda>v. (v, b)) (packLook msb b n)"
| "packStep msb One b = (if msb then oggpackB_read1 b else oggpack_read1 b)"
| "packStep msb LookOne b = map_option (\<lambda>v. (v, b)) (if msb then oggpackB_look1 b else oggpack_look1 b)"
| "packStep msb (Skip n) b = Some (0, if msb then oggpackB_adv b (int n) else oggpack_adv b (int n))"

fun packRun :: "bool \<Rightarrow> pop list \<Rightarrow> oggpack_buffer \<Rightarrow> int list option" where
  "packRun msb [] b = Some []"
| "packRun msb (p # ps) b = Option.bind (packStep msb p b) (\<lambda>(v, b). map_option ((#) v) (packRun msb ps b))"

text \<open>The same calls on a list of bits; \<open>None\<close> once a call has asked for too much.\<close>

definition specTake :: "bool \<Rightarrow> int \<Rightarrow> bool list option \<Rightarrow> int \<times> bool list option" where
  "specTake msb n s =
     (case s of None \<Rightarrow> (-1, None)
      | Some xs \<Rightarrow> if 0 \<le> n \<and> n \<le> 32 \<and> nat n \<le> length xs then (packVal msb (take (nat n) xs), Some (drop (nat n) xs))
                   else (-1, None))"

fun specStep :: "bool \<Rightarrow> pop \<Rightarrow> bool list option \<Rightarrow> int \<times> bool list option" where
  "specStep msb (Bits n) s = specTake msb n s"
| "specStep msb (Look n) s = (fst (specTake msb n s), s)"
| "specStep msb One s = specTake msb 1 s"
| "specStep msb LookOne s = (fst (specTake msb 1 s), s)"
| "specStep msb (Skip n) s = (0, Option.bind s (\<lambda>xs. if n \<le> length xs then Some (drop n xs) else None))"

fun specRun :: "bool \<Rightarrow> pop list \<Rightarrow> bool list option \<Rightarrow> int list" where
  "specRun msb [] s = []"
| "specRun msb (p # ps) s = (let (v, s) = specStep msb p s in v # specRun msb ps s)"

subsection \<open>The simulation\<close>

text \<open>A buffer stands for the bits from its position on; a failed one for none ever again.\<close>

definition dead :: "byte list \<Rightarrow> oggpack_buffer" where
  "dead a = overflow (ob_state a 0 0)"

definition stands :: "bool \<Rightarrow> byte list \<Rightarrow> oggpack_buffer \<Rightarrow> bool list option \<Rightarrow> bool" where
  "stands msb a b s \<longleftrightarrow>
     (b = dead a \<and> s = None) \<or>
     (\<exists>k e. b = ob_state a k e \<and> e < 8 \<and> 8 * k + e \<le> 8 * length a \<and> s = Some (drop (8 * k + e) (streamBits msb a)))"

lemma overflow_state [simp]: "overflow (ob_state a k e) = dead a" "overflow (dead a) = dead a"
  by (simp_all add: overflow_def dead_def ob_state_def)

lemma stands_dead [simp]: "stands msb a (dead a) None"
  by (simp add: stands_def)

lemma stands_state:
  "e < 8 \<Longrightarrow> 8 * k + e \<le> 8 * length a \<Longrightarrow> s = drop (8 * k + e) (streamBits msb a) \<Longrightarrow> stands msb a (ob_state a k e) (Some s)"
  unfolding stands_def by blast

lemma length_streamBits [simp]: "length (streamBits msb a) = 8 * length a"
  by (simp add: streamBits_def)

lemma pos_split: "8 * (k + (n + e) div 8) + (n + e) mod 8 = 8 * k + e + (n :: nat)"
  using mult_div_mod_eq [of 8 "n + e"] by (simp only: distrib_left)

lemma stands_moved:
  assumes "8 * k + e + n \<le> 8 * length a"
  shows "stands msb a (ob_state a (k + (n + e) div 8) ((n + e) mod 8)) (Some (drop n (drop (8 * k + e) (streamBits msb a))))"
  using assms by (intro stands_state) (simp_all only: pos_split, simp_all add: add.commute)

lemma packLook_read: "packLook msb b n = map_option fst (packRead msb b n)"
proof -
  have "ob_endbyte b + 4 \<ge> ob_storage b \<longleftrightarrow> ob_endbyte b \<ge> ob_storage b - 4" by linarith
  then show ?thesis
    by (auto simp: packLook_def packRead_def oggpack_look_def oggpack_read_def oggpackB_look_def oggpackB_read_def Let_def
        and.commute map_option_bind o_def intro!: arg_cong [where f = "Option.bind _"])
qed

lemma packLook1_read1: "oggpack_look1 b = map_option fst (oggpack_read1 b)" "oggpackB_look1 b = map_option fst (oggpackB_read1 b)"
  by (simp_all add: oggpack_look1_def oggpack_read1_def oggpackB_look1_def oggpackB_read1_def map_option_bind o_def)

lemma packRead_bad: "n < 0 \<or> 32 < n \<Longrightarrow> packRead msb b n = Some (-1, overflow b)"
  by (auto simp: packRead_def oggpack_read_def oggpackB_read_def)

lemma dead_simps [simp]: "ob_endbyte (dead a) = int (length a)" "ob_endbit (dead a) = 1" "ob_storage (dead a) = int (length a)"
  by (simp_all add: dead_def overflow_def)

lemma nearEnd_dead: "0 \<le> n \<Longrightarrow> nearEnd (dead a) (n + 1)"
proof -
  assume "0 \<le> n"
  then have "1 \<le> (n + 1 + 7) div 8" by presburger
  then show ?thesis unfolding nearEnd_def by simp
qed

lemma packRead_dead: "packRead msb (dead a) n = Some (-1, dead a)"
proof (cases "n < 0 \<or> 32 < n")
  case False
  then have "nearEnd (dead a) (n + 1)" "nat n \<le> 32" by (auto simp: nearEnd_dead)
  then show ?thesis
    using False mask_table_eq [of "nat n"] by (cases msb) (simp_all add: packRead_def oggpack_read_def oggpackB_read_def)
qed (simp add: packRead_bad)

lemma packRead_stands:
  assumes "stands msb a b s"
  shows "\<exists>b'. packRead msb b n = Some (fst (specTake msb n s), b') \<and> stands msb a b' (snd (specTake msb n s))"
proof (cases "s = None")
  case True
  then have "b = dead a" using assms by (auto simp: stands_def)
  then show ?thesis by (simp add: packRead_dead specTake_def True)
next
  case False
  then obtain k e where b: "b = ob_state a k e" and e: "e < 8" and pos: "8 * k + e \<le> 8 * length a"
    and s: "s = Some (drop (8 * k + e) (streamBits msb a))"
    using assms by (auto simp: stands_def)
  show ?thesis
  proof (cases "n < 0 \<or> 32 < n")
    case True
    then show ?thesis by (auto simp: b s packRead_bad specTake_def)
  next
    case ok: False
    define m where "m = nat n"
    have n: "n = int m" "m \<le> 32" using ok by (auto simp: m_def)
    show ?thesis
    proof (cases "8 * k + e + m \<le> 8 * length a")
      case True
      define xs where "xs = drop (8 * k + e) (streamBits msb a)"
      obtain w :: u64 where w: "packRead msb (ob_state a k e) (int m) = Some (uint w, ob_state a (k + (m + e) div 8) ((m + e) mod 8))"
        "\<forall>i < m. bit w (bitOf msb m i) = bitAt msb a (8 * k + e + i)" "\<forall>j \<ge> m. \<not> bit w j"
        using packRead_bits [OF e n(2) True, of msb] by blast
      have "length xs = 8 * length a - (8 * k + e)" by (simp add: xs_def)
      then have len: "m \<le> length xs" using True by linarith
      have "xs ! i = bitAt msb a (8 * k + e + i)" if "i < m" for i using that True by (simp add: xs_def streamBits_def)
      then have "packVal msb (take m xs) = uint w" using w(2,3) len by (intro packVal_unique) (simp_all add: min_absorb2)
      moreover have "specTake msb n (Some xs) = (packVal msb (take m xs), Some (drop m xs))"
        using len n by (simp add: specTake_def)
      ultimately show ?thesis
        using w(1) stands_moved [OF True, of msb] unfolding b s n(1) xs_def by simp
    next
      case False
      then have "\<not> m \<le> length (drop (8 * k + e) (streamBits msb a))" using pos by simp
      then have "specTake msb n s = (-1, None)" by (simp add: specTake_def s n)
      then show ?thesis using packRead_past [OF n(2) _ e] False by (simp add: b n(1))
    qed
  qed
qed

text \<open>A read of one bit is a read of one-bit words.\<close>

lemma one_bit:
  assumes "\<forall>j \<ge> 1. \<not> bit w j"
  shows "uint (w :: u64) = of_bool (bit w 0)"
proof -
  have "w = of_bool (bit w 0)"
  proof (rule bit_eqI)
    show "bit w j = bit (of_bool (bit w 0) :: u64) j" for j using assms by (cases "j = 0") (simp_all add: bit_of_bool_iff)
  qed
  then show ?thesis by (metis of_bool_eq_iff uint_0_eq uint_1 of_bool_eq(1,2))
qed

lemma low_bit: "uint (x AND 1 :: byte) = of_bool (bit x 0)"
  by (simp add: and_one_eq mod_2_eq_odd bit_0)

lemma read1_read:
  assumes "stands msb a b s"
  shows "(if msb then oggpackB_read1 b else oggpack_read1 b) = packRead msb b 1"
proof (cases "s = None")
  case True
  then have "b = dead a" using assms by (auto simp: stands_def)
  then show ?thesis by (simp add: packRead_dead oggpack_read1_def oggpackB_read1_def)
next
  case False
  then obtain k e where b: "b = ob_state a k e" and e: "e < 8" and pos: "8 * k + e \<le> 8 * length a"
    using assms by (auto simp: stands_def)
  show ?thesis
  proof (cases "k < length a")
    case True
    then have fit: "8 * k + e + 1 \<le> 8 * length a" using e by linarith
    have one: "(1 :: nat) \<le> 32" by simp
    obtain w :: u64 where w: "packRead msb (ob_state a k e) (int 1) = Some (uint w, ob_state a (k + (1 + e) div 8) ((1 + e) mod 8))"
        "\<forall>i < 1. bit w (bitOf msb 1 i) = bitAt msb a (8 * k + e + i)" "\<forall>j \<ge> 1. \<not> bit w j"
      using packRead_bits [OF e one fit, of msb] by blast
    have "bitAt msb a (8 * k + e) = bit (a ! k) (if msb then 7 - e else e)" using e by (simp add: bitAt_def)
    then have "bit w 0 = bit (a ! k) (if msb then 7 - e else e)" using w(2) by (cases msb) (simp_all add: bitOf_def)
    then have "uint w = uint (drop_bit (if msb then 7 - e else e) (a ! k) AND 1)"
      using one_bit [of w] w(3) by (simp add: low_bit bit_drop_bit_eq)
    moreover have "oggpack_adv1 (ob_state a k e) = ob_state a (k + (1 + e) div 8) ((1 + e) mod 8)"
    proof (cases "e = 7")
      case False
      then have "(1 + e) div 8 = 0" "(1 + e) mod 8 = 1 + e" "\<not> 7 < int e + 1" using e by simp_all
      then show ?thesis by (simp add: oggpack_adv1_def ob_state_def)
    qed (simp add: oggpack_adv1_def ob_state_def)
    moreover have "nat (7 - int e) = 7 - e" by simp
    ultimately show ?thesis
      using True w(1) by (cases msb) (simp_all add: b oggpack_read1_def oggpackB_read1_def)
  next
    case False
    then show ?thesis using pos e packRead_past [of 1 a k e msb] by (simp add: b oggpack_read1_def oggpackB_read1_def)
  qed
qed

lemma adv_stands:
  assumes "stands msb a b s"
  shows "stands msb a (oggpack_adv b (int n)) (Option.bind s (\<lambda>xs. if n \<le> length xs then Some (drop n xs) else None))"
proof (cases "s = None")
  case True
  then have "b = dead a" using assms by (auto simp: stands_def)
  then show ?thesis by (simp add: True oggpack_adv_def nearEnd_dead)
next
  case False
  then obtain k e where b: "b = ob_state a k e" and e: "e < 8" and pos: "8 * k + e \<le> 8 * length a"
    and s: "s = Some (drop (8 * k + e) (streamBits msb a))"
    using assms by (auto simp: stands_def)
  have "n \<le> length (drop (8 * k + e) (streamBits msb a)) \<longleftrightarrow> 8 * k + e + n \<le> 8 * length a" using pos by simp linarith
  then show ?thesis
    using stands_moved [of k e n a msb] moveBy_state [of "n + e" a k e]
    by (auto simp: b s oggpack_adv_def nearEnd_state Let_def)
qed

lemma packStep_refines:
  assumes "stands msb a b s"
  shows "\<exists>b'. packStep msb p b = Some (fst (specStep msb p s), b') \<and> stands msb a b' (snd (specStep msb p s))"
proof (cases p)
  case (Bits n)
  then show ?thesis using packRead_stands [OF assms] by simp
next
  case (Look n)
  then show ?thesis using packRead_stands [OF assms, of n] assms by (auto simp: packLook_read)
next
  case One
  then show ?thesis using packRead_stands [OF assms, of 1] read1_read [OF assms] by simp
next
  case LookOne
  then show ?thesis
    using packRead_stands [OF assms, of 1] read1_read [OF assms] assms by (auto simp: packLook1_read1 split: if_splits)
next
  case (Skip n)
  then show ?thesis using adv_stands [OF assms] by (cases msb) (simp_all add: oggpackB_adv_def)
qed

lemma packRun_refines: "stands msb a b s \<Longrightarrow> packRun msb ps b = Some (specRun msb ps s)"
proof (induction ps arbitrary: b s)
  case (Cons p ps)
  obtain b' where "packStep msb p b = Some (fst (specStep msb p s), b')" "stands msb a b' (snd (specStep msb p s))"
    using packStep_refines [OF Cons.prems] by blast
  then show ?case using Cons.IH by (simp add: case_prod_beta Let_def)
qed simp

lemma readinit_state: "oggpack_readinit a (int (length a)) = ob_state a 0 0"
  by (simp add: oggpack_readinit_def ob_zero_def ob_state_def)


subsection \<open>Writing and reading back\<close>

fun packWrites :: "bool \<Rightarrow> allocator \<Rightarrow> (u64 \<times> nat) list \<Rightarrow> oggpack_buffer \<Rightarrow> oggpack_buffer option" where
  "packWrites msb al [] b = Some b"
| "packWrites msb al ((v, n) # ws) b = Option.bind (packWrite msb al b v (int n)) (packWrites msb al ws)"

text \<open>The bits of a buffer before a position.\<close>

definition bitsTo :: "bool \<Rightarrow> byte list \<Rightarrow> nat \<Rightarrow> bool list" where
  "bitsTo msb a p = map (bitAt msb a) [0..<p]"

lemma bitsTo_extend:
  assumes "\<forall>i < p. bitAt msb a' i = bitAt msb a i" and "\<forall>i < n. bitAt msb a' (p + i) = bit v (bitOf msb n i)"
  shows "bitsTo msb a' (p + n) = bitsTo msb a p @ packBits msb n v"
  using assms by (intro nth_equalityI) (auto simp: bitsTo_def packBits_def nth_append dest!: spec [of _ "_ - p"])

lemma packWrites_appends:
  assumes "\<forall>n. alloc_ok al n" and "\<forall>(v, n) \<in> set ws. n \<le> 32"
  shows "writing msb a k e \<Longrightarrow> int (length a) + 256 * int (length ws) \<le> LONG_MAX - BUFFER_INCREMENT \<Longrightarrow>
    \<exists>a' k' e'. packWrites msb al ws (ob_state a k e) = Some (ob_state a' k' e') \<and> writing msb a' k' e' \<and>
      bitsTo msb a' (8 * k' + e') = bitsTo msb a (8 * k + e) @ concat (map (\<lambda>(v, n). packBits msb n v) ws)"
  using assms(2)
proof (induction ws arbitrary: a k e)
  case Nil
  then show ?case by auto
next
  case (Cons w ws)
  obtain v n where w: "w = (v, n)" by (cases w)
  have n: "n \<le> 32" and len: "int (length a) \<le> LONG_MAX - BUFFER_INCREMENT" using Cons.prems by (simp_all add: w)
  obtain a1 k1 e1 where s: "packWrite msb al (ob_state a k e) v (int n) = Some (ob_state a1 k1 e1)"
    "writing msb a1 k1 e1" and p: "8 * k1 + e1 = 8 * k + e + n" and l: "length a1 \<le> length a + 256"
    and b: "\<forall>i < 8 * k + e. bitAt msb a1 i = bitAt msb a i" "\<forall>i < n. bitAt msb a1 (8 * k + e + i) = bit v (bitOf msb n i)"
    using packWrite_appends [OF assms(1) len Cons.prems(1) n, of v] by blast
  have "int (length a1) + 256 * int (length ws) \<le> LONG_MAX - BUFFER_INCREMENT" using Cons.prems(2) l by simp
  then obtain a' k' e' where "packWrites msb al ws (ob_state a1 k1 e1) = Some (ob_state a' k' e')" "writing msb a' k' e'"
    "bitsTo msb a' (8 * k' + e') = bitsTo msb a1 (8 * k1 + e1) @ concat (map (\<lambda>(v, n). packBits msb n v) ws)"
    using Cons.IH [OF s(2)] Cons.prems(3) by auto
  moreover have "bitsTo msb a1 (8 * k1 + e1) = bitsTo msb a (8 * k + e) @ packBits msb n v"
    unfolding p by (rule bitsTo_extend [OF b])
  ultimately show ?case using s(1) by (intro exI [of _ a'] exI [of _ k'] exI [of _ e']) (simp add: w)
qed

lemma writeinit_state:
  assumes "alloc_ok al 256"
  shows "\<exists>a. oggpack_writeinit al = Some (ob_state a 0 0) \<and> length a = 256 \<and> writing msb a 0 0"
proof -
  define a where "a = 0 # map (alloc_fill al) [1..<256]"
  have "realloc al [] 256 = Some (map (alloc_fill al) [0..<256])" using assms by (simp add: realloc_def)
  moreover have "[0..<256 :: nat] = 0 # [1..<256]" by (simp add: upt_conv_Cons)
  ultimately have "oggpack_writeinit al = Some (ob_state a 0 0)"
    by (simp add: oggpack_writeinit_def BUFFER_INCREMENT_def pPut_def blit_Some ob_zero_def ob_state_def a_def)
  moreover have "writing msb a 0 0" by (simp add: writing_def a_def bitAt_def)
  ultimately show ?thesis by (intro exI [of _ a]) (simp add: a_def)
qed

text \<open>The bytes of a stream, as a packet is taken from it.\<close>

lemma streamBits_written:
  assumes "writing msb a k e"
  shows "\<exists>pad. streamBits msb (take (nat (oggpack_bytes (ob_state a k e))) a) = bitsTo msb a (8 * k + e) @ pad \<and>
    oggpack_bytes (ob_state a k e) = int (length (take (nat (oggpack_bytes (ob_state a k e))) a))"
proof -
  define B where "B = k + (e + 7) div 8"
  have e: "e < 8" and k: "k < length a" using assms by (simp_all add: writing_def)
  have B: "oggpack_bytes (ob_state a k e) = int B" by (simp add: oggpack_bytes_def div8_def B_def zdiv_int)
  have le: "B \<le> length a" "8 * k + e \<le> 8 * B" using e k by (cases "e = 0"; simp add: B_def; linarith)+
  have "bitAt msb (take B a) i = bitAt msb a i" if "i < 8 * B" for i
  proof -
    have "i div 8 < B" using that by linarith
    then show ?thesis using le by (simp add: bitAt_def)
  qed
  then have "streamBits msb (take B a) = bitsTo msb a (8 * B)" using le by (simp add: streamBits_def bitsTo_def min_absorb2)
  also have "bitsTo msb a (8 * B) = bitsTo msb a (8 * k + e) @ map (bitAt msb a) [8 * k + e..<8 * B]"
    using le upt_add_eq_append [of 0 "8 * k + e" "8 * B - (8 * k + e)"] by (simp add: bitsTo_def flip: map_append)
  finally show ?thesis using le by (auto simp: B min_absorb2)
qed

lemma specRun_written:
  assumes "\<forall>(v, n) \<in> set ws. n \<le> 32"
  shows "specRun msb (map (\<lambda>(v, n). Bits (int n)) ws) (Some (concat (map (\<lambda>(v, n). packBits msb n v) ws) @ pad)) =
    map (\<lambda>(v, n). uint (v AND mask n)) ws"
  using assms by (induction ws) (auto simp: specTake_def packVal_packBits)

text \<open>C16: Whatever sequence of words of at most 32 bits each is written to a fresh packer of either bit order, while
  memory lasts, the bytes of the stream read back with the same widths are the words written, each
  cut to its width.\<close>

theorem pack_round_trip:
  assumes "\<forall>n. alloc_ok al n" and "\<forall>(v, n) \<in> set ws. n \<le> 32" and "256 * int (length ws) + 512 \<le> LONG_MAX"
  shows "\<exists>b a. Option.bind (oggpack_writeinit al) (packWrites msb al ws) = Some b \<and> oggpack_get_buffer b = Some a \<and>
    packRun msb (map (\<lambda>(v, n). Bits (int n)) ws) (oggpack_readinit (take (nat (oggpack_bytes b)) a) (oggpack_bytes b)) =
      Some (map (\<lambda>(v, n). uint (v AND mask n)) ws)"
proof -
  obtain a0 where init: "oggpack_writeinit al = Some (ob_state a0 0 0)" "length a0 = 256" "writing msb a0 0 0"
    using writeinit_state assms(1) by blast
  have "int (length a0) + 256 * int (length ws) \<le> LONG_MAX - BUFFER_INCREMENT"
    using assms(3) by (simp add: init(2) BUFFER_INCREMENT_def)
  then obtain a k e where w: "packWrites msb al ws (ob_state a0 0 0) = Some (ob_state a k e)" "writing msb a k e"
    "bitsTo msb a (8 * k + e) = bitsTo msb a0 0 @ concat (map (\<lambda>(v, n). packBits msb n v) ws)"
    using packWrites_appends [OF assms(1,2) init(3)] by auto
  define b where "b = take (nat (oggpack_bytes (ob_state a k e))) a"
  obtain pad where "streamBits msb b = concat (map (\<lambda>(v, n). packBits msb n v) ws) @ pad"
    and len: "oggpack_bytes (ob_state a k e) = int (length b)"
    using streamBits_written [OF w(2)] unfolding b_def w(3) by (auto simp: bitsTo_def)
  then have "packRun msb (map (\<lambda>(v, n). Bits (int n)) ws) (ob_state b 0 0) = Some (map (\<lambda>(v, n). uint (v AND mask n)) ws)"
    using packRun_refines [OF stands_state [of 0 0 b "streamBits msb b" msb]] specRun_written [OF assms(2)] by simp
  moreover have "oggpack_readinit b (oggpack_bytes (ob_state a k e)) = ob_state b 0 0"
    unfolding len by (rule readinit_state)
  ultimately show ?thesis using init(1) w(1) by (auto simp: b_def oggpack_get_buffer_def)
qed

text \<open>A concrete stream with both bit orders.\<close>

theorem pack_round_trip_witness:
  "\<exists>b a. Option.bind (oggpack_writeinit \<lparr>alloc_ok = \<lambda>n. True, alloc_fill = \<lambda>i. 0xAB\<rparr>)
      (packWrites True \<lparr>alloc_ok = \<lambda>n. True, alloc_fill = \<lambda>i. 0xAB\<rparr> [(5, 3), (0x12345678, 32), (300, 7)]) = Some b \<and>
    oggpack_get_buffer b = Some a \<and>
    packRun True [Bits 3, Bits 32, Bits 7] (oggpack_readinit (take (nat (oggpack_bytes b)) a) (oggpack_bytes b)) =
      Some [5, 0x12345678, 44]"
proof -
  have "uint ((5 :: u64) AND mask 3) = 5" "uint ((0x12345678 :: u64) AND mask 32) = 0x12345678" "uint ((300 :: u64) AND mask 7) = 44"
    by code_simp+
  then show ?thesis
    using pack_round_trip [of "\<lparr>alloc_ok = \<lambda>n. True, alloc_fill = \<lambda>i. 0xAB\<rparr>" "[(5, 3), (0x12345678, 32), (300, 7)]" True]
    by (simp add: LONG_MAX_def)
qed

subsection \<open>The block copy\<close>

definition packCopy :: "bool \<Rightarrow> allocator \<Rightarrow> oggpack_buffer \<Rightarrow> byte list \<Rightarrow> int \<Rightarrow> oggpack_buffer option" where
  "packCopy msb = (if msb then oggpackB_writecopy else oggpack_writecopy)"

lemma alignedCopy_no_room:
  "ob_storage b \<le> ob_endbyte b + bytes + 1 \<Longrightarrow> alignedCopy al b src bytes k = Some (oggpack_writeclear b)"
  by (simp add: alignedCopy_def BUFFER_INCREMENT_def)

text \<open>C40: A block copied to a byte boundary that needs the buffer to grow loses the stream: the block copy of either
  bit order clears the packer instead, however large the free memory is, because it tests the size it
  is about to allocate against the size it has.\<close>

theorem block_copy_never_grows:
  assumes "ob_endbit b = 0" and "0 \<le> bits" and "ob_storage b \<le> ob_endbyte b + bits div 8 + 1"
  shows "packCopy msb al b src bits = Some (oggpack_writeclear b)"
  using assms
  by (simp add: packCopy_def oggpack_writecopy_def oggpackB_writecopy_def oggpack_writecopy_helper_def Let_def div8_def
      alignedCopy_no_room)

text \<open>A fresh packer, with all the memory one could wish for, and a packet of 255 bytes.\<close>

theorem block_copy_never_grows_witness:
  "\<exists>b. oggpack_writeinit \<lparr>alloc_ok = \<lambda>n. True, alloc_fill = \<lambda>i. 0\<rparr> = Some b \<and>
    packCopy False \<lparr>alloc_ok = \<lambda>n. True, alloc_fill = \<lambda>i. 0\<rparr> b (replicate 255 1) 2040 = Some (oggpack_writeclear b)"
proof -
  obtain a where a: "oggpack_writeinit \<lparr>alloc_ok = \<lambda>n. True, alloc_fill = \<lambda>i. 0\<rparr> = Some (ob_state a 0 0)" "length a = 256"
    using writeinit_state [of "\<lparr>alloc_ok = \<lambda>n. True, alloc_fill = \<lambda>i. 0\<rparr>" False] by auto
  then have "packCopy False \<lparr>alloc_ok = \<lambda>n. True, alloc_fill = \<lambda>i. 0\<rparr> (ob_state a 0 0) (replicate 255 1) 2040 =
      Some (oggpack_writeclear (ob_state a 0 0))"
    by (intro block_copy_never_grows) simp_all
  with a(1) show ?thesis by blast
qed

end
