(* ===== verification/SpeexJitter.thy ===== *)
theory SpeexJitter
  imports Complex_Main FixedPoint "HOL-Library.Log_Nat"
begin

text \<open>
  The adaptive jitter buffer of the speech codec library (\<open>Libraries/speex/jitter.c\<close>). Time stamps
  are 32-bit words, compared by the sign of their difference as the macros do; C ints are HOL
  integers under the conversions \<open>s16\<close> and \<open>s32\<close>. The slots hold the packet records of the source,
  an empty slot one without data; the arrays that the loops run over are lists, and an access outside
  one, a division by zero or a write through a failed allocation is \<open>None\<close>. Freeing is not
  modelled; whether a destroy callback is set is, since packets are then handed over and not copied.
\<close>

subsection \<open>Time stamps\<close>

definition GT32 :: "u32 \<Rightarrow> u32 \<Rightarrow> bool" where "GT32 a b \<longleftrightarrow> sint (a - b) > 0"
definition GE32 :: "u32 \<Rightarrow> u32 \<Rightarrow> bool" where "GE32 a b \<longleftrightarrow> sint (a - b) \<ge> 0"
definition LT32 :: "u32 \<Rightarrow> u32 \<Rightarrow> bool" where "LT32 a b \<longleftrightarrow> sint (a - b) < 0"
definition LE32 :: "u32 \<Rightarrow> u32 \<Rightarrow> bool" where "LE32 a b \<longleftrightarrow> sint (a - b) \<le> 0"

definition ROUND_DOWN :: "int \<Rightarrow> int \<Rightarrow> int option" where
  "ROUND_DOWN x step =
     (if step = 0 then None
      else Some (if x < 0 then s32 (((x - step + 1) sdiv step) * step) else s32 ((x sdiv step) * step)))"

definition MAX_BUFFER :: nat where "MAX_BUFFER = 200"
definition MAX_TIMINGS :: nat where "MAX_TIMINGS = 40"
definition MAX_BUFFERS :: nat where "MAX_BUFFERS = 3"
definition TOP_DELAY :: nat where "TOP_DELAY = 40"

subsection \<open>The timings of a sub-window\<close>

record timing_buffer =
  tb_filled :: nat
  tb_curr_count :: int
  tb_timing :: "int list"
  tb_counts :: "int list"

definition tb_init :: "timing_buffer \<Rightarrow> timing_buffer" where
  "tb_init tb = tb\<lparr>tb_filled := 0, tb_curr_count := 0\<rparr>"

fun tb_find :: "int list \<Rightarrow> int \<Rightarrow> nat \<Rightarrow> nat \<Rightarrow> nat option" where
  "tb_find timings timing pos 0 = Some pos"
| "tb_find timings timing pos (Suc n) =
     Option.bind (rd timings pos) (\<lambda>t. if timing \<ge> t then tb_find timings timing (pos + 1) n else Some pos)"

definition tb_insert :: "int list \<Rightarrow> nat \<Rightarrow> nat \<Rightarrow> int \<Rightarrow> int list option" where
  "tb_insert a pos filled x =
     Option.bind (if pos < filled then blit a pos a (pos + 1) (if filled = MAX_TIMINGS then filled - pos - 1 else filled - pos)
                  else Some a) (\<lambda>a. wr a pos x)"

definition tb_add :: "timing_buffer \<Rightarrow> int \<Rightarrow> timing_buffer option" where
  "tb_add tb timing =
     Option.bind (if tb_filled tb \<ge> MAX_TIMINGS then map_option (\<lambda>t. timing \<ge> t) (rd (tb_timing tb) (tb_filled tb - 1)) else Some False) (\<lambda>early.
     if early then Some (tb\<lparr>tb_curr_count := s32 (tb_curr_count tb + 1)\<rparr>)
     else
       Option.bind (tb_find (tb_timing tb) timing 0 (tb_filled tb)) (\<lambda>pos.
       Option.bind (tb_insert (tb_timing tb) pos (tb_filled tb) timing) (\<lambda>timings.
       Option.bind (tb_insert (tb_counts tb) pos (tb_filled tb) (s16 (tb_curr_count tb))) (\<lambda>counts.
         Some (tb\<lparr>tb_timing := timings, tb_counts := counts, tb_curr_count := s32 (tb_curr_count tb + 1),
                  tb_filled := (if tb_filled tb < MAX_TIMINGS then tb_filled tb + 1 else tb_filled tb)\<rparr>)))))"

subsection \<open>The buffer\<close>

record jitter_packet =
  jp_data :: "byte list option"
  jp_len :: u32
  jp_timestamp :: u32
  jp_span :: u32
  jp_sequence :: u16
  jp_user_data :: u32

text \<open>The pointers \<open>timeBuffers\<close> into \<open>_tb\<close> are indices.\<close>

record jitter_buffer =
  jb_pointer_timestamp :: u32
  jb_last_returned_timestamp :: u32
  jb_next_stop :: u32
  jb_buffered :: int
  jb_packets :: "jitter_packet list"
  jb_arrival :: "u32 list"
  jb_destroy :: bool
  jb_delay_step :: int
  jb_concealment_size :: int
  jb_reset_state :: bool
  jb_buffer_margin :: int
  jb_late_cutoff :: int
  jb_interp_requested :: int
  jb_auto_adjust :: bool
  jb_tb :: "timing_buffer list"
  jb_timeBuffers :: "nat list"
  jb_window_size :: int
  jb_subwindow_size :: int
  jb_max_late_rate :: int
  jb_latency_tradeoff :: int
  jb_auto_tradeoff :: int
  jb_lost_count :: int

definition jp_zero :: jitter_packet where
  "jp_zero = \<lparr>jp_data = None, jp_len = 0, jp_timestamp = 0, jp_span = 0, jp_sequence = 0, jp_user_data = 0\<rparr>"

definition tb_zero :: timing_buffer where
  "tb_zero = \<lparr>tb_filled = 0, tb_curr_count = 0, tb_timing = replicate MAX_TIMINGS 0, tb_counts = replicate MAX_TIMINGS 0\<rparr>"

text \<open>Fresh memory, which \<open>speex_alloc\<close> clears.\<close>

definition jb_zero :: jitter_buffer where
  "jb_zero = \<lparr>jb_pointer_timestamp = 0, jb_last_returned_timestamp = 0, jb_next_stop = 0, jb_buffered = 0,
     jb_packets = replicate MAX_BUFFER jp_zero, jb_arrival = replicate MAX_BUFFER 0, jb_destroy = False,
     jb_delay_step = 0, jb_concealment_size = 0, jb_reset_state = False, jb_buffer_margin = 0, jb_late_cutoff = 0,
     jb_interp_requested = 0, jb_auto_adjust = False, jb_tb = replicate MAX_BUFFERS tb_zero,
     jb_timeBuffers = replicate MAX_BUFFERS 0, jb_window_size = 0, jb_subwindow_size = 0, jb_max_late_rate = 0,
     jb_latency_tradeoff = 0, jb_auto_tradeoff = 0, jb_lost_count = 0\<rparr>"

definition jp_empty :: "jitter_packet \<Rightarrow> bool" where
  "jp_empty p \<longleftrightarrow> jp_data p = None"

definition jitter_buffer_reset :: "jitter_buffer \<Rightarrow> jitter_buffer" where
  "jitter_buffer_reset jitter = jitter\<lparr>jb_packets := map (\<lambda>p. p\<lparr>jp_data := None\<rparr>) (jb_packets jitter),
     jb_pointer_timestamp := 0, jb_next_stop := 0, jb_reset_state := True, jb_lost_count := 0, jb_buffered := 0,
     jb_auto_tradeoff := 32000, jb_tb := map tb_init (jb_tb jitter), jb_timeBuffers := [0..<MAX_BUFFERS]\<rparr>"

text \<open>
  The requests that change or read a parameter; the argument is the number at the pointer and the
  result holds what is stored back, if anything.
\<close>

datatype jitter_request = SetMargin | GetMargin | GetAvailableCount | SetDestroyCallback | GetDestroyCallback |
  SetDelayStep | GetDelayStep | SetConcealmentSize | GetConcealmentSize | SetMaxLateRate | GetMaxLateRate |
  SetLateCost | GetLateCost | UnknownRequest

definition jitter_buffer_ctl :: "jitter_buffer \<Rightarrow> jitter_request \<Rightarrow> int \<Rightarrow> (int \<times> int option \<times> jitter_buffer) option" where
  "jitter_buffer_ctl jitter request v =
     (case request of
        SetMargin \<Rightarrow> Some (0, None, jitter\<lparr>jb_buffer_margin := v\<rparr>)
      | GetMargin \<Rightarrow> Some (0, Some (jb_buffer_margin jitter), jitter)
      | GetAvailableCount \<Rightarrow>
          Some (0, Some (int (length (List.filter (\<lambda>p. \<not> jp_empty p \<and> LE32 (jb_pointer_timestamp jitter) (jp_timestamp p))
            (jb_packets jitter)))), jitter)
      | SetDestroyCallback \<Rightarrow> Some (0, None, jitter\<lparr>jb_destroy := v \<noteq> 0\<rparr>)
      | GetDestroyCallback \<Rightarrow> Some (0, Some (if jb_destroy jitter then 1 else 0), jitter)
      | SetDelayStep \<Rightarrow> Some (0, None, jitter\<lparr>jb_delay_step := v\<rparr>)
      | GetDelayStep \<Rightarrow> Some (0, Some (jb_delay_step jitter), jitter)
      | SetConcealmentSize \<Rightarrow> Some (0, None, jitter\<lparr>jb_concealment_size := v\<rparr>)
      | GetConcealmentSize \<Rightarrow> Some (0, Some (jb_concealment_size jitter), jitter)
      | SetMaxLateRate \<Rightarrow>
          (if v = 0 then None
           else
             let window = (100 * int TOP_DELAY) sdiv v
             in Some (0, None, jitter\<lparr>jb_max_late_rate := v, jb_window_size := window,
                  jb_subwindow_size := window sdiv int MAX_BUFFERS\<rparr>))
      | GetMaxLateRate \<Rightarrow> Some (0, Some (jb_max_late_rate jitter), jitter)
      | SetLateCost \<Rightarrow> Some (0, None, jitter\<lparr>jb_latency_tradeoff := v\<rparr>)
      | GetLateCost \<Rightarrow> Some (0, Some (jb_latency_tradeoff jitter), jitter)
      | UnknownRequest \<Rightarrow> Some (-1, None, jitter))"

definition jitter_buffer_init :: "int \<Rightarrow> jitter_buffer option" where
  "jitter_buffer_init step_size =
     (let jitter = jb_zero\<lparr>jb_delay_step := step_size, jb_concealment_size := step_size, jb_buffer_margin := 0,
        jb_late_cutoff := 50, jb_destroy := False, jb_latency_tradeoff := 0, jb_auto_adjust := True\<rparr>
      in Option.bind (jitter_buffer_ctl jitter SetMaxLateRate 4) (\<lambda>(_, _, jitter). Some (jitter_buffer_reset jitter)))"

text \<open>The rotation of the sub-windows moves every pointer up by one.\<close>

definition update_timings :: "jitter_buffer \<Rightarrow> int \<Rightarrow> jitter_buffer option" where
  "update_timings jitter timing =
     (let timing = (if timing < -32767 then -32767 else timing);
          timing = (if timing > 32767 then 32767 else timing)
      in Option.bind (rd (jb_timeBuffers jitter) 0) (\<lambda>b0.
         Option.bind (rd (jb_tb jitter) b0) (\<lambda>tb0.
         Option.bind
           (if tb_curr_count tb0 \<ge> jb_subwindow_size jitter then
              Option.bind (rd (jb_timeBuffers jitter) (MAX_BUFFERS - 1)) (\<lambda>last.
              Option.bind (rd (jb_tb jitter) last) (\<lambda>tb.
                Some (jitter\<lparr>jb_timeBuffers := last # take (MAX_BUFFERS - 1) (jb_timeBuffers jitter),
                             jb_tb := (jb_tb jitter)[last := tb_init tb]\<rparr>)))
            else Some jitter) (\<lambda>jitter.
         Option.bind (rd (jb_timeBuffers jitter) 0) (\<lambda>b0.
         Option.bind (rd (jb_tb jitter) b0) (\<lambda>tb0.
         Option.bind (tb_add tb0 timing) (\<lambda>tb0.
           Some (jitter\<lparr>jb_tb := (jb_tb jitter)[b0 := tb0]\<rparr>))))))))"

definition tb_shift :: "int \<Rightarrow> timing_buffer \<Rightarrow> timing_buffer option" where
  "tb_shift amount tb =
     map_option (\<lambda>t. tb\<lparr>tb_timing := t\<rparr>)
       (forUpd (\<lambda>j a. map_option (\<lambda>x. s32 (x + amount)) (rd a j)) [0..<tb_filled tb] (tb_timing tb))"

fun shiftBuffers :: "int \<Rightarrow> nat list \<Rightarrow> timing_buffer list \<Rightarrow> timing_buffer list option" where
  "shiftBuffers amount [] tbs = Some tbs"
| "shiftBuffers amount (b # bs) tbs =
     Option.bind (rd tbs b) (\<lambda>tb. Option.bind (tb_shift amount tb) (\<lambda>tb. shiftBuffers amount bs (tbs[b := tb])))"

definition shift_timings :: "jitter_buffer \<Rightarrow> int \<Rightarrow> jitter_buffer option" where
  "shift_timings jitter amount =
     map_option (\<lambda>tbs. jitter\<lparr>jb_tb := tbs\<rparr>) (shiftBuffers amount (jb_timeBuffers jitter) (jb_tb jitter))"


subsection \<open>The optimal delay\<close>

text \<open>
  Single precision: a number is rounded to 24 significant bits, halves to even. The magnitudes here
  stay far from overflow and from subnormal numbers. Each operation rounds. A conversion to an int
  truncates, and one out of range, undefined in C, saturates.
\<close>

definition roundHalfEven :: "rat \<Rightarrow> int" where
  "roundHalfEven x =
     (let f = \<lfloor>x\<rfloor>; d = x - of_int f
      in if d < 1 / 2 then f else if d > 1 / 2 then f + 1 else if even f then f else f + 1)"

definition scale2 :: "int \<Rightarrow> rat" where
  "scale2 e = (if e \<ge> 0 then 2 ^ nat e else 1 / 2 ^ nat (- e))"

definition float32 :: "rat \<Rightarrow> rat" where
  "float32 x =
     (if x = 0 then 0
      else
        let (p, q) = quotient_of \<bar>x\<bar>;
            e1 = int (floorlog 2 (nat p)) - int (floorlog 2 (nat q)) - 24;
            e = (if \<bar>x\<bar> / scale2 e1 \<ge> 2 ^ 24 then e1 + 1 else e1)
        in sgn x * of_int (roundHalfEven (\<bar>x\<bar> / scale2 e)) * scale2 e)"

definition truncate32 :: "rat \<Rightarrow> int" where
  "truncate32 x = max (- 2147483648) (min 2147483647 (if x < 0 then - \<lfloor>- x\<rfloor> else \<lfloor>x\<rfloor>))"

text \<open>The latest timing among the sub-windows, from window \<open>j\<close> on.\<close>

fun pickLatest :: "timing_buffer list \<Rightarrow> nat list \<Rightarrow> nat \<Rightarrow> nat \<Rightarrow> nat option \<Rightarrow> int \<Rightarrow> (nat option \<times> int) option" where
  "pickLatest tbs pos j 0 next latest = Some (next, latest)"
| "pickLatest tbs pos j (Suc n) next latest =
     Option.bind (rd pos j) (\<lambda>p.
     Option.bind (rd tbs j) (\<lambda>tb.
       if p < tb_filled tb then
         Option.bind (rd (tb_timing tb) p) (\<lambda>t.
           if t < latest then pickLatest tbs pos (j + 1) n (Some j) t else pickLatest tbs pos (j + 1) n next latest)
       else pickLatest tbs pos (j + 1) n next latest))"

record delay_search =
  ds_opt :: int
  ds_best_cost :: int
  ds_late :: int
  ds_pos :: "nat list"
  ds_penalty_taken :: bool
  ds_best :: int
  ds_worst :: int

text \<open>One candidate delay; the result is none of them when all timings are used up.\<close>

definition delayStep :: "timing_buffer list \<Rightarrow> int \<Rightarrow> rat \<Rightarrow> bool \<Rightarrow> delay_search \<Rightarrow> delay_search option option" where
  "delayStep tbs step late_factor first ds =
     Option.bind (pickLatest tbs (ds_pos ds) 0 MAX_BUFFERS None 32767) (\<lambda>(next, latest).
     case next of
       None \<Rightarrow> Some None
     | Some next \<Rightarrow>
         let worst = (if first then latest else ds_worst ds); best = latest
         in Option.bind (ROUND_DOWN latest step) (\<lambda>latest.
            Option.bind (rd (ds_pos ds) next) (\<lambda>p.
            let cost = truncate32 (float32 (float32 (of_int (- latest)) + float32 (late_factor * float32 (of_int (ds_late ds)))));
                better = cost < ds_best_cost ds;
                late = ds_late ds + 1;
                penalty = latest \<ge> 0 \<and> \<not> ds_penalty_taken ds
            in Some (Some (ds\<lparr>ds_opt := (if better then s16 latest else ds_opt ds),
                 ds_best_cost := (if better then cost else ds_best_cost ds),
                 ds_late := (if penalty then late + 4 else late),
                 ds_pos := (ds_pos ds)[next := p + 1],
                 ds_penalty_taken := (ds_penalty_taken ds \<or> penalty),
                 ds_best := best, ds_worst := worst\<rparr>)))))"

fun delayLoop :: "timing_buffer list \<Rightarrow> int \<Rightarrow> rat \<Rightarrow> bool \<Rightarrow> nat \<Rightarrow> delay_search \<Rightarrow> delay_search option" where
  "delayLoop tbs step late_factor first 0 ds = Some ds"
| "delayLoop tbs step late_factor first (Suc n) ds =
     Option.bind (delayStep tbs step late_factor first ds) (\<lambda>r.
     case r of None \<Rightarrow> Some ds | Some ds \<Rightarrow> delayLoop tbs step late_factor False n ds)"

definition compute_opt_delay :: "jitter_buffer \<Rightarrow> (int \<times> jitter_buffer) option" where
  "compute_opt_delay jitter =
     (let tot_count = foldl (\<lambda>n tb. s32 (n + tb_curr_count tb)) 0 (jb_tb jitter)
      in if tot_count = 0 then Some (0, jitter)
         else
           let late_factor =
                 (if jb_latency_tradeoff jitter \<noteq> 0
                  then float32 (float32 (float32 (of_int (jb_latency_tradeoff jitter)) * 100) / float32 (of_int tot_count))
                  else float32 (of_int (s32 (jb_auto_tradeoff jitter * jb_window_size jitter) sdiv tot_count)))
           in Option.bind (delayLoop (jb_tb jitter) (jb_delay_step jitter) late_factor True TOP_DELAY
                  \<lparr>ds_opt = 0, ds_best_cost = 0x7fffffff, ds_late = 0, ds_pos = replicate MAX_BUFFERS 0,
                   ds_penalty_taken = False, ds_best = 0, ds_worst = 0\<rparr>) (\<lambda>ds.
              Some (if tot_count < int TOP_DELAY \<and> ds_opt ds > 0 then 0 else ds_opt ds,
                    jitter\<lparr>jb_auto_tradeoff := 1 + s32 (ds_best ds - ds_worst ds) sdiv int TOP_DELAY\<rparr>)))"

subsection \<open>Packets in\<close>

text \<open>The first slot with a property, none for the end of the array.\<close>

fun firstSlot :: "(jitter_packet \<Rightarrow> bool) \<Rightarrow> jitter_packet list \<Rightarrow> nat option" where
  "firstSlot P [] = None"
| "firstSlot P (p # ps) = (if P p then Some 0 else map_option Suc (firstSlot P ps))"

text \<open>The slot of the oldest packet when every slot is taken.\<close>

fun evictSlot :: "jitter_packet list \<Rightarrow> nat \<Rightarrow> nat \<Rightarrow> nat \<Rightarrow> u32 \<Rightarrow> nat option" where
  "evictSlot ps j 0 i earliest = Some i"
| "evictSlot ps j (Suc n) i earliest =
     Option.bind (rd ps i) (\<lambda>pi.
     Option.bind (rd ps j) (\<lambda>pj.
       if jp_empty pi \<or> LT32 (jp_timestamp pj) earliest then evictSlot ps (j + 1) n j (jp_timestamp pj)
       else evictSlot ps (j + 1) n i earliest))"

definition cleanLate :: "jitter_buffer \<Rightarrow> jitter_buffer" where
  "cleanLate jitter =
     (if \<not> jb_reset_state jitter then
        jitter\<lparr>jb_packets := map (\<lambda>p. if \<not> jp_empty p \<and> LE32 (jp_timestamp p + jp_span p) (jb_pointer_timestamp jitter)
          then p\<lparr>jp_data := None\<rparr> else p) (jb_packets jitter)\<rparr>
      else jitter)"

text \<open>The slot to use, emptied when the buffer is full.\<close>

definition freeSlot :: "jitter_packet list \<Rightarrow> nat option" where
  "freeSlot ps =
     (case firstSlot jp_empty ps of
        Some i \<Rightarrow> Some i
      | None \<Rightarrow> Option.bind (rd ps 0) (\<lambda>p. evictSlot ps 1 (MAX_BUFFER - 1) 0 (jp_timestamp p)))"

text \<open>
  Without a callback the data are copied into fresh memory. An allocation that fails gives the null
  pointer: writing through it is undefined, and with nothing to write the slot stays empty.
\<close>

definition storeData :: "(nat \<Rightarrow> bool) \<Rightarrow> bool \<Rightarrow> jitter_packet \<Rightarrow> byte list option option" where
  "storeData ok destroy packet =
     (if destroy then Some (jp_data packet)
      else
        let n = unat (jp_len packet)
        in if ok n then Option.bind (jp_data packet) (\<lambda>d. map_option Some (blit d 0 (replicate n 0) 0 n))
           else if n = 0 then Some None else None)"

definition jitter_buffer_put :: "(nat \<Rightarrow> bool) \<Rightarrow> jitter_buffer \<Rightarrow> jitter_packet \<Rightarrow> jitter_buffer option" where
  "jitter_buffer_put ok jitter packet =
     (let jitter = cleanLate jitter
      in Option.bind
           (if \<not> jb_reset_state jitter \<and> LT32 (jp_timestamp packet) (jb_next_stop jitter)
            then map_option (\<lambda>j. (j, True))
              (update_timings jitter (sint (jp_timestamp packet - jb_next_stop jitter - of_int (jb_buffer_margin jitter))))
            else Some (jitter, False)) (\<lambda>(jitter, late).
         let jitter = (if jb_lost_count jitter > 20 then jitter_buffer_reset jitter else jitter)
         in if jb_reset_state jitter \<or>
               GE32 (jp_timestamp packet + jp_span packet + of_int (jb_delay_step jitter)) (jb_pointer_timestamp jitter) then
              Option.bind (freeSlot (jb_packets jitter)) (\<lambda>i.
              Option.bind (storeData ok (jb_destroy jitter) packet) (\<lambda>d.
              Option.bind (wr (jb_packets jitter) i (packet\<lparr>jp_data := d\<rparr>)) (\<lambda>ps.
              Option.bind (wr (jb_arrival jitter) i (if jb_reset_state jitter \<or> late then 0 else jb_next_stop jitter)) (\<lambda>arrival.
                Some (jitter\<lparr>jb_packets := ps, jb_arrival := arrival\<rparr>)))))
            else Some jitter))"


subsection \<open>Packets out\<close>

definition JITTER_BUFFER_OK :: int where "JITTER_BUFFER_OK = 0"
definition JITTER_BUFFER_MISSING :: int where "JITTER_BUFFER_MISSING = 1"
definition JITTER_BUFFER_INSERTION :: int where "JITTER_BUFFER_INSERTION = 2"

fun findOldest :: "jitter_packet list \<Rightarrow> u32 option \<Rightarrow> u32 option" where
  "findOldest [] oldest = oldest"
| "findOldest (p # ps) oldest =
     findOldest ps
       (if jp_empty p then oldest
        else case oldest of
               None \<Rightarrow> Some (jp_timestamp p)
             | Some t \<Rightarrow> if LT32 (jp_timestamp p) t then Some (jp_timestamp p) else oldest)"

text \<open>The earliest packet that starts in the current chunk; the state is its time, span and slot.\<close>

fun findEarliest :: "u32 \<Rightarrow> int \<Rightarrow> jitter_packet list \<Rightarrow> nat \<Rightarrow> (u32 \<times> u32 \<times> nat) option \<Rightarrow> nat option" where
  "findEarliest pointer desired_span [] i best = map_option (\<lambda>(_, _, besti). besti) best"
| "findEarliest pointer desired_span (p # ps) i best =
     findEarliest pointer desired_span ps (i + 1)
       (if \<not> jp_empty p \<and> LT32 (jp_timestamp p) (pointer + of_int desired_span) \<and> GE32 (jp_timestamp p) pointer
        then case best of
               None \<Rightarrow> Some (jp_timestamp p, jp_span p, i)
             | Some (best_time, best_span, besti) \<Rightarrow>
                 if LT32 (jp_timestamp p) best_time \<or> jp_timestamp p = best_time \<and> GT32 (jp_span p) best_span
                 then Some (jp_timestamp p, jp_span p, i) else best
        else best)"

text \<open>The four searches, each made when the one before found nothing.\<close>

definition bestSlot :: "jitter_packet list \<Rightarrow> u32 \<Rightarrow> int \<Rightarrow> nat option" where
  "bestSlot ps pointer desired_span =
     (let stop = (\<lambda>p. jp_timestamp p + jp_span p); wanted = pointer + of_int desired_span
      in case firstSlot (\<lambda>p. \<not> jp_empty p \<and> jp_timestamp p = pointer \<and> GE32 (stop p) wanted) ps of
           Some i \<Rightarrow> Some i
         | None \<Rightarrow>
             (case firstSlot (\<lambda>p. \<not> jp_empty p \<and> LE32 (jp_timestamp p) pointer \<and> GE32 (stop p) wanted) ps of
                Some i \<Rightarrow> Some i
              | None \<Rightarrow>
                  (case firstSlot (\<lambda>p. \<not> jp_empty p \<and> LE32 (jp_timestamp p) pointer \<and> GT32 (stop p) pointer) ps of
                     Some i \<Rightarrow> Some i
                   | None \<Rightarrow> findEarliest pointer desired_span ps 0 None)))"

text \<open>The loop that copies \<open>n\<close> bytes of a slot to the caller's buffer; it touches nothing when there are none.\<close>

definition copyOut :: "byte list option \<Rightarrow> byte list option \<Rightarrow> nat \<Rightarrow> byte list option option" where
  "copyOut d buf n =
     (if n = 0 then Some buf
      else Option.bind d (\<lambda>d. Option.bind buf (\<lambda>buf. map_option Some (blit d 0 buf 0 n))))"

definition takeSlot :: "jitter_buffer \<Rightarrow> nat \<Rightarrow> jitter_packet \<Rightarrow> jitter_packet \<Rightarrow> int \<Rightarrow> bool \<Rightarrow>
    (int \<times> jitter_packet \<times> int option \<times> jitter_buffer) option" where
  "takeSlot jitter i p packet desired_span with_offset =
     (let jitter = jitter\<lparr>jb_lost_count := 0\<rparr>
      in Option.bind (rd (jb_arrival jitter) i) (\<lambda>arrival.
         Option.bind
           (if arrival \<noteq> 0 then update_timings jitter (sint (jp_timestamp p - arrival - of_int (jb_buffer_margin jitter)))
            else Some jitter) (\<lambda>jitter.
         let len = (if jb_destroy jitter \<or> \<not> jp_len p > jp_len packet then jp_len p else jp_len packet)
         in Option.bind (if jb_destroy jitter then Some (jp_data p) else copyOut (jp_data p) (jp_data packet) (unat len)) (\<lambda>d.
            let ps = (jb_packets jitter)[i := p\<lparr>jp_data := None\<rparr>];
                offset = sint (jp_timestamp p - jb_pointer_timestamp jitter);
                packet = \<lparr>jp_data = d, jp_len = len, jp_timestamp = jp_timestamp p, jp_span = jp_span p,
                          jp_sequence = jp_sequence p, jp_user_data = jp_user_data p\<rparr>;
                buffered = sint (jp_span p - of_int desired_span);
                buffered = (if with_offset then s32 (buffered + offset) else buffered)
            in Some (JITTER_BUFFER_OK, packet, if with_offset then Some offset else None,
                 jitter\<lparr>jb_packets := ps, jb_last_returned_timestamp := jp_timestamp p,
                        jb_pointer_timestamp := jp_timestamp p + jp_span p, jb_buffered := buffered\<rparr>)))))"

definition nothingFound :: "jitter_buffer \<Rightarrow> jitter_packet \<Rightarrow> int \<Rightarrow> bool \<Rightarrow>
    (int \<times> jitter_packet \<times> int option \<times> jitter_buffer) option" where
  "nothingFound jitter packet desired_span with_offset =
     (let jitter = jitter\<lparr>jb_lost_count := s32 (jb_lost_count jitter + 1)\<rparr>;
          start_offset = (if with_offset then Some 0 else None)
      in Option.bind (compute_opt_delay jitter) (\<lambda>(opt, jitter).
         if opt < 0 then
           Option.bind (shift_timings jitter (s16 (- opt))) (\<lambda>jitter.
           let packet = packet\<lparr>jp_timestamp := jb_pointer_timestamp jitter, jp_span := of_int (- opt), jp_len := 0\<rparr>
           in Some (JITTER_BUFFER_INSERTION, packet, start_offset,
                jitter\<lparr>jb_buffered := sint (jp_span packet - of_int desired_span)\<rparr>))
         else
           Option.bind (ROUND_DOWN desired_span (jb_concealment_size jitter)) (\<lambda>desired_span.
           let packet = packet\<lparr>jp_timestamp := jb_pointer_timestamp jitter, jp_span := of_int desired_span, jp_len := 0\<rparr>
           in Some (JITTER_BUFFER_MISSING, packet, start_offset,
                jitter\<lparr>jb_pointer_timestamp := jb_pointer_timestamp jitter + of_int desired_span,
                       jb_buffered := sint (jp_span packet - of_int desired_span)\<rparr>))))"

definition jitter_buffer_get :: "jitter_buffer \<Rightarrow> jitter_packet \<Rightarrow> int \<Rightarrow> bool \<Rightarrow>
    (int \<times> jitter_packet \<times> int option \<times> jitter_buffer) option" where
  "jitter_buffer_get jitter packet desired_span with_offset =
     (let start_offset = (if with_offset then Some 0 else None);
          oldest = findOldest (jb_packets jitter) None
      in if jb_reset_state jitter \<and> oldest = None then
           Some (JITTER_BUFFER_MISSING, packet\<lparr>jp_timestamp := 0, jp_span := of_int (jb_interp_requested jitter)\<rparr>,
             start_offset, jitter)
         else
           let jitter = (if jb_reset_state jitter
                 then jitter\<lparr>jb_reset_state := False, jb_pointer_timestamp := the oldest, jb_next_stop := the oldest\<rparr>
                 else jitter);
               jitter = jitter\<lparr>jb_last_returned_timestamp := jb_pointer_timestamp jitter\<rparr>
           in if jb_interp_requested jitter \<noteq> 0 then
                let packet = packet\<lparr>jp_timestamp := jb_pointer_timestamp jitter,
                      jp_span := of_int (jb_interp_requested jitter), jp_len := 0\<rparr>
                in Some (JITTER_BUFFER_INSERTION, packet, start_offset,
                     jitter\<lparr>jb_pointer_timestamp := jb_pointer_timestamp jitter + of_int (jb_interp_requested jitter),
                            jb_interp_requested := 0, jb_buffered := sint (jp_span packet - of_int desired_span)\<rparr>)
              else
                (case bestSlot (jb_packets jitter) (jb_pointer_timestamp jitter) desired_span of
                   Some i \<Rightarrow> Option.bind (rd (jb_packets jitter) i) (\<lambda>p. takeSlot jitter i p packet desired_span with_offset)
                 | None \<Rightarrow> nothingFound jitter packet desired_span with_offset))"

text \<open>Another packet with the time stamp of the last one. The caller's buffer is not asked for its size.\<close>

definition jitter_buffer_get_another :: "jitter_buffer \<Rightarrow> jitter_packet \<Rightarrow> (int \<times> jitter_packet \<times> jitter_buffer) option" where
  "jitter_buffer_get_another jitter packet =
     (case firstSlot (\<lambda>p. \<not> jp_empty p \<and> jp_timestamp p = jb_last_returned_timestamp jitter) (jb_packets jitter) of
        Some i \<Rightarrow>
          Option.bind (rd (jb_packets jitter) i) (\<lambda>p.
          Option.bind (if jb_destroy jitter then Some (jp_data p) else copyOut (jp_data p) (jp_data packet) (unat (jp_len p))) (\<lambda>d.
            Some (JITTER_BUFFER_OK, p\<lparr>jp_data := d\<rparr>, jitter\<lparr>jb_packets := (jb_packets jitter)[i := p\<lparr>jp_data := None\<rparr>]\<rparr>)))
      | None \<Rightarrow> Some (JITTER_BUFFER_MISSING, packet\<lparr>jp_data := None, jp_len := 0, jp_span := 0\<rparr>, jitter))"

subsection \<open>Adjusting the delay\<close>

definition jb_update_delay :: "jitter_buffer \<Rightarrow> (int \<times> jitter_buffer) option" where
  "jb_update_delay jitter =
     Option.bind (compute_opt_delay jitter) (\<lambda>(opt, jitter).
     if opt < 0 then
       map_option (\<lambda>jitter. (opt, jitter\<lparr>jb_pointer_timestamp := jb_pointer_timestamp jitter + of_int opt,
         jb_interp_requested := - opt\<rparr>)) (shift_timings jitter (s16 (- opt)))
     else if opt > 0 then
       map_option (\<lambda>jitter. (opt, jitter\<lparr>jb_pointer_timestamp := jb_pointer_timestamp jitter + of_int opt\<rparr>))
         (shift_timings jitter (s16 (- opt)))
     else Some (opt, jitter))"

definition jitter_buffer_update_delay :: "jitter_buffer \<Rightarrow> (int \<times> jitter_buffer) option" where
  "jitter_buffer_update_delay jitter = jb_update_delay (jitter\<lparr>jb_auto_adjust := False\<rparr>)"

definition jitter_buffer_get_pointer_timestamp :: "jitter_buffer \<Rightarrow> int" where
  "jitter_buffer_get_pointer_timestamp jitter = sint (jb_pointer_timestamp jitter)"

definition autoAdjust :: "jitter_buffer \<Rightarrow> jitter_buffer option" where
  "autoAdjust jitter = (if jb_auto_adjust jitter then map_option snd (jb_update_delay jitter) else Some jitter)"

definition jitter_buffer_tick :: "jitter_buffer \<Rightarrow> jitter_buffer option" where
  "jitter_buffer_tick jitter =
     map_option (\<lambda>jitter. jitter\<lparr>jb_next_stop :=
         (if jb_buffered jitter \<ge> 0 then jb_pointer_timestamp jitter - of_int (jb_buffered jitter)
          else jb_pointer_timestamp jitter), jb_buffered := 0\<rparr>)
       (autoAdjust jitter)"

definition jitter_buffer_remaining_span :: "jitter_buffer \<Rightarrow> u32 \<Rightarrow> jitter_buffer option" where
  "jitter_buffer_remaining_span jitter rem =
     map_option (\<lambda>jitter. jitter\<lparr>jb_next_stop := jb_pointer_timestamp jitter - rem\<rparr>) (autoAdjust jitter)"

end
