(* ===== verification/SpeexJitterSafety.thy ===== *)
theory SpeexJitterSafety
  imports SpeexJitter "HOL-Library.Multiset"
begin

text \<open>
  The speech library's jitter buffer under any sequence of calls: its timings are the latest ones in
  order, no call leaves the arrays or divides by zero, and no packet comes out that was not put in,
  nor twice.
\<close>

subsection \<open>The timings\<close>

definition tb_ok :: "timing_buffer \<Rightarrow> bool" where
  "tb_ok tb \<longleftrightarrow> length (tb_timing tb) = MAX_TIMINGS \<and> length (tb_counts tb) = MAX_TIMINGS \<and> tb_filled tb \<le> MAX_TIMINGS"

definition tb_timings :: "timing_buffer \<Rightarrow> int list" where
  "tb_timings tb = take (tb_filled tb) (tb_timing tb)"

lemma tb_find_ok:
  assumes "pos + n \<le> length a"
  shows "\<exists>k \<le> n. tb_find a t pos n = Some (pos + k) \<and> (\<forall>i < k. a ! (pos + i) \<le> t) \<and> (k < n \<longrightarrow> t < a ! (pos + k))"
  using assms
proof (induction n arbitrary: pos)
  case (Suc n)
  show ?case
  proof (cases "t \<ge> a ! pos")
    case True
    from Suc.IH [of "Suc pos"] Suc.prems obtain k where
      "k \<le> n" "tb_find a t (pos + 1) n = Some (Suc pos + k)" "\<forall>i < k. a ! (Suc pos + i) \<le> t" "k < n \<longrightarrow> t < a ! (Suc pos + k)"
      by auto
    with True Suc.prems show ?thesis
      by (intro exI [of _ "Suc k"]) (auto simp: less_Suc_eq_0_disj)
  next
    case False
    with Suc.prems show ?thesis by (intro exI [of _ 0]) auto
  qed
qed simp

lemma tb_insert_ok:
  assumes "length a = MAX_TIMINGS" and "pos \<le> filled" and "filled \<le> MAX_TIMINGS" and "pos < MAX_TIMINGS"
  shows "\<exists>b. tb_insert a pos filled x = Some b \<and> length b = MAX_TIMINGS \<and>
    take (min MAX_TIMINGS (filled + 1)) b = take MAX_TIMINGS (take pos a @ x # drop pos (take filled a))"
proof -
  define k where "k = (if filled = MAX_TIMINGS then filled - pos - 1 else filled - pos)"
  have k: "pos + k \<le> filled" "pos + 1 + k = min MAX_TIMINGS (filled + 1)" using assms by (auto simp: k_def)
  define c where "c = take (pos + 1) a @ take k (drop pos a) @ drop (pos + 1 + k) a"
  have "pos + 1 + k \<le> MAX_TIMINGS" unfolding k(2) by simp
  then have lc: "length c = MAX_TIMINGS" using assms(1) by (simp add: c_def)
  have "(if pos < filled then blit a pos a (pos + 1) k else Some a) = Some c"
    using assms k by (auto simp: blit_Some c_def) (simp add: k_def)
  then have "tb_insert a pos filled x = Some (c[pos := x])"
    using assms lc by (simp only: tb_insert_def k_def [symmetric] Option.bind.simps wr_Some)
  moreover have "take (min MAX_TIMINGS (filled + 1)) (c[pos := x]) = take pos a @ x # take k (drop pos a)"
  proof -
    have e: "c[pos := x] = (take pos a @ x # take k (drop pos a)) @ drop (pos + 1 + k) a"
      using assms by (simp add: c_def list_update_append take_Suc_conv_app_nth)
    have "length (take pos a @ x # take k (drop pos a)) = pos + 1 + k" using assms k(1) by simp
    then show ?thesis unfolding e k(2) [symmetric] by simp
  qed
  moreover have "take k (drop pos a) = take (MAX_TIMINGS - pos - 1) (drop pos (take filled a))"
  proof -
    have "k = min (MAX_TIMINGS - pos - 1) (filled - pos)" using assms unfolding k_def by (simp add: min_def) linarith
    then show ?thesis by (simp add: drop_take)
  qed
  moreover have "take MAX_TIMINGS (take pos a @ x # drop pos (take filled a)) =
      take pos a @ x # take (MAX_TIMINGS - pos - 1) (drop pos (take filled a))"
    using assms by (simp add: min_def take_Cons')
  ultimately show ?thesis using lc by simp
qed

lemma insort_split:
  assumes "sorted (us @ vs)" and "\<forall>u \<in> set us. u \<le> t" and "\<forall>v \<in> set vs. t \<le> v"
  shows "insort t (us @ vs) = us @ t # vs"
proof -
  have "sort (t # us @ vs) = us @ t # vs"
    by (rule properties_for_sort) (use assms in \<open>auto simp: sorted_append\<close>)
  then show ?thesis using assms(1) by (simp add: sorted_sort_id)
qed

lemma tb_add_ok:
  assumes "tb_ok tb"
  shows "\<exists>tb'. tb_add tb t = Some tb' \<and> tb_ok tb' \<and> (sorted (tb_timings tb) \<longrightarrow> tb_timings tb' = take MAX_TIMINGS (insort t (tb_timings tb)))"
proof (cases "tb_filled tb \<ge> MAX_TIMINGS \<and> t \<ge> tb_timing tb ! (tb_filled tb - 1)")
  case True
  then have f: "tb_filled tb = MAX_TIMINGS" "length (tb_timing tb) = MAX_TIMINGS" "tb_timing tb ! (MAX_TIMINGS - 1) \<le> t"
    using assms by (auto simp: tb_ok_def)
  then have "tb_add tb t = Some (tb\<lparr>tb_curr_count := s32 (tb_curr_count tb + 1)\<rparr>)"
    by (simp add: tb_add_def MAX_TIMINGS_def)
  moreover have "take MAX_TIMINGS (insort t (tb_timings tb)) = tb_timings tb" if sorted: "sorted (tb_timings tb)"
  proof -
    have e: "tb_timings tb = tb_timing tb" using f by (simp add: tb_timings_def)
    have "\<forall>u \<in> set (tb_timing tb). u \<le> t"
    proof
      fix u assume "u \<in> set (tb_timing tb)"
      then obtain i where "i < MAX_TIMINGS" "u = tb_timing tb ! i" using f(2) by (auto simp: in_set_conv_nth)
      moreover have "tb_timing tb ! i \<le> tb_timing tb ! (MAX_TIMINGS - 1)"
        using sorted unfolding e by (rule sorted_nth_mono) (use calculation f(2) in simp_all)
      ultimately show "u \<le> t" using f(3) by simp
    qed
    then have "insort t (tb_timing tb) = tb_timing tb @ [t]" using insort_split [of "tb_timing tb" "[]" t] sorted e by simp
    then show ?thesis using f(2) e by simp
  qed
  ultimately show ?thesis using assms by (simp add: tb_ok_def) (simp add: tb_timings_def)
next
  case False
  let ?a = "tb_timing tb" and ?f = "tb_filled tb"
  have l: "length ?a = MAX_TIMINGS" "length (tb_counts tb) = MAX_TIMINGS" "?f \<le> MAX_TIMINGS" using assms by (simp_all add: tb_ok_def)
  obtain k where k: "k \<le> ?f" "tb_find ?a t 0 ?f = Some k" "\<forall>i < k. ?a ! i \<le> t" "k < ?f \<longrightarrow> t < ?a ! k"
    using tb_find_ok [of 0 ?f ?a t] l by auto
  have "k < MAX_TIMINGS"
  proof (rule ccontr)
    assume "\<not> k < MAX_TIMINGS"
    with k(1) l(3) have "k = ?f" "?f = MAX_TIMINGS" by auto
    moreover have "?a ! (?f - 1) \<le> t" using k(3) calculation by (simp add: MAX_TIMINGS_def)
    ultimately show False using False by simp
  qed
  from tb_insert_ok [OF l(1) k(1) l(3) this, of t] obtain b where b: "tb_insert ?a k ?f t = Some b" "length b = MAX_TIMINGS"
    "take (min MAX_TIMINGS (?f + 1)) b = take MAX_TIMINGS (take k ?a @ t # drop k (take ?f ?a))" by blast
  from tb_insert_ok [OF l(2) k(1) l(3) \<open>k < MAX_TIMINGS\<close>, of "s16 (tb_curr_count tb)"] obtain c where
    c: "tb_insert (tb_counts tb) k ?f (s16 (tb_curr_count tb)) = Some c" "length c = MAX_TIMINGS" by blast
  let ?tb = "tb\<lparr>tb_timing := b, tb_counts := c, tb_curr_count := s32 (tb_curr_count tb + 1), tb_filled := min MAX_TIMINGS (?f + 1)\<rparr>"
  have add: "tb_add tb t = Some ?tb"
    using False l k(2) b(1) c(1) by (auto simp: tb_add_def MAX_TIMINGS_def)
  have split: "take k ?a @ t # drop k (take ?f ?a) = insort t (take ?f ?a)" if sorted: "sorted (take ?f ?a)"
  proof -
    have e: "take k ?a @ drop k (take ?f ?a) = take ?f ?a" using k(1) append_take_drop_id [of k "take ?f ?a"] by (simp add: min_def)
    have "t \<le> v" if v: "v \<in> set (drop k (take ?f ?a))" for v
    proof -
      obtain i where i: "i < ?f - k" "v = ?a ! (k + i)" using v l(1,3) by (auto simp: in_set_conv_nth)
      then have "?a ! k \<le> ?a ! (k + i)" using sorted_nth_mono [OF sorted, of k "k + i"] l(1,3) by simp
      with k(4) i show ?thesis by auto
    qed
    moreover have "\<forall>u \<in> set (take k ?a). u \<le> t" using k(1,3) l(1,3) by (auto simp: in_set_conv_nth)
    ultimately show ?thesis using insort_split [of "take k ?a" "drop k (take ?f ?a)" t] sorted e by simp
  qed
  have ts: "tb_timings ?tb = take MAX_TIMINGS (take k ?a @ t # drop k (take ?f ?a))"
  proof -
    have sel: "tb_filled ?tb = min MAX_TIMINGS (?f + 1)" "tb_timing ?tb = b" by simp_all
    show ?thesis unfolding tb_timings_def sel by (rule b(3))
  qed
  have "sorted (tb_timings tb) \<longrightarrow> tb_timings ?tb = take MAX_TIMINGS (insort t (tb_timings tb))"
    unfolding ts by (intro impI) (simp only: tb_timings_def split)
  moreover have "tb_ok ?tb" using b(2) c(2) by (simp add: tb_ok_def)
  ultimately show ?thesis using add by blast
qed


lemma take_insort: "take n (insort t (take n xs)) = take n (insort t xs)"
proof (induction xs arbitrary: n)
  case (Cons x xs)
  show ?case
  proof (cases n)
    case (Suc m)
    have "take m (x # take m xs) = take m (x # xs)" by (cases m) (simp_all add: min_def)
    then show ?thesis using Cons.IH [of m] by (simp add: Suc)
  qed simp
qed simp

fun tb_add_all :: "timing_buffer \<Rightarrow> int list \<Rightarrow> timing_buffer option" where
  "tb_add_all tb [] = Some tb"
| "tb_add_all tb (t # ts) = Option.bind (tb_add tb t) (\<lambda>tb. tb_add_all tb ts)"

lemma tb_add_all_ok:
  assumes "tb_ok tb" and "tb_timings tb = take MAX_TIMINGS (sort us)"
  shows "\<exists>tb'. tb_add_all tb ts = Some tb' \<and> tb_ok tb' \<and> tb_timings tb' = take MAX_TIMINGS (sort (us @ ts))"
  using assms
proof (induction ts arbitrary: tb us)
  case (Cons t ts)
  have "sorted (tb_timings tb)" using Cons.prems(2) by (simp add: sorted_wrt_take)
  then obtain tb1 where tb1: "tb_add tb t = Some tb1" "tb_ok tb1" "tb_timings tb1 = take MAX_TIMINGS (insort t (tb_timings tb))"
    using tb_add_ok [OF Cons.prems(1), of t] by blast
  have "insort t (sort us) = sort (us @ [t])"
    by (rule sym, rule properties_for_sort) (simp_all add: sorted_insort)
  then have "tb_timings tb1 = take MAX_TIMINGS (sort (us @ [t]))"
    using tb1(3) Cons.prems(2) by (simp add: take_insort)
  from Cons.IH [OF tb1(2) this] tb1(1) show ?case by simp
qed simp

text \<open>The record of arrival timings keeps exactly the latest ones: whatever timings are added to an
  empty record, in whatever order, it holds the forty smallest of them in ascending order, which
  are those of the packets that came latest, and no step of the insertion leaves its arrays.\<close>

theorem tb_keeps_latest:
  "\<exists>tb. tb_add_all (tb_init tb_zero) ts = Some tb \<and> take (tb_filled tb) (tb_timing tb) = take MAX_TIMINGS (sort ts)"
proof -
  have "tb_ok (tb_init tb_zero)" "tb_timings (tb_init tb_zero) = take MAX_TIMINGS (sort [])"
    by (simp_all add: tb_ok_def tb_init_def tb_zero_def tb_timings_def)
  from tb_add_all_ok [OF this, of ts] show ?thesis by (auto simp: tb_timings_def)
qed


subsection \<open>The invariant\<close>

definition times_ok :: "timing_buffer list \<Rightarrow> nat list \<Rightarrow> bool" where
  "times_ok tbs ptrs \<longleftrightarrow> length tbs = MAX_BUFFERS \<and> list_all tb_ok tbs \<and> length ptrs = MAX_BUFFERS \<and> list_all (\<lambda>b. b < MAX_BUFFERS) ptrs"

definition slot_ok :: "nat \<Rightarrow> jitter_packet \<Rightarrow> bool" where
  "slot_ok n p \<longleftrightarrow> (case jp_data p of None \<Rightarrow> True | Some d \<Rightarrow> unat (jp_len p) \<le> length d \<and> unat (jp_len p) \<le> n)"

definition jb_ok :: "nat \<Rightarrow> jitter_buffer \<Rightarrow> bool" where
  "jb_ok n jb \<longleftrightarrow> length (jb_packets jb) = MAX_BUFFER \<and> length (jb_arrival jb) = MAX_BUFFER \<and>
     times_ok (jb_tb jb) (jb_timeBuffers jb) \<and> jb_delay_step jb \<noteq> 0 \<and> jb_concealment_size jb \<noteq> 0 \<and>
     list_all (slot_ok n) (jb_packets jb)"

lemma list_all_update: "list_all P xs \<Longrightarrow> P x \<Longrightarrow> list_all P (xs[i := x])"
  by (auto simp: list_all_iff dest: set_update_subset_insert [THEN subsetD])

lemma update_timings_ok:
  assumes "times_ok (jb_tb jb) (jb_timeBuffers jb)"
  shows "\<exists>tbs ptrs. update_timings jb t = Some (jb\<lparr>jb_tb := tbs, jb_timeBuffers := ptrs\<rparr>) \<and> times_ok tbs ptrs"
proof -
  have l: "length (jb_tb jb) = 3" "length (jb_timeBuffers jb) = 3" and tb: "list_all tb_ok (jb_tb jb)"
    and pb: "list_all (\<lambda>b. b < 3) (jb_timeBuffers jb)"
    using assms by (simp_all add: times_ok_def MAX_BUFFERS_def)
  obtain b0 b1 b2 where bs: "jb_timeBuffers jb = [b0, b1, b2]" using l(2) by (auto simp: numeral_3_eq_3 length_Suc_conv)
  then have b: "b0 < 3" "b1 < 3" "b2 < 3" using pb by simp_all
  have t: "tb_ok (jb_tb jb ! i)" if "i < 3" for i using tb l(1) that by (simp add: list_all_length)
  define t' where "t' = (let timing = (if t < -32767 then -32767 else t) in if timing > 32767 then 32767 else timing)"
  show ?thesis
  proof (cases "tb_curr_count (jb_tb jb ! b0) \<ge> jb_subwindow_size jb")
    case True
    let ?tbs = "(jb_tb jb)[b2 := tb_init (jb_tb jb ! b2)]"
    have "tb_ok (tb_init (jb_tb jb ! b2))" using t [OF b(3)] by (simp add: tb_ok_def tb_init_def)
    then obtain x where x: "tb_add (?tbs ! b2) t' = Some x" "tb_ok x" using tb_add_ok b(3) l(1) by fastforce
    have "update_timings jb t = Some (jb\<lparr>jb_tb := ?tbs[b2 := x], jb_timeBuffers := [b2, b0, b1]\<rparr>)"
      using True b l x(1) by (simp add: update_timings_def bs MAX_BUFFERS_def t'_def numeral_2_eq_2 Let_def)
    moreover have "times_ok (?tbs[b2 := x]) [b2, b0, b1]"
      using tb l b x(2) by (simp add: times_ok_def MAX_BUFFERS_def list_all_update)
    ultimately show ?thesis by blast
  next
    case False
    obtain x where x: "tb_add (jb_tb jb ! b0) t' = Some x" "tb_ok x" using tb_add_ok [OF t [OF b(1)]] by blast
    have "update_timings jb t = Some (jb\<lparr>jb_tb := (jb_tb jb)[b0 := x], jb_timeBuffers := [b0, b1, b2]\<rparr>)"
      using False b l x(1) bs by (simp add: update_timings_def MAX_BUFFERS_def t'_def Let_def)
    moreover have "times_ok ((jb_tb jb)[b0 := x]) [b0, b1, b2]"
      using tb l b x(2) by (simp add: times_ok_def MAX_BUFFERS_def list_all_update)
    ultimately show ?thesis by blast
  qed
qed

lemma tb_shift_ok:
  assumes "tb_ok tb"
  shows "\<exists>tb'. tb_shift amount tb = Some tb' \<and> tb_ok tb'"
proof -
  let ?h = "\<lambda>i. s32 (tb_timing tb ! i + amount)"
  have "\<exists>b. forUpd (\<lambda>j a. map_option (\<lambda>x. s32 (x + amount)) (rd a j)) [0..<tb_filled tb] (tb_timing tb) = Some b \<and>
      length b = length (tb_timing tb) \<and>
      (\<forall>i < length (tb_timing tb). b ! i = (if i \<in> set [0..<tb_filled tb] then ?h i else tb_timing tb ! i))"
    by (rule forUpd_pointwise [where g = "\<lambda>i x. Some (s32 (x + amount))"]) (use assms in \<open>auto simp: tb_ok_def\<close>)
  then show ?thesis using assms by (auto simp: tb_shift_def tb_ok_def)
qed

lemma shift_timings_ok:
  assumes "times_ok (jb_tb jb) (jb_timeBuffers jb)"
  shows "\<exists>tbs. shift_timings jb amount = Some (jb\<lparr>jb_tb := tbs\<rparr>) \<and> times_ok tbs (jb_timeBuffers jb)"
proof -
  have sh: "list_all (\<lambda>b. b < MAX_BUFFERS) bs \<Longrightarrow> length tbs = MAX_BUFFERS \<Longrightarrow> list_all tb_ok tbs \<Longrightarrow>
      \<exists>tbs'. shiftBuffers amount bs tbs = Some tbs' \<and> length tbs' = MAX_BUFFERS \<and> list_all tb_ok tbs'" for bs tbs
  proof (induction bs arbitrary: tbs)
    case (Cons b bs)
    then have "tb_ok (tbs ! b)" by (simp add: list_all_iff)
    then obtain tb' where tb': "tb_shift amount (tbs ! b) = Some tb'" "tb_ok tb'" using tb_shift_ok by blast
    from Cons.IH [of "tbs[b := tb']"] Cons.prems tb' show ?case by (simp add: list_all_update)
  qed simp
  then obtain tbs where "shiftBuffers amount (jb_timeBuffers jb) (jb_tb jb) = Some tbs" "length tbs = MAX_BUFFERS" "list_all tb_ok tbs"
    using assms sh [of "jb_timeBuffers jb" "jb_tb jb"] by (auto simp: times_ok_def)
  then show ?thesis using assms by (auto simp: shift_timings_def times_ok_def)
qed

lemma pickLatest_ok:
  assumes "length tbs = m" "list_all tb_ok tbs" "length pos = m" and "j + n = m" and "\<forall>i. next = Some i \<longrightarrow> i < m"
  shows "\<exists>next' latest'. pickLatest tbs pos j n next latest = Some (next', latest') \<and> (\<forall>i. next' = Some i \<longrightarrow> i < m)"
  using assms(4,5)
proof (induction n arbitrary: j "next" latest)
  case (Suc n)
  have "tb_ok (tbs ! j)" using assms(1,2) Suc.prems(1) by (simp add: list_all_length)
  then have "pos ! j < tb_filled (tbs ! j) \<Longrightarrow> pos ! j < length (tb_timing (tbs ! j))" by (simp add: tb_ok_def)
  then show ?case
    using Suc.IH [of "Suc j" "Some j"] Suc.IH [of "Suc j" "next"] Suc.prems assms(1,3) by auto
qed simp

lemma delayLoop_ok:
  assumes "length tbs = MAX_BUFFERS" "list_all tb_ok tbs" "step \<noteq> 0" and "length (ds_pos ds) = MAX_BUFFERS"
  shows "\<exists>ds'. delayLoop tbs step f first n ds = Some ds'"
  using assms(4)
proof (induction n arbitrary: ds first)
  case (Suc n)
  obtain nx latest where p: "pickLatest tbs (ds_pos ds) 0 MAX_BUFFERS None 32767 = Some (nx, latest)" "\<forall>i. nx = Some i \<longrightarrow> i < MAX_BUFFERS"
    using pickLatest_ok [OF assms(1,2) Suc.prems, of 0 MAX_BUFFERS None 32767] by auto
  show ?case
  proof (cases nx)
    case None
    then show ?thesis by (simp add: delayStep_def p(1))
  next
    case (Some i)
    then have "i < length (ds_pos ds)" using p(2) Suc.prems by simp
    moreover obtain r where "ROUND_DOWN latest step = Some r" using assms(3) by (simp add: ROUND_DOWN_def)
    ultimately have "\<exists>ds1. delayStep tbs step f first ds = Some (Some ds1) \<and> length (ds_pos ds1) = MAX_BUFFERS"
      using Suc.prems by (simp add: delayStep_def p(1) Some Let_def)
    then show ?thesis using Suc.IH by auto
  qed
qed simp

lemma compute_opt_delay_ok:
  assumes "times_ok (jb_tb jb) (jb_timeBuffers jb)" and "jb_delay_step jb \<noteq> 0"
  shows "\<exists>opt x. compute_opt_delay jb = Some (opt, jb\<lparr>jb_auto_tradeoff := x\<rparr>)"
proof (cases "foldl (\<lambda>n tb. s32 (n + tb_curr_count tb)) 0 (jb_tb jb) = 0")
  case True
  then have "compute_opt_delay jb = Some (0, jb\<lparr>jb_auto_tradeoff := jb_auto_tradeoff jb\<rparr>)" by (simp add: compute_opt_delay_def)
  then show ?thesis by blast
next
  case False
  define tot where "tot = foldl (\<lambda>n tb. s32 (n + tb_curr_count tb)) 0 (jb_tb jb)"
  define f where "f = (if jb_latency_tradeoff jb \<noteq> 0
      then float32 (float32 (float32 (of_int (jb_latency_tradeoff jb)) * 100) / float32 (of_int tot))
      else float32 (of_int (s32 (jb_auto_tradeoff jb * jb_window_size jb) sdiv tot)))"
  define ds where "ds = \<lparr>ds_opt = 0, ds_best_cost = 0x7fffffff, ds_late = 0, ds_pos = replicate MAX_BUFFERS 0,
       ds_penalty_taken = False, ds_best = 0, ds_worst = 0\<rparr>"
  have "\<exists>ds'. delayLoop (jb_tb jb) (jb_delay_step jb) f True TOP_DELAY ds = Some ds'"
    by (rule delayLoop_ok) (use assms in \<open>simp_all add: times_ok_def ds_def\<close>)
  then obtain ds' where "delayLoop (jb_tb jb) (jb_delay_step jb) f True TOP_DELAY ds = Some ds'" by blast
  then show ?thesis using False
    unfolding compute_opt_delay_def tot_def [symmetric] f_def [symmetric] ds_def [symmetric] Let_def by auto
qed


subsection \<open>The slots\<close>

lemma firstSlot_Some: "firstSlot P ps = Some i \<Longrightarrow> i < length ps \<and> P (ps ! i)"
  by (induction ps arbitrary: i) (auto split: if_splits)

lemma firstSlot_None: "firstSlot P ps = None \<longleftrightarrow> (\<forall>p \<in> set ps. \<not> P p)"
  by (induction ps) auto

lemma findEarliest_Some:
  "findEarliest pointer desired ps i best = Some k \<Longrightarrow>
   (\<exists>t s. best = Some (t, s, k)) \<or> i \<le> k \<and> k < i + length ps \<and> \<not> jp_empty (ps ! (k - i))"
proof (induction ps arbitrary: i best)
  case (Cons p ps)
  show ?case
  proof (cases "findEarliest pointer desired ps (i + 1) best = Some k")
    case True
    from Cons.IH [OF this] show ?thesis by (auto simp: nth_Cons')
  next
    case False
    with Cons.prems have "\<not> jp_empty p" "findEarliest pointer desired ps (i + 1) (Some (jp_timestamp p, jp_span p, i)) = Some k"
      by (auto split: if_splits option.splits prod.splits)
    from Cons.IH [OF this(2)] this(1) show ?thesis by (auto simp: nth_Cons')
  qed
qed auto

lemma bestSlot_Some:
  assumes "bestSlot ps pointer desired = Some i"
  shows "i < length ps \<and> \<not> jp_empty (ps ! i)"
  using assms findEarliest_Some [of pointer desired ps 0 None i]
  by (auto simp: bestSlot_def Let_def split: option.splits dest!: firstSlot_Some)

lemma evictSlot_ok: "i < length ps \<Longrightarrow> j + n \<le> length ps \<Longrightarrow> \<exists>k < length ps. evictSlot ps j n i e = Some k"
  by (induction n arbitrary: i j e) auto

lemma freeSlot_ok:
  assumes "length ps = MAX_BUFFER"
  shows "\<exists>i < length ps. freeSlot ps = Some i"
proof (cases "firstSlot jp_empty ps")
  case None
  then show ?thesis using assms evictSlot_ok [of 0 ps 1 "MAX_BUFFER - 1"] by (simp add: freeSlot_def MAX_BUFFER_def)
next
  case (Some i)
  then show ?thesis using firstSlot_Some by (fastforce simp: freeSlot_def)
qed

type_synonym jitter_content = "byte list \<times> u32 \<times> u32 \<times> u32 \<times> u16 \<times> u32"

definition content :: "jitter_packet \<Rightarrow> jitter_content" where
  "content p = (take (unat (jp_len p)) (the (jp_data p)), jp_len p, jp_timestamp p, jp_span p, jp_sequence p, jp_user_data p)"

definition held :: "jitter_packet \<Rightarrow> jitter_content multiset" where
  "held p = (if jp_empty p then {#} else {#content p#})"

definition stored :: "jitter_packet list \<Rightarrow> jitter_content multiset" where
  "stored ps = sum_list (map held ps)"

lemma stored_update: "i < length ps \<Longrightarrow> stored (ps[i := q]) + held (ps ! i) = stored ps + held q"
  by (induction ps arbitrary: i) (auto simp: stored_def nth_Cons' less_Suc_eq_0_disj ac_simps split: nat.splits)

lemma stored_put:
  assumes "i < length ps" and "held q \<subseteq># M"
  shows "stored (ps[i := q]) \<subseteq># stored ps + M"
proof -
  have "stored (ps[i := q]) \<subseteq># stored (ps[i := q]) + held (ps ! i)" by simp
  also have "\<dots> = stored ps + held q" using stored_update [OF assms(1)] .
  also have "\<dots> \<subseteq># stored ps + M" using assms(2) by simp
  finally show ?thesis .
qed

lemma stored_empty: "stored (map (\<lambda>p. p\<lparr>jp_data := None\<rparr>) ps) = {#}"
  by (induction ps) (simp_all add: stored_def held_def jp_empty_def)

lemma stored_drop_some: "stored (map (\<lambda>p. if P p then p\<lparr>jp_data := None\<rparr> else p) ps) \<subseteq># stored ps"
proof (induction ps)
  case (Cons p ps)
  have "held (if P p then p\<lparr>jp_data := None\<rparr> else p) \<subseteq># held p" by (simp add: held_def jp_empty_def)
  from subset_mset.add_mono [OF this Cons.IH] show ?case by (simp add: stored_def)
qed (simp add: stored_def)

lemma held_emptied [simp]: "held (p\<lparr>jp_data := None\<rparr>) = {#}"
  by (simp add: held_def jp_empty_def)

lemma slot_ok_emptied [simp]: "slot_ok n (p\<lparr>jp_data := None\<rparr>)"
  by (simp add: slot_ok_def)


subsection \<open>The operations\<close>

lemma jb_ok_times:
  assumes "jb_ok n jb" and "times_ok tbs ptrs"
  shows "jb_ok n (jb\<lparr>jb_tb := tbs, jb_timeBuffers := ptrs\<rparr>)"
  using assms by (simp add: jb_ok_def)

lemma update_timings_inv:
  assumes "jb_ok n jb"
  shows "\<exists>jb'. update_timings jb t = Some jb' \<and> jb_ok n jb' \<and> jb_packets jb' = jb_packets jb \<and> jb_destroy jb' = jb_destroy jb"
proof -
  have "times_ok (jb_tb jb) (jb_timeBuffers jb)" using assms by (simp add: jb_ok_def)
  from update_timings_ok [OF this, of t] show ?thesis using jb_ok_times [OF assms] by fastforce
qed

lemma shift_timings_inv:
  assumes "jb_ok n jb"
  shows "\<exists>jb'. shift_timings jb t = Some jb' \<and> jb_ok n jb' \<and> jb_packets jb' = jb_packets jb"
proof -
  have "times_ok (jb_tb jb) (jb_timeBuffers jb)" using assms by (simp add: jb_ok_def)
  from shift_timings_ok [OF this, of t] show ?thesis using assms by (auto simp: jb_ok_def)
qed

lemma compute_opt_delay_inv:
  assumes "jb_ok n jb"
  shows "\<exists>opt jb'. compute_opt_delay jb = Some (opt, jb') \<and> jb_ok n jb' \<and> jb_packets jb' = jb_packets jb"
  using compute_opt_delay_ok [of jb] assms by (fastforce simp: jb_ok_def)

lemma reset_inv:
  assumes "jb_ok n jb"
  shows "jb_ok n (jitter_buffer_reset jb)" "stored (jb_packets (jitter_buffer_reset jb)) = {#}"
  using assms
  by (auto simp: jb_ok_def jitter_buffer_reset_def times_ok_def list_all_iff tb_ok_def tb_init_def MAX_BUFFERS_def stored_empty)

lemma cleanLate_inv:
  assumes "jb_ok n jb"
  shows "jb_ok n (cleanLate jb)" "stored (jb_packets (cleanLate jb)) \<subseteq># stored (jb_packets jb)"
  using assms stored_drop_some by (auto simp: jb_ok_def cleanLate_def list_all_iff)

text \<open>A packet the caller gives, and a buffer it provides.\<close>

definition given_ok :: "nat \<Rightarrow> jitter_packet \<Rightarrow> bool" where
  "given_ok n p \<longleftrightarrow> (\<exists>d. jp_data p = Some d \<and> unat (jp_len p) \<le> length d \<and> unat (jp_len p) \<le> n)"

definition room_ok :: "nat \<Rightarrow> jitter_packet \<Rightarrow> bool" where
  "room_ok n p \<longleftrightarrow> (\<exists>d. jp_data p = Some d \<and> n \<le> length d \<and> n \<le> unat (jp_len p))"

definition allocs :: "(nat \<Rightarrow> bool) \<Rightarrow> bool" where
  "allocs ok \<longleftrightarrow> (\<forall>n. 0 < n \<longrightarrow> ok n)"

lemma storeData_ok:
  assumes "given_ok n p" and "allocs ok"
  shows "\<exists>d. storeData ok destroy p = Some d \<and> slot_ok n (p\<lparr>jp_data := d\<rparr>) \<and> held (p\<lparr>jp_data := d\<rparr>) \<subseteq># {#content p#}"
proof -
  obtain d where d: "jp_data p = Some d" "unat (jp_len p) \<le> length d" "unat (jp_len p) \<le> n" using assms(1) by (auto simp: given_ok_def)
  have "ok (unat (jp_len p)) \<or> unat (jp_len p) = 0" using assms(2) by (auto simp: allocs_def)
  then show ?thesis using d
    by (cases destroy; cases "ok (unat (jp_len p))")
      (simp_all add: storeData_def blit_Some Let_def slot_ok_def held_def jp_empty_def content_def)
qed

lemma put_inv:
  assumes ok: "jb_ok n jb" and p: "given_ok n p" and al: "allocs ok"
  shows "\<exists>jb'. jitter_buffer_put ok jb p = Some jb' \<and> jb_ok n jb' \<and>
    stored (jb_packets jb') \<subseteq># stored (jb_packets jb) + {#content p#}"
proof -
  let ?j0 = "cleanLate jb"
  define t where "t = sint (jp_timestamp p - jb_next_stop ?j0 - of_int (jb_buffer_margin ?j0))"
  define b where "b = (\<not> jb_reset_state ?j0 \<and> LT32 (jp_timestamp p) (jb_next_stop ?j0))"
  obtain j1 where j1: "(if b then map_option (\<lambda>j. (j, True)) (update_timings ?j0 t) else Some (?j0, False)) = Some (j1, b)"
      "jb_ok n j1" "jb_packets j1 = jb_packets ?j0"
    using update_timings_inv [OF cleanLate_inv(1) [OF ok], of t] cleanLate_inv(1) [OF ok] by (cases b) auto
  define j2 where "j2 = (if jb_lost_count j1 > 20 then jitter_buffer_reset j1 else j1)"
  have j2: "jb_ok n j2" "stored (jb_packets j2) \<subseteq># stored (jb_packets jb)"
    using reset_inv [OF j1(2)] j1(2,3) cleanLate_inv(2) [OF ok] by (auto simp: j2_def)
  note u = jitter_buffer_put_def Let_def t_def [symmetric] b_def [symmetric] j1(1) Option.bind.simps prod.case j2_def [symmetric]
  show ?thesis
  proof (cases "jb_reset_state j2 \<or> GE32 (jp_timestamp p + jp_span p + of_int (jb_delay_step j2)) (jb_pointer_timestamp j2)")
    case False
    then have "jitter_buffer_put ok jb p = Some j2" unfolding u by (simp only: if_False)
    then show ?thesis using j2 subset_mset.order_trans by fastforce
  next
    case True
    obtain i where i: "i < length (jb_packets j2)" "freeSlot (jb_packets j2) = Some i"
      using freeSlot_ok j2(1) by (auto simp: jb_ok_def)
    obtain d where d: "storeData ok (jb_destroy j2) p = Some d" "slot_ok n (p\<lparr>jp_data := d\<rparr>)" "held (p\<lparr>jp_data := d\<rparr>) \<subseteq># {#content p#}"
      using storeData_ok [OF p al] by blast
    let ?ps = "(jb_packets j2)[i := p\<lparr>jp_data := d\<rparr>]"
    have ia: "i < length (jb_arrival j2)" using i(1) j2(1) by (simp add: jb_ok_def)
    define x where "x = (if jb_reset_state j2 \<or> b then 0 else jb_next_stop j2)"
    let ?j = "j2\<lparr>jb_packets := ?ps, jb_arrival := (jb_arrival j2)[i := x]\<rparr>"
    have put: "jitter_buffer_put ok jb p = Some ?j"
      unfolding u x_def [symmetric] if_P [OF True] i(2) d(1) wr_Some [OF i(1)] wr_Some [OF ia] Option.bind.simps ..
    have "stored ?ps \<subseteq># stored (jb_packets j2) + {#content p#}" by (rule stored_put [OF i(1) d(3)])
    from subset_mset.order_trans [OF this subset_mset.add_right_mono [OF j2(2)]]
    have "stored ?ps \<subseteq># stored (jb_packets jb) + {#content p#}" .
    moreover have "jb_packets ?j = ?ps" by simp
    ultimately have "stored (jb_packets ?j) \<subseteq># stored (jb_packets jb) + {#content p#}" by (simp only:)
    moreover have "jb_ok n ?j" using j2(1) d(2) by (simp add: jb_ok_def list_all_update)
    ultimately show ?thesis using put by blast
  qed
qed

text \<open>What a call hands out.\<close>

definition handed :: "int \<Rightarrow> jitter_packet \<Rightarrow> jitter_content multiset" where
  "handed ret p = (if ret = JITTER_BUFFER_OK then {#content p#} else {#})"

lemma slot_data:
  assumes "jb_ok n jb" and "i < length (jb_packets jb)" and "\<not> jp_empty (jb_packets jb ! i)"
  obtains d where "jp_data (jb_packets jb ! i) = Some d" "unat (jp_len (jb_packets jb ! i)) \<le> length d"
    "unat (jp_len (jb_packets jb ! i)) \<le> n" "held (jb_packets jb ! i) = {#content (jb_packets jb ! i)#}"
proof -
  have "slot_ok n (jb_packets jb ! i)" using assms(1,2) by (simp add: jb_ok_def list_all_length)
  then show ?thesis using assms(3) that by (auto simp: slot_ok_def held_def jp_empty_def)
qed

lemma copyOut_ok:
  assumes "m \<le> length d" and "m \<le> length b"
  shows "\<exists>e. copyOut (Some d) (Some b) m = Some (Some e) \<and> take m e = take m d"
  using assms by (auto simp: copyOut_def blit_Some)

lemma takeSlot_inv:
  assumes ok: "jb_ok n jb" and i: "i < length (jb_packets jb)" "\<not> jp_empty (jb_packets jb ! i)" and room: "room_ok n buf"
  shows "\<exists>q off jb'. takeSlot jb i (jb_packets jb ! i) buf desired w = Some (JITTER_BUFFER_OK, q, off, jb') \<and> jb_ok n jb' \<and>
    {#content q#} + stored (jb_packets jb') = stored (jb_packets jb)"
proof -
  define p where "p = jb_packets jb ! i"
  obtain d where d: "jp_data p = Some d" "unat (jp_len p) \<le> length d" "unat (jp_len p) \<le> n" "held p = {#content p#}"
    using slot_data [OF ok i] unfolding p_def by blast
  obtain b where b: "jp_data buf = Some b" "n \<le> length b" "n \<le> unat (jp_len buf)" using room by (auto simp: room_ok_def)
  have len: "\<not> jp_len p > jp_len buf" using d(3) b(3) by (simp add: word_less_nat_alt)
  define e where "e = (if jb_destroy jb then Some (jp_data p) else copyOut (jp_data p) (jp_data buf) (unat (jp_len p)))"
  obtain x where x: "e = Some (Some x)" "take (unat (jp_len p)) x = take (unat (jp_len p)) d"
    using copyOut_ok [of "unat (jp_len p)" d b] d b by (cases "jb_destroy jb") (auto simp: e_def)
  define j0 where "j0 = jb\<lparr>jb_lost_count := 0\<rparr>"
  define arr where "arr = jb_arrival jb ! i"
  have ia: "rd (jb_arrival j0) i = Some arr" using ok i(1) by (simp add: j0_def jb_ok_def arr_def)
  have j0: "jb_ok n j0" "jb_packets j0 = jb_packets jb" "jb_destroy j0 = jb_destroy jb" using ok by (simp_all add: j0_def jb_ok_def)
  obtain j1 where j1: "(if arr \<noteq> 0 then update_timings j0 (sint (jp_timestamp p - arr - of_int (jb_buffer_margin j0)))
        else Some j0) = Some j1" "jb_ok n j1" "jb_packets j1 = jb_packets jb" "jb_destroy j1 = jb_destroy jb"
    using update_timings_inv [OF j0(1), of "sint (jp_timestamp p - arr - of_int (jb_buffer_margin j0))"] j0
    by (cases "arr = 0") auto
  have upd: "jb_ok n (j1\<lparr>jb_packets := (jb_packets jb)[i := p\<lparr>jp_data := None\<rparr>], jb_last_returned_timestamp := l,
         jb_pointer_timestamp := pt, jb_buffered := bu\<rparr>)" for l pt bu
    using j1(2,3) by (simp add: jb_ok_def list_all_update)
  have "\<exists>off jb'. takeSlot jb i p buf desired w = Some (JITTER_BUFFER_OK,
      \<lparr>jp_data = Some x, jp_len = jp_len p, jp_timestamp = jp_timestamp p, jp_span = jp_span p,
       jp_sequence = jp_sequence p, jp_user_data = jp_user_data p\<rparr>, off, jb') \<and>
      jb_ok n jb' \<and> jb_packets jb' = (jb_packets jb)[i := p\<lparr>jp_data := None\<rparr>]"
    unfolding takeSlot_def Let_def j0_def [symmetric] ia Option.bind.simps j1(1) j1(4)
    using len x(1) by (auto simp: e_def j1(3) upd)
  moreover have "{#content p#} + stored ((jb_packets jb)[i := p\<lparr>jp_data := None\<rparr>]) = stored (jb_packets jb)"
    using stored_update [OF i(1), of "p\<lparr>jp_data := None\<rparr>"] d(4) by (simp add: p_def)
  moreover have "content \<lparr>jp_data = Some x, jp_len = jp_len p, jp_timestamp = jp_timestamp p, jp_span = jp_span p,
       jp_sequence = jp_sequence p, jp_user_data = jp_user_data p\<rparr> = content p"
    using x(2) d(1) by (simp add: content_def)
  ultimately show ?thesis unfolding p_def [symmetric] by fastforce
qed


lemma ROUND_DOWN_ok: "step \<noteq> 0 \<Longrightarrow> \<exists>r. ROUND_DOWN x step = Some r"
  by (simp add: ROUND_DOWN_def)

lemma nothingFound_inv:
  assumes "jb_ok n jb"
  shows "\<exists>ret q off jb'. nothingFound jb buf desired w = Some (ret, q, off, jb') \<and> ret \<noteq> JITTER_BUFFER_OK \<and> jb_ok n jb' \<and>
    jb_packets jb' = jb_packets jb"
proof -
  define j0 where "j0 = jb\<lparr>jb_lost_count := s32 (jb_lost_count jb + 1)\<rparr>"
  have j0: "jb_ok n j0" "jb_packets j0 = jb_packets jb" using assms by (simp_all add: j0_def jb_ok_def)
  obtain opt j1 where j1: "compute_opt_delay j0 = Some (opt, j1)" "jb_ok n j1" "jb_packets j1 = jb_packets jb"
    using compute_opt_delay_inv [OF j0(1)] j0(2) by auto
  obtain j2 where j2: "shift_timings j1 (s16 (- opt)) = Some j2" "jb_ok n j2" "jb_packets j2 = jb_packets jb"
    using shift_timings_inv [OF j1(2)] j1(3) by fastforce
  obtain r where r: "ROUND_DOWN desired (jb_concealment_size j1) = Some r" using ROUND_DOWN_ok j1(2) by (fastforce simp: jb_ok_def)
  show ?thesis
  proof (cases "opt < 0")
    case True
    then show ?thesis using j2 unfolding nothingFound_def Let_def j0_def [symmetric] j1(1)
      by (simp add: JITTER_BUFFER_INSERTION_def JITTER_BUFFER_OK_def jb_ok_def)
  next
    case False
    then show ?thesis using j1(2,3) unfolding nothingFound_def Let_def j0_def [symmetric] j1(1)
      by (simp add: r JITTER_BUFFER_MISSING_def JITTER_BUFFER_OK_def jb_ok_def)
  qed
qed

lemma get_inv:
  assumes ok: "jb_ok n jb" and room: "room_ok n buf"
  shows "\<exists>ret q off jb'. jitter_buffer_get jb buf desired w = Some (ret, q, off, jb') \<and> jb_ok n jb' \<and>
    handed ret q + stored (jb_packets jb') = stored (jb_packets jb)"
proof (cases "jb_reset_state jb \<and> findOldest (jb_packets jb) None = None")
  case True
  then show ?thesis using ok by (simp add: jitter_buffer_get_def handed_def JITTER_BUFFER_MISSING_def JITTER_BUFFER_OK_def)
next
  case False
  define oldest where "oldest = findOldest (jb_packets jb) None"
  define j0 where "j0 = (if jb_reset_state jb
      then jb\<lparr>jb_reset_state := False, jb_pointer_timestamp := the oldest, jb_next_stop := the oldest\<rparr> else jb)"
  define j1 where "j1 = j0\<lparr>jb_last_returned_timestamp := jb_pointer_timestamp j0\<rparr>"
  have j1: "jb_ok n j1" "jb_packets j1 = jb_packets jb" using ok by (auto simp: j1_def j0_def jb_ok_def)
  note u = jitter_buffer_get_def Let_def if_not_P [OF False [folded oldest_def]] oldest_def [symmetric] j0_def [symmetric]
    j1_def [symmetric]
  show ?thesis
  proof (cases "jb_interp_requested j1 \<noteq> 0")
    case True
    then show ?thesis using j1 unfolding u
      by (simp add: handed_def JITTER_BUFFER_INSERTION_def JITTER_BUFFER_OK_def jb_ok_def)
  next
    case no_interp: False
    show ?thesis
    proof (cases "bestSlot (jb_packets j1) (jb_pointer_timestamp j1) desired")
      case None
      with nothingFound_inv [OF j1(1), of buf desired w] no_interp j1(2) show ?thesis
        unfolding u by (auto simp: handed_def)
    next
      case (Some i)
      with bestSlot_Some have i: "i < length (jb_packets j1)" "\<not> jp_empty (jb_packets j1 ! i)" by blast+
      with takeSlot_inv [OF j1(1) i room, of desired w] Some no_interp j1(2) show ?thesis
        unfolding u by (auto simp: handed_def)
    qed
  qed
qed

lemma get_another_inv:
  assumes ok: "jb_ok n jb" and room: "room_ok n buf"
  shows "\<exists>ret q jb'. jitter_buffer_get_another jb buf = Some (ret, q, jb') \<and> jb_ok n jb' \<and>
    handed ret q + stored (jb_packets jb') = stored (jb_packets jb)"
proof (cases "firstSlot (\<lambda>p. \<not> jp_empty p \<and> jp_timestamp p = jb_last_returned_timestamp jb) (jb_packets jb)")
  case None
  then show ?thesis using ok
    by (simp add: jitter_buffer_get_another_def handed_def JITTER_BUFFER_MISSING_def JITTER_BUFFER_OK_def)
next
  case (Some i)
  with firstSlot_Some have i: "i < length (jb_packets jb)" "\<not> jp_empty (jb_packets jb ! i)" by fastforce+
  define p where "p = jb_packets jb ! i"
  obtain d where d: "jp_data p = Some d" "unat (jp_len p) \<le> length d" "unat (jp_len p) \<le> n" "held p = {#content p#}"
    using slot_data [OF ok i] unfolding p_def by blast
  obtain b where b: "jp_data buf = Some b" "n \<le> length b" using room by (auto simp: room_ok_def)
  define e where "e = (if jb_destroy jb then Some (jp_data p) else copyOut (jp_data p) (jp_data buf) (unat (jp_len p)))"
  obtain x where x: "e = Some (Some x)" "take (unat (jp_len p)) x = take (unat (jp_len p)) d"
    using copyOut_ok [of "unat (jp_len p)" d b] d b by (cases "jb_destroy jb") (auto simp: e_def)
  have "jitter_buffer_get_another jb buf = Some (JITTER_BUFFER_OK, p\<lparr>jp_data := Some x\<rparr>,
      jb\<lparr>jb_packets := (jb_packets jb)[i := p\<lparr>jp_data := None\<rparr>]\<rparr>)"
    unfolding jitter_buffer_get_another_def Some option.case rd_Some [OF i(1)] Option.bind.simps p_def [symmetric]
      e_def [symmetric] x(1) ..
  moreover have "content (p\<lparr>jp_data := Some x\<rparr>) = content p" using x(2) d(1) by (simp add: content_def)
  moreover have "{#content p#} + stored ((jb_packets jb)[i := p\<lparr>jp_data := None\<rparr>]) = stored (jb_packets jb)"
    using stored_update [OF i(1), of "p\<lparr>jp_data := None\<rparr>"] d(4) by (simp add: p_def)
  moreover have "jb_ok n (jb\<lparr>jb_packets := (jb_packets jb)[i := p\<lparr>jp_data := None\<rparr>]\<rparr>)"
    using ok by (simp add: jb_ok_def list_all_update)
  ultimately show ?thesis by (simp add: handed_def)
qed

lemma update_delay_inv:
  assumes "jb_ok n jb"
  shows "\<exists>opt jb'. jb_update_delay jb = Some (opt, jb') \<and> jb_ok n jb' \<and> jb_packets jb' = jb_packets jb"
proof -
  obtain opt j1 where j1: "compute_opt_delay jb = Some (opt, j1)" "jb_ok n j1" "jb_packets j1 = jb_packets jb"
    using compute_opt_delay_inv [OF assms] by auto
  obtain j2 where "shift_timings j1 (s16 (- opt)) = Some j2" "jb_ok n j2" "jb_packets j2 = jb_packets jb"
    using shift_timings_inv [OF j1(2)] j1(3) by fastforce
  with j1 show ?thesis by (auto simp: jb_update_delay_def jb_ok_def)
qed

lemma autoAdjust_inv:
  assumes "jb_ok n jb"
  shows "\<exists>jb'. autoAdjust jb = Some jb' \<and> jb_ok n jb' \<and> jb_packets jb' = jb_packets jb"
  using update_delay_inv [OF assms] assms by (auto simp: autoAdjust_def)


subsection \<open>Any sequence of calls\<close>

datatype jitter_op = Put jitter_packet | Get jitter_packet int bool | GetAnother jitter_packet | Tick |
  RemainingSpan u32 | UpdateDelay | Reset | Ctl jitter_request int

fun jb_step :: "(nat \<Rightarrow> bool) \<Rightarrow> jitter_op \<Rightarrow> jitter_buffer \<times> jitter_packet list \<Rightarrow> (jitter_buffer \<times> jitter_packet list) option" where
  "jb_step ok (Put p) (jb, out) = map_option (\<lambda>jb. (jb, out)) (jitter_buffer_put ok jb p)"
| "jb_step ok (Get buf desired w) (jb, out) =
     map_option (\<lambda>(ret, p, off, jb). (jb, if ret = JITTER_BUFFER_OK then out @ [p] else out)) (jitter_buffer_get jb buf desired w)"
| "jb_step ok (GetAnother buf) (jb, out) =
     map_option (\<lambda>(ret, p, jb). (jb, if ret = JITTER_BUFFER_OK then out @ [p] else out)) (jitter_buffer_get_another jb buf)"
| "jb_step ok Tick (jb, out) = map_option (\<lambda>jb. (jb, out)) (jitter_buffer_tick jb)"
| "jb_step ok (RemainingSpan rem) (jb, out) = map_option (\<lambda>jb. (jb, out)) (jitter_buffer_remaining_span jb rem)"
| "jb_step ok UpdateDelay (jb, out) = map_option (\<lambda>(opt, jb). (jb, out)) (jitter_buffer_update_delay jb)"
| "jb_step ok Reset (jb, out) = Some (jitter_buffer_reset jb, out)"
| "jb_step ok (Ctl request v) (jb, out) = map_option (\<lambda>(ret, r, jb). (jb, out)) (jitter_buffer_ctl jb request v)"

fun jb_run :: "(nat \<Rightarrow> bool) \<Rightarrow> jitter_op list \<Rightarrow> jitter_buffer \<times> jitter_packet list \<Rightarrow> (jitter_buffer \<times> jitter_packet list) option" where
  "jb_run ok [] x = Some x"
| "jb_run ok (a # as) x = Option.bind (jb_step ok a x) (jb_run ok as)"

text \<open>
  What the documentation asks of the caller: packets with the data they claim, buffers with room for
  any of them, and steps and a rate that are not zero.
\<close>

fun op_ok :: "nat \<Rightarrow> jitter_op \<Rightarrow> bool" where
  "op_ok n (Put p) \<longleftrightarrow> given_ok n p"
| "op_ok n (Get buf desired w) \<longleftrightarrow> room_ok n buf"
| "op_ok n (GetAnother buf) \<longleftrightarrow> room_ok n buf"
| "op_ok n (Ctl request v) \<longleftrightarrow> request \<in> {SetDelayStep, SetConcealmentSize, SetMaxLateRate} \<longrightarrow> v \<noteq> 0"
| "op_ok n _ \<longleftrightarrow> True"

fun puts :: "jitter_op list \<Rightarrow> jitter_content list" where
  "puts [] = []"
| "puts (Put p # as) = content p # puts as"
| "puts (a # as) = puts as"

lemma ctl_inv:
  assumes "jb_ok n jb" and "op_ok n (Ctl request v)"
  shows "\<exists>ret r jb'. jitter_buffer_ctl jb request v = Some (ret, r, jb') \<and> jb_ok n jb' \<and> jb_packets jb' = jb_packets jb"
  using assms by (cases request) (auto simp: jitter_buffer_ctl_def jb_ok_def Let_def)

lemma jb_step_inv:
  assumes ok: "jb_ok n jb" and a: "op_ok n a" and al: "allocs ok"
  shows "\<exists>jb' out'. jb_step ok a (jb, out) = Some (jb', out') \<and> jb_ok n jb' \<and>
    mset (map content out') + stored (jb_packets jb') \<subseteq># mset (map content out) + stored (jb_packets jb) + mset (puts [a])"
proof (cases a)
  case (Put p)
  with put_inv [OF ok _ al] a show ?thesis by fastforce
next
  case (Get buf desired w)
  with get_inv [OF ok, of buf desired w] a obtain ret q off jb' where
    g: "jitter_buffer_get jb buf desired w = Some (ret, q, off, jb')" "jb_ok n jb'"
      "handed ret q + stored (jb_packets jb') = stored (jb_packets jb)" by auto
  from g(3) [symmetric] g(1,2) Get show ?thesis by (simp add: handed_def split: if_splits)
next
  case (GetAnother buf)
  with get_another_inv [OF ok, of buf] a obtain ret q jb' where
    g: "jitter_buffer_get_another jb buf = Some (ret, q, jb')" "jb_ok n jb'"
      "handed ret q + stored (jb_packets jb') = stored (jb_packets jb)" by auto
  from g(3) [symmetric] g(1,2) GetAnother show ?thesis by (simp add: handed_def split: if_splits)
next
  case Tick
  obtain jb' where "autoAdjust jb = Some jb'" "jb_ok n jb'" "jb_packets jb' = jb_packets jb" using autoAdjust_inv [OF ok] by blast
  with Tick show ?thesis by (simp add: jitter_buffer_tick_def jb_ok_def)
next
  case (RemainingSpan rem)
  with autoAdjust_inv [OF ok] show ?thesis by (auto simp: jitter_buffer_remaining_span_def jb_ok_def)
next
  case UpdateDelay
  have "jb_ok n (jb\<lparr>jb_auto_adjust := False\<rparr>)" using ok by (simp add: jb_ok_def)
  from update_delay_inv [OF this] UpdateDelay show ?thesis by (auto simp: jitter_buffer_update_delay_def)
next
  case Reset
  then show ?thesis using reset_inv [OF ok] by simp
next
  case (Ctl request v)
  with ctl_inv [OF ok] a show ?thesis by fastforce
qed

lemma puts_Cons: "puts (a # as) = puts [a] @ puts as"
  by (cases a) simp_all

lemma jb_run_inv:
  assumes "jb_ok n jb" and "\<forall>a \<in> set as. op_ok n a" and "allocs ok"
  shows "\<exists>jb' out'. jb_run ok as (jb, out) = Some (jb', out') \<and> jb_ok n jb' \<and>
    mset (map content out') + stored (jb_packets jb') \<subseteq># mset (map content out) + stored (jb_packets jb) + mset (puts as)"
  using assms(1,2)
proof (induction as arbitrary: jb out)
  case (Cons a as)
  obtain j1 o1 where s: "jb_step ok a (jb, out) = Some (j1, o1)" "jb_ok n j1"
    "mset (map content o1) + stored (jb_packets j1) \<subseteq># mset (map content out) + stored (jb_packets jb) + mset (puts [a])"
    using jb_step_inv [OF Cons.prems(1) _ assms(3), of a out] Cons.prems(2) by auto
  obtain j2 o2 where r: "jb_run ok as (j1, o1) = Some (j2, o2)" "jb_ok n j2"
    "mset (map content o2) + stored (jb_packets j2) \<subseteq># mset (map content o1) + stored (jb_packets j1) + mset (puts as)"
    using Cons.IH [OF s(2), of o1] Cons.prems(2) by auto
  have "mset (map content o2) + stored (jb_packets j2) \<subseteq># mset (map content out) + stored (jb_packets jb) + mset (puts [a]) + mset (puts as)"
    by (rule subset_mset.order_trans [OF r(3) subset_mset.add_right_mono [OF s(3)]])
  with s(1) r(1,2) show ?case by (subst puts_Cons) (simp add: add.assoc)
qed simp

lemma jitter_buffer_init_ok:
  assumes "step \<noteq> 0" and "jitter_buffer_init step = Some jb"
  shows "jb_ok n jb \<and> stored (jb_packets jb) = {#}"
proof -
  have jb: "jb = jitter_buffer_reset (jb_zero\<lparr>jb_delay_step := step, jb_concealment_size := step, jb_buffer_margin := 0,
      jb_late_cutoff := 50, jb_destroy := False, jb_latency_tradeoff := 0, jb_auto_adjust := True,
      jb_max_late_rate := 4, jb_window_size := 4000 sdiv 4, jb_subwindow_size := (4000 sdiv 4) sdiv 3\<rparr>)"
    using assms(2) by (simp add: jitter_buffer_init_def jitter_buffer_ctl_def Let_def TOP_DELAY_def MAX_BUFFERS_def)
  have "tb_ok tb_zero" by (simp add: tb_ok_def tb_zero_def)
  then have "jb_ok n (jb_zero\<lparr>jb_delay_step := step, jb_concealment_size := step, jb_buffer_margin := 0,
      jb_late_cutoff := 50, jb_destroy := False, jb_latency_tradeoff := 0, jb_auto_adjust := True,
      jb_max_late_rate := 4, jb_window_size := 4000 sdiv 4, jb_subwindow_size := (4000 sdiv 4) sdiv 3\<rparr>)"
    using assms(1) by (simp add: jb_ok_def jb_zero_def times_ok_def list_all_iff slot_ok_def jp_zero_def MAX_BUFFERS_def)
  from reset_inv [OF this] show ?thesis unfolding jb by blast
qed

text \<open>C13: The jitter buffer is safe under any use: whatever packets are put, with whatever time stamps and in
  whatever order, however gets, ticks, delay updates, resets and parameter changes are mixed in, every
  call returns without leaving an array or dividing by zero, and what has been handed out together with
  what is still held is at most what was put, each packet with its own data and at most once. It is
  assumed that the caller's buffers have room for every packet and that allocations succeed.\<close>

theorem jitter_buffer_safe:
  assumes "step \<noteq> 0" and "jitter_buffer_init step = Some jb" and "\<forall>a \<in> set as. op_ok n a" and "allocs ok"
  shows "\<exists>jb' out. jb_run ok as (jb, []) = Some (jb', out) \<and>
    mset (map content out) + stored (jb_packets jb') \<subseteq># mset (puts as)"
  using jb_run_inv [OF _ assms(3,4), of jb "[]"] jitter_buffer_init_ok [OF assms(1,2), of n] by auto

theorem jitter_buffer_safe_witness:
  "\<exists>jb' out. jb_run (\<lambda>_. True)
      [Put \<lparr>jp_data = Some [1, 2], jp_len = 2, jp_timestamp = 40, jp_span = 20, jp_sequence = 1, jp_user_data = 0\<rparr>,
       Get \<lparr>jp_data = Some [0, 0, 0], jp_len = 3, jp_timestamp = 0, jp_span = 0, jp_sequence = 0, jp_user_data = 0\<rparr> 20 True,
       Tick, Ctl SetDelayStep 10] (the (jitter_buffer_init 20), []) = Some (jb', out) \<and>
    mset (map content out) + stored (jb_packets jb') \<subseteq>#
    mset (puts [Put \<lparr>jp_data = Some [1, 2], jp_len = 2, jp_timestamp = 40, jp_span = 20, jp_sequence = 1, jp_user_data = 0\<rparr>,
       Get \<lparr>jp_data = Some [0, 0, 0], jp_len = 3, jp_timestamp = 0, jp_span = 0, jp_sequence = 0, jp_user_data = 0\<rparr> 20 True,
       Tick, Ctl SetDelayStep 10])"
  by (rule jitter_buffer_safe [where step = 20 and n = 2])
    (simp_all add: given_ok_def room_ok_def allocs_def jitter_buffer_init_def jitter_buffer_ctl_def Let_def)

text \<open>Asking for another packet is not safe in general: the length of the caller's buffer is not consulted, so
  there is a buffer that holds a packet for which the copy writes past the end of what the caller gave.\<close>

theorem jitter_get_another_overflow:
  "case jb_run (\<lambda>_. True)
       [Put \<lparr>jp_data = Some [1], jp_len = 1, jp_timestamp = 0, jp_span = 20, jp_sequence = 1, jp_user_data = 0\<rparr>,
        Put \<lparr>jp_data = Some [1, 2], jp_len = 2, jp_timestamp = 0, jp_span = 20, jp_sequence = 2, jp_user_data = 0\<rparr>,
        Get \<lparr>jp_data = Some [0], jp_len = 1, jp_timestamp = 0, jp_span = 0, jp_sequence = 0, jp_user_data = 0\<rparr> 20 True]
       (the (jitter_buffer_init 20), []) of
     None \<Rightarrow> False
   | Some (jb, out) \<Rightarrow>
       length out = 1 \<and>
       jitter_buffer_get_another jb \<lparr>jp_data = Some [0], jp_len = 1, jp_timestamp = 0, jp_span = 0, jp_sequence = 0, jp_user_data = 0\<rparr> = None"
  by code_simp

end
