(* ===== verification/SpeexJitterOrder.thy ===== *)
theory SpeexJitterOrder
  imports SpeexJitterSafety
begin

text \<open>
  Playing back through the speech library's jitter buffer: packets that arrive in any order before the
  first one is asked for come out in the order of their time stamps.
\<close>

subsection \<open>Time stamps in a window\<close>

lemma sint_diff_window:
  fixes x y t :: u32
  assumes "unat (x - t) < 2147483648" and "unat (y - t) < 2147483648"
  shows "sint (x - y) = int (unat (x - t)) - int (unat (y - t))"
proof -
  define a b where "a = int (unat (x - t))" and "b = int (unat (y - t))"
  have "x - y = word_of_int (a - b)" by (simp add: a_def b_def)
  then have "sint (x - y) = signed_take_bit 31 (a - b)" using sint_sbintrunc' [where 'a = 32, of "a - b"] by simp
  moreover have "- 2147483648 \<le> a - b" "a - b < 2147483648" using assms unfolding a_def b_def by linarith+
  ultimately have "sint (x - y) = a - b" by (simp add: signed_take_bit_int_eq_self)
  then show ?thesis unfolding a_def b_def .
qed

lemma LT32_window:
  assumes "unat (x - t) < 2147483648" and "unat (y - t) < 2147483648"
  shows "LT32 x y \<longleftrightarrow> unat (x - t) < unat (y - t)"
  unfolding LT32_def sint_diff_window [OF assms] by linarith

lemma findOldest_first:
  assumes "\<forall>p \<in> set ps. \<not> jp_empty p \<longrightarrow> unat (jp_timestamp p - t) < 2147483648"
    and "\<forall>b. best = Some b \<longrightarrow> unat (b - t) < 2147483648"
    and "best = Some t \<or> (\<exists>p \<in> set ps. \<not> jp_empty p \<and> jp_timestamp p = t)"
  shows "findOldest ps best = Some t"
  using assms
proof (induction ps arbitrary: best)
  case (Cons p ps)
  define best' where "best' = (if jp_empty p then best
        else case best of None \<Rightarrow> Some (jp_timestamp p)
             | Some u \<Rightarrow> if LT32 (jp_timestamp p) u then Some (jp_timestamp p) else best)"
  have w: "\<not> jp_empty p \<Longrightarrow> unat (jp_timestamp p - t) < 2147483648" using Cons.prems(1) by simp
  have "\<forall>b. best' = Some b \<longrightarrow> unat (b - t) < 2147483648"
    using w Cons.prems(2) by (auto simp: best'_def split: option.splits)
  moreover have "best' = Some t \<or> (\<exists>p \<in> set ps. \<not> jp_empty p \<and> jp_timestamp p = t)"
  proof (cases "best = Some t")
    case True
    then have "\<not> LT32 (jp_timestamp p) t" if "\<not> jp_empty p" using LT32_window [OF w [OF that], of t] by simp
    with True show ?thesis by (simp add: best'_def)
  next
    case False
    show ?thesis
    proof (cases "\<not> jp_empty p \<and> jp_timestamp p = t")
      case True
      have "LT32 t b" if "best = Some b" for b
      proof -
        have "unat (b - t) < 2147483648" "b \<noteq> t" using that Cons.prems(2) False by auto
        then show ?thesis using LT32_window [of t t b] by (simp add: unat_gt_0)
      qed
      with True show ?thesis by (simp add: best'_def split: option.splits)
    next
      case no: False
      with Cons.prems(3) False show ?thesis by auto
    qed
  qed
  ultimately have "findOldest ps best' = Some t" using Cons.IH Cons.prems(1) by simp
  then show ?case by (simp add: best'_def)
qed simp

subsection \<open>A buffer without timings\<close>

definition calm :: "nat \<Rightarrow> jitter_buffer \<Rightarrow> bool" where
  "calm n jb \<longleftrightarrow> jb_ok n jb \<and> \<not> jb_destroy jb \<and> jb_interp_requested jb = 0 \<and> jb_arrival jb = replicate MAX_BUFFER 0 \<and>
     list_all (\<lambda>tb. tb_curr_count tb = 0) (jb_tb jb) \<and> jb_lost_count jb = 0"

lemma init_calm:
  assumes "step \<noteq> 0" and "jitter_buffer_init step = Some jb"
  shows "calm n jb" "jb_reset_state jb" "stored (jb_packets jb) = {#}"
proof -
  show "stored (jb_packets jb) = {#}" using jitter_buffer_init_ok [OF assms] by blast
  have jb: "jb = jitter_buffer_reset (jb_zero\<lparr>jb_delay_step := step, jb_concealment_size := step, jb_buffer_margin := 0,
      jb_late_cutoff := 50, jb_destroy := False, jb_latency_tradeoff := 0, jb_auto_adjust := True,
      jb_max_late_rate := 4, jb_window_size := 4000 sdiv 4, jb_subwindow_size := (4000 sdiv 4) sdiv 3\<rparr>)"
    using assms(2) by (simp add: jitter_buffer_init_def jitter_buffer_ctl_def Let_def TOP_DELAY_def MAX_BUFFERS_def)
  show "jb_reset_state jb" by (simp add: jb jitter_buffer_reset_def)
  have "\<not> jb_destroy jb \<and> jb_interp_requested jb = 0 \<and> jb_arrival jb = replicate MAX_BUFFER 0 \<and>
     list_all (\<lambda>tb. tb_curr_count tb = 0) (jb_tb jb) \<and> jb_lost_count jb = 0"
    by (simp add: jb jitter_buffer_reset_def jb_zero_def tb_init_def list_all_iff)
  then show "calm n jb" using jitter_buffer_init_ok [OF assms] by (simp add: calm_def)
qed

lemma size_stored: "size (stored ps) = length (List.filter (\<lambda>p. \<not> jp_empty p) ps)"
  by (induction ps) (auto simp: stored_def held_def)

lemma room_left:
  assumes "length ps = MAX_BUFFER" and "size (stored ps) < MAX_BUFFER"
  shows "\<exists>i < length ps. freeSlot ps = Some i \<and> jp_empty (ps ! i)"
proof (cases "firstSlot jp_empty ps")
  case None
  then have "List.filter (\<lambda>p. \<not> jp_empty p) ps = ps" by (simp add: firstSlot_None filter_id_conv)
  with assms show ?thesis by (simp add: size_stored)
next
  case (Some i)
  with firstSlot_Some [OF Some] show ?thesis by (auto simp: freeSlot_def)
qed

lemma put_calm:
  assumes c: "calm n jb" and r: "jb_reset_state jb" and p: "given_ok n p" and al: "allocs ok" "ok 0"
    and room: "size (stored (jb_packets jb)) < MAX_BUFFER"
  shows "\<exists>jb'. jitter_buffer_put ok jb p = Some jb' \<and> calm n jb' \<and> jb_reset_state jb' \<and>
    stored (jb_packets jb') = stored (jb_packets jb) + {#content p#}"
proof -
  obtain i where i: "i < length (jb_packets jb)" "freeSlot (jb_packets jb) = Some i" "jp_empty (jb_packets jb ! i)"
    using room_left [OF _ room] c by (auto simp: calm_def jb_ok_def)
  obtain d where d: "jp_data p = Some d" "unat (jp_len p) \<le> length d" "unat (jp_len p) \<le> n" using p by (auto simp: given_ok_def)
  have "ok (unat (jp_len p))" using al by (cases "unat (jp_len p) = 0") (auto simp: allocs_def)
  then have st: "storeData ok False p = Some (Some (take (unat (jp_len p)) d))"
    using d by (simp add: storeData_def blit_Some Let_def)
  define q where "q = p\<lparr>jp_data := Some (take (unat (jp_len p)) d)\<rparr>"
  have q: "slot_ok n q" "held q = {#content p#}" using d by (simp_all add: q_def slot_ok_def held_def jp_empty_def content_def)
  have arr: "(jb_arrival jb)[i := 0] = jb_arrival jb" using c i(1) list_update_id [of "jb_arrival jb" i] by (simp add: calm_def jb_ok_def)
  have "jitter_buffer_put ok jb p = Some (jb\<lparr>jb_packets := (jb_packets jb)[i := q], jb_arrival := (jb_arrival jb)[i := 0]\<rparr>)"
    using c r i st by (simp add: jitter_buffer_put_def cleanLate_def calm_def jb_ok_def q_def)
  moreover have "stored ((jb_packets jb)[i := q]) = stored (jb_packets jb) + {#content p#}"
    using stored_update [OF i(1), of q] i(3) q(2) by (simp add: held_def)
  ultimately show ?thesis using c r q(1) arr by (simp add: calm_def jb_ok_def list_all_update)
qed


subsection \<open>Packets out\<close>

definition at_time :: "jitter_buffer \<Rightarrow> u32 \<Rightarrow> bool" where
  "at_time jb t \<longleftrightarrow> (if jb_reset_state jb then findOldest (jb_packets jb) None = Some t else jb_pointer_timestamp jb = t)"

lemma takeSlot_calm:
  assumes c: "calm n jb" and i: "i < length (jb_packets jb)" "\<not> jp_empty (jb_packets jb ! i)" and room: "room_ok n buf"
  shows "\<exists>q off jb'. takeSlot jb i (jb_packets jb ! i) buf desired w = Some (JITTER_BUFFER_OK, q, off, jb') \<and> calm n jb' \<and>
    content q = content (jb_packets jb ! i) \<and> jb_reset_state jb' = jb_reset_state jb \<and>
    jb_pointer_timestamp jb' = jp_timestamp (jb_packets jb ! i) + jp_span (jb_packets jb ! i) \<and>
    {#content q#} + stored (jb_packets jb') = stored (jb_packets jb)"
proof -
  have ok: "jb_ok n jb" and arr: "jb_arrival jb ! i = 0" "i < length (jb_arrival jb)" using c i(1) by (simp_all add: calm_def jb_ok_def)
  define p where "p = jb_packets jb ! i"
  obtain d where d: "jp_data p = Some d" "unat (jp_len p) \<le> length d" "unat (jp_len p) \<le> n" "held p = {#content p#}"
    using slot_data [OF ok i] unfolding p_def by blast
  obtain b where b: "jp_data buf = Some b" "n \<le> length b" "n \<le> unat (jp_len buf)" using room by (auto simp: room_ok_def)
  have len: "\<not> jp_len p > jp_len buf" using d(3) b(3) by (simp add: word_less_nat_alt)
  obtain x where x: "copyOut (jp_data p) (jp_data buf) (unat (jp_len p)) = Some (Some x)" "take (unat (jp_len p)) x = take (unat (jp_len p)) d"
    using copyOut_ok [of "unat (jp_len p)" d b] d b by auto
  let ?q = "\<lparr>jp_data = Some x, jp_len = jp_len p, jp_timestamp = jp_timestamp p, jp_span = jp_span p,
       jp_sequence = jp_sequence p, jp_user_data = jp_user_data p\<rparr>"
  have upd: "calm n (jb\<lparr>jb_lost_count := 0, jb_packets := (jb_packets jb)[i := p\<lparr>jp_data := None\<rparr>], jb_last_returned_timestamp := l,
         jb_pointer_timestamp := pt, jb_buffered := bu\<rparr>)" for l pt bu
    using c by (simp add: calm_def jb_ok_def list_all_update)
  have "\<exists>off jb'. takeSlot jb i p buf desired w = Some (JITTER_BUFFER_OK, ?q, off, jb') \<and> calm n jb' \<and>
      jb_reset_state jb' = jb_reset_state jb \<and> jb_pointer_timestamp jb' = jp_timestamp p + jp_span p \<and>
      jb_packets jb' = (jb_packets jb)[i := p\<lparr>jp_data := None\<rparr>]"
    using len x(1) arr c by (auto simp: takeSlot_def Let_def upd calm_def [of n jb])
  moreover have "{#content p#} + stored ((jb_packets jb)[i := p\<lparr>jp_data := None\<rparr>]) = stored (jb_packets jb)"
    using stored_update [OF i(1), of "p\<lparr>jp_data := None\<rparr>"] d(4) by (simp add: p_def)
  moreover have "content ?q = content p" using x(2) d(1) by (simp add: content_def)
  ultimately show ?thesis unfolding p_def [symmetric] by fastforce
qed

lemma get_calm:
  assumes c: "calm n jb" and t: "at_time jb t" and s: "s < 2147483648" and room: "room_ok n buf"
    and ex: "p \<in> set (jb_packets jb)" "\<not> jp_empty p" "jp_timestamp p = t" "jp_span p = of_nat s"
    and un: "\<forall>q \<in> set (jb_packets jb). \<not> jp_empty q \<longrightarrow> jp_timestamp q = t \<longrightarrow> content q = content p"
  shows "\<exists>q off jb'. jitter_buffer_get jb buf (int s) w = Some (JITTER_BUFFER_OK, q, off, jb') \<and> calm n jb' \<and>
    content q = content p \<and> at_time jb' (t + of_nat s) \<and> \<not> jb_reset_state jb' \<and>
    {#content p#} + stored (jb_packets jb') = stored (jb_packets jb)"
proof -
  define oldest where "oldest = findOldest (jb_packets jb) None"
  define j0 where "j0 = (if jb_reset_state jb
      then jb\<lparr>jb_reset_state := False, jb_pointer_timestamp := the oldest, jb_next_stop := the oldest\<rparr> else jb)"
  define j1 where "j1 = j0\<lparr>jb_last_returned_timestamp := jb_pointer_timestamp j0\<rparr>"
  have no: "\<not> (jb_reset_state jb \<and> oldest = None)" using t by (auto simp: at_time_def oldest_def)
  have j1: "calm n j1" "jb_packets j1 = jb_packets jb" "jb_pointer_timestamp j1 = t" "\<not> jb_reset_state j1" "jb_interp_requested j1 = 0"
    using c t by (auto simp: j1_def j0_def calm_def jb_ok_def at_time_def oldest_def split: if_splits)
  let ?P = "\<lambda>p. \<not> jp_empty p \<and> jp_timestamp p = t \<and> GE32 (jp_timestamp p + jp_span p) (t + of_int (int s))"
  have "?P p" using ex by (simp add: GE32_def)
  with ex(1) have "firstSlot ?P (jb_packets jb) \<noteq> None" unfolding firstSlot_None by blast
  then obtain i where i: "firstSlot ?P (jb_packets jb) = Some i" by blast
  then have "bestSlot (jb_packets j1) (jb_pointer_timestamp j1) (int s) = Some i"
    by (simp add: bestSlot_def Let_def j1(2,3))
  then have get: "jitter_buffer_get jb buf (int s) w =
      Option.bind (rd (jb_packets j1) i) (\<lambda>p. takeSlot j1 i p buf (int s) w)"
    unfolding jitter_buffer_get_def Let_def oldest_def [symmetric] if_not_P [OF no] j0_def [symmetric] j1_def [symmetric]
    by (simp add: j1(5))
  from firstSlot_Some [OF i] have fs: "i < length (jb_packets j1)" "\<not> jp_empty (jb_packets j1 ! i)"
    "content (jb_packets j1 ! i) = content p" using un by (auto simp: j1(2))
  have ts: "jp_timestamp (jb_packets j1 ! i) = t" "jp_span (jb_packets j1 ! i) = of_nat s"
    using fs(3) ex(3,4) by (simp_all add: content_def)
  from takeSlot_calm [OF j1(1) fs(1,2) room, of "int s" w] show ?thesis
    unfolding get rd_Some [OF fs(1)] Option.bind.simps ts fs(3) using j1(2,4) by (fastforce simp: at_time_def)
qed

lemma tick_calm:
  assumes c: "calm n jb"
  shows "\<exists>jb'. jitter_buffer_tick jb = Some jb' \<and> calm n jb' \<and> jb_packets jb' = jb_packets jb \<and>
    jb_pointer_timestamp jb' = jb_pointer_timestamp jb \<and> jb_reset_state jb' = jb_reset_state jb"
proof -
  have l: "length (jb_tb jb) = 3" and z: "list_all (\<lambda>tb. tb_curr_count tb = 0) (jb_tb jb)"
    using c by (simp_all add: calm_def jb_ok_def times_ok_def MAX_BUFFERS_def)
  have "foldl (\<lambda>n tb. s32 (n + tb_curr_count tb)) 0 tbs = 0" if "list_all (\<lambda>tb. tb_curr_count tb = 0) tbs" for tbs
    using that by (induction tbs) (simp_all add: s32_def)
  from this [OF z] have "compute_opt_delay jb = Some (0, jb)" by (simp add: compute_opt_delay_def)
  then have "autoAdjust jb = Some jb" by (simp add: autoAdjust_def jb_update_delay_def)
  then show ?thesis using c by (simp add: jitter_buffer_tick_def calm_def jb_ok_def)
qed


subsection \<open>A train of packets\<close>

text \<open>Packets that cover a stretch of time without gaps, in the order of their time stamps.\<close>

definition train :: "u32 \<Rightarrow> nat \<Rightarrow> jitter_packet list \<Rightarrow> bool" where
  "train t s qs \<longleftrightarrow> 0 < s \<and> length qs * s < 2147483648 \<and>
     (\<forall>k < length qs. jp_timestamp (qs ! k) = t + of_nat (k * s) \<and> jp_span (qs ! k) = of_nat s)"

lemma train_offset:
  assumes "train t s qs" and "k < length qs"
  shows "unat (jp_timestamp (qs ! k) - t) = k * s" "k * s < 2147483648" "s < 2147483648"
proof -
  have "k * s \<le> length qs * s" "1 * s \<le> length qs * s" using assms(2) by (intro mult_le_mono1; simp)+
  moreover have "length qs * s < 2147483648" using assms(1) by (simp only: train_def)
  ultimately show lt: "k * s < 2147483648" and "s < 2147483648" by linarith+
  have "jp_timestamp (qs ! k) - t = of_nat (k * s)" using assms by (simp add: train_def)
  then show "unat (jp_timestamp (qs ! k) - t) = k * s" using lt by (simp only: unat_of_nat) simp
qed

lemma train_unique:
  assumes "train t s qs" and "j < length qs" "k < length qs" and "jp_timestamp (qs ! j) = jp_timestamp (qs ! k)"
  shows "j = k"
proof -
  have "j * s = k * s" using train_offset(1) [OF assms(1,2)] train_offset(1) [OF assms(1,3)] assms(4) by metis
  moreover have "0 < s" using assms(1) by (simp only: train_def)
  ultimately show ?thesis by simp
qed

lemma mem_stored: "c \<in># stored ps \<longleftrightarrow> (\<exists>p \<in> set ps. \<not> jp_empty p \<and> content p = c)"
  by (induction ps) (auto simp: stored_def held_def)

lemma content_timestamp: "content p = content q \<Longrightarrow> jp_timestamp p = jp_timestamp q \<and> jp_span p = jp_span q"
  by (simp add: content_def)

lemma jb_run_append: "jb_run ok (as @ bs) x = Option.bind (jb_run ok as x) (jb_run ok bs)"
proof (induction as arbitrary: x)
  case (Cons a as)
  then show ?case by (cases "jb_step ok a x") simp_all
qed simp

lemma puts_calm:
  assumes "allocs ok" "ok 0" and "calm n jb" and "jb_reset_state jb" and "\<forall>p \<in> set ps. given_ok n p"
    and "size (stored (jb_packets jb)) + length ps \<le> MAX_BUFFER"
  shows "\<exists>jb'. jb_run ok (map Put ps) (jb, out) = Some (jb', out) \<and> calm n jb' \<and> jb_reset_state jb' \<and>
    stored (jb_packets jb') = stored (jb_packets jb) + mset (map content ps)"
  using assms(3-)
proof (induction ps arbitrary: jb)
  case (Cons p ps)
  have "size (stored (jb_packets jb)) < MAX_BUFFER" using Cons.prems(4) by simp
  from put_calm [OF Cons.prems(1,2) _ assms(1,2) this, of p] Cons.prems(3) obtain jb1 where
    jb1: "jitter_buffer_put ok jb p = Some jb1" "calm n jb1" "jb_reset_state jb1"
      "stored (jb_packets jb1) = stored (jb_packets jb) + {#content p#}" by auto
  from Cons.IH [OF jb1(2,3)] Cons.prems(3,4) jb1(1,4) show ?case by auto
qed simp

lemma play_calm:
  assumes tr: "train t s qs" and room: "room_ok n buf"
  shows "k \<le> length qs \<Longrightarrow> calm n jb \<Longrightarrow> (k < length qs \<longrightarrow> at_time jb (t + of_nat (k * s))) \<Longrightarrow>
    stored (jb_packets jb) = mset (map content (drop k qs)) \<Longrightarrow>
    \<exists>jb' out'. jb_run ok (concat (replicate (length qs - k) [Get buf (int s) w, Tick])) (jb, out) = Some (jb', out') \<and>
      map content out' = map content out @ map content (drop k qs)"
proof (induction "length qs - k" arbitrary: k jb out)
  case (Suc m)
  then have k: "k < length qs" and dk: "drop k qs = qs ! k # drop (Suc k) qs" by (simp_all add: Cons_nth_drop_Suc)
  have st: "stored (jb_packets jb) = {#content (qs ! k)#} + mset (map content (drop (Suc k) qs))" using Suc.prems(4) dk by simp
  then obtain p where p: "p \<in> set (jb_packets jb)" "\<not> jp_empty p" "content p = content (qs ! k)"
    using mem_stored [of "content (qs ! k)" "jb_packets jb"] by auto
  have tp: "jp_timestamp p = t + of_nat (k * s)" "jp_span p = of_nat s"
    using content_timestamp [OF p(3)] tr k by (simp_all add: train_def)
  have un: "content q = content p" if q: "q \<in> set (jb_packets jb)" "\<not> jp_empty q" "jp_timestamp q = t + of_nat (k * s)" for q
  proof -
    have "content q \<in># stored (jb_packets jb)" using q mem_stored by blast
    then obtain x where "x \<in> set (drop k qs)" "content q = content x" using Suc.prems(4) by auto
    then obtain j where j: "j < length qs" "content q = content (qs ! j)"
      using set_drop_subset [of k qs] by (metis in_set_conv_nth subsetD)
    moreover have "jp_timestamp (qs ! j) = jp_timestamp (qs ! k)"
      using content_timestamp [OF j(2)] q(3) tr k by (simp add: train_def)
    ultimately show ?thesis using train_unique [OF tr j(1) k] p(3) by simp
  qed
  have at: "at_time jb (t + of_nat (k * s))" using Suc.prems(3) k by simp
  from get_calm [OF Suc.prems(2) at train_offset(3) [OF tr k] room p(1,2) tp, of w] un obtain q off jb1 where
    g: "jitter_buffer_get jb buf (int s) w = Some (JITTER_BUFFER_OK, q, off, jb1)" "calm n jb1" "content q = content p"
      "at_time jb1 (t + of_nat (k * s) + of_nat s)" "\<not> jb_reset_state jb1"
      "{#content p#} + stored (jb_packets jb1) = stored (jb_packets jb)" by blast
  obtain jb2 where tk: "jitter_buffer_tick jb1 = Some jb2" "calm n jb2" "jb_packets jb2 = jb_packets jb1"
    "jb_pointer_timestamp jb2 = jb_pointer_timestamp jb1" "jb_reset_state jb2 = jb_reset_state jb1"
    using tick_calm [OF g(2)] by blast
  have st2: "stored (jb_packets jb2) = mset (map content (drop (Suc k) qs))" using g(6) st p(3) tk(3) by simp
  have at2: "at_time jb2 (t + of_nat (Suc k * s))" using g(4,5) tk(4,5) by (simp add: at_time_def algebra_simps)
  have m: "length qs - k = Suc (length qs - Suc k)" using k by simp
  have hm: "m = length qs - Suc k" using Suc.hyps(2) by linarith
  from Suc.hyps(1) [OF hm _ tk(2) _ st2, of "out @ [q]"] k at2 obtain jb' out' where
    r: "jb_run ok (concat (replicate (length qs - Suc k) [Get buf (int s) w, Tick])) (jb2, out @ [q]) = Some (jb', out')"
      "map content out' = map content (out @ [q]) @ map content (drop (Suc k) qs)" by (metis Suc_leI)
  show ?case unfolding m using r g(1,3) p(3) tk(1) dk by simp
qed simp



end
