(* ===== verification/CSafety.thy ===== *)
theory CSafety
  imports CMemory
begin

text \<open>
  Loops of the C sources over a state, accesses through a pointer into the middle of an array, and
  the predicate by which the safety of a long function is shown one statement at a time: \<open>ok P r\<close>
  says that the operation with the result \<open>r\<close> stays inside its arrays and ends with \<open>P\<close>.
\<close>

subsection \<open>Accesses at an index that may be negative\<close>

definition rdI :: "'a list \<Rightarrow> int \<Rightarrow> 'a option" where
  "rdI a i = (if i < 0 then None else rd a (nat i))"

definition wrI :: "'a list \<Rightarrow> int \<Rightarrow> 'a \<Rightarrow> 'a list option" where
  "wrI a i x = (if i < 0 then None else wr a (nat i) x)"

subsection \<open>Loops\<close>

fun foldO :: "('i \<Rightarrow> 's \<Rightarrow> 's option) \<Rightarrow> 'i list \<Rightarrow> 's \<Rightarrow> 's option" where
  "foldO f [] s = Some s"
| "foldO f (i # is) s = Option.bind (f i s) (foldO f is)"

text \<open>A loop that stores \<open>f i\<close> at the index \<open>off + i\<close> of an array, reading the array as it is then.\<close>

definition fillO :: "int \<Rightarrow> (nat \<Rightarrow> 'a list \<Rightarrow> 'a option) \<Rightarrow> nat \<Rightarrow> 'a list \<Rightarrow> 'a list option" where
  "fillO off f n = foldO (\<lambda>i a. Option.bind (f i a) (wrI a (off + int i))) [0..<n]"

subsection \<open>Safety\<close>

definition ok :: "('a \<Rightarrow> bool) \<Rightarrow> 'a option \<Rightarrow> bool" where
  "ok P r = (case r of None \<Rightarrow> False | Some x \<Rightarrow> P x)"

lemma ok_simps [simp]:
  "ok P (Some x) = P x" "\<not> ok P None"
  "ok P (Option.bind r f) = ok (\<lambda>x. ok P (f x)) r"
  "ok P (map_option g r) = ok (\<lambda>x. P (g x)) r"
  by (cases r; simp add: ok_def)+

lemma ok_mono: "ok Q r \<Longrightarrow> (\<And>x. Q x \<Longrightarrow> P x) \<Longrightarrow> ok P r"
  by (cases r) simp_all

lemma ok_bindI: "ok Q r \<Longrightarrow> (\<And>x. Q x \<Longrightarrow> ok P (f x)) \<Longrightarrow> ok P (Option.bind r f)"
  by (cases r) simp_all

lemma ok_conj: "ok P r \<Longrightarrow> ok Q r \<Longrightarrow> ok (\<lambda>x. P x \<and> Q x) r"
  by (cases r) simp_all

lemma okE: "ok P r \<Longrightarrow> \<exists>x. r = Some x \<and> P x"
  by (cases r) simp_all

lemma ok_rd [simp]: "i < length a \<Longrightarrow> ok P (rd a i) = P (a ! i)"
  by simp

lemma ok_rdI [simp]: "0 \<le> i \<Longrightarrow> i < int (length a) \<Longrightarrow> rdI a i = Some (a ! nat i)"
  by (simp add: rdI_def nat_less_iff)

lemma ok_wrI [simp]: "0 \<le> i \<Longrightarrow> i < int (length a) \<Longrightarrow> wrI a i x = Some (a[nat i := x])"
  by (simp add: wrI_def nat_less_iff)

lemma ok_foldO:
  assumes "I s" and "\<And>i s. i \<in> set is \<Longrightarrow> I s \<Longrightarrow> ok I (f i s)"
  shows "ok I (foldO f is s)"
  using assms
proof (induction "is" arbitrary: s)
  case (Cons i "is")
  have "ok I (f i s)" using Cons.prems by simp
  then show ?case using Cons.IH Cons.prems(2) by (cases "f i s") auto
qed simp

text \<open>A loop whose invariant depends on the index.\<close>

lemma ok_foldO_upt:
  assumes "I m s" and "m \<le> n" and "\<And>i s. m \<le> i \<Longrightarrow> i < n \<Longrightarrow> I i s \<Longrightarrow> ok (I (Suc i)) (f i s)"
  shows "ok (I n) (foldO f [m..<n] s)"
  using assms
proof (induction "n - m" arbitrary: m s)
  case (Suc d)
  then have m: "m < n" by simp
  then have "[m..<n] = m # [Suc m..<n]" by (rule upt_conv_Cons)
  moreover have "ok (I (Suc m)) (f m s)" using Suc.prems m by simp
  moreover have "ok (I n) (foldO f [Suc m..<n] x)" if "I (Suc m) x" for x
    by (rule Suc.hyps(1)) (use Suc.hyps(2) Suc.prems(3) m that in auto)
  ultimately show ?case by (simp add: ok_mono)
qed auto

text \<open>A loop that fills a part of an array keeps its length, and everything the values satisfy.\<close>

lemma ok_fillO:
  assumes "list_all P a" and "0 \<le> off" and "off + int n \<le> int (length a)"
    and "\<And>i b. i < n \<Longrightarrow> length b = length a \<Longrightarrow> list_all P b \<Longrightarrow> ok P (f i b)"
  shows "ok (\<lambda>b. length b = length a \<and> list_all P b) (fillO off f n a)"
  unfolding fillO_def
proof (rule ok_foldO)
  fix i b assume i: "i \<in> set [0..<n]" and b: "length b = length a \<and> list_all P b"
  have w: "wrI b (off + int i) v = Some (b[nat (off + int i) := v])" for v using i b assms(2,3) by (intro ok_wrI) auto
  have "ok P (f i b)" using assms(4) i b by simp
  then show "ok (\<lambda>b. length b = length a \<and> list_all P b) (Option.bind (f i b) (wrI b (off + int i)))"
    using b i assms(2,3) by (cases "f i b") (auto simp: w list_all_length nth_list_update)
qed (simp add: assms)

lemma ok_fillO_len:
  assumes "0 \<le> off" and "off + int n \<le> int (length a)" and "\<And>i b. i < n \<Longrightarrow> length b = length a \<Longrightarrow> ok (\<lambda>_. True) (f i b)"
  shows "ok (\<lambda>b. length b = length a) (fillO off f n a)"
  using ok_fillO [of "\<lambda>_. True" a off n f] assms by (auto simp: list_all_length elim!: ok_mono)

lemma list_all_nth: "list_all P a \<Longrightarrow> i < length a \<Longrightarrow> P (a ! i)"
  by (simp add: list_all_length)

end
