(* ===== verification/SpeexMath.thy ===== *)
theory SpeexMath
  imports FixedPoint CSafety "HOL-Library.Monad_Syntax"
begin

text \<open>
  The approximations of the fixed-point codec (\<open>Libraries/speex/math_approx.h\<close>) and what they rest
  on: constants scaled to integers, logarithm, square root, cosine and the generator of noise. The
  square root of a positive number is positive and that of no number is -1, which is why the
  decoder never divides by zero.
\<close>

subsection \<open>More of the arithmetic\<close>

definition NEG16 :: "int \<Rightarrow> int" where "NEG16 x = s32 (- x)"
definition SATURATE :: "int \<Rightarrow> int \<Rightarrow> int" where
  "SATURATE x a = (if x > a then a else if x < - a then - a else x)"
definition PDIV32 :: "int \<Rightarrow> int \<Rightarrow> int option" where
  "PDIV32 a b = (if s32 b = 0 then None else Some (s32 (s32 a + drop_bit 1 (s16 b)) sdiv s32 b))"

text \<open>The constant \<open>n/d\<close> with \<open>b\<close> bits after the point, rounded.\<close>

definition QCONST16 :: "int \<Rightarrow> int \<Rightarrow> nat \<Rightarrow> int" where
  "QCONST16 n d b = s16 ((2 * n * 2 ^ b + d) div (2 * d))"
definition QCONST32 :: "int \<Rightarrow> int \<Rightarrow> nat \<Rightarrow> int" where
  "QCONST32 n d b = s32 ((2 * n * 2 ^ b + d) div (2 * d))"

definition LPC_SCALING :: int where "LPC_SCALING = 8192"
definition SIG_SCALING :: int where "SIG_SCALING = 16384"
definition GAIN_SCALING :: int where "GAIN_SCALING = 64"
definition LPC_SHIFT :: nat where "LPC_SHIFT = 13"
definition LSP_SHIFT :: nat where "LSP_SHIFT = 13"
definition SIG_SHIFT :: nat where "SIG_SHIFT = 14"
definition GAIN_SHIFT :: nat where "GAIN_SHIFT = 6"
definition VERY_SMALL :: int where "VERY_SMALL = 0"
definition Q15ONE :: int where "Q15ONE = 32767"
definition Q15_ONE :: int where "Q15_ONE = 32767"

subsection \<open>Logarithms\<close>

definition spx_ilog2 :: "int \<Rightarrow> int" where
  "spx_ilog2 x =
     (let x = take_bit 32 x; r = 0;
          (x, r) = (if x \<ge> 65536 then (drop_bit 16 x, r + 16) else (x, r));
          (x, r) = (if x \<ge> 256 then (drop_bit 8 x, r + 8) else (x, r));
          (x, r) = (if x \<ge> 16 then (drop_bit 4 x, r + 4) else (x, r));
          (x, r) = (if x \<ge> 4 then (drop_bit 2 x, r + 2) else (x, r))
      in if x \<ge> 2 then r + 1 else r)"

definition spx_ilog4 :: "int \<Rightarrow> int" where
  "spx_ilog4 x =
     (let x = take_bit 32 x; r = 0;
          (x, r) = (if x \<ge> 65536 then (drop_bit 16 x, r + 8) else (x, r));
          (x, r) = (if x \<ge> 256 then (drop_bit 8 x, r + 4) else (x, r));
          (x, r) = (if x \<ge> 16 then (drop_bit 4 x, r + 2) else (x, r))
      in if x \<ge> 4 then r + 1 else r)"

subsection \<open>Noise, square root, cosine\<close>

definition speex_rand :: "int \<Rightarrow> int \<Rightarrow> int \<times> int" where
  "speex_rand std seed =
     (let seed = s32 (1664525 * seed + 1013904223); res = MULT16_16 (EXTRACT16 (SHR32 seed 16)) std
      in (EXTRACT16 (PSHR32 (SUB32 res (SHR32 res 3)) 14), seed))"

definition sqrtPoly :: "int \<Rightarrow> int" where
  "sqrtPoly x = ADD16 3634 (MULT16_16_Q14 x (ADD16 21173 (MULT16_16_Q14 x (ADD16 (- 12627) (MULT16_16_Q14 x 4204)))))"

definition spx_sqrt :: "int \<Rightarrow> int" where
  "spx_sqrt x =
     (let k = spx_ilog4 x - 6; x = VSHR32 x (2 * k); rt = sqrtPoly x
      in s16 (VSHR32 rt (7 - k)))"

definition spx_cos :: "int \<Rightarrow> int" where
  "spx_cos x =
     (if x < 12868 then
        (let x2 = s16 (MULT16_16_P13 x x)
         in s16 (ADD32 8192 (MULT16_16_P13 x2 (ADD32 (- 4096) (MULT16_16_P13 x2 (ADD32 340 (MULT16_16_P13 (- 10) x2)))))))
      else
        (let x = s16 (SUB16 25736 x); x2 = s16 (MULT16_16_P13 x x)
         in s16 (SUB32 (- 8192) (MULT16_16_P13 x2 (ADD32 (- 4096) (MULT16_16_P13 x2 (ADD32 340 (MULT16_16_P13 (- 10) x2))))))))"

subsection \<open>Ranges\<close>

definition in16 :: "int \<Rightarrow> bool" where "in16 x \<longleftrightarrow> - 32768 \<le> x \<and> x \<le> 32767"
definition in32 :: "int \<Rightarrow> bool" where "in32 x \<longleftrightarrow> - 2147483648 \<le> x \<and> x \<le> 2147483647"

lemma in16_s16 [simp]: "in16 (s16 x)" "in16 (EXTRACT16 x)"
  using s16_range [of x] by (simp_all add: in16_def EXTRACT16_def)

lemma in32_s32 [simp]: "in32 (s32 x)"
  using s32_range [of x] by (simp add: in32_def)

lemma in16_0 [simp]: "in16 0" "in32 0"
  by (simp_all add: in16_def in32_def)

lemma s16_in: "in16 x \<Longrightarrow> s16 x = x"
  by (simp add: in16_def s16_id)

lemma s32_in: "in32 x \<Longrightarrow> s32 x = x"
  by (simp add: in32_def s32_id)

subsection \<open>The square root\<close>

lemma ilog4_step:
  fixes x :: int
  assumes "y = x div 4 ^ r" and "1 \<le> y" and "y < 4 ^ (2 * n)" and "m = 2 * n" and "c = int n" and "d = int r" and "t = 4 ^ n"
  shows "\<exists>y' r'. (if y \<ge> t then (drop_bit m y, d + c) else (y, d)) = (y', int r') \<and>
    y' = x div 4 ^ r' \<and> 1 \<le> y' \<and> y' < 4 ^ n \<and> r' \<le> r + n"
proof (cases "y \<ge> 4 ^ n")
  case True
  have e: "drop_bit (2 * n) y = y div 4 ^ n" by (simp add: drop_bit_eq_div power_mult)
  have p: "(4 :: int) ^ n = 2 ^ (2 * n)" "(4 :: int) ^ (2 * n) = 2 ^ (2 * n + 2 * n)"
    by (simp add: power_mult) (simp add: power_mult flip: mult_2)
  have "y div 4 ^ n < 4 ^ n"
    using drop_bit_bounds(2) [of "2 * n" "2 * n" y] assms(2,3) unfolding e p by (simp add: drop_bit_eq_div)
  moreover have "1 \<le> y div 4 ^ n" using True zdiv_mono1 [of "4 ^ n" y "4 ^ n"] by simp
  moreover have "y div 4 ^ n = x div 4 ^ (r + n)" unfolding assms(1) power_add by (simp add: zdiv_zmult2_eq)
  ultimately show ?thesis using True e assms(4-) by (intro exI [of _ "y div 4 ^ n"] exI [of _ "r + n"]) simp
next
  case False
  then show ?thesis using assms by (intro exI [of _ y] exI [of _ r]) simp
qed

lemma ilog4_bounds:
  assumes "1 \<le> x" and "x < 4294967296"
  shows "\<exists>L. spx_ilog4 x = int L \<and> L < 16 \<and> 4 ^ L \<le> x \<and> x < 4 ^ Suc L"
proof -
  have t: "take_bit 32 x = x" using assms by (simp add: take_bit_int_eq_self_iff)
  obtain y1 r1 where 1: "(if x \<ge> 65536 then (drop_bit 16 x, 0 + 8) else (x, 0)) = (y1, int r1)"
    "y1 = x div 4 ^ r1" "1 \<le> y1" "y1 < 65536" "r1 \<le> 8"
    using ilog4_step [of x x 0 8 16 8 0 65536] assms by fastforce
  obtain y2 r2 where 2: "(if y1 \<ge> 256 then (drop_bit 8 y1, int r1 + 4) else (y1, int r1)) = (y2, int r2)"
    "y2 = x div 4 ^ r2" "1 \<le> y2" "y2 < 256" "r2 \<le> r1 + 4"
    using ilog4_step [of y1 x r1 4 8 4 "int r1" 256] 1 by fastforce
  obtain y3 r3 where 3: "(if y2 \<ge> 16 then (drop_bit 4 y2, int r2 + 2) else (y2, int r2)) = (y3, int r3)"
    "y3 = x div 4 ^ r3" "1 \<le> y3" "y3 < 16" "r3 \<le> r2 + 2"
    using ilog4_step [of y2 x r2 2 4 2 "int r2" 16] 2 by fastforce
  have log: "spx_ilog4 x = (if y3 \<ge> 4 then int r3 + 1 else int r3)"
    unfolding spx_ilog4_def Let_def t 1(1) split 2(1) 3(1) ..
  define P Z :: int where "P = 4 ^ r3" and "Z = y3 * 4 ^ r3"
  have "x = Z + x mod P" unfolding P_def Z_def 3(2) by (rule div_mult_mod_eq [symmetric])
  moreover have "0 \<le> x mod P" "x mod P < P" by (simp_all add: P_def)
  moreover have "P \<le> Z" "Z \<le> 15 * P" "y3 < 4 \<Longrightarrow> Z \<le> 3 * P" "4 \<le> y3 \<Longrightarrow> 4 * P \<le> Z"
    using 3(3,4) by (simp_all add: P_def Z_def)
  ultimately have "P \<le> x" "x < 16 * P" "y3 < 4 \<Longrightarrow> x < 4 * P" "4 \<le> y3 \<Longrightarrow> 4 * P \<le> x" by linarith+
  moreover have "r3 \<le> 14" using 1(5) 2(5) 3(5) by simp
  ultimately show ?thesis
  proof (cases "y3 \<ge> 4")
    case True
    then show ?thesis using log \<open>r3 \<le> 14\<close> \<open>4 \<le> y3 \<Longrightarrow> 4 * P \<le> x\<close> \<open>x < 16 * P\<close>
      by (intro exI [of _ "Suc r3"]) (simp add: P_def)
  next
    case False
    then show ?thesis using log \<open>r3 \<le> 14\<close> \<open>y3 < 4 \<Longrightarrow> x < 4 * P\<close> \<open>P \<le> x\<close>
      by (intro exI [of _ r3]) (simp add: P_def)
  qed
qed

text \<open>Products with 14 bits after the point.\<close>

lemma Q14_eq: "in16 x \<Longrightarrow> in16 y \<Longrightarrow> MULT16_16_Q14 x y = (x * y) div 16384"
proof -
  assume xy: "in16 x" "in16 y"
  then have "\<bar>x\<bar> * \<bar>y\<bar> \<le> 32768 * 32768" by (intro mult_mono) (auto simp: in16_def)
  then have "\<bar>x * y\<bar> \<le> 1073741824" by (simp add: abs_mult)
  then have "in32 (x * y)" by (auto simp: in32_def abs_le_iff)
  then show ?thesis
    by (simp add: MULT16_16_Q14_def MULT16_16_def SHR_def s16_in [OF xy(1)] s16_in [OF xy(2)] s32_in drop_bit_eq_div)
qed

lemma Q14_pos:
  assumes "a \<le> x" "x \<le> b" "c \<le> y" "y \<le> d" "0 \<le> a" "b \<le> 32767" "0 \<le> c" "d \<le> 32767"
  shows "(a * c) div 16384 \<le> MULT16_16_Q14 x y" "MULT16_16_Q14 x y \<le> (b * d) div 16384"
proof -
  have "in16 x" "in16 y" using assms by (simp_all add: in16_def)
  note e = Q14_eq [OF this]
  have "a * c \<le> x * y" "x * y \<le> b * d" using assms by (auto intro!: mult_mono)
  then show "(a * c) div 16384 \<le> MULT16_16_Q14 x y" "MULT16_16_Q14 x y \<le> (b * d) div 16384"
    unfolding e by (auto intro: zdiv_mono1)
qed

lemma Q14_neg:
  assumes "a \<le> x" "x \<le> b" "c \<le> y" "y \<le> d" "0 \<le> a" "b \<le> 32767" "- 32768 \<le> c" "d \<le> 0"
  shows "(b * c) div 16384 \<le> MULT16_16_Q14 x y" "MULT16_16_Q14 x y \<le> (a * d) div 16384"
proof -
  have "in16 x" "in16 y" using assms by (simp_all add: in16_def)
  note e = Q14_eq [OF this]
  have "x * (- y) \<le> b * (- c)" "a * (- d) \<le> x * (- y)" using assms by (auto intro!: mult_mono simp del: mult_minus_right)
  then have "b * c \<le> x * y" "x * y \<le> a * d" by simp_all
  then show "(b * c) div 16384 \<le> MULT16_16_Q14 x y" "MULT16_16_Q14 x y \<le> (a * d) div 16384"
    unfolding e by (auto intro: zdiv_mono1)
qed

lemma ADD16_eq: "in16 a \<Longrightarrow> in16 b \<Longrightarrow> in16 (a + b) \<Longrightarrow> ADD16 a b = a + b"
  by (simp add: ADD16_def s16_in)

lemma sqrtPoly_range:
  assumes "4096 \<le> x" and "x \<le> 16383"
  shows "6033 \<le> sqrtPoly x" "sqrtPoly x \<le> 22700" "x \<le> 5400 \<Longrightarrow> sqrtPoly x \<le> 10000"
proof -
  define t3 t2 t1 t0 where "t3 = MULT16_16_Q14 x 4204" and "t2 = ADD16 (- 12627) t3" and
    "t1 = ADD16 21173 (MULT16_16_Q14 x t2)" and "t0 = MULT16_16_Q14 x t1"
  have t3: "1051 \<le> t3" "t3 \<le> 4203" using Q14_pos [of 4096 x 16383 4204 4204 4204] assms by (simp_all add: t3_def)
  then have t2: "t2 = t3 - 12627" by (simp add: t2_def ADD16_eq in16_def)
  have "- 11576 \<le> t2" "t2 \<le> - 8424" using t2 t3 by linarith+
  then have m2: "- 11576 \<le> MULT16_16_Q14 x t2" "MULT16_16_Q14 x t2 \<le> - 2106"
    using Q14_neg [of 4096 x 16383 "- 11576" t2 "- 8424"] assms by simp_all
  then have t1: "t1 = 21173 + MULT16_16_Q14 x t2" by (simp add: t1_def ADD16_eq in16_def)
  have "9597 \<le> t1" "t1 \<le> 19067" using t1 m2 by linarith+
  then have m1: "2399 \<le> t0" "t0 \<le> 19066" using Q14_pos [of 4096 x 16383 9597 t1 19067] assms by (simp_all add: t0_def)
  then have p: "sqrtPoly x = 3634 + t0"
    by (simp add: sqrtPoly_def ADD16_eq in16_def t0_def [symmetric] t1_def [symmetric] t2_def [symmetric] t3_def [symmetric])
  then show "6033 \<le> sqrtPoly x" "sqrtPoly x \<le> 22700" using m1 by simp_all
  assume x: "x \<le> 5400"
  have "t3 \<le> 1385" using Q14_pos(2) [of 4096 x 5400 4204 4204 4204] assms x by (simp add: t3_def)
  then have "- 11576 \<le> t2" "t2 \<le> - 11242" using t2 t3 by linarith+
  then have "MULT16_16_Q14 x t2 \<le> - 2810" using Q14_neg(2) [of 4096 x 5400 "- 11576" t2 "- 11242"] assms x by simp
  then have "t1 \<le> 18363" using t1 by linarith
  then have "t0 \<le> 6052" using Q14_pos(2) [of 4096 x 5400 9597 t1 18363] assms x \<open>9597 \<le> t1\<close> by (simp add: t0_def)
  then show "sqrtPoly x \<le> 10000" using p by simp
qed

lemma less_16_cases:
  assumes "(L :: nat) < 16"
  shows "L = 0 \<or> L = 1 \<or> L = 2 \<or> L = 3 \<or> L = 4 \<or> L = 5 \<or> L = 6 \<or> L = 7 \<or> L = 8 \<or> L = 9 \<or> L = 10 \<or> L = 11 \<or>
    L = 12 \<or> L = 13 \<or> L = 14 \<or> L = 15"
proof -
  have "L \<in> set [0..<16]" using assms by simp
  also have "[0..<16 :: nat] = [0, 1, 2, 3, 4, 5, 6, 7, 8, 9, 10, 11, 12, 13, 14, 15]" by code_simp
  finally show ?thesis by simp
qed

text \<open>The argument is scaled to lie between a quarter and one.\<close>

lemma sqrt_scaled:
  assumes "spx_ilog4 x = int L" and "L < 16" and "4 ^ L \<le> x" and "x < 4 ^ Suc L"
  shows "4096 \<le> VSHR32 x (2 * (spx_ilog4 x - 6))" "VSHR32 x (2 * (spx_ilog4 x - 6)) \<le> 16383"
    "L = 14 \<Longrightarrow> VSHR32 x (2 * (spx_ilog4 x - 6)) = x div 65536"
proof -
  have "4096 \<le> VSHR32 x (2 * (int L - 6)) \<and> VSHR32 x (2 * (int L - 6)) \<le> 16383 \<and> (L = 14 \<longrightarrow> VSHR32 x (2 * (int L - 6)) = x div 65536)"
    using less_16_cases [OF assms(2)] assms(3,4)
    by (elim disjE; simp add: VSHR32_def SHR32_def SHL32_def drop_bit_eq_div push_bit_eq_mult s32_id; (intro conjI; linarith)?)
  then show "4096 \<le> VSHR32 x (2 * (spx_ilog4 x - 6))" "VSHR32 x (2 * (spx_ilog4 x - 6)) \<le> 16383"
    "L = 14 \<Longrightarrow> VSHR32 x (2 * (spx_ilog4 x - 6)) = x div 65536"
    by (simp_all add: assms(1))
qed

lemma spx_sqrt_pos:
  assumes "1 \<le> x" and "x \<le> 350000000"
  shows "1 \<le> spx_sqrt x"
proof -
  obtain L where L: "spx_ilog4 x = int L" "L < 16" "4 ^ L \<le> x" "x < 4 ^ Suc L" using ilog4_bounds [of x] assms by auto
  define y where "y = VSHR32 x (2 * (spx_ilog4 x - 6))"
  note y = sqrt_scaled [OF L, folded y_def]
  note p = sqrtPoly_range [OF y(1,2)]
  have s: "spx_sqrt x = s16 (VSHR32 (sqrtPoly y) (13 - int L))"
    by (simp add: spx_sqrt_def Let_def y_def L(1))
  have v: "VSHR32 (sqrtPoly y) (13 - int L) =
      (if L < 13 then sqrtPoly y div 2 ^ (13 - L) else s32 (sqrtPoly y * 2 ^ (L - 13)))"
  proof (cases "L < 13")
    case True
    then have "13 - int L > 0" "nat (13 - int L) = 13 - L" by simp_all
    then show ?thesis using True by (simp only: VSHR32_def SHR32_def drop_bit_eq_div if_True)
  next
    case False
    then have "\<not> 13 - int L > 0" "nat (- (13 - int L)) = L - 13" by simp_all
    then show ?thesis using False by (simp only: VSHR32_def SHL32_def push_bit_eq_mult if_False)
  qed
  have x: "L = 14 \<Longrightarrow> y \<le> 5400" using y(3) assms(2) by (simp add: zdiv_mono1 [of x 350000000 65536, THEN order_trans])
  have "L = 0 \<Longrightarrow> x = 1 \<or> x = 2 \<or> x = 3" using L(3,4) by (simp, linarith)
  moreover have "L \<noteq> 15" using L(3) assms(2) by auto
  moreover have "1 \<le> s16 (VSHR32 (sqrtPoly y) (13 - int L))" if "L \<noteq> 0" "L < 13"
  proof -
    have "(2 :: int) ^ (13 - L) \<le> 2 ^ 12" using that by (intro power_increasing) simp_all
    then have "0 < sqrtPoly y div 2 ^ (13 - L)" using p(1) by (simp add: pos_imp_zdiv_pos_iff)
    moreover have "sqrtPoly y div 2 ^ (13 - L) \<le> sqrtPoly y div 1" using p(1) by (intro zdiv_mono2) simp_all
    ultimately show ?thesis unfolding v using that p(2) by (simp add: s16_id)
  qed
  moreover have "1 \<le> s16 (VSHR32 (sqrtPoly y) (13 - int L))" if "L = 13 \<or> L = 14"
    unfolding v using that p x by (elim disjE) (simp_all add: s16_id s32_id)
  moreover have "1 \<le> spx_sqrt 1" "1 \<le> spx_sqrt 2" "1 \<le> spx_sqrt 3" by code_simp+
  moreover have "L = 0 \<or> (L \<noteq> 0 \<and> L < 13) \<or> L = 13 \<or> L = 14 \<or> L = 15" using L(2) by linarith
  ultimately show ?thesis using s by (elim disjE) (simp_all only: not_False_eq_True, auto)
qed

lemma s16_even_not_minus1: "even z \<Longrightarrow> s16 z \<noteq> - 1"
proof
  assume "even z" "s16 z = - 1"
  then have "s16 z = s16 (- 1)" by (simp add: s16_id)
  then have "z mod 65536 = 65535" unfolding s16_eq_iff by simp
  then show False using \<open>even z\<close> by presburger
qed

lemma spx_sqrt_not_minus1:
  assumes "in32 x"
  shows "spx_sqrt x \<noteq> - 1"
proof (cases "x \<le> 0")
  case False
  then have x: "1 \<le> x" "x < 4294967296" using assms by (simp_all add: in32_def)
  obtain L where L: "spx_ilog4 x = int L" "L < 16" "4 ^ L \<le> x" "x < 4 ^ Suc L" using ilog4_bounds [OF x] by auto
  define y where "y = VSHR32 x (2 * (spx_ilog4 x - 6))"
  note p = sqrtPoly_range [OF sqrt_scaled(1,2) [OF L, folded y_def]]
  have s: "spx_sqrt x = s16 (VSHR32 (sqrtPoly y) (13 - int L))"
    by (simp add: spx_sqrt_def Let_def y_def L(1))
  show ?thesis
  proof (cases "L < 14")
    case True
    then have "0 \<le> VSHR32 (sqrtPoly y) (13 - int L) \<and> VSHR32 (sqrtPoly y) (13 - int L) \<le> sqrtPoly y"
      using p by (cases "L = 13") (auto simp: VSHR32_def SHR32_def SHL32_def drop_bit_eq_div s32_id pos_imp_zdiv_nonneg_iff zdiv_mono2 [of _ 1, simplified])
    then show ?thesis using s p by (auto simp: s16_id)
  next
    case False
    then have "even (sqrtPoly y * 2 ^ (L - 13))" "nat (- (13 - int L)) = L - 13" by simp_all
    then show ?thesis
      using s False s16_even_not_minus1 [of "sqrtPoly y * 2 ^ (L - 13)"] by (simp add: VSHR32_def SHL32_def push_bit_eq_mult)
  qed
next
  case True
  show ?thesis
  proof (cases "x = 0")
    case False
    have "(x + 4294967296) mod 4294967296 = x + 4294967296"
      using True False assms by (intro mod_pos_pos_trivial) (simp_all add: in32_def)
    then have u: "take_bit 32 x = x + 4294967296" by (simp add: take_bit_eq_mod)
    then obtain L where L: "spx_ilog4 (x + 4294967296) = int L" "L < 16" "x + 4294967296 < 4 ^ Suc L"
      using ilog4_bounds [of "x + 4294967296"] True False assms by (auto simp: in32_def)
    have "\<not> L < 15"
    proof
      assume "L < 15"
      then have "(4 :: int) ^ Suc L \<le> 4 ^ 15" by (intro power_increasing) simp_all
      then show False using L(3) assms by (simp add: in32_def)
    qed
    moreover have "spx_ilog4 x = spx_ilog4 (x + 4294967296)"
      unfolding spx_ilog4_def u [symmetric] by simp
    ultimately have "spx_ilog4 x = 15" using L by simp
    then have "spx_sqrt x = s16 (VSHR32 (sqrtPoly (VSHR32 x 18)) (- 2))" by (simp add: spx_sqrt_def Let_def)
    moreover have "VSHR32 z (- 2) = s32 (z * 4)" for z by (simp add: VSHR32_def SHL32_def push_bit_eq_mult)
    ultimately show ?thesis by (simp add: s16_even_not_minus1)
  next
    case True
    have "spx_sqrt 0 \<noteq> - 1" by code_simp
    then show ?thesis using True by simp
  qed
qed

end
