(* ===== verification/SpeexFilters.thy ===== *)
theory SpeexFilters
  imports SpeexMath
begin

text \<open>
  The filters of the decoder (\<open>Libraries/speex/filters.c\<close>, fixed-point build) and the inner product
  of \<open>ltp.c\<close>. A pointer into an array is the array and an index; a function that is called with one
  array as source and target reads each element before it writes it, and is given the array twice.
  Temporary arrays are filled before they are read; they start as zeros here.
\<close>

definition bw_lpc :: "int \<Rightarrow> int list \<Rightarrow> int list \<Rightarrow> nat \<Rightarrow> int list option" where
  "bw_lpc gamma lpc_in lpc_out order =
     map_option fst (foldO (\<lambda>i (lpc_out, tmp). do {
       x \<leftarrow> rd lpc_in i;
       lpc_out \<leftarrow> wr lpc_out i (s16 (MULT16_16_P15 tmp x));
       Some (lpc_out, s16 (MULT16_16_P15 tmp gamma)) }) [0..<order] (lpc_out, gamma))"

definition sanitize_values32 :: "int list \<Rightarrow> int \<Rightarrow> int \<Rightarrow> nat \<Rightarrow> int list option" where
  "sanitize_values32 vec min_val max_val len =
     fillO 0 (\<lambda>i vec. do {
       v \<leftarrow> rd vec i;
       Some (if \<not> (v \<ge> min_val \<and> v \<le> max_val) then (if v < min_val then min_val else if v > max_val then max_val else 0) else v)
     }) len vec"

definition Pcoef :: "int list list" where
  "Pcoef = [[16384, -31313, 14991], [16384, -31569, 15249], [16384, -31677, 15328], [16384, -32313, 15947], [16384, -22446, 6537]]"
definition Zcoef :: "int list list" where
  "Zcoef = [[15672, -31344, 15672], [15802, -31601, 15802], [15847, -31694, 15847], [16162, -32322, 16162], [14418, -28836, 14418]]"

definition highpass :: "int list \<Rightarrow> int list \<Rightarrow> nat \<Rightarrow> nat \<Rightarrow> int list \<Rightarrow> (int list \<times> int list) option" where
  "highpass x y len filtID mem = do {
     let filtID = (if filtID > 4 then 4 else filtID);
     den \<leftarrow> rd Pcoef filtID;
     num \<leftarrow> rd Zcoef filtID;
     foldO (\<lambda>i (y, mem). do {
       xi \<leftarrow> rd x i;
       n0 \<leftarrow> rd num 0; n1 \<leftarrow> rd num 1; n2 \<leftarrow> rd num 2;
       d1 \<leftarrow> rd den 1; d2 \<leftarrow> rd den 2;
       m0 \<leftarrow> rd mem 0; m1 \<leftarrow> rd mem 1;
       let vout = ADD32 (MULT16_16 n0 xi) m0;
       let yi = EXTRACT16 (SATURATE (PSHR32 vout 14) 32767);
       mem \<leftarrow> wr mem 0 (ADD32 (MAC16_16 m1 n1 xi) (SHL32 (MULT16_32_Q15 (- d1) vout) 1));
       mem \<leftarrow> wr mem 1 (ADD32 (MULT16_16 n2 xi) (SHL32 (MULT16_32_Q15 (- d2) vout) 1));
       y \<leftarrow> wr y i yi;
       Some (y, mem) }) [0..<len] (y, mem) }"

definition signal_mul :: "int list \<Rightarrow> int list \<Rightarrow> int \<Rightarrow> nat \<Rightarrow> int list option" where
  "signal_mul x y scale len =
     fillO 0 (\<lambda>i _. map_option (\<lambda>v. SHL32 (MULT16_32_Q14 (EXTRACT16 (SHR32 v 7)) scale) 7) (rd x i)) len y"

text \<open>The sums of squares of four samples at a time.\<close>

definition sumSquares :: "(int \<Rightarrow> int) \<Rightarrow> int list \<Rightarrow> int \<Rightarrow> nat \<Rightarrow> int option" where
  "sumSquares f x xo len =
     foldO (\<lambda>q sum. do {
       x0 \<leftarrow> rdI x (xo + 4 * int q);
       x1 \<leftarrow> rdI x (xo + 4 * int q + 1);
       x2 \<leftarrow> rdI x (xo + 4 * int q + 2);
       x3 \<leftarrow> rdI x (xo + 4 * int q + 3);
       let sum2 = MAC16_16 0 (f x0) (f x0);
       let sum2 = MAC16_16 sum2 (f x1) (f x1);
       let sum2 = MAC16_16 sum2 (f x2) (f x2);
       let sum2 = MAC16_16 sum2 (f x3) (f x3);
       Some (ADD32 sum (SHR32 sum2 6)) }) [0..<(len + 3) div 4] 0"

definition compute_rms16 :: "int list \<Rightarrow> int \<Rightarrow> nat \<Rightarrow> int option" where
  "compute_rms16 x xo len = do {
     max_val \<leftarrow> foldO (\<lambda>i max_val. do {
       tmp \<leftarrow> rdI x (xo + int i);
       let tmp = (if tmp < 0 then s32 (- tmp) else tmp);
       Some (if tmp > max_val then s16 tmp else max_val) }) [0..<len] 10;
     if max_val > 16383 then do {
       sum \<leftarrow> sumSquares (\<lambda>v. SHR16 v 1) x xo len;
       mean \<leftarrow> DIV32 sum (int len);
       Some (s16 (SHL16 (spx_sqrt mean) 4)) }
     else do {
       let sig_shift = (if max_val < 2048 then 3 else if max_val < 4096 then 2 else if max_val < 8192 then 1 else 0);
       sum \<leftarrow> sumSquares (\<lambda>v. SHL16 v sig_shift) x xo len;
       mean \<leftarrow> DIV32 sum (int len);
       Some (s16 (SHL16 (spx_sqrt mean) (3 - sig_shift))) } }"

definition iir_mem16 :: "int list \<Rightarrow> int \<Rightarrow> int list \<Rightarrow> int list \<Rightarrow> int \<Rightarrow> nat \<Rightarrow> nat \<Rightarrow> int list \<Rightarrow> (int list \<times> int list) option" where
  "iir_mem16 x xo den y yo N ord mem =
     foldO (\<lambda>i (y, mem). do {
       xi \<leftarrow> rdI x (xo + int i);
       m0 \<leftarrow> rd mem 0;
       let yi = EXTRACT16 (SATURATE (ADD32 (EXTEND32 xi) (PSHR32 m0 LPC_SHIFT)) 32767);
       let nyi = s16 (NEG16 yi);
       mem \<leftarrow> fillO 0 (\<lambda>j mem. do { m \<leftarrow> rd mem (j + 1); d \<leftarrow> rd den j; Some (MAC16_16 m d nyi) }) (ord - 1) mem;
       d \<leftarrow> rd den (ord - 1);
       mem \<leftarrow> wr mem (ord - 1) (MULT16_16 d nyi);
       y \<leftarrow> wrI y (yo + int i) yi;
       Some (y, mem) }) [0..<N] (y, mem)"

definition inner_prod :: "int list \<Rightarrow> int \<Rightarrow> int list \<Rightarrow> int \<Rightarrow> nat \<Rightarrow> int option" where
  "inner_prod x xo y yo len =
     foldO (\<lambda>q sum. do {
       let i = 4 * int q;
       x0 \<leftarrow> rdI x (xo + i); y0 \<leftarrow> rdI y (yo + i);
       x1 \<leftarrow> rdI x (xo + i + 1); y1 \<leftarrow> rdI y (yo + i + 1);
       x2 \<leftarrow> rdI x (xo + i + 2); y2 \<leftarrow> rdI y (yo + i + 2);
       x3 \<leftarrow> rdI x (xo + i + 3); y3 \<leftarrow> rdI y (yo + i + 3);
       let part = MAC16_16 0 x0 y0;
       let part = MAC16_16 part x1 y1;
       let part = MAC16_16 part x2 y2;
       let part = MAC16_16 part x3 y3;
       Some (ADD32 sum (SHR32 part 6)) }) [0..<len div 4] 0"

subsection \<open>Enhancement\<close>

definition shift_filt :: "int list list" where
  "shift_filt = [[-390, 1540, -4993, 20123, 20123, -4993, 1540],
                 [-1064, 2817, -6694, 31589, 6837, -990, -209],
                 [-209, -990, 6837, 31589, -6694, 2817, -1064]]"

text \<open>The correlations at the seven integer delays, at the three fractional ones between, and the
  position of the largest.\<close>

definition corrInteger :: "int list \<Rightarrow> int \<Rightarrow> int \<Rightarrow> nat \<Rightarrow> int list option" where
  "corrInteger exc eo pitch len =
     fillO 0 (\<lambda>i _. inner_prod exc eo exc (eo - pitch - 3 + int i) len) 7 (replicate 7 0)"

definition corrFraction :: "int list \<Rightarrow> nat \<Rightarrow> int list option" where
  "corrFraction corr0 i =
     fillO 0 (\<lambda>j _.
       let i1 = (if 3 < j then 0 else 3 - j); i2 = (if 10 - j > 7 then 7 else 10 - j)
       in foldO (\<lambda>k tmp. do {
            row \<leftarrow> rd shift_filt i;
            f \<leftarrow> rd row k;
            c \<leftarrow> rdI corr0 (int j + int k - 3);
            Some (s32 (tmp + MULT16_32_Q15 f c)) }) [i1..<i2] 0) 7 (replicate 7 0)"

definition maxCorr :: "int list list \<Rightarrow> (nat \<times> nat) option" where
  "maxCorr corr = do {
     row \<leftarrow> rd corr 0;
     c \<leftarrow> rd row 0;
     (maxcorr, maxi, maxj) \<leftarrow> foldO (\<lambda>(i, j) (maxcorr, maxi, maxj). do {
       row \<leftarrow> rd corr i;
       c \<leftarrow> rd row j;
       Some (if c > maxcorr then (c, i, j) else (maxcorr, maxi, maxj)) })
       (List.product [0..<4] [0..<7]) (c, 0, 0);
     Some (maxi, maxj) }"

definition interp_pitch :: "int list \<Rightarrow> int \<Rightarrow> int list \<Rightarrow> int \<Rightarrow> int \<Rightarrow> nat \<Rightarrow> (int \<times> int list) option" where
  "interp_pitch exc eo interp io pitch len = do {
     corr0 \<leftarrow> corrInteger exc eo pitch len;
     corr1 \<leftarrow> corrFraction corr0 0;
     corr2 \<leftarrow> corrFraction corr0 1;
     corr3 \<leftarrow> corrFraction corr0 2;
     (maxi, maxj) \<leftarrow> maxCorr [corr0, corr1, corr2, corr3];
     let start = eo - (pitch - int maxj + 3);
     interp \<leftarrow> fillO io (\<lambda>i _. do {
       tmp \<leftarrow> (if maxi > 0 then
           foldO (\<lambda>k tmp. do {
             e \<leftarrow> rdI exc (start + int i + int k - 3);
             row \<leftarrow> rd shift_filt (maxi - 1);
             f \<leftarrow> rd row k;
             Some (s32 (tmp + MULT16_16 e f)) }) [0..<7] 0
         else map_option (\<lambda>e. SHL32 e 15) (rdI exc (start + int i)));
       Some (s16 (PSHR32 tmp 15)) }) len interp;
     Some (pitch - int maxj + 3, interp) }"

text \<open>A loop that applies a function to a part of an array.\<close>

definition mapRange :: "(int \<Rightarrow> int) \<Rightarrow> int \<Rightarrow> nat \<Rightarrow> int list \<Rightarrow> int list option" where
  "mapRange f off n = fillO off (\<lambda>i a. map_option f (rdI a (off + int i))) n"

text \<open>The magnitudes and correlations the gains rest on, with the ratio of magnitudes limited.\<close>

definition combMag :: "int list \<Rightarrow> int \<Rightarrow> nat \<Rightarrow> int \<Rightarrow> int option" where
  "combMag iexc io nsf exc_mag = do {
     e \<leftarrow> inner_prod iexc io iexc io nsf;
     let mag = spx_sqrt (s32 (1000 + e));
     Some (if SHL32 (EXTEND32 mag) 6 < EXTEND32 exc_mag then ADD16 1 (PSHR16 exc_mag 6) else mag) }"

definition combCorr :: "int list \<Rightarrow> int \<Rightarrow> int list \<Rightarrow> int \<Rightarrow> nat \<Rightarrow> int option" where
  "combCorr iexc io exc eo nsf = map_option (\<lambda>c. if c < 0 then 0 else c) (inner_prod iexc io exc eo nsf)"

definition combGain :: "int \<Rightarrow> int \<Rightarrow> int \<Rightarrow> int option" where
  "combGain corr iexc_mag exc_mag =
     (if corr > MULT16_16 iexc_mag exc_mag then Some (QCONST16 1 1 14)
      else do { r \<leftarrow> PDIV32 corr exc_mag; PDIV32_16 (SHL32 r 14) iexc_mag })"

definition combWeight :: "int \<Rightarrow> int \<Rightarrow> int \<Rightarrow> int option" where
  "combWeight c1 c2 pgain = do {
     let g = s16 (32767 - MULT16_16_Q13 (MULT16_16_Q15 c2 pgain) pgain);
     let g = (if g < c1 then c1 else g);
     g \<leftarrow> PDIV32_16 (SHL32 (EXTEND32 c1) 14) g;
     Some (s16 g) }"

definition multicomb :: "int list \<Rightarrow> int \<Rightarrow> int list \<Rightarrow> int \<Rightarrow> nat \<Rightarrow> int \<Rightarrow> int \<Rightarrow> int \<Rightarrow> (int list \<times> int list) option" where
  "multicomb exc eo new_exc no nsf pitch max_pitch comb_gain = do {
     let corr_pitch = pitch;
     let iexc = replicate (2 * nsf) 0;
     (_, iexc) \<leftarrow> interp_pitch exc eo iexc 0 corr_pitch 80;
     (_, iexc) \<leftarrow> interp_pitch exc eo iexc (int nsf) (if corr_pitch > max_pitch then 2 * corr_pitch else - corr_pitch) 80;
     scaledown \<leftarrow> foldO (\<lambda>i b. if b then Some True else map_option (\<lambda>x. \<bar>x\<bar> > 16383) (rdI exc (eo + int i))) [0..<nsf] False;
     exc \<leftarrow> (if scaledown then mapRange (\<lambda>x. SHR16 x 1) eo nsf exc else Some exc);
     iexc \<leftarrow> (if scaledown then mapRange (\<lambda>x. SHR16 x 1) 0 (2 * nsf) iexc else Some iexc);
     e \<leftarrow> inner_prod exc eo exc eo nsf;
     let exc_mag = spx_sqrt (s32 (1 + e));
     corr0 \<leftarrow> combCorr iexc 0 exc eo nsf;
     corr1 \<leftarrow> combCorr iexc (int nsf) exc eo nsf;
     iexc0_mag \<leftarrow> combMag iexc 0 nsf exc_mag;
     iexc1_mag \<leftarrow> combMag iexc (int nsf) nsf exc_mag;
     pgain1 \<leftarrow> combGain corr0 iexc0_mag exc_mag;
     pgain2 \<leftarrow> combGain corr1 iexc1_mag exc_mag;
     gg1 \<leftarrow> PDIV32_16 (SHL32 (EXTEND32 exc_mag) 8) iexc0_mag;
     gg2 \<leftarrow> PDIV32_16 (SHL32 (EXTEND32 exc_mag) 8) iexc1_mag;
     let c1 = (if comb_gain > 0 then s16 (MULT16_16_Q15 (QCONST16 4 10 15) comb_gain + QCONST16 7 100 15) else 0);
     let c2 = (if comb_gain > 0 then s16 (QCONST16 5 10 15 + MULT16_16_Q14 (QCONST16 172 100 14) (c1 - QCONST16 7 100 15)) else 0);
     g1 \<leftarrow> combWeight c1 c2 pgain1;
     g2 \<leftarrow> combWeight c1 c2 pgain2;
     let gain0 = (if corr_pitch > max_pitch then MULT16_16_Q15 (QCONST16 7 10 15) (MULT16_16_Q14 g1 gg1)
                  else MULT16_16_Q15 (QCONST16 6 10 15) (MULT16_16_Q14 g1 gg1));
     let gain1 = (if corr_pitch > max_pitch then MULT16_16_Q15 (QCONST16 3 10 15) (MULT16_16_Q14 g2 gg2)
                  else MULT16_16_Q15 (QCONST16 6 10 15) (MULT16_16_Q14 g2 gg2));
     new_exc \<leftarrow> fillO no (\<lambda>i _. do {
       x \<leftarrow> rdI exc (eo + int i);
       i0 \<leftarrow> rdI iexc (int i);
       i1 \<leftarrow> rdI iexc (int i + int nsf);
       Some (ADD16 x (EXTRACT16 (PSHR32 (ADD32 (MULT16_16 gain0 i0) (MULT16_16 gain1 i1)) 8))) }) nsf new_exc;
     new_ener \<leftarrow> compute_rms16 new_exc no nsf;
     old_ener \<leftarrow> compute_rms16 exc eo nsf;
     let old_ener = (if old_ener < 1 then 1 else old_ener);
     let new_ener = (if new_ener < 1 then 1 else new_ener);
     let old_ener = (if old_ener > new_ener then new_ener else old_ener);
     ngain \<leftarrow> PDIV32_16 (SHL32 (EXTEND32 old_ener) 14) new_ener;
     new_exc \<leftarrow> mapRange (\<lambda>x. s16 (MULT16_16_Q14 ngain x)) no nsf new_exc;
     exc \<leftarrow> (if scaledown then mapRange (\<lambda>x. s16 (SHL16 x 1)) eo nsf exc else Some exc);
     new_exc \<leftarrow> (if scaledown then mapRange (\<lambda>x. s16 (SHL16 (SATURATE16 x 16383) 1)) no nsf new_exc else Some new_exc);
     Some (exc, new_exc) }"

end
