(* ===== verification/SpeexUnquant.thy ===== *)
theory SpeexUnquant
  imports SpeexFilters LspQuant SpeexExcTables
begin

text \<open>
  Decoding the excitation of the speech codec (\<open>Libraries/speex/ltp.c\<close>, \<open>cb_search.c\<close>, \<open>modes.c\<close>):
  the contribution of the past excitation at the pitch delay, the contribution of the fixed
  codebooks, and the table of the sub-modes that says which is used. The excitation of a sub-frame
  is the array \<open>exc\<close> from the index \<open>eo\<close> on, with its past before it.
\<close>

subsection \<open>The adaptive codebook\<close>

record ltp_params =
  lp_gain_cdbk :: "int list"
  lp_gain_bits :: nat
  lp_pitch_bits :: nat

definition gain_3tap_to_1tap :: "int list \<Rightarrow> int option" where
  "gain_3tap_to_1tap g = do {
     g0 \<leftarrow> rd g 0; g1 \<leftarrow> rd g 1; g2 \<leftarrow> rd g 2;
     Some (\<bar>g1\<bar> + (if g0 > 0 then g0 else - SHR16 g0 1) + (if g2 > 0 then g2 else - SHR16 g2 1)) }"

text \<open>The gain is limited after losses when the past it refers to may itself be made up.\<close>

definition limitGain :: "int list \<Rightarrow> int \<Rightarrow> int \<Rightarrow> int list option" where
  "limitGain gain count_lost last_pitch_gain = do {
     let tmp = (if count_lost < 4 then last_pitch_gain else SHR16 last_pitch_gain 1);
     let tmp = (if tmp > 62 then 62 else tmp);
     gain_sum \<leftarrow> map_option s16 (gain_3tap_to_1tap gain);
     if gain_sum > tmp then do {
       fact \<leftarrow> DIV32_16 (SHL32 (EXTEND32 tmp) 14) gain_sum;
       fillO 0 (\<lambda>i g. map_option (\<lambda>x. s16 (MULT16_16_Q14 fact x)) (rd g i)) 3 gain }
     else Some gain }"

definition addTaps :: "int list \<Rightarrow> int \<Rightarrow> int \<Rightarrow> int list \<Rightarrow> nat \<Rightarrow> int list \<Rightarrow> int list option" where
  "addTaps exc eo pitch gain nsf exc_out =
     foldO (\<lambda>i exc_out. do {
       let pp = pitch + 1 - int i;
       let tmp1 = min (int nsf) pp;
       g \<leftarrow> rd gain (2 - i);
       exc_out \<leftarrow> foldO (\<lambda>j exc_out. do {
         x \<leftarrow> rd exc_out j;
         e \<leftarrow> rdI exc (eo + int j - pp);
         wr exc_out j (MAC16_16 x g e) }) [0..<nat tmp1] exc_out;
       let tmp3 = min (int nsf) (pp + pitch);
       _ \<leftarrow> (if tmp1 < 0 \<and> tmp1 < tmp3 then None else Some ());
       foldO (\<lambda>j exc_out. do {
         x \<leftarrow> rd exc_out j;
         e \<leftarrow> rdI exc (eo + int j - pp - pitch);
         wr exc_out j (MAC16_16 x g e) }) [nat tmp1..<nat tmp3] exc_out }) [0..<3] exc_out"

type_synonym ltp_unquant =
  "int list \<Rightarrow> int \<Rightarrow> int list \<Rightarrow> int \<Rightarrow> int \<Rightarrow> int \<Rightarrow> ltp_params option \<Rightarrow> nat \<Rightarrow> speexBits \<Rightarrow> int \<Rightarrow> int \<Rightarrow> int \<Rightarrow> nat \<Rightarrow>
   (int list \<times> int list \<times> int \<times> int list \<times> speexBits) option"

text \<open>The results are the excitation, the contribution, the pitch, the three gains and the stream.\<close>

definition pitch_unquant_3tap :: ltp_unquant where
  "pitch_unquant_3tap exc eo exc_out start end1 pitch_coef par nsf bits count_lost subframe_offset last_pitch_gain cdbk_offset = do {
     params \<leftarrow> par;
     let gain_cdbk_size = 2 ^ lp_gain_bits params;
     let base = 4 * gain_cdbk_size * cdbk_offset;
     (pitch, bits) \<leftarrow> speex_bits_unpack_unsigned bits (lp_pitch_bits params);
     let pitch = int (unat pitch) + start;
     (gain_index, bits) \<leftarrow> speex_bits_unpack_unsigned bits (lp_gain_bits params);
     g0 \<leftarrow> rd (lp_gain_cdbk params) (base + unat gain_index * 4);
     g1 \<leftarrow> rd (lp_gain_cdbk params) (base + unat gain_index * 4 + 1);
     g2 \<leftarrow> rd (lp_gain_cdbk params) (base + unat gain_index * 4 + 2);
     let gain = [ADD16 32 g0, ADD16 32 g1, ADD16 32 g2];
     gain \<leftarrow> (if count_lost \<noteq> 0 \<and> pitch > subframe_offset then limitGain gain count_lost last_pitch_gain else Some gain);
     exc_out \<leftarrow> fillO 0 (\<lambda>_ _. Some 0) nsf exc_out;
     exc_out \<leftarrow> addTaps exc eo pitch (map (\<lambda>g. s16 (SHL16 g 7)) gain) nsf exc_out;
     Some (exc, exc_out, pitch, gain, bits) }"

definition forced_pitch_unquant :: ltp_unquant where
  "forced_pitch_unquant exc eo exc_out start end1 pitch_coef par nsf bits count_lost subframe_offset last_pitch_gain cdbk_offset = do {
     let pitch_coef = (if pitch_coef > 63 then 63 else pitch_coef);
     (exc, exc_out) \<leftarrow> foldO (\<lambda>i (exc, exc_out). do {
       e \<leftarrow> rdI exc (eo + int i - start);
       let v = MULT16_16 e (SHL16 pitch_coef 7);
       exc_out \<leftarrow> wr exc_out i v;
       exc \<leftarrow> wrI exc (eo + int i) (EXTRACT16 (PSHR32 v 13));
       Some (exc, exc_out) }) [0..<nsf] (exc, exc_out);
     Some (exc, exc_out, start, [0, pitch_coef, 0], bits) }"

subsection \<open>The fixed codebooks\<close>

record split_cb_params =
  sc_subvect_size :: nat
  sc_nb_subvect :: nat
  sc_shape_cb :: "int list"
  sc_shape_bits :: nat
  sc_have_sign :: bool

type_synonym innovation_unquant =
  "int list \<Rightarrow> split_cb_params option \<Rightarrow> nat \<Rightarrow> speexBits \<Rightarrow> int \<Rightarrow> (int list \<times> speexBits \<times> int) option"

text \<open>The result is the innovation, the stream and the seed of the noise.\<close>

definition split_cb_shape_sign_unquant :: innovation_unquant where
  "split_cb_shape_sign_unquant exc par nsf bits seed = do {
     params \<leftarrow> par;
     let subvect_size = sc_subvect_size params;
     let nb_subvect = sc_nb_subvect params;
     (signs, ind, bits) \<leftarrow> foldO (\<lambda>i (signs, ind, bits). do {
       (sign, bits) \<leftarrow> (if sc_have_sign params then speex_bits_unpack_unsigned bits 1 else Some (0, bits));
       (idx, bits) \<leftarrow> speex_bits_unpack_unsigned bits (sc_shape_bits params);
       signs \<leftarrow> wr signs i (unat sign);
       ind \<leftarrow> wr ind i (unat idx);
       Some (signs, ind, bits) }) [0..<nb_subvect] (replicate nb_subvect 0, replicate nb_subvect 0, bits);
     exc \<leftarrow> foldO (\<lambda>i exc. do {
       sign \<leftarrow> rd signs i;
       idx \<leftarrow> rd ind i;
       fillO (int (subvect_size * i)) (\<lambda>j _. do {
         c \<leftarrow> rd (sc_shape_cb params) (idx * subvect_size + j);
         let v = SHL32 (EXTEND32 c) (SIG_SHIFT - 5);
         Some (if sign = 0 then v else NEG32 v) }) subvect_size exc }) [0..<nb_subvect] exc;
     Some (exc, bits, seed) }"

definition noise_codebook_unquant :: innovation_unquant where
  "noise_codebook_unquant exc par nsf bits seed = do {
     (exc, seed) \<leftarrow> foldO (\<lambda>i (exc, seed). do {
       let (r, seed) = speex_rand 1 seed;
       exc \<leftarrow> wr exc i (SHL32 (EXTEND32 r) SIG_SHIFT);
       Some (exc, seed) }) [0..<nsf] (exc, seed);
     Some (exc, bits, seed) }"

subsection \<open>The sub-modes\<close>

text \<open>What the decoder uses of a sub-mode; \<open>params\<close> that are NULL are \<open>None\<close>.\<close>

record SpeexSubmode =
  sm_lbr_pitch :: int
  sm_forced_pitch_gain :: bool
  sm_have_subframe_gain :: nat
  sm_double_codebook :: bool
  sm_lsp_unquant :: "int list \<Rightarrow> nat \<Rightarrow> speexBits \<Rightarrow> (int list \<times> speexBits) option"
  sm_ltp_unquant :: ltp_unquant
  sm_ltp_params :: "ltp_params option"
  sm_innovation_unquant :: innovation_unquant
  sm_innovation_params :: "split_cb_params option"
  sm_comb_gain :: int
  sm_bits_per_frame :: int

definition ltp_params_nb :: ltp_params where
  "ltp_params_nb = \<lparr>lp_gain_cdbk = gain_cdbk_nb, lp_gain_bits = 7, lp_pitch_bits = 7\<rparr>"
definition ltp_params_vlbr :: ltp_params where
  "ltp_params_vlbr = \<lparr>lp_gain_cdbk = gain_cdbk_lbr, lp_gain_bits = 5, lp_pitch_bits = 0\<rparr>"
definition ltp_params_lbr :: ltp_params where
  "ltp_params_lbr = \<lparr>lp_gain_cdbk = gain_cdbk_lbr, lp_gain_bits = 5, lp_pitch_bits = 7\<rparr>"
definition ltp_params_med :: ltp_params where
  "ltp_params_med = \<lparr>lp_gain_cdbk = gain_cdbk_lbr, lp_gain_bits = 5, lp_pitch_bits = 7\<rparr>"

definition split_cb_nb_vlbr :: split_cb_params where
  "split_cb_nb_vlbr = \<lparr>sc_subvect_size = 10, sc_nb_subvect = 4, sc_shape_cb = exc_10_16_table, sc_shape_bits = 4, sc_have_sign = False\<rparr>"
definition split_cb_nb_ulbr :: split_cb_params where
  "split_cb_nb_ulbr = \<lparr>sc_subvect_size = 20, sc_nb_subvect = 2, sc_shape_cb = exc_20_32_table, sc_shape_bits = 5, sc_have_sign = False\<rparr>"
definition split_cb_nb_lbr :: split_cb_params where
  "split_cb_nb_lbr = \<lparr>sc_subvect_size = 10, sc_nb_subvect = 4, sc_shape_cb = exc_10_32_table, sc_shape_bits = 5, sc_have_sign = False\<rparr>"
definition split_cb_nb :: split_cb_params where
  "split_cb_nb = \<lparr>sc_subvect_size = 5, sc_nb_subvect = 8, sc_shape_cb = exc_5_64_table, sc_shape_bits = 6, sc_have_sign = False\<rparr>"
definition split_cb_nb_med :: split_cb_params where
  "split_cb_nb_med = \<lparr>sc_subvect_size = 8, sc_nb_subvect = 5, sc_shape_cb = exc_8_128_table, sc_shape_bits = 7, sc_have_sign = False\<rparr>"
definition split_cb_sb :: split_cb_params where
  "split_cb_sb = \<lparr>sc_subvect_size = 5, sc_nb_subvect = 8, sc_shape_cb = exc_5_256_table, sc_shape_bits = 8, sc_have_sign = False\<rparr>"

definition nb_submode1 :: SpeexSubmode where
  "nb_submode1 = \<lparr>sm_lbr_pitch = 0, sm_forced_pitch_gain = True, sm_have_subframe_gain = 0, sm_double_codebook = False,
     sm_lsp_unquant = lsp_unquant_lbr, sm_ltp_unquant = forced_pitch_unquant, sm_ltp_params = None,
     sm_innovation_unquant = noise_codebook_unquant, sm_innovation_params = None, sm_comb_gain = -1, sm_bits_per_frame = 43\<rparr>"
definition nb_submode8 :: SpeexSubmode where
  "nb_submode8 = \<lparr>sm_lbr_pitch = 0, sm_forced_pitch_gain = True, sm_have_subframe_gain = 0, sm_double_codebook = False,
     sm_lsp_unquant = lsp_unquant_lbr, sm_ltp_unquant = forced_pitch_unquant, sm_ltp_params = None,
     sm_innovation_unquant = split_cb_shape_sign_unquant, sm_innovation_params = Some split_cb_nb_ulbr,
     sm_comb_gain = QCONST16 5 10 15, sm_bits_per_frame = 79\<rparr>"
definition nb_submode2 :: SpeexSubmode where
  "nb_submode2 = \<lparr>sm_lbr_pitch = 0, sm_forced_pitch_gain = False, sm_have_subframe_gain = 0, sm_double_codebook = False,
     sm_lsp_unquant = lsp_unquant_lbr, sm_ltp_unquant = pitch_unquant_3tap, sm_ltp_params = Some ltp_params_vlbr,
     sm_innovation_unquant = split_cb_shape_sign_unquant, sm_innovation_params = Some split_cb_nb_vlbr,
     sm_comb_gain = QCONST16 6 10 15, sm_bits_per_frame = 119\<rparr>"
definition nb_submode3 :: SpeexSubmode where
  "nb_submode3 = \<lparr>sm_lbr_pitch = -1, sm_forced_pitch_gain = False, sm_have_subframe_gain = 1, sm_double_codebook = False,
     sm_lsp_unquant = lsp_unquant_lbr, sm_ltp_unquant = pitch_unquant_3tap, sm_ltp_params = Some ltp_params_lbr,
     sm_innovation_unquant = split_cb_shape_sign_unquant, sm_innovation_params = Some split_cb_nb_lbr,
     sm_comb_gain = QCONST16 55 100 15, sm_bits_per_frame = 160\<rparr>"
definition nb_submode4 :: SpeexSubmode where
  "nb_submode4 = \<lparr>sm_lbr_pitch = -1, sm_forced_pitch_gain = False, sm_have_subframe_gain = 1, sm_double_codebook = False,
     sm_lsp_unquant = lsp_unquant_lbr, sm_ltp_unquant = pitch_unquant_3tap, sm_ltp_params = Some ltp_params_med,
     sm_innovation_unquant = split_cb_shape_sign_unquant, sm_innovation_params = Some split_cb_nb_med,
     sm_comb_gain = QCONST16 45 100 15, sm_bits_per_frame = 220\<rparr>"
definition nb_submode5 :: SpeexSubmode where
  "nb_submode5 = \<lparr>sm_lbr_pitch = -1, sm_forced_pitch_gain = False, sm_have_subframe_gain = 3, sm_double_codebook = False,
     sm_lsp_unquant = lsp_unquant_nb, sm_ltp_unquant = pitch_unquant_3tap, sm_ltp_params = Some ltp_params_nb,
     sm_innovation_unquant = split_cb_shape_sign_unquant, sm_innovation_params = Some split_cb_nb,
     sm_comb_gain = QCONST16 3 10 15, sm_bits_per_frame = 300\<rparr>"
definition nb_submode6 :: SpeexSubmode where
  "nb_submode6 = \<lparr>sm_lbr_pitch = -1, sm_forced_pitch_gain = False, sm_have_subframe_gain = 3, sm_double_codebook = False,
     sm_lsp_unquant = lsp_unquant_nb, sm_ltp_unquant = pitch_unquant_3tap, sm_ltp_params = Some ltp_params_nb,
     sm_innovation_unquant = split_cb_shape_sign_unquant, sm_innovation_params = Some split_cb_sb,
     sm_comb_gain = QCONST16 2 10 15, sm_bits_per_frame = 364\<rparr>"
definition nb_submode7 :: SpeexSubmode where
  "nb_submode7 = \<lparr>sm_lbr_pitch = -1, sm_forced_pitch_gain = False, sm_have_subframe_gain = 3, sm_double_codebook = True,
     sm_lsp_unquant = lsp_unquant_nb, sm_ltp_unquant = pitch_unquant_3tap, sm_ltp_params = Some ltp_params_nb,
     sm_innovation_unquant = split_cb_shape_sign_unquant, sm_innovation_params = Some split_cb_nb,
     sm_comb_gain = QCONST16 1 10 15, sm_bits_per_frame = 492\<rparr>"

record SpeexNBMode =
  nm_frameSize :: nat
  nm_subframeSize :: nat
  nm_lpcSize :: nat
  nm_pitchStart :: int
  nm_pitchEnd :: int
  nm_submodes :: "SpeexSubmode option list"
  nm_defaultSubmode :: int

definition nb_mode :: SpeexNBMode where
  "nb_mode = \<lparr>nm_frameSize = 160, nm_subframeSize = 40, nm_lpcSize = 10, nm_pitchStart = 17, nm_pitchEnd = 144,
     nm_submodes = [None, Some nb_submode1, Some nb_submode2, Some nb_submode3, Some nb_submode4, Some nb_submode5, Some nb_submode6,
       Some nb_submode7, Some nb_submode8, None, None, None, None, None, None, None],
     nm_defaultSubmode = 5\<rparr>"

end
