(* ===== verification/SpeexLsp.thy ===== *)
theory SpeexLsp
  imports SpeexFilters
begin

text \<open>
  From line spectral pairs to the coefficients of the synthesis filter (\<open>Libraries/speex/lsp.c\<close>,
  fixed-point build): interpolation between frames, the margin that keeps the filter stable, and
  the product of second-order polynomials. The two matrices of that product lie on the stack and
  are not filled completely: a cell that has not been written has no value, and reading it has the
  result \<open>None\<close>.
\<close>

definition ANGLE2X :: "int \<Rightarrow> int" where "ANGLE2X a = SHL16 (spx_cos a) 2"

definition lsp_interpolate :: "int list \<Rightarrow> int list \<Rightarrow> int list \<Rightarrow> nat \<Rightarrow> nat \<Rightarrow> nat \<Rightarrow> int list option" where
  "lsp_interpolate old_lsp new_lsp interp_lsp len subframe nb_subframes = do {
     tmp \<leftarrow> DIV32_16 (SHL32 (EXTEND32 (1 + int subframe)) 14) (int nb_subframes);
     let tmp2 = s16 (16384 - tmp);
     fillO 0 (\<lambda>i _. do {
       old \<leftarrow> rd old_lsp i;
       new \<leftarrow> rd new_lsp i;
       Some (s16 (MULT16_16_P14 tmp2 old + MULT16_16_P14 tmp new)) }) len interp_lsp }"

definition lsp_enforce_margin :: "int list \<Rightarrow> nat \<Rightarrow> int \<Rightarrow> int list option" where
  "lsp_enforce_margin lsp len margin = do {
     let m = margin;
     let m2 = s16 (25736 - margin);
     x \<leftarrow> rd lsp 0;
     lsp \<leftarrow> (if x < m then wr lsp 0 m else Some lsp);
     x \<leftarrow> rd lsp (len - 1);
     lsp \<leftarrow> (if x > m2 then wr lsp (len - 1) m2 else Some lsp);
     foldO (\<lambda>i lsp. do {
       x \<leftarrow> rd lsp i;
       p \<leftarrow> rd lsp (i - 1);
       lsp \<leftarrow> (if x < p + m then wr lsp i (s16 (p + m)) else Some lsp);
       x \<leftarrow> rd lsp i;
       n \<leftarrow> rd lsp (i + 1);
       if x > n - m then wr lsp i (s16 (SHR16 x 1 + SHR16 (n - m) 1)) else Some lsp }) [1..<len - 1] lsp }"

subsection \<open>The matrices\<close>

type_synonym matrix = "nat \<Rightarrow> nat \<Rightarrow> int option"

definition mrd :: "nat \<Rightarrow> nat \<Rightarrow> matrix \<Rightarrow> nat \<Rightarrow> nat \<Rightarrow> int option" where
  "mrd rows cols a i j = (if i < rows \<and> j < cols then a i j else None)"

definition mwr :: "nat \<Rightarrow> nat \<Rightarrow> matrix \<Rightarrow> nat \<Rightarrow> nat \<Rightarrow> int \<Rightarrow> matrix option" where
  "mwr rows cols a i j x = (if i < rows \<and> j < cols then Some (a(i := (a i)(j := Some x))) else None)"

text \<open>One matrix: its trivial cells, the second row, and the rows after it, for the frequencies at
  the even (\<open>par = 0\<close>) or odd (\<open>par = 1\<close>) places. The source fills both matrices in one loop; their
  cells do not depend on each other.\<close>

definition lspRows :: "int list \<Rightarrow> nat \<Rightarrow> nat \<Rightarrow> matrix option" where
  "lspRows freqn lpcrdr par = do {
     let m = lpcrdr div 2;
     let rows = m + 1;
     let cols = lpcrdr + 1 + 2;
     let xin = SHL32 (EXTEND32 1) (21 - 1);
     x \<leftarrow> foldO (\<lambda>i x. do {
       x \<leftarrow> mwr rows cols x i 1 0;
       x \<leftarrow> mwr rows cols x i 2 xin;
       mwr rows cols x i (2 + 2 * i) xin }) [0..<m + 1] (\<lambda>_ _. None);
     f \<leftarrow> rd freqn par;
     x02 \<leftarrow> mrd rows cols x 0 2;
     x \<leftarrow> mwr rows cols x 1 3 (s32 (- MULT16_32_Q14 f x02));
     foldO (\<lambda>i x. do {
       x \<leftarrow> foldO (\<lambda>j x. do {
         f \<leftarrow> rd freqn (2 * i + par);
         x1 \<leftarrow> mrd rows cols x i (j + 1);
         x2 \<leftarrow> mrd rows cols x i (j + 2);
         x0 \<leftarrow> mrd rows cols x i j;
         mwr rows cols x (i + 1) (j + 2) (ADD32 (SUB32 x2 (MULT16_32_Q14 f x1)) x0) }) [1..<2 * (i + 1) - 1] x;
       let j = 2 * (i + 1) - 1;
       f \<leftarrow> rd freqn (2 * i + par);
       x1 \<leftarrow> mrd rows cols x i (j + 1);
       x0 \<leftarrow> mrd rows cols x i j;
       mwr rows cols x (i + 1) (j + 2) (SUB32 x0 (MULT16_32_Q14 f x1)) }) [1..<m] x }"

definition lsp_to_lpc :: "int list \<Rightarrow> int list \<Rightarrow> nat \<Rightarrow> int list option" where
  "lsp_to_lpc freq ak lpcrdr = do {
     let m = lpcrdr div 2;
     let rows = m + 1;
     let cols = lpcrdr + 1 + 2;
     freqn \<leftarrow> fillO 0 (\<lambda>i _. map_option (\<lambda>f. s16 (ANGLE2X f)) (rd freq i)) lpcrdr (replicate lpcrdr 0);
     xp \<leftarrow> lspRows freqn lpcrdr 0;
     xq \<leftarrow> lspRows freqn lpcrdr 1;
     (ak, xout1, xout2) \<leftarrow> foldO (\<lambda>j (ak, xout1, xout2). do {
       p \<leftarrow> mrd rows cols xp m (j + 2);
       q \<leftarrow> mrd rows cols xq m (j + 2);
       let a = PSHR32 (s32 (p + xout1 + q - xout2)) (21 - 13);
       let a = (if a < -32767 then -32767 else a);
       let a = (if a > 32767 then 32767 else a);
       ak \<leftarrow> wr ak (j - 1) (s16 a);
       Some (ak, p, q) }) [1..<lpcrdr + 1] (ak, 0, 0);
     Some ak }"

end
