(* ===== verification/SpeexDecoder.thy ===== *)
theory SpeexDecoder
  imports SpeexUnquant SpeexLsp
begin

text \<open>
  The narrow-band decoder of the speech codec (\<open>Libraries/speex/nb_celp.c\<close>, fixed-point build): its
  state, the search for a frame among requests and wide-band layers, the decoding of a frame and
  the concealment of a lost one. The callbacks of the state are arguments of the operations that
  call them. An operation has the result \<open>None\<close> where the source would access memory outside an
  array, divide by zero or never return.
\<close>

subsection \<open>State\<close>

record DecState =
  ds_first :: bool
  ds_count_lost :: int
  ds_frameSize :: nat
  ds_subframeSize :: nat
  ds_nbSubframes :: nat
  ds_lpcSize :: nat
  ds_min_pitch :: int
  ds_max_pitch :: int
  ds_sampling_rate :: int
  ds_last_ol_gain :: int
  ds_excBuf :: "int list"
  ds_exc :: int
  ds_old_qlsp :: "int list"
  ds_interp_qlpc :: "int list"
  ds_mem_sp :: "int list"
  ds_mem_hp :: "int list"
  ds_pi_gain :: "int list"
  ds_innov_save :: "int list option"
  ds_level :: int
  ds_max_level :: int
  ds_min_level :: int
  ds_last_pitch :: int
  ds_last_pitch_gain :: int
  ds_pitch_gain_buf :: "int list"
  ds_pitch_gain_buf_idx :: nat
  ds_seed :: int
  ds_encode_submode :: int
  ds_submodes :: "SpeexSubmode option list"
  ds_submodeID :: int
  ds_lpc_enh_enabled :: int
  ds_voc_m1 :: int
  ds_voc_m2 :: int
  ds_voc_mean :: int
  ds_voc_offset :: int
  ds_dtx_enabled :: int
  ds_isWideband :: int
  ds_highpass_enabled :: int

definition excLength :: "SpeexNBMode \<Rightarrow> nat" where
  "excLength mode = nat (int (nm_frameSize mode) + 2 * nm_pitchEnd mode + int (nm_subframeSize mode) + 12)"

text \<open>The state when all allocations succeed, which clear the memory; one that fails other than the
  first is not noticed by the source.\<close>

definition nb_decoder_init :: "SpeexNBMode \<Rightarrow> DecState" where
  "nb_decoder_init mode =
     \<lparr>ds_first = True, ds_count_lost = 0, ds_frameSize = nm_frameSize mode, ds_subframeSize = nm_subframeSize mode,
      ds_nbSubframes = nm_frameSize mode div nm_subframeSize mode, ds_lpcSize = nm_lpcSize mode,
      ds_min_pitch = nm_pitchStart mode, ds_max_pitch = nm_pitchEnd mode, ds_sampling_rate = 8000, ds_last_ol_gain = 0,
      ds_excBuf = replicate (excLength mode) 0, ds_exc = 2 * nm_pitchEnd mode + int (nm_subframeSize mode) + 6,
      ds_old_qlsp = replicate (nm_lpcSize mode) 0, ds_interp_qlpc = replicate (nm_lpcSize mode) 0,
      ds_mem_sp = replicate (nm_lpcSize mode) 0, ds_mem_hp = [0, 0],
      ds_pi_gain = replicate (nm_frameSize mode div nm_subframeSize mode) 0, ds_innov_save = None,
      ds_level = 0, ds_max_level = 0, ds_min_level = 0, ds_last_pitch = 40, ds_last_pitch_gain = 0,
      ds_pitch_gain_buf = [0, 0, 0], ds_pitch_gain_buf_idx = 0, ds_seed = 1000, ds_encode_submode = 1,
      ds_submodes = nm_submodes mode, ds_submodeID = nm_defaultSubmode mode, ds_lpc_enh_enabled = 1,
      ds_voc_m1 = 0, ds_voc_m2 = 0, ds_voc_mean = 0, ds_voc_offset = 0, ds_dtx_enabled = 0,
      ds_isWideband = 0, ds_highpass_enabled = 1\<rparr>"

subsection \<open>Concealment of a lost frame\<close>

definition attenuation :: "int list" where
  "attenuation = [32767, 31483, 27923, 22861, 17278, 12055, 7764, 4616, 2533, 1283]"

definition median3 :: "int \<Rightarrow> int \<Rightarrow> int \<Rightarrow> int" where
  "median3 a b c = (if a < b then (if b < c then b else if a < c then c else a)
     else (if c < b then b else if c < a then c else a))"

text \<open>Shifting the excitation by one frame.\<close>

definition shiftExc :: "DecState \<Rightarrow> DecState option" where
  "shiftExc st = do {
     e \<leftarrow> blit (ds_excBuf st) (ds_frameSize st) (ds_excBuf st) 0 (nat (2 * ds_max_pitch st + int (ds_subframeSize st) + 12));
     Some (st\<lparr>ds_excBuf := e\<rparr>) }"

text \<open>The gain of the last frame is stored in a ring of three.\<close>

definition pushGain :: "int \<Rightarrow> DecState \<Rightarrow> DecState option" where
  "pushGain g st = do {
     buf \<leftarrow> wr (ds_pitch_gain_buf st) (ds_pitch_gain_buf_idx st) g;
     let idx = ds_pitch_gain_buf_idx st + 1;
     Some (st\<lparr>ds_pitch_gain_buf := buf, ds_pitch_gain_buf_idx := (if idx > 2 then 0 else idx)\<rparr>) }"

text \<open>The gain of the last good frame is limited to the median of the last three.\<close>

definition medianGain :: "DecState \<Rightarrow> DecState option" where
  "medianGain st = do {
     p0 \<leftarrow> rd (ds_pitch_gain_buf st) 0; p1 \<leftarrow> rd (ds_pitch_gain_buf st) 1; p2 \<leftarrow> rd (ds_pitch_gain_buf st) 2;
     let gain_med = median3 p0 p1 p2;
     Some (if gain_med < ds_last_pitch_gain st then st\<lparr>ds_last_pitch_gain := gain_med\<rparr> else st) }"

text \<open>The excitation is continued with the last pitch, slightly changed at random, and noise.\<close>

definition lostPitch :: "DecState \<Rightarrow> int \<times> int" where
  "lostPitch st =
     (let (r, seed) = speex_rand (1 + ds_count_lost st) (ds_seed st);
          pitch_val = ds_last_pitch st + SHR32 r SIG_SHIFT;
          pitch_val = (if pitch_val > ds_max_pitch st then ds_max_pitch st else pitch_val);
          pitch_val = (if pitch_val < ds_min_pitch st then ds_min_pitch st else pitch_val)
      in (pitch_val, seed))"

definition lostExc :: "int \<Rightarrow> int \<Rightarrow> int \<Rightarrow> int \<Rightarrow> DecState \<Rightarrow> (int list \<times> int) option" where
  "lostExc pitch_gain noise_gain pitch_val seed st =
     foldO (\<lambda>i (exc, seed). do {
       e \<leftarrow> rdI exc (ds_exc st + int i - pitch_val);
       let (r, seed) = speex_rand noise_gain seed;
       exc \<leftarrow> wrI exc (ds_exc st + int i) (s16 (MULT16_16_Q15 pitch_gain (e + VERY_SMALL) + r));
       Some (exc, seed) }) [0..<ds_frameSize st] (ds_excBuf st, seed)"

definition nb_decode_lost :: "DecState \<Rightarrow> int list \<Rightarrow> (DecState \<times> int list) option" where
  "nb_decode_lost st out = do {
     fact \<leftarrow> (if ds_count_lost st < 10 then rdI attenuation (ds_count_lost st) else Some 0);
     st \<leftarrow> medianGain st;
     let pitch_gain = (if ds_last_pitch_gain st > 54 then 54 else ds_last_pitch_gain st);
     let pitch_gain = s16 (SHL16 pitch_gain 9);
     let pitch_gain = s16 (MULT16_16_Q15 fact pitch_gain + VERY_SMALL);
     innov_gain \<leftarrow> compute_rms16 (ds_excBuf st) (ds_exc st) (ds_frameSize st);
     let noise_gain = s16 (MULT16_16_Q15 innov_gain (MULT16_16_Q15 fact (SUB16 Q15ONE (MULT16_16_Q15 pitch_gain pitch_gain))));
     st \<leftarrow> shiftExc st;
     let (pitch_val, seed) = lostPitch st;
     (exc, seed) \<leftarrow> lostExc pitch_gain noise_gain pitch_val seed st;
     lpc \<leftarrow> bw_lpc (QCONST16 98 100 15) (ds_interp_qlpc st) (ds_interp_qlpc st) (ds_lpcSize st);
     (out, mem_sp) \<leftarrow> iir_mem16 exc (ds_exc st - int (ds_subframeSize st)) lpc out 0 (ds_frameSize st) (ds_lpcSize st) (ds_mem_sp st);
     (out, mem_hp) \<leftarrow> highpass out out (ds_frameSize st) 1 (ds_mem_hp st);
     st \<leftarrow> pushGain (s16 (PSHR16 pitch_gain 9))
       (st\<lparr>ds_excBuf := exc, ds_seed := seed, ds_interp_qlpc := lpc, ds_mem_sp := mem_sp, ds_mem_hp := mem_hp,
          ds_first := False, ds_count_lost := s32 (ds_count_lost st + 1)\<rparr>);
     Some (st, out) }"

subsection \<open>In-band requests and the search for a frame\<close>

type_synonym callback = "speexBits \<Rightarrow> DecState \<Rightarrow> (int \<times> speexBits \<times> DecState) option"

definition speex_inband_handler :: "speexBits \<Rightarrow> callback option list \<Rightarrow> DecState \<Rightarrow> (int \<times> speexBits \<times> DecState) option" where
  "speex_inband_handler bits callback_list state = do {
     (id1, bits) \<leftarrow> speex_bits_unpack_unsigned bits 4;
     let id1 = unat id1;
     cb \<leftarrow> rd callback_list id1;
     (case cb of
        Some func \<Rightarrow> func bits state
      | None \<Rightarrow> do {
          let adv = (if id1 < 2 then 1 else if id1 < 8 then 4 else if id1 < 10 then 8 else if id1 < 12 then 16
                     else if id1 < 14 then 32 else 64);
          bits \<leftarrow> speex_bits_advance bits adv;
          Some (0, bits, state) }) }"

definition speex_default_user_handler :: callback where
  "speex_default_user_handler bits state = do {
     (req_size, bits) \<leftarrow> speex_bits_unpack_unsigned bits 4;
     bits \<leftarrow> speex_bits_advance bits (5 + 8 * int (unat req_size));
     Some (0, bits, state) }"

definition wb_skip_table :: "int list" where
  "wb_skip_table = [0, 36, 112, 192, 352, 0, 0, 0]"

definition SB_SUBMODE_BITS :: nat where "SB_SUBMODE_BITS = 3"

text \<open>An error code to return with, or the value to go on with.\<close>

definition skipLayer :: "speexBits \<Rightarrow> ((int + unit) \<times> speexBits) option" where
  "skipLayer bits = do {
     (submode, bits) \<leftarrow> speex_bits_unpack_unsigned bits SB_SUBMODE_BITS;
     advance \<leftarrow> rd wb_skip_table (unat submode);
     if advance < 0 then Some (Inl (-2), bits)
     else do {
       bits \<leftarrow> speex_bits_advance bits (advance - (int SB_SUBMODE_BITS + 1));
       Some (Inr (), bits) } }"

definition skipWideband :: "speexBits \<Rightarrow> ((int + unit) \<times> speexBits) option" where
  "skipWideband bits = do {
     (r, bits) \<leftarrow> skipLayer bits;
     if isl r then Some (r, bits)
     else if speex_bits_remaining bits < 5 then Some (Inl (-1), bits)
     else do {
       (wideband, bits) \<leftarrow> speex_bits_unpack_unsigned bits 1;
       if wideband = 0 then Some (Inr (), bits)
       else do {
         (r, bits) \<leftarrow> skipLayer bits;
         if isl r then Some (r, bits)
         else do {
           (wideband, bits) \<leftarrow> speex_bits_unpack_unsigned bits 1;
           Some (if wideband = 0 then Inr () else Inl (-2), bits) } } } }"

definition frameHeader :: "speexBits \<Rightarrow> ((int + nat) \<times> speexBits) option" where
  "frameHeader bits = do {
     if speex_bits_remaining bits < 5 then Some (Inl (-1), bits)
     else do {
       (wideband, bits) \<leftarrow> speex_bits_unpack_unsigned bits 1;
       (r, bits) \<leftarrow> (if wideband = 0 then Some (Inr (), bits) else skipWideband bits);
       if isl r then Some (Inl (projl r), bits)
       else if speex_bits_remaining bits < 4 then Some (Inl (-1), bits)
       else do {
         (m, bits) \<leftarrow> speex_bits_unpack_unsigned bits 4;
         Some (Inr (unat m), bits) } } }"

definition handleRequest :: "callback option list \<Rightarrow> callback \<Rightarrow> nat \<Rightarrow> speexBits \<Rightarrow> DecState \<Rightarrow> (int \<times> speexBits \<times> DecState) option" where
  "handleRequest callbacks user m bits st =
     (if m = 15 then Some (-1, bits, st)
      else if m = 14 then speex_inband_handler bits callbacks st
      else if m = 13 then user bits st
      else if m > 8 then Some (-2, bits, st)
      else Some (0, bits, st))"

partial_function (option) findFrame ::
  "callback option list \<Rightarrow> callback \<Rightarrow> speexBits \<Rightarrow> DecState \<Rightarrow> ((int + nat) \<times> speexBits \<times> DecState) option" where
  "findFrame callbacks user bits st =
     Option.bind (frameHeader bits) (\<lambda>(r, bits).
       if isl r then Some (r, bits, st)
       else Option.bind (handleRequest callbacks user (projr r) bits st) (\<lambda>(ret, bits, st).
         if ret \<noteq> 0 then Some (Inl ret, bits, st)
         else if projr r > 8 then findFrame callbacks user bits st
         else Some (r, bits, st)))"

subsection \<open>Decoding a frame\<close>

definition ol_gain_table :: "int list" where
  "ol_gain_table = [18900, 25150, 33468, 44536, 59265, 78865, 104946, 139653, 185838, 247297, 329081, 437913, 582736, 775454,
     1031906, 1373169, 1827293, 2431601, 3235761, 4305867, 5729870, 7624808, 10146425, 13501971, 17967238, 23909222, 31816294,
     42338330, 56340132, 74972501, 99766822, 132760927]"
definition exc_gain_quant_scal3 :: "int list" where
  "exc_gain_quant_scal3 = [1002, 2680, 5086, 7016, 9108, 11781, 15380, 21740]"
definition exc_gain_quant_scal1 :: "int list" where "exc_gain_quant_scal1 = [11546, 17224]"
definition LSP_MARGIN :: int where "LSP_MARGIN = 16"

text \<open>A frame without transmission: noise of the energy of the last frame.\<close>

definition nullFrame :: "DecState \<Rightarrow> int list \<Rightarrow> (DecState \<times> int list) option" where
  "nullFrame st out = do {
     lpc \<leftarrow> bw_lpc (QCONST16 93 100 15) (ds_interp_qlpc st) (replicate (ds_lpcSize st) 0) (ds_lpcSize st);
     innov_gain \<leftarrow> compute_rms16 (ds_excBuf st) (ds_exc st) (ds_frameSize st);
     (exc, seed) \<leftarrow> foldO (\<lambda>i (exc, seed). do {
       let (r, seed) = speex_rand innov_gain seed;
       exc \<leftarrow> wrI exc (ds_exc st + int i) r;
       Some (exc, seed) }) [0..<ds_frameSize st] (ds_excBuf st, ds_seed st);
     (out, mem_sp) \<leftarrow> iir_mem16 exc (ds_exc st) lpc out 0 (ds_frameSize st) (ds_lpcSize st) (ds_mem_sp st);
     Some (st\<lparr>ds_excBuf := exc, ds_seed := seed, ds_first := True, ds_mem_sp := mem_sp, ds_count_lost := 0\<rparr>, out) }"

text \<open>The filter memory is damped after a loss. A shift by 32 or more would be undefined.\<close>

definition dampMemory :: "int list \<Rightarrow> DecState \<Rightarrow> DecState option" where
  "dampMemory qlsp st =
     (if ds_count_lost st = 0 then Some st
      else do {
        lsp_dist \<leftarrow> foldO (\<lambda>i d. do {
          a \<leftarrow> rd (ds_old_qlsp st) i;
          b \<leftarrow> rd qlsp i;
          Some (ADD32 d (EXTEND32 \<bar>a - b\<bar>)) }) [0..<ds_lpcSize st] 0;
        let sh = SHR32 lsp_dist (LSP_SHIFT + 2);
        fact \<leftarrow> (if 0 \<le> sh \<and> sh < 32 then Some (s16 (SHR16 19661 (nat sh))) else None);
        mem \<leftarrow> fillO 0 (\<lambda>i m. map_option (MULT16_32_Q15 fact) (rd m i)) (ds_lpcSize st) (ds_mem_sp st);
        Some (st\<lparr>ds_mem_sp := mem\<rparr>) })"

definition copyLsp :: "int list \<Rightarrow> DecState \<Rightarrow> DecState option" where
  "copyLsp qlsp st = do {
     q \<leftarrow> fillO 0 (\<lambda>i _. rd qlsp i) (ds_lpcSize st) (ds_old_qlsp st);
     Some (st\<lparr>ds_old_qlsp := q\<rparr>) }"

text \<open>What the frame says before its sub-frames: pitch, gain of the pitch, gain of the excitation and,
  in sub-mode 1, whether the transmission is discontinuous.\<close>

definition frameParams :: "SpeexSubmode \<Rightarrow> speexBits \<Rightarrow> DecState \<Rightarrow> (int \<times> int \<times> int \<times> speexBits \<times> DecState) option" where
  "frameParams sm bits st = do {
     (ol_pitch, bits) \<leftarrow> (if sm_lbr_pitch sm \<noteq> - 1 then do {
         (p, bits) \<leftarrow> speex_bits_unpack_unsigned bits 7;
         Some (ds_min_pitch st + int (unat p), bits) }
       else Some (0, bits));
     (ol_pitch_coef, bits) \<leftarrow> (if sm_forced_pitch_gain sm then do {
         (quant, bits) \<leftarrow> speex_bits_unpack_unsigned bits 4;
         Some (s16 (MULT16_16_P15 (QCONST16 66667 1000000 15) (SHL16 (int (unat quant)) GAIN_SHIFT)), bits) }
       else Some (0, bits));
     (qe, bits) \<leftarrow> speex_bits_unpack_unsigned bits 5;
     g \<leftarrow> rd ol_gain_table (unat qe);
     let ol_gain = MULT16_32_Q15 28406 g;
     (st, bits) \<leftarrow> (if ds_submodeID st = 1 then do {
         (extra, bits) \<leftarrow> speex_bits_unpack_unsigned bits 4;
         Some (st\<lparr>ds_dtx_enabled := (if extra = 15 then 1 else 0)\<rparr>, bits) }
       else Some (st, bits));
     let st = (if ds_submodeID st > 1 then st\<lparr>ds_dtx_enabled := 0\<rparr> else st);
     Some (ol_pitch, ol_pitch_coef, ol_gain, bits, st) }"

text \<open>The variables of a frame that change from sub-frame to sub-frame.\<close>

record FrameVars =
  fv_bits :: speexBits
  fv_pitch_average :: int
  fv_best_pitch :: int
  fv_best_pitch_gain :: int

definition pitchRange :: "SpeexSubmode \<Rightarrow> int \<Rightarrow> DecState \<Rightarrow> int \<times> int" where
  "pitchRange sm ol_pitch st =
     (if sm_lbr_pitch sm \<noteq> - 1 then
        (let margin = sm_lbr_pitch sm in
         if margin \<noteq> 0 then
           (let pit_min = ol_pitch - margin + 1;
                pit_min = (if pit_min < ds_min_pitch st then ds_min_pitch st else pit_min);
                pit_max = ol_pitch + margin;
                pit_max = (if pit_max > ds_max_pitch st then ds_max_pitch st else pit_max)
            in (pit_min, pit_max))
         else (ol_pitch, ol_pitch))
      else (ds_min_pitch st, ds_max_pitch st))"

definition betterPitch :: "int \<Rightarrow> int \<Rightarrow> int \<Rightarrow> int \<Rightarrow> bool" where
  "betterPitch tmp pitch best_pitch best_pitch_gain \<longleftrightarrow>
     (tmp > best_pitch_gain \<and> \<bar>2 * best_pitch - pitch\<bar> \<ge> 3 \<and> \<bar>3 * best_pitch - pitch\<bar> \<ge> 4 \<and> \<bar>4 * best_pitch - pitch\<bar> \<ge> 5) \<or>
     (tmp > MULT16_16_Q15 (QCONST16 6 10 15) best_pitch_gain \<and>
        (\<bar>best_pitch - 2 * pitch\<bar> < 3 \<or> \<bar>best_pitch - 3 * pitch\<bar> < 4 \<or> \<bar>best_pitch - 4 * pitch\<bar> < 5)) \<or>
     (MULT16_16_Q15 (QCONST16 67 100 15) tmp > best_pitch_gain \<and>
        (\<bar>2 * best_pitch - pitch\<bar> < 3 \<or> \<bar>3 * best_pitch - pitch\<bar> < 4 \<or> \<bar>4 * best_pitch - pitch\<bar> < 5))"

text \<open>The contribution of the past excitation to the sub-frame \<open>sub\<close>.\<close>

definition ltpPart :: "SpeexSubmode \<Rightarrow> int \<Rightarrow> int \<Rightarrow> nat \<Rightarrow> DecState \<Rightarrow> FrameVars \<Rightarrow> (DecState \<times> FrameVars \<times> int list) option" where
  "ltpPart sm ol_pitch ol_pitch_coef sub st fv = do {
     let offset = ds_subframeSize st * sub;
     let eo = ds_exc st + int offset;
     exc \<leftarrow> fillO eo (\<lambda>_ _. Some 0) (ds_subframeSize st) (ds_excBuf st);
     let (pit_min, pit_max) = pitchRange sm ol_pitch st;
     (exc, exc32, pitch, pitch_gain, bits) \<leftarrow>
       sm_ltp_unquant sm exc eo (replicate (ds_subframeSize st) 0) pit_min pit_max ol_pitch_coef (sm_ltp_params sm)
         (ds_subframeSize st) (fv_bits fv) (ds_count_lost st) (int offset) (ds_last_pitch_gain st) 0;
     exc32 \<leftarrow> sanitize_values32 exc32 (NEG32 (QCONST32 32000 1 (SIG_SHIFT - 1))) (QCONST32 32000 1 (SIG_SHIFT - 1)) (ds_subframeSize st);
     tmp \<leftarrow> map_option s16 (gain_3tap_to_1tap pitch_gain);
     let fv = fv\<lparr>fv_bits := bits, fv_pitch_average := s16 (fv_pitch_average fv + tmp)\<rparr>;
     let fv = (if betterPitch tmp pitch (fv_best_pitch fv) (fv_best_pitch_gain fv)
               then fv\<lparr>fv_best_pitch := pitch,
                       fv_best_pitch_gain := (if tmp > fv_best_pitch_gain fv then tmp else fv_best_pitch_gain fv)\<rparr>
               else fv);
     Some (st\<lparr>ds_excBuf := exc\<rparr>, fv, exc32) }"

text \<open>The gain of the sub-frame.\<close>

definition subframeGain :: "SpeexSubmode \<Rightarrow> int \<Rightarrow> speexBits \<Rightarrow> (int \<times> speexBits) option" where
  "subframeGain sm ol_gain bits =
     (if sm_have_subframe_gain sm = 3 then do {
        (q, bits) \<leftarrow> speex_bits_unpack_unsigned bits 3;
        g \<leftarrow> rd exc_gain_quant_scal3 (unat q);
        Some (MULT16_32_Q14 g ol_gain, bits) }
      else if sm_have_subframe_gain sm = 1 then do {
        (q, bits) \<leftarrow> speex_bits_unpack_unsigned bits 1;
        g \<leftarrow> rd exc_gain_quant_scal1 (unat q);
        Some (MULT16_32_Q14 g ol_gain, bits) }
      else Some (ol_gain, bits))"

text \<open>The innovation of the fixed codebooks, and the excitation that results from both.\<close>

definition secondCodebook :: "SpeexSubmode \<Rightarrow> nat \<Rightarrow> int \<Rightarrow> int list \<Rightarrow> speexBits \<Rightarrow> int \<Rightarrow> (int list \<times> speexBits \<times> int) option" where
  "secondCodebook sm nsf ener innov bits seed =
     (if sm_double_codebook sm then do {
        (innov2, bits, seed) \<leftarrow> sm_innovation_unquant sm (replicate nsf 0) (sm_innovation_params sm) nsf bits seed;
        innov2 \<leftarrow> signal_mul innov2 innov2 (MULT16_32_Q15 (QCONST16 454545 1000000 15) ener) nsf;
        innov \<leftarrow> fillO 0 (\<lambda>i innov. do { x \<leftarrow> rd innov i; y \<leftarrow> rd innov2 i; Some (ADD32 x y) }) nsf innov;
        Some (innov, bits, seed) }
      else Some (innov, bits, seed))"

definition saveInnov :: "int list \<Rightarrow> int \<Rightarrow> nat \<Rightarrow> int list option \<Rightarrow> int list option option" where
  "saveInnov innov offset nsf save =
     (case save of
        None \<Rightarrow> Some None
      | Some a \<Rightarrow> map_option Some (fillO offset (\<lambda>i _. map_option (\<lambda>x. EXTRACT16 (PSHR32 x SIG_SHIFT)) (rd innov i)) nsf a))"

definition innovPart :: "SpeexSubmode \<Rightarrow> int \<Rightarrow> nat \<Rightarrow> int list \<Rightarrow> DecState \<Rightarrow> FrameVars \<Rightarrow> (DecState \<times> FrameVars \<times> int list) option" where
  "innovPart sm ol_gain sub exc32 st fv = do {
     let nsf = ds_subframeSize st;
     let offset = nsf * sub;
     (ener, bits) \<leftarrow> subframeGain sm ol_gain (fv_bits fv);
     (innov, bits, seed) \<leftarrow> sm_innovation_unquant sm (replicate nsf 0) (sm_innovation_params sm) nsf bits (ds_seed st);
     innov \<leftarrow> signal_mul innov innov ener nsf;
     (innov, bits, seed) \<leftarrow> secondCodebook sm nsf ener innov bits seed;
     exc \<leftarrow> fillO (ds_exc st + int offset) (\<lambda>i _. do {
       e \<leftarrow> rd exc32 i;
       x \<leftarrow> rd innov i;
       Some (EXTRACT16 (SATURATE32 (PSHR32 (ADD32 (SHL32 e 1) x) SIG_SHIFT) 32767)) }) nsf (ds_excBuf st);
     save \<leftarrow> saveInnov innov (int offset) nsf (ds_innov_save st);
     Some (st\<lparr>ds_excBuf := exc, ds_seed := seed, ds_innov_save := save\<rparr>, fv\<lparr>fv_bits := bits\<rparr>, innov) }"

text \<open>The vocoder of sub-mode 1: pulses at the pitch delay, and their smoothing. The loop over the
  pulses would not end if the delay were not positive.\<close>

function pulses :: "int \<Rightarrow> int \<Rightarrow> int \<Rightarrow> int \<Rightarrow> int list \<Rightarrow> int \<Rightarrow> (int list \<times> int) option" where
  "pulses n step amp eo exc off =
     (if n \<le> off then Some (exc, off)
      else if step \<le> 0 then None
      else Option.bind (if off \<ge> 0 then wrI exc (eo + off) amp else Some exc) (\<lambda>exc. pulses n step amp eo exc (off + step)))"
  by pat_completeness auto
termination by (relation "measure (\<lambda>(n, step, amp, eo, exc, off). nat (n - off))") auto

declare pulses.simps [simp del]

definition vocoderSmooth :: "int list \<Rightarrow> int \<Rightarrow> int \<Rightarrow> DecState \<Rightarrow> DecState option" where
  "vocoderSmooth innov g eo st = do {
     (exc, m1, m2, mean) \<leftarrow> foldO (\<lambda>i (exc, m1, m2, mean). do {
       exci \<leftarrow> rdI exc (eo + int i);
       x \<leftarrow> rd innov i;
       let e = ADD16 (ADD16 (MULT16_16_Q15 (QCONST16 7 10 15) exci) (MULT16_16_Q15 (QCONST16 3 10 15) m1))
                 (SUB16 (MULT16_16_Q15 (Q15_ONE - MULT16_16_16 (QCONST16 85 100 9) g) (EXTRACT16 (PSHR32 x SIG_SHIFT)))
                        (MULT16_16_Q15 (MULT16_16_16 (QCONST16 15 100 9) g) (EXTRACT16 (PSHR32 m2 SIG_SHIFT))));
       let mean = EXTRACT16 (PSHR32 (ADD32 (MULT16_16 (QCONST16 8 10 15) mean) (MULT16_16 (QCONST16 2 10 15) e)) 15);
       exc \<leftarrow> wrI exc (eo + int i) (s16 (e - mean));
       Some (exc, exci, x, mean) }) [0..<ds_subframeSize st] (ds_excBuf st, ds_voc_m1 st, ds_voc_m2 st, ds_voc_mean st);
     Some (st\<lparr>ds_excBuf := exc, ds_voc_m1 := m1, ds_voc_m2 := m2, ds_voc_mean := mean\<rparr>) }"

definition vocoderPart :: "int \<Rightarrow> int \<Rightarrow> int \<Rightarrow> nat \<Rightarrow> int list \<Rightarrow> DecState \<Rightarrow> DecState option" where
  "vocoderPart ol_pitch ol_pitch_coef ol_gain sub innov st =
     (if ds_submodeID st \<noteq> 1 then Some st
      else do {
        let nsf = ds_subframeSize st;
        let eo = ds_exc st + int (nsf * sub);
        let g = s16 (MULT16_16_P14 (QCONST16 15 10 14) (ol_pitch_coef - QCONST16 2 10 6));
        let g = (if g < 0 then 0 else g);
        let g = (if g > GAIN_SCALING then GAIN_SCALING else g);
        exc \<leftarrow> fillO eo (\<lambda>_ _. Some 0) nsf (ds_excBuf st);
        let amp = s16 (MULT16_16 (spx_sqrt (MULT16_16_16 2 ol_pitch)) (EXTRACT16 (PSHR32 (MULT16_16 g (PSHR32 ol_gain SIG_SHIFT)) 6)));
        (exc, off) \<leftarrow> pulses (int nsf) ol_pitch amp eo exc (ds_voc_offset st);
        vocoderSmooth innov g eo (st\<lparr>ds_excBuf := exc, ds_voc_offset := off - int nsf\<rparr>) })"

definition subframe :: "SpeexSubmode \<Rightarrow> int \<Rightarrow> int \<Rightarrow> int \<Rightarrow> nat \<Rightarrow> DecState \<times> FrameVars \<Rightarrow> (DecState \<times> FrameVars) option" where
  "subframe sm ol_pitch ol_pitch_coef ol_gain sub s = do {
     (st, fv, exc32) \<leftarrow> ltpPart sm ol_pitch ol_pitch_coef sub (fst s) (snd s);
     (st, fv, innov) \<leftarrow> innovPart sm ol_gain sub exc32 st fv;
     st \<leftarrow> vocoderPart ol_pitch ol_pitch_coef ol_gain sub innov st;
     Some (st, fv) }"

text \<open>The output before synthesis: the excitation, enhanced unless the frame follows a loss.\<close>

definition enhance :: "SpeexSubmode \<Rightarrow> int \<Rightarrow> DecState \<Rightarrow> int list \<Rightarrow> (DecState \<times> int list) option" where
  "enhance sm best_pitch st out =
     (if ds_lpc_enh_enabled st \<noteq> 0 \<and> sm_comb_gain sm > 0 \<and> ds_count_lost st = 0 then do {
        let nsf = ds_subframeSize st;
        (exc, out) \<leftarrow> multicomb (ds_excBuf st) (ds_exc st - int nsf) out 0 (2 * nsf) best_pitch 40 (sm_comb_gain sm);
        (exc, out) \<leftarrow> multicomb exc (ds_exc st + int nsf) out (2 * int nsf) (2 * nsf) best_pitch 40 (sm_comb_gain sm);
        Some (st\<lparr>ds_excBuf := exc\<rparr>, out) }
      else do {
        out \<leftarrow> fillO 0 (\<lambda>i _. rdI (ds_excBuf st) (ds_exc st - int (ds_subframeSize st) + int i)) (ds_frameSize st) out;
        Some (st, out) })"

definition rescale :: "int \<Rightarrow> DecState \<Rightarrow> int list \<Rightarrow> (DecState \<times> int list) option" where
  "rescale ol_gain st out =
     (if ds_count_lost st = 0 then Some (st, out)
      else do {
        exc_ener \<leftarrow> compute_rms16 (ds_excBuf st) (ds_exc st) (ds_frameSize st);
        gain32 \<leftarrow> PDIV32 ol_gain (ADD16 exc_ener 1);
        let gain32 = (if gain32 > 32767 then 32767 else gain32);
        let gain = EXTRACT16 gain32;
        (exc, out) \<leftarrow> foldO (\<lambda>i (exc, out). do {
          e \<leftarrow> rdI exc (ds_exc st + int i);
          exc \<leftarrow> wrI exc (ds_exc st + int i) (s16 (MULT16_16_Q14 gain e));
          x \<leftarrow> rdI exc (ds_exc st + int i - int (ds_subframeSize st));
          out \<leftarrow> wr out i x;
          Some (exc, out) }) [0..<ds_frameSize st] (ds_excBuf st, out);
        Some (st\<lparr>ds_excBuf := exc\<rparr>, out) })"

text \<open>The synthesis filter of a sub-frame: the filter of the sub-frame before is applied, then the
  interpolated one is stored.\<close>

definition piGain :: "int list \<Rightarrow> nat \<Rightarrow> int option" where
  "piGain ak lpcSize =
     foldO (\<lambda>k g. do {
       a0 \<leftarrow> rd ak (2 * k);
       a1 \<leftarrow> rd ak (2 * k + 1);
       Some (ADD32 g (SUB32 (EXTEND32 a1) (EXTEND32 a0))) }) [0..<(lpcSize + 1) div 2] LPC_SCALING"

definition synthesis :: "int list \<Rightarrow> nat \<Rightarrow> DecState \<times> int list \<Rightarrow> (DecState \<times> int list) option" where
  "synthesis qlsp sub s = do {
     let st = fst s;
     let out = snd s;
     let offset = ds_subframeSize st * sub;
     lsp \<leftarrow> lsp_interpolate (ds_old_qlsp st) qlsp (replicate (ds_lpcSize st) 0) (ds_lpcSize st) sub (ds_nbSubframes st);
     lsp \<leftarrow> lsp_enforce_margin lsp (ds_lpcSize st) LSP_MARGIN;
     ak \<leftarrow> lsp_to_lpc lsp (replicate (ds_lpcSize st) 0) (ds_lpcSize st);
     pi_g \<leftarrow> piGain ak (ds_lpcSize st);
     pi_gain \<leftarrow> wr (ds_pi_gain st) sub pi_g;
     (out, mem_sp) \<leftarrow> iir_mem16 out (int offset) (ds_interp_qlpc st) out (int offset) (ds_subframeSize st) (ds_lpcSize st) (ds_mem_sp st);
     q \<leftarrow> fillO 0 (\<lambda>i _. rd ak i) (ds_lpcSize st) (ds_interp_qlpc st);
     Some (st\<lparr>ds_pi_gain := pi_gain, ds_mem_sp := mem_sp, ds_interp_qlpc := q\<rparr>, out) }"

definition trackLevel :: "int \<Rightarrow> DecState \<Rightarrow> DecState" where
  "trackLevel ol_gain st =
     (let level = s16 (1 + PSHR32 ol_gain SIG_SHIFT);
          max_level = s16 (max (MULT16_16_Q15 (QCONST16 99 100 15) (ds_max_level st)) level);
          min_level = s16 (min (ADD16 1 (MULT16_16_Q14 (QCONST16 101 100 14) (ds_min_level st))) level);
          max_level = (if max_level < min_level + 1 then s16 (min_level + 1) else max_level)
      in st\<lparr>ds_level := level, ds_max_level := max_level, ds_min_level := min_level\<rparr>)"

text \<open>A frame with a sub-mode.\<close>

definition codedFrame :: "SpeexSubmode \<Rightarrow> speexBits \<Rightarrow> DecState \<Rightarrow> int list \<Rightarrow> (speexBits \<times> DecState \<times> int list) option" where
  "codedFrame sm bits st out = do {
     (qlsp, bits) \<leftarrow> sm_lsp_unquant sm (replicate (ds_lpcSize st) 0) (ds_lpcSize st) bits;
     st \<leftarrow> dampMemory qlsp st;
     st \<leftarrow> (if ds_first st \<or> ds_count_lost st \<noteq> 0 then copyLsp qlsp st else Some st);
     (ol_pitch, ol_pitch_coef, ol_gain, bits, st) \<leftarrow> frameParams sm bits st;
     (st, fv) \<leftarrow> foldO (subframe sm ol_pitch ol_pitch_coef ol_gain) [0..<ds_nbSubframes st]
       (st, \<lparr>fv_bits = bits, fv_pitch_average = 0, fv_best_pitch = 40, fv_best_pitch_gain = 0\<rparr>);
     (st, out) \<leftarrow> enhance sm (fv_best_pitch fv) st out;
     (st, out) \<leftarrow> rescale ol_gain st out;
     (st, out) \<leftarrow> foldO (synthesis qlsp) [0..<ds_nbSubframes st] (st, out);
     (out, mem_hp) \<leftarrow> (if ds_highpass_enabled st \<noteq> 0
        then highpass out out (ds_frameSize st) (if ds_isWideband st \<noteq> 0 then 3 else 1) (ds_mem_hp st)
        else Some (out, ds_mem_hp st));
     let st = trackLevel ol_gain (st\<lparr>ds_mem_hp := mem_hp\<rparr>);
     st \<leftarrow> copyLsp qlsp st;
     let gain = s16 (PSHR16 (fv_pitch_average fv) 2);
     st \<leftarrow> pushGain gain (st\<lparr>ds_first := False, ds_count_lost := 0, ds_last_pitch := fv_best_pitch fv, ds_last_pitch_gain := gain\<rparr>);
     Some (fv_bits fv, st\<lparr>ds_last_ol_gain := s16 ol_gain\<rparr>, out) }"

text \<open>A frame of the sub-mode the state names. Without a sub-mode nothing of the stream is read.\<close>

definition decodeFrame :: "speexBits option \<Rightarrow> DecState \<Rightarrow> int list \<Rightarrow> (speexBits option \<times> DecState \<times> int list) option" where
  "decodeFrame bits st out = do {
     st \<leftarrow> shiftExc st;
     sm \<leftarrow> rdI (ds_submodes st) (ds_submodeID st);
     (case sm of
        None \<Rightarrow> do { (st, out) \<leftarrow> nullFrame st out; Some (bits, st, out) }
      | Some sm \<Rightarrow> do { b \<leftarrow> bits; (b, st, out) \<leftarrow> codedFrame sm b st out; Some (Some b, st, out) }) }"

definition nb_decode ::
  "callback option list \<Rightarrow> callback \<Rightarrow> DecState \<Rightarrow> speexBits option \<Rightarrow> int list \<Rightarrow>
   (int \<times> speexBits option \<times> DecState \<times> int list) option" where
  "nb_decode callbacks user st bits out =
     (case bits of
        None \<Rightarrow>
          if ds_dtx_enabled st \<noteq> 0 then do {
            (b, st, out) \<leftarrow> decodeFrame None (st\<lparr>ds_submodeID := 0\<rparr>) out;
            Some (0, b, st, out) }
          else do {
            (st, out) \<leftarrow> nb_decode_lost st out;
            Some (0, None, st, out) }
      | Some bits \<Rightarrow>
          if ds_encode_submode st \<noteq> 0 then do {
            (r, bits, st) \<leftarrow> findFrame callbacks user bits st;
            (case r of
               Inl ret \<Rightarrow> Some (ret, Some bits, st, out)
             | Inr m \<Rightarrow> do {
                 (b, st, out) \<leftarrow> decodeFrame (Some bits) (st\<lparr>ds_submodeID := int m\<rparr>) out;
                 Some (0, b, st, out) }) }
          else do {
            (b, st, out) \<leftarrow> decodeFrame (Some bits) st out;
            Some (0, b, st, out) })"

end
