(* ===== verification/SpeexFilterSafety.thy ===== *)
theory SpeexFilterSafety
  imports SpeexFilters
begin

text \<open>
  The filters stay inside their arrays and never divide by zero. The delicate one is the comb
  filter of the enhancement, which looks back at the excitation by up to twice the pitch and
  divides by square roots of sums that may wrap.
\<close>

lemma list_all_in16_update [simp]: "list_all in16 a \<Longrightarrow> in16 x \<Longrightarrow> list_all in16 (a[i := x])"
  by (auto simp: list_all_iff dest!: set_update_subset_insert [THEN subsetD])

lemma ok_True_bind: "ok (\<lambda>_. True) r \<Longrightarrow> (\<And>x. ok P (f x)) \<Longrightarrow> ok P (Option.bind r f)"
  by (cases r) simp_all

subsection \<open>Ranges of the arithmetic\<close>

lemma in16_ops [simp]: "in16 (ADD16 a b)" "in16 (s16 a)" "in16 (EXTRACT16 a)"
  by (simp_all add: ADD16_def)

lemma in32_ops [simp]:
  "in32 (ADD32 a b)" "in32 (SUB32 a b)" "in32 (SHL32 a n)" "in32 (MULT16_16 a b)" "in32 (MAC16_16 c a b)" "in32 (EXTEND32 a)"
  by (simp_all add: ADD32_def SUB32_def SHL32_def MULT16_16_def MAC16_16_def EXTEND32_def)

lemma in16_spx_sqrt [simp]: "in16 (spx_sqrt x)"
  by (simp add: spx_sqrt_def Let_def)

lemma s16_spx_sqrt [simp]: "s16 (spx_sqrt x) = spx_sqrt x"
  by (simp add: s16_in)

lemma drop_bit_in16: "in16 x \<Longrightarrow> in16 (drop_bit n x)"
proof -
  assume x: "in16 x"
  have "x div 2 ^ n < 32768" if "0 \<le> x"
    using zdiv_mono2 [of x 1 "2 ^ n"] that x by (simp add: in16_def)
  moreover have "0 \<le> x div 2 ^ n" if "0 \<le> x" using that by (simp add: pos_imp_zdiv_nonneg_iff)
  moreover have "x div 2 ^ n < 0" if "x < 0" using that by (simp add: div_neg_pos_less0)
  moreover have "- 32768 \<le> x div 2 ^ n" if "x < 0"
    using zdiv_mono2_neg [of x 1 "2 ^ n"] that x by (simp add: in16_def)
  ultimately show ?thesis unfolding in16_def drop_bit_eq_div by (cases "0 \<le> x") fastforce+
qed

lemma in16_SHR16 [simp]: "in16 x \<Longrightarrow> in16 (SHR16 x n)"
  by (simp add: SHR16_def drop_bit_in16)

lemma sdiv_in32: "in32 a \<Longrightarrow> 0 < b \<Longrightarrow> in32 (a sdiv b)"
proof -
  assume a: "in32 a" and b: "0 < b"
  have "\<bar>a\<bar> div b \<le> \<bar>a\<bar>" using b zdiv_mono2 [of "\<bar>a\<bar>" 1 b] by simp
  moreover have "0 \<le> \<bar>a\<bar> div b" using b by (simp add: pos_imp_zdiv_nonneg_iff)
  ultimately show ?thesis
    using a b by (cases "0 \<le> a") (auto simp: signed_divide_int_def in32_def sgn_if)
qed

lemma DIV32_ok: "in32 a \<Longrightarrow> 0 < b \<Longrightarrow> b < 2147483648 \<Longrightarrow> ok in32 (DIV32 a b)"
  by (simp add: DIV32_def s32_id s32_in sdiv_in32)

lemma PDIV32_16_ok [simp]: "s16 b \<noteq> 0 \<Longrightarrow> ok P (PDIV32_16 a b) = P (s16 ((s32 a + drop_bit 1 (s16 b)) sdiv s16 b))"
  by (simp add: PDIV32_16_def)

lemma DIV32_16_ok [simp]: "s16 b \<noteq> 0 \<Longrightarrow> ok P (DIV32_16 a b) = P (s16 (s32 a sdiv s16 b))"
  by (simp add: DIV32_16_def)

subsection \<open>Filters\<close>

lemma bw_lpc_ok:
  assumes "n \<le> length a" and "n \<le> length b"
  shows "ok (\<lambda>c. length c = length b) (bw_lpc g a b n)"
  unfolding bw_lpc_def ok_simps
  by (rule ok_mono [OF ok_foldO [where I = "\<lambda>(c, _). length c = length b"]]) (use assms in auto)

lemma sanitize_ok: "n \<le> length a \<Longrightarrow> ok (\<lambda>c. length c = length a) (sanitize_values32 a lo hi n)"
  unfolding sanitize_values32_def by (rule ok_fillO_len) auto

lemma signal_mul_ok: "n \<le> length a \<Longrightarrow> n \<le> length b \<Longrightarrow> ok (\<lambda>c. length c = length b) (signal_mul a b g n)"
  unfolding signal_mul_def by (rule ok_fillO_len) auto

lemma coef_rows: "i \<le> 4 \<Longrightarrow> length (Pcoef ! i) = 3 \<and> length (Zcoef ! i) = 3" "length Pcoef = 5" "length Zcoef = 5"
  by (auto simp: Pcoef_def Zcoef_def le_Suc_eq numeral_eq_Suc)

lemma highpass_ok:
  assumes "n \<le> length x" and "n \<le> length y" and "list_all in16 y" and "length mem = 2"
  shows "ok (\<lambda>(y', mem'). length y' = length y \<and> list_all in16 y' \<and> length mem' = 2) (highpass x y n f mem)"
proof -
  define i where "i = (if f > 4 then 4 else f)"
  have i: "i \<le> 4" by (simp add: i_def)
  note [simp] = coef_rows(1) [OF i] coef_rows(2,3)
  show ?thesis
    unfolding highpass_def Let_def i_def [symmetric]
    using i assms
    by (auto intro!: ok_foldO)
qed

lemma sumSquares_ok:
  assumes "0 \<le> xo" and "xo + int n \<le> int (length x)" and "4 dvd n"
  shows "ok in32 (sumSquares f x xo n)"
proof -
  obtain k where k: "n = 4 * k" using assms(3) by blast
  have "(4 * k + 3) div 4 = k" by simp
  then show ?thesis unfolding sumSquares_def k using assms(1,2) by (intro ok_foldO) (auto simp: k)
qed

lemma inner_prod_ok:
  assumes "0 \<le> xo" and "xo + int n \<le> int (length x)" and "0 \<le> yo" and "yo + int n \<le> int (length y)"
  shows "ok in32 (inner_prod x xo y yo n)"
proof -
  have "4 * (n div 4) \<le> n" by simp
  moreover have "4 * i + 3 < n" if "i < n div 4" for i using that by linarith
  ultimately show ?thesis unfolding inner_prod_def using assms by (intro ok_foldO) (fastforce simp: Let_def)+
qed

lemma compute_rms16_ok:
  assumes "0 \<le> xo" and "xo + int n \<le> int (length x)" and "4 dvd n" and "0 < n" and "n < 2147483648"
  shows "ok (\<lambda>r. in16 r \<and> r \<noteq> - 1) (compute_rms16 x xo n)"
proof -
  have even: "s16 (SHL16 z k) \<noteq> - 1" if "0 < k" for z and k :: nat
  proof -
    have "even (s32 (push_bit k z))" unfolding s32_def using that by (simp add: even_signed_take_bit_iff)
    then show ?thesis unfolding SHL16_def by (rule s16_even_not_minus1)
  qed
  have 0: "s16 (SHL16 (spx_sqrt z) 0) \<noteq> - 1" if "in32 z" for z
    using spx_sqrt_not_minus1 [OF that] by (simp add: SHL16_def)
  have "s16 (SHL16 (spx_sqrt z) k) \<noteq> - 1" if "in32 z" for z k using even 0 [OF that] by (cases "k = 0") auto
  moreover have "ok (\<lambda>s. ok P (DIV32 s (int n))) (sumSquares f x xo n)" if "\<And>z. in32 z \<Longrightarrow> P z" for f P
    by (rule ok_mono [OF sumSquares_ok]) (use assms that in \<open>auto intro!: ok_mono [OF DIV32_ok]\<close>)
  ultimately show ?thesis
    unfolding compute_rms16_def ok_simps
    apply (intro ok_mono [OF ok_foldO [where I = "\<lambda>_. True"]])
    using assms by (auto simp: Let_def)
qed

lemma iir_mem16_ok:
  assumes "0 \<le> xo" and "xo + int N \<le> int (length x)" and "0 \<le> yo" and "yo + int N \<le> int (length y)"
    and "list_all in16 y" and "0 < ord" and "ord \<le> length den" and "length mem = ord"
  shows "ok (\<lambda>(y', mem'). length y' = length y \<and> list_all in16 y' \<and> length mem' = ord) (iir_mem16 x xo den y yo N ord mem)"
  unfolding iir_mem16_def
proof (rule ok_foldO, goal_cases)
  case (2 i s)
  obtain y' mem' where s: "s = (y', mem')" by (cases s)
  have l: "0 < length mem'" "length mem' - Suc 0 < length den" using assms 2 s by auto
  have "ok (\<lambda>m. length m = length mem)
    (fillO 0 (\<lambda>j mem. Option.bind (rd mem (Suc j)) (\<lambda>m. Option.bind (rd den j) (\<lambda>d. Some (MAC16_16 m d v)))) (length mem - Suc 0) mem')" for v
    by (rule ok_mono [OF ok_fillO_len]) (use assms 2 s l in auto)
  note fill = ok_mono [OF this]
  show ?case using assms 2 l unfolding s by (auto simp: Let_def intro!: fill)
qed (use assms in auto)

subsection \<open>The comb filter\<close>

lemma corrInteger_ok:
  assumes "0 \<le> eo - pitch - 3" and "0 \<le> eo" and "eo + int n \<le> int (length exc)" and "eo - pitch + 3 + int n \<le> int (length exc)"
  shows "ok (\<lambda>c. length c = 7) (corrInteger exc eo pitch n)"
  unfolding corrInteger_def
  by (rule ok_mono [OF ok_fillO_len]) (use assms in \<open>auto intro!: ok_mono [OF inner_prod_ok]\<close>)

lemma shift_filt_rows: "i < 3 \<Longrightarrow> length (shift_filt ! i) = 7" "length shift_filt = 3"
  by (auto simp: shift_filt_def less_Suc_eq numeral_eq_Suc)

lemma corrFraction_ok:
  assumes "length c = 7" and "i < 3"
  shows "ok (\<lambda>c. length c = 7) (corrFraction c i)"
  unfolding corrFraction_def Let_def
  by (rule ok_mono [OF ok_fillO_len])
    (use assms shift_filt_rows in \<open>auto intro!: ok_foldO simp: nat_less_iff\<close>)

lemma maxCorr_ok:
  assumes "length corr = 4" and "\<And>c. c \<in> set corr \<Longrightarrow> length c = 7"
  shows "ok (\<lambda>(i, j). i < 4 \<and> j < 7) (maxCorr corr)"
proof -
  have "length (corr ! i) = 7" if "i < 4" for i using assms that by simp
  then show ?thesis unfolding maxCorr_def using assms(1)
    by (auto intro!: ok_mono [OF ok_foldO [where I = "\<lambda>(_, i, j). i < 4 \<and> j < (7 :: nat)"]])
qed

lemma interp_pitch_ok:
  assumes "0 \<le> eo - pitch - 6" and "0 \<le> eo" and "eo + int n \<le> int (length exc)" and "eo - pitch + 6 + int n \<le> int (length exc)"
    and "0 \<le> io" and "io + int n \<le> int (length interp)" and "list_all in16 interp"
  shows "ok (\<lambda>(_, r). length r = length interp \<and> list_all in16 r) (interp_pitch exc eo interp io pitch n)"
proof -
  have fill: "ok (\<lambda>r. length r = length interp \<and> list_all in16 r) (fillO io (\<lambda>i _. do {
       tmp \<leftarrow> (if mi > 0 then
           foldO (\<lambda>k tmp. do {
             e \<leftarrow> rdI exc (eo - (pitch - int mj + 3) + int i + int k - 3);
             row \<leftarrow> rd shift_filt (mi - 1);
             f \<leftarrow> rd row k;
             Some (s32 (tmp + MULT16_16 e f)) }) [0..<7] 0
         else map_option (\<lambda>e. SHL32 e 15) (rdI exc (eo - (pitch - int mj + 3) + int i)));
       Some (s16 (PSHR32 tmp 15)) }) n interp)" if "mi < 4" "mj < 7" for mi mj
  proof (rule ok_fillO)
    fix i and b :: "int list" assume i: "i < n"
    show "ok in16 (do {
       tmp \<leftarrow> (if mi > 0 then
           foldO (\<lambda>k tmp. do {
             e \<leftarrow> rdI exc (eo - (pitch - int mj + 3) + int i + int k - 3);
             row \<leftarrow> rd shift_filt (mi - 1);
             f \<leftarrow> rd row k;
             Some (s32 (tmp + MULT16_16 e f)) }) [0..<7] 0
         else map_option (\<lambda>e. SHL32 e 15) (rdI exc (eo - (pitch - int mj + 3) + int i)));
       Some (s16 (PSHR32 tmp 15)) })"
    proof (cases "mi = 0")
      case False
      then have "mi - 1 < 3" using that by simp
      note s = shift_filt_rows(1) [OF this] shift_filt_rows(2)
      show ?thesis using False that i assms s
        by (auto intro!: ok_mono [OF ok_foldO [where I = "\<lambda>_. True"]])
    next
      case True
      show ?thesis using True that i assms by simp
    qed
  qed (use assms in auto)
  have "ok (\<lambda>c. length c = 7) (corrInteger exc eo pitch n)" by (rule corrInteger_ok) (use assms in auto)
  then show ?thesis unfolding interp_pitch_def ok_simps Let_def
    apply (elim ok_mono)
    apply (rule ok_mono [OF corrFraction_ok], assumption, simp)+
    apply (rule ok_mono [OF maxCorr_ok], simp, force)
    using fill by (auto elim!: ok_mono)
qed

text \<open>A part of an array mapped in place.\<close>

lemma mapRange_ok:
  assumes "0 \<le> off" and "off + int n \<le> int (length a)"
  shows "ok (\<lambda>b. length b = length a \<and> (\<forall>k < length a. b ! k = (if nat off \<le> k \<and> k < nat off + n then f (a ! k) else a ! k)))
    (mapRange f off n a)"
proof -
  let ?I = "\<lambda>i b. length b = length a \<and> (\<forall>k < length a. b ! k = (if nat off \<le> k \<and> k < nat off + i then f (a ! k) else a ! k))"
  have "ok (?I n) (foldO (\<lambda>i b. Option.bind (map_option f (rdI b (off + int i))) (wrI b (off + int i))) [0..<n] a)"
  proof (rule ok_foldO_upt)
    fix i and b :: "int list" assume i: "i < n" and I: "?I i b"
    have "rdI b (off + int i) = Some (a ! (nat off + i))" "wrI b (off + int i) v = Some (b[nat off + i := v])" for v
      using assms i I by (simp_all add: nat_add_distrib)
    then show "ok (?I (Suc i)) (Option.bind (map_option f (rdI b (off + int i))) (wrI b (off + int i)))"
      using I i assms by (auto simp: nth_list_update less_Suc_eq)
  qed auto
  then show ?thesis by (simp only: mapRange_def fillO_def)
qed

lemma mapRange_in16:
  assumes "0 \<le> off" and "off + int n \<le> int (length a)" and "list_all in16 a" and "\<And>x. in16 x \<Longrightarrow> in16 (f x)"
  shows "ok (\<lambda>b. length b = length a \<and> list_all in16 b) (mapRange f off n a)"
  by (rule ok_mono [OF mapRange_ok]) (use assms in \<open>auto simp: list_all_length\<close>)

text \<open>The magnitude of samples that are small enough is positive.\<close>

lemma square_bound: "\<bar>x\<bar> \<le> 16384 \<Longrightarrow> 0 \<le> x * x \<and> x * x \<le> (268435456 :: int)"
  using mult_mono [of "\<bar>x\<bar>" 16384 "\<bar>x\<bar>" 16384] by (auto simp: abs_mult_self_eq)

lemma MULT16_16_square: "\<bar>x\<bar> \<le> 16384 \<Longrightarrow> MULT16_16 x x = x * x"
proof -
  assume x: "\<bar>x\<bar> \<le> 16384"
  then have "s16 x = x" by (intro s16_id) auto
  moreover have "s32 (x * x) = x * x" by (rule s32_id) (use square_bound [OF x] in linarith)+
  ultimately show ?thesis by (simp add: MULT16_16_def)
qed

lemma inner_prod_bound:
  assumes "0 \<le> xo" and "xo + int n \<le> int (length x)" and "\<And>i. i < n \<Longrightarrow> \<bar>x ! (nat xo + i)\<bar> \<le> 16384" and "n \<le> 80"
  shows "ok (\<lambda>s. 0 \<le> s \<and> s \<le> 335544320) (inner_prod x xo x xo n)"
proof -
  let ?I = "\<lambda>q s. 0 \<le> s \<and> s \<le> 16777216 * int q"
  have "ok (?I (n div 4)) (inner_prod x xo x xo n)"
    unfolding inner_prod_def
  proof (rule ok_foldO_upt, goal_cases)
    case (3 q s)
    then have q: "4 * q + 3 < n" by linarith
    have r: "rdI x (xo + 4 * int q + int k) = Some (x ! (nat xo + (4 * q + k)))" if "k < 4" for k
      using assms(1,2) q that by (simp add: nat_add_distrib nat_mult_distrib algebra_simps)
    have m: "\<bar>x ! (nat xo + (4 * q + k))\<bar> \<le> 16384" if "k < 4" for k using assms(3) q that by simp
    define a b c d where "a = x ! (nat xo + (4 * q + 0))" and "b = x ! (nat xo + (4 * q + 1))"
      and "c = x ! (nat xo + (4 * q + 2))" and "d = x ! (nat xo + (4 * q + 3))"
    have r4: "rdI x (xo + 4 * int q) = Some a" "rdI x (xo + 4 * int q + 1) = Some b"
      "rdI x (xo + 4 * int q + 2) = Some c" "rdI x (xo + 4 * int q + 3) = Some d"
      using r [of 0] r [of 1] r [of 2] r [of 3] by (simp_all add: a_def b_def c_def d_def)
    have m4: "\<bar>a\<bar> \<le> 16384" "\<bar>b\<bar> \<le> 16384" "\<bar>c\<bar> \<le> 16384" "\<bar>d\<bar> \<le> 16384"
      unfolding a_def b_def c_def d_def by (rule m, simp)+
    define A B C D where "A = a * a" and "B = b * b" and "C = c * c" and "D = d * d"
    note sq = m4 [THEN square_bound, folded A_def B_def C_def D_def]
    note mm = m4 [THEN MULT16_16_square, folded A_def B_def C_def D_def]
    have sum: "MAC16_16 (MAC16_16 (MAC16_16 (MAC16_16 0 a a) b b) c c) d d = A + B + C + D"
      using sq by (simp add: MAC16_16_def mm ADD32_def s32_id)
    define T where "T = (A + B + C + D) div 64"
    have "(A + B + C + D) div 64 \<le> 1073741824 div 64" by (rule zdiv_mono1) (use sq in auto)
    then have T: "0 \<le> T" "T \<le> 16777216" using sq by (simp_all add: T_def pos_imp_zdiv_nonneg_iff)
    moreover have "int q \<le> 19" using q assms(4) by simp
    ultimately have "s32 s = s" "s32 T = T" "s32 (s + T) = s + T" using 3 by (auto intro!: s32_id)
    then show ?case using 3 T
      by (simp add: r4 sum Let_def SHR32_def drop_bit_eq_div ADD32_def T_def [symmetric])
  qed auto
  moreover have "int (n div 4) \<le> 20" using assms(4) by simp
  ultimately show ?thesis by (elim ok_mono) simp
qed

text \<open>The magnitude of the interpolated excitation is limited from below by that of the excitation,
  which keeps it positive even when its sum of squares has wrapped.\<close>

lemma combMag_ok:
  assumes "0 \<le> io" and "io + int n \<le> int (length iexc)" and "1 \<le> m" and "in16 m"
  shows "ok (\<lambda>r. in16 r \<and> r \<noteq> 0) (combMag iexc io n m)"
proof -
  have "in16 (if SHL32 (EXTEND32 mag) 6 < EXTEND32 m then ADD16 1 (PSHR16 m 6) else mag) \<and>
      (if SHL32 (EXTEND32 mag) 6 < EXTEND32 m then ADD16 1 (PSHR16 m 6) else mag) \<noteq> 0" if "in16 mag" for mag
  proof (cases "SHL32 (EXTEND32 mag) 6 < EXTEND32 m")
    case True
    have "s32 (m + 32) = m + 32" using assms(3,4) by (intro s32_id) (auto simp: in16_def)
    then have p: "PSHR16 m 6 = (m + 32) div 64"
      by (simp add: PSHR16_def SHR16_def push_bit_eq_mult drop_bit_eq_div)
    have "0 \<le> (m + 32) div 64" "(m + 32) div 64 \<le> 600"
      using assms(3,4) zdiv_mono1 [of "m + 32" 38400 64] by (simp_all add: in16_def pos_imp_zdiv_nonneg_iff)
    then have "ADD16 1 (PSHR16 m 6) = 1 + (m + 32) div 64" "(m + 32) div 64 \<ge> 0"
      unfolding p ADD16_def by (simp_all add: s16_id)
    then show ?thesis using True by (simp add: in16_def) (use \<open>(m + 32) div 64 \<le> 600\<close> in linarith)
  next
    case False
    have "EXTEND32 mag = mag" "SHL32 mag 6 = mag * 64" "EXTEND32 m = m" using that assms(4)
      by (simp_all add: EXTEND32_def SHL32_def push_bit_eq_mult s32_id in16_def)
    then show ?thesis using False assms(3) that by auto
  qed
  then show ?thesis unfolding combMag_def ok_simps Let_def
    by (intro ok_mono [OF inner_prod_ok]) (use assms in auto)
qed

lemma PDIV32_16_in16 [simp]: "in16 b \<Longrightarrow> b \<noteq> 0 \<Longrightarrow> ok (\<lambda>_. True) (PDIV32_16 a b)"
  by (simp add: s16_in)

lemma combGain_ok:
  assumes "in16 a" and "a \<noteq> 0" and "in16 m" and "m \<noteq> 0"
  shows "ok (\<lambda>_. True) (combGain c a m)"
  using assms by (auto simp: combGain_def PDIV32_def s32_id in16_def s16_id)

lemma combWeight_ok: "0 < c1 \<Longrightarrow> in16 c1 \<Longrightarrow> ok (\<lambda>_. True) (combWeight c1 c2 p)"
  by (simp add: combWeight_def Let_def s16_in)

lemma combCorr_ok:
  assumes "0 \<le> xo" and "xo + int n \<le> int (length x)" and "0 \<le> yo" and "yo + int n \<le> int (length y)"
  shows "ok (\<lambda>_. True) (combCorr x xo y yo n)"
  unfolding combCorr_def ok_simps by (rule ok_mono [OF inner_prod_ok]) (use assms in auto)

text \<open>The gain of the comb filter is positive for the sub-modes that use it.\<close>

lemma comb_c1: "0 < g \<Longrightarrow> g \<le> 32767 \<Longrightarrow>
  0 < s16 (MULT16_16_Q15 (QCONST16 4 10 15) g + QCONST16 7 100 15)"
proof -
  assume g: "0 < g" "g \<le> 32767"
  have q: "QCONST16 4 10 15 = 13107" "QCONST16 7 100 15 = 2294" by code_simp+
  have "s32 (13107 * g) = 13107 * g" "s16 g = g" using g by (intro s32_id s16_id; simp)+
  then have "MULT16_16_Q15 13107 g = (13107 * g) div 32768"
    by (simp add: MULT16_16_Q15_def MULT16_16_def SHR_def drop_bit_eq_div s16_id)
  moreover have "0 \<le> (13107 * g) div 32768" "(13107 * g) div 32768 \<le> (13107 * 32767) div 32768"
    using g zdiv_mono1 [of "13107 * g" "13107 * 32767" 32768] by (simp_all add: pos_imp_zdiv_nonneg_iff)
  ultimately show ?thesis unfolding q by (simp add: s16_id)
qed

definition combReach :: "int list \<Rightarrow> int \<Rightarrow> int \<Rightarrow> bool" where
  "combReach exc eo pitch \<longleftrightarrow> list_all in16 exc \<and> 0 \<le> eo \<and>
     eo - 2 * pitch - 6 \<ge> 0 \<and> eo + 80 + 46 \<le> int (length exc) \<and> 17 \<le> pitch"

text \<open>Scaling down leaves nothing above 16384 in the part it looks at.\<close>

lemma scaledown_ok:
  fixes exc :: "int list"
  assumes "0 \<le> eo" and "eo + int n \<le> int (length exc)"
  shows "ok (\<lambda>b. b \<or> (\<forall>i < n. \<bar>exc ! (nat eo + i)\<bar> \<le> 16383))
    (foldO (\<lambda>i b. if b then Some True else map_option (\<lambda>x. \<bar>x\<bar> > 16383) (rdI exc (eo + int i))) [0..<n] False)"
proof (rule ok_foldO_upt [where I = "\<lambda>j b. b \<or> (\<forall>i < j. \<bar>exc ! (nat eo + i)\<bar> \<le> 16383)"], goal_cases)
  case (3 i b)
  then have "rdI exc (eo + int i) = Some (exc ! (nat eo + i))" using assms by (simp add: nat_add_distrib)
  then show ?case using 3 by (auto simp: less_Suc_eq)
qed simp_all

lemma scaled_exc:
  assumes "0 \<le> eo" and "eo + int n \<le> int (length exc)" and "list_all in16 exc"
    and "b \<or> (\<forall>i < n. \<bar>exc ! (nat eo + i)\<bar> \<le> 16383)"
  shows "ok (\<lambda>e. length e = length exc \<and> list_all in16 e \<and> (\<forall>i < n. \<bar>e ! (nat eo + i)\<bar> \<le> 16384))
    (if b then mapRange (\<lambda>x. SHR16 x 1) eo n exc else Some exc)"
proof (cases b)
  case True
  have s: "\<bar>SHR16 x 1\<bar> \<le> 16384" if "in16 x" for x
    using that by (auto simp: SHR16_def drop_bit_eq_div in16_def)
  have s: "\<bar>SHR16 (exc ! k) 1\<bar> \<le> 16384" if "k < length exc" for k by (rule s [OF list_all_nth [OF assms(3) that]])
  have "nat eo + n \<le> length exc" using assms(1,2) by linarith
  then have 1: "ok (\<lambda>e. length e = length exc \<and> (\<forall>i < n. \<bar>e ! (nat eo + i)\<bar> \<le> 16384)) (mapRange (\<lambda>x. SHR16 x 1) eo n exc)"
    by (intro ok_mono [OF mapRange_ok]) (use assms in \<open>auto simp del: One_nat_def intro!: s\<close>)
  have "ok (\<lambda>e. length e = length exc \<and> list_all in16 e) (mapRange (\<lambda>x. SHR16 x 1) eo n exc)"
    by (rule mapRange_in16) (use assms in auto)
  from ok_conj [OF 1 this] show ?thesis using True by (auto elim!: ok_mono)
next
  case False
  then show ?thesis using assms by fastforce
qed

lemma mapIf_ok:
  assumes "0 \<le> off" and "off + int n \<le> int (length a)" and "list_all in16 a" and "\<And>x. in16 x \<Longrightarrow> in16 (f x)"
  shows "ok (\<lambda>r. length r = length a \<and> list_all in16 r) (if b then mapRange f off n a else Some a)"
  using assms by (auto intro: mapRange_in16)

lemma multicomb_ok:
  assumes "combReach exc eo pitch" and "0 \<le> no" and "no + 80 \<le> int (length new_exc)" and "list_all in16 new_exc"
    and "0 < g" and "g \<le> 32767"
  shows "ok (\<lambda>(e, r). length e = length exc \<and> list_all in16 e \<and> length r = length new_exc \<and> list_all in16 r)
    (multicomb exc eo new_exc no 80 pitch 40 g)"
proof -
  have exc: "list_all in16 exc" "0 \<le> eo" "eo - 2 * pitch - 6 \<ge> 0" "eo + 126 \<le> int (length exc)" "17 \<le> pitch"
    using assms(1) by (simp_all add: combReach_def)
  have 1: "ok (\<lambda>(_, r). length r = 160 \<and> list_all in16 r) (interp_pitch exc eo (replicate (2 * 80) 0) 0 pitch 80)"
    by (rule ok_mono [OF interp_pitch_ok]) (use exc in \<open>auto simp: list_all_length\<close>)
  have 2: "ok (\<lambda>(_, r). length r = 160 \<and> list_all in16 r)
      (interp_pitch exc eo i (int 80) (if 40 < pitch then 2 * pitch else - pitch) 80)" if "length i = 160" "list_all in16 i" for i
    by (rule ok_mono [OF interp_pitch_ok]) (use exc that in auto)
  have 3: "ok (\<lambda>r. length r = 160 \<and> list_all in16 r) (if b then mapRange (\<lambda>x. SHR16 x 1) 0 (2 * 80) i else Some i)"
    if "length i = 160" "list_all in16 i" for i b
    by (rule ok_mono [OF mapIf_ok]) (use that in auto)
  have m: "1 \<le> spx_sqrt (s32 (1 + e))" if "0 \<le> e" "e \<le> 335544320" for e
    using that by (intro spx_sqrt_pos) (simp_all add: s32_id)
  note c1 = comb_c1 [OF assms(5,6)]
  show ?thesis
    unfolding multicomb_def Let_def
    apply (rule ok_bindI [OF 1], clarify)
    apply (rule ok_bindI, erule (1) 2, clarify)
    apply (rule ok_bindI [OF scaledown_ok], use exc in simp, use exc in simp)
    apply (rule ok_bindI [OF scaled_exc [where n = 80]], use exc in simp, use exc in simp, use exc in simp, assumption)
    apply (clarify, rule ok_bindI, erule (1) 3, clarify)
    apply (rule ok_bindI [OF inner_prod_bound], use exc in simp, use exc in simp, blast, simp, elim conjE)
    apply (frule (1) m)
    apply ((rule ok_bindI [OF combCorr_ok], simp, simp, use exc in simp, use exc in simp)+)[1]
    apply ((rule ok_bindI [OF combMag_ok], simp, simp, assumption, simp, elim conjE)+)[1]
    apply ((rule ok_bindI [OF combGain_ok], assumption, assumption, simp, simp)+)[1]
    apply ((rule ok_bindI [OF PDIV32_16_in16], assumption, assumption)+)[1]
    apply ((rule ok_bindI [OF combWeight_ok], use c1 assms(5) in simp, simp)+)[1]
    apply (rule ok_bindI [OF ok_fillO [where P = in16]], use assms in simp, use assms in simp, use assms in simp, use exc in simp, elim conjE)
    apply ((rule ok_bindI [OF compute_rms16_ok], use assms exc in simp, use assms exc in simp, simp, simp, simp)+)[1]
    apply (rule ok_bindI [OF PDIV32_16_in16], simp add: in16_def, simp)
    apply (rule ok_bindI [OF mapRange_in16], use assms in simp, use assms in simp, assumption, simp, elim conjE)
    apply (rule ok_bindI [OF mapIf_ok], use exc in simp, use exc in simp, assumption, simp, elim conjE)
    apply (rule ok_bindI [OF mapIf_ok], use assms in simp, use assms in simp, assumption, simp, elim conjE)
    using exc by simp
qed

end
