(* ===== verification/SpeexLspSafety.thy ===== *)
theory SpeexLspSafety
  imports SpeexLsp SpeexFilterSafety
begin

text \<open>
  The conversion from line spectral pairs to filter coefficients reads no cell of its matrices
  that has not been written, for every even order: row \<open>i\<close> is complete from column 1 to column
  \<open>2 i + 2\<close> when row \<open>i + 1\<close> is computed from it.
\<close>

lemma lsp_interpolate_ok:
  assumes "n \<le> length a" and "n \<le> length b" and "n \<le> length c" and "0 < k" and "k < 32768"
  shows "ok (\<lambda>d. length d = length c) (lsp_interpolate a b c n sub k)"
proof -
  have "s16 (int k) \<noteq> 0" using assms(4,5) by (simp add: s16_id)
  then show ?thesis unfolding lsp_interpolate_def ok_simps using assms(1-3) by (auto simp: Let_def intro!: ok_fillO_len)
qed

lemma wr_if_ok: "i < length a \<Longrightarrow> ok (\<lambda>b. length b = length a) (if c then wr a i v else Some a)"
  by simp

lemma lsp_enforce_margin_ok:
  assumes "0 < n" and "n \<le> length a"
  shows "ok (\<lambda>b. length b = length a) (lsp_enforce_margin a n m)"
proof -
  have a: "0 < length a" "n - 1 < length a" using assms by linarith+
  show ?thesis
    unfolding lsp_enforce_margin_def Let_def
    apply (rule ok_bindI [where Q = "\<lambda>_. True"], use a in simp)
    apply (rule ok_bindI [OF wr_if_ok], use a in simp)
    apply (rule ok_bindI [where Q = "\<lambda>_. True"], use a in simp)
    apply (rule ok_bindI [OF wr_if_ok], use a in simp)
    apply (rule ok_foldO, simp)
    apply (use assms in \<open>auto simp: wr_def\<close>)
    done
qed

subsection \<open>Cells that have been written\<close>

abbreviation written :: "matrix \<Rightarrow> nat \<Rightarrow> nat \<Rightarrow> bool" where
  "written x i j \<equiv> x i j \<noteq> None"

lemma mwr_ok [simp]: "i < r \<Longrightarrow> j < c \<Longrightarrow> mwr r c x i j v = Some (x(i := (x i)(j := Some v)))"
  by (simp add: mwr_def)

lemma mrd_ok [simp]: "i < r \<Longrightarrow> j < c \<Longrightarrow> written x i j \<Longrightarrow> ok P (mrd r c x i j) = P (the (x i j))"
  by (auto simp: mrd_def)

definition rowDone :: "matrix \<Rightarrow> nat \<Rightarrow> bool" where
  "rowDone x i \<longleftrightarrow> (\<forall>j. 1 \<le> j \<and> j \<le> 2 * i + 2 \<longrightarrow> written x i j)"

definition rowStarted :: "matrix \<Rightarrow> nat \<Rightarrow> bool" where
  "rowStarted x i \<longleftrightarrow> written x i 1 \<and> written x i 2 \<and> written x i (2 * i + 2)"

lemma lspRows_ok:
  assumes "length freqn = 2 * m" and "par \<le> 1" and "0 < m"
  shows "ok (\<lambda>x. rowDone x m) (lspRows freqn (2 * m) par)"
proof -
  define R C where "R = m + 1" and "C = 2 * m + 1 + 2"
  have R: "i < R" if "i \<le> m" for i using that by (simp add: R_def)
  have C: "j < C" if "j \<le> 2 * m + 2" for j using that by (simp add: C_def)
  have init: "ok (\<lambda>x. \<forall>i < R. rowStarted x i) (foldO (\<lambda>i x. do {
       x \<leftarrow> mwr R C x i 1 0;
       x \<leftarrow> mwr R C x i 2 v;
       mwr R C x i (2 + 2 * i) v }) [0..<R] x)" for v x
  proof (rule ok_foldO_upt [where I = "\<lambda>k x. \<forall>i < k. rowStarted x i"], goal_cases)
    case (3 i s)
    then have "i < R" "1 < C" "2 < C" "2 + 2 * i < C" using assms(3) by (auto simp: R_def C_def)
    then show ?case using 3 by (auto simp: rowStarted_def less_Suc_eq)
  qed simp_all
  have m: "2 * m div 2 = m" by simp
  have l: "par < length freqn" "0 < R" "1 < R" "2 < C" "3 < C" using assms by (auto simp: R_def C_def)
  have first: "ok (\<lambda>x. rowDone x 1 \<and> (\<forall>k. 1 < k \<and> k < R \<longrightarrow> rowStarted x k)) (mwr R C x 1 3 v)"
    if x: "\<forall>i < R. rowStarted x i" for x v
  proof -
    have "rowStarted x 1" using x l by simp
    then have w: "written x 1 1" "written x 1 2" "written x 1 4" by (simp_all add: rowStarted_def)
    have "written (x(1 := (x 1)(3 := Some v))) 1 j" if "1 \<le> j" "j \<le> 4" for j
    proof -
      have "j = 1 \<or> j = 2 \<or> j = 3 \<or> j = 4" using that by linarith
      then show ?thesis using w by (elim disjE) simp_all
    qed
    then have "rowDone (x(1 := (x 1)(3 := Some v))) 1" unfolding rowDone_def by simp
    moreover have "rowStarted (x(1 := (x 1)(3 := Some v))) k" if "1 < k" "k < R" for k
      using x that by (auto simp: rowStarted_def)
    ultimately show ?thesis using l by simp
  qed
  have row: "ok (\<lambda>x. rowDone x (Suc i) \<and> (\<forall>k. i + 1 < k \<and> k < R \<longrightarrow> rowStarted x k))
     (do {
       x \<leftarrow> foldO (\<lambda>j x. do {
         f \<leftarrow> rd freqn (2 * i + par);
         x1 \<leftarrow> mrd R C x i (j + 1);
         x2 \<leftarrow> mrd R C x i (j + 2);
         x0 \<leftarrow> mrd R C x i j;
         mwr R C x (i + 1) (j + 2) (ADD32 (SUB32 x2 (MULT16_32_Q14 f x1)) x0) }) [1..<2 * (i + 1) - 1] x;
       f \<leftarrow> rd freqn (2 * i + par);
       x1 \<leftarrow> mrd R C x i (2 * (i + 1) - 1 + 1);
       x0 \<leftarrow> mrd R C x i (2 * (i + 1) - 1);
       mwr R C x (i + 1) (2 * (i + 1) - 1 + 2) (SUB32 x0 (MULT16_32_Q14 f x1)) })"
    if i: "1 \<le> i" "i < m" and x: "rowDone x i \<and> (\<forall>k. i < k \<and> k < R \<longrightarrow> rowStarted x k)" for i x
  proof -
    let ?I = "\<lambda>j x. rowDone x i \<and> (\<forall>k. i < k \<and> k < R \<longrightarrow> rowStarted x k) \<and> (\<forall>l. 1 \<le> l \<and> l < j + 2 \<longrightarrow> written x (Suc i) l)"
    have f: "2 * i + par < length freqn" "i < R" "i + 1 < R" using i assms R by simp_all
    have w: "written x (Suc i) l" if "1 \<le> l" "l < 3" for l
    proof -
      have "l = 1 \<or> l = 2" using that by linarith
      then show ?thesis using x f by (auto simp: rowStarted_def)
    qed
    have "ok (?I (2 * (i + 1) - 1)) (foldO (\<lambda>j x. do {
         f \<leftarrow> rd freqn (2 * i + par);
         x1 \<leftarrow> mrd R C x i (j + 1);
         x2 \<leftarrow> mrd R C x i (j + 2);
         x0 \<leftarrow> mrd R C x i j;
         mwr R C x (i + 1) (j + 2) (ADD32 (SUB32 x2 (MULT16_32_Q14 f x1)) x0) }) [1..<2 * (i + 1) - 1] x)"
    proof (rule ok_foldO_upt, goal_cases)
      case (3 j s)
      then have "j + 2 < C" "j + 1 < C" "j < C" "written s i (j + 1)" "written s i (j + 2)" "written s i j"
        using i C by (auto simp: rowDone_def)
      then show ?case using 3 f by (auto simp: rowDone_def rowStarted_def less_Suc_eq)
    qed (use x w i in auto)
    then show ?thesis
    proof (rule ok_bindI, goal_cases)
      case (1 s)
      then have "2 * (i + 1) - 1 + 2 < C" "2 * (i + 1) - 1 + 1 < C" "2 * (i + 1) - 1 < C"
        "written s i (2 * (i + 1) - 1)" "written s i (2 * (i + 1) - 1 + 1)" "rowStarted s (Suc i)"
        "written s (Suc i) (Suc (2 * i))" "written s (Suc i) (Suc (Suc (2 * i)))"
        using i f C by (auto simp: rowDone_def)
      then show ?case using 1 f by (auto simp: rowDone_def rowStarted_def le_Suc_eq)
    qed
  qed
  show ?thesis
    unfolding lspRows_def Let_def m R_def [symmetric] C_def [symmetric]
    apply (rule ok_bindI [OF init])
    apply (rule ok_bindI [where Q = "\<lambda>_. True"], use l in simp)
    apply (rule ok_bindI [where Q = "\<lambda>_. True"], use l in \<open>simp add: rowStarted_def\<close>)
    apply (rule ok_bindI, erule first)
    apply (rule ok_mono [OF ok_foldO_upt [where I = "\<lambda>i x. rowDone x i \<and> (\<forall>k. i < k \<and> k < R \<longrightarrow> rowStarted x k)"]])
       apply (simp, use assms in simp)
    using row by (simp_all only: Suc_eq_plus1)
qed

lemma lsp_to_lpc_ok:
  assumes "length freq = 2 * m" and "length ak = 2 * m" and "0 < m"
  shows "ok (\<lambda>a. length a = 2 * m) (lsp_to_lpc freq ak (2 * m))"
proof -
  define R C where "R = m + 1" and "C = 2 * m + 1 + 2"
  have m: "2 * m div 2 = m" by simp
  have 1: "ok (\<lambda>f. length f = 2 * m) (fillO 0 (\<lambda>i _. map_option (\<lambda>f. s16 (ANGLE2X f)) (rd freq i)) (2 * m) (replicate (2 * m) 0))"
    by (rule ok_mono [OF ok_fillO_len]) (use assms in auto)
  have 2: "ok (\<lambda>(a, _). length a = 2 * m) (foldO (\<lambda>j (ak, xout1, xout2). do {
       p \<leftarrow> mrd R C xp m (j + 2);
       q \<leftarrow> mrd R C xq m (j + 2);
       ak \<leftarrow> wr ak (j - 1)
         (s16 (if 32767 < (if PSHR32 (s32 (p + xout1 + q - xout2)) (21 - 13) < - 32767 then - 32767
                           else PSHR32 (s32 (p + xout1 + q - xout2)) (21 - 13))
               then 32767
               else if PSHR32 (s32 (p + xout1 + q - xout2)) (21 - 13) < - 32767 then - 32767
                    else PSHR32 (s32 (p + xout1 + q - xout2)) (21 - 13)));
       Some (ak, p, q) }) [1..<2 * m + 1] (ak, 0, 0))"
    if "rowDone xp m" "rowDone xq m" for xp xq
  proof (rule ok_foldO, use assms in simp, goal_cases)
    case (1 j s)
    obtain a x y where s: "s = (a, x, y)" by (cases s) auto
    have "m < R" "j + 2 < C" "written xp m (j + 2)" "written xq m (j + 2)" "j - 1 < length a"
      using 1 that s by (auto simp: R_def C_def rowDone_def)
    then show ?case using 1 s by (auto simp: wr_def)
  qed
  show ?thesis
    unfolding lsp_to_lpc_def Let_def m R_def [symmetric] C_def [symmetric]
    apply (rule ok_bindI [OF 1])
    apply (rule ok_bindI, rule lspRows_ok, assumption, simp, rule assms)
    apply (rule ok_bindI, rule lspRows_ok, assumption, simp, rule assms)
    apply (rule ok_bindI, rule 2)
    by auto
qed

text \<open>C32: For every even order, the conversion of line spectral pairs to filter coefficients reads no
  cell of its two matrices that it has not written, writes no cell outside them, and delivers as many
  coefficients as the order, whatever the frequencies are.\<close>

theorem lsp_to_lpc_reads_written:
  assumes "length freq = 2 * m" and "length ak = 2 * m" and "0 < m"
  shows "\<exists>a. lsp_to_lpc freq ak (2 * m) = Some a \<and> length a = 2 * m"
  using okE [OF lsp_to_lpc_ok [OF assms]] .

theorem lsp_to_lpc_reads_written_witness:
  "\<exists>a. lsp_to_lpc [2048, 4096, 6144, 8192] [0, 0, 0, 0] (2 * 2) = Some a \<and> length a = 2 * 2"
  by (rule lsp_to_lpc_reads_written) simp_all

end
