(* ===== verification/SpeexUnquantSafety.thy ===== *)
theory SpeexUnquantSafety
  imports SpeexUnquant SpeexFilterSafety
begin

text \<open>
  Decoding the excitation stays inside the excitation buffer and the codebooks, whatever bits are
  read, and delivers gains from which the pitch gain of the next frames can be computed without
  wrapping.
\<close>

subsection \<open>Bits that have been read\<close>

text \<open>From \<open>a\<close> to \<open>b\<close> exactly \<open>n\<close> bits have been read, or the stream did not have them.\<close>

definition took :: "nat \<Rightarrow> speexBits \<Rightarrow> speexBits \<Rightarrow> bool" where
  "took n a b \<longleftrightarrow> sb_readable b \<and> sb_nbBits b = sb_nbBits a \<and>
     (if sb_overflow a \<or> sb_nbBits a < sb_pos a + n then sb_overflow b else \<not> sb_overflow b \<and> sb_pos b = sb_pos a + n)"

lemma took_readable: "took n a b \<Longrightarrow> sb_readable b"
  by (simp add: took_def)

lemma took_trans: "took m a b \<Longrightarrow> took n b c \<Longrightarrow> took (m + n) a c"
  by (auto simp: took_def split: if_splits)

lemma took_0: "sb_readable a \<Longrightarrow> took 0 a a"
  by (auto simp: took_def sb_readable_def)

lemma unpack_took:
  assumes "sb_readable b" and "n \<le> 31"
  shows "ok (\<lambda>(d, b'). took n b b' \<and> unat d < 2 ^ n) (speex_bits_unpack_unsigned b n)"
proof (cases "sb_overflow b \<or> sb_nbBits b < sb_pos b + n")
  case True
  then show ?thesis using assms
    by (auto simp: speex_bits_unpack_unsigned_def Let_def sb_pos_def sb_readable_def took_def mult.commute)
next
  case False
  then show ?thesis using unpack_fits [OF assms(1), of n] assms bitsValue_less [of "take n (drop (sb_pos b) (sb_stream b))" n]
    by (auto simp: took_def sb_readable_def)
qed

lemma unpack_after:
  assumes "took k a b" and "n \<le> 31"
  shows "ok (\<lambda>(d, b'). took (k + n) a b' \<and> unat d < 2 ^ n) (speex_bits_unpack_unsigned b n)"
  by (rule ok_mono [OF unpack_took [OF took_readable [OF assms(1)] assms(2)]]) (use took_trans [OF assms(1)] in auto)

subsection \<open>Gains\<close>

definition gainIn :: "int \<Rightarrow> bool" where
  "gainIn x \<longleftrightarrow> - 128 \<le> x \<and> x \<le> 256"

definition gainOk :: "int list \<Rightarrow> bool" where
  "gainOk g \<longleftrightarrow> length g = 3 \<and> list_all gainIn g"

lemma gainOk_nth: "gainOk g \<Longrightarrow> i < 3 \<Longrightarrow> - 128 \<le> g ! i \<and> g ! i \<le> 256"
  by (simp add: gainOk_def gainIn_def list_all_length)

lemma gain_3tap_ok:
  assumes "gainOk g"
  shows "ok (\<lambda>t. 0 \<le> t \<and> t \<le> 768) (gain_3tap_to_1tap g)"
proof -
  have s: "x \<le> 0 \<Longrightarrow> - 128 \<le> x \<Longrightarrow> SHR16 x 1 \<le> 0 \<and> - 64 \<le> SHR16 x 1" for x
    unfolding SHR16_def drop_bit_eq_div power_one_right by presburger
  have l: "length g = 3" using assms by (simp add: gainOk_def)
  note gainOk_nth [OF assms, of 0] gainOk_nth [OF assms, of 1] gainOk_nth [OF assms, of 2]
  then show ?thesis using s [of "g ! 0"] s [of "g ! 2"] by (auto simp: gain_3tap_to_1tap_def l)
qed

lemma scaled_gain:
  assumes "0 \<le> f" and "f \<le> 16384" and "gainIn x"
  shows "gainIn (s16 (MULT16_16_Q14 f x))"
proof -
  note assms = assms(1,2) assms(3) [unfolded gainIn_def]
  have "f * x \<le> 16384 * 256" using mult_mono [of f 16384 "max x 0" 256] assms mult_left_mono [of x "max x 0" f] by simp
  moreover have "16384 * (- 128) \<le> f * x"
    using mult_mono [of f 16384 "max (- x) 0" 128] assms mult_left_mono [of "- x" "max (- x) 0" f] by simp
  ultimately have "(16384 * (- 128)) div 16384 \<le> (f * x) div 16384" "(f * x) div 16384 \<le> (16384 * 256) div 16384"
    by (intro zdiv_mono1; simp)+
  moreover have "MULT16_16_Q14 f x = (f * x) div 16384" using assms by (intro Q14_eq) (auto simp: in16_def)
  ultimately show ?thesis by (simp add: s16_id gainIn_def)
qed

lemma limitGain_ok:
  assumes g: "gainOk g" and "0 \<le> lpg" and "in16 lpg"
  shows "ok gainOk (limitGain g cl lpg)"
proof -
  define t where "t = (if (if cl < 4 then lpg else SHR16 lpg 1) > 62 then 62 else (if cl < 4 then lpg else SHR16 lpg 1))"
  have t: "0 \<le> t" "t \<le> 62" using assms by (auto simp: t_def SHR16_def)
  have len: "length g = 3" using g by (simp add: gainOk_def)
  have fill: "ok gainOk (fillO 0 (\<lambda>i g. map_option (\<lambda>x. s16 (MULT16_16_Q14 f x)) (rd g i)) 3 g)" if "0 \<le> f" "f \<le> 16384" for f
    unfolding gainOk_def
    by (rule ok_mono [OF ok_fillO [where P = gainIn]])
      (use g that len in \<open>auto simp: gainOk_def intro!: scaled_gain list_all_nth [where P = gainIn]\<close>)
  have div: "ok (\<lambda>f. 0 \<le> f \<and> f \<le> 16384) (DIV32_16 (SHL32 (EXTEND32 t) 14) s)" if "t < s" "s \<le> 768" for s
  proof -
    have "SHL32 (EXTEND32 t) 14 = t * 16384" using t by (simp add: SHL32_def EXTEND32_def push_bit_eq_mult s32_id)
    moreover have "s32 (t * 16384) = t * 16384" using t by (intro s32_id) auto
    moreover have "s16 s = s" using that t by (intro s16_id) auto
    moreover have "(t * 16384) sdiv s = (t * 16384) div s" using t that by (simp add: signed_divide_int_def sgn_if)
    moreover have "0 \<le> (t * 16384) div s" using t that by (simp add: pos_imp_zdiv_nonneg_iff)
    moreover have "(t * 16384) div s \<le> (s * 16384) div s" using t that by (intro zdiv_mono1) auto
    ultimately show ?thesis using that t by (simp add: DIV32_16_def s16_id)
  qed
  show ?thesis
    unfolding limitGain_def Let_def t_def [symmetric] ok_simps
  proof (rule ok_mono [OF gain_3tap_ok [OF g]], goal_cases)
    case (1 x)
    then have "s16 x = x" by (intro s16_id) auto
    then show ?case using 1 g by (auto intro!: ok_mono [OF div] fill)
  qed
qed

subsection \<open>The adaptive codebook\<close>

lemma addTaps_ok:
  assumes "1 \<le> pitch" and "0 \<le> eo - pitch - 1" and "eo + int n \<le> int (length exc)" and "n \<le> length out" and "length g = 3"
  shows "ok (\<lambda>r. length r = length out) (addTaps exc eo pitch g n out)"
  unfolding addTaps_def Let_def
proof (rule ok_foldO, goal_cases)
  case (2 i out')
  have i: "i < 3" using 2 by simp
  let ?pp = "pitch + 1 - int i"
  have 1: "ok (\<lambda>r. length r = length out) (foldO (\<lambda>j out.
      Option.bind (rd out j) (\<lambda>x. Option.bind (rdI exc (eo + int j - ?pp)) (\<lambda>e. wr out j (MAC16_16 x h e))))
      [0..<nat (min (int n) ?pp)] out')" for h
    by (rule ok_foldO) (use 2 i assms in auto)
  have 3: "ok (\<lambda>r. length r = length out) (foldO (\<lambda>j out.
      Option.bind (rd out j) (\<lambda>x. Option.bind (rdI exc (eo + int j - ?pp - pitch)) (\<lambda>e. wr out j (MAC16_16 x h e))))
      [nat (min (int n) ?pp)..<nat (min (int n) (?pp + pitch))] r)" if "length r = length out" for h r
    by (rule ok_foldO) (use 2 i assms that in auto)
  have "\<not> min (int n) ?pp < 0" using i assms(1) by auto
  then show ?case using i assms(5)
    apply (simp only: simp_thms if_False)
    apply (rule ok_bindI [where Q = "\<lambda>_. True"], simp)
    apply (rule ok_bindI [OF 1])
    apply (rule ok_bindI [where Q = "\<lambda>_. True"], simp)
    by (rule 3)
qed simp

text \<open>The contract of the adaptive codebook: the excitation keeps its length, the contribution its
  length, the pitch is one the encoder could have sent, the gains are bounded.\<close>

definition ltpOk :: "nat \<Rightarrow> speexBits \<Rightarrow> (int list \<times> int list \<times> int \<times> int list \<times> speexBits) option \<Rightarrow> bool" where
  "ltpOk n b r = ok (\<lambda>(exc, out, pitch, gain, bits). length exc = 500 \<and> list_all in16 exc \<and> length out = 40 \<and>
     17 \<le> pitch \<and> pitch \<le> 144 \<and> gainOk gain \<and> took n b bits) r"

lemma ADD16_char: "- 128 \<le> c \<Longrightarrow> c \<le> 127 \<Longrightarrow> gainIn (ADD16 32 c)"
  by (simp add: ADD16_def s16_id gainIn_def)

lemma pitch_unquant_3tap_ok:
  assumes exc: "length exc = 500" "list_all in16 exc" "334 \<le> eo" "eo \<le> 454" and out: "length out = 40"
    and start: "17 \<le> start" "start + 2 ^ lp_pitch_bits p \<le> 145"
    and p: "4 * 2 ^ lp_gain_bits p \<le> length (lp_gain_cdbk p)" "signedChars (lp_gain_cdbk p)" "lp_gain_bits p \<le> 31" "lp_pitch_bits p \<le> 31"
    and bits: "sb_readable bits" and lpg: "0 \<le> lpg" "in16 lpg"
  shows "ltpOk (lp_pitch_bits p + lp_gain_bits p) bits (pitch_unquant_3tap exc eo out start e1 pc (Some p) 40 bits cl off lpg 0)"
proof -
  have c: "gainIn (ADD16 32 (lp_gain_cdbk p ! k))" if "k < length (lp_gain_cdbk p)" for k
    using p(2) that by (intro ADD16_char) (auto simp: signedChars_def list_all_length)
  have pos: "k * 4 + 3 < length (lp_gain_cdbk p)" if "k < 2 ^ lp_gain_bits p" for k using that p(1) by linarith
  have u: "1 \<le> uint a + start" "17 \<le> uint a + start" for a :: u32
    using start(1) unsigned_greater_eq [of a, where ?'a = int] by linarith+
  have pw: "int k < 2 ^ n" if "k < 2 ^ n" for k n :: nat using that by (metis of_nat_less_numeral_power_cancel_iff)
  have fill: "ok (\<lambda>r. length r = 40) (fillO 0 (\<lambda>_ _. Some 0) 40 out)"
    by (rule ok_mono [OF ok_fillO_len]) (use out in auto)
  have lim: "ok gainOk (if b then limitGain g cl lpg else Some g)" if "gainOk g" for b g
    using limitGain_ok [OF that lpg] that by simp
  show ?thesis
    unfolding pitch_unquant_3tap_def ltpOk_def Let_def
    apply (rule ok_bindI [where Q = "\<lambda>x. x = p"], simp, hypsubst)
    apply (rule ok_bindI, rule unpack_took [OF bits p(4)], clarify)
    apply (rule ok_bindI, erule unpack_after [OF _ p(3)], clarify)
    apply (drule pos)
    apply (drule pw)
    apply (rule ok_bindI [where Q = "\<lambda>x. gainIn (ADD16 32 x)"], use c in simp)
    apply (rule ok_bindI [where Q = "\<lambda>x. gainIn (ADD16 32 x)"], use c in simp)
    apply (rule ok_bindI [where Q = "\<lambda>x. gainIn (ADD16 32 x)"], use c in simp)
    apply (rule ok_bindI, rule lim, simp add: gainOk_def)
    apply (rule ok_bindI [OF fill])
    apply (rule ok_bindI, rule addTaps_ok)
    using exc start u by (auto simp: gainOk_def)
qed

lemma forced_pitch_unquant_ok:
  assumes exc: "length exc = 500" "list_all in16 exc" "334 \<le> eo" "eo \<le> 454" and out: "length out = 40"
    and start: "17 \<le> start" "start \<le> 144" and pc: "0 \<le> pc" and bits: "sb_readable bits"
  shows "ltpOk 0 bits (forced_pitch_unquant exc eo out start e1 pc par 40 bits cl off lpg k)"
proof -
  define c where "c = (if pc > 63 then 63 else pc)"
  have "gainOk [0, c, 0]" using pc by (simp add: c_def gainOk_def gainIn_def)
  then show ?thesis unfolding forced_pitch_unquant_def ltpOk_def Let_def c_def [symmetric] ok_simps
    by (intro ok_mono [OF ok_foldO [where I = "\<lambda>(e, r). length e = 500 \<and> list_all in16 e \<and> length r = 40"]])
      (use assms in \<open>auto simp: Let_def took_0\<close>)
qed

subsection \<open>The fixed codebooks\<close>

definition innovOk :: "nat \<Rightarrow> speexBits \<Rightarrow> (int list \<times> speexBits \<times> int) option \<Rightarrow> bool" where
  "innovOk n b r = ok (\<lambda>(innov, bits, seed). length innov = 40 \<and> took n b bits) r"

lemma split_cb_ok:
  assumes exc: "length exc = 40" and bits: "sb_readable bits"
    and p: "sc_subvect_size p * sc_nb_subvect p \<le> 40" "2 ^ sc_shape_bits p * sc_subvect_size p \<le> length (sc_shape_cb p)" "sc_shape_bits p \<le> 31"
  shows "innovOk (sc_nb_subvect p * (sc_shape_bits p + (if sc_have_sign p then 1 else 0))) bits (split_cb_shape_sign_unquant exc (Some p) n bits seed)"
proof -
  define N S where "N = sc_nb_subvect p" and "S = sc_subvect_size p"
  define w where "w = sc_shape_bits p + (if sc_have_sign p then 1 else 0)"
  have 1: "ok (\<lambda>(signs, ind, b). took (N * w) bits b \<and> length signs = N \<and> length ind = N \<and> list_all (\<lambda>k. k < 2 ^ sc_shape_bits p) ind)
    (foldO (\<lambda>i (signs, ind, bits). do {
       (sign, bits) \<leftarrow> (if sc_have_sign p then speex_bits_unpack_unsigned bits 1 else Some (0, bits));
       (idx, bits) \<leftarrow> speex_bits_unpack_unsigned bits (sc_shape_bits p);
       signs \<leftarrow> wr signs i (unat sign);
       ind \<leftarrow> wr ind i (unat idx);
       Some (signs, ind, bits) }) [0..<N] (replicate N 0, replicate N 0, bits))"
  proof (rule ok_foldO_upt [where I = "\<lambda>i (signs, ind, b). took (i * w) bits b \<and> length signs = N \<and> length ind = N \<and>
      list_all (\<lambda>k. k < 2 ^ sc_shape_bits p) ind"], goal_cases)
    case (3 i s)
    obtain signs ind b where s: "s = (signs, ind, b)" by (cases s) auto
    have b: "took (i * w) bits b" and len: "length signs = N" "length ind = N" "i < N" "list_all (\<lambda>k. k < 2 ^ sc_shape_bits p) ind"
      using 3 by (simp_all add: s)
    have sign: "ok (\<lambda>(_, b). took (i * w + (if sc_have_sign p then 1 else 0)) bits b)
        (if sc_have_sign p then speex_bits_unpack_unsigned b 1 else Some (0, b))"
      using unpack_after [OF b, of 1] b by (auto elim!: ok_mono)
    have w: "Suc i * w = i * w + (if sc_have_sign p then 1 else 0) + sc_shape_bits p" by (simp add: w_def)
    show ?case unfolding s prod.case w
      apply (rule ok_bindI [OF sign], clarify)
      apply (rule ok_bindI, erule unpack_after [OF _ p(3)], clarify)
      using len by (auto simp: list_all_length nth_list_update)
  qed (simp_all add: bits list_all_length took_0)
  have at: "k * S + j < length (sc_shape_cb p)" if "k < 2 ^ sc_shape_bits p" "j < S" for k j
  proof -
    have "k * S + j < (k + 1) * S" using that(2) by simp
    also have "\<dots> \<le> 2 ^ sc_shape_bits p * S" using that(1) by (intro mult_le_mono1) simp
    finally show ?thesis using p(2) by (simp add: S_def)
  qed
  have inside: "S * i + S \<le> 40" if "i < N" for i
  proof -
    have "S * i + S = S * (i + 1)" by simp
    also have "\<dots> \<le> S * N" using that by (intro mult_le_mono2) simp
    finally show ?thesis using p(1) by (simp add: N_def S_def)
  qed
  have inside: "int S * int i + int S \<le> 40" if "i < N" for i
    using inside [OF that] by (metis of_nat_add of_nat_le_iff of_nat_mult of_nat_numeral)
  have 2: "ok (\<lambda>e. length e = 40) (foldO (\<lambda>i exc. do {
       sign \<leftarrow> rd signs i;
       idx \<leftarrow> rd ind i;
       fillO (int (S * i)) (\<lambda>j _. do {
         c \<leftarrow> rd (sc_shape_cb p) (idx * S + j);
         Some (if sign = 0 then SHL32 (EXTEND32 c) (SIG_SHIFT - 5) else NEG32 (SHL32 (EXTEND32 c) (SIG_SHIFT - 5))) }) S exc }) [0..<N] exc)"
    if "length signs = N" "length ind = N" "list_all (\<lambda>k. k < 2 ^ sc_shape_bits p) ind" for signs ind :: "nat list"
  proof (rule ok_foldO, use exc in simp, goal_cases)
    case (1 i e)
    then have i: "i < N" by simp
    have "ind ! i < 2 ^ sc_shape_bits p" using that i by (simp add: list_all_length)
    then show ?case using that i inside [OF i] 1
      by (auto intro!: ok_mono [OF ok_fillO_len] simp: at)
  qed
  show ?thesis
    unfolding split_cb_shape_sign_unquant_def innovOk_def Let_def
    apply (rule ok_bindI [where Q = "\<lambda>x. x = p"], simp, hypsubst)
    apply (rule ok_bindI [OF 1 [unfolded N_def]], clarify)
    apply (rule ok_bindI, rule 2 [unfolded N_def S_def], assumption+)
    by (simp add: w_def)
qed

lemma noise_ok: "length exc = 40 \<Longrightarrow> sb_readable bits \<Longrightarrow> innovOk 0 bits (noise_codebook_unquant exc par 40 bits seed)"
  unfolding noise_codebook_unquant_def innovOk_def ok_simps
  by (rule ok_mono [OF ok_foldO [where I = "\<lambda>(e, _). length e = 40"]]) (auto simp: split_beta Let_def took_0)

end
