(* ===== verification/SpeexDecoderSafety.thy ===== *)
theory SpeexDecoderSafety
  imports SpeexDecoder SpeexLspSafety SpeexUnquantSafety
begin

text \<open>
  The invariant of the decoder, the contract every sub-mode keeps, and the proof that a frame of
  any sub-mode, decoded from any bits, stays inside the arrays of the state, divides by nothing
  that is zero and restores the invariant.
\<close>

subsection \<open>The invariant\<close>

definition decSizes :: "DecState \<Rightarrow> bool" where
  "decSizes st \<longleftrightarrow> ds_frameSize st = 160 \<and> ds_subframeSize st = 40 \<and> ds_nbSubframes st = 4 \<and> ds_lpcSize st = 10 \<and>
     ds_min_pitch st = 17 \<and> ds_max_pitch st = 144 \<and> ds_exc st = 334 \<and> ds_submodes st = nm_submodes nb_mode"

definition decArrays :: "DecState \<Rightarrow> bool" where
  "decArrays st \<longleftrightarrow> length (ds_excBuf st) = 500 \<and> list_all in16 (ds_excBuf st) \<and>
     length (ds_old_qlsp st) = 10 \<and> list_all in16 (ds_old_qlsp st) \<and> length (ds_interp_qlpc st) = 10 \<and>
     length (ds_mem_sp st) = 10 \<and> length (ds_mem_hp st) = 2 \<and> length (ds_pi_gain st) = 4 \<and>
     (case ds_innov_save st of None \<Rightarrow> True | Some a \<Rightarrow> 160 \<le> length a)"

definition gainMem :: "int \<Rightarrow> bool" where "gainMem g \<longleftrightarrow> 0 \<le> g \<and> g \<le> 32767"

definition decGains :: "DecState \<Rightarrow> bool" where
  "decGains st \<longleftrightarrow> length (ds_pitch_gain_buf st) = 3 \<and> list_all gainMem (ds_pitch_gain_buf st) \<and> ds_pitch_gain_buf_idx st < 3 \<and>
     gainMem (ds_last_pitch_gain st) \<and> 0 \<le> ds_count_lost st"

definition decOk :: "DecState \<Rightarrow> bool" where
  "decOk st \<longleftrightarrow> decSizes st \<and> decArrays st \<and> decGains st \<and> 0 \<le> ds_submodeID st \<and> ds_submodeID st < 16"

lemmas dec_defs = decOk_def decSizes_def decArrays_def decGains_def

definition outOk :: "int list \<Rightarrow> bool" where
  "outOk out \<longleftrightarrow> length out = 160 \<and> list_all in16 out"

lemma nb_decoder_init_ok: "decOk (nb_decoder_init nb_mode)"
  by (simp add: dec_defs nb_decoder_init_def nb_mode_def excLength_def gainMem_def list_all_iff)

subsection \<open>Steps that every frame shares\<close>

text \<open>What a frame does not change before its end.\<close>

definition sameFrame :: "DecState \<Rightarrow> DecState \<Rightarrow> bool" where
  "sameFrame st st' \<longleftrightarrow> decOk st' \<and> ds_submodeID st' = ds_submodeID st \<and> ds_count_lost st' = ds_count_lost st"

lemma sameFrame_ok: "sameFrame a b \<Longrightarrow> decOk b"
  by (simp add: sameFrame_def)

lemma sameFrame_trans: "sameFrame a b \<Longrightarrow> sameFrame b c \<Longrightarrow> sameFrame a c"
  by (simp add: sameFrame_def)

lemma shiftExc_ok:
  assumes "decOk st"
  shows "ok (sameFrame st) (shiftExc st)"
proof -
  have len: "length (ds_excBuf st) = 500" and a: "\<And>i. i < 500 \<Longrightarrow> in16 (ds_excBuf st ! i)"
    using assms by (auto simp: dec_defs list_all_length)
  have "list_all in16 (take 340 (drop 160 (ds_excBuf st)) @ drop 340 (ds_excBuf st))"
    using len a by (auto simp: list_all_length nth_append)
  then show ?thesis using assms len
    by (auto simp: shiftExc_def dec_defs blit_def sameFrame_def)
qed

lemma pushGain_ok:
  assumes "decOk st" and "gainMem g"
  shows "ok (\<lambda>st'. decOk st' \<and> ds_count_lost st' = ds_count_lost st) (pushGain g st)"
  using assms by (auto simp: pushGain_def dec_defs list_all_length nth_list_update Let_def)

lemma copyLsp_ok:
  assumes "decOk st" and "length q = 10" and "list_all in16 q"
  shows "ok (sameFrame st) (copyLsp q st)"
proof -
  have "ok (\<lambda>r. length r = 10 \<and> list_all in16 r) (fillO 0 (\<lambda>i _. rd q i) 10 (ds_old_qlsp st))"
    by (rule ok_mono [OF ok_fillO [where P = in16]]) (use assms in \<open>auto simp: dec_defs intro!: list_all_nth [where P = in16]\<close>)
  then show ?thesis using assms unfolding copyLsp_def ok_simps
    by (auto simp: dec_defs sameFrame_def elim!: ok_mono)
qed

lemma drop_bit_small: "0 \<le> x \<Longrightarrow> x < 1048576 \<Longrightarrow> 0 \<le> drop_bit 15 x \<and> drop_bit 15 x < (32 :: int)"
  using zdiv_mono1 [of x 1048575 32768] by (simp add: drop_bit_eq_div pos_imp_zdiv_nonneg_iff)

lemma dampMemory_ok:
  assumes st: "decOk st" and q: "length q = 10" "list_all in16 q"
  shows "ok (sameFrame st) (dampMemory q st)"
proof -
  have dist: "ok (\<lambda>d. 0 \<le> d \<and> d \<le> 65535 * int 10) (foldO (\<lambda>i d. do {
          a \<leftarrow> rd (ds_old_qlsp st) i;
          b \<leftarrow> rd q i;
          Some (ADD32 d (EXTEND32 \<bar>a - b\<bar>)) }) [0..<10] 0)"
  proof (rule ok_foldO_upt [where I = "\<lambda>i d. 0 \<le> d \<and> d \<le> 65535 * int i"], goal_cases)
    case (3 i d)
    have "in16 (ds_old_qlsp st ! i)" "in16 (q ! i)" using st q 3 by (auto simp: dec_defs list_all_length)
    then have "\<bar>ds_old_qlsp st ! i - q ! i\<bar> \<le> 65535" by (auto simp: in16_def)
    moreover have "int i \<le> 9" "d \<le> 589815" using 3 by auto
    ultimately show ?case using 3 st q by (auto simp: dec_defs ADD32_def EXTEND32_def s32_id)
  qed simp_all
  have fill: "ok (\<lambda>r. length r = 10) (fillO 0 (\<lambda>i m. map_option (MULT16_32_Q15 f) (rd m i)) 10 (ds_mem_sp st))" for f
    by (rule ok_mono [OF ok_fillO_len]) (use st in \<open>auto simp: dec_defs\<close>)
  have n: "ds_lpcSize st = 10" using st by (simp add: dec_defs)
  show ?thesis
  proof (cases "ds_count_lost st = 0")
    case False
    show ?thesis using False unfolding dampMemory_def n Let_def
      apply (simp only: if_False)
      apply (rule ok_bindI [OF dist])
      apply (rule ok_bindI [where Q = "\<lambda>_. True"])
      using drop_bit_small apply (simp add: SHR32_def LSP_SHIFT_def)
      apply (rule ok_bindI [OF fill])
      using st by (simp add: dec_defs sameFrame_def)
  qed (use st in \<open>simp add: dampMemory_def sameFrame_def\<close>)
qed

subsection \<open>The contract of a sub-mode\<close>

locale submode =
  fixes sm :: SpeexSubmode and lspBits ltpBits innovBits :: nat
  assumes lsp: "sb_readable b \<Longrightarrow>
      ok (\<lambda>(q, b'). length q = 10 \<and> list_all in16 q \<and> took lspBits b b') (sm_lsp_unquant sm (replicate 10 0) 10 b)"
    and lbr: "sm_lbr_pitch sm = - 1 \<or> sm_lbr_pitch sm = 0"
    and ltp: "length exc = 500 \<Longrightarrow> list_all in16 exc \<Longrightarrow> 334 \<le> eo \<Longrightarrow> eo \<le> 454 \<Longrightarrow> length out = 40 \<Longrightarrow> 17 \<le> start \<Longrightarrow>
      start \<le> (if sm_lbr_pitch sm = - 1 then 17 else 144) \<Longrightarrow> 0 \<le> pc \<Longrightarrow> sb_readable bits \<Longrightarrow> 0 \<le> lpg \<Longrightarrow> in16 lpg \<Longrightarrow>
      ltpOk ltpBits bits (sm_ltp_unquant sm exc eo out start e1 pc (sm_ltp_params sm) 40 bits cl off lpg 0)"
    and innov: "length e = 40 \<Longrightarrow> sb_readable bits \<Longrightarrow>
      innovOk innovBits bits (sm_innovation_unquant sm e (sm_innovation_params sm) 40 bits seed)"
    and comb: "sm_comb_gain sm \<le> 32767"

text \<open>What holds of the parameters of a frame, and the bits they take.\<close>

definition paramBits :: "SpeexSubmode \<Rightarrow> int \<Rightarrow> nat" where
  "paramBits sm k = (if sm_lbr_pitch sm \<noteq> - 1 then 7 else 0) + (if sm_forced_pitch_gain sm then 4 else 0) + 5 + (if k = 1 then 4 else 0)"

definition gainBits :: "SpeexSubmode \<Rightarrow> nat" where
  "gainBits sm = (if sm_have_subframe_gain sm = 3 then 3 else if sm_have_subframe_gain sm = 1 then 1 else 0)"

definition subframeBits :: "SpeexSubmode \<Rightarrow> nat \<Rightarrow> nat \<Rightarrow> nat" where
  "subframeBits sm ltpBits innovBits =
     ltpBits + gainBits sm + innovBits + (if sm_double_codebook sm then innovBits else 0)"

definition pitchOk :: "SpeexSubmode \<Rightarrow> int \<Rightarrow> bool" where
  "pitchOk sm p \<longleftrightarrow> sm_lbr_pitch sm \<noteq> - 1 \<longrightarrow> 17 \<le> p \<and> p \<le> 144"

lemma table_lengths: "length ol_gain_table = 32" "length exc_gain_quant_scal3 = 8" "length exc_gain_quant_scal1 = 2"
  by (simp_all add: ol_gain_table_def exc_gain_quant_scal3_def exc_gain_quant_scal1_def)

lemma forced_coef:
  assumes q: "0 \<le> q" "q < 16"
  shows "0 \<le> s16 (MULT16_16_P15 (QCONST16 66667 1000000 15) (SHL16 q GAIN_SHIFT))"
proof -
  have c: "QCONST16 66667 1000000 15 = 2185" by code_simp
  have "SHL16 (q) GAIN_SHIFT = q * 64"
    using q by (simp add: SHL16_def GAIN_SHIFT_def push_bit_eq_mult s32_id)
  moreover have "s16 (q * 64) = q * 64" using q by (intro s16_id) auto
  moreover have "s32 (2185 * (q * 64)) = 2185 * (q * 64)" using q by (intro s32_id) auto
  moreover have "s32 (16384 + 2185 * (q * 64)) = 16384 + 2185 * (q * 64)" using q by (intro s32_id) auto
  ultimately have "MULT16_16_P15 2185 (SHL16 (q) GAIN_SHIFT) = (16384 + 2185 * (q * 64)) div 32768"
    by (simp add: MULT16_16_P15_def MULT16_16_def ADD32_def SHR_def drop_bit_eq_div s16_id s32_id)
  moreover have "0 \<le> (16384 + 2185 * (q * 64)) div 32768" using q by (simp add: pos_imp_zdiv_nonneg_iff)
  moreover have "(16384 + 2185 * (q * 64)) div 32768 \<le> (16384 + 2185 * (15 * 64)) div 32768" using q by (intro zdiv_mono1) auto
  ultimately show ?thesis unfolding c by (simp add: s16_id)
qed

lemma unat_bound: "unat (d :: u32) < n \<Longrightarrow> 0 \<le> uint d \<and> uint d < int n"
  by (metis of_nat_less_iff unat_eq_nat_uint of_nat_0_le_iff uint_nat)

lemma frameParams_ok:
  assumes st: "decOk st" and bits: "took n a bits" and lbr: "sm_lbr_pitch sm = - 1 \<or> sm_lbr_pitch sm = 0"
  shows "ok (\<lambda>(ol_pitch, coef, gain, b, st'). pitchOk sm ol_pitch \<and> 0 \<le> coef \<and> took (n + paramBits sm (ds_submodeID st)) a b \<and>
     decOk st' \<and> ds_submodeID st' = ds_submodeID st) (frameParams sm bits st)"
proof -
  have 1: "ok (\<lambda>(p, b). pitchOk sm p \<and> took (n + (if sm_lbr_pitch sm \<noteq> - 1 then 7 else 0)) a b)
    (if sm_lbr_pitch sm \<noteq> - 1 then do {
         (p, bits) \<leftarrow> speex_bits_unpack_unsigned bits 7;
         Some (ds_min_pitch st + int (unat p), bits) }
       else Some (0, bits))"
    using unpack_after [OF bits, of 7] lbr st bits
    by (auto simp: pitchOk_def dec_defs dest!: unat_bound elim!: ok_mono)
  have 2: "ok (\<lambda>(c, b). 0 \<le> c \<and> took (k + (if sm_forced_pitch_gain sm then 4 else 0)) a b)
    (if sm_forced_pitch_gain sm then do {
         (quant, bits) \<leftarrow> speex_bits_unpack_unsigned b 4;
         Some (s16 (MULT16_16_P15 (QCONST16 66667 1000000 15) (SHL16 (int (unat quant)) GAIN_SHIFT)), bits) }
       else Some (0, b))" if b: "took k a b" for b k
    using unpack_after [OF b, of 4] b
    by (auto intro: forced_coef dest!: unat_bound elim!: ok_mono)
  have 4: "ok (\<lambda>(st', b). took (k + (if ds_submodeID st = 1 then 4 else 0)) a b \<and> decOk st' \<and> ds_submodeID st' = ds_submodeID st)
    (if ds_submodeID st = 1 then do {
         (extra, bits) \<leftarrow> speex_bits_unpack_unsigned b 4;
         Some (st\<lparr>ds_dtx_enabled := (if extra = 15 then 1 else 0)\<rparr>, bits) }
       else Some (st, b))" if b: "took k a b" for b k
    using unpack_after [OF b, of 4] b st by (auto simp: dec_defs elim!: ok_mono)
  show ?thesis
    unfolding frameParams_def Let_def
    apply (rule ok_bindI [OF 1], clarify)
    apply (rule ok_bindI, erule 2, clarify)
    apply (rule ok_bindI, erule unpack_after, simp, clarify)
    apply (rule ok_bindI [where Q = "\<lambda>_. True"], simp add: table_lengths)
    apply (rule ok_bindI, erule 4, clarify)
    by (simp add: dec_defs paramBits_def add.assoc)
qed

lemma unpack6:
  assumes "sb_readable b"
  shows "\<exists>d b'. speex_bits_unpack_unsigned b 6 = Some (d, b') \<and> took 6 b b' \<and> sb_readable b' \<and> unat d < 64"
  using okE [OF unpack_took [OF assms, of 6]] took_readable by auto

lemma unquant_nb_took:
  assumes "sb_readable b"
  shows "ok (\<lambda>(q, b'). length q = 10 \<and> list_all in16 q \<and> took 30 b b') (lsp_unquant_nb (replicate 10 0) 10 b)"
proof -
  from unpack6 [OF assms] obtain v1 b1 where
    1: "speex_bits_unpack_unsigned b 6 = Some (v1, b1)" "took 6 b b1" "sb_readable b1" "unat v1 < 64" by blast
  from unpack6 [OF 1(3)] obtain v2 b2 where
    2: "speex_bits_unpack_unsigned b1 6 = Some (v2, b2)" "took 6 b1 b2" "sb_readable b2" "unat v2 < 64" by blast
  from unpack6 [OF 2(3)] obtain v3 b3 where
    3: "speex_bits_unpack_unsigned b2 6 = Some (v3, b3)" "took 6 b2 b3" "sb_readable b3" "unat v3 < 64" by blast
  from unpack6 [OF 3(3)] obtain v4 b4 where
    4: "speex_bits_unpack_unsigned b3 6 = Some (v4, b4)" "took 6 b3 b4" "sb_readable b4" "unat v4 < 64" by blast
  from unpack6 [OF 4(3)] obtain v5 b5 where
    5: "speex_bits_unpack_unsigned b4 6 = Some (v5, b5)" "took 6 b4 b5" "sb_readable b5" "unat v5 < 64" by blast
  have "took 30 b b5"
    using took_trans [OF took_trans [OF took_trans [OF took_trans [OF 1(2) 2(2)] 3(2)] 4(2)] 5(2)] by simp
  with unquant_nb_ok [OF _ 1(1) 2(1) 3(1) 4(1) 5(1) 1(4) 2(4) 3(4) 4(4) 5(4), of "replicate 10 0"]
  show ?thesis by (auto simp: wraps16_def list_all_length)
qed

lemma unquant_lbr_took:
  assumes "sb_readable b"
  shows "ok (\<lambda>(q, b'). length q = 10 \<and> list_all in16 q \<and> took 18 b b') (lsp_unquant_lbr (replicate 10 0) 10 b)"
proof -
  from unpack6 [OF assms] obtain v1 b1 where
    1: "speex_bits_unpack_unsigned b 6 = Some (v1, b1)" "took 6 b b1" "sb_readable b1" "unat v1 < 64" by blast
  from unpack6 [OF 1(3)] obtain v2 b2 where
    2: "speex_bits_unpack_unsigned b1 6 = Some (v2, b2)" "took 6 b1 b2" "sb_readable b2" "unat v2 < 64" by blast
  from unpack6 [OF 2(3)] obtain v3 b3 where
    3: "speex_bits_unpack_unsigned b2 6 = Some (v3, b3)" "took 6 b2 b3" "sb_readable b3" "unat v3 < 64" by blast
  have "took 18 b b3" using took_trans [OF took_trans [OF 1(2) 2(2)] 3(2)] by simp
  with unquant_lbr_ok [OF _ 1(1) 2(1) 3(1) 1(4) 2(4) 3(4), of "replicate 10 0"]
  show ?thesis by (auto simp: wraps16_def list_all_length)
qed

subsection \<open>A sub-frame\<close>

definition fvOk :: "nat \<Rightarrow> speexBits \<Rightarrow> nat \<Rightarrow> FrameVars \<Rightarrow> bool" where
  "fvOk n a sub fv \<longleftrightarrow> took n a (fv_bits fv) \<and> 0 \<le> fv_pitch_average fv \<and> fv_pitch_average fv \<le> 768 * int sub \<and>
     17 \<le> fv_best_pitch fv \<and> fv_best_pitch fv \<le> 144"

lemma pitchRange_ok:
  assumes "decOk st" and "pitchOk sm p" and "sm_lbr_pitch sm = - 1 \<or> sm_lbr_pitch sm = 0"
  shows "17 \<le> fst (pitchRange sm p st) \<and> fst (pitchRange sm p st) \<le> (if sm_lbr_pitch sm = - 1 then 17 else 144)"
  using assms by (auto simp: pitchRange_def pitchOk_def dec_defs)

context submode
begin

lemma ltpPart_ok:
  assumes st: "decOk st" and fv: "fvOk n a sub fv" and sub: "sub < 4" and p: "pitchOk sm p" and c: "0 \<le> c"
  shows "ok (\<lambda>(st', fv', e). sameFrame st st' \<and> fvOk (n + ltpBits) a (Suc sub) fv' \<and> length e = 40) (ltpPart sm p c sub st fv)"
proof -
  have n: "ds_subframeSize st = 40" "ds_exc st = 334" using st by (simp_all add: dec_defs)
  have b: "took n a (fv_bits fv)" using fv by (simp add: fvOk_def)
  have 1: "ok (\<lambda>e. length e = 500 \<and> list_all in16 e) (fillO (334 + int (40 * sub)) (\<lambda>_ _. Some 0) 40 (ds_excBuf st))"
    by (rule ok_mono [OF ok_fillO]) (use st sub in \<open>auto simp: dec_defs\<close>)
  obtain lo hi where lohi: "pitchRange sm p st = (lo, hi)" by (cases "pitchRange sm p st")
  have 2: "ltpOk ltpBits (fv_bits fv) (sm_ltp_unquant sm e (334 + int (40 * sub)) (replicate 40 0) lo hi c (sm_ltp_params sm) 40 (fv_bits fv)
      cl off (ds_last_pitch_gain st) 0)" if "length e = 500" "list_all in16 e" for e cl off
    by (rule ltp)
      (use that sub c took_readable [OF b] st pitchRange_ok [OF st p lbr] lohi in \<open>auto simp: dec_defs gainMem_def in16_def\<close>)
  have 3: "ok (\<lambda>r. length r = 40) (sanitize_values32 e l h 40)" if "length e = 40" for e l h
    by (rule ok_mono [OF sanitize_ok]) (use that in auto)
  have 4: "ok (\<lambda>t. 0 \<le> t \<and> t \<le> 768) (map_option s16 (gain_3tap_to_1tap g))" if "gainOk g" for g
    using gain_3tap_ok [OF that] by (auto simp: s16_id elim!: ok_mono)
  show ?thesis
    unfolding ltpPart_def Let_def n lohi prod.case
    apply (rule ok_bindI [OF 1], elim conjE)
    apply (rule ok_bindI, erule (1) 2 [unfolded ltpOk_def], clarify)
    apply (rule ok_bindI, erule 3)
    apply (rule ok_bindI, erule 4)
    using st fv sub by (auto simp: sameFrame_def dec_defs fvOk_def s16_id took_trans)
qed

lemma subframeGain_ok:
  assumes "took n a b"
  shows "ok (\<lambda>(_, b'). took (n + gainBits s) a b') (subframeGain s g b)"
  using unpack_after [OF assms, of 3] unpack_after [OF assms, of 1] assms
  by (auto simp: subframeGain_def gainBits_def table_lengths elim!: ok_mono)

lemma secondCodebook_ok:
  assumes "length i = 40" and "took n a b"
  shows "innovOk (n + (if sm_double_codebook sm then innovBits else 0)) a (secondCodebook sm 40 g i b seed)"
proof (cases "sm_double_codebook sm")
  case True
  have 1: "innovOk innovBits b (sm_innovation_unquant sm (replicate 40 0) (sm_innovation_params sm) 40 b seed)"
    by (rule innov) (use assms took_readable in auto)
  have 2: "ok (\<lambda>r. length r = 40) (signal_mul a a e 40)" if "length a = 40" for a e
    by (rule ok_mono [OF signal_mul_ok]) (use that in auto)
  have 3: "ok (\<lambda>r. length r = 40) (fillO 0 (\<lambda>k a. Option.bind (rd a k) (\<lambda>x. Option.bind (rd e k) (\<lambda>y. Some (ADD32 x y)))) 40 i)"
    if "length e = 40" for e
    by (rule ok_mono [OF ok_fillO_len]) (use that assms in auto)
  show ?thesis using True
    unfolding secondCodebook_def innovOk_def
    apply (simp only: if_True)
    apply (rule ok_bindI [OF 1 [unfolded innovOk_def]], clarify)
    apply (rule ok_bindI, erule 2)
    apply (rule ok_bindI, erule 3)
    using assms by (auto intro: took_trans)
qed (use assms in \<open>simp add: secondCodebook_def innovOk_def\<close>)

lemma innovPart_ok:
  assumes st: "decOk st" and fv: "fvOk n a k fv" and sub: "sub < 4" and e: "length e = 40"
  shows "ok (\<lambda>(st', fv', i). sameFrame st st' \<and>
    fvOk (n + gainBits sm + innovBits + (if sm_double_codebook sm then innovBits else 0)) a k fv' \<and> length i = 40) (innovPart sm g sub e st fv)"
proof -
  have c: "ds_subframeSize st = 40" "ds_exc st = 334" using st by (simp_all add: dec_defs)
  have 1: "ok (\<lambda>(_, b'). took (n + gainBits sm) a b') (subframeGain sm g (fv_bits fv))"
    by (rule subframeGain_ok) (use fv in \<open>simp add: fvOk_def\<close>)
  have 2: "innovOk (k + innovBits) a (sm_innovation_unquant sm (replicate 40 0) (sm_innovation_params sm) 40 b (ds_seed st))"
    if b: "took k a b" for b k
    using innov [of "replicate 40 0" b "ds_seed st"] took_readable [OF b] took_trans [OF b]
    by (auto simp: innovOk_def elim!: ok_mono)
  have 3: "ok (\<lambda>r. length r = 40) (signal_mul a a e 40)" if "length a = 40" for a e
    by (rule ok_mono [OF signal_mul_ok]) (use that in auto)
  have 4: "ok (\<lambda>r. length r = 500 \<and> list_all in16 r) (fillO (334 + int (40 * sub)) (\<lambda>i _. do {
       a \<leftarrow> rd e i;
       x \<leftarrow> rd innov i;
       Some (EXTRACT16 (SATURATE32 (PSHR32 (ADD32 (SHL32 a 1) x) SIG_SHIFT) 32767)) }) 40 (ds_excBuf st))"
    if "length innov = 40" for innov
    by (rule ok_mono [OF ok_fillO]) (use st sub e that in \<open>auto simp: dec_defs\<close>)
  have 5: "ok (\<lambda>r. case r of None \<Rightarrow> True | Some a \<Rightarrow> 160 \<le> length a) (saveInnov i (int (40 * sub)) 40 (ds_innov_save st))"
    if "length i = 40" for i
  proof (cases "ds_innov_save st")
    case (Some a)
    have "160 \<le> length a" using st Some by (simp add: dec_defs)
    then show ?thesis unfolding saveInnov_def Some option.case ok_simps
      by (intro ok_mono [OF ok_fillO_len]) (use sub that in auto)
  qed (simp add: saveInnov_def)
  show ?thesis
    unfolding innovPart_def Let_def c
    apply (rule ok_bindI [OF 1], clarify)
    apply (rule ok_bindI, erule 2 [unfolded innovOk_def], clarify)
    apply (rule ok_bindI, erule 3)
    apply (rule ok_bindI, erule (1) secondCodebook_ok [unfolded innovOk_def], clarify)
    apply (rule ok_bindI, erule 4, elim conjE)
    apply (rule ok_bindI, erule 5)
    using st fv by (auto simp: sameFrame_def dec_defs fvOk_def)
qed

end

text \<open>The vocoder places its pulses inside the sub-frame and comes to an end.\<close>

lemma pulses_ok:
  assumes "1 \<le> step" and "0 \<le> eo" and "eo + n \<le> int (length exc)" and "list_all in16 exc" and "in16 amp"
  shows "ok (\<lambda>(e, _). length e = length exc \<and> list_all in16 e) (pulses n step amp eo exc off)"
  using assms
proof (induction n step amp eo exc off rule: pulses.induct)
  case (1 n step amp eo exc off)
  show ?case
  proof (cases "n \<le> off")
    case False
    have s: "\<not> step \<le> 0" using 1(2) by simp
    have "ok (\<lambda>e. length e = length exc \<and> list_all in16 e) (if off \<ge> 0 then wrI exc (eo + off) amp else Some exc)"
      using 1(3-) False by auto
    then obtain e where e: "(if off \<ge> 0 then wrI exc (eo + off) amp else Some exc) = Some e" "length e = length exc" "list_all in16 e"
      by (blast dest: okE)
    have "pulses n step amp eo exc off = pulses n step amp eo e (off + step)"
      using False s by (subst pulses.simps) (simp only: if_False e(1) Option.bind.simps)
    then show ?thesis using 1(1) [OF False s e(1)] 1(2-) e by simp
  qed (subst pulses.simps, use 1 in simp)
qed

lemma vocoderPart_ok:
  assumes st: "decOk st" and sub: "sub < 4" and i: "length i = 40" and p: "ds_submodeID st = 1 \<Longrightarrow> 1 \<le> p"
  shows "ok (sameFrame st) (vocoderPart p c g sub i st)"
proof (cases "ds_submodeID st = 1")
  case True
  have n: "ds_subframeSize st = 40" "ds_exc st = 334" using st by (simp_all add: dec_defs)
  have 1: "ok (\<lambda>e. length e = 500 \<and> list_all in16 e) (fillO (334 + int (40 * sub)) (\<lambda>_ _. Some 0) 40 (ds_excBuf st))"
    by (rule ok_mono [OF ok_fillO]) (use st sub in \<open>auto simp: dec_defs\<close>)
  have 2: "ok (\<lambda>(e, _). length e = 500 \<and> list_all in16 e) (pulses (int 40) p (s16 a) (334 + int (40 * sub)) e off)"
    if "length e = 500" "list_all in16 e" for e a off
    by (rule ok_mono [OF pulses_ok]) (use that sub p True in auto)
  have 3: "ok (sameFrame st) (vocoderSmooth i h (334 + int (40 * sub)) (st\<lparr>ds_excBuf := e, ds_voc_offset := off\<rparr>))"
    if "length e = 500" "list_all in16 e" for e h off
    unfolding vocoderSmooth_def
    apply (rule ok_bindI [OF ok_foldO [where I = "\<lambda>(e, _). length e = 500 \<and> list_all in16 e"]])
    using that st sub i by (auto simp: Let_def dec_defs sameFrame_def)
  show ?thesis
    using True unfolding vocoderPart_def Let_def n
    apply (simp only: simp_thms if_False)
    apply (rule ok_bindI [OF 1], elim conjE)
    apply (rule ok_bindI, erule (1) 2, clarify)
    by (rule 3)
qed (use st in \<open>simp add: vocoderPart_def sameFrame_def\<close>)

context submode
begin

lemma subframe_ok:
  assumes st: "decOk st" and fv: "fvOk n a sub fv" and sub: "sub < 4" and p: "pitchOk sm p" and c: "0 \<le> c"
    and voc: "ds_submodeID st = 1 \<Longrightarrow> sm_lbr_pitch sm = 0"
  shows "ok (\<lambda>(st', fv'). sameFrame st st' \<and> fvOk (n + subframeBits sm ltpBits innovBits) a (Suc sub) fv') (subframe sm p c g sub (st, fv))"
  unfolding subframe_def prod.sel
proof (rule ok_bindI [OF ltpPart_ok [OF st fv sub p c]], clarify)
  fix st1 fv1 and e :: "int list" assume 1: "sameFrame st st1" "fvOk (n + ltpBits) a (Suc sub) fv1" "length e = 40"
  have st1: "decOk st1" using 1 by (simp add: sameFrame_def)
  have n: "n + ltpBits + gainBits sm + innovBits + (if sm_double_codebook sm then innovBits else 0) = n + subframeBits sm ltpBits innovBits"
    by (simp add: subframeBits_def)
  show "ok (\<lambda>(st', fv'). sameFrame st st' \<and> fvOk (n + subframeBits sm ltpBits innovBits) a (Suc sub) fv') (Option.bind (innovPart sm g sub e st1 fv1)
      (\<lambda>(st, fv, innov). Option.bind (vocoderPart p c g sub innov st) (\<lambda>st. Some (st, fv))))"
  proof (rule ok_bindI [OF innovPart_ok [OF st1 1(2) sub 1(3), unfolded n]], clarify)
    fix st2 fv2 and i :: "int list" assume 2: "sameFrame st1 st2" "fvOk (n + subframeBits sm ltpBits innovBits) a (Suc sub) fv2" "length i = (40 :: nat)"
    have st2: "decOk st2" "ds_submodeID st2 = ds_submodeID st" using 1 2 by (simp_all add: sameFrame_def)
    have "ok (sameFrame st2) (vocoderPart p c g sub i st2)"
      by (rule vocoderPart_ok [OF st2(1) sub 2(3)]) (use st2 voc p in \<open>auto simp: pitchOk_def\<close>)
    then show "ok (\<lambda>(st', fv'). sameFrame st st' \<and> fvOk (n + subframeBits sm ltpBits innovBits) a (Suc sub) fv')
        (Option.bind (vocoderPart p c g sub i st2) (\<lambda>st. Some (st, fv2)))"
      using 1 2 by (auto intro: sameFrame_trans elim!: ok_mono)
  qed
qed

lemma subframes_ok:
  assumes st: "decOk st" and b: "took n a b" and p: "pitchOk sm p" and c: "0 \<le> c"
    and voc: "ds_submodeID st = 1 \<Longrightarrow> sm_lbr_pitch sm = 0"
  shows "ok (\<lambda>(st', fv'). sameFrame st st' \<and> fvOk (n + 4 * subframeBits sm ltpBits innovBits) a 4 fv')
    (foldO (subframe sm p c g) [0..<4] (st, \<lparr>fv_bits = b, fv_pitch_average = 0, fv_best_pitch = 40, fv_best_pitch_gain = 0\<rparr>))"
proof (rule ok_foldO_upt [where I = "\<lambda>i (st', fv'). sameFrame st st' \<and> fvOk (n + i * subframeBits sm ltpBits innovBits) a i fv'"], goal_cases)
  case (3 i s)
  obtain st' fv' where s: "s = (st', fv')" by (cases s)
  have "decOk st'" "ds_submodeID st' = ds_submodeID st" "fvOk (n + i * subframeBits sm ltpBits innovBits) a i fv'" "i < 4"
    using 3 by (auto simp: s sameFrame_def)
  then have "ok (\<lambda>(st'', fv''). sameFrame st' st'' \<and> fvOk (n + i * subframeBits sm ltpBits innovBits + subframeBits sm ltpBits innovBits) a (Suc i) fv'')
      (subframe sm p c g i (st', fv'))"
    by (intro subframe_ok) (use p c voc in auto)
  moreover have "n + Suc i * subframeBits sm ltpBits innovBits = n + i * subframeBits sm ltpBits innovBits + subframeBits sm ltpBits innovBits" by simp
  ultimately show ?case unfolding s using 3 s by (auto simp: ac_simps intro: sameFrame_trans elim!: ok_mono)
qed (use st b in \<open>auto simp: sameFrame_def fvOk_def\<close>)

end

subsection \<open>From the excitation to the output\<close>

lemma enhance_ok:
  assumes st: "decOk st" and out: "outOk out" and p: "17 \<le> p" "p \<le> 144" and g: "sm_comb_gain s \<le> 32767"
  shows "ok (\<lambda>(st', out'). sameFrame st st' \<and> outOk out') (enhance s p st out)"
proof -
  have n: "ds_subframeSize st = 40" "ds_exc st = 334" "ds_frameSize st = 160" using st by (simp_all add: dec_defs)
  have 1: "ok (\<lambda>(e', r'). length e' = 500 \<and> list_all in16 e' \<and> outOk r')
      (multicomb e eo r no (2 * 40) p 40 (sm_comb_gain s))"
    if "length e = 500" "list_all in16 e" "outOk r" "294 \<le> eo" "eo \<le> 374" "0 \<le> no" "no \<le> 80" "0 < sm_comb_gain s" for e eo r no
    using multicomb_ok [of e eo p no r "sm_comb_gain s"] that p g by (auto simp: combReach_def outOk_def elim!: ok_mono)
  have 2: "ok outOk (fillO 0 (\<lambda>i _. rdI (ds_excBuf st) (334 - int 40 + int i)) 160 out)"
    unfolding outOk_def
    by (rule ok_mono [OF ok_fillO [where P = in16]]) (use st out in \<open>auto simp: dec_defs outOk_def intro!: list_all_nth [where P = in16]\<close>)
  show ?thesis
  proof (cases "ds_lpc_enh_enabled st \<noteq> 0 \<and> sm_comb_gain s > 0 \<and> ds_count_lost st = 0")
    case True
    then show ?thesis unfolding enhance_def Let_def n
      apply (simp only: if_True simp_thms)
      apply (rule ok_bindI [OF 1])
      using st out apply (simp_all add: dec_defs) [8]
      apply clarify
      apply (rule ok_bindI [OF 1])
      using st apply (auto simp: dec_defs sameFrame_def)
      done
  next
    case False
    then show ?thesis unfolding enhance_def Let_def n
      apply (simp only: if_False)
      apply (rule ok_bindI [OF 2])
      using st by (auto simp: sameFrame_def)
  qed
qed

lemma rescale_ok:
  assumes st: "decOk st" and out: "outOk out"
  shows "ok (\<lambda>(st', out'). sameFrame st st' \<and> outOk out') (rescale g st out)"
proof (cases "ds_count_lost st = 0")
  case False
  have n: "ds_subframeSize st = 40" "ds_exc st = 334" "ds_frameSize st = 160" using st by (simp_all add: dec_defs)
  have 1: "ok (\<lambda>r. in16 r \<and> r \<noteq> - 1) (compute_rms16 (ds_excBuf st) 334 160)"
    by (rule compute_rms16_ok) (use st in \<open>simp_all add: dec_defs\<close>)
  have 2: "ok (\<lambda>_. True) (PDIV32 g (ADD16 r 1))" if "in16 r" "r \<noteq> - 1" for r
  proof -
    have "ADD16 32767 1 = - 32768" by code_simp
    then have "ADD16 r 1 \<noteq> 0" using that by (cases "r = 32767") (auto simp: ADD16_def s16_id in16_def)
    moreover have "s32 (ADD16 r 1) = ADD16 r 1" using s16_range [of "s16 r + s16 1"] unfolding ADD16_def by (intro s32_id) auto
    ultimately show ?thesis by (simp add: PDIV32_def)
  qed
  have 3: "ok (\<lambda>(e, r). length e = 500 \<and> list_all in16 e \<and> outOk r) (foldO (\<lambda>i (exc, out). do {
          e \<leftarrow> rdI exc (334 + int i);
          exc \<leftarrow> wrI exc (334 + int i) (s16 (MULT16_16_Q14 h e));
          x \<leftarrow> rdI exc (334 + int i - int 40);
          out \<leftarrow> wr out i x;
          Some (exc, out) }) [0..<160] (ds_excBuf st, out))" for h
    by (rule ok_foldO) (use st out in \<open>auto simp: dec_defs outOk_def intro!: list_all_in16_update list_all_nth [where P = in16]\<close>)
  show ?thesis using False unfolding rescale_def Let_def n
    apply (simp only: if_False)
    apply (rule ok_bindI [OF 1], elim conjE)
    apply (rule ok_bindI, erule (1) 2)
    apply (rule ok_bindI [OF 3])
    using st by (auto simp: sameFrame_def dec_defs)
qed (use st out in \<open>simp add: rescale_def sameFrame_def\<close>)

lemma synthesis_ok:
  assumes st: "decOk st" and out: "outOk out" and sub: "sub < 4" and q: "length q = 10"
  shows "ok (\<lambda>(st', out'). sameFrame st st' \<and> outOk out') (synthesis q sub (st, out))"
proof -
  have n: "ds_subframeSize st = 40" "ds_lpcSize st = 10" "ds_nbSubframes st = 4" using st by (simp_all add: dec_defs)
  have 1: "ok (\<lambda>l. length l = 10) (lsp_interpolate (ds_old_qlsp st) q (replicate 10 0) 10 sub 4)"
    by (rule ok_mono [OF lsp_interpolate_ok]) (use st q in \<open>auto simp: dec_defs\<close>)
  have 2: "ok (\<lambda>l. length l = 10) (lsp_enforce_margin l 10 m)" if "length l = 10" for l m
    by (rule ok_mono [OF lsp_enforce_margin_ok]) (use that in auto)
  have 3: "ok (\<lambda>a. length a = 10) (lsp_to_lpc l (replicate 10 0) 10)" if "length l = 10" for l
    using lsp_to_lpc_ok [of l 5 "replicate 10 0"] that by simp
  have 4: "ok (\<lambda>_. True) (piGain a 10)" if "length a = 10" for a
    unfolding piGain_def by (rule ok_foldO) (use that in auto)
  have 5: "ok (\<lambda>(r, m). outOk r \<and> length m = 10)
      (iir_mem16 out (int (40 * sub)) (ds_interp_qlpc st) out (int (40 * sub)) 40 10 (ds_mem_sp st))"
    by (rule ok_mono [OF iir_mem16_ok]) (use st out sub in \<open>auto simp: dec_defs outOk_def\<close>)
  have 6: "ok (\<lambda>r. length r = 10) (fillO 0 (\<lambda>i _. rd a i) 10 (ds_interp_qlpc st))" if "length a = 10" for a
    by (rule ok_mono [OF ok_fillO_len]) (use st that in \<open>auto simp: dec_defs\<close>)
  show ?thesis unfolding synthesis_def Let_def prod.sel n
    apply (rule ok_bindI [OF 1])
    apply (rule ok_bindI, erule 2)
    apply (rule ok_bindI, erule 3)
    apply (rule ok_bindI, erule 4)
    apply (rule ok_bindI [where Q = "\<lambda>r. length r = 4"], use st sub in \<open>simp add: dec_defs\<close>)
    apply (rule ok_bindI [OF 5], clarify)
    apply (rule ok_bindI, erule 6)
    using st by (auto simp: sameFrame_def dec_defs)
qed

lemma syntheses_ok:
  assumes st: "decOk st" and out: "outOk out" and q: "length q = 10"
  shows "ok (\<lambda>(st', out'). sameFrame st st' \<and> outOk out') (foldO (synthesis q) [0..<4] (st, out))"
proof (rule ok_foldO, goal_cases)
  case (2 i s)
  then show ?case using synthesis_ok [of "fst s" "snd s" i q] q
    by (auto simp: sameFrame_def split_beta elim!: ok_mono)
qed (use assms in \<open>simp add: sameFrame_def\<close>)

subsection \<open>A frame with a sub-mode\<close>

lemma decOk_updates:
  "decOk st \<Longrightarrow> length m = 2 \<Longrightarrow> decOk (st\<lparr>ds_mem_hp := m\<rparr>)"
  "decOk st \<Longrightarrow> gainMem g \<Longrightarrow> decOk (st\<lparr>ds_first := False, ds_count_lost := 0, ds_last_pitch := p, ds_last_pitch_gain := g\<rparr>)"
  "decOk (st\<lparr>ds_last_ol_gain := k\<rparr>) = decOk st"
  by (simp_all add: dec_defs)

lemma dec_nb: "decOk st \<Longrightarrow> ds_nbSubframes st = 4" "decOk st \<Longrightarrow> ds_frameSize st = 160"
  by (simp_all add: dec_defs)

lemma trackLevel_ok: "decOk st \<Longrightarrow> decOk (trackLevel g st)"
  by (simp add: trackLevel_def Let_def dec_defs)

lemma averageGain:
  assumes "0 \<le> a" and "a \<le> 3072"
  shows "gainMem (s16 (PSHR16 a 2))"
proof -
  have "PSHR16 a 2 = (a + 2) div 4" using assms
    by (simp add: PSHR16_def SHR16_def push_bit_eq_mult drop_bit_eq_div s32_id)
  moreover have "0 \<le> (a + 2) div 4" "(a + 2) div 4 \<le> 3074 div 4"
    using assms zdiv_mono1 [of "a + 2" 3074 4] by (simp_all add: pos_imp_zdiv_nonneg_iff)
  ultimately show ?thesis by (simp add: s16_id gainMem_def)
qed

lemma fvOk_average: "fvOk n a 4 fv \<Longrightarrow> gainMem (s16 (PSHR16 (fv_pitch_average fv) 2))"
  by (rule averageGain) (simp_all add: fvOk_def)

context submode
begin

lemma codedFrame_ok:
  assumes st: "decOk st" and out: "outOk out" and b: "sb_readable b" and voc: "ds_submodeID st = 1 \<Longrightarrow> sm_lbr_pitch sm = 0"
  shows "ok (\<lambda>(b', st', out'). took (lspBits + paramBits sm (ds_submodeID st) + 4 * subframeBits sm ltpBits innovBits) b b' \<and>
      decOk st' \<and> outOk out' \<and> ds_count_lost st' = 0) (codedFrame sm b st out)"
proof -
  have n: "ds_lpcSize st = 10" using st by (simp add: dec_defs)
  have 2: "ok (sameFrame s) (if c then copyLsp q s else Some s)" if "decOk s" "length q = 10" "list_all in16 q" for s c q
    using copyLsp_ok [OF that] that by (simp add: sameFrame_def)
  have 3: "ok (\<lambda>(r, m). outOk r \<and> length m = 2) (if c then highpass r r 160 f (ds_mem_hp s) else Some (r, ds_mem_hp s))"
    if "decOk s" "outOk r" for s c r f
    using highpass_ok [of 160 r r "ds_mem_hp s" f] that by (auto simp: dec_defs outOk_def elim!: ok_mono)
  show ?thesis
    unfolding codedFrame_def Let_def n
    apply (rule ok_bindI [OF lsp [OF b]], clarify)
    apply (rule ok_bindI, erule (1) dampMemory_ok [OF st])
    apply (rule ok_bindI, rule 2, simp add: sameFrame_def, assumption+)
    apply (rule ok_bindI, rule frameParams_ok [OF _ _ lbr], erule sameFrame_ok, assumption, clarify)
    apply (subst (1) dec_nb, assumption)
    apply (rule ok_bindI, erule (3) subframes_ok, use voc in \<open>simp add: sameFrame_def\<close>, clarify)
    apply (rule ok_bindI, rule enhance_ok [OF _ out _ _ comb])
    apply (erule sameFrame_ok, simp add: fvOk_def, simp add: fvOk_def, clarify)
    apply (rule ok_bindI, rule rescale_ok, erule sameFrame_ok, assumption, clarify)
    apply (subst (1) dec_nb, erule sameFrame_ok)
    apply (rule ok_bindI, rule syntheses_ok, erule sameFrame_ok, assumption, assumption, clarify)
    apply (subst (1) dec_nb, erule sameFrame_ok)
    apply (rule ok_bindI, rule 3, erule sameFrame_ok, assumption, clarify)
    apply (rule ok_bindI, rule copyLsp_ok, rule trackLevel_ok)
    apply (rule decOk_updates(1), erule sameFrame_ok, assumption+)
    apply (rule ok_bindI, rule pushGain_ok, rule decOk_updates(2), erule sameFrame_ok)
    apply (erule fvOk_average, erule fvOk_average)
    apply (simp add: decOk_updates(3) fvOk_def sameFrame_def)
    done
qed

end

end
