(* ===== verification/SpeexFrameSearch.thy ===== *)
theory SpeexFrameSearch
  imports SpeexDecoderSafety
begin

text \<open>
  The search for a frame among in-band requests and wide-band layers comes to an end: each round
  moves the cursor forward, although skipping a null wide-band layer moves it back by four bits.
\<close>

subsection \<open>The cursor\<close>

text \<open>From \<open>b\<close> to \<open>b'\<close> the cursor has moved by at least \<open>k\<close>, or the stream has overflowed.\<close>

definition adv :: "int \<Rightarrow> speexBits \<Rightarrow> speexBits \<Rightarrow> bool" where
  "adv k b b' \<longleftrightarrow> sb_readable b' \<and> sb_nbBits b' = sb_nbBits b \<and> (sb_overflow b \<longrightarrow> sb_overflow b') \<and>
     (sb_overflow b' \<or> int (sb_pos b) + k \<le> int (sb_pos b'))"

lemma adv_trans: "adv j a b \<Longrightarrow> adv k b c \<Longrightarrow> l \<le> j + k \<Longrightarrow> adv l a c"
  by (auto simp: adv_def)

lemma adv_readable: "adv k a b \<Longrightarrow> sb_readable b"
  by (simp add: adv_def)

lemma adv_mono: "adv k a b \<Longrightarrow> l \<le> k \<Longrightarrow> adv l a b"
  by (auto simp: adv_def)

lemma adv_refl: "sb_readable b \<Longrightarrow> adv 0 b b"
  by (simp add: adv_def)

lemma unpack_adv:
  assumes "sb_readable b" and "n \<le> 31"
  shows "ok (\<lambda>(d, b'). adv (int n) b b' \<and> unat d < 2 ^ n) (speex_bits_unpack_unsigned b n)"
proof (cases "sb_overflow b \<or> sb_nbBits b < sb_pos b + n")
  case True
  then show ?thesis using assms
    by (auto simp: speex_bits_unpack_unsigned_def Let_def sb_pos_def sb_readable_def adv_def mult.commute)
next
  case False
  then show ?thesis using unpack_fits [OF assms(1), of n] assms bitsValue_less [of "take n (drop (sb_pos b) (sb_stream b))" n]
    by (auto simp: adv_def sb_readable_def)
qed

lemma unpack_from:
  assumes "adv k a b" and "n \<le> 31"
  shows "ok (\<lambda>(d, b'). adv (k + int n) a b' \<and> unat d < 2 ^ n) (speex_bits_unpack_unsigned b n)"
  by (rule ok_mono [OF unpack_adv [OF adv_readable [OF assms(1)] assms(2)]]) (use adv_trans [OF assms(1)] in auto)

lemma advance_adv:
  assumes "sb_readable b" and "sb_overflow b \<or> 0 \<le> int (sb_pos b) + n"
  shows "ok (adv n b) (speex_bits_advance b n)"
proof (cases "int (sb_charPtr b * 8 + sb_bitPtr b) + n > int (sb_nbBits b) \<or> sb_overflow b")
  case True
  then show ?thesis using assms by (simp add: speex_bits_advance_def adv_def sb_readable_def)
next
  case False
  define c k where "c = int (sb_charPtr b) + (int (sb_bitPtr b) + n) div 8" and "k = (int (sb_bitPtr b) + n) mod 8"
  have "8 * c + k = int (sb_pos b) + n" unfolding c_def k_def sb_pos_def by simp
  moreover have k: "0 \<le> k" "k < 8" by (simp_all add: k_def)
  ultimately have c: "0 \<le> c" using False assms(2) by linarith
  have "int (8 * nat c + nat k) = int (sb_pos b) + n" using c k \<open>8 * c + k = _\<close> by simp
  moreover from this have "int (8 * nat c + nat k) \<le> int (sb_nbBits b)" using False by (simp add: sb_pos_def split del: if_split)
  then have "8 * nat c + nat k \<le> sb_nbBits b" by (simp only: of_nat_le_iff)
  moreover have "speex_bits_advance b n = Some (b\<lparr>sb_charPtr := nat c, sb_bitPtr := nat k\<rparr>)"
    using False c by (simp add: speex_bits_advance_def Let_def c_def k_def)
  ultimately show ?thesis using assms(1) k by (simp add: adv_def sb_readable_def sb_pos_def)
qed

subsection \<open>Layers\<close>

lemma wb_skip_ok: "k < 8 \<Longrightarrow> 0 \<le> wb_skip_table ! k" "length wb_skip_table = 8"
  by (auto simp: wb_skip_table_def less_Suc_eq numeral_eq_Suc)

definition started :: "speexBits \<Rightarrow> bool" where
  "started b \<longleftrightarrow> sb_readable b \<and> (sb_overflow b \<or> 1 \<le> sb_pos b)"

lemma adv_started: "started a \<Longrightarrow> adv 0 a b \<Longrightarrow> started b" "adv 1 a b \<Longrightarrow> started b"
  by (auto simp: started_def adv_def)

lemma skipLayer_ok:
  assumes "started b"
  shows "ok (\<lambda>(_, b'). adv (- 1) b b') (skipLayer b)"
proof -
  have 1: "ok (\<lambda>(d, b'). adv 3 b b' \<and> unat d < 8) (speex_bits_unpack_unsigned b SB_SUBMODE_BITS)"
    using unpack_adv [of b 3] assms by (simp add: SB_SUBMODE_BITS_def started_def)
  show ?thesis unfolding skipLayer_def
  proof (rule ok_bindI [OF 1], clarify)
    fix d :: u32 and b1 assume a: "adv 3 b b1" "unat d < 8"
    have "0 \<le> wb_skip_table ! unat d" using a wb_skip_ok by simp
    moreover from this have "ok (adv (wb_skip_table ! unat d - 4) b1) (speex_bits_advance b1 (wb_skip_table ! unat d - 4))"
      by (intro advance_adv) (use a assms in \<open>auto simp: adv_def started_def\<close>)
    ultimately show "ok (\<lambda>(_, b'). adv (- 1) b b') (Option.bind (rd wb_skip_table (unat d)) (\<lambda>advance.
        if advance < 0 then Some (Inl (- 2), b1)
        else Option.bind (speex_bits_advance b1 (advance - (int SB_SUBMODE_BITS + 1))) (\<lambda>bits. Some (Inr (), bits))))"
      using a wb_skip_ok adv_trans [OF a(1)] adv_mono [OF a(1), of "- 1"] by (auto simp: SB_SUBMODE_BITS_def elim!: ok_mono)
  qed
qed

lemma skipWideband_ok:
  assumes "started b"
  shows "ok (\<lambda>(r, b'). adv (if isl r then - 1 else 0) b b') (skipWideband b)"
  unfolding skipWideband_def
proof (rule ok_bindI [OF skipLayer_ok [OF assms]], clarify)
  fix r :: "int + unit" and b1 assume 1: "adv (- 1) b b1"
  show "ok (\<lambda>(r, b'). adv (if isl r then - 1 else 0) b b')
     (if isl r then Some (r, b1) else if speex_bits_remaining b1 < 5 then Some (Inl (- 1), b1)
      else Option.bind (speex_bits_unpack_unsigned b1 1) (\<lambda>(wideband, bits).
        if wideband = 0 then Some (Inr (), bits)
        else Option.bind (skipLayer bits) (\<lambda>(r, bits).
          if isl r then Some (r, bits)
          else Option.bind (speex_bits_unpack_unsigned bits 1) (\<lambda>(wideband, bits).
            Some (if wideband = 0 then Inr () else Inl (- 2), bits)))))"
  proof (cases "isl r \<or> speex_bits_remaining b1 < 5")
    case False
    have 2: "ok (\<lambda>(_, b'). adv 0 b b') (speex_bits_unpack_unsigned b1 1)"
      using unpack_from [OF 1, of 1] by (auto elim!: ok_mono)
    have 3: "ok (\<lambda>(_, b'). adv (- 1) b b') (skipLayer b2)" if "adv 0 b b2" for b2
      by (rule ok_mono [OF skipLayer_ok [OF adv_started(1) [OF assms that]]]) (use adv_trans [OF that] in auto)
    have 4: "ok (\<lambda>(_, b'). adv 0 b b') (speex_bits_unpack_unsigned b3 1)" if "adv (- 1) b b3" for b3
      using unpack_from [OF that, of 1] by (auto elim!: ok_mono)
    have 5: "ok (\<lambda>(r, b'). adv (if isl r then - 1 else 0) b b') (Option.bind (speex_bits_unpack_unsigned b3 1)
       (\<lambda>(wideband, bits). Some (if wideband = 0 then Inr () else Inl (- 2) :: int + unit, bits)))" if "adv (- 1) b b3" for b3
      by (rule ok_bindI [OF 4 [OF that]]) (auto simp: adv_def)
    have 6: "ok (\<lambda>(r, b'). adv (if isl r then - 1 else 0) b b') (Option.bind (skipLayer b2) (\<lambda>(r, bits).
          if isl r then Some (r, bits)
          else Option.bind (speex_bits_unpack_unsigned bits 1) (\<lambda>(wideband, bits).
            Some (if wideband = 0 then Inr () else Inl (- 2), bits))))" if "adv 0 b b2" for b2
      by (rule ok_bindI [OF 3 [OF that]]) (use 5 in \<open>auto simp del: ok_simps(3) One_nat_def\<close>)
    show ?thesis using False
      apply (simp only: de_Morgan_disj if_False simp_thms)
      apply (rule ok_bindI [OF 2])
      using 6 by (auto simp del: ok_simps(3))
  qed (use 1 in auto)
qed

lemma frameHeader_ok:
  assumes "sb_readable b"
  shows "ok (\<lambda>(r, b'). sb_readable b' \<and> (\<not> isl r \<longrightarrow> adv 5 b b' \<and> 5 \<le> speex_bits_remaining b \<and> projr r < 16)) (frameHeader b)"
proof (cases "speex_bits_remaining b < 5")
  case False
  have 1: "ok (\<lambda>(_, b'). adv 1 b b') (speex_bits_unpack_unsigned b 1)"
    using unpack_adv [OF assms, of 1] by (auto elim!: ok_mono)
  have 2: "ok (\<lambda>(r, b'). sb_readable b' \<and> (\<not> isl r \<longrightarrow> adv 1 b b'))
    (if w = 0 then Some (Inr (), b1) else skipWideband b1)" if "adv 1 b b1" for w :: u32 and b1
  proof -
    have "ok (\<lambda>(r, b'). sb_readable b' \<and> (\<not> isl r \<longrightarrow> adv 1 b b')) (skipWideband b1)"
      by (rule ok_mono [OF skipWideband_ok [OF adv_started(2) [OF that]]])
        (use adv_trans [OF that] in \<open>auto simp: adv_readable split: if_splits\<close>)
    then show ?thesis using that by (auto dest: adv_readable)
  qed
  show ?thesis using False unfolding frameHeader_def
    apply (simp only: if_False)
    apply (rule ok_bindI [OF 1], clarify)
    apply (rule ok_bindI, erule 2, clarify)
    subgoal for _ b1 r b2
      using unpack_from [of 1 b b2 4] by (auto elim!: ok_mono simp: adv_def linorder_not_less)
    done
qed (use assms in \<open>simp add: frameHeader_def\<close>)

subsection \<open>Requests\<close>

text \<open>
  The interface between the decoder and the handlers of requests: a handler reads and skips forward
  in the stream, and may change the state through \<open>nb_decoder_ctl\<close> as long as the invariant holds.
\<close>

definition handlerOk :: "speexBits \<Rightarrow> DecState \<Rightarrow> (int \<times> speexBits \<times> DecState) option \<Rightarrow> bool" where
  "handlerOk b st r = ok (\<lambda>(_, b', st'). adv 0 b b' \<and> decOk st' \<and> ds_count_lost st' = ds_count_lost st) r"

locale handlers =
  fixes callbacks :: "callback option list" and user :: callback
  assumes inband: "length callbacks = 16"
    "k < 16 \<Longrightarrow> callbacks ! k = Some f \<Longrightarrow> sb_readable b \<Longrightarrow> decOk st \<Longrightarrow> handlerOk b st (f b st)"
    and user: "sb_readable b \<Longrightarrow> decOk st \<Longrightarrow> handlerOk b st (user b st)"
begin

lemma handleRequest_ok:
  assumes "sb_readable b" and "decOk st"
  shows "handlerOk b st (handleRequest callbacks user m b st)"
proof -
  have self: "handlerOk b st (Some (k, b, st))" for k using assms by (simp add: handlerOk_def adv_refl)
  have "handlerOk b st (speex_inband_handler b callbacks st)"
    unfolding speex_inband_handler_def handlerOk_def Let_def
  proof (rule ok_bindI [OF unpack_adv [OF assms(1), of 4]], simp, clarify)
    fix d :: u32 and b1 assume d: "adv (int 4) b b1" "unat d < 2 ^ 4"
    have r: "sb_readable b1" using d adv_readable by blast
    have s: "ok (adv n b1) (speex_bits_advance b1 n)" if "0 \<le> n" for n by (rule advance_adv) (use r that in auto)
    show "ok (\<lambda>(_, b', st'). adv 0 b b' \<and> decOk st' \<and> ds_count_lost st' = ds_count_lost st) (Option.bind (rd callbacks (unat d)) (\<lambda>cb.
        case cb of None \<Rightarrow> Option.bind (speex_bits_advance b1 (if unat d < 2 then 1 else if unat d < 8 then 4 else if unat d < 10 then 8
            else if unat d < 12 then 16 else if unat d < 14 then 32 else 64)) (\<lambda>bits. Some (0, bits, st))
        | Some func \<Rightarrow> func b1 st))"
    proof (cases "callbacks ! unat d")
      case None
      then show ?thesis using d inband(1) assms(2) adv_trans [OF d(1)]
        by (auto intro!: ok_mono [OF s])
    next
      case (Some f)
      then have "handlerOk b1 st (f b1 st)" using inband(2) d r assms(2) by simp
      then show ?thesis using Some d inband(1) adv_trans [OF d(1)] by (auto simp: handlerOk_def elim!: ok_mono)
    qed
  qed
  then show ?thesis using self user [OF assms] by (simp add: handleRequest_def)
qed

text \<open>The search ends, with an error code or with a sub-mode that exists.\<close>

lemma findFrame_ok:
  assumes "sb_readable b" and "decOk st"
  shows "ok (\<lambda>(r, b', st'). sb_readable b' \<and> decOk st' \<and> ds_count_lost st' = ds_count_lost st \<and> (\<not> isl r \<longrightarrow> projr r \<le> 8))
    (findFrame callbacks user b st)"
  using assms
proof (induction "nat (speex_bits_remaining b)" arbitrary: b st rule: less_induct)
  case less
  show ?case
  proof (subst findFrame.simps, rule ok_bindI [OF frameHeader_ok [OF less.prems(1)]], clarify, goal_cases)
    case (1 r b1)
    show ?case
    proof (cases "isl r")
      case False
      with 1 have a: "adv 5 b b1" "5 \<le> speex_bits_remaining b" by simp_all
      have "ok (\<lambda>(r, b', st'). sb_readable b' \<and> decOk st' \<and> ds_count_lost st' = ds_count_lost st \<and> (\<not> isl r \<longrightarrow> projr r \<le> 8))
          (findFrame callbacks user b2 st2)" if "adv 0 b1 b2" "decOk st2" "ds_count_lost st2 = ds_count_lost st" for b2 st2
      proof -
        have "adv 5 b b2" by (rule adv_trans [OF a(1) that(1)]) simp
        then have "nat (speex_bits_remaining b2) < nat (speex_bits_remaining b)"
          using a(2) by (auto simp: adv_def speex_bits_remaining_def sb_pos_def mult.commute split: if_splits)
        from less.hyps [OF this adv_readable [OF that(1)] that(2)] show ?thesis unfolding that(3) .
      qed
      note rec = this
      show ?thesis using False
        apply (simp only: if_False)
        apply (rule ok_bindI, rule handleRequest_ok [unfolded handlerOk_def], rule 1, rule less.prems, clarify)
        using rec False by (auto simp: adv_readable)
    qed (use 1 less.prems in auto)
  qed
qed

end

end
