(* ===== verification/SpeexDecoderRun.thy ===== *)
theory SpeexDecoderRun
  imports SpeexFrameSearch
begin

text \<open>
  The decoder as a whole: frames of all sub-modes, frames without transmission, lost frames, and
  sequences of them. Whatever bytes arrive, decoding ends without leaving an array and without
  dividing by zero, and delivers 160 samples of 16 bits.
\<close>

subsection \<open>The sub-modes keep the contract\<close>

lemmas submode_defs = nb_submode1_def nb_submode2_def nb_submode3_def nb_submode4_def nb_submode5_def nb_submode6_def
  nb_submode7_def nb_submode8_def

lemma params_ok:
  "length (lp_gain_cdbk ltp_params_nb) = 512" "signedChars (lp_gain_cdbk ltp_params_nb)"
  "length (lp_gain_cdbk ltp_params_vlbr) = 128" "signedChars (lp_gain_cdbk ltp_params_vlbr)"
  "length (lp_gain_cdbk ltp_params_lbr) = 128" "signedChars (lp_gain_cdbk ltp_params_lbr)"
  "length (lp_gain_cdbk ltp_params_med) = 128" "signedChars (lp_gain_cdbk ltp_params_med)"
  "lp_pitch_bits ltp_params_nb = 7" "lp_pitch_bits ltp_params_vlbr = 0" "lp_pitch_bits ltp_params_lbr = 7" "lp_pitch_bits ltp_params_med = 7"
  "lp_gain_bits ltp_params_nb = 7" "lp_gain_bits ltp_params_vlbr = 5" "lp_gain_bits ltp_params_lbr = 5" "lp_gain_bits ltp_params_med = 5"
  by (simp_all add: ltp_params_nb_def ltp_params_vlbr_def ltp_params_lbr_def ltp_params_med_def lsp_tables)

lemma tap3_at:
  assumes "k = lp_pitch_bits p + lp_gain_bits p" and "4 * 2 ^ lp_gain_bits p \<le> length (lp_gain_cdbk p)" "signedChars (lp_gain_cdbk p)" "lp_gain_bits p \<le> 31" "lp_pitch_bits p \<le> 31"
    and "length exc = 500" "list_all in16 exc" "334 \<le> eo" "eo \<le> 454" "length out = 40"
    and "17 \<le> start" "start \<le> 145 - 2 ^ lp_pitch_bits p" "sb_readable bits" "0 \<le> lpg" "in16 lpg"
  shows "ltpOk k bits (pitch_unquant_3tap exc eo out start e1 pc (Some p) 40 bits cl off lpg 0)"
  unfolding assms(1) by (rule pitch_unquant_3tap_ok) (use assms in auto)

lemma comb_gains:
  "QCONST16 5 10 15 = 16384" "QCONST16 6 10 15 = 19661" "QCONST16 55 100 15 = 18022" "QCONST16 45 100 15 = 14746"
  "QCONST16 3 10 15 = 9830" "QCONST16 2 10 15 = 6554" "QCONST16 1 10 15 = 3277"
  by code_simp+

lemma split_cb_at:
  assumes "length exc = 40" and "sb_readable bits" and "k = sc_nb_subvect p * (sc_shape_bits p + (if sc_have_sign p then 1 else 0))"
    and "sc_subvect_size p * sc_nb_subvect p \<le> 40" "2 ^ sc_shape_bits p * sc_subvect_size p \<le> length (sc_shape_cb p)" "sc_shape_bits p \<le> 31"
  shows "innovOk k bits (split_cb_shape_sign_unquant exc (Some p) n bits seed)"
  unfolding assms(3) by (rule split_cb_ok) (use assms in auto)

interpretation sm1: submode nb_submode1 18 0 0
  by unfold_locales
    (auto simp: nb_submode1_def intro!: unquant_lbr_took forced_pitch_unquant_ok noise_ok)

interpretation sm8: submode nb_submode8 18 0 10
  by unfold_locales
    (auto simp: nb_submode8_def comb_gains split_cb_nb_ulbr_def length_exc intro!: unquant_lbr_took forced_pitch_unquant_ok split_cb_at)

interpretation sm2: submode nb_submode2 18 5 16
  by unfold_locales
    (auto simp: nb_submode2_def comb_gains split_cb_nb_vlbr_def length_exc params_ok intro!: unquant_lbr_took tap3_at split_cb_at)

interpretation sm3: submode nb_submode3 18 12 20
  by unfold_locales
    (auto simp: nb_submode3_def comb_gains split_cb_nb_lbr_def length_exc params_ok intro!: unquant_lbr_took tap3_at split_cb_at)

interpretation sm4: submode nb_submode4 18 12 35
  by unfold_locales
    (auto simp: nb_submode4_def comb_gains split_cb_nb_med_def length_exc params_ok intro!: unquant_lbr_took tap3_at split_cb_at)

interpretation sm5: submode nb_submode5 30 14 48
  by unfold_locales
    (auto simp: nb_submode5_def comb_gains split_cb_nb_def length_exc params_ok intro!: unquant_nb_took tap3_at split_cb_at)

interpretation sm6: submode nb_submode6 30 14 64
  by unfold_locales
    (auto simp: nb_submode6_def comb_gains split_cb_sb_def length_exc params_ok intro!: unquant_nb_took tap3_at split_cb_at)

interpretation sm7: submode nb_submode7 30 14 48
  by unfold_locales
    (auto simp: nb_submode7_def comb_gains split_cb_nb_def length_exc params_ok intro!: unquant_nb_took tap3_at split_cb_at)

text \<open>Every sub-mode of the table keeps the contract, and the number of bits it declares for a frame,
  with the five of the header, is the number the decoder reads.\<close>

definition submodeOk :: "nat \<Rightarrow> SpeexSubmode \<Rightarrow> bool" where
  "submodeOk k sm \<longleftrightarrow> (\<exists>l n i. submode sm l n i \<and>
     int (5 + l + paramBits sm (int k) + 4 * subframeBits sm n i) = sm_bits_per_frame sm) \<and> (k = 1 \<longrightarrow> sm_lbr_pitch sm = 0)"

lemma submodeOkI:
  "submode sm l n i \<Longrightarrow> int (5 + l + paramBits sm (int k) + 4 * subframeBits sm n i) = sm_bits_per_frame sm \<Longrightarrow>
   (k = 1 \<Longrightarrow> sm_lbr_pitch sm = 0) \<Longrightarrow> submodeOk k sm"
  unfolding submodeOk_def by blast

lemmas bits_defs = submode_defs paramBits_def subframeBits_def gainBits_def

lemma submodes_ok:
  "submodeOk 1 nb_submode1" "submodeOk 2 nb_submode2" "submodeOk 3 nb_submode3" "submodeOk 4 nb_submode4" "submodeOk 5 nb_submode5"
  "submodeOk 6 nb_submode6" "submodeOk 7 nb_submode7" "submodeOk 8 nb_submode8"
  by (rule submodeOkI [OF sm1.submode_axioms] submodeOkI [OF sm2.submode_axioms] submodeOkI [OF sm3.submode_axioms]
        submodeOkI [OF sm4.submode_axioms] submodeOkI [OF sm5.submode_axioms] submodeOkI [OF sm6.submode_axioms]
        submodeOkI [OF sm7.submode_axioms] submodeOkI [OF sm8.submode_axioms]; simp add: bits_defs)+

lemma submode_table:
  assumes "nm_submodes nb_mode ! k = Some sm" and "k < 16"
  shows "submodeOk k sm"
proof -
  have "k \<in> set [0..<16]" using assms(2) by simp
  also have "[0..<16 :: nat] = [0, 1, 2, 3, 4, 5, 6, 7, 8, 9, 10, 11, 12, 13, 14, 15]" by code_simp
  finally show ?thesis using assms(1) submodes_ok by (auto simp: nb_mode_def)
qed

subsection \<open>Frames without a sub-mode and lost frames\<close>

lemma in16_speex_rand [simp]: "in16 (fst (speex_rand a b))"
  by (simp add: speex_rand_def Let_def)

lemma nullFrame_ok:
  assumes st: "decOk st" and out: "outOk out"
  shows "ok (\<lambda>(st', out'). decOk st' \<and> outOk out' \<and> ds_count_lost st' = 0) (nullFrame st out)"
proof -
  have n: "ds_lpcSize st = 10" "ds_exc st = 334" "ds_frameSize st = 160" using st by (simp_all add: dec_defs)
  have 1: "ok (\<lambda>l. length l = 10) (bw_lpc g (ds_interp_qlpc st) (replicate 10 0) 10)" for g
    by (rule ok_mono [OF bw_lpc_ok]) (use st in \<open>auto simp: dec_defs\<close>)
  have 2: "ok (\<lambda>_. True) (compute_rms16 (ds_excBuf st) 334 160)"
    by (rule ok_mono [OF compute_rms16_ok]) (use st in \<open>simp_all add: dec_defs\<close>)
  have 3: "ok (\<lambda>(e, _). length e = 500 \<and> list_all in16 e) (foldO (\<lambda>i (exc, seed). case speex_rand g seed of (r, seed) \<Rightarrow>
      Option.bind (wrI exc (334 + int i) r) (\<lambda>exc. Some (exc, seed))) [0..<160] (ds_excBuf st, ds_seed st))" for g
  proof (rule ok_foldO, use st in \<open>simp add: dec_defs\<close>, clarify, goal_cases)
    case (1 i e seed)
    then show ?case by (simp add: split_beta)
  qed
  have 4: "ok (\<lambda>(r, m). outOk r \<and> length m = 10) (iir_mem16 e 334 l out 0 160 10 (ds_mem_sp st))" if "length e = 500" "length l = 10" for e l
    by (rule ok_mono [OF iir_mem16_ok]) (use that st out in \<open>auto simp: dec_defs outOk_def\<close>)
  show ?thesis unfolding nullFrame_def n Let_def
    apply (rule ok_bindI [OF 1])
    apply (rule ok_bindI [OF 2])
    apply (rule ok_bindI [OF 3], clarify)
    apply (rule ok_bindI, erule (1) 4, clarify)
    using st by (simp add: dec_defs)
qed

text \<open>The gains of lost frames stay small and do not become negative.\<close>

lemma lostGain:
  assumes f: "0 \<le> f" "f \<le> 32767" and g: "0 \<le> g" "g \<le> 54"
  shows "gainMem (s16 (PSHR16 (s16 (MULT16_16_Q15 f (s16 (SHL16 g 9)) + VERY_SMALL)) 9))"
proof -
  have "SHL16 g 9 = g * 512" using g by (simp add: SHL16_def push_bit_eq_mult s32_id)
  then have s: "s16 (SHL16 g 9) = g * 512" using g by (simp add: s16_id)
  define p where "p = f * (g * 512)"
  have p: "0 \<le> p" "p \<le> 32767 * 27648" using f g mult_mono [of f 32767 "g * 512" 27648] by (auto simp: p_def)
  have "s16 f = f" "s16 (g * 512) = g * 512" "s32 p = p" using f g p by (auto intro!: s16_id s32_id)
  then have "MULT16_16_Q15 f (g * 512) = drop_bit 15 p"
    by (simp only: MULT16_16_Q15_def MULT16_16_def SHR_def p_def)
  then have "MULT16_16_Q15 f (g * 512) = p div 32768" by (simp add: drop_bit_eq_div)
  moreover have "0 \<le> p div 32768" "p div 32768 \<le> (32767 * 27648) div 32768"
    using p zdiv_mono1 [of p "32767 * 27648" 32768] by (simp_all add: pos_imp_zdiv_nonneg_iff)
  ultimately obtain r where r: "s16 (MULT16_16_Q15 f (s16 (SHL16 g 9)) + VERY_SMALL) = r" "0 \<le> r" "r \<le> 27648"
    unfolding s VERY_SMALL_def by (simp add: s16_id)
  have "PSHR16 r 9 = (r + 256) div 512" using r
    by (simp add: PSHR16_def SHR16_def push_bit_eq_mult drop_bit_eq_div s32_id)
  moreover have "0 \<le> (r + 256) div 512" "(r + 256) div 512 \<le> 27904 div 512"
    using r zdiv_mono1 [of "r + 256" 27904 512] by (simp_all add: pos_imp_zdiv_nonneg_iff)
  ultimately show ?thesis unfolding r(1) by (simp add: gainMem_def s16_id)
qed

lemma attenuation_ok: "0 \<le> k \<Longrightarrow> ok (\<lambda>f. 0 \<le> f \<and> f \<le> 32767) (if k < 10 then rdI attenuation k else Some 0)"
proof -
  assume k: "0 \<le> k"
  have "list_all (\<lambda>f. 0 \<le> f \<and> f \<le> 32767) attenuation" "length attenuation = 10" by (simp_all add: attenuation_def)
  then show ?thesis using k by (auto simp: list_all_length nat_less_iff)
qed

lemma medianGain_ok: "decOk st \<Longrightarrow> ok (sameFrame st) (medianGain st)"
  by (auto simp: medianGain_def Let_def sameFrame_def dec_defs list_all_length median3_def)

lemma lostPitch_ok: "decOk s \<Longrightarrow> 17 \<le> fst (lostPitch s) \<and> fst (lostPitch s) \<le> 144"
  by (auto simp: lostPitch_def Let_def split_beta dec_defs)

lemma nb_decode_lost_ok:
  assumes st: "decOk st" and out: "outOk out" and c: "ds_count_lost st < 2147483647"
  shows "ok (\<lambda>(st', out'). decOk st' \<and> outOk out' \<and> ds_count_lost st' = ds_count_lost st + 1) (nb_decode_lost st out)"
proof -
  have n: "ds_lpcSize st' = 10" "ds_exc st' = 334" "ds_frameSize st' = 160" "ds_subframeSize st' = 40" if "decOk st'" for st'
    using that by (simp_all add: dec_defs)
  have f: "ok (\<lambda>f. 0 \<le> f \<and> f \<le> 32767) (if ds_count_lost st < 10 then rdI attenuation (ds_count_lost st) else Some 0)"
    by (rule attenuation_ok) (use st in \<open>simp add: dec_defs\<close>)
  note med = medianGain_ok [OF st]
  have gain: "0 \<le> (if ds_last_pitch_gain s > 54 then 54 else ds_last_pitch_gain s)"
      "(if ds_last_pitch_gain s > 54 then 54 else ds_last_pitch_gain s) \<le> 54" if "sameFrame st s" for s
    using that by (auto simp: sameFrame_def dec_defs gainMem_def)
  have rms: "ok (\<lambda>_. True) (compute_rms16 (ds_excBuf s) (ds_exc s) (ds_frameSize s))" if "decOk s" for s
    by (rule ok_mono [OF compute_rms16_ok]) (use that in \<open>simp_all add: dec_defs\<close>)
  have exc: "ok (\<lambda>(e, _). length e = 500 \<and> list_all in16 e) (lostExc a b c d s)" if "decOk s" "17 \<le> c" "c \<le> 144" for a b c d s
    unfolding lostExc_def using that
    by (intro ok_foldO) (auto simp: dec_defs split_beta Let_def)
  have lpc: "ok (\<lambda>l. length l = 10) (bw_lpc g (ds_interp_qlpc s) (ds_interp_qlpc s) (ds_lpcSize s))" if "decOk s" for g s
    by (rule ok_mono [OF bw_lpc_ok]) (use that in \<open>auto simp: dec_defs\<close>)
  have iir: "ok (\<lambda>(r, m). outOk r \<and> length m = 10) (iir_mem16 e (ds_exc s - int (ds_subframeSize s)) l out 0 (ds_frameSize s) (ds_lpcSize s) (ds_mem_sp s))"
    if "decOk s" "length e = 500" "length l = 10" for e l s
    by (rule ok_mono [OF iir_mem16_ok]) (use that out in \<open>auto simp: dec_defs outOk_def\<close>)
  have hp: "ok (\<lambda>(r, m). outOk r \<and> length m = 2) (highpass r r (ds_frameSize s) 1 (ds_mem_hp s))" if "decOk s" "outOk r" for r s
    using highpass_ok [of 160 r r "ds_mem_hp s" 1] that by (auto simp: dec_defs outOk_def elim!: ok_mono)
  have fin: "decOk (s\<lparr>ds_excBuf := e, ds_seed := d, ds_interp_qlpc := l, ds_mem_sp := m, ds_mem_hp := h, ds_first := False,
      ds_count_lost := s32 (ds_count_lost s + 1)\<rparr>)" "s32 (ds_count_lost s + 1) = ds_count_lost st + 1"
    if "sameFrame st s" "length e = 500" "list_all in16 e" "length l = 10" "length m = 10" "length h = 2" for s e d l m h
  proof -
    show "s32 (ds_count_lost s + 1) = ds_count_lost st + 1" using that(1) c by (auto simp: sameFrame_def dec_defs intro!: s32_id)
    then show "decOk (s\<lparr>ds_excBuf := e, ds_seed := d, ds_interp_qlpc := l, ds_mem_sp := m, ds_mem_hp := h, ds_first := False,
      ds_count_lost := s32 (ds_count_lost s + 1)\<rparr>)" using that st by (simp add: sameFrame_def dec_defs)
  qed
  show ?thesis unfolding nb_decode_lost_def Let_def
    apply (rule ok_bindI [OF f], elim conjE)
    apply (rule ok_bindI [OF med])
    apply (rule ok_bindI, rule rms, erule sameFrame_ok)
    apply (rule ok_bindI, rule shiftExc_ok, erule sameFrame_ok)
    apply (frule (1) sameFrame_trans)
    subgoal premises p for f s1 g s2
    proof -
      obtain v d where l: "lostPitch s2 = (v, d)" by (cases "lostPitch s2")
      have s2: "decOk s2" "sameFrame st s2" using p by (simp_all add: sameFrame_def)
      have v: "17 \<le> v" "v \<le> 144" using lostPitch_ok [OF s2(1)] l by simp_all
      show ?thesis unfolding l prod.case
        apply (rule ok_bindI [OF exc [OF s2(1) v]], clarify)
        apply (rule ok_bindI [OF lpc [OF s2(1)]])
        apply (rule ok_bindI, erule (1) iir [OF s2(1)], clarify)
        apply (rule ok_bindI, erule hp [OF s2(1)], clarify)
        apply (rule ok_bindI, rule pushGain_ok)
          apply (rule fin(1) [OF s2(2)], assumption+)
         apply (rule lostGain [OF p(1,2) gain [OF p(3)]])
        using fin(2) [OF s2(2)] by simp
    qed
    done
qed

subsection \<open>Any frame\<close>

definition bitsOk :: "speexBits option \<Rightarrow> bool" where
  "bitsOk b = (case b of None \<Rightarrow> True | Some b \<Rightarrow> sb_readable b)"

lemma codedFrame_table:
  assumes k: "nm_submodes nb_mode ! k = Some sm" "k < 16" and st: "decOk st" "ds_submodeID st = int k" and out: "outOk out" and b: "sb_readable b"
  shows "ok (\<lambda>(b', st', out'). took (nat (sm_bits_per_frame sm) - 5) b b' \<and> decOk st' \<and> outOk out' \<and> ds_count_lost st' = 0)
    (codedFrame sm b st out)"
proof -
  from submode_table [OF k] obtain l n i where sm: "submode sm l n i"
    "int (5 + l + paramBits sm (int k) + 4 * subframeBits sm n i) = sm_bits_per_frame sm" "k = 1 \<longrightarrow> sm_lbr_pitch sm = 0"
    by (auto simp: submodeOk_def)
  from sm(2) have "nat (sm_bits_per_frame sm) - 5 = l + paramBits sm (ds_submodeID st) + 4 * subframeBits sm n i"
    unfolding st(2) by linarith
  then show ?thesis using submode.codedFrame_ok [OF sm(1) st(1) out b] sm(3) st(2) by simp
qed

lemma decodeFrame_ok:
  assumes st: "decOk st" and out: "outOk out" and b: "bitsOk bits" and id: "bits = None \<Longrightarrow> ds_submodeID st = 0"
  shows "ok (\<lambda>(b', st', out'). bitsOk b' \<and> decOk st' \<and> outOk out' \<and> ds_count_lost st' = 0) (decodeFrame bits st out)"
  unfolding decodeFrame_def
proof (rule ok_bindI [OF shiftExc_ok [OF st]])
  fix s assume s: "sameFrame st s"
  then have sOk: "decOk s" "ds_submodes s = nm_submodes nb_mode" "0 \<le> ds_submodeID s" "ds_submodeID s < 16"
    "ds_submodeID s = ds_submodeID st" by (auto simp: sameFrame_def dec_defs)
  define k where "k = nat (ds_submodeID s)"
  have k: "k < 16" using sOk by (simp add: k_def nat_less_iff)
  have len: "length (nm_submodes nb_mode) = 16" by (simp add: nb_mode_def)
  have rd: "rdI (ds_submodes s) (ds_submodeID s) = Some (nm_submodes nb_mode ! k)"
    using sOk len by (simp add: k_def)
  show "ok (\<lambda>(b', st', out'). bitsOk b' \<and> decOk st' \<and> outOk out' \<and> ds_count_lost st' = 0)
     (Option.bind (rdI (ds_submodes s) (ds_submodeID s)) (\<lambda>sm. case sm of
        None \<Rightarrow> Option.bind (nullFrame s out) (\<lambda>(st, out). Some (bits, st, out))
      | Some sm \<Rightarrow> Option.bind bits (\<lambda>b. Option.bind (codedFrame sm b s out) (\<lambda>(b, st, out). Some (Some b, st, out)))))"
  proof (cases "nm_submodes nb_mode ! k")
    case None
    show ?thesis unfolding rd None Option.bind.simps option.case
      by (rule ok_bindI [OF nullFrame_ok [OF sOk(1) out]]) (use b in auto)
  next
    case (Some sm)
    have "k \<noteq> 0" using Some by (cases "k = 0") (auto simp: nb_mode_def)
    then obtain b0 where b0: "bits = Some b0" using id sOk by (cases bits) (auto simp: k_def)
    have "ok (\<lambda>(b', st', out'). sb_readable b' \<and> decOk st' \<and> outOk out' \<and> ds_count_lost st' = 0) (codedFrame sm b0 s out)"
      by (rule ok_mono [OF codedFrame_table [OF Some k sOk(1) _ out]]) (use b b0 sOk in \<open>auto simp: bitsOk_def k_def took_def\<close>)
    then show ?thesis unfolding rd Some b0 Option.bind.simps option.case
      by (rule ok_bindI) (auto simp: bitsOk_def)
  qed
qed

lemma decodeFrame_bits: "ok (\<lambda>_. True) (decodeFrame bits st out) \<Longrightarrow> ok (\<lambda>(b', _). b' = None \<longleftrightarrow> bits = None) (decodeFrame bits st out)"
  by (auto simp: decodeFrame_def ok_def split: option.splits Option.bind_splits)

context handlers
begin

lemma nb_decode_ok:
  assumes st: "decOk st" and out: "outOk out" and b: "bitsOk bits" and c: "ds_count_lost st < 2147483647"
  shows "ok (\<lambda>(ret, b', st', out'). bitsOk b' \<and> (b' = None \<longleftrightarrow> bits = None) \<and> decOk st' \<and> outOk out' \<and>
      ds_count_lost st' \<le> ds_count_lost st + 1 \<and> (bits = None \<longrightarrow> ret = 0)) (nb_decode callbacks user st bits out)"
proof (cases bits)
  case None
  have d: "decOk (st\<lparr>ds_submodeID := 0\<rparr>)" using st by (simp add: dec_defs)
  have c0: "0 \<le> ds_count_lost st" using st by (simp add: dec_defs)
  show ?thesis
  proof (cases "ds_dtx_enabled st = 0")
    case True
    then show ?thesis using nb_decode_lost_ok [OF st out c]
      by (auto simp: nb_decode_def None bitsOk_def elim!: ok_mono)
  next
    case False
    have "ok (\<lambda>(b', st', out'). b' = None \<and> decOk st' \<and> outOk out' \<and> ds_count_lost st' = 0)
        (decodeFrame None (st\<lparr>ds_submodeID := 0\<rparr>) out)"
      using decodeFrame_ok [OF d out, of None] decodeFrame_bits [of None "st\<lparr>ds_submodeID := 0\<rparr>" out]
      by (auto simp: bitsOk_def dest!: okE)
    then show ?thesis using False c0 by (auto simp: nb_decode_def None bitsOk_def elim!: ok_mono)
  qed
next
  case (Some b0)
  have b0: "sb_readable b0" using b by (simp add: Some bitsOk_def)
  have c0: "0 \<le> ds_count_lost st" using st by (simp add: dec_defs)
  have dec: "ok (\<lambda>(b', st', out'). bitsOk b' \<and> b' \<noteq> None \<and> decOk st' \<and> outOk out' \<and> ds_count_lost st' = 0)
      (decodeFrame (Some b1) s out)" if "decOk s" "sb_readable b1" for b1 s
    using decodeFrame_ok [OF that(1) out, of "Some b1"] that decodeFrame_bits [of "Some b1" s out]
    by (auto simp: bitsOk_def dest!: okE)
  have sub: "decOk (s\<lparr>ds_submodeID := int m\<rparr>)" if "decOk s" "m \<le> 8" for s m using that by (simp add: dec_defs)
  show ?thesis
  proof (cases "ds_encode_submode st = 0")
    case True
    show ?thesis using True c0 unfolding nb_decode_def Some option.case
      by (simp only: simp_thms if_False) (rule ok_bindI [OF dec [OF st b0]], auto simp: bitsOk_def)
  next
    case False
    then show ?thesis unfolding nb_decode_def Some option.case
      apply (simp only: simp_thms if_True)
      apply (rule ok_bindI [OF findFrame_ok [OF b0 st]], clarify)
      subgoal for r b1 s
        apply (cases r)
         apply (use c0 out in \<open>simp add: bitsOk_def\<close>)
        apply (simp only: sum.case)
        apply (rule ok_bindI, rule dec, erule sub, simp, assumption)
        using c0 by auto
      done
  qed
qed

end

end
