(* ===== verification/SpeexDecoderCtl.thy ===== *)
theory SpeexDecoderCtl
  imports SpeexDecoderRun
begin

text \<open>
  The requests to the decoder (\<open>nb_decoder_ctl\<close> of \<open>Libraries/speex/nb_celp.c\<close>). The argument of a
  setting is part of the request; what the source writes through the pointer is a result. The
  requests that store callbacks are absent, since callbacks are arguments of the operations here,
  and so are those for the activity, which use floating point, and for the stack.
\<close>

datatype dec_request =
    SET_MODE int | GET_MODE | SET_ENH int | GET_ENH | GET_FRAME_SIZE | GET_BITRATE
  | SET_SAMPLING_RATE int | GET_SAMPLING_RATE | RESET_STATE | SET_SUBMODE_ENCODING int | GET_SUBMODE_ENCODING
  | GET_LOOKAHEAD | SET_HIGHPASS int | GET_HIGHPASS | GET_PI_GAIN | GET_EXC | GET_DTX_STATUS
  | SET_INNOVATION_SAVE "int list option" | SET_WIDEBAND int | UNKNOWN_REQUEST

definition NB_SUBMODE_BITS :: int where "NB_SUBMODE_BITS = 4"

definition decBitrate :: "DecState \<Rightarrow> int option" where
  "decBitrate st = do {
     sm \<leftarrow> rdI (ds_submodes st) (ds_submodeID st);
     let bits = (case sm of Some sm \<Rightarrow> sm_bits_per_frame sm | None \<Rightarrow> NB_SUBMODE_BITS + 1);
     if ds_frameSize st = 0 then None else Some (s32 (ds_sampling_rate st * bits) sdiv int (ds_frameSize st)) }"

definition resetState :: "DecState \<Rightarrow> DecState option" where
  "resetState st = do {
     mem_sp \<leftarrow> fillO 0 (\<lambda>_ _. Some 0) (ds_lpcSize st) (ds_mem_sp st);
     exc \<leftarrow> fillO 0 (\<lambda>_ _. Some 0) (nat (int (ds_frameSize st) + ds_max_pitch st + 1)) (ds_excBuf st);
     Some (st\<lparr>ds_mem_sp := mem_sp, ds_excBuf := exc\<rparr>) }"

definition excEnergies :: "DecState \<Rightarrow> int list option" where
  "excEnergies st =
     fillO 0 (\<lambda>i _. compute_rms16 (ds_excBuf st) (ds_exc st + int (i * ds_subframeSize st)) (ds_subframeSize st))
       (ds_nbSubframes st) (replicate (ds_nbSubframes st) 0)"

fun nb_decoder_ctl :: "DecState \<Rightarrow> dec_request \<Rightarrow> (int \<times> int list \<times> DecState) option" where
  "nb_decoder_ctl st (SET_MODE v) = Some (0, [], st\<lparr>ds_submodeID := v\<rparr>)"
| "nb_decoder_ctl st GET_MODE = Some (0, [ds_submodeID st], st)"
| "nb_decoder_ctl st (SET_ENH v) = Some (0, [], st\<lparr>ds_lpc_enh_enabled := v\<rparr>)"
| "nb_decoder_ctl st GET_ENH = Some (0, [ds_lpc_enh_enabled st], st)"
| "nb_decoder_ctl st GET_FRAME_SIZE = Some (0, [int (ds_frameSize st)], st)"
| "nb_decoder_ctl st GET_BITRATE = map_option (\<lambda>r. (0, [r], st)) (decBitrate st)"
| "nb_decoder_ctl st (SET_SAMPLING_RATE v) = Some (0, [], st\<lparr>ds_sampling_rate := v\<rparr>)"
| "nb_decoder_ctl st GET_SAMPLING_RATE = Some (0, [ds_sampling_rate st], st)"
| "nb_decoder_ctl st RESET_STATE = map_option (\<lambda>st. (0, [], st)) (resetState st)"
| "nb_decoder_ctl st (SET_SUBMODE_ENCODING v) = Some (0, [], st\<lparr>ds_encode_submode := v\<rparr>)"
| "nb_decoder_ctl st GET_SUBMODE_ENCODING = Some (0, [ds_encode_submode st], st)"
| "nb_decoder_ctl st GET_LOOKAHEAD = Some (0, [int (ds_subframeSize st)], st)"
| "nb_decoder_ctl st (SET_HIGHPASS v) = Some (0, [], st\<lparr>ds_highpass_enabled := v\<rparr>)"
| "nb_decoder_ctl st GET_HIGHPASS = Some (0, [ds_highpass_enabled st], st)"
| "nb_decoder_ctl st GET_PI_GAIN = (if ds_nbSubframes st \<le> length (ds_pi_gain st) then Some (0, take (ds_nbSubframes st) (ds_pi_gain st), st) else None)"
| "nb_decoder_ctl st GET_EXC = map_option (\<lambda>e. (0, e, st)) (excEnergies st)"
| "nb_decoder_ctl st GET_DTX_STATUS = Some (0, [ds_dtx_enabled st], st)"
| "nb_decoder_ctl st (SET_INNOVATION_SAVE a) = Some (0, [], st\<lparr>ds_innov_save := a\<rparr>)"
| "nb_decoder_ctl st (SET_WIDEBAND v) = Some (0, [], st\<lparr>ds_isWideband := v\<rparr>)"
| "nb_decoder_ctl st UNKNOWN_REQUEST = Some (-1, [], st)"

text \<open>The requests a caller may make: a sub-mode of the table, an array that holds a frame.\<close>

fun requestOk :: "dec_request \<Rightarrow> bool" where
  "requestOk (SET_MODE v) = (0 \<le> v \<and> v < 16)"
| "requestOk (SET_INNOVATION_SAVE (Some a)) = (160 \<le> length a)"
| "requestOk _ = True"

lemma nb_decoder_ctl_ok:
  assumes st: "decOk st" and r: "requestOk r"
  shows "ok (\<lambda>(_, _, st'). decOk st' \<and> ds_count_lost st' = ds_count_lost st) (nb_decoder_ctl st r)"
proof (cases r)
  case (SET_INNOVATION_SAVE a)
  then show ?thesis using st r by (cases a) (auto simp: dec_defs)
next
  case GET_BITRATE
  have "length (nm_submodes nb_mode) = 16" by (simp add: nb_mode_def)
  then show ?thesis using GET_BITRATE st by (auto simp: decBitrate_def dec_defs Let_def)
next
  case RESET_STATE
  have 1: "ok (\<lambda>m. length m = 10) (fillO 0 (\<lambda>_ _. Some 0) 10 (ds_mem_sp st))"
    by (rule ok_mono [OF ok_fillO_len]) (use st in \<open>auto simp: dec_defs\<close>)
  have 2: "ok (\<lambda>e. length e = 500 \<and> list_all in16 e) (fillO 0 (\<lambda>_ _. Some 0) 305 (ds_excBuf st))"
    by (rule ok_mono [OF ok_fillO]) (use st in \<open>auto simp: dec_defs\<close>)
  have n: "nat (int (ds_frameSize st) + ds_max_pitch st + 1) = 305" "ds_lpcSize st = 10" using st by (simp_all add: dec_defs)
  show ?thesis unfolding RESET_STATE nb_decoder_ctl.simps resetState_def n ok_simps
    by (rule ok_mono [OF 1], rule ok_mono [OF 2]) (use st in \<open>auto simp: dec_defs\<close>)
next
  case GET_EXC
  have n: "ds_nbSubframes st = 4" "ds_subframeSize st = 40" using st by (simp_all add: dec_defs)
  have "ok (\<lambda>_. True) (excEnergies st)"
    unfolding excEnergies_def n
    by (rule ok_mono [OF ok_fillO_len]) (use st in \<open>auto simp: dec_defs intro!: ok_mono [OF compute_rms16_ok]\<close>)
  then show ?thesis using GET_EXC st by (auto elim!: ok_mono)
qed (use st r in \<open>auto simp: dec_defs\<close>)

subsection \<open>The default handlers\<close>

lemma speex_default_user_handler_ok:
  assumes "sb_readable b" and "decOk st"
  shows "handlerOk b st (speex_default_user_handler b st)"
  unfolding speex_default_user_handler_def handlerOk_def
proof (rule ok_bindI [OF unpack_adv [OF assms(1), of 4]], simp, clarify)
  fix d :: u32 and b1 assume d: "adv (int 4) b b1"
  have "ok (adv (5 + 8 * int (unat d)) b1) (speex_bits_advance b1 (5 + 8 * int (unat d)))"
    by (rule advance_adv) (use d in \<open>auto simp: adv_def\<close>)
  then show "ok (\<lambda>(_, b', st'). adv 0 b b' \<and> decOk st' \<and> ds_count_lost st' = ds_count_lost st)
      (Option.bind (speex_bits_advance b1 (5 + 8 * int (unat d))) (\<lambda>bits. Some (0, bits, st)))"
    unfolding ok_simps by (rule ok_mono) (use adv_trans [OF d] assms(2) in auto)
qed

interpretation default_handlers: handlers "replicate 16 None" speex_default_user_handler
  by unfold_locales (auto simp: speex_default_user_handler_ok)

subsection \<open>What the requests do not check\<close>

lemma fill_prefix:
  assumes "n \<le> length a"
  shows "ok (\<lambda>b. length b = length a \<and> (\<forall>k < length a. b ! k = (if k < n then x else a ! k))) (fillO 0 (\<lambda>_ _. Some x) n a)"
  unfolding fillO_def
  by (rule ok_foldO_upt [where I = "\<lambda>i b. length b = length a \<and> (\<forall>k < length a. b ! k = (if k < i then x else a ! k))"])
    (use assms in \<open>auto simp: nth_list_update less_Suc_eq\<close>)

text \<open>A sub-mode that is set is not checked: asking for the bit rate then reads outside the table.\<close>

theorem set_mode_unchecked:
  "Option.bind (nb_decoder_ctl (nb_decoder_init nb_mode) (SET_MODE 16)) (\<lambda>(_, _, st). nb_decoder_ctl st GET_BITRATE) = None"
  by (simp add: decBitrate_def nb_decoder_init_def nb_mode_def rdI_def rd_def)

text \<open>A reset clears the first 305 samples of the excitation and leaves the 195 after them, which hold
  the last frame, as they were.\<close>

theorem reset_keeps_excitation:
  assumes st: "decOk st" and k: "305 \<le> k" "k < 500"
  shows "ok (\<lambda>(_, _, st'). ds_excBuf st' ! k = ds_excBuf st ! k) (nb_decoder_ctl st RESET_STATE)"
proof -
  have n: "nat (int (ds_frameSize st) + ds_max_pitch st + 1) = 305" "length (ds_excBuf st) = 500" using st by (simp_all add: dec_defs)
  have "ok (\<lambda>_. True) (fillO 0 (\<lambda>_ _. Some 0) (ds_lpcSize st) (ds_mem_sp st))"
    by (rule ok_mono [OF fill_prefix]) (use st in \<open>simp_all add: dec_defs\<close>)
  moreover have "ok (\<lambda>e. e ! k = ds_excBuf st ! k) (fillO 0 (\<lambda>_ _. Some 0) 305 (ds_excBuf st))"
    by (rule ok_mono [OF fill_prefix]) (use n k in auto)
  ultimately show ?thesis by (auto simp: resetState_def n elim!: ok_mono)
qed

end
