(* ===== verification/SpeexCodec.thy ===== *)
theory SpeexCodec
  imports SpeexDecoderCtl
begin

text \<open>
  The decoding half of the codec of a call (\<open>Signal/src/audio/incall_audio/SpeexCodec.m\<close>): one
  packet, or the absence of one, in, samples out. The bits, the decoder and the buffer of decoded
  samples are instance variables. A frame is decoded into the part of the buffer that holds it.
\<close>

record SpeexCodec =
  sx_decodingState :: DecState
  sx_decodingBits :: speexBits
  sx_decodingBuffer :: "int list"
  sx_decodingFrameSize :: nat

definition MAX_FRAMES :: nat where "MAX_FRAMES = 512"
definition FRAME_SIZE_IN_SAMPLES :: nat where "FRAME_SIZE_IN_SAMPLES = 160"
definition SAMPLE_RATE :: int where "SAMPLE_RATE = 8000"

definition decodedFrameSizeInBytes :: nat where "decodedFrameSizeInBytes = FRAME_SIZE_IN_SAMPLES * 2"

text \<open>Opening; \<open>buffer\<close> is the memory \<open>malloc\<close> returns. A failure of \<open>speex_bits_init\<close> is \<open>None\<close>.\<close>

definition openSpeex :: "allocator \<Rightarrow> int list \<Rightarrow> SpeexCodec option" where
  "openSpeex al buffer = do {
     (_, _, st) \<leftarrow> nb_decoder_ctl (nb_decoder_init nb_mode) (SET_ENH 1);
     (_, r, st) \<leftarrow> nb_decoder_ctl st GET_FRAME_SIZE;
     n \<leftarrow> rd r 0;
     (_, _, st) \<leftarrow> nb_decoder_ctl st (SET_SAMPLING_RATE SAMPLE_RATE);
     bits \<leftarrow> speex_bits_init al;
     Some \<lparr>sx_decodingState = st, sx_decodingBits = bits, sx_decodingBuffer = buffer, sx_decodingFrameSize = nat n\<rparr> }"

text \<open>\<open>speex_decode_int\<close> at an index of the buffer; without a packet the bits are NULL.\<close>

definition speex_decode_int :: "SpeexCodec \<Rightarrow> bool \<Rightarrow> nat \<Rightarrow> (int \<times> SpeexCodec) option" where
  "speex_decode_int c present idx =
     (let n = sx_decodingFrameSize c; buf = sx_decodingBuffer c in
      if length buf < idx + n then None
      else do {
        (ret, bits, st, out) \<leftarrow> nb_decode (replicate 16 None) speex_default_user_handler (sx_decodingState c)
          (if present then Some (sx_decodingBits c) else None) (take n (drop idx buf));
        let bits = (case bits of Some b \<Rightarrow> b | None \<Rightarrow> sx_decodingBits c);
        Some (ret, c\<lparr>sx_decodingState := st, sx_decodingBits := bits, sx_decodingBuffer := take idx buf @ out @ drop (idx + n) buf\<rparr>) })"

text \<open>Frames are decoded until one fails, the buffer is taken to be full, or there was no packet. The
  limit compares samples with a size in bytes. With frames of no samples the loop would not end.\<close>

function decodeSpeexBits :: "nat \<Rightarrow> bool \<Rightarrow> nat \<Rightarrow> SpeexCodec \<Rightarrow> (nat \<times> SpeexCodec) option" where
  "decodeSpeexBits n present idx c =
     Option.bind (speex_decode_int c present idx) (\<lambda>(ret, c).
       if ret \<noteq> 0 then Some (idx, c)
       else if idx + n + n > decodedFrameSizeInBytes then Some (idx + n, c)
       else if idx + n + n > n * MAX_FRAMES then Some (idx + n, c)
       else if \<not> present then Some (idx + n, c)
       else if n = 0 then None
       else decodeSpeexBits n present (idx + n) c)"
  by pat_completeness auto
termination by (relation "measure (\<lambda>(n, present, idx, c). decodedFrameSizeInBytes - idx)") auto

declare decodeSpeexBits.simps [simp del]

definition speexDecode :: "allocator \<Rightarrow> SpeexCodec \<Rightarrow> byte list option \<Rightarrow> (int list option \<times> SpeexCodec) option" where
  "speexDecode al c data =
     (let encodedDataLength = (case data of Some d \<Rightarrow> length d | None \<Rightarrow> decodedFrameSizeInBytes) in
      if encodedDataLength = 0 then Some (None, c)
      else do {
        bits \<leftarrow> (case data of Some d \<Rightarrow> speex_bits_read_from al (sx_decodingBits c) d (length d) | None \<Rightarrow> Some (sx_decodingBits c));
        (n, c) \<leftarrow> decodeSpeexBits (sx_decodingFrameSize c) (data \<noteq> None) 0 (c\<lparr>sx_decodingBits := bits\<rparr>);
        if n \<le> length (sx_decodingBuffer c) then Some (Some (take n (sx_decodingBuffer c)), c) else None })"

fun speexDecodeAll :: "allocator \<Rightarrow> SpeexCodec \<Rightarrow> byte list option list \<Rightarrow> int list option list option" where
  "speexDecodeAll al c [] = Some []"
| "speexDecodeAll al c (d # ds) = do {
     (out, c) \<leftarrow> speexDecode al c d;
     outs \<leftarrow> speexDecodeAll al c ds;
     Some (out # outs) }"

subsection \<open>The invariant of the codec\<close>

definition codecOk :: "int \<Rightarrow> SpeexCodec \<Rightarrow> bool" where
  "codecOk k c \<longleftrightarrow> decOk (sx_decodingState c) \<and> ds_count_lost (sx_decodingState c) \<le> k \<and> sb_readable (sx_decodingBits c) \<and>
     length (sx_decodingBuffer c) = 81920 \<and> list_all in16 (sx_decodingBuffer c) \<and> sx_decodingFrameSize c = 160"

lemma speex_decode_int_ok:
  assumes c: "codecOk k c" and k: "k < 2147483647" and idx: "idx + 160 \<le> 81920"
  shows "ok (\<lambda>(ret, c'). codecOk (k + 1) c' \<and> (\<not> present \<longrightarrow> ret = 0)) (speex_decode_int c present idx)"
proof -
  let ?buf = "sx_decodingBuffer c"
  have len: "length ?buf = 81920" and a: "list_all in16 ?buf" using c by (simp_all add: codecOk_def)
  have sl: "outOk (take 160 (drop idx ?buf))"
    using a idx len by (auto simp: outOk_def list_all_iff dest: in_set_takeD in_set_dropD)
  have ends: "list_all in16 (take idx ?buf)" "list_all in16 (drop (idx + 160) ?buf)"
    using a by (auto simp: list_all_iff dest: in_set_takeD in_set_dropD)
  have "ok (\<lambda>(ret, b', st', out'). bitsOk b' \<and> (b' = None \<longleftrightarrow> (if present then Some (sx_decodingBits c) else None) = None) \<and>
      decOk st' \<and> outOk out' \<and> ds_count_lost st' \<le> ds_count_lost (sx_decodingState c) + 1 \<and>
      ((if present then Some (sx_decodingBits c) else None) = None \<longrightarrow> ret = 0))
     (nb_decode (replicate 16 None) speex_default_user_handler (sx_decodingState c)
        (if present then Some (sx_decodingBits c) else None) (take 160 (drop idx ?buf)))"
    by (rule default_handlers.nb_decode_ok) (use c k sl in \<open>auto simp: codecOk_def bitsOk_def\<close>)
  then show ?thesis unfolding speex_decode_int_def Let_def
    using c idx len ends
    by (auto simp: codecOk_def bitsOk_def outOk_def elim!: ok_mono split: option.splits)
qed

lemma decodeSpeexBits_ok:
  assumes c: "codecOk k c" and k: "k + 1 < 2147483647"
  shows "ok (\<lambda>(n, c'). codecOk (k + 2) c' \<and> (if present then n \<in> {0, 160, 320} else n = 160)) (decodeSpeexBits 160 present 0 c)"
proof -
  have 2: "ok (\<lambda>(n, c'). codecOk (k + 2) c' \<and> n \<in> {160, 320}) (decodeSpeexBits 160 True 160 c')" if "codecOk (k + 1) c'" for c'
  proof (subst decodeSpeexBits.simps, rule ok_bindI [OF speex_decode_int_ok [OF that k]], simp, clarify)
    fix ret c2 assume "codecOk (k + 1 + 1) c2"
    then show "ok (\<lambda>(n, c'). codecOk (k + 2) c' \<and> n \<in> {160, 320})
        (if ret \<noteq> 0 then Some (160, c2)
         else if 160 + 160 + 160 > decodedFrameSizeInBytes then Some (160 + 160, c2)
         else if 160 + 160 + 160 > 160 * MAX_FRAMES then Some (160 + 160, c2)
         else if \<not> True then Some (160 + 160, c2) else if (160 :: nat) = 0 then None else decodeSpeexBits 160 True (160 + 160) c2)"
      by (simp add: decodedFrameSizeInBytes_def FRAME_SIZE_IN_SAMPLES_def add.assoc)
  qed
  have mono: "codecOk (k + 2) c'" if "codecOk (k + 1) c'" for c' using that by (auto simp: codecOk_def)
  show ?thesis
  proof (subst decodeSpeexBits.simps, rule ok_bindI [OF speex_decode_int_ok [OF c]], use k in simp, simp, clarify)
    fix ret c2 assume a: "codecOk (k + 1) c2" "\<not> present \<longrightarrow> ret = 0"
    show "ok (\<lambda>(n, c'). codecOk (k + 2) c' \<and> (if present then n \<in> {0, 160, 320} else n = 160))
        (if ret \<noteq> 0 then Some (0, c2)
         else if 0 + 160 + 160 > decodedFrameSizeInBytes then Some (0 + 160, c2)
         else if 0 + 160 + 160 > 160 * MAX_FRAMES then Some (0 + 160, c2)
         else if \<not> present then Some (0 + 160, c2) else if (160 :: nat) = 0 then None else decodeSpeexBits 160 present (0 + 160) c2)"
      using a mono [OF a(1)] 2 [OF a(1)]
      by (cases present) (auto simp: decodedFrameSizeInBytes_def FRAME_SIZE_IN_SAMPLES_def MAX_FRAMES_def elim!: ok_mono)
  qed
qed

text \<open>What a call hears of a packet: nothing at all of an empty one, a frame of concealment for one
  that is missing, at most two frames otherwise.\<close>

definition heardOf :: "byte list option \<Rightarrow> int list option \<Rightarrow> bool" where
  "heardOf data out = (case out of
       None \<Rightarrow> data = Some []
     | Some s \<Rightarrow> data \<noteq> Some [] \<and> list_all in16 s \<and> (if data = None then length s = 160 else length s \<in> {0, 160, 320}))"

lemma speexDecode_ok:
  assumes c: "codecOk k c" and k: "k + 1 < 2147483647"
  shows "ok (\<lambda>(out, c'). codecOk (k + 2) c' \<and> heardOf data out) (speexDecode al c data)"
proof (cases "data = Some []")
  case True
  then show ?thesis using c by (auto simp: speexDecode_def codecOk_def heardOf_def)
next
  case False
  have n: "(case data of Some d \<Rightarrow> length d | None \<Rightarrow> decodedFrameSizeInBytes) \<noteq> 0"
    using False by (auto simp: decodedFrameSizeInBytes_def FRAME_SIZE_IN_SAMPLES_def split: option.splits)
  have fs: "sx_decodingFrameSize c = 160" using c by (simp add: codecOk_def)
  have b: "ok sb_readable (case data of Some d \<Rightarrow> speex_bits_read_from al (sx_decodingBits c) d (length d) | None \<Rightarrow> Some (sx_decodingBits c))"
  proof (cases data)
    case (Some d)
    have "sb_bufSize (sx_decodingBits c) \<le> length (sb_chars (sx_decodingBits c))" using c by (simp add: codecOk_def sb_readable_def)
    from read_from_readable [OF this, of "length d" d al] show ?thesis by (auto simp: Some)
  qed (use c in \<open>simp add: codecOk_def\<close>)
  have d: "ok (\<lambda>(n, c'). codecOk (k + 2) c' \<and> (if data \<noteq> None then n \<in> {0, 160, 320} else n = 160))
      (decodeSpeexBits 160 (data \<noteq> None) 0 (c\<lparr>sx_decodingBits := bits\<rparr>))" if "sb_readable bits" for bits
    by (rule decodeSpeexBits_ok [OF _ k]) (use c that in \<open>simp add: codecOk_def\<close>)
  show ?thesis unfolding speexDecode_def Let_def fs
    apply (simp only: n if_False)
    apply (rule ok_bindI [OF b])
    apply (rule ok_bindI, erule d, clarify)
    using False by (auto simp: codecOk_def heardOf_def list_all_iff dest: in_set_takeD split: if_splits)
qed

lemma speexDecodeAll_ok:
  "codecOk k c \<Longrightarrow> k + 2 * int (length datas) < 2147483647 \<Longrightarrow> ok (list_all2 heardOf datas) (speexDecodeAll al c datas)"
proof (induction datas arbitrary: k c)
  case (Cons d ds)
  have k: "k + 1 < 2147483647" using Cons.prems(2) by simp
  show ?case unfolding speexDecodeAll.simps
  proof (rule ok_bindI [OF speexDecode_ok [OF Cons.prems(1) k]], clarify)
    fix out c' assume a: "codecOk (k + 2) c'" "heardOf d out"
    have "ok (list_all2 heardOf ds) (speexDecodeAll al c' ds)" by (rule Cons.IH [OF a(1)]) (use Cons.prems(2) in simp)
    then show "ok (list_all2 heardOf (d # ds)) (Option.bind (speexDecodeAll al c' ds) (\<lambda>outs. Some (out # outs)))"
      using a(2) by (auto elim!: ok_mono)
  qed
qed simp

lemma openSpeex_ok:
  assumes "alloc_ok al 2000" and "length buffer = 81920" and "list_all in16 buffer"
  shows "ok (codecOk 0) (openSpeex al buffer)"
proof -
  obtain b where b: "speex_bits_init al = Some b" "sb_readable b"
    using assms(1) by (simp add: speex_bits_init_def speex_bits_reset_def sb_readable_def sb_pos_def)
  have "decOk (nb_decoder_init nb_mode)" by (rule nb_decoder_init_ok)
  then show ?thesis using b assms(2,3)
    by (simp add: openSpeex_def codecOk_def dec_defs rd_def) (simp add: nb_decoder_init_def nb_mode_def)
qed

text \<open>C1: Whatever packets of whatever bytes arrive, and however many are missing, decoding them
  one after another from the opening of the codec never leaves an array, never divides by zero and
  always ends: an empty packet gives nothing, a missing one exactly 160 samples of concealment,
  any other no, one or two frames of 160 samples, all of them 16-bit values.\<close>

theorem speex_codec_decodes:
  assumes "alloc_ok al 2000" and "length buffer = 81920" and "list_all in16 buffer" and "length datas \<le> 1000000000"
  shows "\<exists>c outs. openSpeex al buffer = Some c \<and> speexDecodeAll al c datas = Some outs \<and> list_all2 heardOf datas outs"
proof -
  obtain c where c: "openSpeex al buffer = Some c" "codecOk 0 c" using okE [OF openSpeex_ok [OF assms(1-3)]] by blast
  have "ok (list_all2 heardOf datas) (speexDecodeAll al c datas)" by (rule speexDecodeAll_ok [OF c(2)]) (use assms(4) in simp)
  then show ?thesis using c by (auto dest: okE)
qed

theorem speex_codec_decodes_witness:
  "\<exists>c outs. openSpeex \<lparr>alloc_ok = \<lambda>_. True, alloc_fill = \<lambda>_. 0\<rparr> (replicate 81920 7) = Some c \<and>
     speexDecodeAll \<lparr>alloc_ok = \<lambda>_. True, alloc_fill = \<lambda>_. 0\<rparr> c [Some [0x1D, 255, 3], None, Some []] = Some outs \<and>
     list_all2 heardOf [Some [0x1D, 255, 3], None, Some []] outs"
  by (rule speex_codec_decodes) (simp_all add: list_all_iff in16_def)

end
