(* ===== verification/SpeexDecoderProps.thy ===== *)
theory SpeexDecoderProps
  imports SpeexDecoderCtl
begin

text \<open>
  What the decoder promises its callers, over its complete operations: safety for any sequence of
  frames and requests, the length of a frame, the fading of the concealment, and what goes wrong
  with a wide-band layer that carries nothing.
\<close>

subsection \<open>Sequences of frames and requests\<close>

datatype decEvent = Frame "speexBits option" | Request dec_request

text \<open>The outputs of the frames of a sequence, each decoded into an array of 160 samples.\<close>

fun decoderRun :: "DecState \<Rightarrow> decEvent list \<Rightarrow> int list list option" where
  "decoderRun st [] = Some []"
| "decoderRun st (Frame b # es) = do {
     (_, _, st, out) \<leftarrow> nb_decode (replicate 16 None) speex_default_user_handler st b (replicate 160 0);
     outs \<leftarrow> decoderRun st es;
     Some (out # outs) }"
| "decoderRun st (Request r # es) = do {
     (_, _, st) \<leftarrow> nb_decoder_ctl st r;
     decoderRun st es }"

fun eventOk :: "decEvent \<Rightarrow> bool" where
  "eventOk (Frame b) = bitsOk b"
| "eventOk (Request r) = requestOk r"

lemma decoderRun_ok:
  "decOk st \<Longrightarrow> list_all eventOk es \<Longrightarrow> ds_count_lost st + int (length es) < 2147483647 \<Longrightarrow>
   ok (list_all outOk) (decoderRun st es)"
proof (induction st es rule: decoderRun.induct)
  case (2 st b es)
  have c: "ds_count_lost st < 2147483647" using 2(4) by simp
  have out: "outOk (replicate 160 0)" by (simp add: outOk_def list_all_iff)
  have "ok (\<lambda>(ret, b', st', out'). bitsOk b' \<and> (b' = None \<longleftrightarrow> b = None) \<and> decOk st' \<and> outOk out' \<and>
      ds_count_lost st' \<le> ds_count_lost st + 1 \<and> (b = None \<longrightarrow> ret = 0))
     (nb_decode (replicate 16 None) speex_default_user_handler st b (replicate 160 0))"
    by (rule default_handlers.nb_decode_ok [OF 2(2) out _ c]) (use 2(3) in simp)
  then obtain ret b' st' out' where r: "nb_decode (replicate 16 None) speex_default_user_handler st b (replicate 160 0) = Some (ret, b', st', out')"
    "decOk st'" "outOk out'" "ds_count_lost st' \<le> ds_count_lost st + 1" by (auto dest: okE)
  have "ok (list_all outOk) (decoderRun st' es)"
    by (rule 2(1) [OF r(1) refl refl refl]) (use 2(3,4) r in auto)
  then show ?case using r by (auto elim!: ok_mono)
next
  case (3 st q es)
  have "ok (\<lambda>(_, _, st'). decOk st' \<and> ds_count_lost st' = ds_count_lost st) (nb_decoder_ctl st q)"
    by (rule nb_decoder_ctl_ok) (use 3 in auto)
  then obtain x y st' where r: "nb_decoder_ctl st q = Some (x, y, st')" "decOk st'" "ds_count_lost st' = ds_count_lost st"
    by (auto dest: okE)
  have "ok (list_all outOk) (decoderRun st' es)"
    by (rule 3(1) [OF r(1) refl refl]) (use 3(3,4) r in auto)
  then show ?case using r by simp
qed simp



subsection \<open>The length of a frame\<close>

text \<open>C9: A frame takes exactly the bits its sub-mode declares. When the stream has no wide-band layer
  at the cursor, names a sub-mode of the table and has as many bits as the table says the frame
  has, decoding succeeds and leaves the cursor that many bits further, whatever the bits are: the
  next frame of the packet starts where the encoder put it.\<close>

theorem frame_takes_its_bits:
  assumes st: "decOk st" "ds_encode_submode st \<noteq> 0" and out: "outOk out" and b: "sb_readable b" "\<not> sb_overflow b"
    and w: "speex_bits_unpack_unsigned b 1 = Some (0, b0)" and m: "speex_bits_unpack_unsigned b0 4 = Some (m, b1)"
    and sm: "unat m \<le> 8" "nm_submodes nb_mode ! unat m = Some sm" and len: "sb_pos b + nat (sm_bits_per_frame sm) \<le> sb_nbBits b"
  shows "\<exists>b' st' out'. nb_decode callbacks user st (Some b) out = Some (0, Some b', st', out') \<and>
    sb_pos b' = sb_pos b + nat (sm_bits_per_frame sm) \<and> \<not> sb_overflow b' \<and> decOk st' \<and> outOk out'"
proof -
  from submode_table [OF sm(2)] sm(1) have bpf: "5 \<le> sm_bits_per_frame sm" by (auto simp: submodeOk_def)
  have t1: "took 1 b b0" using unpack_took [OF b(1), of 1] w by simp
  have t5: "took 5 b b1" using unpack_after [OF t1, of 4] m by simp
  have rem: "\<not> speex_bits_remaining b < 5" "\<not> speex_bits_remaining b0 < 4"
    using t1 b len bpf by (auto simp: speex_bits_remaining_def took_def sb_pos_def split: if_splits)
  have hd: "frameHeader b = Some (Inr (unat m), b1)" using rem w m by (simp add: frameHeader_def)
  have find: "findFrame callbacks user b st = Some (Inr (unat m), b1, st)"
    using hd sm(1) by (subst findFrame.simps) (simp add: handleRequest_def)
  define s where "s = st\<lparr>ds_submodeID := int (unat m)\<rparr>"
  have s: "decOk s" using st sm(1) by (simp add: s_def dec_defs del: of_nat_unat)
  obtain s1 where s1: "shiftExc s = Some s1" "sameFrame s s1" using okE [OF shiftExc_ok [OF s]] by blast
  have "rdI (ds_submodes s1) (ds_submodeID s1) = Some (Some sm)"
    using s1(2) sm by (auto simp: sameFrame_def dec_defs s_def nb_mode_def)
  moreover have "ok (\<lambda>(b', st', out'). took (nat (sm_bits_per_frame sm) - 5) b1 b' \<and> decOk st' \<and> outOk out' \<and> ds_count_lost st' = 0)
      (codedFrame sm b1 s1 out)"
    by (rule codedFrame_table [OF sm(2)]) (use sm s1 out took_readable [OF t5] in \<open>auto simp: sameFrame_def s_def\<close>)
  then obtain b' st' out' where c: "codedFrame sm b1 s1 out = Some (b', st', out')" "took (nat (sm_bits_per_frame sm) - 5) b1 b'"
    "decOk st'" "outOk out'" by (auto dest: okE)
  moreover have "took (nat (sm_bits_per_frame sm)) b b'" using took_trans [OF t5 c(2)] bpf by simp
  ultimately show ?thesis using s1 find st(2) b(2) len
    by (auto simp: nb_decode_def decodeFrame_def s_def took_def)
qed

text \<open>A frame of sub-mode 1, 43 bits in six bytes.\<close>

theorem frame_takes_its_bits_witness:
  "\<exists>b' st' out'. nb_decode (replicate 16 None) speex_default_user_handler (nb_decoder_init nb_mode)
      (Some (speex_bits_set_bit_buffer [8, 1, 2, 3, 4, 5] 6)) (replicate 160 0) = Some (0, Some b', st', out') \<and>
    sb_pos b' = sb_pos (speex_bits_set_bit_buffer [8, 1, 2, 3, 4, 5] 6) + nat (sm_bits_per_frame nb_submode1) \<and>
    \<not> sb_overflow b' \<and> decOk st' \<and> outOk out'"
proof (rule frame_takes_its_bits [where m = 1])
  show "decOk (nb_decoder_init nb_mode)" by (rule nb_decoder_init_ok)
  show "nm_submodes nb_mode ! unat (1 :: u32) = Some nb_submode1" by (simp add: nb_mode_def)
  show "speex_bits_unpack_unsigned (speex_bits_set_bit_buffer [8, 1, 2, 3, 4, 5] 6) 1 =
      Some (0, (speex_bits_set_bit_buffer [8, 1, 2, 3, 4, 5] 6)\<lparr>sb_bitPtr := 1\<rparr>)" by code_simp
  show "speex_bits_unpack_unsigned ((speex_bits_set_bit_buffer [8, 1, 2, 3, 4, 5] 6)\<lparr>sb_bitPtr := 1\<rparr>) 4 =
      Some (1, (speex_bits_set_bit_buffer [8, 1, 2, 3, 4, 5] 6)\<lparr>sb_bitPtr := 5\<rparr>)" by code_simp
qed (simp_all add: outOk_def list_all_iff speex_bits_set_bit_buffer_def sb_readable_def sb_pos_def nb_decoder_init_def nb_submode1_def)

subsection \<open>Concealment\<close>

lemma speex_rand_0: "fst (speex_rand 0 seed) = 0"
  by (simp add: speex_rand_def Let_def MULT16_16_def SUB32_def PSHR32_def SHR32_def EXTRACT16_def s16_id s32_id)

lemma lostExc_silent:
  assumes st: "decOk st" and v: "17 \<le> v" "v \<le> 144"
  shows "ok (\<lambda>(e, _). length e = 500 \<and> (\<forall>i < 160. e ! (334 + i) = 0)) (lostExc 0 0 v seed st)"
proof -
  have n: "ds_exc st = 334" "ds_frameSize st = 160" "length (ds_excBuf st) = 500" using st by (simp_all add: dec_defs)
  show ?thesis unfolding lostExc_def n
  proof (rule ok_foldO_upt [where I = "\<lambda>k (e, _). length e = 500 \<and> (\<forall>i < k. e ! (334 + i) = 0)"], goal_cases)
    case (3 k s)
    obtain e d where s: "s = (e, d)" by (cases s)
    obtain d' where r: "speex_rand 0 d = (0, d')" using speex_rand_0 [of d] by (cases "speex_rand 0 d") simp
    have "nat (334 + int k) = 334 + k" by simp
    then show ?case using 3 v unfolding s
      by (auto simp: r MULT16_16_Q15_def MULT16_16_def SHR_def s16_id s32_id nth_list_update less_Suc_eq)
  qed (simp_all add: n)
qed




subsection \<open>A wide-band layer that carries nothing\<close>

definition sameBuffer :: "speexBits \<Rightarrow> speexBits \<Rightarrow> bool" where
  "sameBuffer a b \<longleftrightarrow> sb_chars b = sb_chars a \<and> sb_nbBits b = sb_nbBits a \<and> sb_owner b = sb_owner a \<and> sb_bufSize b = sb_bufSize a"

lemma unpack_buffer: "speex_bits_unpack_unsigned b n = Some (d, b') \<Longrightarrow> sameBuffer b b'"
  by (auto simp: speex_bits_unpack_unsigned_def Let_def sameBuffer_def split: if_splits Option.bind_splits)

text \<open>Moving back to where the cursor was.\<close>

lemma advance_back:
  assumes "sb_readable b" and "\<not> sb_overflow b" and "took n b b1" and "\<not> sb_overflow b1"
    and "sameBuffer b b1"
  shows "speex_bits_advance b1 (- int n) = Some b"
proof -
  define c k where "c = sb_charPtr b1" and "k = sb_bitPtr b1"
  have p: "8 * c + k = 8 * sb_charPtr b + sb_bitPtr b + n" "k < 8" "sb_bitPtr b < 8" "8 * c + k \<le> sb_nbBits b"
    using assms by (auto simp: took_def sb_pos_def sb_readable_def c_def k_def split: if_splits)
  have e: "int k - int n = int (sb_bitPtr b) + 8 * (int (sb_charPtr b) - int c)" using arg_cong [OF p(1), of int] by simp
  have g: "(x + 8 * y) div 8 = y \<and> (x + 8 * y) mod 8 = x" if "0 \<le> x" "x < 8" for x y :: int using that by simp
  have "0 \<le> int (sb_bitPtr b)" "int (sb_bitPtr b) < 8" using p(3) by simp_all
  from g [OF this, of "int (sb_charPtr b) - int c", folded e]
  have "(int k - int n) div 8 = int (sb_charPtr b) - int c" "(int k - int n) mod 8 = int (sb_bitPtr b)" by blast+
  moreover have "\<not> (int (c * 8 + k) + - int n > int (sb_nbBits b1) \<or> sb_overflow b1)"
    using p assms(4,5) by (simp add: sameBuffer_def)
  ultimately have "speex_bits_advance b1 (- int n) = Some (b1\<lparr>sb_charPtr := sb_charPtr b, sb_bitPtr := sb_bitPtr b\<rparr>)"
    by (simp add: speex_bits_advance_def Let_def c_def k_def)
  also have "b1\<lparr>sb_charPtr := sb_charPtr b, sb_bitPtr := sb_bitPtr b\<rparr> = b"
    by (rule speexBits.equality) (use assms(2,4,5) in \<open>simp_all add: sameBuffer_def\<close>)
  finally show ?thesis .
qed

text \<open>C38: A frame of the wide-band codec whose upper layer is empty is rejected. Where the stream has
  the four bits 1000 of a layer of the null sub-mode at the cursor, the search for the narrow-band
  frame skips minus four bits instead of none, meets the same layer twice more and ends with the
  error of a stream with more than two layers.\<close>

theorem null_layer_is_error:
  assumes b: "sb_readable b" "\<not> sb_overflow b" "sb_pos b + 5 \<le> sb_nbBits b" and e: "ds_encode_submode st \<noteq> 0"
    and w: "speex_bits_unpack_unsigned b 1 = Some (1, b0)" and m: "speex_bits_unpack_unsigned b0 SB_SUBMODE_BITS = Some (0, b1)"
  shows "\<exists>b'. nb_decode callbacks user st (Some b) out = Some (-2, Some b', st, out)"
proof -
  have t1: "took 1 b b0" using unpack_took [OF b(1), of 1] w by simp
  have t4: "took 4 b b1" using unpack_after [OF t1, of 3] m by (simp add: SB_SUBMODE_BITS_def)
  have o: "\<not> sb_overflow b0" "\<not> sb_overflow b1" using t1 t4 b by (auto simp: took_def split: if_splits)
  have "sameBuffer b b1" using unpack_buffer [OF w] unpack_buffer [OF m] by (simp add: sameBuffer_def)
  from advance_back [OF b(1,2) t4 o(2) this] have adv: "speex_bits_advance b1 (- 4) = Some b" by simp
  have rem: "\<not> speex_bits_remaining b < 5" using b by (simp add: speex_bits_remaining_def sb_pos_def)
  have skip: "skipLayer b0 = Some (Inr (), b)"
    using m adv by (simp add: skipLayer_def wb_skip_table_def SB_SUBMODE_BITS_def)
  have "frameHeader b = Some (Inl (- 2), b0)" using rem w skip by (simp add: frameHeader_def skipWideband_def)
  then have "findFrame callbacks user b st = Some (Inl (- 2), b0, st)" by (subst findFrame.simps) simp
  then show ?thesis using e by (simp add: nb_decode_def)
qed

theorem null_layer_is_error_witness:
  "\<exists>b'. nb_decode (replicate 16 None) speex_default_user_handler (nb_decoder_init nb_mode)
      (Some (speex_bits_set_bit_buffer [0x88, 1, 2] 3)) (replicate 160 0) = Some (-2, Some b', nb_decoder_init nb_mode, replicate 160 0)"
proof (rule null_layer_is_error)
  show "speex_bits_unpack_unsigned (speex_bits_set_bit_buffer [0x88, 1, 2] 3) 1 =
      Some (1, (speex_bits_set_bit_buffer [0x88, 1, 2] 3)\<lparr>sb_bitPtr := 1\<rparr>)" by code_simp
  show "speex_bits_unpack_unsigned ((speex_bits_set_bit_buffer [0x88, 1, 2] 3)\<lparr>sb_bitPtr := 1\<rparr>) SB_SUBMODE_BITS =
      Some (0, (speex_bits_set_bit_buffer [0x88, 1, 2] 3)\<lparr>sb_bitPtr := 4\<rparr>)" by code_simp
qed (simp_all add: speex_bits_set_bit_buffer_def sb_readable_def sb_pos_def nb_decoder_init_def)

end
