(* ===== verification/CallController.thy ===== *)
theory CallController
  imports Prelude
begin

text \<open>
  The record of a call's progress and of how it ended
  (\<open>Signal/src/phone/callstate/CallController.m\<close>, with \<open>CallProgress\<close>, \<open>CallTermination\<close> and the
  sealing of \<open>ObservableValue.m\<close>). A future is \<open>None\<close> while it is pending, \<open>Some (Inl f)\<close> once it
  failed with \<open>f\<close> and \<open>Some (Inr x)\<close> once it has the result \<open>x\<close>. Watchers, the background task
  and the names shown to the user are left out.
\<close>

subsection \<open>Progress and termination\<close>

datatype callProgressType =
    CallProgressType_Connecting
  | CallProgressType_Ringing
  | CallProgressType_Securing
  | CallProgressType_Talking
  | CallProgressType_Terminated

text \<open>The position of a constant in its enumeration, by which the code compares progress.\<close>

primrec progressIndex :: "callProgressType \<Rightarrow> nat" where
  "progressIndex CallProgressType_Connecting = 0"
| "progressIndex CallProgressType_Ringing = 1"
| "progressIndex CallProgressType_Securing = 2"
| "progressIndex CallProgressType_Talking = 3"
| "progressIndex CallProgressType_Terminated = 4"

lemma progressIndex_inj: "progressIndex a = progressIndex b \<Longrightarrow> a = b"
  by (cases a; cases b) simp_all

instantiation callProgressType :: linorder
begin

definition less_eq_callProgressType :: "callProgressType \<Rightarrow> callProgressType \<Rightarrow> bool" where
  "a \<le> b \<longleftrightarrow> progressIndex a \<le> progressIndex b"

definition less_callProgressType :: "callProgressType \<Rightarrow> callProgressType \<Rightarrow> bool" where
  "a < b \<longleftrightarrow> progressIndex a < progressIndex b"

instance
  by intro_classes (auto simp: less_eq_callProgressType_def less_callProgressType_def intro: progressIndex_inj)

end

lemmas progress_order = less_eq_callProgressType_def less_callProgressType_def

lemma Terminated_top [simp]: "t \<le> CallProgressType_Terminated" "\<not> CallProgressType_Terminated < t"
  by (cases t; simp add: progress_order)+

datatype callTerminationType =
    CallTerminationType_LoginFailed
  | CallTerminationType_NoSuchUser
  | CallTerminationType_StaleSession
  | CallTerminationType_ServerMessage
  | CallTerminationType_ResponderIsBusy
  | CallTerminationType_RecipientUnavailable
  | CallTerminationType_RejectedLocal
  | CallTerminationType_RejectedRemote
  | CallTerminationType_HandshakeFailed
  | CallTerminationType_InvalidRemotePublicKey
  | CallTerminationType_HangupLocal
  | CallTerminationType_HangupRemote
  | CallTerminationType_ReplacedByNext
  | CallTerminationType_BadInteractionWithServer
  | CallTerminationType_UncategorizedFailure
  | CallTerminationType_BackgroundTimeExpired

text \<open>What is passed on as the failure: an exception, or one of the two failures of a handshake.\<close>

datatype failureInfo = FailedWith exn | NegotiationFailed string | RecipientUnavailable

record callTermination =
  ct_type :: callTerminationType
  ct_failure :: "failureInfo option"

subsection \<open>The controller\<close>

record callController =
  cc_progress :: callProgressType
  cc_sealed :: bool
  cc_termination :: "callTermination option"
  cc_shortAuthenticationString :: "(callTermination + string) option"
  cc_interactiveCallAcceptedOrDenied :: "(callTermination + bool) option"
  cc_cancelled :: bool
  cc_initiatedLocally :: bool

definition callControllerForCall :: "bool \<Rightarrow> callController" where
  "callControllerForCall initiatedLocally = \<lparr>cc_progress = CallProgressType_Connecting, cc_sealed = False,
     cc_termination = None, cc_shortAuthenticationString = None, cc_interactiveCallAcceptedOrDenied = None,
     cc_cancelled = False, cc_initiatedLocally = initiatedLocally\<rparr>"

text \<open>A future keeps the first result it is given.\<close>

fun trySet :: "'a \<Rightarrow> 'a option \<Rightarrow> 'a option" where
  "trySet x None = Some x"
| "trySet x (Some y) = Some y"

text \<open>
  Adjusting the progress: the value stays when the new type is smaller; otherwise a new object
  replaces it, which a sealed value refuses.
\<close>

definition unrestrictedAdvanceCallProgressTo :: "callProgressType \<Rightarrow> callController \<Rightarrow> unit result \<times> callController" where
  "unrestrictedAdvanceCallProgressTo t s =
     (if t < cc_progress s then (Inr (), s)
      else if cc_sealed s then (Inl BadState, s)
      else (Inr (), s\<lparr>cc_progress := t\<rparr>))"

definition advanceCallProgressTo :: "callProgressType \<Rightarrow> callController \<Rightarrow> unit result \<times> callController" where
  "advanceCallProgressTo t s =
     (if t < CallProgressType_Talking then unrestrictedAdvanceCallProgressTo t s else (Inl BadArgument, s))"

definition terminateWithReason ::
  "callTerminationType \<Rightarrow> failureInfo option \<Rightarrow> callController \<Rightarrow> unit result \<times> callController" where
  "terminateWithReason reason failure s =
     (let t = \<lparr>ct_type = reason, ct_failure = failure\<rparr>
      in if cc_termination s \<noteq> None then (Inr (), s)
         else
           (let s = s\<lparr>cc_termination := Some t\<rparr>;
                (r, s) = unrestrictedAdvanceCallProgressTo CallProgressType_Terminated s
            in case r of Inl e \<Rightarrow> (Inl e, s)
               | Inr _ \<Rightarrow> (Inr (), s\<lparr>
                   cc_interactiveCallAcceptedOrDenied := trySet (Inl t) (cc_interactiveCallAcceptedOrDenied s),
                   cc_cancelled := True,
                   cc_shortAuthenticationString := trySet (Inl t) (cc_shortAuthenticationString s),
                   cc_sealed := True\<rparr>)))"

definition terminateWithRejectionOrRemoteHangup :: "failureInfo option \<Rightarrow> callController \<Rightarrow> unit result \<times> callController" where
  "terminateWithRejectionOrRemoteHangup failure s =
     (let hasAcceptedAlready = cc_progress s > CallProgressType_Ringing
      in terminateWithReason (if hasAcceptedAlready then CallTerminationType_HangupRemote
           else CallTerminationType_RejectedRemote) failure s)"

definition backgroundTimeExpired :: "callController \<Rightarrow> unit result \<times> callController" where
  "backgroundTimeExpired s = terminateWithReason CallTerminationType_BackgroundTimeExpired None s"

definition hangupOrDenyCall :: "callController \<Rightarrow> unit result \<times> callController" where
  "hangupOrDenyCall s =
     (let didDeny = (cc_interactiveCallAcceptedOrDenied s = None);
          s = s\<lparr>cc_interactiveCallAcceptedOrDenied := trySet (Inr False) (cc_interactiveCallAcceptedOrDenied s)\<rparr>
      in terminateWithReason (if didDeny then CallTerminationType_RejectedLocal
           else CallTerminationType_HangupLocal) None s)"

definition acceptCall :: "callController \<Rightarrow> callController" where
  "acceptCall s =
     s\<lparr>cc_interactiveCallAcceptedOrDenied := trySet (Inr True) (cc_interactiveCallAcceptedOrDenied s)\<rparr>"

text \<open>A failed acceptance stays failed; a denial becomes a termination.\<close>

definition interactiveCallAccepted :: "callController \<Rightarrow> (callTermination + bool) option" where
  "interactiveCallAccepted s =
     (case cc_interactiveCallAcceptedOrDenied s of
        Some (Inr False) \<Rightarrow> Some (Inl \<lparr>ct_type = CallTerminationType_RejectedLocal, ct_failure = None\<rparr>)
      | r \<Rightarrow> r)"

definition advanceCallProgressToConversing :: "string \<Rightarrow> callController \<Rightarrow> unit result \<times> callController" where
  "advanceCallProgressToConversing sas s =
     unrestrictedAdvanceCallProgressTo CallProgressType_Talking
       (s\<lparr>cc_shortAuthenticationString := trySet (Inr sas) (cc_shortAuthenticationString s)\<rparr>)"

text \<open>The error handler that the components of a call report to.\<close>

definition callErrorHandler :: "callTermination + failureInfo \<Rightarrow> bool \<Rightarrow> callController \<Rightarrow> unit result \<times> callController" where
  "callErrorHandler e causedTermination s =
     (if \<not> causedTermination then (Inr (), s)
      else case e of Inl t \<Rightarrow> terminateWithReason (ct_type t) (ct_failure t) s
           | Inr f \<Rightarrow> terminateWithReason CallTerminationType_UncategorizedFailure (Some f) s)"

subsection \<open>Histories\<close>

datatype callEvent =
    Advance callProgressType
  | Terminate callTerminationType "failureInfo option"
  | RejectionOrRemoteHangup "failureInfo option"
  | BackgroundTimeExpired
  | HangupOrDeny
  | Accept
  | Converse string
  | ReportError "callTermination + failureInfo" bool

fun callStep :: "callController \<Rightarrow> callEvent \<Rightarrow> unit result \<times> callController" where
  "callStep s (Advance t) = advanceCallProgressTo t s"
| "callStep s (Terminate r f) = terminateWithReason r f s"
| "callStep s (RejectionOrRemoteHangup f) = terminateWithRejectionOrRemoteHangup f s"
| "callStep s BackgroundTimeExpired = backgroundTimeExpired s"
| "callStep s HangupOrDeny = hangupOrDenyCall s"
| "callStep s Accept = (Inr (), acceptCall s)"
| "callStep s (Converse sas) = advanceCallProgressToConversing sas s"
| "callStep s (ReportError e c) = callErrorHandler e c s"

definition callRun :: "callController \<Rightarrow> callEvent list \<Rightarrow> callController" where
  "callRun = foldl (\<lambda>s e. snd (callStep s e))"

subsection \<open>Invariant\<close>

text \<open>
  The four marks of an ended call agree: the termination, the last progress type, the seal and
  the cancelled token; and by then no future of the call is pending.
\<close>

definition cc_wf :: "callController \<Rightarrow> bool" where
  "cc_wf s \<longleftrightarrow>
     (cc_termination s \<noteq> None) = (cc_progress s = CallProgressType_Terminated) \<and>
     cc_sealed s = (cc_termination s \<noteq> None) \<and> cc_cancelled s = (cc_termination s \<noteq> None) \<and>
     (cc_termination s \<noteq> None \<longrightarrow>
        cc_shortAuthenticationString s \<noteq> None \<and> cc_interactiveCallAcceptedOrDenied s \<noteq> None)"

text \<open>What a step may change: progress only grows, and what is settled stays.\<close>

definition cc_follows :: "callController \<Rightarrow> callController \<Rightarrow> bool" where
  "cc_follows s s' \<longleftrightarrow>
     cc_progress s \<le> cc_progress s' \<and>
     (\<forall>x. cc_termination s = Some x \<longrightarrow> cc_termination s' = Some x) \<and>
     (\<forall>x. cc_shortAuthenticationString s = Some x \<longrightarrow> cc_shortAuthenticationString s' = Some x) \<and>
     (\<forall>x. cc_interactiveCallAcceptedOrDenied s = Some x \<longrightarrow> cc_interactiveCallAcceptedOrDenied s' = Some x)"

lemma cc_wf_new [simp]: "cc_wf (callControllerForCall b)"
  by (simp add: cc_wf_def callControllerForCall_def)

lemma cc_follows_refl [simp]: "cc_follows s s"
  by (simp add: cc_follows_def)

lemma cc_follows_trans: "cc_follows s t \<Longrightarrow> cc_follows t u \<Longrightarrow> cc_follows s u"
  unfolding cc_follows_def by (meson order_trans)

lemma trySet_keeps [simp]: "trySet x y \<noteq> None" "y = Some z \<Longrightarrow> trySet x y = Some z"
  by (cases y; simp)+

text \<open>Every operation is well-behaved in this sense: the invariant, no exception, and a successor.\<close>

definition cc_good :: "callController \<Rightarrow> unit result \<times> callController \<Rightarrow> bool" where
  "cc_good s rs \<longleftrightarrow> fst rs = Inr () \<and> cc_wf (snd rs) \<and> cc_follows s (snd rs)"

lemma unrestricted_good:
  assumes "cc_wf s" and "t < CallProgressType_Terminated"
  shows "cc_good s (unrestrictedAdvanceCallProgressTo t s)"
  using assms by (auto simp: cc_good_def unrestrictedAdvanceCallProgressTo_def cc_wf_def cc_follows_def)

definition cc_ended :: "callTermination \<Rightarrow> callController \<Rightarrow> callController" where
  "cc_ended t s = s\<lparr>cc_termination := Some t, cc_progress := CallProgressType_Terminated,
     cc_interactiveCallAcceptedOrDenied := trySet (Inl t) (cc_interactiveCallAcceptedOrDenied s),
     cc_cancelled := True, cc_shortAuthenticationString := trySet (Inl t) (cc_shortAuthenticationString s),
     cc_sealed := True\<rparr>"

lemma terminate_eq:
  "cc_wf s \<Longrightarrow> terminateWithReason r f s =
     (Inr (), if cc_termination s = None then cc_ended \<lparr>ct_type = r, ct_failure = f\<rparr> s else s)"
  unfolding terminateWithReason_def unrestrictedAdvanceCallProgressTo_def Let_def cc_ended_def cc_wf_def
  by (cases "cc_termination s") simp_all

lemma cc_ended_good: "cc_termination s = None \<Longrightarrow> cc_wf (cc_ended t s) \<and> cc_follows s (cc_ended t s)"
  unfolding cc_wf_def cc_follows_def cc_ended_def by simp

lemma terminate_good: "cc_wf s \<Longrightarrow> cc_good s (terminateWithReason r f s)"
  by (simp add: terminate_eq cc_good_def cc_ended_good)

lemma terminate_sets: "cc_wf s \<Longrightarrow> cc_termination (snd (terminateWithReason r f s)) \<noteq> None"
  by (simp add: terminate_eq cc_ended_def)

lemma below_Terminated: "t < CallProgressType_Talking \<Longrightarrow> t < CallProgressType_Terminated"
  "CallProgressType_Talking < CallProgressType_Terminated"
  by (cases t; simp add: progress_order)+

text \<open>Settling a future first, as two operations do.\<close>

lemma settle_accepted_good:
  "cc_wf s \<Longrightarrow> cc_wf (s\<lparr>cc_interactiveCallAcceptedOrDenied := trySet x (cc_interactiveCallAcceptedOrDenied s)\<rparr>) \<and>
     cc_follows s (s\<lparr>cc_interactiveCallAcceptedOrDenied := trySet x (cc_interactiveCallAcceptedOrDenied s)\<rparr>)"
  by (auto simp: cc_wf_def cc_follows_def)

lemma settle_sas_good:
  "cc_wf s \<Longrightarrow> cc_wf (s\<lparr>cc_shortAuthenticationString := trySet x (cc_shortAuthenticationString s)\<rparr>) \<and>
     cc_follows s (s\<lparr>cc_shortAuthenticationString := trySet x (cc_shortAuthenticationString s)\<rparr>)"
  by (auto simp: cc_wf_def cc_follows_def)

lemma cc_good_after: "cc_follows s t \<Longrightarrow> cc_good t rs \<Longrightarrow> cc_good s rs"
  by (auto simp: cc_good_def intro: cc_follows_trans)

fun admissible :: "callEvent \<Rightarrow> bool" where
  "admissible (Advance t) = (t < CallProgressType_Talking)"
| "admissible _ = True"

lemma callStep_good: "cc_wf s \<Longrightarrow> admissible e \<Longrightarrow> cc_good s (callStep s e)"
proof (induction e)
  case (Advance t)
  then show ?case by (simp add: advanceCallProgressTo_def unrestricted_good below_Terminated)
next
  case HangupOrDeny
  then show ?case
    using settle_accepted_good cc_good_after terminate_good
    unfolding callStep.simps hangupOrDenyCall_def Let_def by blast
next
  case (Converse sas)
  then show ?case
    using settle_sas_good cc_good_after unrestricted_good below_Terminated(2)
    unfolding callStep.simps advanceCallProgressToConversing_def by blast
next
  case Accept
  then show ?case using settle_accepted_good by (simp add: acceptCall_def cc_good_def)
next
  case (ReportError e c)
  then show ?case by (cases e; cases c) (simp_all add: callErrorHandler_def terminate_good cc_good_def [of s "(Inr (), s)"])
qed (simp_all add: terminate_good terminateWithRejectionOrRemoteHangup_def backgroundTimeExpired_def Let_def)

lemma callStep_inadmissible:
  "\<not> admissible e \<Longrightarrow> callStep s e = (Inl BadArgument, s)"
  by (cases e) (simp_all add: advanceCallProgressTo_def)

lemma callStep_keeps: "cc_wf s \<Longrightarrow> cc_wf (snd (callStep s e)) \<and> cc_follows s (snd (callStep s e))"
  using callStep_good [of s e] callStep_inadmissible [of e s] by (cases "admissible e") (auto simp: cc_good_def)

lemma callRun_keeps: "cc_wf s \<Longrightarrow> cc_wf (callRun s es) \<and> cc_follows s (callRun s es)"
proof (induction es rule: rev_induct)
  case (snoc e es)
  then show ?case
    using callStep_keeps [of "callRun s es" e] cc_follows_trans by (auto simp: callRun_def)
qed (simp add: callRun_def)

subsection \<open>Properties\<close>

text \<open>C27: Over any history of a call (progress, acceptance, hanging up, errors, time running out, in
  any order) the controller stays consistent: its progress never goes back, the first reason for
  ending and the first answer of each future stay, the call is marked as ended in all its marks or
  in none, and no operation raises an exception except an advance to a stage that is not a setup
  stage, which changes nothing.\<close>

theorem call_progress_consistent:
  "let s = callRun (callControllerForCall b) es; (r, s') = callStep s e
   in cc_wf s \<and> cc_wf s' \<and> cc_follows s s' \<and> (if admissible e then r = Inr () else r = Inl BadArgument \<and> s' = s)"
proof -
  let ?s = "callRun (callControllerForCall b) es"
  have wf: "cc_wf ?s" using callRun_keeps [OF cc_wf_new] by blast
  show ?thesis
    using wf callStep_good [OF wf, of e] callStep_inadmissible [of e ?s]
    by (auto simp: Let_def cc_good_def split: prod.splits)
qed

end
