(* ===== verification/ZrtpRoles.thy ===== *)
theory ZrtpRoles
  imports MasterSecret Srtp CallController
begin

text \<open>
  The two roles of the ZRTP handshake (\<open>Signal/src/network/rtp/zrtp/ZrtpInitiator.m\<close> and
  \<open>ZrtpResponder.m\<close>): what each expects next, how it handles a packet, and the packet it replies
  with. The cryptographic primitives and the device (its identification, its key agreement
  protocols in order of preference, the generator of participants with new keys) are records of
  functions. A field that is nil is \<open>None\<close>; a handler that needs a nil field fails its argument
  check. An exception leaves the assignments made before it in place.
\<close>

subsection \<open>Environment\<close>

record zrtpCrypto =
  zc_sha256 :: "data \<Rightarrow> data"
  zc_hmac :: "data \<Rightarrow> data \<Rightarrow> data"
  zc_aesEncrypt :: "data \<Rightarrow> data \<Rightarrow> data \<Rightarrow> data"
  zc_aesDecrypt :: "data \<Rightarrow> data \<Rightarrow> data \<Rightarrow> data"
  zc_aesCtrDecrypt :: "data \<Rightarrow> data \<Rightarrow> data \<Rightarrow> data"
  zc_hmacSha1 :: "data \<Rightarrow> data \<Rightarrow> data"

record keyAgreementParticipant =
  ka_protocolId :: data
  ka_publicKeyData :: data
  ka_calculate :: "data \<Rightarrow> data result"

text \<open>The generator takes the protocol and the number of participants generated before.\<close>

record zrtpDevice =
  zd_versionId :: data
  zd_clientId :: data
  zd_protocolIds :: "data list"
  zd_generate :: "data \<Rightarrow> nat \<Rightarrow> keyAgreementParticipant result"
  zd_loseConfAck :: bool

datatype packetExpectation = EXPECTING_HELLO | EXPECTING_COMMIT | EXPECTING_HELLO_ACK | EXPECTING_DH |
  EXPECTING_CONFIRM | EXPECTING_CONFIRM_ACK | EXPECTING_NOTHING

definition nullZid :: data where
  "nullZid = replicate 12 0"

text \<open>A step that may raise: an exception stops the handler in the state reached so far.\<close>

definition attempt :: "'a result \<Rightarrow> 's \<Rightarrow> ('a \<Rightarrow> 'r result \<times> 's) \<Rightarrow> 'r result \<times> 's" where
  "attempt m s k = (case m of Inl e \<Rightarrow> (Inl e, s) | Inr x \<Rightarrow> k x)"

definition needed :: "'a option \<Rightarrow> 'a result" where
  "needed x = (case x of None \<Rightarrow> Inl BadArgument | Some y \<Rightarrow> Inr y)"

subsection \<open>The initiator\<close>

record zrtpInitiator =
  zi_packetExpectation :: packetExpectation
  zi_hashChain :: hashChain
  zi_dhSharedSecretHashes :: dhPacketSharedSecretHashes
  zi_zid :: data
  zi_confirmIv :: data
  zi_foreignHello :: "helloPacket option"
  zi_localHello :: "helloPacket option"
  zi_participant :: "keyAgreementParticipant option"
  zi_localDH :: "dhPacket option"
  zi_foreignDH :: "dhPacket option"
  zi_commitPacket :: "commitPacket option"
  zi_masterSecret :: "masterSecret option"
  zi_generated :: nat
  zi_callController :: callController
  zi_badPackets :: nat

definition zrtpInitiatorNew :: "hashChain \<Rightarrow> dhPacketSharedSecretHashes \<Rightarrow> data \<Rightarrow> callController \<Rightarrow> zrtpInitiator" where
  "zrtpInitiatorNew chain ssh iv controller = \<lparr>zi_packetExpectation = EXPECTING_HELLO, zi_hashChain = chain,
     zi_dhSharedSecretHashes = ssh, zi_zid = nullZid, zi_confirmIv = iv, zi_foreignHello = None, zi_localHello = None,
     zi_participant = None, zi_localDH = None, zi_foreignDH = None, zi_commitPacket = None, zi_masterSecret = None,
     zi_generated = 0, zi_callController = controller, zi_badPackets = 0\<rparr>"

definition zi_hasHandshakeFinishedSuccessfully :: "zrtpInitiator \<Rightarrow> bool" where
  "zi_hasHandshakeFinishedSuccessfully s \<longleftrightarrow> zi_packetExpectation s = EXPECTING_NOTHING"

definition zi_initialPacket :: "zrtpInitiator \<Rightarrow> handshakePacket option result \<times> zrtpInitiator" where
  "zi_initialPacket s = (Inr None, s)"

definition zi_getMasterSecret :: "zrtpInitiator \<Rightarrow> masterSecret result" where
  "zi_getMasterSecret s = requireState (zi_hasHandshakeFinishedSuccessfully s) (needed (zi_masterSecret s))"

definition zi_retrieveKeyAgreementParticipant :: "zrtpDevice \<Rightarrow> zrtpInitiator \<Rightarrow> keyAgreementParticipant result" where
  "zi_retrieveKeyAgreementParticipant d s =
     bindR (needed (zi_foreignHello s)) (\<lambda>hello.
     case List.find (\<lambda>i. i \<in> set (agreeIdsIncludingImplied hello)) (zd_protocolIds d) of
       None \<Rightarrow> Inl OperationFailed
     | Some i \<Rightarrow> zd_generate d i (zi_generated s))"

definition zi_handleHello :: "zrtpCrypto \<Rightarrow> zrtpDevice \<Rightarrow> zrtpInitiator \<Rightarrow> handshakePacket \<Rightarrow>
    handshakePacket option result \<times> zrtpInitiator" where
  "zi_handleHello c d s packet =
     attempt (helloPacketParsedFromHandshakePacket packet) s (\<lambda>foreignHello.
     let s = s\<lparr>zi_foreignHello := Some foreignHello\<rparr>;
         (r, cc) = advanceCallProgressTo CallProgressType_Securing (zi_callController s);
         s = s\<lparr>zi_callController := cc\<rparr>
     in attempt r s (\<lambda>_. attempt (zi_retrieveKeyAgreementParticipant d s) s (\<lambda>participant.
     let s = s\<lparr>zi_participant := Some participant, zi_generated := zi_generated s + 1\<rparr>
     in attempt (helloPacketWithDefaults (zc_hmac c) (zd_versionId d) (zd_clientId d) (zi_hashChain s) (zi_zid s)
          (zd_protocolIds d)) s (\<lambda>localHello.
       (Inr (Some (hello_embedding localHello)),
        s\<lparr>zi_localHello := Some localHello, zi_packetExpectation := EXPECTING_HELLO_ACK\<rparr>)))))"

text \<open>The participant is retrieved once more here and dropped; its keys are generated in vain.\<close>

definition zi_handleHelloAck :: "zrtpCrypto \<Rightarrow> zrtpDevice \<Rightarrow> zrtpInitiator \<Rightarrow> handshakePacket \<Rightarrow>
    handshakePacket option result \<times> zrtpInitiator" where
  "zi_handleHelloAck c d s packet =
     attempt (helloAckPacketParsedFromHandshakePacket packet) s (\<lambda>_.
     attempt (zi_retrieveKeyAgreementParticipant d s) s (\<lambda>_.
     let s = s\<lparr>zi_generated := zi_generated s + 1\<rparr>
     in attempt (needed (zi_participant s)) s (\<lambda>participant.
     attempt (dh2PacketWithHashChain (zc_sha256 c) (zc_hmac c) (zi_hashChain s) (zi_dhSharedSecretHashes s)
          (ka_publicKeyData participant)) s (\<lambda>localDH.
     let s = s\<lparr>zi_localDH := Some localDH\<rparr>
     in attempt (needed (zi_foreignHello s)) s (\<lambda>foreignHello.
     attempt (commitPacketWithDefaultSpecs (zc_sha256 c) (zc_hmac c) (ka_protocolId participant) (zi_hashChain s)
          (zi_zid s) foreignHello localDH) s (\<lambda>commitPacket.
       (Inr (Some (commit_embedding commitPacket)),
        s\<lparr>zi_commitPacket := Some commitPacket, zi_packetExpectation := EXPECTING_DH\<rparr>)))))))"

definition zi_handleDH :: "zrtpCrypto \<Rightarrow> zrtpInitiator \<Rightarrow> handshakePacket \<Rightarrow> handshakePacket option result \<times> zrtpInitiator" where
  "zi_handleDH c s packet =
     attempt (dhPacketFromHandshakePacket packet True) s (\<lambda>foreignDH.
     let s = s\<lparr>zi_foreignDH := Some foreignDH\<rparr>
     in attempt (needed (zi_foreignHello s)) s (\<lambda>foreignHello.
     attempt (hello_verifyMac (zc_sha256 c) (zc_hmac c) foreignHello (zc_sha256 c (dh_hashChainH1 foreignDH))) s (\<lambda>_.
     attempt (needed (zi_participant s)) s (\<lambda>participant.
     attempt (ka_calculate participant (dh_publicKeyData foreignDH)) s (\<lambda>dhResult.
     attempt (needed (zi_localHello s)) s (\<lambda>localHello.
     attempt (needed (zi_commitPacket s)) s (\<lambda>commitPacket.
     attempt (needed (zi_localDH s)) s (\<lambda>localDH.
     attempt (masterSecretFromDhResult (zc_sha256 c) (zc_hmac c) dhResult localHello foreignHello commitPacket
          foreignDH localDH) s (\<lambda>masterSecret.
       (Inr (Some (dh_embedding localDH)),
        s\<lparr>zi_masterSecret := Some masterSecret, zi_packetExpectation := EXPECTING_CONFIRM\<rparr>))))))))))"

definition zi_handleConfirmOne :: "zrtpCrypto \<Rightarrow> zrtpInitiator \<Rightarrow> handshakePacket \<Rightarrow> handshakePacket option result \<times> zrtpInitiator" where
  "zi_handleConfirmOne c s packet =
     attempt (needed (zi_masterSecret s)) s (\<lambda>ms.
     attempt (confirmPacketParsedFromHandshakePacket (zc_hmac c) (zc_aesDecrypt c) packet (ms_responderMacKey ms)
          (ms_responderZrtpKey ms) True) s (\<lambda>confirmPacket.
     attempt (needed (zi_foreignDH s)) s (\<lambda>foreignDH.
     attempt (dh_verifyMac (zc_sha256 c) (zc_hmac c) foreignDH (confirm_hashChainH0 confirmPacket)) s (\<lambda>_.
     let s = s\<lparr>zi_packetExpectation := EXPECTING_CONFIRM_ACK\<rparr>
     in attempt (confirm2PacketWithHashChain (zc_hmac c) (zc_aesEncrypt c) (zi_hashChain s) (ms_initiatorMacKey ms)
          (ms_initiatorZrtpKey ms) (zi_confirmIv s)) s (\<lambda>confirm2Packet.
       (Inr (Some (confirm_embedding confirm2Packet)), s))))))"

definition zi_handleConfirmAck :: "zrtpInitiator \<Rightarrow> handshakePacket \<Rightarrow> handshakePacket option result \<times> zrtpInitiator" where
  "zi_handleConfirmAck s packet =
     attempt (confirmAckPacketParsedFromHandshakePacket packet) s (\<lambda>_.
       (Inr None, s\<lparr>zi_packetExpectation := EXPECTING_NOTHING\<rparr>))"

definition zi_dispatch :: "zrtpCrypto \<Rightarrow> zrtpDevice \<Rightarrow> zrtpInitiator \<Rightarrow> handshakePacket \<Rightarrow>
    handshakePacket option result \<times> zrtpInitiator" where
  "zi_dispatch c d s packet =
     (case zi_packetExpectation s of
        EXPECTING_NOTHING \<Rightarrow> (Inr None, s)
      | EXPECTING_HELLO \<Rightarrow> zi_handleHello c d s packet
      | EXPECTING_HELLO_ACK \<Rightarrow> zi_handleHelloAck c d s packet
      | EXPECTING_DH \<Rightarrow> zi_handleDH c s packet
      | EXPECTING_CONFIRM \<Rightarrow> zi_handleConfirmOne c s packet
      | EXPECTING_CONFIRM_ACK \<Rightarrow> zi_handleConfirmAck s packet
      | EXPECTING_COMMIT \<Rightarrow> (Inr None, s))"

text \<open>The handlers of exceptions: a security failure ends the call, a failed operation is logged.\<close>

definition zi_handlePacket :: "zrtpCrypto \<Rightarrow> zrtpDevice \<Rightarrow> zrtpInitiator \<Rightarrow> handshakePacket \<Rightarrow>
    handshakePacket option result \<times> zrtpInitiator" where
  "zi_handlePacket c d s packet =
     (case zi_dispatch c d s packet of
        (Inl SecurityFailure, s) \<Rightarrow>
          (let (r, cc) = terminateWithReason CallTerminationType_HandshakeFailed (Some (FailedWith SecurityFailure))
                           (zi_callController s)
           in (bindR r (\<lambda>_. Inr None), s\<lparr>zi_callController := cc\<rparr>))
      | (Inl OperationFailed, s) \<Rightarrow> (Inr None, s\<lparr>zi_badPackets := zi_badPackets s + 1\<rparr>)
      | r \<Rightarrow> r)"

text \<open>Audio that authenticates under the responder's keys counts as the acknowledgement.\<close>

definition zi_isAuthenticatedAudioDataImplyingConf2Ack :: "zrtpCrypto \<Rightarrow> bool \<Rightarrow> zrtpInitiator \<Rightarrow> rtpPacket option \<Rightarrow> bool result" where
  "zi_isAuthenticatedAudioDataImplyingConf2Ack c legacy s packet =
     (if zi_packetExpectation s \<noteq> EXPECTING_CONFIRM_ACK then Inr False
      else case packet of None \<Rightarrow> Inr False
           | Some p \<Rightarrow>
               (case bindR (needed (zi_masterSecret s)) (\<lambda>ms.
                  bindR (srtpStreamWithCipherKey (ms_responderSrtpKey ms) (ms_responderMacKey ms) (ms_responderSrtpSalt ms)) (\<lambda>st.
                    fst (verifyAuthenticationAndDecryptSecuredRtpPacket (zc_aesCtrDecrypt c) (zc_hmacSha1 c) legacy st p))) of
                  Inr _ \<Rightarrow> Inr True
                | Inl OperationFailed \<Rightarrow> Inr False
                | Inl e \<Rightarrow> Inl e))"


definition zi_useKeysToSecureRtpSocket :: "zrtpInitiator \<Rightarrow> srtpSocket result" where
  "zi_useKeysToSecureRtpSocket s =
     requireState (zi_hasHandshakeFinishedSuccessfully s)
       (bindR (needed (zi_masterSecret s)) (\<lambda>ms.
          srtpSocketOverRtp (ms_responderSrtpKey ms) (ms_responderMacKey ms) (ms_responderSrtpSalt ms)
            (ms_initiatorSrtpKey ms) (ms_initiatorMacKey ms) (ms_initiatorSrtpSalt ms)))"

subsection \<open>The responder\<close>

record zrtpResponder =
  zr_packetExpectation :: packetExpectation
  zr_hashChain :: hashChain
  zr_dhSharedSecretHashes :: dhPacketSharedSecretHashes
  zr_confirmIv :: data
  zr_localHello :: helloPacket
  zr_foreignHello :: "helloPacket option"
  zr_foreignCommit :: "commitPacket option"
  zr_participant :: "keyAgreementParticipant option"
  zr_localDH :: "dhPacket option"
  zr_foreignDH :: "dhPacket option"
  zr_masterSecret :: "masterSecret option"
  zr_generated :: nat
  zr_callController :: callController
  zr_badPackets :: nat

definition zrtpResponderNew :: "zrtpCrypto \<Rightarrow> zrtpDevice \<Rightarrow> hashChain \<Rightarrow> dhPacketSharedSecretHashes \<Rightarrow> data \<Rightarrow>
    callController \<Rightarrow> zrtpResponder result" where
  "zrtpResponderNew c d chain ssh iv controller =
     bindR (helloPacketWithDefaults (zc_hmac c) (zd_versionId d) (zd_clientId d) chain nullZid (zd_protocolIds d)) (\<lambda>localHello.
       Inr \<lparr>zr_packetExpectation = EXPECTING_HELLO, zr_hashChain = chain, zr_dhSharedSecretHashes = ssh, zr_confirmIv = iv,
         zr_localHello = localHello, zr_foreignHello = None, zr_foreignCommit = None, zr_participant = None,
         zr_localDH = None, zr_foreignDH = None, zr_masterSecret = None, zr_generated = 0,
         zr_callController = controller, zr_badPackets = 0\<rparr>)"

definition zr_initialPacket :: "zrtpResponder \<Rightarrow> handshakePacket option result \<times> zrtpResponder" where
  "zr_initialPacket s =
     (let (r, cc) = advanceCallProgressTo CallProgressType_Securing (zr_callController s);
          s = s\<lparr>zr_callController := cc\<rparr>
      in attempt r s (\<lambda>_. (Inr (Some (hello_embedding (zr_localHello s))), s)))"

definition zr_hasHandshakeFinishedSuccessfully :: "zrtpResponder \<Rightarrow> bool" where
  "zr_hasHandshakeFinishedSuccessfully s \<longleftrightarrow> zr_packetExpectation s = EXPECTING_NOTHING"

definition zr_getMasterSecret :: "zrtpResponder \<Rightarrow> masterSecret result" where
  "zr_getMasterSecret s = requireState (zr_hasHandshakeFinishedSuccessfully s) (needed (zr_masterSecret s))"

definition zr_retrieveKeyAgreementParticipant :: "zrtpDevice \<Rightarrow> zrtpResponder \<Rightarrow> keyAgreementParticipant result" where
  "zr_retrieveKeyAgreementParticipant d s =
     bindR (needed (zr_foreignCommit s)) (\<lambda>commit.
     case List.find (\<lambda>i. commit_agreementSpecId commit = i) (zd_protocolIds d) of
       None \<Rightarrow> Inl OperationFailed
     | Some i \<Rightarrow> zd_generate d i (zr_generated s))"

definition zr_handleHello :: "zrtpResponder \<Rightarrow> handshakePacket \<Rightarrow> handshakePacket option result \<times> zrtpResponder" where
  "zr_handleHello s packet =
     attempt (helloPacketParsedFromHandshakePacket packet) s (\<lambda>foreignHello.
     let s = s\<lparr>zr_foreignHello := Some foreignHello, zr_packetExpectation := EXPECTING_COMMIT\<rparr>
     in attempt helloAckPacket s (\<lambda>ack. (Inr (Some ack), s)))"

definition zr_handleCommit :: "zrtpCrypto \<Rightarrow> zrtpDevice \<Rightarrow> zrtpResponder \<Rightarrow> handshakePacket \<Rightarrow>
    handshakePacket option result \<times> zrtpResponder" where
  "zr_handleCommit c d s packet =
     attempt (commitPacketParsedFromHandshakePacket packet) s (\<lambda>cp.
     attempt (needed (zr_foreignHello s)) s (\<lambda>foreignHello.
     attempt (hello_verifyMac (zc_sha256 c) (zc_hmac c) foreignHello (commit_h2 cp)) s (\<lambda>_.
     let s = s\<lparr>zr_foreignCommit := Some cp\<rparr>
     in attempt (zr_retrieveKeyAgreementParticipant d s) s (\<lambda>participant.
     let s = s\<lparr>zr_participant := Some participant, zr_generated := zr_generated s + 1\<rparr>
     in attempt (dh1PacketWithHashChain (zc_sha256 c) (zc_hmac c) (zr_hashChain s) (zr_dhSharedSecretHashes s)
          (ka_publicKeyData participant)) s (\<lambda>localDH.
       (Inr (Some (dh_embedding localDH)),
        s\<lparr>zr_localDH := Some localDH, zr_packetExpectation := EXPECTING_DH\<rparr>))))))"

definition zr_handleDH :: "zrtpCrypto \<Rightarrow> zrtpResponder \<Rightarrow> handshakePacket \<Rightarrow> handshakePacket option result \<times> zrtpResponder" where
  "zr_handleDH c s packet =
     attempt (dhPacketFromHandshakePacket packet False) s (\<lambda>foreignDH.
     let s = s\<lparr>zr_foreignDH := Some foreignDH\<rparr>
     in attempt (needed (zr_foreignCommit s)) s (\<lambda>foreignCommit.
     attempt (commit_verifyMac (zc_sha256 c) (zc_hmac c) foreignCommit (dh_hashChainH1 foreignDH)) s (\<lambda>_.
     attempt (verifyCommitment (zc_sha256 c) foreignCommit (zr_localHello s) foreignDH) s (\<lambda>_.
     attempt (needed (zr_participant s)) s (\<lambda>participant.
     attempt (ka_calculate participant (dh_publicKeyData foreignDH)) s (\<lambda>dhResult.
     attempt (needed (zr_foreignHello s)) s (\<lambda>foreignHello.
     attempt (needed (zr_localDH s)) s (\<lambda>localDH.
     attempt (masterSecretFromDhResult (zc_sha256 c) (zc_hmac c) dhResult foreignHello (zr_localHello s) foreignCommit
          localDH foreignDH) s (\<lambda>ms.
     let s = s\<lparr>zr_masterSecret := Some ms, zr_packetExpectation := EXPECTING_CONFIRM\<rparr>
     in attempt (confirm1PacketWithHashChain (zc_hmac c) (zc_aesEncrypt c) (zr_hashChain s) (ms_responderMacKey ms)
          (ms_responderZrtpKey ms) (zr_confirmIv s)) s (\<lambda>confirm1Packet.
       (Inr (Some (confirm_embedding confirm1Packet)), s)))))))))))"

definition zr_handleConfirmTwo :: "zrtpCrypto \<Rightarrow> zrtpDevice \<Rightarrow> zrtpResponder \<Rightarrow> handshakePacket \<Rightarrow>
    handshakePacket option result \<times> zrtpResponder" where
  "zr_handleConfirmTwo c d s packet =
     attempt (needed (zr_masterSecret s)) s (\<lambda>ms.
     attempt (confirmPacketParsedFromHandshakePacket (zc_hmac c) (zc_aesDecrypt c) packet (ms_initiatorMacKey ms)
          (ms_initiatorZrtpKey ms) False) s (\<lambda>confirmPacket.
     attempt (needed (zr_foreignDH s)) s (\<lambda>foreignDH.
     attempt (dh_verifyMac (zc_sha256 c) (zc_hmac c) foreignDH (confirm_hashChainH0 confirmPacket)) s (\<lambda>_.
     let s = s\<lparr>zr_packetExpectation := EXPECTING_NOTHING\<rparr>
     in if zd_loseConfAck d then (Inr None, s)
        else attempt confirmAckPacket s (\<lambda>ack. (Inr (Some ack), s))))))"

definition zr_dispatch :: "zrtpCrypto \<Rightarrow> zrtpDevice \<Rightarrow> zrtpResponder \<Rightarrow> handshakePacket \<Rightarrow>
    handshakePacket option result \<times> zrtpResponder" where
  "zr_dispatch c d s packet =
     (case zr_packetExpectation s of
        EXPECTING_NOTHING \<Rightarrow> (Inr None, s)
      | EXPECTING_HELLO \<Rightarrow> zr_handleHello s packet
      | EXPECTING_COMMIT \<Rightarrow> zr_handleCommit c d s packet
      | EXPECTING_DH \<Rightarrow> zr_handleDH c s packet
      | EXPECTING_CONFIRM \<Rightarrow> zr_handleConfirmTwo c d s packet
      | _ \<Rightarrow> (Inr None, s))"

definition zr_handlePacket :: "zrtpCrypto \<Rightarrow> zrtpDevice \<Rightarrow> zrtpResponder \<Rightarrow> handshakePacket \<Rightarrow>
    handshakePacket option result \<times> zrtpResponder" where
  "zr_handlePacket c d s packet =
     (case zr_dispatch c d s packet of
        (Inl SecurityFailure, s) \<Rightarrow>
          (let (r, cc) = terminateWithReason CallTerminationType_HandshakeFailed (Some (FailedWith SecurityFailure))
                           (zr_callController s)
           in (bindR r (\<lambda>_. Inr None), s\<lparr>zr_callController := cc\<rparr>))
      | (Inl OperationFailed, s) \<Rightarrow> (Inr None, s\<lparr>zr_badPackets := zr_badPackets s + 1\<rparr>)
      | r \<Rightarrow> r)"

text \<open>The responder does not expect this packet.\<close>

definition zr_isAuthenticatedAudioDataImplyingConf2Ack :: "zrtpResponder \<Rightarrow> rtpPacket option \<Rightarrow> bool result" where
  "zr_isAuthenticatedAudioDataImplyingConf2Ack s packet = Inr False"

definition zr_useKeysToSecureRtpSocket :: "zrtpResponder \<Rightarrow> srtpSocket result" where
  "zr_useKeysToSecureRtpSocket s =
     requireState (zr_hasHandshakeFinishedSuccessfully s)
       (bindR (needed (zr_masterSecret s)) (\<lambda>ms.
          srtpSocketOverRtp (ms_initiatorSrtpKey ms) (ms_initiatorMacKey ms) (ms_initiatorSrtpSalt ms)
            (ms_responderSrtpKey ms) (ms_responderMacKey ms) (ms_responderSrtpSalt ms)))"

end
