(* ===== verification/ZrtpManager.thy ===== *)
theory ZrtpManager
  imports ZrtpRoles
begin

text \<open>
  The manager of a ZRTP handshake (\<open>Signal/src/network/rtp/zrtp/ZrtpManager.m\<close>) over its socket
  (\<open>ZrtpHandshakeSocket.m\<close>, and the receiving and sending paths of \<open>RtpSocket.m\<close> and
  \<open>network/udp/UdpSocket.m\<close> under it). The manager is written for any role: the protocol \<open>ZrtpRole\<close>
  is a record of functions on the role's state, and the locale \<open>zrtp_role\<close> states what the manager
  relies on. The call controller is part of the role's state, since both share it; cancelling it
  terminates the manager at once. A datagram sent is appended to \<open>zs_sent\<close>, and a scheduled action
  waits in \<open>zm_scheduled\<close> for its timer. The text of a failure of negotiation is kept.
\<close>

subsection \<open>The protocol of a role\<close>

record 's zrtpRole =
  role_initialPacket :: "'s \<Rightarrow> handshakePacket option result \<times> 's"
  role_handlePacket :: "'s \<Rightarrow> handshakePacket \<Rightarrow> handshakePacket option result \<times> 's"
  role_hasHandshakeFinishedSuccessfully :: "'s \<Rightarrow> bool"
  role_impliesConf2Ack :: "'s \<Rightarrow> rtpPacket option \<Rightarrow> bool result"
  role_useKeysToSecureRtpSocket :: "'s \<Rightarrow> srtpSocket result"
  role_getMasterSecret :: "'s \<Rightarrow> masterSecret result"
  role_callController :: "'s \<Rightarrow> callController"
  role_setCallController :: "callController \<Rightarrow> 's \<Rightarrow> 's"

definition initiatorRole :: "zrtpCrypto \<Rightarrow> zrtpDevice \<Rightarrow> bool \<Rightarrow> zrtpInitiator zrtpRole" where
  "initiatorRole c d legacy = \<lparr>role_initialPacket = zi_initialPacket, role_handlePacket = zi_handlePacket c d,
     role_hasHandshakeFinishedSuccessfully = zi_hasHandshakeFinishedSuccessfully,
     role_impliesConf2Ack = zi_isAuthenticatedAudioDataImplyingConf2Ack c legacy,
     role_useKeysToSecureRtpSocket = zi_useKeysToSecureRtpSocket, role_getMasterSecret = zi_getMasterSecret,
     role_callController = zi_callController, role_setCallController = (\<lambda>cc s. s\<lparr>zi_callController := cc\<rparr>)\<rparr>"

definition responderRole :: "zrtpCrypto \<Rightarrow> zrtpDevice \<Rightarrow> zrtpResponder zrtpRole" where
  "responderRole c d = \<lparr>role_initialPacket = zr_initialPacket, role_handlePacket = zr_handlePacket c d,
     role_hasHandshakeFinishedSuccessfully = zr_hasHandshakeFinishedSuccessfully,
     role_impliesConf2Ack = zr_isAuthenticatedAudioDataImplyingConf2Ack,
     role_useKeysToSecureRtpSocket = zr_useKeysToSecureRtpSocket, role_getMasterSecret = zr_getMasterSecret,
     role_callController = zr_callController, role_setCallController = (\<lambda>cc s. s\<lparr>zr_callController := cc\<rparr>)\<rparr>"

subsection \<open>The socket\<close>

text \<open>\<open>zs_legacy\<close> is the option of the environment, \<open>zs_interop\<close> what the RTP socket learnt of the peer.\<close>

record zrtpHandshakeSocket =
  zs_legacy :: bool
  zs_interop :: bool
  zs_valid :: bool
  zs_hasHandler :: bool
  zs_nextPacketSequenceNumber :: u16
  zs_sent :: "data list"

definition zrtpHandshakeSocketOverRtp :: "bool \<Rightarrow> bool \<Rightarrow> zrtpHandshakeSocket" where
  "zrtpHandshakeSocketOverRtp legacy interop = \<lparr>zs_legacy = legacy, zs_interop = interop, zs_valid = True,
     zs_hasHandler = False, zs_nextPacketSequenceNumber = 0, zs_sent = []\<rparr>"

definition zs_send :: "handshakePacket \<Rightarrow> zrtpHandshakeSocket \<Rightarrow> unit result \<times> zrtpHandshakeSocket" where
  "zs_send packet z =
     (let sequenceNumber = zs_nextPacketSequenceNumber z;
          z = z\<lparr>zs_nextPacketSequenceNumber := zs_nextPacketSequenceNumber z + 1\<rparr>
      in attempt (embeddedIntoRtpPacket (zs_legacy z) (zs_interop z) packet sequenceNumber) z (\<lambda>p.
         attempt (rawPacketDataUsingInteropOptions (zs_legacy z) (zs_interop z) p) z (\<lambda>(d, _).
           (Inr (), z\<lparr>zs_sent := zs_sent z @ [d]\<rparr>))))"

definition zs_startWithHandler :: "zrtpHandshakeSocket \<Rightarrow> unit result \<times> zrtpHandshakeSocket" where
  "zs_startWithHandler z = (requireState (\<not> zs_hasHandler z) (Inr ()), z\<lparr>zs_hasHandler := True\<rparr>)"

subsection \<open>The manager\<close>

datatype scheduledAction = ScheduledRetransmit nat | ScheduledTimeoutIfNoHello

record zrtpHandshakeResult =
  zh_secureRtpSocket :: srtpSocket
  zh_masterSecret :: masterSecret

record 's zrtpManager =
  zm_role :: 's
  zm_socket :: zrtpHandshakeSocket
  zm_currentPacketTransmitCount :: "32 word"
  zm_handshakeCompletedSuccesfully :: bool
  zm_done :: bool
  zm_cancelled :: bool
  zm_scheduled :: "scheduledAction option"
  zm_currentPacketToRetransmit :: "handshakePacket option"
  zm_futureHandshakeResult :: "(failureInfo + zrtpHandshakeResult) option"

definition zrtpManagerWithHandshakeSocket :: "zrtpHandshakeSocket \<Rightarrow> 's \<Rightarrow> 's zrtpManager" where
  "zrtpManagerWithHandshakeSocket socket role = \<lparr>zm_role = role, zm_socket = socket,
     zm_currentPacketTransmitCount = 0, zm_handshakeCompletedSuccesfully = False, zm_done = False,
     zm_cancelled = False, zm_scheduled = None, zm_currentPacketToRetransmit = None,
     zm_futureHandshakeResult = None\<rparr>"

definition MAX_RETRANSMIT_COUNT :: "32 word" where "MAX_RETRANSMIT_COUNT = 45"

text \<open>Delays in milliseconds.\<close>

definition MIN_RETRANSMIT_INTERVAL :: nat where "MIN_RETRANSMIT_INTERVAL = 150"
definition MAX_RETRANSMIT_INTERVAL :: nat where "MAX_RETRANSMIT_INTERVAL = 1500"
definition RETRANSMIT_INTERVAL_GROW_FACTOR :: nat where "RETRANSMIT_INTERVAL_GROW_FACTOR = 2"

text \<open>Running one step after another, unless the first raises.\<close>

definition andThen :: "'a result \<times> 's \<Rightarrow> ('a \<Rightarrow> 's \<Rightarrow> 'b result \<times> 's) \<Rightarrow> 'b result \<times> 's" where
  "andThen rs k = (case rs of (Inl e, s) \<Rightarrow> (Inl e, s) | (Inr x, s) \<Rightarrow> k x s)"

definition zm_terminate :: "'s zrtpManager \<Rightarrow> 's zrtpManager" where
  "zm_terminate m = m\<lparr>zm_done := True, zm_cancelled := True, zm_scheduled := None\<rparr>"

text \<open>A call on the controller, whose cancellation terminates the manager.\<close>

definition zm_afterController :: "'s zrtpRole \<Rightarrow> 's zrtpManager \<Rightarrow> 's zrtpManager" where
  "zm_afterController role m =
     (if cc_cancelled (role_callController role (zm_role m)) \<and> \<not> zm_cancelled m then zm_terminate m else m)"

definition zm_terminateCall ::
  "'s zrtpRole \<Rightarrow> callTerminationType \<Rightarrow> failureInfo option \<Rightarrow> 's zrtpManager \<Rightarrow> unit result \<times> 's zrtpManager" where
  "zm_terminateCall role reason failure m =
     (let (r, cc) = terminateWithReason reason failure (role_callController role (zm_role m))
      in (r, zm_afterController role (m\<lparr>zm_role := role_setCallController role cc (zm_role m)\<rparr>)))"

text \<open>A failed handshake ends the call.\<close>

definition zm_trySetFailure :: "'s zrtpRole \<Rightarrow> failureInfo \<Rightarrow> 's zrtpManager \<Rightarrow> unit result \<times> 's zrtpManager" where
  "zm_trySetFailure role f m =
     (if zm_futureHandshakeResult m \<noteq> None then (Inr (), m)
      else zm_terminateCall role CallTerminationType_HandshakeFailed (Some f)
             (m\<lparr>zm_futureHandshakeResult := Some (Inl f)\<rparr>))"

definition zm_scheduleRetransmit :: "'s zrtpManager \<Rightarrow> 's zrtpManager" where
  "zm_scheduleRetransmit m =
     (let falloffFactor = RETRANSMIT_INTERVAL_GROW_FACTOR ^ unat (zm_currentPacketTransmitCount m);
          delay = min (MIN_RETRANSMIT_INTERVAL * falloffFactor) MAX_RETRANSMIT_INTERVAL
      in m\<lparr>zm_currentPacketTransmitCount := zm_currentPacketTransmitCount m + 1,
           zm_scheduled := Some (ScheduledRetransmit delay)\<rparr>)"

definition zm_transmitCurrentHandshakePacket :: "'s zrtpManager \<Rightarrow> unit result \<times> 's zrtpManager" where
  "zm_transmitCurrentHandshakePacket m =
     (if zm_done m then (Inr (), m)
      else case zm_currentPacketToRetransmit m of None \<Rightarrow> (Inl BadState, m)
      | Some packet \<Rightarrow>
          (let (r, z) = zs_send packet (zm_socket m); m = m\<lparr>zm_socket := z\<rparr>
           in attempt r m (\<lambda>_. (Inr (), zm_scheduleRetransmit m))))"

definition zm_setAndSendPacketToTransmit :: "handshakePacket \<Rightarrow> 's zrtpManager \<Rightarrow> unit result \<times> 's zrtpManager" where
  "zm_setAndSendPacketToTransmit packet m =
     zm_transmitCurrentHandshakePacket
       (m\<lparr>zm_currentPacketTransmitCount := 0, zm_currentPacketToRetransmit := Some packet\<rparr>)"

text \<open>The count is reset before it is compared, as in the source.\<close>

definition zm_handleRetransmit :: "'s zrtpRole \<Rightarrow> 's zrtpManager \<Rightarrow> unit result \<times> 's zrtpManager" where
  "zm_handleRetransmit role m =
     (if zm_done m then (Inr (), m)
      else
        (let m = m\<lparr>zm_currentPacketTransmitCount := 0\<rparr>
         in if MAX_RETRANSMIT_COUNT <s zm_currentPacketTransmitCount m then
              (let m = m\<lparr>zm_done := True\<rparr>
               in if zm_currentPacketToRetransmit m = None
                  then zm_terminateCall role CallTerminationType_RecipientUnavailable None m
                  else zm_trySetFailure role (NegotiationFailed ''retransmit threshold exceeded'') m)
            else zm_transmitCurrentHandshakePacket m))"

definition zm_scheduleTimeoutIfNoHello :: "'s zrtpManager \<Rightarrow> 's zrtpManager" where
  "zm_scheduleTimeoutIfNoHello m = m\<lparr>zm_scheduled := Some ScheduledTimeoutIfNoHello\<rparr>"

definition zm_timeoutFail :: "'s zrtpRole \<Rightarrow> 's zrtpManager \<Rightarrow> unit result \<times> 's zrtpManager" where
  "zm_timeoutFail role m =
     andThen (zm_terminateCall role CallTerminationType_RecipientUnavailable None m) (\<lambda>_ m.
       zm_trySetFailure role RecipientUnavailable m)"

text \<open>The scheduled action runs when its time comes.\<close>

definition zm_timerFires :: "'s zrtpRole \<Rightarrow> 's zrtpManager \<Rightarrow> unit result \<times> 's zrtpManager" where
  "zm_timerFires role m =
     (case zm_scheduled m of
        None \<Rightarrow> (Inr (), m)
      | Some (ScheduledRetransmit delay) \<Rightarrow> zm_handleRetransmit role (m\<lparr>zm_scheduled := None\<rparr>)
      | Some ScheduledTimeoutIfNoHello \<Rightarrow> zm_timeoutFail role (m\<lparr>zm_scheduled := None\<rparr>))"

definition zm_finish :: "'s zrtpRole \<Rightarrow> 's zrtpManager \<Rightarrow> unit result \<times> 's zrtpManager" where
  "zm_finish role m =
     (let m = m\<lparr>zm_done := True, zm_handshakeCompletedSuccesfully := True\<rparr>
      in attempt (role_useKeysToSecureRtpSocket role (zm_role m)) m (\<lambda>secureChannel.
         attempt (role_getMasterSecret role (zm_role m)) m (\<lambda>masterSecret.
           (Inr (), m\<lparr>zm_futureHandshakeResult :=
              trySet (Inr \<lparr>zh_secureRtpSocket = secureChannel, zh_masterSecret = masterSecret\<rparr>)
                (zm_futureHandshakeResult m)\<rparr>))))"

definition zm_respond :: "handshakePacket option \<Rightarrow> 's zrtpManager \<Rightarrow> unit result \<times> 's zrtpManager" where
  "zm_respond response m =
     (case response of None \<Rightarrow> (Inr (), m) | Some p \<Rightarrow> zm_setAndSendPacketToTransmit p m)"

definition zm_handleHandshakePacket ::
  "'s zrtpRole \<Rightarrow> handshakePacket \<Rightarrow> 's zrtpManager \<Rightarrow> unit result \<times> 's zrtpManager" where
  "zm_handleHandshakePacket role packet m =
     (if zm_done m then (Inr (), m)
      else
        (let (r, s) = role_handlePacket role (zm_role m) packet;
             m = zm_afterController role (m\<lparr>zm_role := s\<rparr>)
         in attempt r m (\<lambda>response.
            andThen (zm_respond response m) (\<lambda>_ m.
              if role_hasHandshakeFinishedSuccessfully role (zm_role m) then zm_finish role m else (Inr (), m)))))"

definition zm_errorHandler ::
  "'s zrtpRole \<Rightarrow> exn \<Rightarrow> rtpPacket option \<Rightarrow> bool \<Rightarrow> 's zrtpManager \<Rightarrow> unit result \<times> 's zrtpManager" where
  "zm_errorHandler role e relatedInfo causedTermination m =
     (if causedTermination then zm_trySetFailure role (FailedWith e) (zm_terminate m)
      else attempt (role_impliesConf2Ack role (zm_role m) relatedInfo) m (\<lambda>implied.
             if implied then attempt confirmAckPacket m (\<lambda>ack. zm_handleHandshakePacket role ack m)
             else (Inr (), m)))"

definition zm_asyncPerformHandshake :: "'s zrtpRole \<Rightarrow> 's zrtpManager \<Rightarrow> unit result \<times> 's zrtpManager" where
  "zm_asyncPerformHandshake role m =
     (let (r, z) = zs_startWithHandler (zm_socket m); m = m\<lparr>zm_socket := z\<rparr>
      in attempt r m (\<lambda>_.
           let (r, s) = role_initialPacket role (zm_role m); m = m\<lparr>zm_role := s\<rparr>
           in attempt r m (\<lambda>initialPacket.
                case initialPacket of None \<Rightarrow> (Inr (), zm_scheduleTimeoutIfNoHello m)
                | Some p \<Rightarrow> zm_setAndSendPacketToTransmit p m)))"

subsection \<open>Receiving a datagram\<close>

text \<open>The handler of the handshake socket: an RTP packet that is not a handshake packet is an error.\<close>

definition zs_packetHandler :: "'s zrtpRole \<Rightarrow> rtpPacket \<Rightarrow> 's zrtpManager \<Rightarrow> unit result \<times> 's zrtpManager" where
  "zs_packetHandler role rtpPacket m =
     (case handshakePacketParsedFromRtpPacket (zs_legacy (zm_socket m)) rtpPacket of
        Inr handshakePacket \<Rightarrow> zm_handleHandshakePacket role handshakePacket m
      | Inl OperationFailed \<Rightarrow> zm_errorHandler role OperationFailed (Some rtpPacket) False m
      | Inl e \<Rightarrow> (Inl e, m))"

definition rs_valueHandler :: "'s zrtpRole \<Rightarrow> data \<Rightarrow> 's zrtpManager \<Rightarrow> unit result \<times> 's zrtpManager" where
  "rs_valueHandler role d m =
     attempt (rtpPacketParsedFromPacketData (zs_legacy (zm_socket m)) d) m (\<lambda>rtpPacket.
       let z = zm_socket m;
           m = (if rtp_wasAdjustedDueToInteropIssues rtpPacket \<and> zs_legacy z
                then m\<lparr>zm_socket := z\<lparr>zs_interop := True\<rparr>\<rparr> else m)
       in zs_packetHandler role rtpPacket m)"

text \<open>
  The remote end point is known here. An \<open>OperationFailed\<close> that nobody caught ends the session and
  invalidates the socket.
\<close>

definition udp_catch :: "'s zrtpRole \<Rightarrow> unit result \<times> 's zrtpManager \<Rightarrow> unit result \<times> 's zrtpManager" where
  "udp_catch role rm =
     (case rm of
        (Inl OperationFailed, m) \<Rightarrow>
          (let (r, m) = zm_errorHandler role OperationFailed None True m
           in (r, m\<lparr>zm_socket := (zm_socket m)\<lparr>zs_valid := False\<rparr>\<rparr>))
      | _ \<Rightarrow> rm)"

definition udp_onReceivedData :: "'s zrtpRole \<Rightarrow> data \<Rightarrow> 's zrtpManager \<Rightarrow> unit result \<times> 's zrtpManager" where
  "udp_onReceivedData role d m =
     (if \<not> zs_valid (zm_socket m) then (Inr (), m)
      else
        (let hasSentData = zs_sent (zm_socket m) \<noteq> []
         in udp_catch role
              (attempt (checkOperation (d \<noteq> [] \<or> \<not> hasSentData) (Inr ())) m (\<lambda>_. rs_valueHandler role d m))))"

end
