(* ===== verification/ZrtpManagerSafety.thy ===== *)
theory ZrtpManagerSafety
  imports ZrtpManager
begin

text \<open>
  What the manager of a handshake guarantees for either role: a locale states what it relies on in
  a role, its lemmas give the invariant of the manager over any sequence of datagrams, timers and
  events of the call, and the locale is interpreted for the initiator and the responder.
\<close>

subsection \<open>Histories\<close>

datatype zrtpEvent = Datagram data | Timer | CallEvent callEvent

text \<open>An event of the call from elsewhere, such as hanging up.\<close>

definition zm_callEvent :: "'s zrtpRole \<Rightarrow> callEvent \<Rightarrow> 's zrtpManager \<Rightarrow> unit result \<times> 's zrtpManager" where
  "zm_callEvent role e m =
     (let (r, cc) = callStep (role_callController role (zm_role m)) e
      in (r, zm_afterController role (m\<lparr>zm_role := role_setCallController role cc (zm_role m)\<rparr>)))"

fun zm_step :: "'s zrtpRole \<Rightarrow> 's zrtpManager \<Rightarrow> zrtpEvent \<Rightarrow> unit result \<times> 's zrtpManager" where
  "zm_step role m (Datagram d) = udp_onReceivedData role d m"
| "zm_step role m Timer = zm_timerFires role m"
| "zm_step role m (CallEvent e) = zm_callEvent role e m"

definition zm_run :: "'s zrtpRole \<Rightarrow> 's zrtpManager \<Rightarrow> zrtpEvent list \<Rightarrow> 's zrtpManager" where
  "zm_run role = foldl (\<lambda>m e. snd (zm_step role m e))"

subsection \<open>Invariant and successor relation\<close>

definition zm_controller :: "'s zrtpRole \<Rightarrow> 's zrtpManager \<Rightarrow> callController" where
  "zm_controller role m = role_callController role (zm_role m)"

text \<open>A call that ended cancelled its manager, a cancelled or completed manager is done, a failed
  handshake ended the call, and a result means completion.\<close>

definition zm_core :: "'s zrtpRole \<Rightarrow> 's zrtpManager \<Rightarrow> bool" where
  "zm_core role m \<longleftrightarrow> cc_wf (zm_controller role m) \<and> (zm_cancelled m \<longrightarrow> zm_done m) \<and>
     (zm_handshakeCompletedSuccesfully m \<longrightarrow> zm_done m) \<and>
     (\<forall>r. zm_futureHandshakeResult m = Some (Inr r) \<longrightarrow> zm_handshakeCompletedSuccesfully m)"

definition zm_wf :: "'s zrtpRole \<Rightarrow> 's zrtpManager \<Rightarrow> bool" where
  "zm_wf role m \<longleftrightarrow> zm_core role m \<and> (cc_cancelled (zm_controller role m) \<longrightarrow> zm_cancelled m) \<and>
     (\<forall>f. zm_futureHandshakeResult m = Some (Inl f) \<longrightarrow> cc_cancelled (zm_controller role m))"

text \<open>What is settled stays settled, and a manager that is done sends nothing.\<close>

definition zm_follows :: "'s zrtpManager \<Rightarrow> 's zrtpManager \<Rightarrow> bool" where
  "zm_follows m m' \<longleftrightarrow> (zm_done m \<longrightarrow> zm_done m' \<and> zs_sent (zm_socket m') = zs_sent (zm_socket m)) \<and>
     (zm_cancelled m \<longrightarrow> zm_cancelled m') \<and>
     (\<forall>r. zm_futureHandshakeResult m = Some r \<longrightarrow> zm_futureHandshakeResult m' = Some r)"

lemma zm_follows_refl [simp]: "zm_follows m m"
  by (simp add: zm_follows_def)

lemma zm_follows_trans: "zm_follows m n \<Longrightarrow> zm_follows n k \<Longrightarrow> zm_follows m k"
  unfolding zm_follows_def by auto

definition zm_good :: "'s zrtpRole \<Rightarrow> 's zrtpManager \<Rightarrow> 'a result \<times> 's zrtpManager \<Rightarrow> bool" where
  "zm_good role m rm \<longleftrightarrow> zm_wf role (snd rm) \<and> zm_follows m (snd rm)"

lemma zm_good_attempt:
  assumes "\<And>e. x = Inl e \<Longrightarrow> zm_good role m (Inl e, n)" and "\<And>y. x = Inr y \<Longrightarrow> zm_good role m (k y)"
  shows "zm_good role m (attempt x n k)"
  using assms by (cases x) (simp_all add: attempt_def zm_good_def)

lemma zm_good_andThen:
  assumes "zm_good role m rn" and "\<And>x n. zm_wf role n \<Longrightarrow> zm_follows m n \<Longrightarrow> zm_good role m (k x n)"
  shows "zm_good role m (andThen rn k)"
  using assms by (cases rn; cases "fst rn") (auto simp: andThen_def zm_good_def)

lemma zm_good_trans: "zm_follows m n \<Longrightarrow> zm_good role n rk \<Longrightarrow> zm_good role m rk"
  unfolding zm_good_def by (blast intro: zm_follows_trans)

lemma zm_good_self: "zm_wf role m \<Longrightarrow> zm_good role m (r, m)"
  by (simp add: zm_good_def)

lemma retransmit_count_reset [simp]: "\<not> MAX_RETRANSMIT_COUNT <s 0"
  by (simp add: MAX_RETRANSMIT_COUNT_def word_sless_alt)

subsection \<open>The contract of a role\<close>

locale zrtp_role =
  fixes role :: "'s zrtpRole"
  assumes controller_set: "role_callController role (role_setCallController role cc s) = cc"
    and handle_controller: "cc_wf (role_callController role s) \<Longrightarrow>
      cc_wf (role_callController role (snd (role_handlePacket role s h)))"
    and initial_controller: "cc_wf (role_callController role s) \<Longrightarrow>
      cc_wf (role_callController role (snd (role_initialPacket role s)))"
    and handle_ended: "cc_wf (role_callController role s) \<Longrightarrow> cc_cancelled (role_callController role s) \<Longrightarrow>
      cc_cancelled (role_callController role (snd (role_handlePacket role s h)))"
begin

lemma afterController_wf:
  assumes "zm_core role m"
    and "\<forall>f. zm_futureHandshakeResult m = Some (Inl f) \<longrightarrow> cc_cancelled (zm_controller role m)"
  shows "zm_wf role (zm_afterController role m) \<and> zm_follows m (zm_afterController role m)"
  using assms unfolding zm_wf_def zm_core_def zm_follows_def zm_afterController_def zm_terminate_def zm_controller_def
  by (cases "zm_cancelled m") auto

lemma controller_update:
  assumes "zm_core role m" and "cc_wf cc"
  shows "zm_core role (m\<lparr>zm_role := role_setCallController role cc (zm_role m)\<rparr>)"
    and "zm_controller role (m\<lparr>zm_role := role_setCallController role cc (zm_role m)\<rparr>) = cc"
  using assms by (simp_all add: zm_core_def zm_controller_def controller_set)

lemma terminateCall_good:
  assumes core: "zm_core role m"
  shows "zm_good role m (zm_terminateCall role reason f m)"
proof -
  let ?cc = "zm_controller role m"
  let ?cc' = "snd (terminateWithReason reason f ?cc)"
  let ?n = "m\<lparr>zm_role := role_setCallController role ?cc' (zm_role m)\<rparr>"
  have wf: "cc_wf ?cc" using core by (simp add: zm_core_def)
  have wf': "cc_wf ?cc'" using terminate_good [OF wf] by (simp add: cc_good_def)
  moreover have "cc_termination ?cc' \<noteq> None" using terminate_sets [OF wf] .
  ultimately have "cc_cancelled ?cc'" by (simp add: cc_wf_def)
  then have "zm_wf role (zm_afterController role ?n) \<and> zm_follows ?n (zm_afterController role ?n)"
    using controller_update [OF core wf'] by (intro afterController_wf) simp_all
  moreover have "zm_follows m ?n" by (simp add: zm_follows_def)
  ultimately show ?thesis
    by (auto simp: zm_good_def zm_terminateCall_def zm_controller_def split_beta intro: zm_follows_trans)
qed

lemma trySetFailure_good:
  assumes "zm_wf role m"
  shows "zm_good role m (zm_trySetFailure role f m)"
proof -
  let ?n = "m\<lparr>zm_futureHandshakeResult := Some (Inl f)\<rparr>"
  have "zm_core role ?n" using assms by (simp add: zm_wf_def zm_core_def zm_controller_def)
  moreover have "zm_follows m ?n" if "zm_futureHandshakeResult m = None" using that by (simp add: zm_follows_def)
  ultimately show ?thesis
    using assms zm_good_trans [OF _ terminateCall_good [of ?n]]
    by (cases "zm_futureHandshakeResult m") (simp_all add: zm_trySetFailure_def zm_good_self)
qed

lemma wf_cong:
  assumes "zm_wf role m" and "zm_role n = zm_role m" and "zm_done n = zm_done m" and "zm_cancelled n = zm_cancelled m"
    and "zm_handshakeCompletedSuccesfully n = zm_handshakeCompletedSuccesfully m"
    and "zm_futureHandshakeResult n = zm_futureHandshakeResult m"
  shows "zm_wf role n"
  using assms by (simp add: zm_wf_def zm_core_def zm_controller_def)

lemma transmit_good:
  assumes wf: "zm_wf role m"
  shows "zm_good role m (zm_transmitCurrentHandshakePacket m)"
proof (cases "zm_done m \<or> zm_currentPacketToRetransmit m = None")
  case True
  then show ?thesis using wf by (auto simp: zm_transmitCurrentHandshakePacket_def zm_good_self)
next
  case False
  then obtain p where nd: "\<not> zm_done m" and p: "zm_currentPacketToRetransmit m = Some p" by auto
  let ?n = "m\<lparr>zm_socket := snd (zs_send p (zm_socket m))\<rparr>"
  have "zm_wf role ?n \<and> zm_follows m ?n" using wf nd by (auto simp: zm_follows_def intro: wf_cong [OF wf])
  moreover have "zm_wf role (zm_scheduleRetransmit ?n) \<and> zm_follows m (zm_scheduleRetransmit ?n)"
    using nd by (auto simp: zm_follows_def zm_scheduleRetransmit_def Let_def intro: wf_cong [OF wf])
  ultimately have "zm_good role m (attempt r ?n (\<lambda>_. (Inr (), zm_scheduleRetransmit ?n)))" for r
    by (intro zm_good_attempt) (simp_all add: zm_good_def)
  then show ?thesis
    using nd p by (simp add: zm_transmitCurrentHandshakePacket_def split_beta Let_def)
qed

lemma setAndSend_good: "zm_wf role m \<Longrightarrow> zm_good role m (zm_setAndSendPacketToTransmit p m)"
  unfolding zm_setAndSendPacketToTransmit_def
  by (rule zm_good_trans [OF _ transmit_good]) (auto simp: zm_follows_def intro: wf_cong)

lemma respond_good: "zm_wf role m \<Longrightarrow> zm_good role m (zm_respond r m)"
  by (cases r) (simp_all add: zm_respond_def zm_good_self setAndSend_good)

lemma handleRetransmit_good:
  assumes "zm_wf role m"
  shows "zm_good role m (zm_handleRetransmit role m)"
proof -
  let ?n = "m\<lparr>zm_currentPacketTransmitCount := 0\<rparr>"
  have "zm_wf role ?n" by (rule wf_cong [OF assms]) simp_all
  then have "zm_good role ?n (zm_transmitCurrentHandshakePacket ?n)" by (rule transmit_good)
  moreover have "zm_follows m ?n" by (simp add: zm_follows_def)
  ultimately have "zm_good role m (zm_transmitCurrentHandshakePacket ?n)" by (blast intro: zm_good_trans)
  then show ?thesis
    using assms by (simp add: zm_handleRetransmit_def Let_def zm_good_self)
qed

lemma timeoutFail_good: "zm_wf role m \<Longrightarrow> zm_good role m (zm_timeoutFail role m)"
  unfolding zm_timeoutFail_def
  by (rule zm_good_andThen [OF terminateCall_good])
    (auto simp: zm_wf_def [of role m] intro: zm_good_trans trySetFailure_good)

lemma timerFires_good:
  assumes "zm_wf role m"
  shows "zm_good role m (zm_timerFires role m)"
proof -
  let ?n = "m\<lparr>zm_scheduled := None\<rparr>"
  have "zm_wf role ?n" by (rule wf_cong [OF assms]) simp_all
  moreover have "zm_follows m ?n" by (simp add: zm_follows_def)
  ultimately have "zm_good role m (zm_handleRetransmit role ?n)" "zm_good role m (zm_timeoutFail role ?n)"
    by (blast intro: zm_good_trans handleRetransmit_good timeoutFail_good)+
  then show ?thesis
    using assms by (simp add: zm_timerFires_def zm_good_self split: option.split scheduledAction.split)
qed

lemma finish_good:
  assumes "zm_wf role m"
  shows "zm_good role m (zm_finish role m)"
proof -
  let ?n = "m\<lparr>zm_done := True, zm_handshakeCompletedSuccesfully := True\<rparr>"
  have n: "zm_wf role ?n" "zm_follows m ?n"
    using assms by (auto simp: zm_wf_def zm_core_def zm_controller_def zm_follows_def)
  moreover have "zm_wf role (?n\<lparr>zm_futureHandshakeResult := trySet (Inr x) (zm_futureHandshakeResult m)\<rparr>) \<and>
      zm_follows m (?n\<lparr>zm_futureHandshakeResult := trySet (Inr x) (zm_futureHandshakeResult m)\<rparr>)" for x
    using n by (cases "zm_futureHandshakeResult m") (auto simp: zm_wf_def zm_core_def zm_controller_def zm_follows_def)
  ultimately show ?thesis
    unfolding zm_finish_def Let_def by (intro zm_good_attempt) (simp_all add: zm_good_def)
qed

lemma handle_good:
  assumes wf: "zm_wf role m"
  shows "zm_good role m (zm_handleHandshakePacket role h m)"
proof (cases "zm_done m")
  case True
  then show ?thesis using wf by (simp add: zm_handleHandshakePacket_def zm_good_self)
next
  case False
  define rs where "rs = role_handlePacket role (zm_role m) h"
  let ?n = "m\<lparr>zm_role := snd rs\<rparr>"
  define n where "n = zm_afterController role ?n"
  have "cc_wf (zm_controller role m)" "\<not> cc_cancelled (zm_controller role m)"
    using wf False by (auto simp: zm_wf_def zm_core_def)
  then have "zm_core role ?n" "\<And>f. zm_futureHandshakeResult m \<noteq> Some (Inl f)"
    using wf handle_controller by (auto simp: rs_def zm_controller_def zm_core_def zm_wf_def)
  then have n: "zm_wf role n" "zm_follows ?n n"
    using afterController_wf [of ?n] unfolding n_def by auto
  have "zm_follows m ?n" using False by (simp add: zm_follows_def) 
  with n(2) have f: "zm_follows m n" by (rule zm_follows_trans [rotated])
  have "zm_good role n (andThen (zm_respond p n) (\<lambda>_ m.
      if role_hasHandshakeFinishedSuccessfully role (zm_role m) then zm_finish role m else (Inr (), m)))" for p
    by (rule zm_good_andThen [OF respond_good [OF n(1)]]) (auto intro: zm_good_trans finish_good zm_good_self)
  then have "zm_good role m (attempt (fst rs) n (\<lambda>p. andThen (zm_respond p n) (\<lambda>_ m.
      if role_hasHandshakeFinishedSuccessfully role (zm_role m) then zm_finish role m else (Inr (), m))))"
    using n f by (intro zm_good_attempt) (auto simp: zm_good_def [of role m "(_, n)"] intro: zm_good_trans)
  then show ?thesis
    using False by (simp add: zm_handleHandshakePacket_def split_beta Let_def rs_def [symmetric] n_def [symmetric])
qed

lemma errorHandler_good:
  assumes wf: "zm_wf role m"
  shows "zm_good role m (zm_errorHandler role e p caused m)"
proof -
  have "zm_wf role (zm_terminate m)" "zm_follows m (zm_terminate m)"
    using wf by (auto simp: zm_terminate_def zm_wf_def zm_core_def zm_controller_def zm_follows_def)
  then have "zm_good role m (zm_trySetFailure role (FailedWith e) (zm_terminate m))"
    by (blast intro: zm_good_trans trySetFailure_good)
  then show ?thesis
    using wf by (auto simp: zm_errorHandler_def zm_good_self handle_good intro!: zm_good_attempt)
qed

lemma packetHandler_good: "zm_wf role m \<Longrightarrow> zm_good role m (zs_packetHandler role p m)"
  by (auto simp: zs_packetHandler_def errorHandler_good handle_good zm_good_self split: sum.split exn.split)

lemma valueHandler_good:
  assumes wf: "zm_wf role m"
  shows "zm_good role m (rs_valueHandler role d m)"
proof -
  let ?n = "m\<lparr>zm_socket := (zm_socket m)\<lparr>zs_interop := True\<rparr>\<rparr>"
  have "zm_wf role ?n" by (rule wf_cong [OF wf]) simp_all
  moreover have "zm_follows m ?n" by (simp add: zm_follows_def)
  ultimately have "zm_good role m (zs_packetHandler role p ?n)" for p
    by (blast intro: zm_good_trans packetHandler_good)
  then show ?thesis
    using wf by (auto simp: rs_valueHandler_def Let_def zm_good_self packetHandler_good intro!: zm_good_attempt)
qed

lemma catch_good:
  assumes g: "zm_good role m rm"
  shows "zm_good role m (udp_catch role rm)"
proof -
  define rn where "rn = zm_errorHandler role OperationFailed None True (snd rm)"
  have "zm_good role m rn"
    using g errorHandler_good zm_good_trans unfolding rn_def zm_good_def by blast
  then have "zm_good role m (fst rn, (snd rn)\<lparr>zm_socket := (zm_socket (snd rn))\<lparr>zs_valid := False\<rparr>\<rparr>)"
    by (auto simp: zm_good_def zm_follows_def intro: wf_cong)
  then show ?thesis
    using g by (cases rm) (auto simp: udp_catch_def rn_def split_beta split: sum.split exn.split)
qed

lemma receive_good: "zm_wf role m \<Longrightarrow> zm_good role m (udp_onReceivedData role d m)"
  by (auto simp: udp_onReceivedData_def Let_def zm_good_self valueHandler_good intro!: catch_good zm_good_attempt)

lemma callEvent_good:
  assumes wf: "zm_wf role m"
  shows "zm_good role m (zm_callEvent role e m)"
proof -
  let ?cc = "zm_controller role m" let ?cc' = "snd (callStep ?cc e)"
  let ?n = "m\<lparr>zm_role := role_setCallController role ?cc' (zm_role m)\<rparr>"
  have core: "zm_core role m" and cc: "cc_wf ?cc" using wf by (simp_all add: zm_wf_def zm_core_def)
  have cc': "cc_wf ?cc' \<and> cc_follows ?cc ?cc'" using callStep_keeps [OF cc] .
  then have "cc_cancelled ?cc' \<or> \<not> cc_cancelled ?cc" using cc by (auto simp: cc_wf_def cc_follows_def)
  then have "zm_wf role (zm_afterController role ?n) \<and> zm_follows ?n (zm_afterController role ?n)"
    using controller_update [OF core conjunct1 [OF cc']] wf by (intro afterController_wf) (auto simp: zm_wf_def)
  moreover have "zm_follows m ?n" by (simp add: zm_follows_def)
  ultimately show ?thesis
    by (auto simp: zm_good_def zm_callEvent_def zm_controller_def split_beta intro: zm_follows_trans)
qed

lemma step_good: "zm_wf role m \<Longrightarrow> zm_good role m (zm_step role m e)"
  by (cases e) (simp_all add: receive_good timerFires_good callEvent_good)

lemma run_wf: "zm_wf role m \<Longrightarrow> zm_wf role (zm_run role m es)"
  by (induction es rule: rev_induct) (auto simp: zm_run_def dest: step_good simp: zm_good_def)

lemma start_good:
  assumes "cc_wf (role_callController role s)" and "\<not> cc_cancelled (role_callController role (snd (role_initialPacket role s)))"
    and "\<not> cc_cancelled (role_callController role s)"
  shows "zm_wf role (snd (zm_asyncPerformHandshake role (zrtpManagerWithHandshakeSocket z s)))"
proof -
  define m where "m = (zrtpManagerWithHandshakeSocket z s)\<lparr>zm_socket := snd (zs_startWithHandler z)\<rparr>"
  define n where "n = m\<lparr>zm_role := snd (role_initialPacket role s)\<rparr>"
  have m: "zm_wf role m" "zm_role m = s" and n: "zm_wf role n"
    using assms initial_controller
    by (simp_all add: m_def n_def zm_wf_def zm_core_def zm_controller_def zrtpManagerWithHandshakeSocket_def)
  have s: "zm_wf role (zm_scheduleTimeoutIfNoHello n)"
    by (rule wf_cong [OF n]) (simp_all add: zm_scheduleTimeoutIfNoHello_def)
  have "(zrtpManagerWithHandshakeSocket z s)\<lparr>zm_socket := snd (zs_startWithHandler (zm_socket
      (zrtpManagerWithHandshakeSocket z s)))\<rparr> = m"
    by (simp add: m_def zrtpManagerWithHandshakeSocket_def)
  then show ?thesis
    using m n s setAndSend_good [OF n]
    by (auto simp: zm_asyncPerformHandshake_def split_beta Let_def attempt_def n_def zm_good_def
        split: sum.split option.split)
qed

end

subsection \<open>Both roles\<close>

text \<open>Only the first step of a handler touches the controller.\<close>

lemma attempt_zi [simp]:
  "(\<And>x. zi_callController (snd (k x)) = zi_callController s) \<Longrightarrow>
   zi_callController (snd (attempt m s k)) = zi_callController s"
  by (cases m) (simp_all add: attempt_def)

lemma attempt_zr [simp]:
  "(\<And>x. zr_callController (snd (k x)) = zr_callController s) \<Longrightarrow>
   zr_callController (snd (attempt m s k)) = zr_callController s"
  by (cases m) (simp_all add: attempt_def)

text \<open>A well-formed controller advanced, or terminated, is well-formed; ending is for good.\<close>

lemma advance_keeps:
  "cc_wf s \<Longrightarrow> cc_wf (snd (advanceCallProgressTo t s)) \<and>
     (cc_cancelled s \<longrightarrow> cc_cancelled (snd (advanceCallProgressTo t s)))"
  by (auto simp: advanceCallProgressTo_def unrestrictedAdvanceCallProgressTo_def cc_wf_def)

lemma terminate_keeps:
  "cc_wf s \<Longrightarrow> cc_wf (snd (terminateWithReason r f s)) \<and> cc_cancelled (snd (terminateWithReason r f s))"
  using terminate_good [of s r f] terminate_sets [of s r f] by (auto simp: cc_good_def cc_wf_def)

definition cc_later :: "callController \<Rightarrow> callController \<Rightarrow> bool" where
  "cc_later s s' \<longleftrightarrow> (cc_wf s \<longrightarrow> cc_wf s' \<and> (cc_cancelled s \<longrightarrow> cc_cancelled s'))"

lemma cc_later_intros [simp]:
  "cc_later s s" "cc_later s (snd (advanceCallProgressTo t s))"
  "cc_later s s' \<Longrightarrow> cc_later s (snd (terminateWithReason r f s'))"
  using advance_keeps terminate_keeps by (auto simp: cc_later_def)

lemma zi_later:
  "zi_callController (snd (zi_handleHelloAck c d s p)) = zi_callController s"
  "zi_callController (snd (zi_handleDH c s p)) = zi_callController s"
  "zi_callController (snd (zi_handleConfirmOne c s p)) = zi_callController s"
  "zi_callController (snd (zi_handleConfirmAck s p)) = zi_callController s"
  by (simp_all add: zi_handleHelloAck_def zi_handleDH_def zi_handleConfirmOne_def zi_handleConfirmAck_def Let_def)

lemma zi_handleHello_later: "cc_later (zi_callController s) (zi_callController (snd (zi_handleHello c d s p)))"
proof (cases "helloPacketParsedFromHandshakePacket p")
  case (Inr h)
  then show ?thesis by (simp add: zi_handleHello_def attempt_def [of "Inr h"] Let_def split_beta)
qed (simp add: zi_handleHello_def attempt_def)

lemma zi_handle_later: "cc_later (zi_callController s) (zi_callController (snd (zi_handlePacket c d s p)))"
proof -
  have "cc_later (zi_callController s) (zi_callController (snd (zi_dispatch c d s p)))"
    by (simp add: zi_dispatch_def zi_later zi_handleHello_later split: packetExpectation.split)
  then show ?thesis
    by (cases "zi_dispatch c d s p")
      (auto simp: zi_handlePacket_def split_beta Let_def split: sum.split exn.split)
qed

lemma zr_later: "zr_callController (snd (zr_dispatch c d s p)) = zr_callController s"
  by (simp add: zr_dispatch_def zr_handleHello_def zr_handleCommit_def zr_handleDH_def zr_handleConfirmTwo_def Let_def
      split: packetExpectation.split)

lemma zr_handle_later: "cc_later (zr_callController s) (zr_callController (snd (zr_handlePacket c d s p)))"
  using zr_later [of c d s p]
  by (cases "zr_dispatch c d s p")
    (auto simp: zr_handlePacket_def split_beta Let_def split: sum.split exn.split)

lemma zr_initial_later: "cc_later (zr_callController s) (zr_callController (snd (zr_initialPacket s)))"
  by (simp add: zr_initialPacket_def split_beta Let_def)

interpretation zi_role: zrtp_role "initiatorRole c d legacy" for c d legacy
  using zi_handle_later
  by unfold_locales (auto simp: initiatorRole_def zi_initialPacket_def cc_later_def)

interpretation zr_role: zrtp_role "responderRole c d" for c d
  using zr_handle_later zr_initial_later
  by unfold_locales (auto simp: responderRole_def cc_later_def)

subsection \<open>Starting a handshake\<close>

definition asyncPerformHandshakeInitiator ::
  "zrtpCrypto \<Rightarrow> zrtpDevice \<Rightarrow> zrtpHandshakeSocket \<Rightarrow> hashChain \<Rightarrow> dhPacketSharedSecretHashes \<Rightarrow> data \<Rightarrow>
   callController \<Rightarrow> zrtpInitiator zrtpManager" where
  "asyncPerformHandshakeInitiator c d z chain ssh iv cc =
     snd (zm_asyncPerformHandshake (initiatorRole c d (zs_legacy z))
       (zrtpManagerWithHandshakeSocket z (zrtpInitiatorNew chain ssh iv cc)))"

definition asyncPerformHandshakeResponder ::
  "zrtpCrypto \<Rightarrow> zrtpDevice \<Rightarrow> zrtpHandshakeSocket \<Rightarrow> hashChain \<Rightarrow> dhPacketSharedSecretHashes \<Rightarrow> data \<Rightarrow>
   callController \<Rightarrow> zrtpResponder zrtpManager result" where
  "asyncPerformHandshakeResponder c d z chain ssh iv cc =
     bindR (zrtpResponderNew c d chain ssh iv cc) (\<lambda>s.
       Inr (snd (zm_asyncPerformHandshake (responderRole c d) (zrtpManagerWithHandshakeSocket z s))))"

lemma advance_cancelled [simp]: "cc_cancelled (snd (advanceCallProgressTo t s)) = cc_cancelled s"
  by (simp add: advanceCallProgressTo_def unrestrictedAdvanceCallProgressTo_def)

lemma initiator_start_wf:
  "cc_wf cc \<Longrightarrow> \<not> cc_cancelled cc \<Longrightarrow>
   zm_wf (initiatorRole c d (zs_legacy z)) (asyncPerformHandshakeInitiator c d z chain ssh iv cc)"
  unfolding asyncPerformHandshakeInitiator_def
  by (rule zi_role.start_good) (simp_all add: initiatorRole_def zi_initialPacket_def zrtpInitiatorNew_def)

lemma initiator_start_eq:
  "\<not> zs_hasHandler z \<Longrightarrow> asyncPerformHandshakeInitiator c d z chain ssh iv cc =
     (zrtpManagerWithHandshakeSocket (z\<lparr>zs_hasHandler := True\<rparr>) (zrtpInitiatorNew chain ssh iv cc))
       \<lparr>zm_scheduled := Some ScheduledTimeoutIfNoHello\<rparr>"
  by (simp add: asyncPerformHandshakeInitiator_def zm_asyncPerformHandshake_def zrtpManagerWithHandshakeSocket_def
      zs_startWithHandler_def initiatorRole_def zi_initialPacket_def attempt_def zm_scheduleTimeoutIfNoHello_def)

lemma responder_start_wf:
  assumes "cc_wf cc" and "\<not> cc_cancelled cc" and "asyncPerformHandshakeResponder c d z chain ssh iv cc = Inr m"
  shows "zm_wf (responderRole c d) m"
proof -
  obtain s where s: "zrtpResponderNew c d chain ssh iv cc = Inr s"
    and m: "m = snd (zm_asyncPerformHandshake (responderRole c d) (zrtpManagerWithHandshakeSocket z s))"
    using assms(3) by (auto simp: asyncPerformHandshakeResponder_def)
  have "zr_callController s = cc" using s by (auto simp: zrtpResponderNew_def)
  then show ?thesis
    unfolding m using assms(1,2)
    by (intro zr_role.start_good) (simp_all add: responderRole_def zr_initialPacket_def split_beta Let_def)
qed

subsection \<open>Sending\<close>

lemma embedded_raw:
  assumes "hp_fits h"
  shows "\<exists>p q. embeddedIntoRtpPacket False interop h seq = Inr p \<and>
    rawPacketDataUsingInteropOptions False interop p = Inr (hp_wire h seq, q)"
proof -
  obtain p where p: "embeddedIntoRtpPacket False interop h seq = Inr p"
    and w: "generateSerializedPacketData False interop p = Inr (hp_wire h seq)"
    using embedded_wire [OF assms] by blast
  have "rtp_rawPacketData p = None"
    using p by (auto simp: embeddedIntoRtpPacket_def hp_rtpWithExtension_def rtpPacketWithVersionExt_def rtp_zero_def Let_def)
  with p w show ?thesis by (simp add: rawPacketDataUsingInteropOptions_def)
qed

definition zs_sentOne :: "handshakePacket \<Rightarrow> zrtpHandshakeSocket \<Rightarrow> zrtpHandshakeSocket" where
  "zs_sentOne h z = z\<lparr>zs_nextPacketSequenceNumber := zs_nextPacketSequenceNumber z + 1,
     zs_sent := zs_sent z @ [hp_wire h (zs_nextPacketSequenceNumber z)]\<rparr>"

lemma zs_send_ok:
  assumes "hp_fits h" and "\<not> zs_legacy z"
  shows "zs_send h z = (Inr (), zs_sentOne h z)"
  using embedded_raw [OF assms(1), of "zs_interop z" "zs_nextPacketSequenceNumber z"] assms(2)
  by (auto simp: zs_send_def zs_sentOne_def Let_def attempt_def)

lemma transmit_ok:
  assumes "hp_fits h" and "\<not> zs_legacy (zm_socket m)" and "\<not> zm_done m" and "zm_currentPacketToRetransmit m = Some h"
  shows "zm_transmitCurrentHandshakePacket m =
    (Inr (), zm_scheduleRetransmit (m\<lparr>zm_socket := zs_sentOne h (zm_socket m)\<rparr>))"
  using assms by (simp add: zm_transmitCurrentHandshakePacket_def zs_send_ok attempt_def)

subsection \<open>Properties\<close>

text \<open>C8: The manager of a handshake, of either role, over any sequence of datagrams, timers and
  events of the call: its state stays consistent with that of the call (an ended call cancels the
  manager, a failed handshake ends the call, a result means the handshake completed), the first
  outcome of the handshake stays, and once done it sends nothing more.\<close>

theorem zrtp_manager_consistent:
  assumes "\<not> cc_cancelled (callRun (callControllerForCall b) ces)"
    and "asyncPerformHandshakeResponder c' d' z' chain' ssh' iv' (callRun (callControllerForCall b) ces) = Inr mr"
  shows "(let role = initiatorRole c d (zs_legacy z);
              m = zm_run role (asyncPerformHandshakeInitiator c d z chain ssh iv (callRun (callControllerForCall b) ces)) es
          in zm_wf role m \<and> zm_follows m (snd (zm_step role m e))) \<and>
         (let role = responderRole c' d'; m = zm_run role mr es
          in zm_wf role m \<and> zm_follows m (snd (zm_step role m e)))"
proof -
  have cc: "cc_wf (callRun (callControllerForCall b) ces)" using callRun_keeps [OF cc_wf_new] by blast
  note i = zi_role.run_wf [OF initiator_start_wf [OF cc assms(1)]]
    and r = zr_role.run_wf [OF responder_start_wf [OF cc assms]]
  show ?thesis
    using i r zi_role.step_good [OF i] zr_role.step_good [OF r] unfolding Let_def zm_good_def by blast
qed

lemma timer_retransmits:
  assumes "hp_fits h" and "\<not> zs_legacy (zm_socket m)" and "\<not> zm_done m" and "zm_currentPacketToRetransmit m = Some h"
    and "zm_scheduled m = Some (ScheduledRetransmit t)"
  shows "zm_timerFires role m = (Inr (), m\<lparr>zm_socket := zs_sentOne h (zm_socket m),
    zm_currentPacketTransmitCount := 1, zm_scheduled := Some (ScheduledRetransmit 150)\<rparr>)"
  using assms
  by (simp add: zm_timerFires_def zm_handleRetransmit_def Let_def transmit_ok zm_scheduleRetransmit_def
      MIN_RETRANSMIT_INTERVAL_def MAX_RETRANSMIT_INTERVAL_def RETRANSMIT_INTERVAL_GROW_FACTOR_def)

text \<open>C17: The manager never gives up. It is meant to fail after 45 retransmissions, with growing
  delays; but while no answer comes, however often its timer fires, it sends the current packet
  once more, with the next sequence number, keeps its transmit count at one and its delay at the
  150 ms it began with, and neither fails nor ends the call.\<close>

theorem zrtp_retransmits_forever:
  assumes "hp_fits h" and "\<not> zs_legacy (zm_socket m)" and "\<not> zm_done m" and "zm_currentPacketToRetransmit m = Some h"
    and "zm_scheduled m = Some (ScheduledRetransmit t)" and "0 < n"
  shows "zm_run role m (replicate n Timer) =
    m\<lparr>zm_socket := (zm_socket m)\<lparr>zs_nextPacketSequenceNumber := zs_nextPacketSequenceNumber (zm_socket m) + of_nat n,
          zs_sent := zs_sent (zm_socket m) @
            map (\<lambda>i. hp_wire h (zs_nextPacketSequenceNumber (zm_socket m) + of_nat i)) [0..<n]\<rparr>,
       zm_currentPacketTransmitCount := 1, zm_scheduled := Some (ScheduledRetransmit 150)\<rparr>"
  using assms(6)
proof (induction n rule: nat_induct_non_zero)
  case 1
  then show ?case
    using timer_retransmits [OF assms(1-5)] by (simp add: zm_run_def zs_sentOne_def)
next
  case (Suc n)
  define k where "k = zm_run role m (replicate n Timer)"
  have "replicate (Suc n) Timer = replicate n Timer @ [Timer]" by (simp add: replicate_append_same)
  then have "zm_run role m (replicate (Suc n) Timer) = snd (zm_timerFires role k)"
    by (simp add: zm_run_def k_def del: replicate_Suc)
  moreover have "hp_fits h" "\<not> zs_legacy (zm_socket k)" "\<not> zm_done k" "zm_currentPacketToRetransmit k = Some h"
      "zm_scheduled k = Some (ScheduledRetransmit 150)"
    using assms Suc.IH by (simp_all add: k_def)
  ultimately show ?case
    by (simp add: timer_retransmits zs_sentOne_def) (simp add: k_def Suc.IH algebra_simps)
qed

text \<open>C18: One datagram of fewer than twelve bytes ends the initiator's handshake in progress: the
  parser of RTP packets raises OperationFailed, nothing catches it before the UDP socket, which
  reports it as fatal and closes. The handshake fails, the manager is cancelled and the call ends.\<close>

theorem one_short_datagram_ends_call:
  assumes "zm_wf (initiatorRole c d legacy) m" and "zs_valid (zm_socket m)" and "\<not> zm_done m"
    and "zm_futureHandshakeResult m = None" and "data \<noteq> []" and "length data < 12"
  shows "let (r, m') = udp_onReceivedData (initiatorRole c d legacy) data m
     in r = Inr () \<and> zm_done m' \<and> zm_cancelled m' \<and> \<not> zs_valid (zm_socket m') \<and>
        zm_futureHandshakeResult m' = Some (Inl (FailedWith OperationFailed)) \<and>
        cc_termination (zi_callController (zm_role m')) =
          Some \<lparr>ct_type = CallTerminationType_HandshakeFailed, ct_failure = Some (FailedWith OperationFailed)\<rparr>"
proof -
  let ?cc = "zi_callController (zm_role m)"
  have cc: "cc_wf ?cc" "cc_termination ?cc = None"
    using assms(1,3) by (auto simp: zm_wf_def zm_core_def zm_controller_def initiatorRole_def cc_wf_def)
  have "rtpPacketParsedFromPacketData l data = Inl OperationFailed" for l
    using assms(6) by (simp add: rtpPacketParsedFromPacketData_def)
  then show ?thesis
    using assms cc
    by (simp add: udp_onReceivedData_def rs_valueHandler_def attempt_def udp_catch_def zm_errorHandler_def
        zm_trySetFailure_def zm_terminate_def zm_terminateCall_def initiatorRole_def terminate_eq zm_afterController_def
        cc_ended_def)
qed

subsection \<open>The properties at concrete handshakes\<close>

definition exampleCrypto :: zrtpCrypto where
  "exampleCrypto = \<lparr>zc_sha256 = exampleSha256, zc_hmac = (\<lambda>k d. take 20 (k @ d @ replicate 20 7)),
     zc_aesEncrypt = (\<lambda>k v. rev), zc_aesDecrypt = (\<lambda>k v. rev), zc_aesCtrDecrypt = (\<lambda>k v. rev),
     zc_hmacSha1 = (\<lambda>k d. replicate 20 5)\<rparr>"

definition exampleDevice :: zrtpDevice where
  "exampleDevice = \<lparr>zd_versionId = [1, 2, 3, 4], zd_clientId = replicate 16 5,
     zd_protocolIds = [handshakeType ''EC25'', COMMIT_DEFAULT_AGREE_SPEC_ID],
     zd_generate = (\<lambda>i n. Inr \<lparr>ka_protocolId = i, ka_publicKeyData = [6, of_nat n], ka_calculate = (\<lambda>k. Inr [7])\<rparr>),
     zd_loseConfAck = False\<rparr>"

definition exampleChain :: hashChain where
  "exampleChain = projr (hashChainWithSeed exampleSha256 (replicate 32 3))"

definition exampleSocket :: zrtpHandshakeSocket where
  "exampleSocket = zrtpHandshakeSocketOverRtp False False"

lemma exampleSocket_simps [simp]:
  "zs_legacy exampleSocket = False" "zs_valid exampleSocket" "zs_hasHandler exampleSocket = False"
  "zs_nextPacketSequenceNumber exampleSocket = 0"
  by (simp_all add: exampleSocket_def zrtpHandshakeSocketOverRtp_def)

definition exampleInitiator :: "zrtpInitiator zrtpManager" where
  "exampleInitiator = asyncPerformHandshakeInitiator exampleCrypto exampleDevice exampleSocket exampleChain exampleSecrets
     (replicate 16 4) (callControllerForCall True)"

definition exampleResponder :: "zrtpResponder zrtpManager" where
  "exampleResponder = projr (asyncPerformHandshakeResponder exampleCrypto exampleDevice exampleSocket exampleChain
     exampleSecrets (replicate 16 4) (callControllerForCall True))"

lemma exampleResponder_eq:
  "asyncPerformHandshakeResponder exampleCrypto exampleDevice exampleSocket exampleChain
     exampleSecrets (replicate 16 4) (callControllerForCall True) = Inr exampleResponder"
proof -
  have "is_ok (zrtpResponderNew exampleCrypto exampleDevice exampleChain exampleSecrets (replicate 16 4) (callControllerForCall True))"
    by code_simp
  then show ?thesis
    unfolding exampleResponder_def is_ok_iff by (auto simp: asyncPerformHandshakeResponder_def)
qed

lemma callRun_none [simp]: "callRun cc [] = cc" "\<not> cc_cancelled (callControllerForCall b)"
  by (simp_all add: callRun_def callControllerForCall_def)

theorem zrtp_manager_consistent_witness:
  "(let role = initiatorRole exampleCrypto exampleDevice False; m = zm_run role exampleInitiator [Datagram [1, 2], Timer]
    in zm_wf role m \<and> zm_follows m (snd (zm_step role m (CallEvent HangupOrDeny)))) \<and>
   (let role = responderRole exampleCrypto exampleDevice; m = zm_run role exampleResponder [Datagram [1, 2], Timer]
    in zm_wf role m \<and> zm_follows m (snd (zm_step role m (CallEvent HangupOrDeny))))"
  using zrtp_manager_consistent [of True "[]" exampleCrypto exampleDevice exampleSocket exampleChain exampleSecrets
      "replicate 16 4" exampleResponder exampleCrypto exampleDevice exampleSocket exampleChain exampleSecrets
      "replicate 16 4" "[Datagram [1, 2], Timer]" "CallEvent HangupOrDeny"] exampleResponder_eq
  by (simp add: exampleInitiator_def [symmetric])

definition exampleAck :: handshakePacket where
  "exampleAck = \<lparr>hp_typeId = HANDSHAKE_TYPE_HELLO_ACK, hp_payload = []\<rparr>"

definition exampleWaiting :: "zrtpInitiator zrtpManager" where
  "exampleWaiting = exampleInitiator\<lparr>zm_scheduled := Some (ScheduledRetransmit 150),
     zm_currentPacketToRetransmit := Some exampleAck\<rparr>"

lemma exampleInitiator_waits [simp]:
  "\<not> zs_legacy (zm_socket exampleInitiator)" "\<not> zm_done exampleInitiator" "zs_valid (zm_socket exampleInitiator)"
  "zm_futureHandshakeResult exampleInitiator = None" "zs_nextPacketSequenceNumber (zm_socket exampleInitiator) = 0"
  by (simp_all add: exampleInitiator_def initiator_start_eq zrtpManagerWithHandshakeSocket_def)

lemma exampleInitiator_wf: "zm_wf (initiatorRole exampleCrypto exampleDevice False) exampleInitiator"
  using initiator_start_wf [of "callControllerForCall True" exampleCrypto exampleDevice exampleSocket]
  by (simp add: exampleInitiator_def)

theorem zrtp_retransmits_forever_witness:
  "let m = zm_run (initiatorRole exampleCrypto exampleDevice False) exampleWaiting (replicate 100000 Timer)
   in \<not> zm_done m \<and> zm_futureHandshakeResult m = None \<and> length (zs_sent (zm_socket m)) \<ge> 100000"
proof -
  have "hp_fits exampleAck" by (simp add: exampleAck_def hp_fits_def)
  then show ?thesis
    unfolding Let_def
    by (subst zrtp_retransmits_forever [of exampleAck exampleWaiting 150] |
        simp add: exampleWaiting_def exampleInitiator_def [symmetric])+
qed

theorem one_short_datagram_ends_call_witness:
  "let (r, m') = udp_onReceivedData (initiatorRole exampleCrypto exampleDevice False) [0] exampleInitiator
   in r = Inr () \<and> zm_done m' \<and> zm_cancelled m' \<and> \<not> zs_valid (zm_socket m') \<and>
      zm_futureHandshakeResult m' = Some (Inl (FailedWith OperationFailed)) \<and>
      cc_termination (zi_callController (zm_role m')) =
        Some \<lparr>ct_type = CallTerminationType_HandshakeFailed, ct_failure = Some (FailedWith OperationFailed)\<rparr>"
  by (rule one_short_datagram_ends_call [OF exampleInitiator_wf]) simp_all

end
