(* ===== verification/ZrtpRun.thy ===== *)
theory ZrtpRun
  imports ZrtpManagerSafety
begin

text \<open>
  The handshake between two devices that both follow the protocol: the packets that each of them
  builds, in terms of the parties' keys alone, and that every one of them is built without an
  exception, survives parsing and passes the checks of the peer. What the primitives and the key
  agreement have to satisfy is \<open>zrtp_peers\<close>.
\<close>

subsection \<open>The parties\<close>

record zrtpParty =
  zp_device :: zrtpDevice
  zp_chain :: hashChain
  zp_secrets :: dhPacketSharedSecretHashes
  zp_confirmIv :: data
  zp_callController :: callController
  zp_interop :: bool

text \<open>SHA-256 has 32 bytes, HMAC-SHA256 at least 20, and AES in feedback mode inverts itself.\<close>

definition zrtp_primitives :: "zrtpCrypto \<Rightarrow> bool" where
  "zrtp_primitives c \<longleftrightarrow> (\<forall>k d. 20 \<le> length (zc_hmac c k d)) \<and> (\<forall>d. length (zc_sha256 c d) = 32) \<and>
     (\<forall>k v d. length (zc_aesEncrypt c k v d) = length d \<and> zc_aesDecrypt c k v (zc_aesEncrypt c k v d) = d)"

text \<open>What a device configures, and a generator of keys that works and fits a packet.\<close>

definition zrtp_party :: "zrtpCrypto \<Rightarrow> zrtpParty \<Rightarrow> bool" where
  "zrtp_party c p \<longleftrightarrow>
     (\<exists>seed. hashChainWithSeed (zc_sha256 c) seed = Inr (zp_chain p)) \<and>
     (\<exists>a b x y. dhPacketSharedSecretHashesWith a b x y = Inr (zp_secrets p)) \<and>
     length (zp_confirmIv p) = 16 \<and>
     length (zd_versionId (zp_device p)) = 4 \<and> length (zd_clientId (zp_device p)) = 16 \<and>
     COMMIT_DEFAULT_AGREE_SPEC_ID \<in> set (zd_protocolIds (zp_device p)) \<and>
     (\<forall>i \<in> set (zd_protocolIds (zp_device p)). length i = 4) \<and> length (zd_protocolIds (zp_device p)) \<le> 7 \<and>
     (\<forall>i n. \<exists>k. zd_generate (zp_device p) i n = Inr k \<and> ka_protocolId k = i \<and> length (ka_publicKeyData k) \<le> 4096) \<and>
     \<not> zd_loseConfAck (zp_device p) \<and>
     cc_wf (zp_callController p) \<and> \<not> cc_cancelled (zp_callController p)"

text \<open>Either side computes the same secret from its own keys and the other's public key.\<close>

definition keys_agree :: "zrtpDevice \<Rightarrow> zrtpDevice \<Rightarrow> bool" where
  "keys_agree d e \<longleftrightarrow> (\<forall>i n m k l. zd_generate d i n = Inr k \<longrightarrow> zd_generate e i m = Inr l \<longrightarrow>
     (\<exists>x. ka_calculate k (ka_publicKeyData l) = Inr x \<and> ka_calculate l (ka_publicKeyData k) = Inr x))"

definition zrtp_peers :: "zrtpCrypto \<Rightarrow> zrtpParty \<Rightarrow> zrtpParty \<Rightarrow> bool" where
  "zrtp_peers c p q \<longleftrightarrow> zrtp_primitives c \<and> zrtp_party c p \<and> zrtp_party c q \<and> keys_agree (zp_device p) (zp_device q)"

subsection \<open>The packets\<close>

definition run_hello :: "zrtpCrypto \<Rightarrow> zrtpParty \<Rightarrow> helloPacket" where
  "run_hello c p = projr (helloPacketWithDefaults (zc_hmac c) (zd_versionId (zp_device p)) (zd_clientId (zp_device p))
     (zp_chain p) nullZid (zd_protocolIds (zp_device p)))"

definition run_protocol :: "zrtpCrypto \<Rightarrow> zrtpParty \<Rightarrow> zrtpParty \<Rightarrow> data" where
  "run_protocol c p q = the (List.find (\<lambda>i. i \<in> set (agreeIdsIncludingImplied (run_hello c q))) (zd_protocolIds (zp_device p)))"

definition run_keysI :: "zrtpCrypto \<Rightarrow> zrtpParty \<Rightarrow> zrtpParty \<Rightarrow> keyAgreementParticipant" where
  "run_keysI c p q = projr (zd_generate (zp_device p) (run_protocol c p q) 0)"

definition run_keysR :: "zrtpCrypto \<Rightarrow> zrtpParty \<Rightarrow> zrtpParty \<Rightarrow> keyAgreementParticipant" where
  "run_keysR c p q = projr (zd_generate (zp_device q) (run_protocol c p q) 0)"

definition run_dh2 :: "zrtpCrypto \<Rightarrow> zrtpParty \<Rightarrow> zrtpParty \<Rightarrow> dhPacket" where
  "run_dh2 c p q = projr (dh2PacketWithHashChain (zc_sha256 c) (zc_hmac c) (zp_chain p) (zp_secrets p)
     (ka_publicKeyData (run_keysI c p q)))"

definition run_dh1 :: "zrtpCrypto \<Rightarrow> zrtpParty \<Rightarrow> zrtpParty \<Rightarrow> dhPacket" where
  "run_dh1 c p q = projr (dh1PacketWithHashChain (zc_sha256 c) (zc_hmac c) (zp_chain q) (zp_secrets q)
     (ka_publicKeyData (run_keysR c p q)))"

definition run_commit :: "zrtpCrypto \<Rightarrow> zrtpParty \<Rightarrow> zrtpParty \<Rightarrow> commitPacket" where
  "run_commit c p q = projr (commitPacketWithDefaultSpecs (zc_sha256 c) (zc_hmac c) (run_protocol c p q) (zp_chain p)
     nullZid (run_hello c q) (run_dh2 c p q))"

definition run_secret :: "zrtpCrypto \<Rightarrow> zrtpParty \<Rightarrow> zrtpParty \<Rightarrow> data" where
  "run_secret c p q = projr (ka_calculate (run_keysI c p q) (ka_publicKeyData (run_keysR c p q)))"

definition run_masterSecret :: "zrtpCrypto \<Rightarrow> zrtpParty \<Rightarrow> zrtpParty \<Rightarrow> masterSecret" where
  "run_masterSecret c p q = projr (masterSecretFromDhResult (zc_sha256 c) (zc_hmac c) (run_secret c p q)
     (run_hello c p) (run_hello c q) (run_commit c p q) (run_dh1 c p q) (run_dh2 c p q))"

definition run_confirm1 :: "zrtpCrypto \<Rightarrow> zrtpParty \<Rightarrow> zrtpParty \<Rightarrow> confirmPacket" where
  "run_confirm1 c p q = projr (confirm1PacketWithHashChain (zc_hmac c) (zc_aesEncrypt c) (zp_chain q)
     (ms_responderMacKey (run_masterSecret c p q)) (ms_responderZrtpKey (run_masterSecret c p q)) (zp_confirmIv q))"

definition run_confirm2 :: "zrtpCrypto \<Rightarrow> zrtpParty \<Rightarrow> zrtpParty \<Rightarrow> confirmPacket" where
  "run_confirm2 c p q = projr (confirm2PacketWithHashChain (zc_hmac c) (zc_aesEncrypt c) (zp_chain p)
     (ms_initiatorMacKey (run_masterSecret c p q)) (ms_initiatorZrtpKey (run_masterSecret c p q)) (zp_confirmIv p))"

subsection \<open>Hello\<close>

lemma length_nullZid [simp]: "length nullZid = 12"
  by (simp add: nullZid_def)

lemma primitives_8: "zrtp_primitives c \<Longrightarrow> \<forall>k d. 8 \<le> length (zc_hmac c k d)"
  unfolding zrtp_primitives_def by (meson le_trans numeral_le_iff semiring_norm)

lemma chain_links:
  assumes "zrtp_primitives c" and "zrtp_party c p"
  shows "length (h0 (zp_chain p)) = 32" "length (h1 (zp_chain p)) = 32" "length (h2 (zp_chain p)) = 32"
    "length (h3 (zp_chain p)) = 32" "zc_sha256 c (h0 (zp_chain p)) = h1 (zp_chain p)"
    "zc_sha256 c (h1 (zp_chain p)) = h2 (zp_chain p)" "zc_sha256 c (h2 (zp_chain p)) = h3 (zp_chain p)"
proof -
  obtain seed where "hashChainWithSeed (zc_sha256 c) seed = Inr (zp_chain p)" using assms(2) by (auto simp: zrtp_party_def)
  then have "length seed = 32" and "zp_chain p = \<lparr>h0 = seed, h1 = zc_sha256 c seed, h2 = zc_sha256 c (zc_sha256 c seed),
      h3 = zc_sha256 c (zc_sha256 c (zc_sha256 c seed))\<rparr>"
    by (simp_all add: hashChainWithSeed_def Let_def)
  moreover have "length (zc_sha256 c d) = 32" for d using assms(1) by (simp add: zrtp_primitives_def)
  ultimately show "length (h0 (zp_chain p)) = 32" "length (h1 (zp_chain p)) = 32" "length (h2 (zp_chain p)) = 32"
    "length (h3 (zp_chain p)) = 32" "zc_sha256 c (h0 (zp_chain p)) = h1 (zp_chain p)"
    "zc_sha256 c (h1 (zp_chain p)) = h2 (zp_chain p)" "zc_sha256 c (h2 (zp_chain p)) = h3 (zp_chain p)"
    by simp_all
qed

lemma getAgreeIds_eq:
  "COMMIT_DEFAULT_AGREE_SPEC_ID \<in> set ids \<Longrightarrow>
   getAgreeIdsFromKeyAgreementProtocols ids = Inr (filter (\<lambda>i. i \<noteq> COMMIT_DEFAULT_AGREE_SPEC_ID) ids)"
proof -
  have "foldl (\<lambda>(ids, has) e. if e = COMMIT_DEFAULT_AGREE_SPEC_ID then (ids, True) else (ids @ [e], has)) ([], False) ids =
      (filter (\<lambda>i. i \<noteq> COMMIT_DEFAULT_AGREE_SPEC_ID) ids, COMMIT_DEFAULT_AGREE_SPEC_ID \<in> set ids)"
    by (induction ids rule: rev_induct) auto
  then show "COMMIT_DEFAULT_AGREE_SPEC_ID \<in> set ids \<Longrightarrow> ?thesis"
    by (simp add: getAgreeIdsFromKeyAgreementProtocols_def)
qed

lemma small_nibble: "n \<le> 7 \<Longrightarrow> (of_nat n :: byte) < 0x10"
  by (simp add: word_less_nat_alt unat_of_nat_small)

text \<open>The Hello packet is built, fits a datagram, and arrives as it was built.\<close>

lemma run_hello_built:
  assumes pr: "zrtp_primitives c" and pa: "zrtp_party c p"
  shows "helloPacketWithDefaults (zc_hmac c) (zd_versionId (zp_device p)) (zd_clientId (zp_device p))
     (zp_chain p) nullZid (zd_protocolIds (zp_device p)) = Inr (run_hello c p)"
proof -
  let ?ids = "filter (\<lambda>i. i \<noteq> COMMIT_DEFAULT_AGREE_SPEC_ID) (zd_protocolIds (zp_device p))"
  have n: "length ?ids \<le> 7" using pa le_trans [OF length_filter_le] by (auto simp: zrtp_party_def)
  have "\<exists>h. helloPacketWithVersion (zc_hmac c) (zd_versionId (zp_device p)) (zd_clientId (zp_device p))
      (h3 (zp_chain p)) nullZid 0 0 0 [] [] [] ?ids [] (h2 (zp_chain p)) = Inr h"
    using pa n chain_links [OF pr pa] primitives_8 [OF pr] small_nibble [OF n]
    by (simp add: zrtp_party_def helloPacketWithVersion_def Let_def hello_generatePayload_def
      generateFlags_def uint8FromLowUInt4_def setUint8At_def handshakePacketWithTypeId_def withHmacAppended_eq)
  moreover have "COMMIT_DEFAULT_AGREE_SPEC_ID \<in> set (zd_protocolIds (zp_device p))" using pa by (simp add: zrtp_party_def)
  ultimately show ?thesis
    unfolding run_hello_def helloPacketWithDefaults_def by (auto simp: getAgreeIds_eq)
qed

lemma mac_verifies:
  assumes "zrtp_primitives c" and "length (hp_typeId h) = 8" and "withHmacAppended (zc_hmac c) h key = Inr h'"
  shows "withHmacVerifiedAndRemoved (zc_hmac c) h' key = Inr h"
  using hmac_verify_appended [OF primitives_8 [OF assms(1)] assms(2), of key key] assms(3) by simp

lemma hello_mac_appended:
  assumes "helloPacketWithVersion hmac v c h z f0 fl fh hs cs as ks ss key = Inr p"
  shows "\<exists>u. hp_typeId u = HANDSHAKE_TYPE_HELLO \<and> withHmacAppended hmac u key = Inr (hello_embedding p)"
proof -
  obtain payload emb where "withHmacAppended hmac \<lparr>hp_typeId = HANDSHAKE_TYPE_HELLO, hp_payload = payload\<rparr> key = Inr emb"
    and "hello_embedding p = emb"
    using assms by (auto simp: helloPacketWithVersion_def Let_def handshakePacketWithTypeId_def helloFields.defs helloPacket.defs)
  then show ?thesis by (intro exI [of _ "\<lparr>hp_typeId = HANDSHAKE_TYPE_HELLO, hp_payload = payload\<rparr>"]) simp
qed

lemma run_hello_arrives:
  assumes pr: "zrtp_primitives c" and pa: "zrtp_party c p"
  shows "helloPacketParsedFromHandshakePacket (hello_embedding (run_hello c p)) = Inr (run_hello c p)"
    and "agreeIdsIncludingImplied (run_hello c p) =
      filter (\<lambda>i. i \<noteq> COMMIT_DEFAULT_AGREE_SPEC_ID) (zd_protocolIds (zp_device p)) @ [COMMIT_DEFAULT_AGREE_SPEC_ID]"
    and "hp_typeId (hello_embedding (run_hello c p)) = HANDSHAKE_TYPE_HELLO"
    and "hp_fits (hello_embedding (run_hello c p))"
    and "hello_verifyMac (zc_sha256 c) (zc_hmac c) (run_hello c p) (h2 (zp_chain p)) = Inr ()"
proof -
  let ?ids = "filter (\<lambda>i. i \<noteq> COMMIT_DEFAULT_AGREE_SPEC_ID) (zd_protocolIds (zp_device p))"
  let ?h = "run_hello c p"
  have dh: "COMMIT_DEFAULT_AGREE_SPEC_ID \<in> set (zd_protocolIds (zp_device p))"
    and four: "\<forall>i \<in> set ?ids. length i = 4" and n: "length ?ids \<le> 7"
    using pa le_trans [OF length_filter_le] by (auto simp: zrtp_party_def)
  have mk: "helloPacketWithVersion (zc_hmac c) (zd_versionId (zp_device p)) (zd_clientId (zp_device p))
      (h3 (zp_chain p)) nullZid 0 0 0 [] [] [] ?ids [] (h2 (zp_chain p)) = Inr ?h"
    using run_hello_built [OF pr pa] dh by (simp add: helloPacketWithDefaults_def getAgreeIds_eq)
  note hm = primitives_8 [OF pr]
  obtain flags mac where fl: "generateFlags (helloFields.truncate ?h) = Inr flags" and mac: "length mac = 8"
    and emb: "hello_embedding ?h = \<lparr>hp_typeId = HANDSHAKE_TYPE_HELLO, hp_payload =
       zd_versionId (zp_device p) @ zd_clientId (zp_device p) @ h3 (zp_chain p) @ nullZid @ flags @ concat (hello_ids ?h) @ mac\<rparr>"
    and h: "?h = \<lparr>hello_versionId = zd_versionId (zp_device p), hello_clientId = zd_clientId (zp_device p),
       hello_hashChainH3 = h3 (zp_chain p), hello_zid = nullZid, hello_flags0SMP = 0, hello_flagsUnusedLow4 = 0,
       hello_flagsUnusedHigh4 = 0, hello_hashIds = [], hello_cipherIds = [], hello_authIds = [], hello_agreeIds = ?ids,
       hello_sasIds = [], hello_embedding = hello_embedding ?h\<rparr>"
    using helloPacketWithVersion_Inr [OF mk hm] by blast
  have sel: "hello_hashIds ?h = []" "hello_cipherIds ?h = []" "hello_authIds ?h = []" "hello_agreeIds ?h = ?ids"
    "hello_sasIds ?h = []" "hello_flagsUnusedLow4 ?h = 0" "hello_flags0SMP ?h = 0" "hello_flagsUnusedHigh4 ?h = 0"
    "hello_hashChainH3 ?h = h3 (zp_chain p)"
    by (subst h, simp)+
  have ids: "hello_ids ?h = ?ids" by (simp add: hello_ids_def sel)
  have "hello_received ?h = ?h"
    by (rule helloPacket.equality) (simp_all add: hello_received_def Let_def sel ids)
  then show "helloPacketParsedFromHandshakePacket (hello_embedding ?h) = Inr ?h"
    using hello_parse_generated [OF mk hm] four by (simp add: ids)
  show "agreeIdsIncludingImplied ?h = ?ids @ [COMMIT_DEFAULT_AGREE_SPEC_ID]"
    by (simp add: agreeIdsIncludingImplied_def sel)
  show "hp_typeId (hello_embedding ?h) = HANDSHAKE_TYPE_HELLO" by (simp add: emb)
  have "length (concat ?ids) \<le> 28" using four n by (simp add: length_concat4)
  moreover have "length flags = 4" using generateFlags_Inr [OF fl] by auto
  ultimately show "hp_fits (hello_embedding ?h)"
    using chain_links [OF pr pa] pa by (simp add: emb hp_fits_def mac ids zrtp_party_def)
  obtain u where "hp_typeId u = HANDSHAKE_TYPE_HELLO"
    and "withHmacAppended (zc_hmac c) u (h2 (zp_chain p)) = Inr (hello_embedding ?h)"
    using hello_mac_appended [OF mk] by blast
  then have "withHmacVerifiedAndRemoved (zc_hmac c) (hello_embedding ?h) (h2 (zp_chain p)) = Inr u"
    by (intro mac_verifies [OF pr]) simp_all
  then show "hello_verifyMac (zc_sha256 c) (zc_hmac c) ?h (h2 (zp_chain p)) = Inr ()"
    using chain_links [OF pr pa] by (simp add: hello_verifyMac_def sel)
qed

subsection \<open>Key agreement packets\<close>

definition dhType :: "bool \<Rightarrow> data" where
  "dhType isPart1 = (if isPart1 then HANDSHAKE_TYPE_DH_1 else HANDSHAKE_TYPE_DH_2)"

definition dhPayload :: "zrtpParty \<Rightarrow> data \<Rightarrow> data" where
  "dhPayload p key = h1 (zp_chain p) @ dh_rs1 (zp_secrets p) @ dh_rs2 (zp_secrets p) @ dh_aux (zp_secrets p) @
     dh_pbx (zp_secrets p) @ key"

lemma secrets_lengths:
  assumes "zrtp_party c p"
  shows "length (dh_rs1 (zp_secrets p)) = 8" "length (dh_rs2 (zp_secrets p)) = 8"
    "length (dh_aux (zp_secrets p)) = 8" "length (dh_pbx (zp_secrets p)) = 8"
proof -
  obtain a b x y where "dhPacketSharedSecretHashesWith a b x y = Inr (zp_secrets p)"
    using assms by (auto simp: zrtp_party_def)
  then show "length (dh_rs1 (zp_secrets p)) = 8" "length (dh_rs2 (zp_secrets p)) = 8"
    "length (dh_aux (zp_secrets p)) = 8" "length (dh_pbx (zp_secrets p)) = 8"
    unfolding dhPacketSharedSecretHashesWith_def ows_require_Inr by (auto dest: sym)
qed

lemma dh_built:
  assumes pr: "zrtp_primitives c" and pa: "zrtp_party c p"
  shows "\<exists>emb. dhPacketWithHashChainH0 (zc_sha256 c) (zc_hmac c) (h0 (zp_chain p)) (zp_secrets p) key part =
      Inr \<lparr>dh_isPart1 = part, dh_sharedSecretHashes = zp_secrets p, dh_publicKeyData = key,
           dh_hashChainH1 = h1 (zp_chain p), dh_embedding = emb\<rparr> \<and>
    withHmacAppended (zc_hmac c) \<lparr>hp_typeId = dhType part, hp_payload = dhPayload p key\<rparr> (h0 (zp_chain p)) = Inr emb \<and>
    hp_typeId emb = dhType part \<and> length (hp_payload emb) = 72 + length key"
  using chain_links [OF pr pa] secrets_lengths [OF pa] primitives_8 [OF pr]
  by (simp add: dhPacketWithHashChainH0_def dh_embedIntoHandshakePacket_def Let_def handshakePacketWithTypeId_def
      withHmacAppended_eq dhType_def dhPayload_def)

text \<open>What a DHPart packet of a party means to the peer, which restores no part number.\<close>

definition dh_arrives :: "zrtpCrypto \<Rightarrow> zrtpParty \<Rightarrow> data \<Rightarrow> bool \<Rightarrow> dhPacket \<Rightarrow> bool" where
  "dh_arrives c p key part d \<longleftrightarrow>
     dhPacketFromHandshakePacket (dh_embedding d) part = Inr (d\<lparr>dh_isPart1 := False\<rparr>) \<and>
     dh_publicKeyData d = key \<and> dh_hashChainH1 d = h1 (zp_chain p) \<and> hp_typeId (dh_embedding d) = dhType part \<and>
     hp_fits (dh_embedding d) \<and>
     dh_verifyMac (zc_sha256 c) (zc_hmac c) (d\<lparr>dh_isPart1 := False\<rparr>) (h0 (zp_chain p)) = Inr ()"

lemma dh_built_arrives:
  assumes pr: "zrtp_primitives c" and pa: "zrtp_party c p" and key: "length key \<le> 4096"
  shows "\<exists>d. dhPacketWithHashChainH0 (zc_sha256 c) (zc_hmac c) (h0 (zp_chain p)) (zp_secrets p) key part = Inr d \<and>
    dh_arrives c p key part d"
proof -
  obtain emb where d: "dhPacketWithHashChainH0 (zc_sha256 c) (zc_hmac c) (h0 (zp_chain p)) (zp_secrets p) key part =
      Inr \<lparr>dh_isPart1 = part, dh_sharedSecretHashes = zp_secrets p, dh_publicKeyData = key,
           dh_hashChainH1 = h1 (zp_chain p), dh_embedding = emb\<rparr>" (is "_ = Inr ?d")
    and mac: "withHmacAppended (zc_hmac c) \<lparr>hp_typeId = dhType part, hp_payload = dhPayload p key\<rparr> (h0 (zp_chain p)) = Inr emb"
    and emb: "hp_typeId emb = dhType part" "length (hp_payload emb) = 72 + length key"
    using dh_built [OF pr pa] by blast
  have "dhPacketSharedSecretHashesWith (dh_rs1 (zp_secrets p)) (dh_rs2 (zp_secrets p)) (dh_aux (zp_secrets p))
      (dh_pbx (zp_secrets p)) = Inr (zp_secrets p)"
    using secrets_lengths [OF pa] by (simp add: dhPacketSharedSecretHashesWith_def)
  then have "dhPacketFromHandshakePacket (dh_embedding ?d) part = Inr (?d\<lparr>dh_isPart1 := False\<rparr>)"
    by (rule dh_packet_roundtrip [OF d primitives_8 [OF pr]])
  moreover have "withHmacVerifiedAndRemoved (zc_hmac c) emb (h0 (zp_chain p)) =
      Inr \<lparr>hp_typeId = dhType part, hp_payload = dhPayload p key\<rparr>"
    by (rule mac_verifies [OF pr _ mac]) (simp add: dhType_def)
  moreover have "hp_fits emb" using emb key by (simp add: hp_fits_def dhType_def)
  ultimately have "dh_arrives c p key part ?d"
    using emb chain_links [OF pr pa] by (simp add: dh_arrives_def dh_verifyMac_def)
  with d show ?thesis by blast
qed

subsection \<open>Agreement on the protocol and its keys\<close>

lemma find_first: "x \<in> set xs \<Longrightarrow> P x \<Longrightarrow> \<exists>y. List.find P xs = Some y \<and> y \<in> set xs \<and> P y"
  by (induction xs) auto

lemma find_equal: "x \<in> set xs \<Longrightarrow> List.find (\<lambda>i. x = i) xs = Some x"
  by (induction xs) auto

lemma run_protocol_agreed:
  assumes "zrtp_peers c p q"
  shows "List.find (\<lambda>i. i \<in> set (agreeIdsIncludingImplied (run_hello c q))) (zd_protocolIds (zp_device p)) =
      Some (run_protocol c p q)"
    and "List.find (\<lambda>i. run_protocol c p q = i) (zd_protocolIds (zp_device q)) = Some (run_protocol c p q)"
    and "length (run_protocol c p q) = 4"
proof -
  have pr: "zrtp_primitives c" and p: "zrtp_party c p" and q: "zrtp_party c q" using assms by (simp_all add: zrtp_peers_def)
  have dhp: "COMMIT_DEFAULT_AGREE_SPEC_ID \<in> set (zd_protocolIds (zp_device p))" using p by (simp add: zrtp_party_def)
  have "COMMIT_DEFAULT_AGREE_SPEC_ID \<in> set (agreeIdsIncludingImplied (run_hello c q))"
    by (simp add: agreeIdsIncludingImplied_def)
  from find_first [of _ _ "\<lambda>i. i \<in> set (agreeIdsIncludingImplied (run_hello c q))", OF dhp this]
  obtain y where y: "List.find (\<lambda>i. i \<in> set (agreeIdsIncludingImplied (run_hello c q))) (zd_protocolIds (zp_device p)) = Some y"
    "y \<in> set (zd_protocolIds (zp_device p))" "y \<in> set (agreeIdsIncludingImplied (run_hello c q))"
    by blast
  then have r: "run_protocol c p q = y" by (simp add: run_protocol_def)
  show "List.find (\<lambda>i. i \<in> set (agreeIdsIncludingImplied (run_hello c q))) (zd_protocolIds (zp_device p)) =
      Some (run_protocol c p q)" using y r by simp
  have "y \<in> set (zd_protocolIds (zp_device q))"
    using y(3) q by (auto simp: run_hello_arrives(2) [OF pr q] zrtp_party_def)
  then show "List.find (\<lambda>i. run_protocol c p q = i) (zd_protocolIds (zp_device q)) = Some (run_protocol c p q)"
    by (simp add: r find_equal)
  show "length (run_protocol c p q) = 4" using y(2) p r by (simp add: zrtp_party_def)
qed

lemma generate_works:
  assumes "zrtp_party c p"
  shows "\<exists>k. zd_generate (zp_device p) i n = Inr k \<and> ka_protocolId k = i \<and> length (ka_publicKeyData k) \<le> 4096"
  using assms by (simp add: zrtp_party_def)

lemma run_keys:
  assumes "zrtp_peers c p q"
  shows "zd_generate (zp_device p) (run_protocol c p q) 0 = Inr (run_keysI c p q)"
    and "zd_generate (zp_device q) (run_protocol c p q) 0 = Inr (run_keysR c p q)"
    and "ka_protocolId (run_keysI c p q) = run_protocol c p q"
    and "length (ka_publicKeyData (run_keysI c p q)) \<le> 4096" "length (ka_publicKeyData (run_keysR c p q)) \<le> 4096"
    and "ka_calculate (run_keysI c p q) (ka_publicKeyData (run_keysR c p q)) = Inr (run_secret c p q)"
    and "ka_calculate (run_keysR c p q) (ka_publicKeyData (run_keysI c p q)) = Inr (run_secret c p q)"
proof -
  have p: "zrtp_party c p" and q: "zrtp_party c q" and a: "keys_agree (zp_device p) (zp_device q)"
    using assms by (simp_all add: zrtp_peers_def)
  from generate_works [OF p, of "run_protocol c p q" 0]
  show i: "zd_generate (zp_device p) (run_protocol c p q) 0 = Inr (run_keysI c p q)"
    and "ka_protocolId (run_keysI c p q) = run_protocol c p q" "length (ka_publicKeyData (run_keysI c p q)) \<le> 4096"
    by (auto simp: run_keysI_def)
  from generate_works [OF q, of "run_protocol c p q" 0]
  show r: "zd_generate (zp_device q) (run_protocol c p q) 0 = Inr (run_keysR c p q)"
    and "length (ka_publicKeyData (run_keysR c p q)) \<le> 4096"
    by (auto simp: run_keysR_def)
  obtain x where "ka_calculate (run_keysI c p q) (ka_publicKeyData (run_keysR c p q)) = Inr x"
    and "ka_calculate (run_keysR c p q) (ka_publicKeyData (run_keysI c p q)) = Inr x"
    using a i r unfolding keys_agree_def by blast
  then show "ka_calculate (run_keysI c p q) (ka_publicKeyData (run_keysR c p q)) = Inr (run_secret c p q)"
    and "ka_calculate (run_keysR c p q) (ka_publicKeyData (run_keysI c p q)) = Inr (run_secret c p q)"
    by (simp_all add: run_secret_def)
qed

lemma run_dh_built:
  assumes "zrtp_peers c p q"
  shows "dh2PacketWithHashChain (zc_sha256 c) (zc_hmac c) (zp_chain p) (zp_secrets p)
      (ka_publicKeyData (run_keysI c p q)) = Inr (run_dh2 c p q)"
    and "dh_arrives c p (ka_publicKeyData (run_keysI c p q)) False (run_dh2 c p q)"
    and "dh1PacketWithHashChain (zc_sha256 c) (zc_hmac c) (zp_chain q) (zp_secrets q)
      (ka_publicKeyData (run_keysR c p q)) = Inr (run_dh1 c p q)"
    and "dh_arrives c q (ka_publicKeyData (run_keysR c p q)) True (run_dh1 c p q)"
proof -
  have pr: "zrtp_primitives c" and p: "zrtp_party c p" and q: "zrtp_party c q" using assms by (simp_all add: zrtp_peers_def)
  from dh_built_arrives [OF pr p run_keys(4) [OF assms], of False]
  show "dh2PacketWithHashChain (zc_sha256 c) (zc_hmac c) (zp_chain p) (zp_secrets p)
      (ka_publicKeyData (run_keysI c p q)) = Inr (run_dh2 c p q)"
    and "dh_arrives c p (ka_publicKeyData (run_keysI c p q)) False (run_dh2 c p q)"
    by (auto simp: run_dh2_def dh2PacketWithHashChain_def)
  from dh_built_arrives [OF pr q run_keys(5) [OF assms], of True]
  show "dh1PacketWithHashChain (zc_sha256 c) (zc_hmac c) (zp_chain q) (zp_secrets q)
      (ka_publicKeyData (run_keysR c p q)) = Inr (run_dh1 c p q)"
    and "dh_arrives c q (ka_publicKeyData (run_keysR c p q)) True (run_dh1 c p q)"
    by (auto simp: run_dh1_def dh1PacketWithHashChain_def)
qed

subsection \<open>Commit\<close>

definition run_commitBody :: "zrtpCrypto \<Rightarrow> zrtpParty \<Rightarrow> zrtpParty \<Rightarrow> handshakePacket" where
  "run_commitBody c p q = \<lparr>hp_typeId = HANDSHAKE_TYPE_COMMIT, hp_payload =
     h2 (zp_chain p) @ nullZid @ COMMIT_DEFAULT_HASH_SPEC_ID @ COMMIT_DEFAULT_CIPHER_SPEC_ID @
     COMMIT_DEFAULT_AUTH_SPEC_ID @ run_protocol c p q @ COMMIT_DEFAULT_SAS_SPEC_ID @
     commitment (zc_sha256 c) (dh_embedding (run_dh2 c p q)) (hello_embedding (run_hello c q))\<rparr>"

lemma run_commit_built:
  assumes "zrtp_peers c p q"
  shows "commitPacketWithDefaultSpecs (zc_sha256 c) (zc_hmac c) (run_protocol c p q) (zp_chain p)
      nullZid (run_hello c q) (run_dh2 c p q) = Inr (run_commit c p q)" (is ?built)
    and "commitPacketParsedFromHandshakePacket (commit_embedding (run_commit c p q)) = Inr (run_commit c p q)" (is ?parse)
    and "commit_h2 (run_commit c p q) = h2 (zp_chain p)" "commit_agreementSpecId (run_commit c p q) = run_protocol c p q"
    and "hp_typeId (commit_embedding (run_commit c p q)) = HANDSHAKE_TYPE_COMMIT" "hp_fits (commit_embedding (run_commit c p q))"
    and "commit_verifyMac (zc_sha256 c) (zc_hmac c) (run_commit c p q) (h1 (zp_chain p)) = Inr ()"
    and "verifyCommitment (zc_sha256 c) (run_commit c p q) (run_hello c q) ((run_dh2 c p q)\<lparr>dh_isPart1 := False\<rparr>) = Inr ()"
proof -
  have pr: "zrtp_primitives c" and p: "zrtp_party c p" using assms by (simp_all add: zrtp_peers_def)
  let ?co = "commitment (zc_sha256 c) (dh_embedding (run_dh2 c p q)) (hello_embedding (run_hello c q))"
  have co: "length ?co = 32" using pr by (simp add: commitment_def zrtp_primitives_def)
  have "\<exists>emb. commitPacketWithDefaultSpecs (zc_sha256 c) (zc_hmac c) (run_protocol c p q) (zp_chain p)
      nullZid (run_hello c q) (run_dh2 c p q) = Inr \<lparr>commit_h2 = h2 (zp_chain p),
        commit_hashSpecId = COMMIT_DEFAULT_HASH_SPEC_ID, commit_cipherSpecId = COMMIT_DEFAULT_CIPHER_SPEC_ID,
        commit_authSpecId = COMMIT_DEFAULT_AUTH_SPEC_ID, commit_agreementSpecId = run_protocol c p q,
        commit_sasSpecId = COMMIT_DEFAULT_SAS_SPEC_ID, commit_zid = nullZid,
        commit_dhPart2HelloCommitment = ?co, commit_embedding = emb\<rparr> \<and>
      withHmacAppended (zc_hmac c) (run_commitBody c p q) (h1 (zp_chain p)) = Inr emb \<and>
      hp_typeId emb = HANDSHAKE_TYPE_COMMIT \<and> length (hp_payload emb) = 104"
    using chain_links [OF pr p] run_protocol_agreed(3) [OF assms] primitives_8 [OF pr] co
    by (simp add: commitPacketWithDefaultSpecs_def commitPacketWithHashChainH2_def commit_embedInHandshakePacket_def Let_def
        handshakePacketWithTypeId_def withHmacAppended_eq run_commitBody_def)
  then obtain emb where mk: "commitPacketWithDefaultSpecs (zc_sha256 c) (zc_hmac c) (run_protocol c p q) (zp_chain p)
      nullZid (run_hello c q) (run_dh2 c p q) = Inr \<lparr>commit_h2 = h2 (zp_chain p),
        commit_hashSpecId = COMMIT_DEFAULT_HASH_SPEC_ID, commit_cipherSpecId = COMMIT_DEFAULT_CIPHER_SPEC_ID,
        commit_authSpecId = COMMIT_DEFAULT_AUTH_SPEC_ID, commit_agreementSpecId = run_protocol c p q,
        commit_sasSpecId = COMMIT_DEFAULT_SAS_SPEC_ID, commit_zid = nullZid,
        commit_dhPart2HelloCommitment = ?co, commit_embedding = emb\<rparr>" (is "_ = Inr ?c")
    and mac: "withHmacAppended (zc_hmac c) (run_commitBody c p q) (h1 (zp_chain p)) = Inr emb"
    and emb: "hp_typeId emb = HANDSHAKE_TYPE_COMMIT" "length (hp_payload emb) = 104"
    by blast
  have r: "run_commit c p q = ?c" using mk by (simp add: run_commit_def)
  show ?built using mk r by simp
  show ?parse
    using commit_packet_roundtrip [OF mk [unfolded commitPacketWithDefaultSpecs_def] primitives_8 [OF pr] length_nullZid co]
    by (simp add: r)
  show "commit_h2 (run_commit c p q) = h2 (zp_chain p)" "commit_agreementSpecId (run_commit c p q) = run_protocol c p q"
    and "hp_typeId (commit_embedding (run_commit c p q)) = HANDSHAKE_TYPE_COMMIT" "hp_fits (commit_embedding (run_commit c p q))"
    using emb by (simp_all add: r hp_fits_def)
  have "withHmacVerifiedAndRemoved (zc_hmac c) emb (h1 (zp_chain p)) = Inr (run_commitBody c p q)"
    by (rule mac_verifies [OF pr _ mac]) (simp add: run_commitBody_def)
  then show "commit_verifyMac (zc_sha256 c) (zc_hmac c) (run_commit c p q) (h1 (zp_chain p)) = Inr ()"
    using chain_links [OF pr p] by (simp add: commit_verifyMac_def r)
  show "verifyCommitment (zc_sha256 c) (run_commit c p q) (run_hello c q) ((run_dh2 c p q)\<lparr>dh_isPart1 := False\<rparr>) = Inr ()"
    by (simp add: verifyCommitment_def r)
qed

subsection \<open>Keys and confirmations\<close>

lemma masterSecret_part [simp]:
  "masterSecretFromDhResult s m r hi hr co (d1\<lparr>dh_isPart1 := x\<rparr>) d2 = masterSecretFromDhResult s m r hi hr co d1 d2"
  "masterSecretFromDhResult s m r hi hr co d1 (d2\<lparr>dh_isPart1 := x\<rparr>) = masterSecretFromDhResult s m r hi hr co d1 d2"
  by (simp_all add: masterSecretFromDhResult_def calculateTotalHash_def Let_def)

lemma run_masterSecret_built:
  assumes "zrtp_peers c p q"
  shows "masterSecretFromDhResult (zc_sha256 c) (zc_hmac c) (run_secret c p q) (run_hello c p) (run_hello c q)
      (run_commit c p q) (run_dh1 c p q) (run_dh2 c p q) = Inr (run_masterSecret c p q)"
    and "ms_wf (run_masterSecret c p q)"
proof -
  have "\<forall>k d. 20 \<le> length (zc_hmac c k d)" using assms by (simp add: zrtp_peers_def zrtp_primitives_def)
  from masterSecretFromDhResult_ok [OF this, of "zc_sha256 c" "run_secret c p q" "run_hello c p" "run_hello c q" "run_commit c p q"
      "run_dh1 c p q" "run_dh2 c p q"]
  show "masterSecretFromDhResult (zc_sha256 c) (zc_hmac c) (run_secret c p q) (run_hello c p) (run_hello c q)
      (run_commit c p q) (run_dh1 c p q) (run_dh2 c p q) = Inr (run_masterSecret c p q)"
    and "ms_wf (run_masterSecret c p q)"
    by (auto simp: run_masterSecret_def)
qed

definition confirmType :: "bool \<Rightarrow> data" where
  "confirmType isPart1 = (if isPart1 then HANDSHAKE_TYPE_CONFIRM_1 else HANDSHAKE_TYPE_CONFIRM_2)"

definition confirm_arrives :: "zrtpCrypto \<Rightarrow> zrtpParty \<Rightarrow> data \<Rightarrow> data \<Rightarrow> bool \<Rightarrow> confirmPacket \<Rightarrow> bool" where
  "confirm_arrives c p mac key part x \<longleftrightarrow>
     (\<exists>y. confirmPacketParsedFromHandshakePacket (zc_hmac c) (zc_aesDecrypt c) (confirm_embedding x) mac key part = Inr y \<and>
          confirm_hashChainH0 y = h0 (zp_chain p)) \<and>
     hp_typeId (confirm_embedding x) = confirmType part \<and> hp_fits (confirm_embedding x)"

lemma confirm_built:
  assumes pr: "zrtp_primitives c" and pa: "zrtp_party c p"
  shows "\<exists>x. confirmPacketWithHashChainH0 (zc_hmac c) (zc_aesEncrypt c) (h0 (zp_chain p)) u i mac key (zp_confirmIv p) part =
      Inr x \<and> confirm_arrives c p mac key part x"
proof -
  have iv: "length (zp_confirmIv p) = 16" using pa by (simp add: zrtp_party_def)
  have aes: "\<forall>k v d. length (zc_aesEncrypt c k v d) = length d \<and> zc_aesDecrypt c k v (zc_aesEncrypt c k v d) = d"
    using pr by (simp add: zrtp_primitives_def)
  have "\<exists>x. confirmPacketWithHashChainH0 (zc_hmac c) (zc_aesEncrypt c) (h0 (zp_chain p)) u i mac key (zp_confirmIv p) part = Inr x \<and>
      confirm_hashChainH0 x = h0 (zp_chain p) \<and> hp_typeId (confirm_embedding x) = confirmType part \<and>
      length (hp_payload (confirm_embedding x)) = 64"
    using chain_links [OF pr pa] iv primitives_8 [OF pr] aes
    by (simp add: confirmPacketWithHashChainH0_def confirm_generateEmbedding_def Let_def handshakePacketWithTypeId_def
        confirmType_def subdata_simps)
  then obtain x where x: "confirmPacketWithHashChainH0 (zc_hmac c) (zc_aesEncrypt c) (h0 (zp_chain p)) u i mac key (zp_confirmIv p) part = Inr x"
    and "confirm_hashChainH0 x = h0 (zp_chain p)" "hp_typeId (confirm_embedding x) = confirmType part"
      "length (hp_payload (confirm_embedding x)) = 64"
    by blast
  then have "confirm_arrives c p mac key part x"
    using confirm_packet_roundtrip [OF x primitives_8 [OF pr] aes] by (simp add: confirm_arrives_def hp_fits_def confirmType_def)
  with x show ?thesis by blast
qed

lemma run_confirm_built:
  assumes "zrtp_peers c p q"
  shows "confirm1PacketWithHashChain (zc_hmac c) (zc_aesEncrypt c) (zp_chain q) (ms_responderMacKey (run_masterSecret c p q))
      (ms_responderZrtpKey (run_masterSecret c p q)) (zp_confirmIv q) = Inr (run_confirm1 c p q)"
    and "confirm_arrives c q (ms_responderMacKey (run_masterSecret c p q)) (ms_responderZrtpKey (run_masterSecret c p q))
      True (run_confirm1 c p q)"
    and "confirm2PacketWithHashChain (zc_hmac c) (zc_aesEncrypt c) (zp_chain p) (ms_initiatorMacKey (run_masterSecret c p q))
      (ms_initiatorZrtpKey (run_masterSecret c p q)) (zp_confirmIv p) = Inr (run_confirm2 c p q)"
    and "confirm_arrives c p (ms_initiatorMacKey (run_masterSecret c p q)) (ms_initiatorZrtpKey (run_masterSecret c p q))
      False (run_confirm2 c p q)"
proof -
  have pr: "zrtp_primitives c" and p: "zrtp_party c p" and q: "zrtp_party c q" using assms by (simp_all add: zrtp_peers_def)
  from confirm_built [OF pr q]
  show "confirm1PacketWithHashChain (zc_hmac c) (zc_aesEncrypt c) (zp_chain q) (ms_responderMacKey (run_masterSecret c p q))
      (ms_responderZrtpKey (run_masterSecret c p q)) (zp_confirmIv q) = Inr (run_confirm1 c p q)"
    and "confirm_arrives c q (ms_responderMacKey (run_masterSecret c p q)) (ms_responderZrtpKey (run_masterSecret c p q))
      True (run_confirm1 c p q)"
    by (metis run_confirm1_def confirm1PacketWithHashChain_def sum.sel(2))+
  from confirm_built [OF pr p]
  show "confirm2PacketWithHashChain (zc_hmac c) (zc_aesEncrypt c) (zp_chain p) (ms_initiatorMacKey (run_masterSecret c p q))
      (ms_initiatorZrtpKey (run_masterSecret c p q)) (zp_confirmIv p) = Inr (run_confirm2 c p q)"
    and "confirm_arrives c p (ms_initiatorMacKey (run_masterSecret c p q)) (ms_initiatorZrtpKey (run_masterSecret c p q))
      False (run_confirm2 c p q)"
    by (metis run_confirm2_def confirm2PacketWithHashChain_def sum.sel(2))+
qed

end
