(* ===== verification/ZrtpPhases.thy ===== *)
theory ZrtpPhases
  imports ZrtpRun
begin

text \<open>
  The states that two parties following the protocol pass through: the initiator's six and the
  responder's five, each with the number of packets it found bad so far, and the packets sent on
  entering them. Each role moves to its next state on exactly one packet of its peer, and on a
  packet of another type it only counts a bad packet.
\<close>

subsection \<open>States and packets\<close>

definition securing :: "zrtpParty \<Rightarrow> callController" where
  "securing p = snd (advanceCallProgressTo CallProgressType_Securing (zp_callController p))"

definition after :: "nat \<Rightarrow> nat \<Rightarrow> 'a \<Rightarrow> 'a option" where
  "after k n x = (if n \<le> k then Some x else None)"

definition zi_phase :: "zrtpCrypto \<Rightarrow> zrtpParty \<Rightarrow> zrtpParty \<Rightarrow> nat \<Rightarrow> nat \<Rightarrow> zrtpInitiator" where
  "zi_phase c p q b k = \<lparr>zi_packetExpectation = [EXPECTING_HELLO, EXPECTING_HELLO_ACK, EXPECTING_DH, EXPECTING_CONFIRM,
       EXPECTING_CONFIRM_ACK, EXPECTING_NOTHING] ! k,
     zi_hashChain = zp_chain p, zi_dhSharedSecretHashes = zp_secrets p, zi_zid = nullZid, zi_confirmIv = zp_confirmIv p,
     zi_foreignHello = after k 1 (run_hello c q), zi_localHello = after k 1 (run_hello c p),
     zi_participant = after k 1 (run_keysI c p q), zi_localDH = after k 2 (run_dh2 c p q),
     zi_foreignDH = after k 3 ((run_dh1 c p q)\<lparr>dh_isPart1 := False\<rparr>), zi_commitPacket = after k 2 (run_commit c p q),
     zi_masterSecret = after k 3 (run_masterSecret c p q), zi_generated = [0, 1, 2, 2, 2, 2] ! k,
     zi_callController = (if 1 \<le> k then securing p else zp_callController p), zi_badPackets = b\<rparr>"

definition zr_phase :: "zrtpCrypto \<Rightarrow> zrtpParty \<Rightarrow> zrtpParty \<Rightarrow> nat \<Rightarrow> nat \<Rightarrow> zrtpResponder" where
  "zr_phase c p q b k = \<lparr>zr_packetExpectation = [EXPECTING_HELLO, EXPECTING_COMMIT, EXPECTING_DH, EXPECTING_CONFIRM,
       EXPECTING_NOTHING] ! k,
     zr_hashChain = zp_chain q, zr_dhSharedSecretHashes = zp_secrets q, zr_confirmIv = zp_confirmIv q,
     zr_localHello = run_hello c q, zr_foreignHello = after k 1 (run_hello c p),
     zr_foreignCommit = after k 2 (run_commit c p q), zr_participant = after k 2 (run_keysR c p q),
     zr_localDH = after k 2 (run_dh1 c p q), zr_foreignDH = after k 3 ((run_dh2 c p q)\<lparr>dh_isPart1 := False\<rparr>),
     zr_masterSecret = after k 3 (run_masterSecret c p q), zr_generated = [0, 0, 1, 1, 1] ! k,
     zr_callController = securing q, zr_badPackets = b\<rparr>"

text \<open>The packet the initiator sends on entering state \<open>k + 1\<close>, and the responder on entering state \<open>k\<close>.\<close>

definition run_packetI :: "zrtpCrypto \<Rightarrow> zrtpParty \<Rightarrow> zrtpParty \<Rightarrow> nat \<Rightarrow> handshakePacket" where
  "run_packetI c p q k = [hello_embedding (run_hello c p), commit_embedding (run_commit c p q),
     dh_embedding (run_dh2 c p q), confirm_embedding (run_confirm2 c p q)] ! k"

definition emptyPacket :: "data \<Rightarrow> handshakePacket" where
  "emptyPacket typeId = \<lparr>hp_typeId = typeId, hp_payload = []\<rparr>"

definition run_packetR :: "zrtpCrypto \<Rightarrow> zrtpParty \<Rightarrow> zrtpParty \<Rightarrow> nat \<Rightarrow> handshakePacket" where
  "run_packetR c p q k = [hello_embedding (run_hello c q), emptyPacket HANDSHAKE_TYPE_HELLO_ACK,
     dh_embedding (run_dh1 c p q), confirm_embedding (run_confirm1 c p q), emptyPacket HANDSHAKE_TYPE_CONFIRM_ACK] ! k"

definition typeI :: "nat \<Rightarrow> data" where
  "typeI k = [HANDSHAKE_TYPE_HELLO, HANDSHAKE_TYPE_COMMIT, HANDSHAKE_TYPE_DH_2, HANDSHAKE_TYPE_CONFIRM_2] ! k"

definition typeR :: "nat \<Rightarrow> data" where
  "typeR k = [HANDSHAKE_TYPE_HELLO, HANDSHAKE_TYPE_HELLO_ACK, HANDSHAKE_TYPE_DH_1, HANDSHAKE_TYPE_CONFIRM_1,
     HANDSHAKE_TYPE_CONFIRM_ACK] ! k"

lemma less4: "(k :: nat) < 4 \<Longrightarrow> k = 0 \<or> k = 1 \<or> k = 2 \<or> k = 3" by auto
lemma less5: "(k :: nat) < 5 \<Longrightarrow> k = 0 \<or> k = 1 \<or> k = 2 \<or> k = 3 \<or> k = 4" by auto

lemma types_distinct:
  "j < 4 \<Longrightarrow> k < 4 \<Longrightarrow> (typeI j = typeI k) = (j = k)"
  "j < 5 \<Longrightarrow> k < 5 \<Longrightarrow> (typeR j = typeR k) = (j = k)"
proof -
  have "distinct [HANDSHAKE_TYPE_HELLO, HANDSHAKE_TYPE_COMMIT, HANDSHAKE_TYPE_DH_2, HANDSHAKE_TYPE_CONFIRM_2]"
    "distinct [HANDSHAKE_TYPE_HELLO, HANDSHAKE_TYPE_HELLO_ACK, HANDSHAKE_TYPE_DH_1, HANDSHAKE_TYPE_CONFIRM_1,
      HANDSHAKE_TYPE_CONFIRM_ACK]"
    by code_simp+
  from this [THEN nth_eq_iff_index_eq]
  show "j < 4 \<Longrightarrow> k < 4 \<Longrightarrow> (typeI j = typeI k) = (j = k)" "j < 5 \<Longrightarrow> k < 5 \<Longrightarrow> (typeR j = typeR k) = (j = k)"
    by (simp_all add: typeI_def typeR_def)
qed

lemma packet_types:
  assumes "zrtp_peers c p q"
  shows "k < 4 \<Longrightarrow> hp_typeId (run_packetI c p q k) = typeI k \<and> hp_fits (run_packetI c p q k)"
    and "k < 5 \<Longrightarrow> hp_typeId (run_packetR c p q k) = typeR k \<and> hp_fits (run_packetR c p q k)"
proof -
  have pr: "zrtp_primitives c" and p: "zrtp_party c p" and q: "zrtp_party c q" using assms by (simp_all add: zrtp_peers_def)
  note facts = run_hello_arrives [OF pr p] run_hello_arrives [OF pr q] run_commit_built [OF assms]
    run_dh_built [OF assms, unfolded dh_arrives_def dhType_def]
    run_confirm_built [OF assms, unfolded confirm_arrives_def confirmType_def]
  show "k < 4 \<Longrightarrow> hp_typeId (run_packetI c p q k) = typeI k \<and> hp_fits (run_packetI c p q k)"
    using facts by (auto simp: run_packetI_def typeI_def dest!: less4)
  show "k < 5 \<Longrightarrow> hp_typeId (run_packetR c p q k) = typeR k \<and> hp_fits (run_packetR c p q k)"
    using facts by (auto simp: run_packetR_def typeR_def emptyPacket_def hp_fits_def dest!: less5)
qed

subsection \<open>The initiator\<close>

lemma advance_securing:
  assumes "zrtp_party c p"
  shows "advanceCallProgressTo CallProgressType_Securing (zp_callController p) = (Inr (), securing p)"
    and "cc_wf (securing p)" "\<not> cc_cancelled (securing p)"
proof -
  have wf: "cc_wf (zp_callController p)" "\<not> cc_cancelled (zp_callController p)" using assms by (simp_all add: zrtp_party_def)
  then show "advanceCallProgressTo CallProgressType_Securing (zp_callController p) = (Inr (), securing p)"
    by (simp add: securing_def advanceCallProgressTo_def unrestrictedAdvanceCallProgressTo_def progress_order cc_wf_def)
  show "cc_wf (securing p)" "\<not> cc_cancelled (securing p)"
    using wf advance_keeps by (simp_all add: securing_def)
qed

lemmas zi_handlers = zi_handlePacket_def zi_dispatch_def attempt_def Let_def needed_def after_def

lemma zi_step_hello:
  assumes "zrtp_peers c p q"
  shows "zi_handlePacket c (zp_device p) (zi_phase c p q b 0) (run_packetR c p q 0) =
    (Inr (Some (run_packetI c p q 0)), zi_phase c p q b 1)"
proof -
  have pr: "zrtp_primitives c" and p: "zrtp_party c p" and q: "zrtp_party c q" using assms by (simp_all add: zrtp_peers_def)
  show ?thesis
    using run_hello_arrives(1) [OF pr q] run_hello_built [OF pr p] run_protocol_agreed(1) [OF assms]
      run_keys(1) [OF assms] advance_securing(1) [OF p]
    by (simp add: zi_handlers zi_handleHello_def zi_retrieveKeyAgreementParticipant_def zi_phase_def run_packetR_def run_packetI_def)
qed

lemma helloAckParsed: "helloAckPacketParsedFromHandshakePacket (emptyPacket HANDSHAKE_TYPE_HELLO_ACK) =
    Inr (emptyPacket HANDSHAKE_TYPE_HELLO_ACK)"
  by (simp add: helloAckPacketParsedFromHandshakePacket_def emptyPacket_def)

lemma confirmAckParsed: "confirmAckPacketParsedFromHandshakePacket (emptyPacket HANDSHAKE_TYPE_CONFIRM_ACK) =
    Inr (emptyPacket HANDSHAKE_TYPE_CONFIRM_ACK)"
  by (simp add: confirmAckPacketParsedFromHandshakePacket_def emptyPacket_def)

lemma zi_step_helloAck:
  assumes "zrtp_peers c p q"
  shows "zi_handlePacket c (zp_device p) (zi_phase c p q b 1) (run_packetR c p q 1) =
    (Inr (Some (run_packetI c p q 1)), zi_phase c p q b 2)"
proof -
  have p: "zrtp_party c p" using assms by (simp add: zrtp_peers_def)
  obtain k where "zd_generate (zp_device p) (run_protocol c p q) 1 = Inr k" using generate_works [OF p] by blast
  then show ?thesis
    using run_protocol_agreed(1) [OF assms] run_keys(3) [OF assms] run_dh_built(1) [OF assms] run_commit_built(1) [OF assms]
    by (simp add: zi_handlers zi_handleHelloAck_def zi_retrieveKeyAgreementParticipant_def zi_phase_def
        run_packetR_def run_packetI_def helloAckParsed)
qed

lemma zi_step_dh:
  assumes "zrtp_peers c p q"
  shows "zi_handlePacket c (zp_device p) (zi_phase c p q b 2) (run_packetR c p q 2) =
    (Inr (Some (run_packetI c p q 2)), zi_phase c p q b 3)"
proof -
  have pr: "zrtp_primitives c" and q: "zrtp_party c q" using assms by (simp_all add: zrtp_peers_def)
  note dh = run_dh_built(4) [OF assms, unfolded dh_arrives_def]
  have "zc_sha256 c (dh_hashChainH1 (run_dh1 c p q)) = h2 (zp_chain q)"
    using dh chain_links [OF pr q] by simp
  then show ?thesis
    using dh run_hello_arrives(5) [OF pr q] run_keys(6) [OF assms] run_masterSecret_built(1) [OF assms]
    by (simp add: zi_handlers zi_handleDH_def zi_phase_def run_packetR_def run_packetI_def)
qed

lemma zi_step_confirm:
  assumes "zrtp_peers c p q"
  shows "zi_handlePacket c (zp_device p) (zi_phase c p q b 3) (run_packetR c p q 3) =
    (Inr (Some (run_packetI c p q 3)), zi_phase c p q b 4)"
proof -
  obtain y where "confirmPacketParsedFromHandshakePacket (zc_hmac c) (zc_aesDecrypt c) (confirm_embedding (run_confirm1 c p q))
      (ms_responderMacKey (run_masterSecret c p q)) (ms_responderZrtpKey (run_masterSecret c p q)) True = Inr y"
    and "confirm_hashChainH0 y = h0 (zp_chain q)"
    using run_confirm_built(2) [OF assms] by (auto simp: confirm_arrives_def)
  then show ?thesis
    using run_dh_built(4) [OF assms, unfolded dh_arrives_def] run_confirm_built(3) [OF assms]
    by (simp add: zi_handlers zi_handleConfirmOne_def zi_phase_def run_packetR_def run_packetI_def)
qed

lemma zi_step_ack:
  "zi_handlePacket c d (zi_phase c p q b 4) (emptyPacket HANDSHAKE_TYPE_CONFIRM_ACK) = (Inr None, zi_phase c p q b 5)"
  by (simp add: zi_handlers zi_handleConfirmAck_def zi_phase_def confirmAckParsed)

lemma run_packetR_4: "run_packetR c p q 4 = emptyPacket HANDSHAKE_TYPE_CONFIRM_ACK"
  by (simp add: run_packetR_def)

lemma wrong_type:
  "hp_typeId h \<noteq> HANDSHAKE_TYPE_HELLO \<Longrightarrow> helloPacketParsedFromHandshakePacket h = Inl OperationFailed"
  "hp_typeId h \<noteq> HANDSHAKE_TYPE_HELLO_ACK \<Longrightarrow> helloAckPacketParsedFromHandshakePacket h = Inl OperationFailed"
  "hp_typeId h \<noteq> HANDSHAKE_TYPE_COMMIT \<Longrightarrow> commitPacketParsedFromHandshakePacket h = Inl OperationFailed"
  "hp_typeId h \<noteq> HANDSHAKE_TYPE_CONFIRM_ACK \<Longrightarrow> confirmAckPacketParsedFromHandshakePacket h = Inl OperationFailed"
  "hp_typeId h \<noteq> dhType part \<Longrightarrow> dhPacketFromHandshakePacket h part = Inl OperationFailed"
  "hp_typeId h \<noteq> confirmType part \<Longrightarrow>
     confirmPacketParsedFromHandshakePacket m a h mac key part = Inl OperationFailed"
  by (simp_all add: helloPacketParsedFromHandshakePacket_def helloAckPacketParsedFromHandshakePacket_def
      commitPacketParsedFromHandshakePacket_def confirmAckPacketParsedFromHandshakePacket_def
      dhPacketFromHandshakePacket_def dhType_def confirmPacketParsedFromHandshakePacket_def confirmType_def Let_def)

lemma zi_other_type:
  assumes "k < 5" and "hp_typeId h \<noteq> typeR k"
  shows "zi_handlePacket c d (zi_phase c p q b k) h = (Inr None, zi_phase c p q (Suc b) k)"
  using less5 [OF assms(1)] assms(2)
  by (elim disjE)
    (simp_all add: zi_handlers zi_handleHello_def zi_handleHelloAck_def zi_handleDH_def zi_handleConfirmOne_def
      zi_handleConfirmAck_def zi_phase_def typeR_def wrong_type dhType_def confirmType_def)

text \<open>All moves of the initiator.\<close>

lemma zi_moves:
  assumes "zrtp_peers c p q" and "k < 5" and "j < 5"
  shows "zi_handlePacket c (zp_device p) (zi_phase c p q b k) (run_packetR c p q j) =
    (if j = k then (Inr (if k < 4 then Some (run_packetI c p q k) else None), zi_phase c p q b (Suc k))
     else (Inr None, zi_phase c p q (Suc b) k))"
proof (cases "j = k")
  case True
  then show ?thesis
    using less5 [OF assms(2)] zi_step_hello [OF assms(1)] zi_step_helloAck [OF assms(1)] zi_step_dh [OF assms(1)]
      zi_step_confirm [OF assms(1)] zi_step_ack [of c "zp_device p" p q b, unfolded run_packetR_4 [symmetric, of c p q]]
    by (auto simp: eval_nat_numeral)
next
  case False
  then have "hp_typeId (run_packetR c p q j) \<noteq> typeR k"
    using packet_types(2) [OF assms(1,3)] types_distinct(2) [OF assms(3,2)] by simp
  with False show ?thesis using zi_other_type [OF assms(2)] by simp
qed

subsection \<open>The responder\<close>

lemmas zr_handlers = zr_handlePacket_def zr_dispatch_def attempt_def Let_def needed_def after_def

lemma helloAck_built: "helloAckPacket = Inr (emptyPacket HANDSHAKE_TYPE_HELLO_ACK)"
  "confirmAckPacket = Inr (emptyPacket HANDSHAKE_TYPE_CONFIRM_ACK)"
  by (simp_all add: helloAckPacket_def confirmAckPacket_def handshakePacketWithTypeId_def emptyPacket_def)

lemma zr_step_hello:
  assumes "zrtp_peers c p q"
  shows "zr_handlePacket c (zp_device q) (zr_phase c p q b 0) (run_packetI c p q 0) =
    (Inr (Some (run_packetR c p q 1)), zr_phase c p q b 1)"
proof -
  have pr: "zrtp_primitives c" and p: "zrtp_party c p" using assms by (simp_all add: zrtp_peers_def)
  show ?thesis
    using run_hello_arrives(1) [OF pr p]
    by (simp add: zr_handlers zr_handleHello_def zr_phase_def run_packetR_def run_packetI_def helloAck_built)
qed

lemma zr_step_commit:
  assumes "zrtp_peers c p q"
  shows "zr_handlePacket c (zp_device q) (zr_phase c p q b 1) (run_packetI c p q 1) =
    (Inr (Some (run_packetR c p q 2)), zr_phase c p q b 2)"
proof -
  have pr: "zrtp_primitives c" and p: "zrtp_party c p" using assms by (simp_all add: zrtp_peers_def)
  show ?thesis
    using run_commit_built(2-4) [OF assms] run_hello_arrives(5) [OF pr p] run_protocol_agreed(2) [OF assms]
      run_keys(2) [OF assms] run_dh_built(3) [OF assms]
    by (simp add: zr_handlers zr_handleCommit_def zr_retrieveKeyAgreementParticipant_def zr_phase_def
        run_packetR_def run_packetI_def)
qed

lemma zr_step_dh:
  assumes "zrtp_peers c p q"
  shows "zr_handlePacket c (zp_device q) (zr_phase c p q b 2) (run_packetI c p q 2) =
    (Inr (Some (run_packetR c p q 3)), zr_phase c p q b 3)"
proof -
  have pr: "zrtp_primitives c" and p: "zrtp_party c p" using assms by (simp_all add: zrtp_peers_def)
  show ?thesis
    using run_dh_built(2) [OF assms, unfolded dh_arrives_def] run_commit_built(7,8) [OF assms] run_keys(7) [OF assms]
      run_masterSecret_built(1) [OF assms] run_confirm_built(1) [OF assms]
    by (simp add: zr_handlers zr_handleDH_def zr_phase_def run_packetR_def run_packetI_def)
qed

lemma zr_step_confirm:
  assumes "zrtp_peers c p q"
  shows "zr_handlePacket c (zp_device q) (zr_phase c p q b 3) (run_packetI c p q 3) =
    (Inr (Some (run_packetR c p q 4)), zr_phase c p q b 4)"
proof -
  have "\<not> zd_loseConfAck (zp_device q)" using assms by (simp add: zrtp_peers_def zrtp_party_def)
  moreover obtain y where "confirmPacketParsedFromHandshakePacket (zc_hmac c) (zc_aesDecrypt c) (confirm_embedding (run_confirm2 c p q))
      (ms_initiatorMacKey (run_masterSecret c p q)) (ms_initiatorZrtpKey (run_masterSecret c p q)) False = Inr y"
    and "confirm_hashChainH0 y = h0 (zp_chain p)"
    using run_confirm_built(4) [OF assms] by (auto simp: confirm_arrives_def)
  ultimately show ?thesis
    using run_dh_built(2) [OF assms, unfolded dh_arrives_def]
    by (simp add: zr_handlers zr_handleConfirmTwo_def zr_phase_def run_packetR_def run_packetI_def helloAck_built)
qed

lemma zr_other_type:
  assumes "k < 4" and "hp_typeId h \<noteq> typeI k"
  shows "zr_handlePacket c d (zr_phase c p q b k) h = (Inr None, zr_phase c p q (Suc b) k)"
  using less4 [OF assms(1)] assms(2)
  by (elim disjE)
    (simp_all add: zr_handlers zr_handleHello_def zr_handleCommit_def zr_handleDH_def zr_handleConfirmTwo_def
      zr_phase_def typeI_def wrong_type dhType_def confirmType_def)

lemma zr_moves:
  assumes "zrtp_peers c p q" and "k < 4" and "j < 4"
  shows "zr_handlePacket c (zp_device q) (zr_phase c p q b k) (run_packetI c p q j) =
    (if j = k then (Inr (Some (run_packetR c p q (Suc k))), zr_phase c p q b (Suc k))
     else (Inr None, zr_phase c p q (Suc b) k))"
proof (cases "j = k")
  case True
  then show ?thesis
    using less4 [OF assms(2)] zr_step_hello [OF assms(1)] zr_step_commit [OF assms(1)] zr_step_dh [OF assms(1)]
      zr_step_confirm [OF assms(1)]
    by (auto simp: eval_nat_numeral)
next
  case False
  then have "hp_typeId (run_packetI c p q j) \<noteq> typeI k"
    using packet_types(1) [OF assms(1,3)] types_distinct(1) [OF assms(3,2)] by simp
  with False show ?thesis using zr_other_type [OF assms(2)] by simp
qed

end
