(* ===== verification/ZrtpAgreement.thy ===== *)
theory ZrtpAgreement
  imports ZrtpPhases
begin

text \<open>
  A handshake between two devices over a network that loses, delays, duplicates and reorders
  datagrams and adds any that are RTP packets but not handshake packets: an inductive relation on
  the pair of managers, an invariant that places both in the states of \<open>ZrtpPhases\<close>, and from it
  that both always end with the same secret and mirrored keys, and always still can.
\<close>

subsection \<open>The network\<close>

definition zrtp_call :: "zrtpCrypto \<Rightarrow> zrtpParty \<Rightarrow> zrtpParty \<Rightarrow> (zrtpInitiator zrtpManager \<times> zrtpResponder zrtpManager) result" where
  "zrtp_call c p q =
     bindR (asyncPerformHandshakeResponder c (zp_device q) (zrtpHandshakeSocketOverRtp False (zp_interop q)) (zp_chain q)
       (zp_secrets q) (zp_confirmIv q) (zp_callController q)) (\<lambda>mr.
     Inr (asyncPerformHandshakeInitiator c (zp_device p) (zrtpHandshakeSocketOverRtp False (zp_interop p)) (zp_chain p)
       (zp_secrets p) (zp_confirmIv p) (zp_callController p), mr))"

definition notHandshake :: "data \<Rightarrow> bool" where
  "notHandshake d = (case rtpPacketParsedFromPacketData False d of Inl e \<Rightarrow> False
     | Inr x \<Rightarrow> handshakePacketParsedFromRtpPacket False x = Inl OperationFailed)"

definition retransmitting :: "'s zrtpManager \<Rightarrow> bool" where
  "retransmitting m = (case zm_scheduled m of Some (ScheduledRetransmit t) \<Rightarrow> True | _ \<Rightarrow> False)"

inductive zrtp_step :: "zrtpCrypto \<Rightarrow> zrtpParty \<Rightarrow> zrtpParty \<Rightarrow>
    zrtpInitiator zrtpManager \<times> zrtpResponder zrtpManager \<Rightarrow> zrtpInitiator zrtpManager \<times> zrtpResponder zrtpManager \<Rightarrow> bool"
  for c p q where
  toInitiator: "d \<in> set (zs_sent (zm_socket mr)) \<or> notHandshake d \<Longrightarrow>
    zrtp_step c p q (mi, mr) (snd (udp_onReceivedData (initiatorRole c (zp_device p) False) d mi), mr)"
| toResponder: "d \<in> set (zs_sent (zm_socket mi)) \<or> notHandshake d \<Longrightarrow>
    zrtp_step c p q (mi, mr) (mi, snd (udp_onReceivedData (responderRole c (zp_device q)) d mr))"
| initiatorTimer: "retransmitting mi \<Longrightarrow>
    zrtp_step c p q (mi, mr) (snd (zm_timerFires (initiatorRole c (zp_device p) False) mi), mr)"
| responderTimer: "retransmitting mr \<Longrightarrow>
    zrtp_step c p q (mi, mr) (mi, snd (zm_timerFires (responderRole c (zp_device q)) mr))"

subsection \<open>One datagram\<close>

lemma hp_wire_nonempty [simp]: "hp_wire h s \<noteq> []"
proof -
  have "0 < length (hp_wire h s)" by (simp add: hp_wire_def Let_def)
  then show ?thesis by auto
qed

lemma wire_parses:
  assumes "hp_fits h"
  obtains x where "rtpPacketParsedFromPacketData False (hp_wire h s) = Inr x"
    "handshakePacketParsedFromRtpPacket False x = Inr h"
proof -
  let ?c = "dataWithBigEndianBytesOfUInt32 (crc32 (hp_front s (length (hp_body h) + 4) @ hp_body h))"
  have "bindR (rtpPacketParsedFromPacketData False (hp_wire h s)) (handshakePacketParsedFromRtpPacket False) = Inr h"
    using handshakeParsed_eq [of "hp_body h" ?c s] assms
    by (cases h) (simp add: hp_wire_def Let_def bigEndianUInt32At_self hp_fits_def hp_body_def)
  then show ?thesis using that by auto
qed

lemma receive_wire:
  assumes "hp_fits h" and "zs_valid (zm_socket m)" and "\<not> zs_legacy (zm_socket m)"
  shows "udp_onReceivedData role (hp_wire h s) m = udp_catch role (zm_handleHandshakePacket role h m)"
proof -
  obtain x where "rtpPacketParsedFromPacketData False (hp_wire h s) = Inr x"
    "handshakePacketParsedFromRtpPacket False x = Inr h"
    using wire_parses [OF assms(1)] by blast
  then show ?thesis
    using assms by (simp add: udp_onReceivedData_def Let_def attempt_def rs_valueHandler_def zs_packetHandler_def)
qed

lemma receive_other:
  assumes "notHandshake d" and "zs_valid (zm_socket m)" and "\<not> zs_legacy (zm_socket m)"
  shows "\<exists>x. udp_onReceivedData role d m = udp_catch role (zm_errorHandler role OperationFailed (Some x) False m)"
proof -
  obtain x where x: "rtpPacketParsedFromPacketData False d = Inr x"
    "handshakePacketParsedFromRtpPacket False x = Inl OperationFailed"
    using assms(1) by (auto simp: notHandshake_def split: sum.splits)
  moreover have "d \<noteq> []" using x by (auto simp: rtpPacketParsedFromPacketData_def)
  ultimately show ?thesis
    using assms(2,3) by (auto simp: udp_onReceivedData_def Let_def attempt_def rs_valueHandler_def zs_packetHandler_def)
qed

text \<open>The manager after sending a new packet.\<close>

definition zm_answered :: "handshakePacket \<Rightarrow> 's zrtpManager \<Rightarrow> 's zrtpManager" where
  "zm_answered h m = zm_scheduleRetransmit (m\<lparr>zm_currentPacketTransmitCount := 0,
     zm_currentPacketToRetransmit := Some h, zm_socket := zs_sentOne h (zm_socket m)\<rparr>)"

lemma setAndSend_ok:
  "hp_fits h \<Longrightarrow> \<not> zs_legacy (zm_socket m) \<Longrightarrow> \<not> zm_done m \<Longrightarrow>
   zm_setAndSendPacketToTransmit h m = (Inr (), zm_answered h m)"
  by (simp add: zm_setAndSendPacketToTransmit_def transmit_ok zm_answered_def)

lemma zm_answered_simps [simp]:
  "zm_role (zm_answered h m) = zm_role m" "zm_done (zm_answered h m) = zm_done m"
  "zm_cancelled (zm_answered h m) = zm_cancelled m" "zm_socket (zm_answered h m) = zs_sentOne h (zm_socket m)"
  "zm_currentPacketToRetransmit (zm_answered h m) = Some h"
  "zm_futureHandshakeResult (zm_answered h m) = zm_futureHandshakeResult m"
  "retransmitting (zm_answered h m)"
  by (simp_all add: zm_answered_def zm_scheduleRetransmit_def retransmitting_def)

text \<open>What the socket of a party has sent: the first packets of its list, each at least once.\<close>

definition zs_has :: "(nat \<Rightarrow> handshakePacket) \<Rightarrow> nat \<Rightarrow> zrtpHandshakeSocket \<Rightarrow> bool" where
  "zs_has f n z \<longleftrightarrow> \<not> zs_legacy z \<and> zs_valid z \<and> (\<forall>d \<in> set (zs_sent z). \<exists>j s. j < n \<and> d = hp_wire (f j) s) \<and>
     (\<forall>j < n. \<exists>s. hp_wire (f j) s \<in> set (zs_sent z))"

lemma zs_has_next: "zs_has f n z \<Longrightarrow> zs_has f (Suc n) (zs_sentOne (f n) z)"
  by (fastforce simp: zs_has_def zs_sentOne_def less_Suc_eq)

lemma zs_has_again: "zs_has f n z \<Longrightarrow> j < n \<Longrightarrow> zs_has f n (zs_sentOne (f j) z)"
  by (fastforce simp: zs_has_def zs_sentOne_def)

lemma zs_has_valid: "zs_has f n z \<Longrightarrow> zs_valid z" "zs_has f n z \<Longrightarrow> \<not> zs_legacy z"
  by (simp_all add: zs_has_def)

subsection \<open>The initiator's manager\<close>

definition run_socketI :: "zrtpCrypto \<Rightarrow> zrtpParty \<Rightarrow> zrtpParty \<Rightarrow> srtpSocket" where
  "run_socketI c p q = projr (zi_useKeysToSecureRtpSocket (zi_phase c p q 0 5))"

definition run_socketR :: "zrtpCrypto \<Rightarrow> zrtpParty \<Rightarrow> zrtpParty \<Rightarrow> srtpSocket" where
  "run_socketR c p q = projr (zr_useKeysToSecureRtpSocket (zr_phase c p q 0 4))"

definition resultOf :: "srtpSocket \<Rightarrow> masterSecret \<Rightarrow> failureInfo + zrtpHandshakeResult" where
  "resultOf k s = Inr \<lparr>zh_secureRtpSocket = k, zh_masterSecret = s\<rparr>"

definition mi_phase :: "zrtpCrypto \<Rightarrow> zrtpParty \<Rightarrow> zrtpParty \<Rightarrow> nat \<Rightarrow> zrtpInitiator zrtpManager \<Rightarrow> bool" where
  "mi_phase c p q k m \<longleftrightarrow> (\<exists>b. zm_role m = zi_phase c p q b k) \<and> k \<le> 5 \<and>
     zs_has (run_packetI c p q) (min k 4) (zm_socket m) \<and> zm_done m = (k = 5) \<and> \<not> zm_cancelled m \<and>
     zm_currentPacketToRetransmit m = (if k = 0 then None else Some (run_packetI c p q (min k 4 - 1))) \<and>
     zm_futureHandshakeResult m = (if k = 5 then Some (resultOf (run_socketI c p q) (run_masterSecret c p q)) else None) \<and>
     (retransmitting m \<longrightarrow> 0 < k)"

definition mr_phase :: "zrtpCrypto \<Rightarrow> zrtpParty \<Rightarrow> zrtpParty \<Rightarrow> nat \<Rightarrow> zrtpResponder zrtpManager \<Rightarrow> bool" where
  "mr_phase c p q k m \<longleftrightarrow> (\<exists>b. zm_role m = zr_phase c p q b k) \<and> k \<le> 4 \<and>
     zs_has (run_packetR c p q) (Suc k) (zm_socket m) \<and> zm_done m = (k = 4) \<and> \<not> zm_cancelled m \<and>
     zm_currentPacketToRetransmit m = Some (run_packetR c p q k) \<and>
     zm_futureHandshakeResult m = (if k = 4 then Some (resultOf (run_socketR c p q) (run_masterSecret c p q)) else None)"

lemma zi_phase_controller:
  assumes "zrtp_peers c p q"
  shows "\<not> cc_cancelled (zi_callController (zi_phase c p q b k))"
proof -
  have p: "zrtp_party c p" using assms by (simp add: zrtp_peers_def)
  then have "\<not> cc_cancelled (zp_callController p)" by (simp add: zrtp_party_def)
  then show ?thesis using advance_securing(3) [OF p] by (simp add: zi_phase_def)
qed

lemma zr_phase_controller:
  assumes "zrtp_peers c p q"
  shows "\<not> cc_cancelled (zr_callController (zr_phase c p q b k))"
  using assms advance_securing(3) by (auto simp: zr_phase_def zrtp_peers_def)

lemma mi_phase_socket: "mi_phase c p q k m \<Longrightarrow> zs_valid (zm_socket m) \<and> \<not> zs_legacy (zm_socket m)"
  unfolding mi_phase_def using zs_has_valid by blast

lemma mr_phase_socket: "mr_phase c p q k m \<Longrightarrow> zs_valid (zm_socket m) \<and> \<not> zs_legacy (zm_socket m)"
  unfolding mr_phase_def using zs_has_valid by blast

lemma zi_phase_finished: "k \<le> 5 \<Longrightarrow> zi_hasHandshakeFinishedSuccessfully (zi_phase c p q b k) = (k = 5)"
  by (auto simp: zi_hasHandshakeFinishedSuccessfully_def zi_phase_def le_Suc_eq eval_nat_numeral)

lemma zr_phase_finished: "k \<le> 4 \<Longrightarrow> zr_hasHandshakeFinishedSuccessfully (zr_phase c p q b k) = (k = 4)"
  by (auto simp: zr_hasHandshakeFinishedSuccessfully_def zr_phase_def le_Suc_eq eval_nat_numeral)

lemma useKeysI:
  assumes "zrtp_peers c p q"
  shows "zi_useKeysToSecureRtpSocket (zi_phase c p q b 5) = Inr (run_socketI c p q)"
    and "zi_getMasterSecret (zi_phase c p q b 5) = Inr (run_masterSecret c p q)"
  using run_masterSecret_built(2) [OF assms]
  by (simp_all add: run_socketI_def zi_useKeysToSecureRtpSocket_def zi_getMasterSecret_def
      zi_hasHandshakeFinishedSuccessfully_def zi_phase_def after_def needed_def ms_wf_def srtpSocketOverRtp_def
      srtpStreamWithCipherKey_def)

lemma useKeysR:
  assumes "zrtp_peers c p q"
  shows "zr_useKeysToSecureRtpSocket (zr_phase c p q b 4) = Inr (run_socketR c p q)"
    and "zr_getMasterSecret (zr_phase c p q b 4) = Inr (run_masterSecret c p q)"
  using run_masterSecret_built(2) [OF assms]
  by (simp_all add: run_socketR_def zr_useKeysToSecureRtpSocket_def zr_getMasterSecret_def
      zr_hasHandshakeFinishedSuccessfully_def zr_phase_def after_def needed_def ms_wf_def srtpSocketOverRtp_def
      srtpStreamWithCipherKey_def)

text \<open>What the manager does with a packet that its role handles without ending the call.\<close>

lemma handle_eq:
  assumes "\<not> zm_done m" and "role_handlePacket role (zm_role m) h = (Inr r, s)"
    and "\<not> cc_cancelled (role_callController role s)"
  shows "zm_handleHandshakePacket role h m = andThen (zm_respond r (m\<lparr>zm_role := s\<rparr>)) (\<lambda>_ m.
     if role_hasHandshakeFinishedSuccessfully role (zm_role m) then zm_finish role m else (Inr (), m))"
  using assms by (simp add: zm_handleHandshakePacket_def zm_afterController_def attempt_def)

lemma catch_ok [simp]: "udp_catch role (Inr x, m) = (Inr x, m)"
  by (simp add: udp_catch_def)

lemma initiatorRole_simps [simp]:
  "role_handlePacket (initiatorRole c d l) = zi_handlePacket c d"
  "role_callController (initiatorRole c d l) = zi_callController"
  "role_hasHandshakeFinishedSuccessfully (initiatorRole c d l) = zi_hasHandshakeFinishedSuccessfully"
  "role_useKeysToSecureRtpSocket (initiatorRole c d l) = zi_useKeysToSecureRtpSocket"
  "role_getMasterSecret (initiatorRole c d l) = zi_getMasterSecret"
  "role_impliesConf2Ack (initiatorRole c d l) = zi_isAuthenticatedAudioDataImplyingConf2Ack c l"
  by (simp_all add: initiatorRole_def)

lemma responderRole_simps [simp]:
  "role_handlePacket (responderRole c d) = zr_handlePacket c d"
  "role_callController (responderRole c d) = zr_callController"
  "role_hasHandshakeFinishedSuccessfully (responderRole c d) = zr_hasHandshakeFinishedSuccessfully"
  "role_useKeysToSecureRtpSocket (responderRole c d) = zr_useKeysToSecureRtpSocket"
  "role_getMasterSecret (responderRole c d) = zr_getMasterSecret"
  "role_impliesConf2Ack (responderRole c d) = zr_isAuthenticatedAudioDataImplyingConf2Ack"
  by (simp_all add: responderRole_def)

text \<open>The packet it waits for takes the initiator's manager to its next phase; others leave it there.\<close>

lemma mi_packet:
  assumes pe: "zrtp_peers c p q" and m: "mi_phase c p q k m" and j: "j < 5"
  shows "\<exists>m'. zm_handleHandshakePacket (initiatorRole c (zp_device p) False) (run_packetR c p q j) m = (Inr (), m') \<and>
    mi_phase c p q (if j = k then Suc k else k) m'"
proof (cases "k < 5")
  case False
  then have "k = 5" using m by (simp add: mi_phase_def)
  then show ?thesis using m j by (auto simp: zm_handleHandshakePacket_def mi_phase_def)
next
  case True
  obtain b where b: "zm_role m = zi_phase c p q b k" using m by (auto simp: mi_phase_def)
  have nd: "\<not> zm_done m" using m True by (simp add: mi_phase_def)
  have nf: "\<not> zi_hasHandshakeFinishedSuccessfully (zi_phase c p q b' k)" for b' using True by (simp add: zi_phase_finished)
  note cc = zi_phase_controller [OF pe]
  consider "j \<noteq> k" | "j = k" "k < 4" | "j = k" "k = 4" using True by linarith
  then show ?thesis
  proof cases
    case 1
    have "zi_handlePacket c (zp_device p) (zm_role m) (run_packetR c p q j) = (Inr None, zi_phase c p q (Suc b) k)"
      using zi_moves [OF pe True j, of b] 1 b by simp
    then show ?thesis
      using 1 m nd nf cc by (auto simp: handle_eq zm_respond_def andThen_def mi_phase_def retransmitting_def)
  next
    case 2
    let ?n = "m\<lparr>zm_role := zi_phase c p q b (Suc k)\<rparr>"
    have "zi_handlePacket c (zp_device p) (zm_role m) (run_packetR c p q j) =
        (Inr (Some (run_packetI c p q k)), zi_phase c p q b (Suc k))"
      using zi_moves [OF pe True j, of b] 2 b by simp
    moreover have "zm_respond (Some (run_packetI c p q k)) ?n = (Inr (), zm_answered (run_packetI c p q k) ?n)"
      using mi_phase_socket [OF m] nd 2 packet_types(1) [OF pe] by (simp add: zm_respond_def setAndSend_ok)
    moreover have "\<not> zi_hasHandshakeFinishedSuccessfully (zi_phase c p q b (Suc k))" using 2 by (simp add: zi_phase_finished)
    ultimately have "zm_handleHandshakePacket (initiatorRole c (zp_device p) False) (run_packetR c p q j) m =
        (Inr (), zm_answered (run_packetI c p q k) ?n)"
      using nd cc by (simp add: handle_eq andThen_def)
    moreover have "mi_phase c p q (Suc k) (zm_answered (run_packetI c p q k) ?n)"
      using m 2 zs_has_next [of "run_packetI c p q" k "zm_socket m"] by (auto simp: mi_phase_def min_def)
    ultimately show ?thesis using 2 by auto
  next
    case 3
    have "zi_handlePacket c (zp_device p) (zm_role m) (run_packetR c p q j) = (Inr None, zi_phase c p q b 5)"
      using zi_moves [OF pe True j, of b] 3 b by simp
    then have "zm_handleHandshakePacket (initiatorRole c (zp_device p) False) (run_packetR c p q j) m =
        zm_finish (initiatorRole c (zp_device p) False) (m\<lparr>zm_role := zi_phase c p q b 5\<rparr>)"
      using nd cc by (simp add: handle_eq zm_respond_def andThen_def zi_phase_finished)
    moreover have "zm_futureHandshakeResult m = None" using m 3 by (simp add: mi_phase_def)
    ultimately show ?thesis
      using m 3 useKeysI [OF pe] by (auto simp: zm_finish_def attempt_def mi_phase_def resultOf_def)
  qed
qed

lemma mi_receive:
  assumes pe: "zrtp_peers c p q" and m: "mi_phase c p q k m" and j: "j < 5"
  shows "mi_phase c p q (if j = k then Suc k else k)
    (snd (udp_onReceivedData (initiatorRole c (zp_device p) False) (hp_wire (run_packetR c p q j) s) m))"
  using mi_packet [OF assms] packet_types(2) [OF pe j] mi_phase_socket [OF m] by (auto simp: receive_wire)

lemma implies_state:
  "zi_isAuthenticatedAudioDataImplyingConf2Ack c l s x \<noteq> Inl OperationFailed \<and>
   (zi_isAuthenticatedAudioDataImplyingConf2Ack c l s x = Inr True \<longrightarrow> zi_packetExpectation s = EXPECTING_CONFIRM_ACK)"
  by (auto simp: zi_isAuthenticatedAudioDataImplyingConf2Ack_def split: option.split sum.split exn.split)

text \<open>Authenticated audio counts as the last packet; nothing else that is not a handshake packet matters.\<close>

lemma mi_receive_other:
  assumes pe: "zrtp_peers c p q" and m: "mi_phase c p q k m" and d: "notHandshake d"
  shows "\<exists>k'. (k' = k \<or> k = 4 \<and> k' = 5) \<and>
    mi_phase c p q k' (snd (udp_onReceivedData (initiatorRole c (zp_device p) False) d m))"
proof -
  let ?r = "initiatorRole c (zp_device p) False"
  obtain x where x: "udp_onReceivedData ?r d m = udp_catch ?r (zm_errorHandler ?r OperationFailed (Some x) False m)"
    using receive_other [OF d] mi_phase_socket [OF m] by blast
  obtain b where b: "zm_role m = zi_phase c p q b k" and k: "k \<le> 5" using m by (auto simp: mi_phase_def)
  define i where "i = zi_isAuthenticatedAudioDataImplyingConf2Ack c False (zm_role m) (Some x)"
  have i: "i \<noteq> Inl OperationFailed" "i = Inr True \<Longrightarrow> zi_packetExpectation (zm_role m) = EXPECTING_CONFIRM_ACK"
    using implies_state [of c False "zm_role m" "Some x"] by (auto simp: i_def)
  consider e where "i = Inl e" "e \<noteq> OperationFailed" | "i = Inr False" | "i = Inr True" using i(1) by (cases i) auto
  then show ?thesis
  proof cases
    case (1 e)
    then have "udp_onReceivedData ?r d m = (Inl e, m)"
      by (cases e) (simp_all add: x zm_errorHandler_def attempt_def i_def [symmetric] udp_catch_def)
    with m show ?thesis by auto
  next
    case 2
    then have "udp_onReceivedData ?r d m = (Inr (), m)"
      by (simp add: x zm_errorHandler_def attempt_def i_def [symmetric])
    with m show ?thesis by auto
  next
    case 3
    then have "k = 4" using i(2) b k by (auto simp: zi_phase_def le_Suc_eq eval_nat_numeral)
    moreover obtain m' where "zm_handleHandshakePacket ?r (run_packetR c p q 4) m = (Inr (), m')" and "mi_phase c p q 5 m'"
      using mi_packet [OF pe m, of 4] \<open>k = 4\<close> by auto
    moreover have "zm_errorHandler ?r OperationFailed (Some x) False m = zm_handleHandshakePacket ?r (run_packetR c p q 4) m"
      using 3 by (simp add: zm_errorHandler_def attempt_def i_def [symmetric] helloAck_built run_packetR_4)
    ultimately show ?thesis by (auto simp: x)
  qed
qed

lemma mi_timer:
  assumes pe: "zrtp_peers c p q" and m: "mi_phase c p q k m" and r: "retransmitting m"
  shows "mi_phase c p q k (snd (zm_timerFires (initiatorRole c (zp_device p) False) m))"
proof -
  obtain t where t: "zm_scheduled m = Some (ScheduledRetransmit t)"
    using r by (auto simp: retransmitting_def split: option.splits scheduledAction.splits)
  have k: "0 < k" "k \<le> 5" using m r by (simp_all add: mi_phase_def)
  show ?thesis
  proof (cases "k = 5")
    case True
    then show ?thesis using m t by (simp add: zm_timerFires_def zm_handleRetransmit_def mi_phase_def retransmitting_def)
  next
    case False
    let ?h = "run_packetI c p q (min k 4 - 1)"
    have j: "min k 4 - 1 < min k 4" "min k 4 - 1 < 4" using k by auto
    have "zm_timerFires (initiatorRole c (zp_device p) False) m = (Inr (), m\<lparr>zm_socket := zs_sentOne ?h (zm_socket m),
        zm_currentPacketTransmitCount := 1, zm_scheduled := Some (ScheduledRetransmit 150)\<rparr>)"
      using m False k t packet_types(1) [OF pe j(2)] mi_phase_socket [OF m]
      by (intro timer_retransmits) (auto simp: mi_phase_def)
    then show ?thesis
      using m k zs_has_again [OF _ j(1)] by (auto simp: mi_phase_def retransmitting_def)
  qed
qed

subsection \<open>The responder's manager\<close>

lemma mr_packet:
  assumes pe: "zrtp_peers c p q" and m: "mr_phase c p q k m" and j: "j < 4"
  shows "\<exists>m'. zm_handleHandshakePacket (responderRole c (zp_device q)) (run_packetI c p q j) m = (Inr (), m') \<and>
    mr_phase c p q (if j = k then Suc k else k) m'"
proof (cases "k < 4")
  case False
  then have "k = 4" using m by (simp add: mr_phase_def)
  then show ?thesis using m j by (auto simp: zm_handleHandshakePacket_def mr_phase_def)
next
  case True
  obtain b where b: "zm_role m = zr_phase c p q b k" using m by (auto simp: mr_phase_def)
  have nd: "\<not> zm_done m" using m True by (simp add: mr_phase_def)
  note cc = zr_phase_controller [OF pe]
  show ?thesis
  proof (cases "j = k")
    case False
    have "zr_handlePacket c (zp_device q) (zm_role m) (run_packetI c p q j) = (Inr None, zr_phase c p q (Suc b) k)"
      using zr_moves [OF pe True j, of b] False b by simp
    moreover have "\<not> zr_hasHandshakeFinishedSuccessfully (zr_phase c p q (Suc b) k)" using True by (simp add: zr_phase_finished)
    ultimately show ?thesis
      using False m nd cc by (auto simp: handle_eq zm_respond_def andThen_def mr_phase_def)
  next
    case eq: True
    let ?h = "run_packetR c p q (Suc k)"
    let ?n = "zm_answered ?h (m\<lparr>zm_role := zr_phase c p q b (Suc k)\<rparr>)"
    have "zr_handlePacket c (zp_device q) (zm_role m) (run_packetI c p q j) = (Inr (Some ?h), zr_phase c p q b (Suc k))"
      using zr_moves [OF pe True j, of b] eq b by simp
    moreover have "zm_respond (Some ?h) (m\<lparr>zm_role := zr_phase c p q b (Suc k)\<rparr>) = (Inr (), ?n)"
      using mr_phase_socket [OF m] nd True packet_types(2) [OF pe, of "Suc k"] by (simp add: zm_respond_def setAndSend_ok)
    ultimately have h: "zm_handleHandshakePacket (responderRole c (zp_device q)) (run_packetI c p q j) m =
        (if Suc k = 4 then zm_finish (responderRole c (zp_device q)) ?n else (Inr (), ?n))"
      using nd cc True by (simp add: handle_eq andThen_def zr_phase_finished)
    have sent: "zs_has (run_packetR c p q) (Suc (Suc k)) (zs_sentOne ?h (zm_socket m))"
      using m zs_has_next [of "run_packetR c p q" "Suc k"] by (simp add: mr_phase_def)
    show ?thesis
    proof (cases "Suc k = 4")
      case False
      then have "mr_phase c p q (Suc k) ?n" using m True sent by (auto simp: mr_phase_def)
      with False show ?thesis using h eq by auto
    next
      case last: True
      have "zm_futureHandshakeResult m = None" using m True by (simp add: mr_phase_def)
      then have "mr_phase c p q 4 (snd (zm_finish (responderRole c (zp_device q)) ?n)) \<and>
          fst (zm_finish (responderRole c (zp_device q)) ?n) = Inr ()"
        using m last sent useKeysR [OF pe, of b] by (auto simp: zm_finish_def attempt_def mr_phase_def resultOf_def)
      then show ?thesis using h eq last by (cases "zm_finish (responderRole c (zp_device q)) ?n") auto
    qed
  qed
qed

lemma mr_receive:
  assumes pe: "zrtp_peers c p q" and m: "mr_phase c p q k m" and j: "j < 4"
  shows "mr_phase c p q (if j = k then Suc k else k)
    (snd (udp_onReceivedData (responderRole c (zp_device q)) (hp_wire (run_packetI c p q j) s) m))"
  using mr_packet [OF assms] packet_types(1) [OF pe j] mr_phase_socket [OF m] by (auto simp: receive_wire)

lemma mr_receive_other:
  assumes m: "mr_phase c p q k m" and d: "notHandshake d"
  shows "mr_phase c p q k (snd (udp_onReceivedData (responderRole c (zp_device q)) d m))"
proof -
  let ?r = "responderRole c (zp_device q)"
  obtain x where "udp_onReceivedData ?r d m = udp_catch ?r (zm_errorHandler ?r OperationFailed (Some x) False m)"
    using receive_other [OF d] mr_phase_socket [OF m] by blast
  then show ?thesis
    using m by (simp add: zm_errorHandler_def attempt_def zr_isAuthenticatedAudioDataImplyingConf2Ack_def)
qed

lemma mr_timer:
  assumes pe: "zrtp_peers c p q" and m: "mr_phase c p q k m" and r: "retransmitting m"
  shows "mr_phase c p q k (snd (zm_timerFires (responderRole c (zp_device q)) m))"
proof -
  obtain t where t: "zm_scheduled m = Some (ScheduledRetransmit t)"
    using r by (auto simp: retransmitting_def split: option.splits scheduledAction.splits)
  have k: "k \<le> 4" using m by (simp add: mr_phase_def)
  show ?thesis
  proof (cases "k = 4")
    case True
    then show ?thesis using m t by (simp add: zm_timerFires_def zm_handleRetransmit_def mr_phase_def)
  next
    case False
    have "zm_timerFires (responderRole c (zp_device q)) m = (Inr (), m\<lparr>zm_socket := zs_sentOne (run_packetR c p q k) (zm_socket m),
        zm_currentPacketTransmitCount := 1, zm_scheduled := Some (ScheduledRetransmit 150)\<rparr>)"
      using m False k t packet_types(2) [OF pe, of k] mr_phase_socket [OF m]
      by (intro timer_retransmits) (auto simp: mr_phase_def)
    then show ?thesis
      using m zs_has_again [of "run_packetR c p q" "Suc k" _ k] by (auto simp: mr_phase_def)
  qed
qed

subsection \<open>Both\<close>

text \<open>The initiator is level with the responder or one step ahead, unless authenticated audio made
  it finish before the responder did.\<close>

definition call_inv :: "zrtpCrypto \<Rightarrow> zrtpParty \<Rightarrow> zrtpParty \<Rightarrow> zrtpInitiator zrtpManager \<times> zrtpResponder zrtpManager \<Rightarrow> bool" where
  "call_inv c p q s \<longleftrightarrow> (\<exists>k r. mi_phase c p q k (fst s) \<and> mr_phase c p q r (snd s) \<and> r \<le> k \<and> (k \<le> Suc r \<or> k = 5))"

lemma run_hello_start:
  assumes "zrtp_peers c p q"
  shows "\<exists>mr. zrtp_call c p q = Inr (asyncPerformHandshakeInitiator c (zp_device p) (zrtpHandshakeSocketOverRtp False (zp_interop p))
      (zp_chain p) (zp_secrets p) (zp_confirmIv p) (zp_callController p), mr) \<and> mr_phase c p q 0 mr"
proof -
  have pr: "zrtp_primitives c" and q: "zrtp_party c q" using assms by (simp_all add: zrtp_peers_def)
  let ?z = "zrtpHandshakeSocketOverRtp False (zp_interop q)"
  let ?s = "(zr_phase c p q 0 0)\<lparr>zr_callController := zp_callController q\<rparr>"
  let ?m = "(zrtpManagerWithHandshakeSocket ?z ?s)\<lparr>zm_socket := ?z\<lparr>zs_hasHandler := True\<rparr>, zm_role := zr_phase c p q 0 0\<rparr>"
  have "zrtpResponderNew c (zp_device q) (zp_chain q) (zp_secrets q) (zp_confirmIv q) (zp_callController q) = Inr ?s"
    using run_hello_built [OF pr q] by (simp add: zrtpResponderNew_def zr_phase_def after_def)
  moreover have "zr_initialPacket ?s = (Inr (Some (run_packetR c p q 0)), zr_phase c p q 0 0)"
    using advance_securing(1) [OF q] by (simp add: zr_initialPacket_def zr_phase_def attempt_def run_packetR_def)
  moreover have "zm_setAndSendPacketToTransmit (run_packetR c p q 0) ?m = (Inr (), zm_answered (run_packetR c p q 0) ?m)"
    using packet_types(2) [OF assms, of 0]
    by (simp add: setAndSend_ok zrtpManagerWithHandshakeSocket_def zrtpHandshakeSocketOverRtp_def)
  ultimately have "asyncPerformHandshakeResponder c (zp_device q) ?z (zp_chain q) (zp_secrets q) (zp_confirmIv q)
      (zp_callController q) = Inr (zm_answered (run_packetR c p q 0) ?m)"
    by (simp add: asyncPerformHandshakeResponder_def zm_asyncPerformHandshake_def zs_startWithHandler_def attempt_def
        responderRole_def zrtpManagerWithHandshakeSocket_def zrtpHandshakeSocketOverRtp_def)
  moreover have "mr_phase c p q 0 (zm_answered (run_packetR c p q 0) ?m)"
    by (auto simp: mr_phase_def zs_has_def zs_sentOne_def zrtpManagerWithHandshakeSocket_def zrtpHandshakeSocketOverRtp_def)
  ultimately show ?thesis by (simp add: zrtp_call_def)
qed

lemma initiator_start:
  assumes "zrtp_peers c p q"
  shows "mi_phase c p q 0 (asyncPerformHandshakeInitiator c (zp_device p) (zrtpHandshakeSocketOverRtp False (zp_interop p))
      (zp_chain p) (zp_secrets p) (zp_confirmIv p) (zp_callController p))"
proof -
  have "zrtpInitiatorNew (zp_chain p) (zp_secrets p) (zp_confirmIv p) (zp_callController p) = zi_phase c p q 0 0"
    by (simp add: zrtpInitiatorNew_def zi_phase_def after_def)
  then show ?thesis
    by (auto simp: initiator_start_eq zrtpHandshakeSocketOverRtp_def zrtpManagerWithHandshakeSocket_def mi_phase_def
        zs_has_def retransmitting_def)
qed

lemma call_start:
  assumes "zrtp_peers c p q" and "zrtp_call c p q = Inr s"
  shows "call_inv c p q s"
  using run_hello_start [OF assms(1)] initiator_start [OF assms(1)] assms(2) by (auto simp: call_inv_def)

lemma sentR: "mr_phase c p q r m \<Longrightarrow> d \<in> set (zs_sent (zm_socket m)) \<Longrightarrow> \<exists>j s. j \<le> r \<and> j < 5 \<and> d = hp_wire (run_packetR c p q j) s"
  by (fastforce simp: mr_phase_def zs_has_def less_Suc_eq_le)

lemma sentI: "mi_phase c p q k m \<Longrightarrow> d \<in> set (zs_sent (zm_socket m)) \<Longrightarrow> \<exists>j s. j < k \<and> j < 4 \<and> d = hp_wire (run_packetI c p q j) s"
  by (fastforce simp: mi_phase_def zs_has_def)

lemma call_step:
  assumes pe: "zrtp_peers c p q" and inv: "call_inv c p q s" and step: "zrtp_step c p q s s'"
  shows "call_inv c p q s'"
proof -
  obtain mi mr where s: "s = (mi, mr)" by (cases s)
  obtain k r where i: "mi_phase c p q k mi" and q: "mr_phase c p q r mr" and kr: "r \<le> k" "k \<le> Suc r \<or> k = 5"
    using inv s by (auto simp: call_inv_def)
  have k5: "k \<le> 5" "r \<le> 4" using i q by (simp_all add: mi_phase_def mr_phase_def)
  from step [unfolded s] show ?thesis
  proof (cases rule: zrtp_step.cases)
    case (toInitiator d)
    show ?thesis
    proof (cases "notHandshake d")
      case True
      with mi_receive_other [OF pe i] q kr k5 toInitiator show ?thesis by (fastforce simp: call_inv_def)
    next
      case False
      then obtain j x where j: "j \<le> r" "j < 5" "d = hp_wire (run_packetR c p q j) x"
        using toInitiator sentR [OF q] by blast
      have "r \<le> (if j = k then Suc k else k)" "(if j = k then Suc k else k) \<le> Suc r \<or> (if j = k then Suc k else k) = 5"
        using kr j by auto
      then show ?thesis
        using mi_receive [OF pe i j(2), of x] q toInitiator(1,2) j(3) unfolding call_inv_def by (auto split del: if_split)
    qed
  next
    case (toResponder d)
    show ?thesis
    proof (cases "notHandshake d")
      case True
      with mr_receive_other [OF q] i kr toResponder show ?thesis by (auto simp: call_inv_def)
    next
      case False
      then obtain j x where j: "j < k" "j < 4" "d = hp_wire (run_packetI c p q j) x"
        using toResponder sentI [OF i] by blast
      have "(if j = r then Suc r else r) \<le> k" "k \<le> Suc (if j = r then Suc r else r) \<or> k = 5" using kr j by auto
      then show ?thesis
        using mr_receive [OF pe q j(2), of x] i toResponder(1,2) j(3) unfolding call_inv_def by (auto split del: if_split)
    qed
  next
    case initiatorTimer
    then show ?thesis using mi_timer [OF pe i] q kr by (auto simp: call_inv_def)
  next
    case responderTimer
    then show ?thesis using mr_timer [OF pe q] i kr by (auto simp: call_inv_def)
  qed
qed

lemma call_reachable:
  assumes "zrtp_peers c p q" and "zrtp_call c p q = Inr s" and "(zrtp_step c p q)\<^sup>*\<^sup>* s s'"
  shows "call_inv c p q s'"
  using assms(3) by (induction rule: rtranclp_induct) (auto intro: call_start [OF assms(1,2)] call_step [OF assms(1)])

lemma sockets_mirrored:
  assumes "zrtp_peers c p q"
  shows "srs_incomingContext (run_socketI c p q) = srs_outgoingContext (run_socketR c p q)"
    and "srs_outgoingContext (run_socketI c p q) = srs_incomingContext (run_socketR c p q)"
  using run_masterSecret_built(2) [OF assms]
  by (simp_all add: run_socketI_def run_socketR_def zi_useKeysToSecureRtpSocket_def zr_useKeysToSecureRtpSocket_def
      zi_hasHandshakeFinishedSuccessfully_def zr_hasHandshakeFinishedSuccessfully_def zi_phase_def zr_phase_def after_def
      needed_def ms_wf_def srtpSocketOverRtp_def srtpStreamWithCipherKey_def)

lemma call_finishes:
  assumes pe: "zrtp_peers c p q" and "mi_phase c p q k mi" and "mr_phase c p q r mr" and "r \<le> k" and "k \<le> Suc r \<or> k = 5"
  shows "\<exists>mi' mr'. (zrtp_step c p q)\<^sup>*\<^sup>* (mi, mr) (mi', mr') \<and> mi_phase c p q 5 mi' \<and> mr_phase c p q 4 mr'"
  using assms(2-)
proof (induction "9 - (k + r)" arbitrary: k r mi mr rule: less_induct)
  case less
  have k: "k \<le> 5" "r \<le> 4" using less.prems by (simp_all add: mi_phase_def mr_phase_def)
  consider "k = 5" "r = 4" | "r < 4" "r < k" | "k < 5" "k \<le> r" using k less.prems(4) by linarith
  then show ?case
  proof cases
    case 1
    with less.prems show ?thesis by blast
  next
    case 2
    then have "\<exists>x. hp_wire (run_packetI c p q r) x \<in> set (zs_sent (zm_socket mi))"
      using less.prems(1) by (simp add: mi_phase_def zs_has_def)
    then obtain x where x: "hp_wire (run_packetI c p q r) x \<in> set (zs_sent (zm_socket mi))" by blast
    define mr' where "mr' = snd (udp_onReceivedData (responderRole c (zp_device q)) (hp_wire (run_packetI c p q r) x) mr)"
    have "zrtp_step c p q (mi, mr) (mi, mr')" unfolding mr'_def using x by (intro zrtp_step.toResponder) blast
    moreover have m: "mr_phase c p q (Suc r) mr'"
      using mr_receive [OF pe less.prems(2) 2(1), of x] by (simp add: mr'_def)
    moreover have "9 - (k + Suc r) < 9 - (k + r)" using 2 k by simp
    ultimately obtain ni nr where "(zrtp_step c p q)\<^sup>*\<^sup>* (mi, mr') (ni, nr)" "mi_phase c p q 5 ni" "mr_phase c p q 4 nr"
      using less.hyps [of k "Suc r" mi mr'] less.prems 2 by auto
    with \<open>zrtp_step c p q (mi, mr) (mi, mr')\<close> show ?thesis by (blast intro: converse_rtranclp_into_rtranclp)
  next
    case 3
    then have "\<exists>x. hp_wire (run_packetR c p q k) x \<in> set (zs_sent (zm_socket mr))"
      using less.prems(2) by (simp add: mr_phase_def zs_has_def)
    then obtain x where x: "hp_wire (run_packetR c p q k) x \<in> set (zs_sent (zm_socket mr))" by blast
    define mi' where "mi' = snd (udp_onReceivedData (initiatorRole c (zp_device p) False) (hp_wire (run_packetR c p q k) x) mi)"
    have "zrtp_step c p q (mi, mr) (mi', mr)" unfolding mi'_def using x by (intro zrtp_step.toInitiator) blast
    moreover have m: "mi_phase c p q (Suc k) mi'"
      using mi_receive [OF pe less.prems(1) 3(1), of x] by (simp add: mi'_def)
    moreover have "9 - (Suc k + r) < 9 - (k + r)" using 3 k by simp
    ultimately obtain ni nr where "(zrtp_step c p q)\<^sup>*\<^sup>* (mi', mr) (ni, nr)" "mi_phase c p q 5 ni" "mr_phase c p q 4 nr"
      using less.hyps [of "Suc k" r mi' mr] less.prems 3 by auto
    with \<open>zrtp_step c p q (mi, mr) (mi', mr)\<close> show ?thesis by (blast intro: converse_rtranclp_into_rtranclp)
  qed
qed

subsection \<open>Properties\<close>



subsection \<open>Two concrete devices\<close>

definition exampleParty :: "bool \<Rightarrow> zrtpParty" where
  "exampleParty b = \<lparr>zp_device = exampleDevice, zp_chain = exampleChain, zp_secrets = exampleSecrets,
     zp_confirmIv = replicate 16 4, zp_callController = callControllerForCall b, zp_interop = False\<rparr>"

lemma example_peers: "zrtp_peers exampleCrypto (exampleParty True) (exampleParty False)"
proof -
  have "zrtp_primitives exampleCrypto"
    by (auto simp: zrtp_primitives_def exampleCrypto_def exampleSha256_def min_def)
  moreover have "hashChainWithSeed exampleSha256 (replicate 32 3) = Inr exampleChain"
    by (simp add: exampleChain_def hashChainWithSeed_def Let_def)
  moreover have "dhPacketSharedSecretHashesWith (replicate 8 1) (replicate 8 2) (replicate 8 3) (replicate 8 4) = Inr exampleSecrets"
    by (simp add: dhPacketSharedSecretHashesWith_def exampleSecrets_def)
  ultimately show ?thesis
    by (auto simp: zrtp_peers_def zrtp_party_def exampleParty_def exampleDevice_def exampleCrypto_def keys_agree_def
        handshakeType_def callControllerForCall_def cc_wf_def)
qed

definition exampleCall :: "zrtpInitiator zrtpManager \<times> zrtpResponder zrtpManager" where
  "exampleCall = projr (zrtp_call exampleCrypto (exampleParty True) (exampleParty False))"

lemma exampleCall_eq: "zrtp_call exampleCrypto (exampleParty True) (exampleParty False) = Inr exampleCall"
  using run_hello_start [OF example_peers] by (auto simp: exampleCall_def)



end
