(* ===== verification/Spec2Isabelle.thy ===== *)
theory Spec2Isabelle
  imports Base64 Crc32 CyclicalBuffer PriorityQueue AudioPacker JitterQueue RtpPacket Srtp
    HandshakePacket HelloPacket ZrtpPackets SasWords MasterSecret
    SpeexExcTables LspQuant OggCapture OggPackStream SpeexJitterOrder SpeexCodec SpeexDecoderProps
    ZrtpAgreement
begin

text \<open>
  A model of the call core of Signal for iOS (\<open>Signal/src\<close>) and of the parts of the C libraries it
  carries for voice (\<open>Libraries/speex\<close>: the Speex codec and the Ogg library).

  \<^bold>\<open>How the program works.\<close> A secure call is set up by a ZRTP handshake over the RTP socket of the
  call: \<open>ZrtpManager\<close> drives a role, \<open>ZrtpInitiator\<close> or \<open>ZrtpResponder\<close>, which answers each handshake
  packet with the next one; the packets travel as RTP packets with a header extension
  (\<open>HandshakePacket\<close>, with a CRC-32), and the outcome is a \<open>MasterSecret\<close>, from which both sides
  derive the keys and the short authentication string the users compare. From then on audio frames are encoded, gathered
  into packets (\<open>AudioPacker\<close>), encrypted and authenticated (\<open>SrtpSocket\<close> and two \<open>SrtpStream\<close>s), and
  received ones are put in order by the jitter queue (\<open>JitterQueue\<close>) over a heap
  (\<open>PriorityQueue\<close>) and decoded, or concealed where they are missing (\<open>SpeexCodec\<close> over the decoder of
  the Speex library). \<open>CallController\<close> holds the progress and the end of the call.
  The C libraries pack codec parameters into bits, decode them into speech, reorder packets by
  time stamp, and cut packets into checksummed pages and back.

  \<^bold>\<open>The theories.\<close> Each models the files it names, in their order, and carries their properties.

  \<^item> \<open>Prelude\<close>: bytes, exceptions and the guard macros of the Objective-C sources
    (\<open>ows_require\<close>, \<open>requireState\<close>, \<open>checkOperation\<close>, \<open>checkSecurityOperation\<close>), results and the lemmas shared by all.
    \<open>CMemory\<close>: checked accesses to C arrays, and the allocator.
  \<^item> \<open>DataUtil\<close>, \<open>Base64\<close>, \<open>Crc32\<close>: \<open>util/DataUtil.m\<close>, \<open>StringUtil.m\<close>, \<open>NumberUtil.m\<close>, \<open>Conversions.m\<close>, \<open>ArrayUtil.m\<close>, \<open>Crc32.m\<close>.
    The table-driven checksum is the bit-serial shift register.
  \<^item> \<open>CyclicalBuffer\<close>, \<open>PriorityQueue\<close>: \<open>util/collections\<close>. The buffer refines a FIFO; the heap sorts.
  \<^item> \<open>AudioPacker\<close>, \<open>JitterQueue\<close>: \<open>audio/incall_audio\<close>. The invariant of the jitter queue over every run, order
    of delivery, bounds of its depth.
  \<^item> \<open>RtpPacket\<close>, \<open>Srtp\<close>: \<open>network/rtp\<close>. Round trips of packets and of encryption, refusal of forgeries,
    distinct initialization vectors.
  \<^item> \<open>HandshakePacket\<close>, \<open>HelloPacket\<close>, \<open>ZrtpPackets\<close>, \<open>SasWords\<close>, \<open>MasterSecret\<close>: \<open>network/rtp/zrtp\<close> and its \<open>packets\<close>.
    Round trips, damage that is detected, key derivation.
  \<^item> \<open>CallController\<close>: \<open>phone/callstate\<close>. What never changes back over any history of a call.
  \<^item> \<open>ZrtpRoles\<close>, \<open>ZrtpManager\<close>: the two roles, the manager with its timers and retransmissions, the handshake
    socket, and the path of a datagram to it. \<open>ZrtpManagerSafety\<close>: the locale \<open>zrtp_role\<close>, what the manager asks
    of a role, interpreted by both; its invariant. \<open>ZrtpRun\<close>, \<open>ZrtpPhases\<close>: the packets of a run and the
    phases of each role. \<open>ZrtpAgreement\<close>: the step relation \<open>zrtp_step\<close> of two devices and a network that
    loses, repeats, delays and reorders datagrams; agreement in every reachable state, and a way to complete from each.
  \<^item> \<open>FixedPoint\<close>, \<open>SpeexExcTables\<close>, \<open>SpeexLspTables\<close>, \<open>SpeexBits\<close>, \<open>LspQuant\<close>: \<open>fixed_generic.h\<close>, the codebooks, \<open>bits.c\<close>,
    \<open>quant_lsp.c\<close>. Bit streams read back what was written, encoder and decoder agree, no access leaves a table.
  \<^item> \<open>CSafety\<close>: loops over C arrays that may fail, and the rules for proving that they do not.
    \<open>SpeexMath\<close>, \<open>SpeexFilters\<close>, \<open>SpeexLsp\<close>, \<open>SpeexUnquant\<close>: what the decoder is made of (\<open>math_approx.h\<close>, \<open>filters.c\<close>, \<open>lsp.c\<close>,
    \<open>ltp.c\<close>, \<open>cb_search.c\<close>, \<open>modes.c\<close>); \<open>SpeexFilterSafety\<close>, \<open>SpeexLspSafety\<close>, \<open>SpeexUnquantSafety\<close> show where each reads
    and writes, and how many bits it takes.
  \<^item> \<open>SpeexDecoder\<close>, \<open>SpeexDecoderCtl\<close>: the narrow-band decoder (\<open>nb_celp.c\<close>, \<open>speex_callbacks.c\<close>), frames, lost frames and
    requests. \<open>SpeexDecoderSafety\<close>: its invariant \<open>decOk\<close>, and the locale \<open>submode\<close>, what a frame asks of its sub-mode,
    interpreted in \<open>SpeexDecoderRun\<close> by the eight of the table; \<open>SpeexFrameSearch\<close>: the locale \<open>handlers\<close>, what the search for
    a frame asks of the callbacks, interpreted by the default ones. \<open>SpeexDecoderProps\<close>: what the decoder promises its
    callers. \<open>SpeexCodec\<close>: the decoding half of \<open>audio/incall_audio/SpeexCodec.m\<close>.
  \<^item> \<open>SpeexJitter\<close>, \<open>SpeexJitterSafety\<close>, \<open>SpeexJitterOrder\<close>: \<open>jitter.c\<close>. Safety of any mix of calls; packets put in
    any order come out in order.
  \<^item> \<open>OggPage\<close>, \<open>OggStream\<close>, \<open>OggSync\<close>, \<open>OggSender\<close>, \<open>OggReceiver\<close>, \<open>OggDelivery\<close>, \<open>OggCapture\<close>: \<open>include/framing.c\<close>. Pages and their
    checksum, both sides of a stream, the search for pages in a byte stream; delivery of packets
    end to end, and capture of pages however their bytes are cut.
  \<^item> \<open>OggPack\<close>, \<open>OggPackBits\<close>, \<open>OggPackStream\<close>: \<open>include/bitwise.c\<close>. The reader refines a reader of a list of bits; round
    trip of both bit orders.

  \<^bold>\<open>Conventions.\<close> An Objective-C method that may raise gives \<open>Inl\<close> of the exception or \<open>Inr\<close> of its
  result; where an exception escapes after a change of the state, the state is returned beside it.
  \<open>nil\<close> is \<open>None\<close>. Unsigned counters keep their width as words; where the sources use an \<open>NSUInteger\<close>
  as a length it is a natural number, and what the source makes of a wrap-around is written out. A C operation gives
  \<open>None\<close> where the source would access memory outside an array, divide by zero, shift by more than the width or
  never return, so a theorem that it gives \<open>Some\<close> is safety. The codec is its fixed-point build in plain C: numbers are
  integers, each stored value wraps to its width, and so does an overflow of \<open>int\<close>, which C leaves undefined. A pointer into an array is
  the array and an index; a call with one array as source and target is given it twice. Temporary arrays
  start as zeros where the source fills them before it reads them, except the matrices of \<open>lsp_to_lpc\<close>,
  whose unwritten cells have no value. Loops recurse on their data or on a measure; the search for pages, which
  reads until nothing is left, is shown to end. The loop that writes the terminator of a Speex bit stream has fuel, eight steps, which is the most it can take.

  \<^bold>\<open>Parameters.\<close> What is not in this repository is an argument of the definitions: the hashes, codes and
  ciphers of OpenSSL and CommonCrypto (the record \<open>zrtpCrypto\<close> and its like), the random numbers, the
  devices with their key agreement, and the allocator, which may fail. Hypotheses on them state
  documented behaviour only (lengths of codes, decryption undoes encryption, both sides of a key
  agreement get one secret), and each theorem that has one has a witness with concrete functions.

  \<^bold>\<open>What the model showed.\<close> The manager of the handshake retransmits for ever at its first delay; one
  datagram shorter than an RTP header ends a call; the hash identifiers of a Hello packet are never
  seen by its receiver; the Speex jitter buffer can write past the buffer of a caller of
  \<open>jitter_buffer_get_another\<close>; a block copy of the Ogg bit packer loses the stream instead of growing; the decoder
  rejects a frame whose wide-band layer is empty (\<open>null_layer_is_error\<close>), takes any number as a sub-mode (\<open>set_mode_unchecked\<close>) and
  keeps the newest excitation over a reset (\<open>reset_keeps_excitation\<close>). Each is a theorem.

  \<^bold>\<open>Not modelled.\<close> The user interface, storage, contacts and push messages of the application and its
  messaging (glue over frameworks and over services outside this repository); the call service in
  Swift over WebRTC; generated protocol-buffer code; calls of the system for sockets, name resolution,
  TLS and audio devices; HTTP signaling; the floating-point controllers of playback
  speed. Of the Speex library: the encoder and the wide band, whose results the narrow-band decoder does not depend on;
  of the decoder's requests the registration of callbacks, which are arguments here, the activity, which is
  in floating point, and the address of the stack; echo cancellation, noise suppression, resampling, transforms,
  stereo and the stream header, which the application does not call. Spandsp is a set of headers only.
\<close>

end
